(* ===== verification/Prelude.thy ===== *)
theory Prelude
  imports Main "HOL-Library.Char_ord" "HOL-Library.List_Lexorder"
begin

text \<open>
  Shared vocabulary of the LIPAS model: the exceptions the Python code raises, the
  result type \<open>exn + 'a\<close> with its sequencing operator, SQL tables as lists of rows
  (insertion order is \<open>rowid\<close> order) with \<open>SELECT\<close>, \<open>UPDATE\<close> and \<open>rowcount\<close>,
  dictionaries in insertion order, and the string primitives the code uses.
\<close>

named_theorems sql_simps "facts about tables that carry the store proofs"
named_theorems dict_simps "facts about insertion-ordered dictionaries"

section \<open>Exceptions and results\<close>

text \<open>
  One constructor per exception class that the modelled code raises or lets escape.
  Messages are not modelled, except for the row violations a \<open>RowSet\<close> reports.
  \<open>Foreign\<close> is an exception of application code: whether it is an \<open>Exception\<close>, its class
  and its message. \<open>SQLiteError\<close> is an error of the database driver: whether it is an
  \<open>OperationalError\<close>, its extended code if it has one, and its message.
\<close>

datatype exn =
    ValueError | TypeError | KeyError | AssertionError | OverflowError
  | RuntimeError
  | IntegrityError
  | ExecutionStateError | ExecutionLeaseError | CheckpointConflict
  | ExecutionSchemaVersionMismatch | MailboxSchemaVersionMismatch
  | ClaimIdConflict | InvariantViolation "(string \<times> string) list"
  | UnserializableClaim
  | AttributeError
  | MailboxLeaseError | PendingOperation | OperationStateError
  | OperationSchemaVersionMismatch | PermissionError | Interrupt
  | ProgrammingError
  | ReplayMissing | ReplayRefused | ReplayConfigError | ClassDowngradeError
  | OrphanedEffectError | ToolNotFoundError | DuplicateToolError
  | Cancelled | StreamProtocolError | RunCancelled | CoordinationResultError
  | LipasError | SchemaVersionMismatch | SQLiteError bool "int option" string
  | Foreign bool string string

text \<open>
  \<open>ebind m f\<close> runs \<open>m\<close> and hands its value to \<open>f\<close>; an exception of \<open>m\<close> is the
  exception of the whole. It is the sequencing of Python statements that may raise.
\<close>

fun ebind :: "'e + 'a \<Rightarrow> ('a \<Rightarrow> 'e + 'b) \<Rightarrow> 'e + 'b" where
  "ebind (Inl e) f = Inl e"
| "ebind (Inr x) f = f x"

definition guard_or :: "'e \<Rightarrow> bool \<Rightarrow> 'e + unit" where
  "guard_or e b = (if b then Inr () else Inl e)"

fun emap :: "('a \<Rightarrow> 'e + 'b) \<Rightarrow> 'a list \<Rightarrow> 'e + 'b list" where
  "emap f [] = Inr []"
| "emap f (x # xs) = ebind (f x) (\<lambda>y. ebind (emap f xs) (\<lambda>ys. Inr (y # ys)))"

fun efoldl :: "('s \<Rightarrow> 'a \<Rightarrow> 'e + 's) \<Rightarrow> 's \<Rightarrow> 'a list \<Rightarrow> 'e + 's" where
  "efoldl f s [] = Inr s"
| "efoldl f s (x # xs) = ebind (f s x) (\<lambda>s'. efoldl f s' xs)"

lemma ebind_eq_Inr_iff [simp]:
  "ebind m f = Inr y \<longleftrightarrow> (\<exists>x. m = Inr x \<and> f x = Inr y)"
  by (cases m) auto

lemma ebind_eq_Inl_iff:
  "ebind m f = Inl e \<longleftrightarrow> m = Inl e \<or> (\<exists>x. m = Inr x \<and> f x = Inl e)"
  by (cases m) auto

lemma ebind_Inr_right [simp]: "ebind m Inr = m"
  by (cases m) auto

lemma ebind_assoc: "ebind (ebind m f) g = ebind m (\<lambda>x. ebind (f x) g)"
  by (cases m) auto

lemma guard_or_eq_Inr [simp]: "guard_or e b = Inr u \<longleftrightarrow> b"
  by (simp add: guard_or_def)

lemma guard_or_eq_Inl [simp]: "guard_or e b = Inl e' \<longleftrightarrow> \<not> b \<and> e' = e"
  by (auto simp: guard_or_def)

lemma guard_or_True [simp]: "guard_or e True = Inr ()"
  by (simp add: guard_or_def)

lemma guard_or_False [simp]: "guard_or e False = Inl e"
  by (simp add: guard_or_def)

lemma emap_cong [fundef_cong]:
  "xs = ys \<Longrightarrow> (\<And>x. x \<in> set ys \<Longrightarrow> f x = g x) \<Longrightarrow> emap f xs = emap g ys"
  by (induction ys arbitrary: xs) auto

lemma emap_Inr_length: "emap f xs = Inr ys \<Longrightarrow> length ys = length xs"
  by (induction xs arbitrary: ys) auto

lemma emap_cong_Inr: "(\<And>x. x \<in> set xs \<Longrightarrow> f x = Inr (g x)) \<Longrightarrow> emap f xs = Inr (map g xs)"
  by (induction xs) auto

lemma emap_Inr_set:
  "emap f xs = Inr ys \<Longrightarrow> y \<in> set ys \<Longrightarrow> \<exists>x \<in> set xs. f x = Inr y"
  by (induction xs arbitrary: ys) auto

lemma efoldl_append:
  "efoldl f s (xs @ ys) = ebind (efoldl f s xs) (\<lambda>s'. efoldl f s' ys)"
proof (induction xs arbitrary: s)
  case Nil
  show ?case by simp
next
  case (Cons x xs)
  then show ?case by (cases "f s x") simp_all
qed

text \<open>A loop whose every step keeps an invariant keeps it.\<close>

lemma efoldl_invariant:
  assumes "efoldl f s xs = Inr s'" and "P s"
    and "\<And>s x s'. x \<in> set xs \<Longrightarrow> P s \<Longrightarrow> f s x = Inr s' \<Longrightarrow> P s'"
  shows "P s'"
  using assms
proof (induction xs arbitrary: s)
  case Nil
  then show ?case by simp
next
  case (Cons x xs)
  from Cons.prems(1) obtain s1 where s1: "f s x = Inr s1" "efoldl f s1 xs = Inr s'"
    by auto
  have "P s1" by (rule Cons.prems(3) [OF _ Cons.prems(2) s1(1)]) simp
  with s1(2) show ?case by (rule Cons.IH) (rule Cons.prems(3), auto)
qed

section \<open>SQL tables\<close>

text \<open>
  A table is the list of its rows in \<open>rowid\<close> order. \<open>sql_update p f\<close> is
  \<open>UPDATE \<dots> SET f WHERE p\<close>; \<open>sql_count p\<close> is the \<open>rowcount\<close> of that statement;
  \<open>sql_first p\<close> is \<open>SELECT \<dots> WHERE p\<close> with \<open>fetchone\<close>.
\<close>

definition sql_update :: "('r \<Rightarrow> bool) \<Rightarrow> ('r \<Rightarrow> 'r) \<Rightarrow> 'r list \<Rightarrow> 'r list" where
  "sql_update p f t = map (\<lambda>r. if p r then f r else r) t"

definition sql_count :: "('r \<Rightarrow> bool) \<Rightarrow> 'r list \<Rightarrow> nat" where
  "sql_count p t = length (filter p t)"

definition sql_first :: "('r \<Rightarrow> bool) \<Rightarrow> 'r list \<Rightarrow> 'r option" where
  "sql_first p t = find p t"

text \<open>\<open>ORDER BY\<close>: a stable insertion sort by a comparison of rows.\<close>

fun ins_by :: "('r \<Rightarrow> 'r \<Rightarrow> bool) \<Rightarrow> 'r \<Rightarrow> 'r list \<Rightarrow> 'r list" where
  "ins_by le x [] = [x]"
| "ins_by le x (y # ys) = (if le x y then x # y # ys else y # ins_by le x ys)"

definition sql_order :: "('r \<Rightarrow> 'r \<Rightarrow> bool) \<Rightarrow> 'r list \<Rightarrow> 'r list" where
  "sql_order le t = foldr (ins_by le) t []"

lemma set_ins_by [simp]: "set (ins_by le x ys) = insert x (set ys)"
  by (induction ys) auto

lemma set_sql_order [simp, sql_simps]: "set (sql_order le t) = set t"
  by (induction t) (auto simp: sql_order_def)

lemma length_ins_by [simp]: "length (ins_by le x ys) = Suc (length ys)"
  by (induction ys) auto

lemma length_sql_order [simp, sql_simps]: "length (sql_order le t) = length t"
  by (induction t) (auto simp: sql_order_def)

lemma sql_first_Some: "sql_first p t = Some r \<Longrightarrow> r \<in> set t \<and> p r"
  by (auto simp: sql_first_def find_Some_iff)

lemma sql_first_None: "sql_first p t = None \<longleftrightarrow> (\<forall>r \<in> set t. \<not> p r)"
  by (auto simp: sql_first_def find_None_iff)

lemma sql_first_append:
  "sql_first p (t @ u) = (case sql_first p t of None \<Rightarrow> sql_first p u | Some r \<Rightarrow> Some r)"
  by (induction t) (auto simp: sql_first_def)

lemma sql_first_Cons [simp]:
  "sql_first p (r # t) = (if p r then Some r else sql_first p t)"
  by (simp add: sql_first_def)

lemma sql_first_Nil [simp]: "sql_first p [] = None"
  by (simp add: sql_first_def)

lemma sql_count_pos: "0 < sql_count p t \<longleftrightarrow> (\<exists>r \<in> set t. p r)"
  by (induction t) (auto simp: sql_count_def)

lemma sql_count_0: "sql_count p t = 0 \<longleftrightarrow> (\<forall>r \<in> set t. \<not> p r)"
  by (induction t) (auto simp: sql_count_def)

lemma length_sql_update [simp, sql_simps]: "length (sql_update p f t) = length t"
  by (simp add: sql_update_def)

lemma sql_update_Nil [simp]: "sql_update p f [] = []"
  by (simp add: sql_update_def)

lemma sql_update_Cons [simp]:
  "sql_update p f (r # t) = (if p r then f r else r) # sql_update p f t"
  by (simp add: sql_update_def)

lemma sql_update_id: "(\<And>r. r \<in> set t \<Longrightarrow> \<not> p r) \<Longrightarrow> sql_update p f t = t"
  by (induction t) auto

lemma in_sql_update:
  "r \<in> set (sql_update p f t) \<longleftrightarrow> (\<exists>r0 \<in> set t. r = (if p r0 then f r0 else r0))"
  by (auto simp: sql_update_def)

text \<open>An update that keeps the key column keeps the keys.\<close>

lemma map_key_sql_update:
  "(\<And>r. key (f r) = key r) \<Longrightarrow> map key (sql_update p f t) = map key t"
  by (induction t) auto

lemma key_set_sql_update:
  "(\<And>r. key (f r) = key r) \<Longrightarrow> key ` set (sql_update p f t) = key ` set t"
  by (induction t) auto

text \<open>With distinct keys, a key select returns the one row with that key.\<close>

lemma sql_first_key:
  "distinct (map key t) \<Longrightarrow> sql_first (\<lambda>r. key r = k) t = Some r \<longleftrightarrow> r \<in> set t \<and> key r = k"
  by (induction t) (auto simp: image_iff)

lemma sql_first_key_update:
  assumes "\<And>r. key (f r) = key r"
  shows "sql_first (\<lambda>r. key r = k) (sql_update p f t)
    = map_option (\<lambda>r. if p r then f r else r) (sql_first (\<lambda>r. key r = k) t)"
  using assms by (induction t) auto

lemma distinct_key_unique:
  "distinct (map key t) \<Longrightarrow> r \<in> set t \<Longrightarrow> r' \<in> set t \<Longrightarrow> key r = key r' \<Longrightarrow> r = r'"
  by (meson distinct_map inj_onD)

lemma filter_unique_key:
  "distinct (map key t) \<Longrightarrow> r \<in> set t \<Longrightarrow> p r \<Longrightarrow> (\<And>q. q \<in> set t \<Longrightarrow> p q \<Longrightarrow> key q = key r) \<Longrightarrow> filter p t = [r]"
proof (induction t)
  case (Cons q t)
  have u: "\<And>x. x \<in> set (q # t) \<Longrightarrow> p x \<Longrightarrow> x = r"
    using distinct_key_unique [OF Cons.prems(1)] Cons.prems(2,4) by blast
  show ?case
  proof (cases "r = q")
    case True
    with Cons.prems(1) have "r \<notin> set t" by auto
    then have "filter p t = []" using u by (auto simp: filter_empty_conv)
    then show ?thesis using True Cons.prems(3) by simp
  next
    case False
    then have np: "\<not> p q" using u [of q] by auto
    have "filter p t = [r]"
    proof (rule Cons.IH)
      show "distinct (map key t)" using Cons.prems(1) by simp
      show "r \<in> set t" using Cons.prems(2) False by simp
      show "key x = key r" if "x \<in> set t" "p x" for x using Cons.prems(4) [of x] that by simp
    qed (rule Cons.prems(3))
    then show ?thesis using np by simp
  qed
qed simp

text \<open>The \<open>rowcount\<close> of an update addressed by primary key is at most one.\<close>

lemma sql_count_key:
  assumes "distinct (map key t)"
  shows "sql_count (\<lambda>r. key r = k \<and> q r) t
    = (case sql_first (\<lambda>r. key r = k) t of None \<Rightarrow> 0 | Some r \<Rightarrow> if q r then 1 else 0)"
  using assms
proof (induction t)
  case Nil
  show ?case by (simp add: sql_count_def)
next
  case (Cons r t)
  then have IH: "sql_count (\<lambda>r. key r = k \<and> q r) t
      = (case sql_first (\<lambda>r. key r = k) t of None \<Rightarrow> 0 | Some r \<Rightarrow> if q r then 1 else 0)"
    and new: "key r \<notin> key ` set t" by auto
  show ?case
  proof (cases "key r = k")
    case True
    then have "sql_first (\<lambda>r. key r = k) t = None"
      using new by (auto simp: sql_first_None) (metis imageI)
    with True IH show ?thesis by (simp add: sql_count_def)
  next
    case False
    with IH show ?thesis by (simp add: sql_count_def)
  qed
qed

section \<open>Dictionaries in insertion order\<close>

text \<open>
  A Python \<open>dict\<close> is an association list with distinct keys: assignment replaces the
  value in place or appends; \<open>map_of\<close> is the lookup.
\<close>

fun dict_put :: "'k \<Rightarrow> 'v \<Rightarrow> ('k \<times> 'v) list \<Rightarrow> ('k \<times> 'v) list" where
  "dict_put k v [] = [(k, v)]"
| "dict_put k v ((k', v') # d) = (if k = k' then (k, v) # d else (k', v') # dict_put k v d)"

definition dict_update :: "('k \<times> 'v) list \<Rightarrow> ('k \<times> 'v) list \<Rightarrow> ('k \<times> 'v) list" where
  "dict_update d e = foldl (\<lambda>d (k, v). dict_put k v d) d e"

definition dict_get :: "'v \<Rightarrow> ('k \<times> 'v) list \<Rightarrow> 'k \<Rightarrow> 'v" where
  "dict_get dflt d k = (case map_of d k of None \<Rightarrow> dflt | Some v \<Rightarrow> v)"

lemma map_of_dict_put [simp, dict_simps]: "map_of (dict_put k v d) = (map_of d)(k \<mapsto> v)"
  by (induction d) (auto simp: fun_eq_iff)

lemma keys_dict_put [simp, dict_simps]: "fst ` set (dict_put k v d) = insert k (fst ` set d)"
  by (induction k v d rule: dict_put.induct) auto

lemma distinct_dict_put [simp, dict_simps]:
  "distinct (map fst d) \<Longrightarrow> distinct (map fst (dict_put k v d))"
  by (induction k v d rule: dict_put.induct) auto

lemma set_dict_put: "set (dict_put k v d) \<subseteq> insert (k, v) (set d)"
  by (induction k v d rule: dict_put.induct) auto

lemma dict_put_all:
  "\<forall>kv \<in> set d. P (snd kv) \<Longrightarrow> P v \<Longrightarrow> \<forall>kv \<in> set (dict_put k v d). P (snd kv)"
  using set_dict_put [of k v d] by auto

lemma map_of_dict_update [dict_simps]:
  "distinct (map fst e) \<Longrightarrow> map_of (dict_update d e) = map_of d ++ map_of e"
proof (induction e arbitrary: d)
  case Nil
  show ?case by (simp add: dict_update_def)
next
  case (Cons x e)
  obtain k v where x: "x = (k, v)" by (cases x)
  with Cons.prems have new: "map_of e k = None"
    by (simp add: map_of_eq_None_iff)
  have "map_of (dict_update d (x # e)) = map_of (dict_put k v d) ++ map_of e"
    using Cons.IH [of "dict_put k v d"] Cons.prems
    by (simp add: x dict_update_def del: map_of_dict_put)
  also have "\<dots> = map_of d ++ map_of (x # e)"
    using new by (auto simp add: x fun_eq_iff map_add_def split: option.splits)
  finally show ?case .
qed

section \<open>Strings\<close>

text \<open>
  Strings are lists of characters with code below 256 (a code point above that range
  stands as its UTF-8 bytes); \<open>strip\<close> removes the characters that \<open>str.isspace\<close>
  accepts in that range.
\<close>

definition is_space :: "char \<Rightarrow> bool" where
  "is_space c = (let n = of_char c :: nat in
     (9 \<le> n \<and> n \<le> 13) \<or> (28 \<le> n \<and> n \<le> 32) \<or> n = 133 \<or> n = 160)"

definition strip :: "string \<Rightarrow> string" where
  "strip s = rev (dropWhile is_space (rev (dropWhile is_space s)))"

definition ascii_lower :: "string \<Rightarrow> string" where
  "ascii_lower s = map (\<lambda>c. let n = of_char c :: nat in if 65 \<le> n \<and> n \<le> 90 then char_of (n + 32) else c) s"

fun digits :: "nat \<Rightarrow> string" where
  "digits n = (if n < 10 then [char_of (48 + n)] else digits (n div 10) @ [char_of (48 + n mod 10)])"

declare digits.simps [simp del]

text \<open>\<open>str(i)\<close> of an integer, as the f-strings of the code use it.\<close>

definition str_int :: "int \<Rightarrow> string" where
  "str_int i = (if i < 0 then CHR ''-'' # digits (nat (- i)) else digits (nat i))"

lemma dropWhile_idem_hd: "dropWhile P xs = [] \<or> \<not> P (hd (dropWhile P xs))"
  using hd_dropWhile [of P xs] by (cases "dropWhile P xs = []") auto

lemma strip_idem [simp]: "strip (strip s) = strip s"
proof -
  let ?d = "dropWhile is_space"
  let ?t = "?d (rev (?d s))"
  have keep: "?d (rev ?t) = rev ?t"
  proof (cases "?t = []")
    case True
    then show ?thesis by (simp only: rev.simps dropWhile.simps)
  next
    case False
    let ?u = "?d s"
    obtain w where w: "rev ?u = w @ ?t"
      using takeWhile_dropWhile_id [of is_space "rev ?u"] by metis
    then have u: "?u = rev ?t @ rev w" by (metis rev_append rev_rev_ident)
    have ne: "rev ?t \<noteq> []" using False by (simp only: rev_is_Nil_conv not_False_eq_True)
    have "?u \<noteq> []" by (rule notI) (use u ne in \<open>metis append_is_Nil_conv\<close>)
    then have "\<not> is_space (hd ?u)" using dropWhile_idem_hd [of is_space s] by metis
    moreover have "hd ?u = hd (rev ?t)" by (metis hd_append2 ne u)
    ultimately have "\<not> is_space (hd (rev ?t))" by metis
    with ne show ?thesis by (metis dropWhile.simps(2) list.exhaust_sel)
  qed
  have "?d ?t = ?t" by simp
  with keep show ?thesis by (simp add: strip_def)
qed

lemma strip_no_space: "(\<And>c. c \<in> set s \<Longrightarrow> \<not> is_space c) \<Longrightarrow> strip s = s"
proof -
  assume a: "\<And>c. c \<in> set s \<Longrightarrow> \<not> is_space c"
  have drop: "dropWhile is_space t = t" if "\<And>c. c \<in> set t \<Longrightarrow> \<not> is_space c" for t
    using that by (cases t) auto
  show ?thesis using drop [of s] drop [of "rev s"] a by (simp add: strip_def)
qed

lemma last_digits_unique: "digits m \<noteq> []"
  by (subst digits.simps) simp

lemma char_of_digit_inj:
  "a < 10 \<Longrightarrow> b < 10 \<Longrightarrow> (char_of (48 + a :: nat) :: char) = char_of (48 + b) \<longleftrightarrow> a = b"
  using of_char_of [of "48 + a"] of_char_of [of "48 + b"] by auto

lemma digits_no_colon: "CHR '':'' \<notin> set (digits n)"
proof (induction n rule: less_induct)
  case (less n)
  have c: "(char_of (48 + k) :: char) \<noteq> CHR '':''" if "k < 10" for k :: nat
  proof
    assume "(char_of (48 + k) :: char) = CHR '':''"
    then have "(of_char (char_of (48 + k) :: char) :: nat) = of_char (CHR '':'')" by simp
    with that show False by simp
  qed
  show ?case
    using c [of n] c [of "n mod 10"] less [of "n div 10"] by (subst digits.simps) auto
qed

lemma digits_inj: "digits m = digits n \<Longrightarrow> m = n"
proof (induction m arbitrary: n rule: less_induct)
  case (less m)
  have ne: "\<And>k::nat. digits (k div 10) \<noteq> []" by (rule last_digits_unique)
  consider "m < 10" "n < 10" | "\<not> m < 10" "\<not> n < 10" | "(m < 10) \<noteq> (n < 10)" by blast
  then show ?case
  proof cases
    case 1
    with less.prems show ?thesis
      by (simp add: digits.simps [of m] digits.simps [of n] char_of_digit_inj)
  next
    case 2
    with less.prems have "digits (m div 10) = digits (n div 10)"
      and "(char_of (48 + m mod 10) :: char) = char_of (48 + n mod 10)"
      by (simp_all add: digits.simps [of m] digits.simps [of n])
    moreover from this(2) have "m mod 10 = n mod 10" by (simp add: char_of_digit_inj)
    moreover have "m div 10 < m" using 2 by simp
    ultimately have "m div 10 = n div 10" using less.IH by blast
    with \<open>m mod 10 = n mod 10\<close> show ?thesis by (metis div_mult_mod_eq)
  next
    case 3
    with less.prems ne [of m] ne [of n] show ?thesis
      by (auto simp add: digits.simps [of m] digits.simps [of n] split: if_splits)
  qed
qed

text \<open>\<open>sub in s\<close> of strings.\<close>

fun has_text :: "string \<Rightarrow> string \<Rightarrow> bool" where
  "has_text sub [] \<longleftrightarrow> sub = []"
| "has_text sub (c # s) \<longleftrightarrow> take (length sub) (c # s) = sub \<or> has_text sub s"

definition digit_of :: "char \<Rightarrow> int option" where
  "digit_of c = (let n = (of_char c :: nat) in if 48 \<le> n \<and> n \<le> 57 then Some (int n - 48) else None)"

text \<open>\<open>int(text)\<close>: digits with single underscores between them.\<close>

fun int_digits :: "bool \<Rightarrow> int \<Rightarrow> string \<Rightarrow> int option" where
  "int_digits after acc [] = (if after then Some acc else None)"
| "int_digits after acc (c # cs) = (case digit_of c of
      Some d \<Rightarrow> int_digits True (10 * acc + d) cs
    | None \<Rightarrow> if c = CHR ''_'' \<and> after then int_digits False acc cs else None)"

definition py_int_text :: "string \<Rightarrow> int option" where
  "py_int_text text = (case strip text of
      [] \<Rightarrow> None
    | c # cs \<Rightarrow> if c = CHR ''-'' then map_option uminus (int_digits False 0 cs)
        else if c = CHR ''+'' then int_digits False 0 cs else int_digits False 0 (c # cs))"

section \<open>Operations on a store\<close>

text \<open>
  A public method of a store: it returns a value or raises, and either way leaves a
  state behind. \<open>sbind\<close> sequences two steps; \<open>slift\<close> is a check that touches nothing.
\<close>

definition sbind ::
  "('s \<Rightarrow> (exn + 'a) \<times> 's) \<Rightarrow> ('a \<Rightarrow> 's \<Rightarrow> (exn + 'b) \<times> 's) \<Rightarrow> 's \<Rightarrow> (exn + 'b) \<times> 's" where
  "sbind m f s = (case m s of (Inl e, s') \<Rightarrow> (Inl e, s') | (Inr x, s') \<Rightarrow> f x s')"

definition slift :: "exn + 'a \<Rightarrow> 's \<Rightarrow> (exn + 'a) \<times> 's" where
  "slift r s = (r, s)"

definition sret :: "'a \<Rightarrow> 's \<Rightarrow> (exn + 'a) \<times> 's" where
  "sret x s = (Inr x, s)"

definition sget :: "('s \<Rightarrow> 'a) \<Rightarrow> 's \<Rightarrow> (exn + 'a) \<times> 's" where
  "sget f s = (Inr (f s), s)"

definition sput :: "('s \<Rightarrow> 's) \<Rightarrow> 's \<Rightarrow> (exn + unit) \<times> 's" where
  "sput f s = (Inr (), f s)"

lemma sbind_lift_Inl [simp]: "sbind (slift (Inl e)) f s = (Inl e, s)"
  by (simp add: sbind_def slift_def)

lemma sbind_lift_Inr [simp]: "sbind (slift (Inr x)) f s = f x s"
  by (simp add: sbind_def slift_def)

lemma sbind_ok: "m s = (Inr x, s') \<Longrightarrow> sbind m f s = f x s'"
  by (simp add: sbind_def)

lemma sbind_fail: "m s = (Inl e, s') \<Longrightarrow> sbind m f s = (Inl e, s')"
  by (simp add: sbind_def)

lemma sbind_Inr_iff:
  "sbind m f s = (Inr y, s') \<longleftrightarrow> (\<exists>x s1. m s = (Inr x, s1) \<and> f x s1 = (Inr y, s'))"
  by (auto simp: sbind_def split: prod.splits sum.splits)

lemma slift_Inr_iff: "slift r s = (Inr x, s') \<longleftrightarrow> r = Inr x \<and> s' = s"
  by (auto simp: slift_def)

lemma raise_option_iff:
  "(case v of None \<Rightarrow> slift (Inl e) | Some x \<Rightarrow> f x) s = (Inr y, s')
    \<longleftrightarrow> (\<exists>x. v = Some x \<and> f x s = (Inr y, s'))"
  by (cases v) (auto simp: slift_def)

lemma raise_if_iff:
  "(if b then slift (Inl e) else m) s = (Inr y, s') \<longleftrightarrow> \<not> b \<and> m s = (Inr y, s')"
  by (auto simp: slift_def)

lemma sret_Inr_iff: "sret x s = (Inr y, s') \<longleftrightarrow> y = x \<and> s' = s"
  by (auto simp: sret_def)

lemmas raise_iffs = sbind_Inr_iff slift_Inr_iff raise_option_iff raise_if_iff sret_Inr_iff

lemma snd_slift [simp]: "snd (slift r s) = s"
  by (simp add: slift_def)

lemma snd_sret [simp]: "snd (sret x s) = s"
  by (simp add: sret_def)

text \<open>\<open>try: m except e: h e else: f\<close>.\<close>

definition stry ::
  "('s \<Rightarrow> (exn + 'a) \<times> 's) \<Rightarrow> (exn \<Rightarrow> 's \<Rightarrow> (exn + 'b) \<times> 's) \<Rightarrow> ('a \<Rightarrow> 's \<Rightarrow> (exn + 'b) \<times> 's)
    \<Rightarrow> 's \<Rightarrow> (exn + 'b) \<times> 's" where
  "stry m h f s = (case m s of (Inl e, s') \<Rightarrow> h e s' | (Inr x, s') \<Rightarrow> f x s')"

text \<open>A property of the state that every step keeps, whatever it returns.\<close>

definition keeps :: "('s \<Rightarrow> bool) \<Rightarrow> ('s \<Rightarrow> (exn + 'a) \<times> 's) \<Rightarrow> bool" where
  "keeps P m \<longleftrightarrow> (\<forall>s. P s \<longrightarrow> P (snd (m s)))"

named_theorems keeps_intros "steps that keep a property of the state"

lemma keepsD: "keeps P m \<Longrightarrow> P s \<Longrightarrow> P (snd (m s))"
  by (simp add: keeps_def)

lemma keeps_lift [keeps_intros]: "keeps P (slift r)"
  by (simp add: keeps_def)

lemma keeps_ret [keeps_intros]: "keeps P (sret x)"
  by (simp add: keeps_def)

lemma keeps_bind [keeps_intros]:
  assumes "keeps P m" and "\<And>x. keeps P (f x)"
  shows "keeps P (sbind m f)"
proof -
  have "P (snd (sbind m f s))" if "P s" for s
  proof -
    obtain r s' where r: "m s = (r, s')" by fastforce
    with assms(1) that have "P s'" by (fastforce simp: keeps_def)
    with r assms(2) show ?thesis by (cases r) (auto simp: sbind_def keeps_def)
  qed
  then show ?thesis by (simp add: keeps_def)
qed

lemma keeps_try [keeps_intros]:
  assumes "keeps P m" and "\<And>e. keeps P (h e)" and "\<And>x. keeps P (f x)"
  shows "keeps P (stry m h f)"
proof -
  have "P (snd (stry m h f s))" if "P s" for s
  proof -
    obtain r s' where r: "m s = (r, s')" by fastforce
    with assms(1) that have "P s'" by (fastforce simp: keeps_def)
    with r assms(2,3) show ?thesis by (cases r) (auto simp: stry_def keeps_def)
  qed
  then show ?thesis by (simp add: keeps_def)
qed

lemma keeps_lift_bind [keeps_intros]:
  "(\<And>x. r = Inr x \<Longrightarrow> keeps P (f x)) \<Longrightarrow> keeps P (sbind (slift r) f)"
  by (cases r) (auto simp: keeps_def)

lemma keeps_if [keeps_intros]:
  "(b \<Longrightarrow> keeps P m) \<Longrightarrow> (\<not> b \<Longrightarrow> keeps P n) \<Longrightarrow> keeps P (if b then m else n)"
  by simp

lemma keeps_option [keeps_intros]:
  "keeps P m \<Longrightarrow> (\<And>x. keeps P (f x)) \<Longrightarrow> keeps P (case v of None \<Rightarrow> m | Some x \<Rightarrow> f x)"
  by (cases v) simp_all

end
