(* ===== verification/Floats.thy ===== *)
theory Floats
  imports Complex_Main Prelude
begin

text \<open>
  Python's \<open>float\<close>, an IEEE 754 binary64: a finite value is the rational it denotes,
  and an operation is the exact operation followed by rounding to the nearest double,
  ties to even. \<open>NaN\<close> is not a value of \<open>xfloat\<close>: no operation modelled here yields
  one from finite arguments, and where the code can meet one (a caller's argument) the
  value type has a constructor of its own. Signed zeros are identified.
\<close>

datatype xfloat = NInf | Fin rat | PInf

instantiation xfloat :: linorder
begin

fun less_eq_xfloat :: "xfloat \<Rightarrow> xfloat \<Rightarrow> bool" where
  "less_eq_xfloat NInf y = True"
| "less_eq_xfloat (Fin a) y = (case y of NInf \<Rightarrow> False | Fin b \<Rightarrow> a \<le> b | PInf \<Rightarrow> True)"
| "less_eq_xfloat PInf y = (y = PInf)"

definition less_xfloat :: "xfloat \<Rightarrow> xfloat \<Rightarrow> bool" where
  "less_xfloat x y = (x \<le> y \<and> \<not> y \<le> x)"

instance
proof
  fix x y z :: xfloat
  show "x < y \<longleftrightarrow> x \<le> y \<and> \<not> y \<le> x" by (simp add: less_xfloat_def)
  show "x \<le> x" by (cases x) auto
  show "x \<le> y \<Longrightarrow> y \<le> z \<Longrightarrow> x \<le> z"
    by (cases x; cases y; cases z) auto
  show "x \<le> y \<Longrightarrow> y \<le> x \<Longrightarrow> x = y" by (cases x; cases y) auto
  show "x \<le> y \<or> y \<le> x" by (cases x; cases y) auto
qed

end

lemma Fin_less_eq [simp]: "Fin a \<le> Fin b \<longleftrightarrow> a \<le> b"
  by simp

lemma Fin_less [simp]: "Fin a < Fin b \<longleftrightarrow> a < b"
  by (auto simp: less_xfloat_def)

lemma Fin_less_PInf [simp]: "Fin a < PInf" "NInf < Fin a" "\<not> PInf < x" "\<not> x < NInf"
  by (cases x; auto simp: less_xfloat_def)+

section \<open>Rounding to binary64\<close>

text \<open>Powers of two and the integer logarithm, by halving, so that they evaluate.\<close>

function ipow2 :: "int \<Rightarrow> int" where
  "ipow2 e = (if e \<le> 0 then 1
     else let h = ipow2 (e div 2) in if even e then h * h else 2 * (h * h))"
  by pat_completeness auto
termination
  by (relation "measure nat") auto

function ilog2 :: "int \<Rightarrow> int" where
  "ilog2 n = (if n < 2 then 0 else 1 + ilog2 (n div 2))"
  by pat_completeness auto
termination
  by (relation "measure nat") auto

declare ipow2.simps [simp del] ilog2.simps [simp del]

definition pow2 :: "int \<Rightarrow> rat" where
  "pow2 e = (if 0 \<le> e then of_int (ipow2 e) else 1 / of_int (ipow2 (- e)))"

text \<open>For positive \<open>x\<close>, the exponent \<open>e\<close> with \<open>pow2 e \<le> x < pow2 (e + 1)\<close>.\<close>

definition rat_exp :: "rat \<Rightarrow> int" where
  "rat_exp x = (case quotient_of x of (p, q) \<Rightarrow>
     let e = ilog2 p - ilog2 q
     in if pow2 e \<le> x then e else e - 1)"

definition round_half_even :: "rat \<Rightarrow> int" where
  "round_half_even x = (let n = \<lfloor>x\<rfloor>; d = x - of_int n in
     if d < 1 / 2 then n else if 1 / 2 < d then n + 1 else if even n then n else n + 1)"

definition ulp_exp :: "rat \<Rightarrow> int" where
  "ulp_exp a = max (rat_exp a - 52) (- 1074)"

definition to_double :: "rat \<Rightarrow> xfloat" where
  "to_double x = (if x = 0 then Fin 0
     else let a = \<bar>x\<bar>; u = pow2 (ulp_exp a); r = of_int (round_half_even (a / u)) * u
          in if pow2 1024 \<le> r then (if x < 0 then NInf else PInf)
             else Fin (sgn x * r))"

text \<open>\<open>a + b\<close> on finite floats, and \<open>float(i)\<close>, which raises on overflow.\<close>

definition f_add :: "rat \<Rightarrow> rat \<Rightarrow> xfloat" where
  "f_add a b = to_double (a + b)"

definition f_sub :: "rat \<Rightarrow> rat \<Rightarrow> xfloat" where
  "f_sub a b = to_double (a - b)"

fun float_of_int :: "int \<Rightarrow> exn + xfloat" where
  "float_of_int i = (case to_double (of_int i) of Fin r \<Rightarrow> Inr (Fin r) | _ \<Rightarrow> Inl OverflowError)"

definition is_double :: "rat \<Rightarrow> bool" where
  "is_double r \<longleftrightarrow> to_double r = Fin r"

section \<open>Facts about rounding\<close>

lemma ipow2_power: "ipow2 e = 2 ^ nat e"
proof (induction e rule: ipow2.induct)
  case (1 e)
  show ?case
  proof (cases "e \<le> 0")
    case True
    then show ?thesis by (simp add: ipow2.simps)
  next
    case False
    with 1 have h: "ipow2 (e div 2) = 2 ^ nat (e div 2)" by simp
    have "nat e = (if even e then nat (e div 2) + nat (e div 2)
        else Suc (nat (e div 2) + nat (e div 2)))"
      using False by (auto elim!: evenE oddE simp: nat_add_distrib nat_mult_distrib)
    with False h show ?thesis
      by (simp add: ipow2.simps [of e] Let_def power_add)
  qed
qed

lemma pow2_pos [simp]: "0 < pow2 e"
  by (simp add: pow2_def ipow2_power)

lemma pow2_nonneg [simp]: "0 \<le> pow2 e"
  using pow2_pos [of e] by linarith

lemma round_half_even_nonneg: "0 \<le> x \<Longrightarrow> 0 \<le> round_half_even x"
  by (auto simp: round_half_even_def Let_def)

lemma round_half_even_of_int [simp]: "round_half_even (of_int n) = n"
  by (simp add: round_half_even_def)

lemma round_half_even_mono: "x \<le> y \<Longrightarrow> round_half_even x \<le> round_half_even y"
proof -
  assume le: "x \<le> y"
  then have fl: "\<lfloor>x\<rfloor> \<le> \<lfloor>y\<rfloor>" by (rule floor_mono)
  show ?thesis
  proof (cases "\<lfloor>x\<rfloor> = \<lfloor>y\<rfloor>")
    case True
    with le show ?thesis by (auto simp: round_half_even_def Let_def)
  next
    case False
    with fl have "\<lfloor>x\<rfloor> + 1 \<le> \<lfloor>y\<rfloor>" by simp
    moreover have "round_half_even x \<le> \<lfloor>x\<rfloor> + 1" "\<lfloor>y\<rfloor> \<le> round_half_even y"
      by (auto simp: round_half_even_def Let_def)
    ultimately show ?thesis by linarith
  qed
qed

text \<open>Rounding keeps the sign, so sums of non-negative amounts stay non-negative.\<close>

lemma to_double_nonneg: "0 \<le> x \<Longrightarrow> Fin 0 \<le> to_double x"
proof -
  assume x: "0 \<le> x"
  have "0 \<le> (of_int (round_half_even (\<bar>x\<bar> / pow2 (ulp_exp \<bar>x\<bar>))) :: rat)"
    by (simp add: round_half_even_nonneg)
  then have "0 \<le> of_int (round_half_even (\<bar>x\<bar> / pow2 (ulp_exp \<bar>x\<bar>))) * pow2 (ulp_exp \<bar>x\<bar>)"
    by (simp add: mult_nonneg_nonneg)
  then show ?thesis using x by (auto simp: to_double_def Let_def)
qed

lemma to_double_nonneg_Fin: "0 \<le> x \<Longrightarrow> to_double x = Fin r \<Longrightarrow> 0 \<le> r"
  using to_double_nonneg [of x] by simp

lemma to_double_0 [simp]: "to_double 0 = Fin 0"
  by (simp add: to_double_def)

lemma f_add_nonneg: "0 \<le> a \<Longrightarrow> 0 \<le> b \<Longrightarrow> f_add a b = Fin r \<Longrightarrow> 0 \<le> r"
  unfolding f_add_def by (rule to_double_nonneg_Fin) auto

text \<open>Subtracting the representable limit of a budget cannot change its sign.\<close>

lemma to_double_sign: "x < 0 \<Longrightarrow> to_double x \<le> Fin 0"
proof -
  assume x: "x < 0"
  have "0 \<le> (of_int (round_half_even (\<bar>x\<bar> / pow2 (ulp_exp \<bar>x\<bar>))) :: rat)"
    by (simp add: round_half_even_nonneg)
  then have "0 \<le> of_int (round_half_even (\<bar>x\<bar> / pow2 (ulp_exp \<bar>x\<bar>))) * pow2 (ulp_exp \<bar>x\<bar>)"
    by (simp add: mult_nonneg_nonneg)
  then show ?thesis using x by (auto simp: to_double_def Let_def)
qed

text \<open>Integers up to the size of the significand are exact.\<close>

lemma ilog2_nonneg: "0 \<le> ilog2 n"
  by (induction n rule: ilog2.induct) (simp add: ilog2.simps)

lemma ilog2_bounds: "0 < n \<Longrightarrow> 2 ^ nat (ilog2 n) \<le> n \<and> n < 2 * 2 ^ nat (ilog2 n)"
proof (induction n rule: ilog2.induct)
  case (1 n)
  show ?case
  proof (cases "n < 2")
    case True
    with 1 show ?thesis by (simp add: ilog2.simps)
  next
    case False
    with 1 have IH: "2 ^ nat (ilog2 (n div 2)) \<le> n div 2" "n div 2 < 2 * 2 ^ nat (ilog2 (n div 2))"
      by auto
    have "nat (ilog2 n) = Suc (nat (ilog2 (n div 2)))"
      using False ilog2_nonneg [of "n div 2"] by (simp add: ilog2.simps [of n] nat_add_distrib)
    then show ?thesis using IH by simp linarith
  qed
qed

lemma to_double_of_int:
  assumes "0 \<le> n" and "n < 2 ^ 53"
  shows "to_double (of_int n) = Fin (of_int n)"
proof (cases "n = 0")
  case True
  then show ?thesis by simp
next
  case False
  with assms(1) have n: "0 < n" by simp
  let ?e = "ilog2 n"
  have e: "2 ^ nat ?e \<le> n" "0 \<le> ?e" using ilog2_bounds [OF n] ilog2_nonneg by auto
  have "?e \<le> 52"
  proof (rule ccontr)
    assume "\<not> ?e \<le> 52"
    then have "(2::int) ^ 53 \<le> 2 ^ nat ?e" by (intro power_increasing) auto
    with e(1) assms(2) show False by simp
  qed
  have one: "ilog2 1 = 0" by (simp add: ilog2.simps)
  have "pow2 ?e \<le> of_int n"
    using e by (simp add: pow2_def ipow2_power del: of_int_power)
  then have re: "rat_exp (of_int n) = ?e" by (simp add: rat_exp_def one)
  define k where "k = - ulp_exp (of_int n)"
  have k: "0 \<le> k" "ulp_exp (of_int n) = - k" using \<open>?e \<le> 52\<close> by (auto simp: k_def ulp_exp_def re)
  then have u: "pow2 (ulp_exp (of_int n)) = 1 / of_int (2 ^ nat k)"
    by (auto simp: pow2_def ipow2_power)
  have "(of_int n :: rat) / pow2 (ulp_exp (of_int n)) = of_int (n * 2 ^ nat k)"
    by (simp add: u)
  then have r: "of_int (round_half_even (of_int n / pow2 (ulp_exp (of_int n))))
      * pow2 (ulp_exp (of_int n)) = (of_int n :: rat)"
    by (simp only: round_half_even_of_int) (simp add: u)
  have "(of_int n :: rat) < pow2 1024"
  proof -
    have "n < 2 ^ 1024" using assms(2) by (rule less_trans) simp
    then have "(of_int n :: rat) < of_int (2 ^ 1024)" by (simp only: of_int_less_iff)
    then show ?thesis by (simp add: pow2_def ipow2_power)
  qed
  with n r show ?thesis by (auto simp: to_double_def Let_def)
qed

end
