(* ===== verification/Values.thy ===== *)
theory Values
  imports Floats "HOL-Library.FSet" "HOL-Library.Multiset"
begin

text \<open>
  The Python values the code stores, compares and serializes: the dynamic type of a
  claim field, a checkpoint state, a tool argument. Python's \<open>==\<close>, \<open><\<close>,
  truthiness and hashing on them, \<open>float(x)\<close> guarded as \<open>_finite_float\<close> guards it,
  and the canonical JSON text (\<open>json.dumps\<close> with sorted keys) as the value it denotes.
\<close>

section \<open>Values\<close>

text \<open>
  A hashable value, as a dictionary key or a set element: integral numbers that compare
  equal (\<open>True\<close>, \<open>1\<close>, \<open>1.0\<close>) are one key, so keys compare structurally.
\<close>

datatype pykey = KNone | KStr string | KInt int | KFloat xfloat | KTup "pykey list"

text \<open>
  \<open>VFloat\<close> holds a float that is not NaN; \<open>VObj tag x\<close> is an instance of a
  registered class with codec tag \<open>tag\<close> whose encoder yields \<open>x\<close>; \<open>VOpaque\<close> is any
  other object. A \<open>dict\<close> keeps its insertion order.
\<close>

datatype pyval =
    VNone | VBool bool | VInt int | VFloat xfloat | VNaN | VStr string
  | VList "pyval list" | VTuple "pyval list" | VSet "pykey fset"
  | VDict "(pykey \<times> pyval) list"
  | VObj string pyval
  | VOpaque nat

type_synonym fieldmap = "(string \<times> pyval) list"

text \<open>A dictionary with string keys as a value.\<close>

definition vobj :: "fieldmap \<Rightarrow> pyval" where
  "vobj fs = VDict (map (\<lambda>(k, v). (KStr k, v)) fs)"

fun str_keys :: "(pykey \<times> pyval) list \<Rightarrow> fieldmap option" where
  "str_keys [] = Some []"
| "str_keys ((KStr k, v) # d) = map_option ((#) (k, v)) (str_keys d)"
| "str_keys (e # d) = None"

lemma str_keys_map [simp]: "str_keys (map (\<lambda>(k, v). (KStr k, v)) fs) = Some fs"
  by (induction fs) auto

lemma str_keys_Some: "str_keys d = Some fs \<Longrightarrow> d = map (\<lambda>(k, v). (KStr k, v)) fs"
  by (induction d arbitrary: fs rule: str_keys.induct) auto

section \<open>Numbers\<close>

text \<open>The number a value is, if it is one: \<open>bool\<close> is a subclass of \<open>int\<close>.\<close>

fun py_num :: "pyval \<Rightarrow> xfloat option" where
  "py_num (VBool b) = Some (Fin (if b then 1 else 0))"
| "py_num (VInt i) = Some (Fin (of_int i))"
| "py_num (VFloat x) = Some x"
| "py_num _ = None"

text \<open>
  \<open>_finite_float\<close>: the finite float of an \<open>int\<close> or \<open>float\<close> argument. Booleans,
  non-numbers, infinities, NaN and integers too large for a float give \<open>None\<close>.
\<close>

fun finite_float :: "pyval \<Rightarrow> rat option" where
  "finite_float (VInt i) = (case float_of_int i of Inr (Fin r) \<Rightarrow> Some r | _ \<Rightarrow> None)"
| "finite_float (VFloat (Fin r)) = Some r"
| "finite_float _ = None"

section \<open>Equality\<close>

text \<open>
  \<open>==\<close>: numbers by value across \<open>bool\<close>, \<open>int\<close> and \<open>float\<close>; lists and tuples
  elementwise and never across the two types; dictionaries as mappings, whatever their
  order; NaN equal to nothing.
\<close>

fun py_eq :: "pyval \<Rightarrow> pyval \<Rightarrow> bool"
  and py_eqs :: "pyval list \<Rightarrow> pyval list \<Rightarrow> bool"
  and py_sub :: "(pykey \<times> pyval) list \<Rightarrow> (pykey \<times> pyval) list \<Rightarrow> bool"
where
  "py_eq VNone b = (b = VNone)"
| "py_eq (VBool x) b = (py_num b = py_num (VBool x))"
| "py_eq (VInt x) b = (py_num b = py_num (VInt x))"
| "py_eq (VFloat x) b = (py_num b = Some x)"
| "py_eq VNaN b = False"
| "py_eq (VStr s) b = (b = VStr s)"
| "py_eq (VList xs) b = (case b of VList ys \<Rightarrow> py_eqs xs ys | _ \<Rightarrow> False)"
| "py_eq (VTuple xs) b = (case b of VTuple ys \<Rightarrow> py_eqs xs ys | _ \<Rightarrow> False)"
| "py_eq (VSet s) b = (b = VSet s)"
| "py_eq (VDict d) b =
     (case b of VDict e \<Rightarrow> length d = length e \<and> py_sub d e | _ \<Rightarrow> False)"
| "py_eq (VObj t x) b = (case b of VObj u y \<Rightarrow> t = u \<and> py_eq x y | _ \<Rightarrow> False)"
| "py_eq (VOpaque n) b = (b = VOpaque n)"
| "py_eqs [] ys = (ys = [])"
| "py_eqs (x # xs) ys = (case ys of [] \<Rightarrow> False | y # ys' \<Rightarrow> py_eq x y \<and> py_eqs xs ys')"
| "py_sub [] e = True"
| "py_sub (kv # d) e =
     ((case map_of e (fst kv) of None \<Rightarrow> False | Some w \<Rightarrow> py_eq (snd kv) w) \<and> py_sub d e)"

definition fields_eq :: "fieldmap \<Rightarrow> fieldmap \<Rightarrow> bool" where
  "fields_eq f g = py_eq (vobj f) (vobj g)"

text \<open>
  Well-formed values: dictionaries have distinct keys (as every Python \<open>dict\<close> does) and
  NaN does not occur, so \<open>==\<close> is reflexive.
\<close>

fun wf_val :: "pyval \<Rightarrow> bool" where
  "wf_val VNaN = False"
| "wf_val (VList xs) = (\<forall>x \<in> set xs. wf_val x)"
| "wf_val (VTuple xs) = (\<forall>x \<in> set xs. wf_val x)"
| "wf_val (VDict d) = (distinct (map fst d) \<and> (\<forall>kv \<in> set d. wf_val (snd kv)))"
| "wf_val (VObj t x) = wf_val x"
| "wf_val _ = True"

lemma py_sub_iff:
  "py_sub d e \<longleftrightarrow> (\<forall>(k, v) \<in> set d. \<exists>w. map_of e k = Some w \<and> py_eq v w)"
  by (induction d) (auto split: option.splits)

lemma py_eqs_iff: "py_eqs xs ys \<longleftrightarrow> list_all2 py_eq xs ys"
proof (induction xs arbitrary: ys)
  case Nil
  show ?case by auto
next
  case (Cons x xs)
  then show ?case by (cases ys) auto
qed

lemma py_eq_refl: "wf_val v \<Longrightarrow> py_eq v v"
proof (induction v)
  case (VList xs)
  then show ?case by (auto simp: py_eqs_iff intro: list_all2_refl list.rel_refl_strong)
next
  case (VTuple xs)
  then show ?case by (auto simp: py_eqs_iff intro: list.rel_refl_strong)
next
  case (VDict d)
  have "py_sub d d"
    unfolding py_sub_iff
  proof clarify
    fix k v assume "(k, v) \<in> set d"
    moreover from this VDict have "py_eq v v" by fastforce
    ultimately show "\<exists>w. map_of d k = Some w \<and> py_eq v w" using VDict.prems by auto
  qed
  then show ?case by simp
qed auto

definition wf_fields :: "fieldmap \<Rightarrow> bool" where
  "wf_fields fs \<longleftrightarrow> distinct (map fst fs) \<and> (\<forall>kv \<in> set fs. wf_val (snd kv))"

lemma wf_val_vobj: "wf_val (vobj fs) \<longleftrightarrow> wf_fields fs"
proof -
  have "distinct (map fst (map (\<lambda>(k, v). (KStr k, v)) fs)) = distinct (map fst fs)"
    by (auto simp: distinct_map inj_on_def comp_def case_prod_beta)
  then show ?thesis by (auto simp: vobj_def wf_fields_def)
qed

lemma fields_eq_refl: "wf_fields fs \<Longrightarrow> fields_eq fs fs"
  by (simp add: fields_eq_def py_eq_refl wf_val_vobj)

section \<open>Order, truth and hashing\<close>

text \<open>
  \<open>a < b\<close>: numbers by value, strings by code point, lists and tuples at the first
  unequal element, sets by strict inclusion; other operands raise \<open>TypeError\<close>.
\<close>

fun py_lt :: "pyval \<Rightarrow> pyval \<Rightarrow> exn + bool"
  and py_lts :: "pyval list \<Rightarrow> pyval list \<Rightarrow> exn + bool"
where
  "py_lt (VStr s) b = (case b of VStr t \<Rightarrow> Inr (s < t) | _ \<Rightarrow> Inl TypeError)"
| "py_lt (VList xs) b = (case b of VList ys \<Rightarrow> py_lts xs ys | _ \<Rightarrow> Inl TypeError)"
| "py_lt (VTuple xs) b = (case b of VTuple ys \<Rightarrow> py_lts xs ys | _ \<Rightarrow> Inl TypeError)"
| "py_lt (VSet s) b = (case b of VSet t \<Rightarrow> Inr (s |\<subset>| t) | _ \<Rightarrow> Inl TypeError)"
| "py_lt VNaN b = (if b = VNaN \<or> py_num b \<noteq> None then Inr False else Inl TypeError)"
| "py_lt a b = (case (py_num a, py_num b) of
      (Some x, Some y) \<Rightarrow> Inr (x < y)
    | (Some x, None) \<Rightarrow> if b = VNaN then Inr False else Inl TypeError
    | _ \<Rightarrow> Inl TypeError)"
| "py_lts [] ys = Inr (ys \<noteq> [])"
| "py_lts (x # xs) ys = (case ys of [] \<Rightarrow> Inr False
    | y # ys' \<Rightarrow> if py_eq x y then py_lts xs ys' else py_lt x y)"

fun truthy :: "pyval \<Rightarrow> bool" where
  "truthy VNone = False"
| "truthy (VBool b) = b"
| "truthy (VInt i) = (i \<noteq> 0)"
| "truthy (VFloat x) = (x \<noteq> Fin 0)"
| "truthy (VStr s) = (s \<noteq> [])"
| "truthy (VList xs) = (xs \<noteq> [])"
| "truthy (VTuple xs) = (xs \<noteq> [])"
| "truthy (VSet s) = (s \<noteq> {||})"
| "truthy (VDict d) = (d \<noteq> [])"
| "truthy _ = True"

text \<open>\<open>hash(v)\<close> as the key \<open>v\<close> becomes; unhashable values raise \<open>TypeError\<close>.\<close>

fun hash_key :: "pyval \<Rightarrow> exn + pykey" where
  "hash_key VNone = Inr KNone"
| "hash_key (VBool b) = Inr (KInt (if b then 1 else 0))"
| "hash_key (VInt i) = Inr (KInt i)"
| "hash_key (VFloat x) = (case x of
      Fin r \<Rightarrow> if of_int \<lfloor>r\<rfloor> = r then Inr (KInt \<lfloor>r\<rfloor>) else Inr (KFloat x)
    | _ \<Rightarrow> Inr (KFloat x))"
| "hash_key (VStr s) = Inr (KStr s)"
| "hash_key (VTuple xs) = ebind (emap hash_key xs) (\<lambda>ks. Inr (KTup ks))"
| "hash_key _ = Inl TypeError"

text \<open>The elements a \<open>set(v)\<close> call collects from an iterable \<open>v\<close>.\<close>

fun iter_keys :: "pyval \<Rightarrow> exn + pykey list" where
  "iter_keys (VList xs) = emap hash_key xs"
| "iter_keys (VTuple xs) = emap hash_key xs"
| "iter_keys (VStr s) = Inr (map (\<lambda>c. KStr [c]) s)"
| "iter_keys (VDict d) = Inr (map fst d)"
| "iter_keys _ = Inl TypeError"

definition py_set :: "pyval \<Rightarrow> exn + pykey fset" where
  "py_set v = (case v of VSet s \<Rightarrow> Inr s
     | _ \<Rightarrow> ebind (iter_keys v) (\<lambda>ks. Inr (fset_of_list ks)))"

section \<open>Canonical JSON\<close>

text \<open>
  \<open>json.dumps(v, sort_keys=True, allow_nan=False)\<close> of a value without registered
  objects. The text is modelled by the value it denotes with every object's keys sorted:
  two values have the same text exactly when they have the same canonical form. Tuples
  become lists; NaN and infinities raise \<open>ValueError\<close>; other types raise \<open>TypeError\<close>.
\<close>

definition sort_dict :: "(string \<times> 'v) list \<Rightarrow> (string \<times> 'v) list" where
  "sort_dict d = sort_key fst d"

fun canon :: "pyval \<Rightarrow> exn + pyval"
  and canons :: "pyval list \<Rightarrow> exn + pyval list"
  and canon_items :: "(pykey \<times> pyval) list \<Rightarrow> exn + fieldmap"
where
  "canon VNone = Inr VNone"
| "canon (VBool b) = Inr (VBool b)"
| "canon (VInt i) = Inr (VInt i)"
| "canon (VFloat x) = (case x of Fin r \<Rightarrow> Inr (VFloat x) | _ \<Rightarrow> Inl ValueError)"
| "canon VNaN = Inl ValueError"
| "canon (VStr s) = Inr (VStr s)"
| "canon (VList xs) = ebind (canons xs) (\<lambda>ys. Inr (VList ys))"
| "canon (VTuple xs) = ebind (canons xs) (\<lambda>ys. Inr (VList ys))"
| "canon (VSet s) = Inl TypeError"
| "canon (VDict d) = ebind (canon_items d) (\<lambda>fs. Inr (vobj (sort_dict fs)))"
| "canon (VObj t x) = Inl TypeError"
| "canon (VOpaque n) = Inl TypeError"
| "canons [] = Inr []"
| "canons (x # xs) = ebind (canon x) (\<lambda>y. ebind (canons xs) (\<lambda>ys. Inr (y # ys)))"
| "canon_items [] = Inr []"
| "canon_items (kv # d) = (case fst kv of
      KStr k \<Rightarrow> ebind (canon (snd kv)) (\<lambda>y. ebind (canon_items d) (\<lambda>fs. Inr ((k, y) # fs)))
    | _ \<Rightarrow> Inl TypeError)"

lemma sort_dict_perm [simp]: "set (sort_dict d) = set d"
  by (simp add: sort_dict_def)

lemma sort_dict_distinct [simp]: "distinct (map fst (sort_dict d)) = distinct (map fst d)"
proof -
  have "mset (map fst (sort_dict d)) = mset (map fst d)"
    by (simp add: sort_dict_def)
  then show ?thesis by (metis mset_eq_imp_distinct_iff)
qed

end
