(* ===== verification/Codec.thy ===== *)
theory Codec
  imports Values
begin

text \<open>
  The claim codec (\<open>lipas/serialization/codec.py\<close>): the type and tag registry and the
  two recursive walkers. An instance of a registered class is \<open>VObj tag x\<close>, where \<open>x\<close> is
  what its encoder yields; the registry maps a tag to the decoder of its payload. The
  decoders themselves construct adapter classes and are a parameter (the registry).
\<close>

definition LIPAS_TYPE_KEY :: string where "LIPAS_TYPE_KEY = ''__lipas_type__''"
definition LIPAS_DATA_KEY :: string where "LIPAS_DATA_KEY = ''__lipas_data__''"

lemma codec_keys_distinct [simp]: "LIPAS_TYPE_KEY \<noteq> LIPAS_DATA_KEY" "LIPAS_DATA_KEY \<noteq> LIPAS_TYPE_KEY"
  by (simp_all add: LIPAS_TYPE_KEY_def LIPAS_DATA_KEY_def)

type_synonym codec_registry = "(string \<times> (pyval \<Rightarrow> exn + pyval)) list"

definition codec_register :: "string \<Rightarrow> (pyval \<Rightarrow> exn + pyval) \<Rightarrow> codec_registry \<Rightarrow> exn + codec_registry" where
  "codec_register t decode_fn reg =
     (if t = [] then Inl ValueError
      else if t \<in> fst ` set reg then Inl ValueError
      else Inr (dict_put t decode_fn reg))"

fun encode :: "codec_registry \<Rightarrow> pyval \<Rightarrow> exn + pyval"
  and encode_list :: "codec_registry \<Rightarrow> pyval list \<Rightarrow> exn + pyval list"
  and encode_items :: "codec_registry \<Rightarrow> (pykey \<times> pyval) list \<Rightarrow> exn + (pykey \<times> pyval) list"
where
  "encode reg VNone = Inr VNone"
| "encode reg (VBool b) = Inr (VBool b)"
| "encode reg (VInt i) = Inr (VInt i)"
| "encode reg (VFloat x) = Inr (VFloat x)"
| "encode reg VNaN = Inr VNaN"
| "encode reg (VStr s) = Inr (VStr s)"
| "encode reg (VList xs) = ebind (encode_list reg xs) (\<lambda>ys. Inr (VList ys))"
| "encode reg (VTuple xs) = ebind (encode_list reg xs) (\<lambda>ys. Inr (VList ys))"
| "encode reg (VDict d) =
     (if KStr LIPAS_TYPE_KEY \<in> fst ` set d \<or> KStr LIPAS_DATA_KEY \<in> fst ` set d
      then Inl UnserializableClaim
      else ebind (encode_items reg d) (\<lambda>e. Inr (VDict e)))"
| "encode reg (VObj t x) =
     (if t \<in> fst ` set reg
      then ebind (encode reg x) (\<lambda>p. Inr (vobj [(LIPAS_TYPE_KEY, VStr t), (LIPAS_DATA_KEY, p)]))
      else Inl UnserializableClaim)"
| "encode reg (VSet s) = Inl UnserializableClaim"
| "encode reg (VOpaque n) = Inl UnserializableClaim"
| "encode_list reg [] = Inr []"
| "encode_list reg (x # xs) =
     ebind (encode reg x) (\<lambda>y. ebind (encode_list reg xs) (\<lambda>ys. Inr (y # ys)))"
| "encode_items reg [] = Inr []"
| "encode_items reg (kv # d) = (case fst kv of
      KStr k \<Rightarrow> ebind (encode reg (snd kv)) (\<lambda>y. ebind (encode_items reg d)
        (\<lambda>e. Inr ((KStr k, y) # e)))
    | _ \<Rightarrow> Inl UnserializableClaim)"

fun decode :: "codec_registry \<Rightarrow> pyval \<Rightarrow> exn + pyval"
  and decode_list :: "codec_registry \<Rightarrow> pyval list \<Rightarrow> exn + pyval list"
  and decode_items :: "codec_registry \<Rightarrow> (pykey \<times> pyval) list \<Rightarrow> exn + (pykey \<times> pyval) list"
  and decode_at :: "codec_registry \<Rightarrow> pykey \<Rightarrow> (pykey \<times> pyval) list \<Rightarrow> exn + pyval"
where
  "decode reg VNone = Inr VNone"
| "decode reg (VBool b) = Inr (VBool b)"
| "decode reg (VInt i) = Inr (VInt i)"
| "decode reg (VFloat x) = Inr (VFloat x)"
| "decode reg VNaN = Inr VNaN"
| "decode reg (VStr s) = Inr (VStr s)"
| "decode reg (VList xs) = ebind (decode_list reg xs) (\<lambda>ys. Inr (VList ys))"
| "decode reg (VDict d) = (case map_of d (KStr LIPAS_TYPE_KEY) of
      Some t \<Rightarrow> (case t of
          VStr tg \<Rightarrow> (case map_of reg tg of
              Some decoder_fn \<Rightarrow> ebind (decode_at reg (KStr LIPAS_DATA_KEY) d) decoder_fn
            | None \<Rightarrow> Inl UnserializableClaim)
        | VList xs \<Rightarrow> Inl TypeError | VDict e \<Rightarrow> Inl TypeError
        | _ \<Rightarrow> Inl UnserializableClaim)
    | None \<Rightarrow> ebind (decode_items reg d) (\<lambda>e. Inr (VDict e)))"
| "decode reg (VTuple xs) = Inl UnserializableClaim"
| "decode reg (VSet s) = Inl UnserializableClaim"
| "decode reg (VObj t x) = Inl UnserializableClaim"
| "decode reg (VOpaque n) = Inl UnserializableClaim"
| "decode_list reg [] = Inr []"
| "decode_list reg (x # xs) =
     ebind (decode reg x) (\<lambda>y. ebind (decode_list reg xs) (\<lambda>ys. Inr (y # ys)))"
| "decode_items reg [] = Inr []"
| "decode_items reg (kv # d) =
     ebind (decode reg (snd kv)) (\<lambda>y. ebind (decode_items reg d) (\<lambda>e. Inr ((fst kv, y) # e)))"
| "decode_at reg k [] = Inl UnserializableClaim"
| "decode_at reg k (kv # d) = (if fst kv = k then decode reg (snd kv) else decode_at reg k d)"

section \<open>Round trip\<close>

text \<open>
  The values the codec carries without loss: no tuples, sets or unregistered objects,
  string keys, and registered objects whose decoder rebuilds them from their payload.
\<close>

fun codable :: "codec_registry \<Rightarrow> pyval \<Rightarrow> bool" where
  "codable reg (VList xs) = (\<forall>x \<in> set xs. codable reg x)"
| "codable reg (VDict d) = (KStr LIPAS_TYPE_KEY \<notin> fst ` set d \<and> KStr LIPAS_DATA_KEY \<notin> fst ` set d
     \<and> (\<forall>kv \<in> set d. (case fst kv of KStr k \<Rightarrow> True | _ \<Rightarrow> False) \<and> codable reg (snd kv)))"
| "codable reg (VObj t x) = (codable reg x
     \<and> (case map_of reg t of None \<Rightarrow> False | Some f \<Rightarrow> f x = Inr (VObj t x)))"
| "codable reg (VTuple xs) = False"
| "codable reg (VSet s) = False"
| "codable reg (VOpaque n) = False"
| "codable reg v = True"

lemma encode_items_keys: "encode_items reg d = Inr e \<Longrightarrow> map fst e = map fst d"
  by (induction d arbitrary: e) (auto split: pykey.splits)

lemma encode_items_lookup_None:
  assumes "encode_items reg d = Inr e"
  shows "map_of e k = None \<longleftrightarrow> k \<notin> fst ` set d"
  using encode_items_keys [OF assms] by (metis map_of_eq_None_iff set_map)

lemma decode_encode_list:
  assumes "\<And>x w. x \<in> set xs \<Longrightarrow> encode reg x = Inr w \<Longrightarrow> decode reg w = Inr x"
    and "encode_list reg xs = Inr ys"
  shows "decode_list reg ys = Inr xs"
  using assms by (induction xs arbitrary: ys) auto

lemma decode_encode_items:
  assumes "\<And>kv w. kv \<in> set d \<Longrightarrow> encode reg (snd kv) = Inr w \<Longrightarrow> decode reg w = Inr (snd kv)"
    and "encode_items reg d = Inr e"
  shows "decode_items reg e = Inr d"
  using assms
proof (induction d arbitrary: e)
  case Nil
  then show ?case by simp
next
  case (Cons kv d)
  from Cons.prems(2) obtain k y e' where e: "fst kv = KStr k" "encode reg (snd kv) = Inr y"
      "encode_items reg d = Inr e'" "e = (KStr k, y) # e'"
    by (auto split: pykey.splits)
  have "decode reg y = Inr (snd kv)" using Cons.prems(1) [of kv y] e(2) by simp
  moreover have "decode_items reg e' = Inr d"
    using Cons.IH [OF _ e(3)] Cons.prems(1) by simp
  ultimately show ?case using e by (cases kv) simp
qed

lemma decode_encode:
  "codable reg v \<Longrightarrow> encode reg v = Inr w \<Longrightarrow> decode reg w = Inr v"
proof (induction v arbitrary: w)
  case (VList xs)
  then obtain ys where ys: "encode_list reg xs = Inr ys" "w = VList ys" by auto
  have "decode_list reg ys = Inr xs"
    by (rule decode_encode_list [OF _ ys(1)]) (use VList in auto)
  with ys show ?case by simp
next
  case (VDict d)
  then obtain e where e: "encode_items reg d = Inr e" "w = VDict e" by (auto split: if_splits)
  have "decode_items reg e = Inr d"
  proof (rule decode_encode_items [OF _ e(1)])
    fix kv w assume "kv \<in> set d" "encode reg (snd kv) = Inr w"
    then show "decode reg w = Inr (snd kv)"
      using VDict by (metis (no_types, lifting) codable.simps(2) snds.intros prod.collapse)
  qed
  moreover have "map_of e (KStr LIPAS_TYPE_KEY) = None"
    using VDict.prems(1) by (simp add: encode_items_lookup_None [OF e(1)])
  ultimately show ?case using e by simp
next
  case (VObj t x)
  then show ?case by (auto simp: vobj_def split: option.splits if_splits)
qed auto

end
