(* ===== verification/Calculus.thy ===== *)
theory Calculus
  imports Values "HOL-Library.Option_ord"
begin

text \<open>
  Layer 0, the claim calculus (\<open>lipas/calculus.py\<close>): merge strategies, the strategy
  registry, the belief context, claims, \<open>merge\<close> and \<open>reduce\<close>. A strategy may raise,
  so it returns \<open>exn + pyval\<close>. The locale \<open>join_strategy\<close> is the contract the
  source calls a semilattice strategy; it is interpreted on the model's own strategies.
\<close>

section \<open>Belief context\<close>

record belief_context =
  fail_counts :: "(pykey \<times> int) list"
  caution_threshold :: int

definition total_failures :: "belief_context \<Rightarrow> int" where
  "total_failures ctx = sum_list (map snd (fail_counts ctx))"

definition fail_count_for :: "belief_context \<Rightarrow> string option \<Rightarrow> int" where
  "fail_count_for ctx commitment_type = (case commitment_type of None \<Rightarrow> 0
     | Some ct \<Rightarrow> sum_list (map snd (filter
         (\<lambda>(k, v). case k of KTup [a, b] \<Rightarrow> a = KStr ct | _ \<Rightarrow> False) (fail_counts ctx))))"

section \<open>Strategies\<close>

type_synonym strategy = "pyval \<Rightarrow> pyval \<Rightarrow> belief_context \<Rightarrow> exn + pyval"

definition strategy_max :: strategy where
  "strategy_max a b ctx = (if a = VNone then Inr b else if b = VNone then Inr a
     else ebind (py_lt a b) (\<lambda>l. Inr (if l then b else a)))"

definition strategy_min :: strategy where
  "strategy_min a b ctx = (if a = VNone then Inr b else if b = VNone then Inr a
     else ebind (py_lt b a) (\<lambda>l. Inr (if l then b else a)))"

definition or_empty :: "pyval \<Rightarrow> pyval" where
  "or_empty v = (if truthy v then v else VList [])"

definition strategy_union :: strategy where
  "strategy_union a b ctx =
     ebind (py_set (or_empty a)) (\<lambda>s. ebind (py_set (or_empty b)) (\<lambda>t. Inr (VSet (s |\<union>| t))))"

text \<open>\<open>+\<close> on two lists; the other operand shapes of a field under this strategy raise.\<close>

definition strategy_append :: strategy where
  "strategy_append a b ctx = (case (or_empty a, or_empty b) of
      (VList xs, VList ys) \<Rightarrow> Inr (VList (xs @ ys))
    | _ \<Rightarrow> Inl TypeError)"

definition strategy_keep :: strategy where
  "strategy_keep a b ctx = Inr (if a \<noteq> VNone then a else b)"

definition strategy_last_write :: strategy where
  "strategy_last_write a b ctx = Inr (if b \<noteq> VNone then b else a)"

text \<open>The dictionary operand of a counter strategy: \<open>dict(a or {})\<close>.\<close>

definition or_dict :: "pyval \<Rightarrow> exn + (pykey \<times> pyval) list" where
  "or_dict v = (if truthy v then (case v of VDict d \<Rightarrow> Inr d | _ \<Rightarrow> Inl TypeError) else Inr [])"

text \<open>\<open>max(result.get(k, 0), v)\<close>.\<close>

definition py_max :: "pyval \<Rightarrow> pyval \<Rightarrow> exn + pyval" where
  "py_max a b = ebind (py_lt a b) (\<lambda>l. Inr (if l then b else a))"

definition counter_step :: "(pykey \<times> pyval) list \<Rightarrow> pykey \<times> pyval \<Rightarrow> exn + (pykey \<times> pyval) list" where
  "counter_step result kv = ebind (py_max (dict_get (VInt 0) result (fst kv)) (snd kv))
     (\<lambda>m. Inr (dict_put (fst kv) m result))"

definition strategy_counter_max :: strategy where
  "strategy_counter_max a b ctx =
     ebind (or_dict a) (\<lambda>d. ebind (or_dict b) (\<lambda>e. ebind (efoldl counter_step d e)
       (\<lambda>r. Inr (VDict r))))"

definition expect_step :: "(pykey \<times> pyval) list \<Rightarrow> pykey \<times> pyval \<Rightarrow> exn + (pykey \<times> pyval) list" where
  "expect_step result kv = (case dict_get (VSet {||}) result (fst kv) of
      VSet s \<Rightarrow> ebind (py_set (snd kv)) (\<lambda>t. Inr (dict_put (fst kv) (VSet (s |\<union>| t)) result))
    | _ \<Rightarrow> Inl TypeError)"

definition strategy_expectations_merge :: strategy where
  "strategy_expectations_merge a b ctx =
     ebind (or_dict a) (\<lambda>d. ebind (or_dict b) (\<lambda>e. ebind (efoldl expect_step d e)
       (\<lambda>r. Inr (VDict r))))"

definition strategy_belief_adaptive :: "pyval \<Rightarrow> pyval \<Rightarrow> belief_context option \<Rightarrow> exn + pyval" where
  "strategy_belief_adaptive a b ctx = (case ctx of
      None \<Rightarrow> Inr (if b \<noteq> VNone then b else a)
    | Some c \<Rightarrow> if caution_threshold c \<le> total_failures c
                then Inr (if a \<noteq> VNone then a else b)
                else Inr (if b \<noteq> VNone then b else a))"

section \<open>Strategy registry\<close>

record registry =
  table :: "(string \<times> strategy) list"
  dflt :: strategy

definition registry_init :: registry where
  "registry_init = \<lparr>table = [], dflt = strategy_last_write\<rparr>"

definition register :: "string \<Rightarrow> strategy \<Rightarrow> registry \<Rightarrow> registry" where
  "register field_name s r = r\<lparr>table := dict_put field_name s (table r)\<rparr>"

definition set_default :: "strategy \<Rightarrow> registry \<Rightarrow> registry" where
  "set_default s r = r\<lparr>dflt := s\<rparr>"

definition registry_get :: "registry \<Rightarrow> string \<Rightarrow> strategy" where
  "registry_get r field_name = dict_get (dflt r) (table r) field_name"

definition make_default_registry :: registry where
  "make_default_registry =
     register ''deadline'' strategy_min
    (register ''priority'' strategy_max
    (register ''_expectations'' strategy_expectations_merge
    (register ''_fail_counts'' strategy_counter_max
    (register ''_fail_log'' strategy_append
    (register ''_history'' strategy_append registry_init)))))"

section \<open>Claims\<close>

record claim =
  tag :: string
  cfields :: fieldmap
  kind :: "string option"
  priority :: int
  source :: string
  claim_id :: string
  seq :: int

definition claim_get :: "claim \<Rightarrow> string \<Rightarrow> pyval \<Rightarrow> pyval" where
  "claim_get c key d = dict_get d (cfields c) key"

text \<open>A rebuilt claim does not keep the sequence number: it is unsequenced again.\<close>

definition with_field :: "claim \<Rightarrow> string \<Rightarrow> pyval \<Rightarrow> string option \<Rightarrow> claim" where
  "with_field c key value cid = c\<lparr>cfields := dict_put key value (cfields c),
     claim_id := (case cid of Some i \<Rightarrow> if i = [] then claim_id c else i | None \<Rightarrow> claim_id c),
     seq := - 1\<rparr>"

definition with_fields :: "claim \<Rightarrow> fieldmap \<Rightarrow> string option \<Rightarrow> claim" where
  "with_fields c updates cid = c\<lparr>cfields := dict_update (cfields c) updates,
     claim_id := (case cid of Some i \<Rightarrow> if i = [] then claim_id c else i | None \<Rightarrow> claim_id c),
     seq := - 1\<rparr>"

text \<open>The identity of \<open>merge\<close>; its tag is the character U+22A5 in UTF-8.\<close>

definition bottom_tag :: string where
  "bottom_tag = [char_of (226::nat), char_of (138::nat), char_of (165::nat)]"

definition BOTTOM :: claim where
  "BOTTOM = \<lparr>tag = bottom_tag, cfields = [], kind = None, priority = 0,
     source = '''', claim_id = ''bottom'', seq = - 1\<rparr>"

section \<open>Merge and reduce\<close>

text \<open>The value of one field of the merge; \<open>dict.get\<close> of an absent field is \<open>None\<close>.\<close>

definition merge_field :: "claim \<Rightarrow> claim \<Rightarrow> belief_context \<Rightarrow> registry \<Rightarrow> string \<Rightarrow> exn + pyval" where
  "merge_field c1 c2 ctx reg key =
     (let v1 = dict_get VNone (cfields c1) key; v2 = dict_get VNone (cfields c2) key
      in if v1 = VNone then Inr v2 else if v2 = VNone then Inr v1
         else registry_get reg key v1 v2 ctx)"

definition all_keys :: "claim \<Rightarrow> claim \<Rightarrow> string list" where
  "all_keys c1 c2 = map fst (cfields c1) @ filter (\<lambda>k. k \<notin> fst ` set (cfields c1)) (map fst (cfields c2))"

text \<open>
  \<open>cid\<close> is the fresh id the dataclass default draws for the merged claim. The source
  iterates over the union of the two key sets in an unspecified order, which no equality
  of claims observes; the model lists the keys of \<open>c1\<close> first.
\<close>

definition merge :: "string \<Rightarrow> claim \<Rightarrow> claim \<Rightarrow> belief_context \<Rightarrow> registry \<Rightarrow> exn + claim" where
  "merge cid c1 c2 ctx reg =
     (if tag c1 = bottom_tag then Inr c2
      else if tag c2 = bottom_tag then Inr c1
      else ebind (emap (\<lambda>k. ebind (merge_field c1 c2 ctx reg k) (\<lambda>v. Inr (k, v))) (all_keys c1 c2))
        (\<lambda>merged_fields. Inr
          \<lparr>tag = (if priority c2 \<le> priority c1 then tag c1 else tag c2),
           cfields = merged_fields,
           kind = (if kind c1 = None \<or> kind c1 = Some [] then kind c2 else kind c1),
           priority = max (priority c1) (priority c2),
           source = '''', claim_id = cid, seq = - 1\<rparr>))"

definition reduce :: "string \<Rightarrow> string \<Rightarrow> claim \<Rightarrow> claim \<Rightarrow> claim \<Rightarrow> belief_context \<Rightarrow> registry
    \<Rightarrow> exn + claim" where
  "reduce cid cid' belief_claim c1 c2 ctx reg =
     ebind (merge cid c1 c2 ctx reg) (\<lambda>merged. merge cid' belief_claim merged ctx reg)"

section \<open>Join strategies\<close>

text \<open>
  What the source calls a semilattice strategy: on its domain it returns, stays in the
  domain, and computes the join of the information content \<open>content\<close> of its arguments
  in a join semilattice.
\<close>

locale join_strategy =
  fixes strat :: strategy
    and dom :: "pyval \<Rightarrow> bool"
    and content :: "pyval \<Rightarrow> 'l::semilattice_sup"
  assumes dom_not_None: "dom v \<Longrightarrow> v \<noteq> VNone"
    and join: "dom a \<Longrightarrow> dom b \<Longrightarrow>
      \<exists>c. strat a b ctx = Inr c \<and> dom c \<and> content c = sup (content a) (content b)"

text \<open>The values one field takes as claims are folded; \<open>None\<close> carries no information.\<close>

definition field_step :: "strategy \<Rightarrow> belief_context \<Rightarrow> pyval \<Rightarrow> pyval \<Rightarrow> exn + pyval" where
  "field_step s ctx v1 v2 = (if v1 = VNone then Inr v2 else if v2 = VNone then Inr v1 else s v1 v2 ctx)"

context join_strategy
begin

lemma field_step_join:
  assumes "dom a" and "dom b"
  shows "\<exists>c. field_step strat ctx a b = Inr c \<and> dom c \<and> content c = sup (content a) (content b)"
  using join [OF assms] assms dom_not_None by (simp add: field_step_def)

lemma field_fold:
  assumes "dom v" and "\<forall>w \<in> set ws. dom w"
  shows "\<exists>r. efoldl (field_step strat ctx) v ws = Inr r \<and> dom r
    \<and> content r = fold sup (map content ws) (content v)"
  using assms
proof (induction ws arbitrary: v)
  case Nil
  then show ?case by simp
next
  case (Cons w ws)
  then obtain c where c: "field_step strat ctx v w = Inr c" "dom c"
      "content c = sup (content v) (content w)"
    using field_step_join [of v w ctx] by auto
  with Cons.IH [of c] Cons.prems(2) show ?case by (simp add: sup_commute)
qed

text \<open>Reordering and duplicating the folded values does not change the content.\<close>

lemma field_fold_set:
  assumes "dom v" and "\<forall>w \<in> set ws. dom w" and "dom v'" and "\<forall>w \<in> set ws'. dom w"
    and same: "set (v # ws) = set (v' # ws')"
    and "efoldl (field_step strat ctx) v ws = Inr r"
    and "efoldl (field_step strat ctx) v' ws' = Inr r'"
  shows "content r = content r'"
proof -
  have "content r = Sup_fin (set (map content (v # ws)))"
    using field_fold [OF assms(1,2), of ctx] assms(6) by (simp only: list.map Sup_fin.set_eq_fold) auto
  also have "set (map content (v # ws)) = set (map content (v' # ws'))"
    by (simp only: set_map same)
  also have "Sup_fin \<dots> = content r'"
    using field_fold [OF assms(3,4), of ctx] assms(7) by (simp only: list.map Sup_fin.set_eq_fold) auto
  finally show ?thesis .
qed

text \<open>Folding a value again changes nothing.\<close>

lemma field_step_absorb:
  assumes "dom v" and "dom w" and "content w \<le> content v" and "field_step strat ctx v w = Inr r"
  shows "content r = content v"
  using field_step_join [OF assms(1,2), where ctx = ctx] assms(3,4) by (auto simp: sup_absorb1)

end

text \<open>The strategies of the code that meet the contract, on their domains.\<close>

fun int_dom :: "pyval \<Rightarrow> bool" where
  "int_dom (VInt i) = True" | "int_dom _ = False"

fun int_content :: "pyval \<Rightarrow> int" where
  "int_content (VInt i) = i" | "int_content _ = 0"

fun set_dom :: "pyval \<Rightarrow> bool" where
  "set_dom (VSet s) = True" | "set_dom _ = False"

fun set_content :: "pyval \<Rightarrow> pykey fset" where
  "set_content (VSet s) = s" | "set_content _ = {||}"

lemma py_lt_VInt [simp]: "py_lt (VInt i) (VInt j) = Inr (i < j)"
  by simp

lemma int_domE: "int_dom v \<Longrightarrow> \<exists>i. v = VInt i"
  by (cases v) auto

lemma set_domE: "set_dom v \<Longrightarrow> \<exists>s. v = VSet s"
  by (cases v) auto

lemma strategy_max_VInt [simp]: "strategy_max (VInt i) (VInt j) ctx = Inr (VInt (max i j))"
  by (simp add: strategy_max_def max_def)

lemma strategy_min_VInt [simp]: "strategy_min (VInt i) (VInt j) ctx = Inr (VInt (min i j))"
  by (simp add: strategy_min_def min_def)

interpretation max_join: join_strategy strategy_max int_dom int_content
  by unfold_locales (auto dest!: int_domE simp: sup_int_def)

interpretation min_join: join_strategy strategy_min int_dom "\<lambda>v. - int_content v"
  by unfold_locales (auto dest!: int_domE simp: sup_int_def)

interpretation union_join: join_strategy strategy_union set_dom set_content
  by unfold_locales
    (auto dest!: set_domE simp: strategy_union_def or_empty_def py_set_def)

text \<open>Counter dictionaries: distinct keys, non-negative integers.\<close>

fun counter_dom :: "pyval \<Rightarrow> bool" where
  "counter_dom (VDict d) = (distinct (map fst d) \<and> (\<forall>kv \<in> set d. \<exists>i. snd kv = VInt i \<and> 0 \<le> i))"
| "counter_dom _ = False"

fun counter_content :: "pyval \<Rightarrow> pykey \<Rightarrow> int option" where
  "counter_content (VDict d) = (\<lambda>k. map_option int_content (map_of d k))"
| "counter_content _ = (\<lambda>k. None)"

fun expect_dom :: "pyval \<Rightarrow> bool" where
  "expect_dom (VDict d) = (distinct (map fst d) \<and> (\<forall>kv \<in> set d. \<exists>s. snd kv = VSet s))"
| "expect_dom _ = False"

fun expect_content :: "pyval \<Rightarrow> pykey \<Rightarrow> pykey fset option" where
  "expect_content (VDict d) = (\<lambda>k. map_option set_content (map_of d k))"
| "expect_content _ = (\<lambda>k. None)"

lemma or_dict_VDict [simp]: "or_dict (VDict d) = Inr d"
  by (simp add: or_dict_def)

text \<open>One key of the right operand: the entry becomes the join, the rest stays.\<close>

lemma py_max_VInt [simp]: "py_max (VInt i) (VInt j) = Inr (VInt (max i j))"
  by (simp add: py_max_def max_def)

lemma counter_step_join:
  assumes "counter_dom (VDict d)" and i: "0 \<le> i"
  shows "\<exists>e. counter_step d (k, VInt i) = Inr e \<and> counter_dom (VDict e)
    \<and> counter_content (VDict e) = (counter_content (VDict d))
        (k := sup (counter_content (VDict d) k) (Some i))"
proof -
  have "\<exists>j. dict_get (VInt 0) d k = VInt j \<and> 0 \<le> j
      \<and> (map_of d k = None \<longrightarrow> j = 0) \<and> (\<forall>v. map_of d k = Some v \<longrightarrow> v = VInt j)"
  proof (cases "map_of d k")
    case (Some v)
    then have "(k, v) \<in> set d" by (rule map_of_SomeD)
    with assms(1) obtain j where "v = VInt j" "0 \<le> j" by fastforce
    with Some show ?thesis by (simp add: dict_get_def)
  qed (simp add: dict_get_def)
  then obtain j where j: "dict_get (VInt 0) d k = VInt j" "0 \<le> j"
      "map_of d k = None \<longrightarrow> j = 0" "\<forall>v. map_of d k = Some v \<longrightarrow> v = VInt j"
    by (elim exE conjE)
  let ?e = "dict_put k (VInt (max j i)) d"
  have "counter_step d (k, VInt i) = Inr ?e" by (simp add: counter_step_def j(1))
  moreover have "counter_dom (VDict ?e)"
    using assms(1) i dict_put_all [of d "\<lambda>v. \<exists>i. v = VInt i \<and> 0 \<le> i" "VInt (max j i)" k]
    by simp
  moreover have "counter_content (VDict ?e)
      = (counter_content (VDict d)) (k := sup (counter_content (VDict d) k) (Some i))"
    using j(3,4) i by (cases "map_of d k") (auto simp: fun_eq_iff sup_int_def)
  ultimately show ?thesis by blast
qed

lemma expect_step_join:
  assumes "expect_dom (VDict d)"
  shows "\<exists>e. expect_step d (k, VSet t) = Inr e \<and> expect_dom (VDict e)
    \<and> expect_content (VDict e) = (expect_content (VDict d))
        (k := sup (expect_content (VDict d) k) (Some t))"
proof -
  have "\<exists>s. dict_get (VSet {||}) d k = VSet s
      \<and> (map_of d k = None \<longrightarrow> s = {||}) \<and> (\<forall>v. map_of d k = Some v \<longrightarrow> v = VSet s)"
  proof (cases "map_of d k")
    case (Some v)
    then have "(k, v) \<in> set d" by (rule map_of_SomeD)
    with assms obtain s where "v = VSet s" by fastforce
    with Some show ?thesis by (simp add: dict_get_def)
  qed (simp add: dict_get_def)
  then obtain s where s: "dict_get (VSet {||}) d k = VSet s"
      "map_of d k = None \<longrightarrow> s = {||}" "\<forall>v. map_of d k = Some v \<longrightarrow> v = VSet s"
    by (elim exE conjE)
  let ?e = "dict_put k (VSet (s |\<union>| t)) d"
  have "expect_step d (k, VSet t) = Inr ?e" by (simp add: expect_step_def s(1) py_set_def)
  moreover have "expect_dom (VDict ?e)"
    using assms dict_put_all [of d "\<lambda>v. \<exists>s. v = VSet s" "VSet (s |\<union>| t)" k]
    by simp
  moreover have "expect_content (VDict ?e)
      = (expect_content (VDict d)) (k := sup (expect_content (VDict d) k) (Some t))"
    using s(2,3) by (cases "map_of d k") (auto simp: fun_eq_iff)
  ultimately show ?thesis by blast
qed

text \<open>A loop of such steps over the right operand computes the pointwise join.\<close>

lemma pointwise_join_fold:
  fixes content :: "pyval \<Rightarrow> pykey \<Rightarrow> 'l::lattice option" and val :: "pyval \<Rightarrow> 'l"
  assumes one: "\<And>d k v. P d \<Longrightarrow> Q v \<Longrightarrow>
      \<exists>e. step d (k, v) = Inr e \<and> P e
        \<and> content (VDict e) = (content (VDict d)) (k := sup (content (VDict d) k) (Some (val v)))"
    and cont: "\<And>e. content (VDict e) = (\<lambda>k. map_option val (map_of e k))"
    and "P d" and "distinct (map fst e)" and "\<forall>kv \<in> set e. Q (snd kv)"
  shows "\<exists>r. efoldl step d e = Inr r \<and> P r
    \<and> content (VDict r) = sup (content (VDict d)) (content (VDict e))"
  using assms(3-)
proof (induction e arbitrary: d)
  case Nil
  then show ?case by (simp add: cont fun_eq_iff sup_fun_def)
next
  case (Cons kv e)
  obtain k v where kv: "kv = (k, v)" by (cases kv)
  with Cons.prems one [of d v k] obtain d' where d': "step d (k, v) = Inr d'" "P d'"
      "content (VDict d') = (content (VDict d)) (k := sup (content (VDict d) k) (Some (val v)))"
    by auto
  from Cons.IH [OF d'(2)] Cons.prems(2,3) kv obtain r where r: "efoldl step d' e = Inr r" "P r"
      "content (VDict r) = sup (content (VDict d')) (content (VDict e))"
    by fastforce
  have new: "map_of e k = None" using Cons.prems(2) kv by (simp add: map_of_eq_None_iff)
  have res: "content (VDict r) = sup (content (VDict d)) (content (VDict (kv # e)))"
    using new by (auto simp: r(3) d'(3) kv cont [of "(k, v) # e"] cont [of e] fun_eq_iff)
  have "efoldl step d (kv # e) = Inr r" using r(1) d'(1) kv by simp
  with r(2) res show ?case by blast
qed

interpretation counter_join: join_strategy strategy_counter_max counter_dom counter_content
proof
  fix a b ctx
  show "counter_dom a \<Longrightarrow> a \<noteq> VNone" by auto
  assume a: "counter_dom a" and b: "counter_dom b"
  from a obtain d where d: "a = VDict d" by (cases a) auto
  from b obtain e where e: "b = VDict e" by (cases b) auto
  have "\<exists>r. efoldl counter_step d e = Inr r \<and> counter_dom (VDict r)
      \<and> counter_content (VDict r) = sup (counter_content (VDict d)) (counter_content (VDict e))"
  proof (rule pointwise_join_fold [where P = "\<lambda>d. counter_dom (VDict d)"
        and Q = "\<lambda>v. \<exists>i. v = VInt i \<and> 0 \<le> i" and val = int_content])
    fix d k v assume "counter_dom (VDict d)" and "\<exists>i. v = VInt i \<and> 0 \<le> i"
    then show "\<exists>e. counter_step d (k, v) = Inr e \<and> counter_dom (VDict e)
        \<and> counter_content (VDict e) = (counter_content (VDict d))
            (k := sup (counter_content (VDict d) k) (Some (int_content v)))"
      using counter_step_join [of d] by (elim exE conjE) (simp only: int_content.simps)
  qed (use a b d e in auto)
  then show "\<exists>c. strategy_counter_max a b ctx = Inr c \<and> counter_dom c
      \<and> counter_content c = sup (counter_content a) (counter_content b)"
    using d e by (auto simp: strategy_counter_max_def)
qed

interpretation expect_join: join_strategy strategy_expectations_merge expect_dom expect_content
proof
  fix a b ctx
  show "expect_dom a \<Longrightarrow> a \<noteq> VNone" by auto
  assume a: "expect_dom a" and b: "expect_dom b"
  from a obtain d where d: "a = VDict d" by (cases a) auto
  from b obtain e where e: "b = VDict e" by (cases b) auto
  have "\<exists>r. efoldl expect_step d e = Inr r \<and> expect_dom (VDict r)
      \<and> expect_content (VDict r) = sup (expect_content (VDict d)) (expect_content (VDict e))"
  proof (rule pointwise_join_fold [where P = "\<lambda>d. expect_dom (VDict d)"
        and Q = "\<lambda>v. \<exists>s. v = VSet s" and val = set_content])
    fix d k v assume "expect_dom (VDict d)" and "\<exists>s. v = VSet s"
    then show "\<exists>e. expect_step d (k, v) = Inr e \<and> expect_dom (VDict e)
        \<and> expect_content (VDict e) = (expect_content (VDict d))
            (k := sup (expect_content (VDict d) k) (Some (set_content v)))"
      using expect_step_join [of d] by (elim exE) (simp only: set_content.simps)
  qed (use a b d e in auto)
  then show "\<exists>c. strategy_expectations_merge a b ctx = Inr c \<and> expect_dom c
      \<and> expect_content c = sup (expect_content a) (expect_content b)"
    using d e by (auto simp: strategy_expectations_merge_def)
qed

section \<open>Facts about merge\<close>

definition wf_claim :: "claim \<Rightarrow> bool" where
  "wf_claim c \<longleftrightarrow> wf_fields (cfields c)"

definition claim_keys :: "claim \<Rightarrow> string set" where
  "claim_keys c = fst ` set (cfields c)"

lemma set_all_keys: "set (all_keys c1 c2) = claim_keys c1 \<union> claim_keys c2"
  by (auto simp: all_keys_def claim_keys_def)

lemma map_of_emap_keys:
  assumes "emap (\<lambda>k. ebind (f k) (\<lambda>v. Inr (k, v))) ks = Inr kvs"
  shows "map fst kvs = ks \<and> (\<forall>k \<in> set ks. f k = Inr (the (map_of kvs k)))
    \<and> (\<forall>k. k \<notin> set ks \<longrightarrow> map_of kvs k = None)"
  using assms
proof (induction ks arbitrary: kvs)
  case Nil
  then show ?case by simp
next
  case (Cons k ks)
  then obtain v rest where "f k = Inr v" "emap (\<lambda>k. ebind (f k) (\<lambda>v. Inr (k, v))) ks = Inr rest"
      "kvs = (k, v) # rest" by auto
  with Cons.IH [of rest] show ?case by auto
qed

text \<open>The merge of two proper claims: its keys, and the value of every field.\<close>

lemma merge_proper:
  assumes "merge cid c1 c2 ctx reg = Inr m"
    and "tag c1 \<noteq> bottom_tag" and "tag c2 \<noteq> bottom_tag"
  shows "claim_keys m = claim_keys c1 \<union> claim_keys c2"
    and "merge_field c1 c2 ctx reg k = Inr (dict_get VNone (cfields m) k)"
    and "tag m \<noteq> bottom_tag"
proof -
  from assms have "emap (\<lambda>k. ebind (merge_field c1 c2 ctx reg k) (\<lambda>v. Inr (k, v))) (all_keys c1 c2)
      = Inr (cfields m)" and t: "tag m \<in> {tag c1, tag c2}"
    by (auto simp: merge_def)
  note f = map_of_emap_keys [OF this(1)]
  from f have "map fst (cfields m) = all_keys c1 c2" by blast
  then show keys: "claim_keys m = claim_keys c1 \<union> claim_keys c2"
    using set_all_keys [of c1 c2] by (metis claim_keys_def set_map)
  show "merge_field c1 c2 ctx reg k = Inr (dict_get VNone (cfields m) k)"
  proof (cases "k \<in> claim_keys c1 \<union> claim_keys c2")
    case True
    with keys have "k \<in> fst ` set (cfields m)" by (simp only: claim_keys_def)
    then have "map_of (cfields m) k \<noteq> None" by (simp add: map_of_eq_None_iff)
    then obtain v where v: "map_of (cfields m) k = Some v" by blast
    from True f have "merge_field c1 c2 ctx reg k = Inr (the (map_of (cfields m) k))"
      by (simp add: set_all_keys)
    with v show ?thesis by (simp add: dict_get_def)
  next
    case False
    then have "map_of (cfields c1) k = None" "map_of (cfields c2) k = None"
        "map_of (cfields m) k = None"
      using keys by (auto simp: claim_keys_def map_of_eq_None_iff)
    then show ?thesis by (simp add: merge_field_def dict_get_def Let_def)
  qed
  from t assms show "tag m \<noteq> bottom_tag" by auto
qed

lemma merge_bottom_left [simp]: "tag c1 = bottom_tag \<Longrightarrow> merge cid c1 c2 ctx reg = Inr c2"
  by (simp add: merge_def)

lemma merge_bottom_right [simp]:
  "tag c1 \<noteq> bottom_tag \<Longrightarrow> tag c2 = bottom_tag \<Longrightarrow> merge cid c1 c2 ctx reg = Inr c1"
  by (simp add: merge_def)

lemma merge_keys:
  assumes "merge cid c1 c2 ctx reg = Inr m"
    and "tag c1 = bottom_tag \<Longrightarrow> cfields c1 = []" and "tag c2 = bottom_tag \<Longrightarrow> cfields c2 = []"
  shows "claim_keys m = claim_keys c1 \<union> claim_keys c2"
  using assms merge_proper(1) [OF assms(1)]
  by (cases "tag c1 = bottom_tag"; cases "tag c2 = bottom_tag") (auto simp: claim_keys_def)

text \<open>Folding a list of claims into one, each with the id drawn for its merge.\<close>

definition merge_all :: "claim \<Rightarrow> (string \<times> claim) list \<Rightarrow> belief_context \<Rightarrow> registry \<Rightarrow> exn + claim" where
  "merge_all c cs ctx reg = efoldl (\<lambda>m (cid, c'). merge cid m c' ctx reg) c cs"

definition claim_val :: "string \<Rightarrow> claim \<Rightarrow> pyval" where
  "claim_val k c = dict_get VNone (cfields c) k"

lemma merge_all_field:
  assumes "merge_all c cs ctx reg = Inr m" and "tag c \<noteq> bottom_tag"
    and "\<forall>x \<in> set cs. tag (snd x) \<noteq> bottom_tag"
  shows "efoldl (field_step (registry_get reg k) ctx) (claim_val k c) (map (claim_val k \<circ> snd) cs)
    = Inr (claim_val k m)"
  using assms
proof (induction cs arbitrary: c)
  case Nil
  then show ?case by (simp add: merge_all_def)
next
  case (Cons x cs)
  obtain cid c' where x: "x = (cid, c')" by (cases x)
  from Cons.prems x obtain m1 where m1: "merge cid c c' ctx reg = Inr m1"
      "merge_all m1 cs ctx reg = Inr m" by (auto simp: merge_all_def)
  have t: "tag c' \<noteq> bottom_tag" using Cons.prems(3) x by simp
  note p = merge_proper [OF m1(1) Cons.prems(2) t]
  have "field_step (registry_get reg k) ctx (claim_val k c) (claim_val k c') = Inr (claim_val k m1)"
    using p(2) [of k] by (simp add: merge_field_def field_step_def claim_val_def Let_def)
  moreover have "efoldl (field_step (registry_get reg k) ctx) (claim_val k m1)
      (map (claim_val k \<circ> snd) cs) = Inr (claim_val k m)"
    using Cons.IH [OF m1(2) p(3)] Cons.prems(3) by (simp add: comp_def)
  ultimately show ?case by (simp add: x comp_def)
qed

text \<open>
  A field under a join strategy: two folds over the same set of claims, in any order and
  with any repetitions, agree on its information content.
\<close>

context join_strategy
begin

lemma claim_fold_order:
  assumes "registry_get reg k = strat"
    and m: "merge_all c cs ctx reg = Inr m" "merge_all c' cs' ctx reg = Inr m'"
    and tags: "\<forall>x \<in> insert c (snd ` set cs) \<union> insert c' (snd ` set cs').
        tag x \<noteq> bottom_tag \<and> dom (claim_val k x)"
    and same: "insert c (snd ` set cs) = insert c' (snd ` set cs')"
  shows "content (claim_val k m) = content (claim_val k m')"
proof (rule field_fold_set)
  show "dom (claim_val k c)" "dom (claim_val k c')"
    and "\<forall>w \<in> set (map (claim_val k \<circ> snd) cs). dom w"
    and "\<forall>w \<in> set (map (claim_val k \<circ> snd) cs'). dom w"
    using tags by auto
  have "claim_val k ` insert c (snd ` set cs) = claim_val k ` insert c' (snd ` set cs')"
    by (simp only: same)
  then show "set (claim_val k c # map (claim_val k \<circ> snd) cs)
      = set (claim_val k c' # map (claim_val k \<circ> snd) cs')"
    by (simp add: image_comp)
  show "efoldl (field_step strat ctx) (claim_val k c) (map (claim_val k \<circ> snd) cs)
      = Inr (claim_val k m)"
    using merge_all_field [OF m(1), of k] tags assms(1) by auto
  show "efoldl (field_step strat ctx) (claim_val k c') (map (claim_val k \<circ> snd) cs')
      = Inr (claim_val k m')"
    using merge_all_field [OF m(2), of k] tags assms(1) by auto
qed

end

lemma default_registry_lookup:
  "registry_get make_default_registry ''_fail_counts'' = strategy_counter_max"
  "registry_get make_default_registry ''_expectations'' = strategy_expectations_merge"
  "registry_get make_default_registry ''_history'' = strategy_append"
  "registry_get make_default_registry ''_fail_log'' = strategy_append"
  "registry_get make_default_registry ''priority'' = strategy_max"
  "registry_get make_default_registry ''deadline'' = strategy_min"
  by (simp_all add: registry_get_def make_default_registry_def register_def registry_init_def
      dict_get_def)

end
