(* ===== verification/Retry.thy ===== *)
theory Retry
  imports Values
begin

text \<open>
  Model calls with retries: usage and replies (\<open>lipas/adapter/types.py\<close>), the
  classification of failed replies and the retry policies (\<open>lipas/adapter/errors.py\<close>),
  the reading of a reply stream (\<open>complete\<close> in \<open>lipas/adapter/protocol.py\<close>) and the loop
  \<open>call_with_retry\<close> (\<open>lipas/retry.py\<close>). The adapter's streams, the sinks, the sleep and
  the random numbers are parameters.
\<close>

section \<open>Usage and replies\<close>

record usage =
  us_input :: int
  us_output :: int
  us_cache_read :: int
  us_cache_write :: int

definition make_usage :: "int \<Rightarrow> int \<Rightarrow> int \<Rightarrow> int \<Rightarrow> exn + usage" where
  "make_usage i out cr cw =
     ebind (guard_or ValueError (0 \<le> i \<and> 0 \<le> out \<and> 0 \<le> cr \<and> 0 \<le> cw)) (\<lambda>_.
     Inr \<lparr>us_input = i, us_output = out, us_cache_read = cr, us_cache_write = cw\<rparr>)"

definition usage_total :: "usage \<Rightarrow> int" where
  "usage_total u = us_input u + us_output u + us_cache_read u + us_cache_write u"

definition usage_add :: "usage \<Rightarrow> usage \<Rightarrow> exn + usage" where
  "usage_add u v = make_usage (us_input u + us_input v) (us_output u + us_output v)
     (us_cache_read u + us_cache_read v) (us_cache_write u + us_cache_write v)"

definition no_usage :: usage where
  "no_usage = \<lparr>us_input = 0, us_output = 0, us_cache_read = 0, us_cache_write = 0\<rparr>"

definition usage_le :: "usage \<Rightarrow> usage \<Rightarrow> bool" where
  "usage_le u v \<longleftrightarrow> us_input u \<le> us_input v \<and> us_output u \<le> us_output v
     \<and> us_cache_read u \<le> us_cache_read v \<and> us_cache_write u \<le> us_cache_write v"

record reply =
  rp_content :: "pyval list"
  rp_usage :: usage
  rp_stop_reason :: string
  rp_model :: string
  rp_error_detail :: "fieldmap option"

definition make_reply :: "pyval list \<Rightarrow> usage \<Rightarrow> string \<Rightarrow> string \<Rightarrow> fieldmap option \<Rightarrow> exn + reply" where
  "make_reply content u reason model detail =
     ebind (guard_or ValueError (strip model \<noteq> [])) (\<lambda>_.
     ebind (guard_or ValueError (reason \<in> {''end_turn'', ''max_tokens'', ''stop_sequence'', ''tool_use'', ''error''})) (\<lambda>_.
     ebind (guard_or ValueError (\<not> (reason = ''error'' \<and> detail = None))) (\<lambda>_.
     ebind (guard_or ValueError (\<not> (reason \<noteq> ''error'' \<and> detail \<noteq> None))) (\<lambda>_.
     Inr \<lparr>rp_content = content, rp_usage = u, rp_stop_reason = reason, rp_model = model,
       rp_error_detail = detail\<rparr>))))"

text \<open>\<open>Delta\<close>, \<open>ToolUseDelta\<close>, \<open>Thinking\<close> and \<open>Done\<close>.\<close>

datatype stream_event = Delta int string | ToolUseDelta int string | Thinking string | DoneEvent reply

section \<open>Error kinds\<close>

datatype error_kind = RateLimit | Timeout | Network | ServerError | Auth | InvalidRequest | ContextLength
  | ContentFilter | UnknownKind

fun error_kind_value :: "error_kind \<Rightarrow> string" where
  "error_kind_value RateLimit = ''rate_limit''"
| "error_kind_value Timeout = ''timeout''"
| "error_kind_value Network = ''network''"
| "error_kind_value ServerError = ''server_error''"
| "error_kind_value Auth = ''auth''"
| "error_kind_value InvalidRequest = ''invalid_request''"
| "error_kind_value ContextLength = ''context_length''"
| "error_kind_value ContentFilter = ''content_filter''"
| "error_kind_value UnknownKind = ''unknown''"

definition is_transient :: "error_kind \<Rightarrow> bool" where
  "is_transient k \<longleftrightarrow> k \<in> {RateLimit, Timeout, Network, ServerError}"

definition timeout_exc_names :: "string list" where
  "timeout_exc_names = [''ReadTimeout'', ''WriteTimeout'', ''PoolTimeout'', ''ConnectTimeout'', ''TimeoutException'']"

text \<open>
  \<open>" ".join(str(err.get(key, "")) \<dots>).lower()\<close>; \<open>show\<close> is \<open>str\<close> of a value that is not
  a string. Only a \<open>dict\<close> has \<open>get\<close>.
\<close>

definition shown :: "(pyval \<Rightarrow> string) \<Rightarrow> pyval \<Rightarrow> string" where
  "shown show v = (case v of VStr s \<Rightarrow> s | _ \<Rightarrow> show v)"

definition descriptor :: "(pyval \<Rightarrow> string) \<Rightarrow> pyval \<Rightarrow> exn + string" where
  "descriptor show err = (case err of
      VDict d \<Rightarrow> Inr (ascii_lower (shown show (dict_get (VStr []) d (KStr ''type'')) @ '' ''
        @ shown show (dict_get (VStr []) d (KStr ''code'')) @ '' '' @ shown show (dict_get (VStr []) d (KStr ''message''))))
    | _ \<Rightarrow> Inl AttributeError)"

text \<open>A number as the comparisons of the code see it.\<close>

fun numeric :: "pyval \<Rightarrow> xfloat option" where
  "numeric (VInt i) = Some (Fin (of_int i))"
| "numeric (VBool b) = Some (Fin (if b then 1 else 0))"
| "numeric (VFloat x) = Some x"
| "numeric v = None"

definition classify_http :: "(pyval \<Rightarrow> string) \<Rightarrow> pyval \<Rightarrow> pyval \<Rightarrow> exn + error_kind" where
  "classify_http show status body =
     (if numeric status = Some (Fin 429) then Inr RateLimit
      else if numeric status = Some (Fin 408) then Inr Timeout
      else if numeric status = Some (Fin 401) \<or> numeric status = Some (Fin 403) then Inr Auth
      else if numeric status = Some (Fin 400) then
        ebind (descriptor show (case body of
            VDict d \<Rightarrow> (let e = dict_get VNone d (KStr ''error'') in if truthy e then e else VDict [])
          | _ \<Rightarrow> VDict [])) (\<lambda>d.
        Inr (if has_text ''context'' d \<or> has_text ''too long'' d then ContextLength else InvalidRequest))
      else (case status of VNaN \<Rightarrow> Inr UnknownKind | _ \<Rightarrow> (case numeric status of
          None \<Rightarrow> Inl TypeError
        | Some n \<Rightarrow> Inr (if Fin 400 \<le> n \<and> n < Fin 500 then InvalidRequest
            else if Fin 500 \<le> n \<and> n < Fin 600 then ServerError else UnknownKind))))"

definition classify_provider :: "(pyval \<Rightarrow> string) \<Rightarrow> pyval \<Rightarrow> exn + error_kind" where
  "classify_provider show err = ebind (descriptor show err) (\<lambda>d. Inr (
     if has_text ''rate_limit'' d \<or> has_text ''too many requests'' d then RateLimit
     else if has_text ''overloaded'' d \<or> has_text ''server_error'' d then ServerError
     else if has_text ''authentication'' d \<or> has_text ''permission'' d \<or> has_text ''unauthorized'' d
       \<or> has_text ''invalid_api_key'' d then Auth
     else if has_text ''context'' d \<or> has_text ''too long'' d then ContextLength
     else if has_text ''invalid_request'' d \<or> has_text ''invalid_parameter'' d then InvalidRequest
     else if has_text ''content_policy'' d \<or> has_text ''content_filter'' d then ContentFilter
     else UnknownKind))"

definition required :: "fieldmap \<Rightarrow> string \<Rightarrow> exn + pyval" where
  "required d k = (case map_of d k of None \<Rightarrow> Inl KeyError | Some v \<Rightarrow> Inr v)"

text \<open>Membership in a \<open>frozenset\<close> hashes the value first.\<close>

definition timeout_name :: "pyval \<Rightarrow> exn + bool" where
  "timeout_name v = (case v of VStr s \<Rightarrow> Inr (s \<in> set timeout_exc_names)
     | VList xs \<Rightarrow> Inl TypeError | VDict d \<Rightarrow> Inl TypeError | VSet s \<Rightarrow> Inl TypeError | _ \<Rightarrow> Inr False)"

definition classify :: "(pyval \<Rightarrow> string) \<Rightarrow> reply \<Rightarrow> exn + error_kind" where
  "classify show r =
     (if rp_stop_reason r \<noteq> ''error'' then Inl ValueError
      else let detail = (case rp_error_detail r of None \<Rightarrow> [] | Some d \<Rightarrow> d); dtype = dict_get VNone detail ''type'' in
        if dtype = VStr ''http_error'' then
          ebind (required detail ''status_code'') (\<lambda>status.
          let body = dict_get VNone detail ''body'' in
          classify_http show status (if truthy body then body else VDict []))
        else if dtype = VStr ''network_error'' then
          ebind (required detail ''exception_type'') (\<lambda>name. ebind (timeout_name name) (\<lambda>b.
          Inr (if b then Timeout else Network)))
        else if dtype = VStr ''provider_error'' then
          ebind (required detail ''provider_error'') (classify_provider show)
        else Inr UnknownKind)"

section \<open>Policies\<close>

record retry_policy =
  po_should_retry :: bool
  po_base_delay :: rat
  po_max_attempts :: int

definition make_retry_policy :: "bool \<Rightarrow> xfloat \<Rightarrow> int \<Rightarrow> exn + retry_policy" where
  "make_retry_policy should base maximum =
     (case base of
        Fin b \<Rightarrow>
          ebind (guard_or ValueError (0 \<le> b)) (\<lambda>_.
          ebind (guard_or ValueError (1 \<le> maximum)) (\<lambda>_.
          ebind (guard_or ValueError (\<not> (\<not> should \<and> maximum \<noteq> 1))) (\<lambda>_.
          Inr \<lparr>po_should_retry = should, po_base_delay = b, po_max_attempts = maximum\<rparr>)))
      | _ \<Rightarrow> Inl ValueError)"

definition default_retry_policies :: "(error_kind \<times> retry_policy) list" where
  "default_retry_policies =
     (let p = (\<lambda>should b n. \<lparr>po_should_retry = should, po_base_delay = b, po_max_attempts = n\<rparr>) in
      [(RateLimit, p True 2 5), (Timeout, p True 1 3), (Network, p True 1 3), (ServerError, p True 2 4),
       (Auth, p False 0 1), (InvalidRequest, p False 0 1), (ContextLength, p False 0 1), (ContentFilter, p False 0 1),
       (UnknownKind, p False 0 1)])"

section \<open>Reading a stream\<close>

datatype stream_end = StreamEnded | StreamRaised exn

text \<open>What a stream yields, how it ends after that, and what closing it does.\<close>

record reply_stream =
  st_events :: "stream_event list"
  st_ending :: stream_end
  st_close :: "exn + unit"

text \<open>
  The host of a call: the stream of each attempt, the event sink and the attempt sink, the
  sleep and the jitter. Moments count the questions to the host.
\<close>

record retry_env =
  re_stream :: "nat \<Rightarrow> reply_stream"
  re_sink :: "(nat \<Rightarrow> stream_event \<Rightarrow> exn + unit) option"
  re_attempt :: "(nat \<Rightarrow> nat \<Rightarrow> reply \<Rightarrow> error_kind option \<Rightarrow> exn + unit) option"
  re_uniform :: "nat \<Rightarrow> xfloat \<Rightarrow> xfloat"
  re_sleep :: "nat \<Rightarrow> xfloat \<Rightarrow> exn + unit"
  re_show :: "pyval \<Rightarrow> string"

text \<open>
  \<open>rr_visible\<close> is the flag of the current attempt; \<open>rr_replies\<close>, \<open>rr_shown\<close> and
  \<open>rr_delays\<close> record the replies read, the events given to the sink and the sleeps, which
  the code does not keep.
\<close>

record retry_run =
  rr_visible :: bool
  rr_now :: nat
  rr_replies :: "reply list"
  rr_shown :: "stream_event list"
  rr_delays :: "xfloat list"

type_synonym 'a retry_op = "retry_run \<Rightarrow> (exn + 'a) \<times> retry_run"

definition moment :: "nat retry_op" where
  "moment r = (Inr (rr_now r), r\<lparr>rr_now := rr_now r + 1\<rparr>)"

fun is_done_event :: "stream_event \<Rightarrow> bool" where
  "is_done_event (DoneEvent r) = True" | "is_done_event e = False"

text \<open>\<open>deliver\<close>: the flag is set before the sink is called.\<close>

definition deliver :: "retry_env \<Rightarrow> stream_event \<Rightarrow> unit retry_op" where
  "deliver env e = (case re_sink env of
      None \<Rightarrow> sret ()
    | Some sink \<Rightarrow>
        sbind (sput (\<lambda>r. r\<lparr>rr_visible := rr_visible r \<or> \<not> is_done_event e, rr_shown := rr_shown r @ [e]\<rparr>)) (\<lambda>_.
        sbind moment (\<lambda>n. slift (sink n e))))"

fun read_events :: "retry_env \<Rightarrow> stream_end \<Rightarrow> stream_event list \<Rightarrow> reply option retry_op" where
  "read_events env ending [] = (case ending of StreamEnded \<Rightarrow> sret None | StreamRaised e \<Rightarrow> slift (Inl e))"
| "read_events env ending (e # es) = sbind (deliver env e) (\<lambda>_.
     case e of DoneEvent reply \<Rightarrow> sret (Some reply) | _ \<Rightarrow> read_events env ending es)"

text \<open>\<open>complete\<close>: the stream is closed whatever happened, and an exception of the close wins.\<close>

definition complete_call :: "retry_env \<Rightarrow> reply_stream \<Rightarrow> reply retry_op" where
  "complete_call env st = stry (read_events env (st_ending st) (st_events st))
     (\<lambda>e. sbind (slift (st_close st)) (\<lambda>_. slift (Inl e)))
     (\<lambda>found. sbind (slift (st_close st)) (\<lambda>_.
       case found of None \<Rightarrow> slift (Inl StreamProtocolError) | Some reply \<Rightarrow> sret reply))"

section \<open>The loop\<close>

record retry_outcome =
  ro_reply :: reply
  ro_attempts :: int
  ro_total_usage :: "usage option"

definition make_retry_outcome :: "reply \<Rightarrow> int \<Rightarrow> usage option \<Rightarrow> exn + retry_outcome" where
  "make_retry_outcome reply attempts billed =
     ebind (guard_or ValueError (1 \<le> attempts)) (\<lambda>_.
     ebind (guard_or ValueError (case billed of None \<Rightarrow> True | Some u \<Rightarrow> usage_le (rp_usage reply) u)) (\<lambda>_.
     Inr \<lparr>ro_reply = reply, ro_attempts = attempts, ro_total_usage = billed\<rparr>))"

definition billed_usage :: "retry_outcome \<Rightarrow> usage" where
  "billed_usage out = (case ro_total_usage out of None \<Rightarrow> rp_usage (ro_reply out) | Some u \<Rightarrow> u)"

text \<open>One attempt: the reply of its stream.\<close>

definition run_attempt :: "retry_env \<Rightarrow> nat \<Rightarrow> reply retry_op" where
  "run_attempt env attempt =
     sbind (sput (\<lambda>r. r\<lparr>rr_visible := False\<rparr>)) (\<lambda>_.
     sbind (complete_call env (re_stream env attempt)) (\<lambda>reply.
     sbind (sput (\<lambda>r. r\<lparr>rr_replies := rr_replies r @ [reply]\<rparr>)) (\<lambda>_. sret reply)))"

definition attempt_kind :: "retry_env \<Rightarrow> reply \<Rightarrow> exn + error_kind option" where
  "attempt_kind env reply = (if rp_stop_reason reply = ''error''
     then ebind (classify (re_show env) reply) (\<lambda>k. Inr (Some k)) else Inr None)"

definition report_attempt :: "retry_env \<Rightarrow> nat \<Rightarrow> reply \<Rightarrow> error_kind option \<Rightarrow> unit retry_op" where
  "report_attempt env attempt reply kind = (case re_attempt env of
      None \<Rightarrow> sret ()
    | Some sink \<Rightarrow> sbind moment (\<lambda>n. slift (sink n (attempt + 1) reply kind)))"

text \<open>\<open>base * 2 ** attempt\<close>: the power is converted to a float, which may overflow.\<close>

definition backoff_ceiling :: "retry_policy \<Rightarrow> nat \<Rightarrow> exn + xfloat" where
  "backoff_ceiling p attempt = ebind (float_of_int (2 ^ attempt)) (\<lambda>x.
     case x of Fin q \<Rightarrow> Inr (to_double (po_base_delay p * q)) | _ \<Rightarrow> Inl OverflowError)"

definition back_off :: "retry_env \<Rightarrow> retry_policy \<Rightarrow> nat \<Rightarrow> unit retry_op" where
  "back_off env p attempt =
     sbind (slift (backoff_ceiling p attempt)) (\<lambda>ceiling.
     sbind moment (\<lambda>n.
     let delay = re_uniform env n ceiling in
     sbind (sput (\<lambda>r. r\<lparr>rr_delays := rr_delays r @ [delay]\<rparr>)) (\<lambda>_.
     sbind moment (\<lambda>m. slift (re_sleep env m delay)))))"

text \<open>The last attempt that any policy of the table allows.\<close>

definition attempts_bound :: "(error_kind \<times> retry_policy) list \<Rightarrow> nat" where
  "attempts_bound table = foldr (\<lambda>(k, p) m. max (nat (po_max_attempts p)) m) table 0"

lemma attempts_bound_ge: "(k, p) \<in> set table \<Longrightarrow> nat (po_max_attempts p) \<le> attempts_bound table"
  by (induction table) (auto simp: attempts_bound_def)

lemma attempts_left: "map_of table k = Some p \<Longrightarrow> \<not> po_max_attempts p \<le> int attempt + 1 \<Longrightarrow>
    attempts_bound table - Suc attempt < attempts_bound table - attempt"
  using attempts_bound_ge [OF map_of_SomeD, of table k p] by linarith

text \<open>The \<open>while True\<close> loop, from the attempt \<open>attempt\<close> on with the usage so far.\<close>

function retry_loop :: "retry_env \<Rightarrow> (error_kind \<times> retry_policy) list \<Rightarrow> nat \<Rightarrow> usage \<Rightarrow> retry_outcome retry_op" where
  "retry_loop env table attempt used =
     sbind (run_attempt env attempt) (\<lambda>reply.
     sbind (slift (usage_add used (rp_usage reply))) (\<lambda>billed.
     sbind (slift (attempt_kind env reply)) (\<lambda>kind.
     sbind (report_attempt env attempt reply kind) (\<lambda>_.
     case kind of
       None \<Rightarrow> slift (make_retry_outcome reply (int attempt + 1) (Some billed))
     | Some k \<Rightarrow> (case map_of table k of
           None \<Rightarrow> slift (Inl KeyError)
         | Some p \<Rightarrow> sbind (sget rr_visible) (\<lambda>visible.
             if visible \<or> \<not> po_should_retry p \<or> po_max_attempts p \<le> int attempt + 1
             then slift (make_retry_outcome reply (int attempt + 1) (Some billed))
             else sbind (back_off env p attempt) (\<lambda>_. retry_loop env table (attempt + 1) billed)))))))"
  by pat_completeness auto
termination
  by (relation "measure (\<lambda>(env, table, attempt, used). attempts_bound table - attempt)") (auto dest: attempts_left)

declare retry_loop.simps [simp del]

definition call_with_retry :: "retry_env \<Rightarrow> (error_kind \<times> retry_policy) list \<Rightarrow> retry_outcome retry_op" where
  "call_with_retry env table = retry_loop env table 0 no_usage"

definition new_call_run :: retry_run where
  "new_call_run = \<lparr>rr_visible = False, rr_now = 0, rr_replies = [], rr_shown = [], rr_delays = []\<rparr>"

end
