(* ===== verification/Store.thy ===== *)
theory Store
  imports Calculus
begin

text \<open>
  The claim store (\<open>lipas/store.py\<close>): an append-only log of claims with a tag index, an
  id index and an incrementally merged projection. \<open>deepcopy\<close> is the identity on values.
  The locale \<open>claim_tape\<close> is the contract the rows and the audit outboxes rely on; it is
  interpreted on the model of \<open>ClaimStore\<close>.
\<close>

section \<open>State and operations\<close>

record store =
  s_registry :: registry
  s_ctx :: belief_context
  s_merged :: claim
  s_log :: "claim list"
  s_seq :: int
  s_by_tag :: "(string \<times> nat list) list"
  s_by_id :: "(string \<times> claim) list"

definition store_init :: "registry \<Rightarrow> belief_context \<Rightarrow> store" where
  "store_init reg ctx = \<lparr>s_registry = reg, s_ctx = ctx, s_merged = BOTTOM, s_log = [],
     s_seq = 0, s_by_tag = [], s_by_id = []\<rparr>"

definition same_claim_payload :: "claim \<Rightarrow> claim \<Rightarrow> bool" where
  "same_claim_payload l r \<longleftrightarrow> tag l = tag r \<and> fields_eq (cfields l) (cfields r)
     \<and> kind l = kind r \<and> priority l = priority r \<and> source l = source r"

text \<open>
  \<open>fold\<close>: the log, the indices and the sequence number are written before the merge
  runs, so a strategy that raises leaves the claim recorded and the projection behind.
  \<open>cid\<close> is the fresh id of the merged claim.
\<close>

definition store_fold :: "string \<Rightarrow> claim \<Rightarrow> store \<Rightarrow> (exn + claim) \<times> store" where
  "store_fold cid c s = (case map_of (s_by_id s) (claim_id c) of
      Some existing \<Rightarrow>
        if same_claim_payload existing c then (Inr (s_merged s), s) else (Inl ClaimIdConflict, s)
    | None \<Rightarrow>
        let c' = (if seq c < 0 then c\<lparr>seq := s_seq s\<rparr> else c);
            idx = length (s_log s);
            s1 = s\<lparr>s_log := s_log s @ [c'],
                   s_by_tag := dict_put (tag c') (dict_get [] (s_by_tag s) (tag c') @ [idx]) (s_by_tag s),
                   s_by_id := dict_put (claim_id c') c' (s_by_id s),
                   s_seq := s_seq s + 1\<rparr>
        in (case merge cid (s_merged s) c' (s_ctx s) (s_registry s) of
              Inl e \<Rightarrow> (Inl e, s1)
            | Inr m \<Rightarrow> (Inr m, s1\<lparr>s_merged := m\<rparr>)))"

definition matches :: "string option \<Rightarrow> string option \<Rightarrow> string option \<Rightarrow> claim \<Rightarrow> bool" where
  "matches t k src c \<longleftrightarrow> (t = None \<or> t = Some (tag c)) \<and> (k = None \<or> kind c = k)
     \<and> (src = None \<or> src = Some (source c))"

text \<open>\<open>filter\<close> answers a query by tag alone from the index, any other from the log.\<close>

definition store_filter :: "string option \<Rightarrow> string option \<Rightarrow> string option \<Rightarrow> store \<Rightarrow> claim list" where
  "store_filter t k src s = (case (t, k, src) of
      (Some tg, None, None) \<Rightarrow> map (\<lambda>i. s_log s ! i) (dict_get [] (s_by_tag s) tg)
    | _ \<Rightarrow> filter (matches t k src) (s_log s))"

section \<open>Invariant\<close>

definition index_ok :: "claim list \<Rightarrow> (string \<times> nat list) list \<Rightarrow> bool" where
  "index_ok lg idx \<longleftrightarrow> (\<forall>t. dict_get [] idx t = filter (\<lambda>i. tag (lg ! i) = t) [0..<length lg])"

definition store_inv :: "store \<Rightarrow> bool" where
  "store_inv s \<longleftrightarrow> distinct (map claim_id (s_log s))
     \<and> (\<forall>i. map_of (s_by_id s) i = find (\<lambda>c. claim_id c = i) (s_log s))
     \<and> index_ok (s_log s) (s_by_tag s)
     \<and> s_seq s = int (length (s_log s))"

lemma store_inv_init: "store_inv (store_init reg ctx)"
  by (simp add: store_inv_def store_init_def index_ok_def dict_get_def)

lemma find_append: "find P (xs @ ys) = (case find P xs of None \<Rightarrow> find P ys | Some x \<Rightarrow> Some x)"
  by (induction xs) auto

lemma index_ok_snoc:
  assumes "index_ok lg idx"
  shows "index_ok (lg @ [c]) (dict_put (tag c) (dict_get [] idx (tag c) @ [length lg]) idx)"
proof -
  have old: "filter (\<lambda>i. tag ((lg @ [c]) ! i) = t) [0..<length lg]
      = filter (\<lambda>i. tag (lg ! i) = t) [0..<length lg]" for t
    by (rule filter_cong) (auto simp: nth_append)
  have get: "dict_get [] (dict_put k v idx) t = (if t = k then v else dict_get [] idx t)" for k v t
    by (simp add: dict_get_def)
  show ?thesis
    using assms by (auto simp: index_ok_def get old)
qed

text \<open>The two outcomes of a fold, on the log: unchanged, or one claim longer.\<close>

lemma store_fold_known:
  "map_of (s_by_id s) (claim_id c) = Some x \<Longrightarrow> snd (store_fold cid c s) = s"
  by (simp add: store_fold_def)

definition sequenced :: "store \<Rightarrow> claim \<Rightarrow> claim" where
  "sequenced s c = (if seq c < 0 then c\<lparr>seq := s_seq s\<rparr> else c)"

lemma sequenced_same [simp]:
  "claim_id (sequenced s c) = claim_id c" "tag (sequenced s c) = tag c"
  "cfields (sequenced s c) = cfields c" "kind (sequenced s c) = kind c"
  "priority (sequenced s c) = priority c" "source (sequenced s c) = source c"
  by (simp_all add: sequenced_def)

lemma store_fold_new:
  assumes "map_of (s_by_id s) (claim_id c) = None"
  shows "s_log (snd (store_fold cid c s)) = s_log s @ [sequenced s c]"
    and "s_by_id (snd (store_fold cid c s)) = dict_put (claim_id c) (sequenced s c) (s_by_id s)"
    and "s_by_tag (snd (store_fold cid c s))
      = dict_put (tag c) (dict_get [] (s_by_tag s) (tag c) @ [length (s_log s)]) (s_by_tag s)"
    and "s_seq (snd (store_fold cid c s)) = s_seq s + 1"
    and "s_registry (snd (store_fold cid c s)) = s_registry s"
    and "s_ctx (snd (store_fold cid c s)) = s_ctx s"
  using assms by (simp_all add: store_fold_def sequenced_def Let_def split: sum.split)

lemma store_fold_inv: "store_inv s \<Longrightarrow> store_inv (snd (store_fold cid c s))"
proof (cases "map_of (s_by_id s) (claim_id c)")
  case (Some x)
  then show "store_inv s \<Longrightarrow> ?thesis" by (simp add: store_fold_known)
next
  case None
  assume inv: "store_inv s"
  note n = store_fold_new [OF None]
  have fresh: "claim_id c \<notin> claim_id ` set (s_log s)"
    using inv None by (auto simp: store_inv_def find_None_iff)
  show ?thesis
    unfolding store_inv_def n
  proof (intro conjI allI)
    show "distinct (map claim_id (s_log s @ [sequenced s c]))"
      using inv fresh by (simp add: store_inv_def)
    show "map_of (dict_put (claim_id c) (sequenced s c) (s_by_id s)) i
        = find (\<lambda>x. claim_id x = i) (s_log s @ [sequenced s c])" for i
      using inv None by (auto simp: store_inv_def find_append split: option.splits)
    show "index_ok (s_log s @ [sequenced s c])
        (dict_put (tag c) (dict_get [] (s_by_tag s) (tag c) @ [length (s_log s)]) (s_by_tag s))"
      using inv index_ok_snoc [of "s_log s" "s_by_tag s" "sequenced s c"]
      by (simp add: store_inv_def)
    show "s_seq s + 1 = int (length (s_log s @ [sequenced s c]))"
      using inv by (simp add: store_inv_def)
  qed
qed

text \<open>The index answers a tag query as a scan of the log would.\<close>

lemma store_filter_tag:
  assumes "store_inv s"
  shows "store_filter (Some t) None None s = filter (\<lambda>c. tag c = t) (s_log s)"
proof -
  have "map (\<lambda>i. s_log s ! i) (filter (\<lambda>i. tag (s_log s ! i) = t) [0..<length (s_log s)])
      = filter (\<lambda>c. tag c = t) (map (\<lambda>i. s_log s ! i) [0..<length (s_log s)])"
    by (simp add: filter_map comp_def)
  then show ?thesis
    using assms by (simp add: store_filter_def store_inv_def index_ok_def map_nth)
qed

section \<open>The contract of a claim tape\<close>

locale claim_tape =
  fixes fold_claim :: "string \<Rightarrow> claim \<Rightarrow> 's \<Rightarrow> (exn + claim) \<times> 's"
    and entries :: "'s \<Rightarrow> claim list"
    and inv :: "'s \<Rightarrow> bool"
  assumes inv_fold: "inv s \<Longrightarrow> inv (snd (fold_claim cid c s))"
    and ids_distinct: "inv s \<Longrightarrow> distinct (map claim_id (entries s))"
    and fold_known: "inv s \<Longrightarrow> claim_id c \<in> claim_id ` set (entries s) \<Longrightarrow> snd (fold_claim cid c s) = s"
    and fold_conflict: "inv s \<Longrightarrow> x \<in> set (entries s) \<Longrightarrow> claim_id x = claim_id c \<Longrightarrow>
      \<not> same_claim_payload x c \<Longrightarrow> fst (fold_claim cid c s) = Inl ClaimIdConflict"
    and fold_redeliver: "inv s \<Longrightarrow> x \<in> set (entries s) \<Longrightarrow> claim_id x = claim_id c \<Longrightarrow>
      same_claim_payload x c \<Longrightarrow> \<exists>m. fst (fold_claim cid c s) = Inr m"
    and fold_fresh: "inv s \<Longrightarrow> claim_id c \<notin> claim_id ` set (entries s) \<Longrightarrow>
      \<exists>c'. entries (snd (fold_claim cid c s)) = entries s @ [c'] \<and> claim_id c' = claim_id c
        \<and> tag c' = tag c \<and> cfields c' = cfields c \<and> kind c' = kind c
        \<and> priority c' = priority c \<and> source c' = source c"
begin

text \<open>Delivering a batch: every claim is folded, whatever the result of the others.\<close>

definition deliver :: "(string \<times> claim) list \<Rightarrow> 's \<Rightarrow> 's" where
  "deliver batch s = foldl (\<lambda>s (cid, c). snd (fold_claim cid c s)) s batch"

lemma log_fold_prefix: "inv s \<Longrightarrow> \<exists>t. entries (snd (fold_claim cid c s)) = entries s @ t"
  using fold_known [of s c cid] fold_fresh [of s c cid]
  by (cases "claim_id c \<in> claim_id ` set (entries s)") auto

lemma ids_fold: "inv s \<Longrightarrow>
    claim_id ` set (entries (snd (fold_claim cid c s))) = insert (claim_id c) (claim_id ` set (entries s))"
  using fold_known [of s c cid] fold_fresh [of s c cid]
  by (cases "claim_id c \<in> claim_id ` set (entries s)") auto

lemma deliver_inv: "inv s \<Longrightarrow> inv (deliver batch s)"
  by (induction batch arbitrary: s) (auto simp: deliver_def inv_fold)

lemma deliver_prefix: "inv s \<Longrightarrow> \<exists>t. entries (deliver batch s) = entries s @ t"
proof (induction batch arbitrary: s)
  case Nil
  then show ?case by (simp add: deliver_def)
next
  case (Cons x batch)
  obtain cid c where x: "x = (cid, c)" by (cases x)
  obtain t u where "entries (snd (fold_claim cid c s)) = entries s @ t"
      "entries (deliver batch (snd (fold_claim cid c s))) = entries (snd (fold_claim cid c s)) @ u"
    using log_fold_prefix [OF Cons.prems] Cons.IH [OF inv_fold [OF Cons.prems]] by blast
  then show ?case by (simp add: deliver_def x)
qed

lemma deliver_ids: "inv s \<Longrightarrow>
    claim_id ` set (entries (deliver batch s)) = claim_id ` set (entries s) \<union> claim_id ` snd ` set batch"
proof (induction batch arbitrary: s)
  case Nil
  then show ?case by (simp add: deliver_def)
next
  case (Cons x batch)
  then show ?case
    using Cons.IH [OF inv_fold [OF Cons.prems]] ids_fold [OF Cons.prems]
    by (cases x) (auto simp: deliver_def)
qed

text \<open>Claims already on the tape change nothing, so a repeated delivery is harmless.\<close>

lemma deliver_known:
  "inv s \<Longrightarrow> claim_id ` snd ` set batch \<subseteq> claim_id ` set (entries s) \<Longrightarrow> deliver batch s = s"
proof (induction batch)
  case Nil
  then show ?case by (simp add: deliver_def)
next
  case (Cons x batch)
  obtain cid c where x: "x = (cid, c)" by (cases x)
  with Cons.prems have "snd (fold_claim cid c s) = s" by (intro fold_known) auto
  with Cons x show ?case by (simp add: deliver_def)
qed

lemma deliver_idem: "inv s \<Longrightarrow> deliver batch (deliver batch s) = deliver batch s"
  by (rule deliver_known) (simp_all add: deliver_inv deliver_ids)

lemma deliver_redelivered:
  "inv s \<Longrightarrow> claim_id ` snd ` set again \<subseteq> claim_id ` snd ` set batch \<Longrightarrow>
    deliver again (deliver batch s) = deliver batch s"
  by (rule deliver_known) (auto simp: deliver_inv deliver_ids)

end

lemma by_id_find:
  "store_inv s \<Longrightarrow> map_of (s_by_id s) i = find (\<lambda>c. claim_id c = i) (s_log s)"
  by (simp add: store_inv_def)

lemma by_id_Some:
  assumes "store_inv s" and "x \<in> set (s_log s)"
  shows "map_of (s_by_id s) (claim_id x) = Some x"
proof -
  have "distinct (map claim_id (s_log s))" using assms(1) by (simp add: store_inv_def)
  then have "sql_first (\<lambda>c. claim_id c = claim_id x) (s_log s) = Some x"
    using assms(2) by (simp add: sql_first_key)
  then show ?thesis using assms(1) by (simp add: by_id_find sql_first_def)
qed

lemma by_id_None:
  "store_inv s \<Longrightarrow> i \<notin> claim_id ` set (s_log s) \<Longrightarrow> map_of (s_by_id s) i = None"
  by (auto simp: by_id_find find_None_iff)

interpretation tape: claim_tape store_fold s_log store_inv
proof
  fix s :: store and c x :: claim and cid
  assume inv: "store_inv s"
  show "store_inv (snd (store_fold cid c s))" using inv by (rule store_fold_inv)
  show "distinct (map claim_id (s_log s))" using inv by (simp add: store_inv_def)
  show "snd (store_fold cid c s) = s" if "claim_id c \<in> claim_id ` set (s_log s)"
  proof -
    from that obtain x where "x \<in> set (s_log s)" "claim_id x = claim_id c" by auto
    with by_id_Some [OF inv] have "map_of (s_by_id s) (claim_id c) = Some x" by metis
    then show ?thesis by (rule store_fold_known)
  qed
  show "\<exists>c'. s_log (snd (store_fold cid c s)) = s_log s @ [c'] \<and> claim_id c' = claim_id c
        \<and> tag c' = tag c \<and> cfields c' = cfields c \<and> kind c' = kind c
        \<and> priority c' = priority c \<and> source c' = source c"
    if "claim_id c \<notin> claim_id ` set (s_log s)"
    using store_fold_new(1) [OF by_id_None [OF inv that]] by simp
  assume x: "x \<in> set (s_log s)" "claim_id x = claim_id c"
  then have "map_of (s_by_id s) (claim_id c) = Some x" using by_id_Some [OF inv] by metis
  then show "\<not> same_claim_payload x c \<Longrightarrow> fst (store_fold cid c s) = Inl ClaimIdConflict"
    and "same_claim_payload x c \<Longrightarrow> \<exists>m. fst (store_fold cid c s) = Inr m"
    by (simp_all add: store_fold_def)
qed

end
