(* ===== verification/Rows.thy ===== *)
theory Rows
  imports Store
begin

text \<open>
  Rows over one claim store (\<open>lipas/rows/base.py\<close>, \<open>rows/capability.py\<close>,
  \<open>rows/history.py\<close>): the composition \<open>RowSet\<close>, whose \<open>fold\<close> commits a claim only
  when every owning row accepts it, the budget gate of the capability row, and the
  history projection.
\<close>

section \<open>RowSet\<close>

record row =
  r_name :: string
  r_namespace :: "string list"
  r_strategies :: "registry \<Rightarrow> registry"
  r_check :: "claim \<Rightarrow> store \<Rightarrow> exn + string list"
  r_project :: "store \<Rightarrow> exn + pyval"

record rowset =
  rs_store :: store
  rs_rows :: "row list"

definition rowset_add :: "row \<Rightarrow> rowset \<Rightarrow> rowset" where
  "rowset_add r rs =
     rs\<lparr>rs_store := (rs_store rs)\<lparr>s_registry := r_strategies r (s_registry (rs_store rs))\<rparr>,
        rs_rows := rs_rows rs @ [r]\<rparr>"

definition rowset_init :: "store \<Rightarrow> row list \<Rightarrow> rowset" where
  "rowset_init s rows = foldl (\<lambda>rs r. rowset_add r rs) \<lparr>rs_store = s, rs_rows = []\<rparr> rows"

definition rowset_get :: "string \<Rightarrow> rowset \<Rightarrow> row option" where
  "rowset_get name rs = find (\<lambda>r. r_name r = name) (rs_rows rs)"

definition owners :: "string \<Rightarrow> rowset \<Rightarrow> row list" where
  "owners t rs = filter (\<lambda>r. t \<in> set (r_namespace r)) (rs_rows rs)"

fun violations :: "claim \<Rightarrow> store \<Rightarrow> row list \<Rightarrow> exn + (string \<times> string) list" where
  "violations c s [] = Inr []"
| "violations c s (r # rows) = ebind (r_check r c s) (\<lambda>msgs.
     ebind (violations c s rows) (\<lambda>vs. Inr (map (\<lambda>m. (r_name r, m)) msgs @ vs)))"

definition rowset_fold :: "string \<Rightarrow> claim \<Rightarrow> rowset \<Rightarrow> (exn + claim) \<times> rowset" where
  "rowset_fold cid c rs = (case violations c (rs_store rs) (owners (tag c) rs) of
      Inl e \<Rightarrow> (Inl e, rs)
    | Inr vs \<Rightarrow> if vs \<noteq> [] then (Inl (InvariantViolation vs), rs)
        else (case store_fold cid c (rs_store rs) of (res, s) \<Rightarrow> (res, rs\<lparr>rs_store := s\<rparr>)))"

definition rowset_project :: "string \<Rightarrow> rowset \<Rightarrow> exn + pyval" where
  "rowset_project name rs = (case rowset_get name rs of None \<Rightarrow> Inl KeyError
     | Some r \<Rightarrow> r_project r (rs_store rs))"

definition rowset_project_all :: "rowset \<Rightarrow> exn + fieldmap" where
  "rowset_project_all rs = efoldl
     (\<lambda>d r. ebind (r_project r (rs_store rs)) (\<lambda>v. Inr (dict_put (r_name r) v d))) [] (rs_rows rs)"

section \<open>Capability row\<close>

definition TAG_RESOURCE_SPENT :: string where "TAG_RESOURCE_SPENT = ''resource_spent''"
definition TAG_QUOTA_USED :: string where "TAG_QUOTA_USED = ''quota_used''"
definition TAG_RATE_EVENT :: string where "TAG_RATE_EVENT = ''rate_event''"
definition TAG_BUDGET_OVERRUN :: string where "TAG_BUDGET_OVERRUN = ''budget_overrun''"
definition F_BUCKET :: string where "F_BUCKET = ''bucket''"
definition F_AMOUNT :: string where "F_AMOUNT = ''amount''"

definition capability_namespace :: "string list" where
  "capability_namespace = [TAG_RESOURCE_SPENT, TAG_QUOTA_USED, TAG_RATE_EVENT, TAG_BUDGET_OVERRUN]"

type_synonym budgets = "(string \<times> rat) list"

definition budget_item :: "budgets \<Rightarrow> pykey \<times> pyval \<Rightarrow> exn + budgets" where
  "budget_item nb kv = (case fst kv of
      KStr b \<Rightarrow> if strip b = [] then Inl ValueError
        else (case finite_float (snd kv) of
            None \<Rightarrow> Inl ValueError
          | Some r \<Rightarrow> if r < 0 then Inl ValueError
              else if strip b \<in> fst ` set nb then Inl ValueError
              else Inr (dict_put (strip b) r nb))
    | _ \<Rightarrow> Inl ValueError)"

text \<open>\<open>__post_init__\<close>: the normalized budgets, or the \<open>ValueError\<close> of a malformed one.\<close>

definition capability_budgets :: "(pykey \<times> pyval) list \<Rightarrow> exn + budgets" where
  "capability_budgets items = efoldl budget_item [] items"

definition capability_strategies :: "registry \<Rightarrow> registry" where
  "capability_strategies reg = register ''_rate_events'' strategy_append
     (register ''_quota_totals'' strategy_counter_max reg)"

definition valid_amount :: "pyval \<Rightarrow> pyval \<Rightarrow> bool" where
  "valid_amount bucket amount = (case bucket of
      VStr b \<Rightarrow> b \<noteq> [] \<and> b = strip b
        \<and> (case finite_float amount of Some r \<Rightarrow> 0 \<le> r | None \<Rightarrow> False)
    | _ \<Rightarrow> False)"

text \<open>
  \<open>float(v)\<close> of a recorded amount. A string amount, which the gate never admits, counts
  as one that does not parse.
\<close>

fun py_float :: "pyval \<Rightarrow> exn + xfloat option" where
  "py_float (VInt i) = ebind (float_of_int i) (\<lambda>x. Inr (Some x))"
| "py_float (VBool b) = Inr (Some (Fin (if b then 1 else 0)))"
| "py_float (VFloat x) = Inr (Some x)"
| "py_float VNaN = Inr None"
| "py_float (VStr s) = Inl ValueError"
| "py_float _ = Inl TypeError"

text \<open>\<open>_finite_sum\<close>; \<open>None\<close> is NaN, which makes the sum non-finite.\<close>

definition finite_sum :: "rat \<Rightarrow> xfloat option \<Rightarrow> exn + rat" where
  "finite_sum l r = (case r of
      Some (Fin b) \<Rightarrow> (case f_add l b of Fin t \<Rightarrow> Inr t | _ \<Rightarrow> Inl ValueError)
    | _ \<Rightarrow> Inl ValueError)"

fun sum_loop :: "string \<Rightarrow> string list \<Rightarrow> rat \<Rightarrow> claim list \<Rightarrow> exn + rat" where
  "sum_loop bucket seen acc [] = Inr acc"
| "sum_loop bucket seen acc (c # cs) =
     (if \<not> py_eq (VStr bucket) (dict_get VNone (cfields c) F_BUCKET) then sum_loop bucket seen acc cs
      else if claim_id c \<in> set seen then sum_loop bucket seen acc cs
      else ebind (py_float (dict_get (VInt 0) (cfields c) F_AMOUNT)) (\<lambda>a.
           ebind (finite_sum acc a) (\<lambda>t. sum_loop bucket (claim_id c # seen) t cs)))"

definition spent :: "store \<Rightarrow> string \<Rightarrow> exn + rat" where
  "spent s bucket = sum_loop bucket [] 0 (store_filter (Some TAG_RESOURCE_SPENT) None None s)"

definition overrun :: "store \<Rightarrow> string \<Rightarrow> exn + rat" where
  "overrun s bucket = sum_loop bucket [] 0 (store_filter (Some TAG_BUDGET_OVERRUN) None None s)"

definition msg_invalid :: string where "msg_invalid = ''missing/invalid bucket or amount''"
definition msg_exhausted :: string where "msg_exhausted = ''budget exhausted''"

definition check_spent :: "budgets \<Rightarrow> claim \<Rightarrow> store \<Rightarrow> exn + string list" where
  "check_spent budgets c s =
     (let bucket = dict_get VNone (cfields c) F_BUCKET;
          amount = dict_get (VInt 0) (cfields c) F_AMOUNT
      in if \<not> valid_amount bucket amount then Inr [msg_invalid]
         else (case bucket of VStr b \<Rightarrow> (case map_of budgets b of
             None \<Rightarrow> Inr []
           | Some limit \<Rightarrow>
               if claim_id c \<in> claim_id ` set (store_filter (Some TAG_RESOURCE_SPENT) None None s)
               then Inr []
               else ebind (spent s b) (\<lambda>current.
                 case finite_float amount of
                   Some r \<Rightarrow> Inr (if Fin limit < f_add current r then [msg_exhausted] else [])
                 | None \<Rightarrow> Inl AssertionError))
         | _ \<Rightarrow> Inl AssertionError))"

definition check_overrun :: "claim \<Rightarrow> exn + string list" where
  "check_overrun c = Inr (if valid_amount (dict_get VNone (cfields c) F_BUCKET)
       (dict_get (VInt 0) (cfields c) F_AMOUNT) then [] else [msg_invalid])"

definition capability_check :: "budgets \<Rightarrow> claim \<Rightarrow> store \<Rightarrow> exn + string list" where
  "capability_check budgets c s =
     (if tag c = TAG_RESOURCE_SPENT then check_spent budgets c s
      else if tag c = TAG_BUDGET_OVERRUN then check_overrun c else Inr [])"

definition capability_project :: "budgets \<Rightarrow> store \<Rightarrow> exn + pyval" where
  "capability_project budgets s = ebind
     (emap (\<lambda>(b, limit). ebind (spent s b) (\<lambda>sp. ebind (overrun s b) (\<lambda>ov.
        ebind (finite_sum sp (Some (Fin ov))) (\<lambda>ts. Inr (b, vobj
          [(''limit'', VFloat (Fin limit)), (''spent'', VFloat (Fin sp)),
           (''remaining'', VFloat (f_sub limit sp)), (''exhausted'', VBool (limit \<le> sp)),
           (''overrun'', VFloat (Fin ov)), (''true_spent'', VFloat (Fin ts))]))))) budgets)
     (\<lambda>kvs. Inr (vobj kvs))"

definition capability_row :: "budgets \<Rightarrow> row" where
  "capability_row budgets = \<lparr>r_name = ''capability'', r_namespace = capability_namespace,
     r_strategies = capability_strategies, r_check = capability_check budgets,
     r_project = capability_project budgets\<rparr>"

section \<open>History row\<close>

definition history_namespace :: "string list" where
  "history_namespace = [''observation'', ''fact'', ''outcome'', ''recalled'', ''task'', ''reflection'',
     ''replay_decision'', ''supervisor_retry'', ''supervisor_terminate'', ''supervisor_escalate'',
     ''goal_blocked'', ''observer_recommendation'',
     ''agent_handoff'', ''agent_mail_claim'', ''agent_mail_ack'', ''agent_mail_released'',
     ''agent_mail_recovered'',
     ''operation_prepared'', ''operation_uncertain'', ''operation_succeeded'', ''operation_failed'',
     ''execution_task_created'', ''execution_task_completed'', ''execution_task_cancelled'',
     ''execution_run_created'', ''execution_run_claimed'', ''execution_lease_renewed'',
     ''execution_checkpoint_saved'', ''execution_interrupt_requested'',
     ''execution_interrupt_resolved'', ''execution_cancel_requested'',
     ''execution_run_completed'', ''execution_run_failed'', ''execution_run_cancelled'']"

definition history_strategies :: "registry \<Rightarrow> registry" where
  "history_strategies reg = register ''_expectations'' strategy_expectations_merge
     (register ''_fail_counts'' strategy_counter_max
     (register ''_fail_log'' strategy_append (register ''_history'' strategy_append reg)))"

definition history_check :: "claim \<Rightarrow> store \<Rightarrow> exn + string list" where
  "history_check c s = Inr []"

definition history_project :: "store \<Rightarrow> exn + pyval" where
  "history_project s =
     (let owned = filter (\<lambda>c. tag c \<in> set history_namespace) (s_log s);
          fs = cfields (s_merged s)
      in Inr (vobj
        [(''domain'', vobj (filter (\<lambda>(k, v). take 1 k \<noteq> ''_'') fs)),
         (''event_count'', VInt (int (length owned))),
         (''last_seq'', VInt (if owned = [] then - 1 else Max (set (map seq owned)))),
         (''fail_counts'', dict_get (VDict []) fs ''_fail_counts''),
         (''expectations'', dict_get (VDict []) fs ''_expectations'')]))"

definition history_row :: row where
  "history_row = \<lparr>r_name = ''history'', r_namespace = history_namespace,
     r_strategies = history_strategies, r_check = history_check, r_project = history_project\<rparr>"

section \<open>The RowSet gate\<close>

lemma rowset_fold_cases:
  obtains (rejected) "snd (rowset_fold cid c rs) = rs" "\<exists>e. fst (rowset_fold cid c rs) = Inl e"
  | (admitted) "violations c (rs_store rs) (owners (tag c) rs) = Inr []"
      "snd (rowset_fold cid c rs) = rs\<lparr>rs_store := snd (store_fold cid c (rs_store rs))\<rparr>"
      "fst (rowset_fold cid c rs) = fst (store_fold cid c (rs_store rs))"
proof (cases "violations c (rs_store rs) (owners (tag c) rs) = Inr []")
  case True
  then show thesis by (intro admitted) (simp_all add: rowset_fold_def split: prod.split)
next
  case False
  then show thesis by (intro rejected) (auto simp: rowset_fold_def split: sum.split)
qed

lemma violations_none:
  "violations c s rows = Inr [] \<Longrightarrow> r \<in> set rows \<Longrightarrow> r_check r c s = Inr []"
  by (induction rows) auto

lemma rowset_fold_rows [simp]: "rs_rows (snd (rowset_fold cid c rs)) = rs_rows rs"
  by (rule rowset_fold_cases [of cid c rs]) auto

lemma rowset_fold_store_inv:
  "store_inv (rs_store rs) \<Longrightarrow> store_inv (rs_store (snd (rowset_fold cid c rs)))"
  by (rule rowset_fold_cases [of cid c rs]) (auto intro: store_fold_inv)

section \<open>The budget gate\<close>

text \<open>A last claim with an id of its own adds its amount, or nothing.\<close>

lemma sum_loop_snoc:
  assumes "claim_id c \<notin> set seen" and "claim_id c \<notin> claim_id ` set cs"
  shows "sum_loop bucket seen acc (cs @ [c]) = ebind (sum_loop bucket seen acc cs) (\<lambda>t.
      if py_eq (VStr bucket) (dict_get VNone (cfields c) F_BUCKET)
      then ebind (py_float (dict_get (VInt 0) (cfields c) F_AMOUNT)) (\<lambda>a. finite_sum t a)
      else Inr t)"
  using assms
proof (induction cs arbitrary: seen acc)
  case Nil
  then show ?case by simp
next
  case (Cons x cs)
  from Cons show ?case by (auto simp: ebind_assoc)
qed

lemma filter_snoc_log:
  assumes "store_inv s" and "claim_id c \<notin> claim_id ` set (s_log s)"
  shows "store_filter (Some t) None None (snd (store_fold cid c s))
    = store_filter (Some t) None None s @ (if tag c = t then [sequenced s c] else [])"
proof -
  have "map_of (s_by_id s) (claim_id c) = None" using assms by (rule by_id_None)
  from store_fold_new(1) [OF this] store_filter_tag [OF store_fold_inv [OF assms(1)]]
    store_filter_tag [OF assms(1)]
  show ?thesis by simp
qed

definition within_budgets :: "budgets \<Rightarrow> store \<Rightarrow> bool" where
  "within_budgets budgets s \<longleftrightarrow>
     (\<forall>(b, limit) \<in> set budgets. \<exists>t. spent s b = Inr t \<and> 0 \<le> t \<and> t \<le> limit)"

lemma spent_snoc:
  assumes "store_inv s" and "claim_id c \<notin> claim_id ` set (s_log s)" and "spent s b = Inr t"
  shows "spent (snd (store_fold cid c s)) b =
    (if tag c = TAG_RESOURCE_SPENT \<and> dict_get VNone (cfields c) F_BUCKET = VStr b
     then ebind (py_float (dict_get (VInt 0) (cfields c) F_AMOUNT)) (\<lambda>a. finite_sum t a)
     else Inr t)"
proof -
  have "claim_id c \<notin> claim_id ` set (store_filter (Some TAG_RESOURCE_SPENT) None None s)"
    using assms(1,2) by (auto simp: store_filter_tag)
  then show ?thesis
    using assms(3) by (simp add: spent_def filter_snoc_log [OF assms(1,2)] sum_loop_snoc)
qed

lemma finite_float_py_float: "finite_float v = Some r \<Longrightarrow> py_float v = Inr (Some (Fin r))"
  by (cases v rule: finite_float.cases) (auto split: sum.splits xfloat.splits)

lemma finite_sum_Fin: "finite_sum t (Some (Fin r)) = Inr u \<longleftrightarrow> f_add t r = Fin u"
  by (auto simp: finite_sum_def split: xfloat.splits)

text \<open>The gate: an admitted claim keeps every budget.\<close>

lemma capability_check_keeps:
  assumes budgets: "distinct (map fst budgets)" and inv: "store_inv s"
    and within: "within_budgets budgets s" and ok: "capability_check budgets c s = Inr []"
  shows "within_budgets budgets (snd (store_fold cid c s))"
proof (cases "claim_id c \<in> claim_id ` set (s_log s)")
  case True
  then show ?thesis using within tape.fold_known [OF inv] by simp
next
  case new: False
  show ?thesis
    unfolding within_budgets_def
  proof clarify
    fix b limit assume b: "(b, limit) \<in> set budgets"
    then obtain t where t: "spent s b = Inr t" "0 \<le> t" "t \<le> limit"
      using within by (auto simp: within_budgets_def)
    show "\<exists>t. spent (snd (store_fold cid c s)) b = Inr t \<and> 0 \<le> t \<and> t \<le> limit"
    proof (cases "tag c = TAG_RESOURCE_SPENT \<and> dict_get VNone (cfields c) F_BUCKET = VStr b")
      case False
      with t show ?thesis by (auto simp: spent_snoc [OF inv new t(1)])
    next
      case True
      have lim: "map_of budgets b = Some limit" using budgets b by simp
      let ?a = "dict_get (VInt 0) (cfields c) F_AMOUNT"
      have va: "valid_amount (VStr b) ?a"
        using ok True by (auto simp: capability_check_def check_spent_def Let_def split: if_splits)
      then obtain r where r: "finite_float ?a = Some r" "0 \<le> r"
        by (auto simp: valid_amount_def split: option.splits)
      have fresh: "claim_id c \<notin> claim_id ` set (store_filter (Some TAG_RESOURCE_SPENT) None None s)"
        using inv new by (auto simp: store_filter_tag)
      have "\<not> Fin limit < f_add t r"
        using ok True va lim fresh t(1) r(1)
        by (auto simp: capability_check_def check_spent_def Let_def split: if_splits)
      then obtain u where u: "f_add t r = Fin u" "u \<le> limit"
        using to_double_nonneg [of "t + r"] t(2) r(2)
        by (cases "f_add t r") (auto simp: f_add_def)
      moreover have "0 \<le> u" using f_add_nonneg [OF t(2) r(2) u(1)] .
      ultimately show ?thesis
        using True by (simp add: spent_snoc [OF inv new t(1)] finite_float_py_float [OF r(1)]
            finite_sum_Fin)
    qed
  qed
qed

definition budget_inv :: "budgets \<Rightarrow> rowset \<Rightarrow> bool" where
  "budget_inv budgets rs \<longleftrightarrow> distinct (map fst budgets) \<and> capability_row budgets \<in> set (rs_rows rs)
     \<and> store_inv (rs_store rs) \<and> within_budgets budgets (rs_store rs)"

lemma other_tag_keeps:
  assumes "store_inv s" and "within_budgets budgets s" and "tag c \<noteq> TAG_RESOURCE_SPENT"
  shows "within_budgets budgets (snd (store_fold cid c s))"
proof (cases "claim_id c \<in> claim_id ` set (s_log s)")
  case True
  then show ?thesis using assms tape.fold_known by simp
next
  case False
  then show ?thesis
    using assms by (fastforce simp: within_budgets_def spent_snoc [OF assms(1) False])
qed

lemma budget_inv_fold: "budget_inv budgets rs \<Longrightarrow> budget_inv budgets (snd (rowset_fold cid c rs))"
proof (rule rowset_fold_cases [of cid c rs])
  assume inv: "budget_inv budgets rs"
    and none: "violations c (rs_store rs) (owners (tag c) rs) = Inr []"
    and snd: "snd (rowset_fold cid c rs) = rs\<lparr>rs_store := snd (store_fold cid c (rs_store rs))\<rparr>"
  have "within_budgets budgets (snd (store_fold cid c (rs_store rs)))"
  proof (cases "tag c = TAG_RESOURCE_SPENT")
    case True
    have "capability_row budgets \<in> set (owners (tag c) rs)"
      using inv True by (auto simp: budget_inv_def owners_def capability_row_def capability_namespace_def)
    from violations_none [OF none this] have "capability_check budgets c (rs_store rs) = Inr []"
      by (simp add: capability_row_def)
    then show ?thesis using inv by (auto simp: budget_inv_def intro: capability_check_keeps)
  next
    case False
    then show ?thesis using inv by (auto simp: budget_inv_def intro: other_tag_keeps)
  qed
  then show "budget_inv budgets (snd (rowset_fold cid c rs))"
    using inv by (auto simp: budget_inv_def snd intro: store_fold_inv)
qed auto

text \<open>A session: claims folded one after the other, rejections included.\<close>

definition rowset_run :: "rowset \<Rightarrow> (string \<times> claim) list \<Rightarrow> rowset" where
  "rowset_run rs cs = foldl (\<lambda>rs (cid, c). snd (rowset_fold cid c rs)) rs cs"

lemma budget_inv_run: "budget_inv budgets rs \<Longrightarrow> budget_inv budgets (rowset_run rs cs)"
  by (induction cs arbitrary: rs) (auto simp: rowset_run_def budget_inv_fold)

lemma budget_item_inv:
  assumes "budget_item nb kv = Inr nb'"
    and "distinct (map fst nb) \<and> (\<forall>(b, l) \<in> set nb. 0 \<le> l \<and> b \<noteq> [] \<and> strip b = b)"
  shows "distinct (map fst nb') \<and> (\<forall>(b, l) \<in> set nb'. 0 \<le> l \<and> b \<noteq> [] \<and> strip b = b)"
proof -
  from assms(1) obtain b r where b: "nb' = dict_put (strip b) r nb" "0 \<le> r" "strip b \<noteq> []"
    by (auto simp: budget_item_def split: pykey.splits if_splits option.splits)
  with assms(2) set_dict_put [of "strip b" r nb] show ?thesis
    by (auto simp: b(1))
qed

lemma capability_budgets_ok:
  assumes "capability_budgets items = Inr budgets"
  shows "distinct (map fst budgets) \<and> (\<forall>(b, l) \<in> set budgets. 0 \<le> l \<and> b \<noteq> [] \<and> strip b = b)"
  using assms unfolding capability_budgets_def
  by (rule efoldl_invariant) (auto dest: budget_item_inv)

lemma rowset_init_store [simp]: "s_log (rs_store (rowset_init s rows)) = s_log s
    \<and> s_by_tag (rs_store (rowset_init s rows)) = s_by_tag s
    \<and> s_by_id (rs_store (rowset_init s rows)) = s_by_id s
    \<and> s_seq (rs_store (rowset_init s rows)) = s_seq s
    \<and> rs_rows (rowset_init s rows) = rows"
proof -
  have "s_log (rs_store (foldl (\<lambda>rs r. rowset_add r rs) rs0 rows)) = s_log (rs_store rs0)
    \<and> s_by_tag (rs_store (foldl (\<lambda>rs r. rowset_add r rs) rs0 rows)) = s_by_tag (rs_store rs0)
    \<and> s_by_id (rs_store (foldl (\<lambda>rs r. rowset_add r rs) rs0 rows)) = s_by_id (rs_store rs0)
    \<and> s_seq (rs_store (foldl (\<lambda>rs r. rowset_add r rs) rs0 rows)) = s_seq (rs_store rs0)
    \<and> rs_rows (foldl (\<lambda>rs r. rowset_add r rs) rs0 rows) = rs_rows rs0 @ rows" for rs0
    by (induction rows arbitrary: rs0) (auto simp: rowset_add_def)
  from this [of "\<lparr>rs_store = s, rs_rows = []\<rparr>"] show ?thesis by (simp add: rowset_init_def)
qed

lemma budget_inv_init:
  assumes "capability_budgets items = Inr budgets" and "capability_row budgets \<in> set rows"
  shows "budget_inv budgets (rowset_init (store_init reg ctx) rows)"
proof -
  let ?rs = "rowset_init (store_init reg ctx) rows"
  have inv: "store_inv (rs_store ?rs)"
    using store_inv_init [of reg ctx] by (simp add: store_inv_def)
  have "store_filter (Some t) None None (rs_store ?rs) = []" for t
    by (simp add: store_filter_tag [OF inv]) (simp add: store_init_def)
  then have "spent (rs_store ?rs) b = Inr 0" for b by (simp add: spent_def)
  with capability_budgets_ok [OF assms(1)] inv assms(2) show ?thesis
    by (auto simp: budget_inv_def within_budgets_def)
qed

end
