(* ===== verification/Outbox.thy ===== *)
theory Outbox
  imports Codec Rows
begin

text \<open>
  What the durable stores share: the environment a call runs in, the durable JSON
  boundary, SQL transactions over a database value, and the transactional outbox of
  Claim-shaped audit events with its contract (locale \<open>audit_outbox\<close>).
\<close>

section \<open>Environment\<close>

text \<open>
  One call's non-determinism: the clock reading \<open>time.time()\<close>, the hexadecimal digits a
  \<open>uuid4\<close> call draws, the ids drawn for merged claims while events are mirrored, and
  three pure functions the code uses as black boxes: SHA-256 in hexadecimal, \<open>repr\<close> of
  a float, and the decoders of the registered adapter classes.
\<close>

record env =
  e_clock :: rat
  e_uuid :: string
  e_merge_id :: "nat \<Rightarrow> string"
  e_digest :: "string \<Rightarrow> string"
  e_repr :: "xfloat \<Rightarrow> string"
  e_codecs :: codec_registry

text \<open>\<open>_json\<close> and \<open>_from_json\<close>: encode and dump, load and decode.\<close>

definition json_text :: "env \<Rightarrow> pyval \<Rightarrow> exn + pyval" where
  "json_text env v = ebind (encode (e_codecs env) v) canon"

definition from_json :: "env \<Rightarrow> pyval \<Rightarrow> exn + pyval" where
  "from_json env t = decode (e_codecs env) t"

text \<open>A nullable JSON column.\<close>

definition from_json_opt :: "env \<Rightarrow> pyval option \<Rightarrow> exn + pyval option" where
  "from_json_opt env t = (case t of None \<Rightarrow> Inr None
     | Some x \<Rightarrow> ebind (from_json env x) (\<lambda>v. Inr (Some v)))"

definition fresh_id :: "env \<Rightarrow> string \<Rightarrow> string" where
  "fresh_id env prefix = prefix @ ''_'' @ e_uuid env"

definition non_empty_text :: "string \<Rightarrow> exn + string" where
  "non_empty_text s = (if strip s = [] then Inl ValueError else Inr (strip s))"

definition positive_duration :: "pyval \<Rightarrow> exn + rat" where
  "positive_duration v = (case finite_float v of
      None \<Rightarrow> Inl ValueError
    | Some r \<Rightarrow> if r \<le> 0 then Inl ValueError else Inr r)"

definition timestamp :: "env \<Rightarrow> pyval \<Rightarrow> exn + rat" where
  "timestamp env v = (if v = VNone then Inr (e_clock env)
     else (case finite_float v of None \<Rightarrow> Inl ValueError | Some r \<Rightarrow> Inr r))"

section \<open>Audit events\<close>

record audit_event =
  ev_id :: string
  ev_tag :: string
  ev_fields :: pyval
  ev_at :: rat

definition NUL :: char where "NUL = char_of (0::nat)"

definition json_time :: "xfloat option \<Rightarrow> pyval" where
  "json_time t = (case t of None \<Rightarrow> VNone | Some x \<Rightarrow> VFloat x)"

section \<open>Mirroring\<close>

definition MAX_SQLITE_INT :: int where "MAX_SQLITE_INT = 2 ^ 63 - 1"

definition DEFAULT_AUDIT_REPAIR_BATCH_SIZE :: int where "DEFAULT_AUDIT_REPAIR_BATCH_SIZE = 256"

text \<open>The claim an audit event is mirrored as.\<close>

definition mirror_claim :: "string \<Rightarrow> audit_event \<Rightarrow> fieldmap \<Rightarrow> claim" where
  "mirror_claim src e fs = \<lparr>tag = ev_tag e, cfields = fs, kind = None, priority = 0,
     source = src, claim_id = ev_id e, seq = - 1\<rparr>"

definition claim_known :: "string \<Rightarrow> rowset \<Rightarrow> bool" where
  "claim_known cid rs \<longleftrightarrow> cid \<in> claim_id ` set (s_log (rs_store rs))"

section \<open>The contract of an outbox\<close>

text \<open>
  The contract of an outbox: recording appends at most one event, never a second one
  under an id already present, and leaves every recorded event as it is.
\<close>

locale audit_outbox =
  fixes events :: "'db \<Rightarrow> audit_event list"
    and ident :: "'i \<Rightarrow> string"
    and record_event :: "'i \<Rightarrow> 'db \<Rightarrow> exn + 'db"
  assumes record_new: "record_event i db = Inr db' \<Longrightarrow> ident i \<notin> ev_id ` set (events db) \<Longrightarrow>
      \<exists>e. events db' = events db @ [e] \<and> ev_id e = ident i"
    and record_known: "record_event i db = Inr db' \<Longrightarrow> ident i \<in> ev_id ` set (events db) \<Longrightarrow>
      events db' = events db"
begin

lemma record_prefix: "record_event i db = Inr db' \<Longrightarrow> \<exists>t. events db' = events db @ t"
  using record_new record_known by (cases "ident i \<in> ev_id ` set (events db)") fastforce+

lemma record_distinct:
  "record_event i db = Inr db' \<Longrightarrow> distinct (map ev_id (events db)) \<Longrightarrow>
    distinct (map ev_id (events db'))"
  using record_new [of i db db'] record_known [of i db db']
  by (cases "ident i \<in> ev_id ` set (events db)") auto

lemma record_present: "record_event i db = Inr db' \<Longrightarrow> ident i \<in> ev_id ` set (events db')"
  using record_new [of i db db'] record_known [of i db db']
  by (cases "ident i \<in> ev_id ` set (events db)") auto

lemma records_prefix:
  assumes "efoldl (\<lambda>db i. record_event i db) db is = Inr db'"
  shows "\<exists>t. events db' = events db @ t"
proof (rule efoldl_invariant [OF assms, where P = "\<lambda>x. \<exists>t. events x = events db @ t"])
  fix s x s' assume "\<exists>t. events s = events db @ t" and "record_event x s = Inr s'"
  then show "\<exists>t. events s' = events db @ t" using record_prefix by fastforce
qed simp

lemma records_distinct:
  assumes "efoldl (\<lambda>db i. record_event i db) db is = Inr db'"
    and "distinct (map ev_id (events db))"
  shows "distinct (map ev_id (events db'))"
  using assms by (rule efoldl_invariant) (rule record_distinct)

end

end
