(* ===== verification/Events.thy ===== *)
theory Events
  imports Outbox
begin

text \<open>
  Agent events (\<open>lipas/events.py\<close>): the strict-JSON shape check, the event object with
  its validation, and the emitter that numbers a run's events. Reference cycles cannot
  occur in the value type.
\<close>

section \<open>Strict JSON shape\<close>

fun validate_json_shape :: "pyval \<Rightarrow> exn + unit"
  and validate_shapes :: "pyval list \<Rightarrow> exn + unit"
  and validate_items :: "(pykey \<times> pyval) list \<Rightarrow> exn + unit"
where
  "validate_json_shape VNone = Inr ()"
| "validate_json_shape (VBool b) = Inr ()"
| "validate_json_shape (VInt i) = Inr ()"
| "validate_json_shape (VStr s) = Inr ()"
| "validate_json_shape (VFloat x) = (case x of Fin r \<Rightarrow> Inr () | _ \<Rightarrow> Inl ValueError)"
| "validate_json_shape VNaN = Inl ValueError"
| "validate_json_shape (VList xs) = validate_shapes xs"
| "validate_json_shape (VTuple xs) = validate_shapes xs"
| "validate_json_shape (VDict d) = validate_items d"
| "validate_json_shape (VSet s) = Inl TypeError"
| "validate_json_shape (VObj t x) = Inl TypeError"
| "validate_json_shape (VOpaque n) = Inl TypeError"
| "validate_shapes [] = Inr ()"
| "validate_shapes (x # xs) = ebind (validate_json_shape x) (\<lambda>_. validate_shapes xs)"
| "validate_items [] = Inr ()"
| "validate_items (kv # d) = (case fst kv of
      KStr k \<Rightarrow> ebind (validate_json_shape (snd kv)) (\<lambda>_. validate_items d)
    | _ \<Rightarrow> Inl ValueError)"

text \<open>A value that passes has a canonical JSON text: the dump after the check never raises.\<close>

lemma validated_dumps: "validate_json_shape v = Inr () \<Longrightarrow> \<exists>t. canon v = Inr t"
  and "validate_shapes xs = Inr () \<Longrightarrow> \<exists>ys. canons xs = Inr ys"
  and "validate_items d = Inr () \<Longrightarrow> \<exists>fs. canon_items d = Inr fs"
  by (induction v and xs and d rule: validate_json_shape_validate_shapes_validate_items.induct)
    (fastforce split: xfloat.splits pykey.splits)+

text \<open>Canonical values are strict JSON, and dumping them again changes nothing.\<close>

lemma canon_items_obj:
  "\<forall>(k, v) \<in> set fs. canon v = Inr v \<Longrightarrow> canon_items (map (\<lambda>(k, v). (KStr k, v)) fs) = Inr fs"
  by (induction fs) auto

lemma validate_items_obj:
  "validate_items (map (\<lambda>(k, v). (KStr k, v)) fs) = Inr () \<longleftrightarrow> (\<forall>(k, v) \<in> set fs. validate_json_shape v = Inr ())"
  by (induction fs) auto

lemma sort_dict_idem [simp]: "sort_dict (sort_dict d) = sort_dict d"
  by (simp add: sort_dict_def sort_key_id_if_sorted)

lemma canon_idem: "canon v = Inr t \<Longrightarrow> canon t = Inr t \<and> validate_json_shape t = Inr ()"
  and "canons xs = Inr ys \<Longrightarrow> canons ys = Inr ys \<and> validate_shapes ys = Inr ()"
  and canon_items_idem: "canon_items d = Inr fs \<Longrightarrow> \<forall>(k, v) \<in> set fs. canon v = Inr v \<and> validate_json_shape v = Inr ()"
proof (induction v and xs and d arbitrary: t and ys and fs rule: canon_canons_canon_items.induct)
  case (10 d)
  then obtain fs where fs: "canon_items d = Inr fs" "t = vobj (sort_dict fs)" by auto
  have ok: "\<forall>(k, v) \<in> set (sort_dict fs). canon v = Inr v \<and> validate_json_shape v = Inr ()"
    using 10(1) [OF fs(1)] by simp
  then have "canon_items (map (\<lambda>(k, v). (KStr k, v)) (sort_dict fs)) = Inr (sort_dict fs)"
    "validate_items (map (\<lambda>(k, v). (KStr k, v)) (sort_dict fs)) = Inr ()"
    using ok canon_items_obj [of "sort_dict fs"] validate_items_obj [of "sort_dict fs"] by blast+
  then show ?case using fs(2) by (simp add: vobj_def)
qed (fastforce split: xfloat.splits pykey.splits)+

section \<open>Events\<close>

record agent_event =
  ae_type :: string
  ae_run_id :: string
  ae_sequence :: int
  ae_iteration :: int
  ae_data :: "(pykey \<times> pyval) list"
  ae_created_at :: rat
  ae_event_id :: string

text \<open>\<open>AgentEvent(...)\<close> with its \<open>__post_init__\<close>; \<open>created_at\<close> is a finite float.\<close>

definition make_agent_event ::
  "string \<Rightarrow> string \<Rightarrow> int \<Rightarrow> int \<Rightarrow> (pykey \<times> pyval) list \<Rightarrow> rat \<Rightarrow> string \<Rightarrow> exn + agent_event" where
  "make_agent_event ty run_id sqn iteration data created_at event_id =
     (if strip ty = [] then Inl ValueError
      else if CHR 0x0D \<in> set ty \<or> CHR 0x0A \<in> set ty then Inl ValueError
      else if strip run_id = [] then Inl ValueError
      else if sqn < 1 then Inl ValueError
      else if iteration < 0 then Inl ValueError
      else ebind (validate_json_shape (VDict data)) (\<lambda>_.
        if strip event_id = [] then Inl ValueError
        else Inr \<lparr>ae_type = strip ty, ae_run_id = strip run_id, ae_sequence = sqn,
           ae_iteration = iteration, ae_data = data, ae_created_at = created_at,
           ae_event_id = strip event_id\<rparr>))"

record emitter =
  em_run_id :: string
  em_sequence :: int

definition emitter_init :: "string \<Rightarrow> int \<Rightarrow> exn + emitter" where
  "emitter_init run_id sqn = (if strip run_id = [] then Inl ValueError
     else if sqn < 0 then Inl ValueError
     else Inr \<lparr>em_run_id = strip run_id, em_sequence = sqn\<rparr>)"

text \<open>
  \<open>emit\<close>: the sequence advances only once the event is valid, and before the sink runs;
  \<open>sink\<close> is the host's callback, which may raise.
\<close>

definition emit ::
  "env \<Rightarrow> (agent_event \<Rightarrow> exn option) \<Rightarrow> string \<Rightarrow> int \<Rightarrow> (pykey \<times> pyval) list option \<Rightarrow> emitter
    \<Rightarrow> (exn + agent_event) \<times> emitter" where
  "emit env sink event_type iteration data em =
     (let next_sequence = em_sequence em + 1 in
      case make_agent_event event_type (em_run_id em) next_sequence iteration
          (case data of None \<Rightarrow> [] | Some d \<Rightarrow> d) (e_clock env) (fresh_id env ''event'') of
        Inl e \<Rightarrow> (Inl e, em)
      | Inr event \<Rightarrow> let em' = em\<lparr>em_sequence := next_sequence\<rparr> in
          (case sink event of None \<Rightarrow> (Inr event, em') | Some e \<Rightarrow> (Inl e, em')))"

lemma emit_valid:
  assumes "fst (emit env sink ty it data em) = Inr ev"
  shows "ae_sequence ev = em_sequence em + 1"
    and "em_sequence (snd (emit env sink ty it data em)) = em_sequence em + 1"
  using assms by (auto simp: emit_def Let_def make_agent_event_def
      split: sum.splits option.splits if_splits)

lemma emit_advance:
  "em_sequence (snd (emit env sink ty it data em)) \<in> {em_sequence em, em_sequence em + 1}"
  "em_run_id (snd (emit env sink ty it data em)) = em_run_id em"
  by (auto simp: emit_def Let_def split: sum.splits option.splits)

text \<open>A session of emits with a sink that accepts: the accepted events are numbered without a gap.\<close>

fun emit_all :: "env \<Rightarrow> (string \<times> int \<times> (pykey \<times> pyval) list option) list \<Rightarrow> emitter
    \<Rightarrow> agent_event list \<times> emitter" where
  "emit_all env [] em = ([], em)"
| "emit_all env ((ty, it, data) # calls) em =
     (case emit env (\<lambda>_. None) ty it data em of
        (Inl e, em') \<Rightarrow> emit_all env calls em'
      | (Inr ev, em') \<Rightarrow> (case emit_all env calls em' of (evs, em'') \<Rightarrow> (ev # evs, em'')))"

lemma emit_rejected: "fst (emit env (\<lambda>_. None) ty it data em) = Inl e \<Longrightarrow>
    snd (emit env (\<lambda>_. None) ty it data em) = em"
  by (auto simp: emit_def Let_def split: sum.splits)

lemma emit_all_gapless:
  "map ae_sequence (fst (emit_all env calls em))
    = map (\<lambda>i. em_sequence em + 1 + int i) [0..<length (fst (emit_all env calls em))]"
proof (induction env calls em rule: emit_all.induct)
  case (1 env em)
  then show ?case by simp
next
  case (2 env ty it data calls em)
  obtain res em' where em': "emit env (\<lambda>_. None) ty it data em = (res, em')" by fastforce
  show ?case
  proof (cases res)
    case (Inl e)
    with em' emit_rejected [of env ty it data em e] have "em' = em" by simp
    with 2(1) [OF em' [symmetric]] Inl em' show ?thesis by simp
  next
    case (Inr ev)
    obtain evs em'' where rest: "emit_all env calls em' = (evs, em'')" by fastforce
    have "ae_sequence ev = em_sequence em + 1" "em_sequence em' = em_sequence em + 1"
      using emit_valid [of env "\<lambda>_. None" ty it data em ev] em' Inr by simp_all
    moreover have "map ae_sequence evs = map (\<lambda>i. em_sequence em' + 1 + int i) [0..<length evs]"
      using 2(2) [OF em' [symmetric]] Inr rest by simp
    moreover have "map (\<lambda>i. em_sequence em + 1 + int i) [0..<Suc (length evs)]
        = (em_sequence em + 1) # map (\<lambda>i. em_sequence em + 1 + 1 + int i) [0..<length evs]"
      by (simp only: map_upt_Suc) simp
    ultimately show ?thesis using em' Inr rest by simp
  qed
qed

end
