(* ===== verification/Policy.thy ===== *)
theory Policy
  imports Events
begin

text \<open>
  Coordination policies (\<open>lipas/coordination_policy.py\<close>): workspace identities and approval
  delegations, the durable registry of both with its audit trail, the shared budget policy
  and the capability allowlist. A \<open>frozenset\<close> of strings is its sorted list without
  duplicates, so equal sets are equal lists.
\<close>

section \<open>Identities and delegations\<close>

record identity =
  wi_id :: string
  wi_name :: string
  wi_roles :: "string list"
  wi_scopes :: "string list"

definition frozen :: "string list \<Rightarrow> string list" where
  "frozen xs = sort (remdups xs)"

definition policy_text :: "string \<Rightarrow> exn + string" where
  "policy_text s = (if strip s = [] then Inl ValueError else Inr (strip s))"

text \<open>The normalization both dataclasses apply to a set of strings.\<close>

definition normal_set :: "string list \<Rightarrow> exn + string list" where
  "normal_set xs = (if \<exists>x \<in> set xs. strip x = [] then Inl ValueError
     else let normalized = frozen (map strip xs) in
       if length normalized \<noteq> length xs then Inl ValueError else Inr normalized)"

definition make_identity :: "string \<Rightarrow> string \<Rightarrow> string list \<Rightarrow> string list \<Rightarrow> exn + identity" where
  "make_identity identity_id display_name roles scopes =
     ebind (policy_text identity_id) (\<lambda>i. ebind (policy_text display_name) (\<lambda>n.
     ebind (normal_set roles) (\<lambda>rs'. ebind (normal_set scopes) (\<lambda>sc.
     Inr \<lparr>wi_id = i, wi_name = n, wi_roles = rs', wi_scopes = sc\<rparr>))))"

definition starts_with :: "string \<Rightarrow> string \<Rightarrow> bool" where
  "starts_with s p \<longleftrightarrow> take (length p) s = p"

definition ends_with :: "string \<Rightarrow> string \<Rightarrow> bool" where
  "ends_with s p \<longleftrightarrow> starts_with (rev s) (rev p)"

text \<open>The grant test of \<open>can\<close> and \<open>allows\<close>: the scope itself, \<open>*\<close>, or a prefix \<open>x:*\<close>.\<close>

definition granted :: "string list \<Rightarrow> string \<Rightarrow> bool" where
  "granted scopes scope \<longleftrightarrow> scope \<in> set scopes \<or> ''*'' \<in> set scopes
     \<or> (\<exists>grant \<in> set scopes. ends_with grant '':*'' \<and> starts_with scope (butlast grant))"

definition can :: "identity \<Rightarrow> string \<Rightarrow> bool" where
  "can who scope \<longleftrightarrow> strip scope \<noteq> [] \<and> granted (wi_scopes who) (strip scope)"

record delegation =
  dl_id :: string
  dl_grantor :: identity
  dl_delegate :: identity
  dl_scopes :: "string list"
  dl_expires :: "rat option"

definition finite_number :: "pyval \<Rightarrow> exn + rat" where
  "finite_number v = (case finite_float v of None \<Rightarrow> Inl ValueError | Some r \<Rightarrow> Inr r)"

definition make_delegation ::
  "string \<Rightarrow> identity \<Rightarrow> identity \<Rightarrow> string list \<Rightarrow> pyval \<Rightarrow> exn + delegation" where
  "make_delegation delegation_id grantor delegate scopes expires_at =
     ebind (policy_text delegation_id) (\<lambda>i.
     ebind (guard_or ValueError (scopes \<noteq> [])) (\<lambda>_.
     ebind (normal_set scopes) (\<lambda>sc.
     ebind (if expires_at = VNone then Inr None else ebind (finite_number expires_at) (\<lambda>r. Inr (Some r))) (\<lambda>x.
     Inr \<lparr>dl_id = i, dl_grantor = grantor, dl_delegate = delegate, dl_scopes = sc, dl_expires = x\<rparr>))))"

text \<open>\<open>allows\<close>; \<open>clock\<close> is what \<open>time.time()\<close> would read.\<close>

definition allows :: "delegation \<Rightarrow> string \<Rightarrow> pyval \<Rightarrow> rat \<Rightarrow> exn + bool" where
  "allows d scope now clock =
     (if strip scope = [] then Inr False
      else ebind (if now = VNone then Inr clock else finite_number now) (\<lambda>t.
        if \<not> granted (dl_scopes d) (strip scope) then Inr False
        else Inr (case dl_expires d of None \<Rightarrow> True | Some x \<Rightarrow> t < x)))"

section \<open>The registry\<close>

text \<open>JSON columns hold the value of their text.\<close>

record identity_row =
  ir_id :: string
  ir_name :: string
  ir_roles :: pyval
  ir_scopes :: pyval
  ir_created :: rat
  ir_updated :: rat

record delegation_row =
  dr_id :: string
  dr_grantor :: string
  dr_delegate :: string
  dr_scopes :: pyval
  dr_expires :: "rat option"
  dr_revoked :: "rat option"
  dr_created :: rat

record policy_event =
  pe_id :: string
  pe_kind :: string
  pe_actor :: string
  pe_payload :: pyval
  pe_created :: rat

record policy_db =
  p_identities :: "identity_row list"
  p_delegations :: "delegation_row list"
  p_audit :: "policy_event list"
  p_version :: "string option"

record policy_store =
  ps_db :: policy_db
  ps_closed :: bool

definition empty_policy_db :: policy_db where
  "empty_policy_db = \<lparr>p_identities = [], p_delegations = [], p_audit = [], p_version = None\<rparr>"

definition policy_json :: "pyval \<Rightarrow> exn + pyval" where
  "policy_json v = (case ebind (validate_json_shape v) (\<lambda>_. canon v) of
      Inl e \<Rightarrow> Inl ValueError | Inr t \<Rightarrow> Inr t)"

definition policy_loads :: "pyval \<Rightarrow> exn + pyval" where
  "policy_loads t = (case validate_json_shape t of Inl e \<Rightarrow> Inl RuntimeError | Inr _ \<Rightarrow> Inr t)"

text \<open>
  The strings of a stored array, as \<open>frozenset\<close> collects them: an element that is no
  string fails the dataclass, an element that cannot be hashed fails before.
\<close>

fun array_items :: "pyval list \<Rightarrow> exn + string list" where
  "array_items [] = Inr []"
| "array_items (VStr s # vs) = ebind (array_items vs) (\<lambda>ss. Inr (s # ss))"
| "array_items (v # vs) = Inl (case hash_key v of Inl e \<Rightarrow> e | Inr _ \<Rightarrow> ValueError)"

fun stored_set :: "pyval \<Rightarrow> exn + string list" where
  "stored_set (VList vs) = ebind (array_items vs) (\<lambda>ss. Inr (frozen ss))"
| "stored_set v = Inl RuntimeError"

definition identity_of_row :: "identity_row \<Rightarrow> exn + identity" where
  "identity_of_row r =
     ebind (policy_loads (ir_roles r)) (\<lambda>roles. ebind (policy_loads (ir_scopes r)) (\<lambda>scopes.
     ebind (stored_set roles) (\<lambda>roles. ebind (stored_set scopes) (\<lambda>scopes.
     make_identity (ir_id r) (ir_name r) roles scopes))))"

definition get_identity_tx :: "string \<Rightarrow> policy_db \<Rightarrow> exn + identity option" where
  "get_identity_tx identity_id db = ebind (policy_text identity_id) (\<lambda>i.
     case sql_first (\<lambda>r. ir_id r = i) (p_identities db) of
       None \<Rightarrow> Inr None
     | Some r \<Rightarrow> ebind (identity_of_row r) (\<lambda>x. Inr (Some x)))"

definition delegation_of_row :: "policy_db \<Rightarrow> delegation_row \<Rightarrow> exn + delegation" where
  "delegation_of_row db r =
     ebind (get_identity_tx (dr_grantor r) db) (\<lambda>g. ebind (get_identity_tx (dr_delegate r) db) (\<lambda>d.
     case (g, d) of
       (Some grantor, Some delegate) \<Rightarrow>
         ebind (policy_loads (dr_scopes r)) (\<lambda>scopes. ebind (stored_set scopes) (\<lambda>scopes.
         make_delegation (dr_id r) grantor delegate scopes
           (case dr_expires r of None \<Rightarrow> VNone | Some x \<Rightarrow> VFloat (Fin x))))
     | _ \<Rightarrow> Inl RuntimeError))"

text \<open>\<open>_audit_locked\<close>: an event id is recorded once; the same id with other data raises.\<close>

definition policy_audit ::
  "string \<Rightarrow> string \<Rightarrow> string \<Rightarrow> fieldmap \<Rightarrow> rat \<Rightarrow> policy_db \<Rightarrow> exn + policy_db" where
  "policy_audit event_id knd actor payload now db = ebind (policy_json (vobj payload)) (\<lambda>text.
     case sql_first (\<lambda>e. pe_id e = event_id) (p_audit db) of
       Some e \<Rightarrow> if (pe_kind e, pe_actor e, pe_payload e) \<noteq> (knd, actor, text) then Inl ValueError else Inr db
     | None \<Rightarrow> Inr (db\<lparr>p_audit := p_audit db @ [\<lparr>pe_id = event_id, pe_kind = knd, pe_actor = actor,
          pe_payload = text, pe_created = now\<rparr>]\<rparr>))"

definition str_array :: "string list \<Rightarrow> pyval" where
  "str_array xs = VList (map VStr xs)"

definition put_identity_tx :: "identity \<Rightarrow> string \<Rightarrow> rat \<Rightarrow> policy_db \<Rightarrow> exn + identity \<times> policy_db" where
  "put_identity_tx who actor now db = (case sql_first (\<lambda>r. ir_id r = wi_id who) (p_identities db) of
      Some r \<Rightarrow> ebind (identity_of_row r) (\<lambda>existing.
        if existing \<noteq> who then Inl ValueError else Inr (existing, db))
    | None \<Rightarrow> ebind (policy_json (str_array (wi_roles who))) (\<lambda>roles.
        ebind (policy_json (str_array (wi_scopes who))) (\<lambda>scopes.
        ebind (policy_audit (''identity:'' @ wi_id who @ '':created'') ''identity_created'' actor
            [(''identity_id'', VStr (wi_id who))] now
            (db\<lparr>p_identities := p_identities db @ [\<lparr>ir_id = wi_id who, ir_name = wi_name who,
              ir_roles = roles, ir_scopes = scopes, ir_created = now, ir_updated = now\<rparr>]\<rparr>))
          (\<lambda>db'. Inr (who, db')))))"

text \<open>The connection enforces foreign keys: an unknown grantor or delegate is an \<open>IntegrityError\<close>.\<close>

definition put_delegation_tx :: "delegation \<Rightarrow> string \<Rightarrow> rat \<Rightarrow> policy_db \<Rightarrow> exn + unit \<times> policy_db" where
  "put_delegation_tx d actor now db = (case sql_first (\<lambda>r. dr_id r = dl_id d) (p_delegations db) of
      Some r \<Rightarrow> ebind (delegation_of_row db r) (\<lambda>existing.
        if existing \<noteq> d then Inl ValueError else Inr ((), db))
    | None \<Rightarrow> ebind (policy_json (str_array (dl_scopes d))) (\<lambda>scopes.
        if {wi_id (dl_grantor d), wi_id (dl_delegate d)} - ir_id ` set (p_identities db) \<noteq> {}
        then Inl IntegrityError
        else ebind (policy_audit (''delegation:'' @ dl_id d @ '':created'') ''delegation_created'' actor
            [(''delegation_id'', VStr (dl_id d))] now
            (db\<lparr>p_delegations := p_delegations db @ [\<lparr>dr_id = dl_id d, dr_grantor = wi_id (dl_grantor d),
              dr_delegate = wi_id (dl_delegate d), dr_scopes = scopes, dr_expires = dl_expires d,
              dr_revoked = None, dr_created = now\<rparr>]\<rparr>))
          (\<lambda>db'. Inr ((), db'))))"

definition revoke_tx :: "string \<Rightarrow> string \<Rightarrow> rat \<Rightarrow> policy_db \<Rightarrow> exn + unit \<times> policy_db" where
  "revoke_tx delegation_id actor now db = (case sql_first (\<lambda>r. dr_id r = delegation_id) (p_delegations db) of
      None \<Rightarrow> Inl KeyError
    | Some r \<Rightarrow> ebind (delegation_of_row db r) (\<lambda>d.
        if actor \<noteq> wi_id (dl_grantor d) \<and> actor \<noteq> ''system'' then Inl PermissionError
        else if dr_revoked r \<noteq> None then Inr ((), db)
        else ebind (policy_audit (''delegation:'' @ delegation_id @ '':revoked'') ''delegation_revoked'' actor
            [(''delegation_id'', VStr delegation_id)] now
            (db\<lparr>p_delegations := sql_update (\<lambda>r. dr_id r = delegation_id) (\<lambda>r. r\<lparr>dr_revoked := Some now\<rparr>)
               (p_delegations db)\<rparr>))
          (\<lambda>db'. Inr ((), db'))))"

section \<open>Methods\<close>

definition policy_open :: "policy_store \<Rightarrow> (exn + unit) \<times> policy_store" where
  "policy_open s = ((if ps_closed s then Inl RuntimeError else Inr ()), s)"

definition policy_transact :: "(policy_db \<Rightarrow> exn + 'a \<times> policy_db) \<Rightarrow> policy_store \<Rightarrow> (exn + 'a) \<times> policy_store" where
  "policy_transact tx s = (case tx (ps_db s) of
      Inl e \<Rightarrow> (Inl e, s)
    | Inr (x, db) \<Rightarrow> (Inr x, s\<lparr>ps_db := db\<rparr>))"

definition put_identity :: "identity \<Rightarrow> string \<Rightarrow> rat \<Rightarrow> policy_store \<Rightarrow> (exn + identity) \<times> policy_store" where
  "put_identity who actor now =
     sbind policy_open (\<lambda>_.
     sbind (slift (policy_text actor)) (\<lambda>actor.
     policy_transact (put_identity_tx who actor now)))"

definition get_identity :: "string \<Rightarrow> policy_store \<Rightarrow> (exn + identity option) \<times> policy_store" where
  "get_identity identity_id = sbind policy_open (\<lambda>_ s. (get_identity_tx identity_id (ps_db s), s))"

definition list_identities :: "policy_store \<Rightarrow> (exn + identity list) \<times> policy_store" where
  "list_identities = sbind policy_open (\<lambda>_ s.
     (emap identity_of_row (sql_order (\<lambda>a b. ir_id a \<le> ir_id b) (p_identities (ps_db s))), s))"

text \<open>\<open>now\<close> gives the clock readings of the two registrations and of the delegation itself.\<close>

definition put_delegation ::
  "delegation \<Rightarrow> string option \<Rightarrow> (nat \<Rightarrow> rat) \<Rightarrow> policy_store \<Rightarrow> (exn + delegation) \<times> policy_store" where
  "put_delegation d actor_id now =
     sbind policy_open (\<lambda>_.
     sbind (slift (case actor_id of None \<Rightarrow> Inr (wi_id (dl_grantor d)) | Some a \<Rightarrow> policy_text a)) (\<lambda>actor.
     sbind (slift (guard_or PermissionError (actor = wi_id (dl_grantor d) \<or> actor = ''system''))) (\<lambda>_.
     sbind (slift (guard_or PermissionError
         (actor = ''system'' \<or> (\<forall>scope \<in> set (dl_scopes d). can (dl_grantor d) scope)))) (\<lambda>_.
     sbind (put_identity (dl_grantor d) actor (now 0)) (\<lambda>_.
     sbind (put_identity (dl_delegate d) actor (now 1)) (\<lambda>_.
     sbind (policy_transact (put_delegation_tx d actor (now 2))) (\<lambda>_. sret d)))))))"

definition revoke_delegation :: "string \<Rightarrow> string \<Rightarrow> rat \<Rightarrow> policy_store \<Rightarrow> (exn + unit) \<times> policy_store" where
  "revoke_delegation delegation_id actor_id now =
     sbind policy_open (\<lambda>_.
     sbind (slift (policy_text delegation_id)) (\<lambda>i.
     sbind (slift (policy_text actor_id)) (\<lambda>actor.
     policy_transact (revoke_tx i actor now))))"

definition get_delegation :: "string \<Rightarrow> bool \<Rightarrow> policy_store \<Rightarrow> (exn + delegation option) \<times> policy_store" where
  "get_delegation delegation_id include_revoked =
     sbind policy_open (\<lambda>_.
     sbind (slift (policy_text delegation_id)) (\<lambda>i s.
       (case sql_first (\<lambda>r. dr_id r = i) (p_delegations (ps_db s)) of
          None \<Rightarrow> Inr None
        | Some r \<Rightarrow> if \<not> include_revoked \<and> dr_revoked r \<noteq> None then Inr None
            else ebind (delegation_of_row (ps_db s) r) (\<lambda>d. Inr (Some d)), s)))"

definition policy_event_order :: "policy_event \<Rightarrow> policy_event \<Rightarrow> bool" where
  "policy_event_order a b \<longleftrightarrow> pe_created a < pe_created b
     \<or> (pe_created a = pe_created b \<and> pe_id a \<le> pe_id b)"

definition audit :: "int \<Rightarrow> policy_store \<Rightarrow> (exn + policy_event list) \<times> policy_store" where
  "audit lmt = sbind policy_open (\<lambda>_.
     sbind (slift (guard_or ValueError (1 \<le> lmt \<and> lmt \<le> MAX_SQLITE_INT))) (\<lambda>_ s.
       (emap (\<lambda>e. ebind (policy_loads (pe_payload e)) (\<lambda>p. Inr (e\<lparr>pe_payload := p\<rparr>)))
         (take (nat lmt) (sql_order policy_event_order (p_audit (ps_db s)))), s)))"

text \<open>
  The constructor: an unreadable or newer stamp fails before the tables are created, an
  older one after.
\<close>

definition POLICY_SCHEMA_VERSION :: int where "POLICY_SCHEMA_VERSION = 1"

definition open_policy_store :: "policy_db \<Rightarrow> exn + policy_store" where
  "open_policy_store db =
     (let stamped = (case p_version db of None \<Rightarrow> str_int POLICY_SCHEMA_VERSION | Some v \<Rightarrow> v) in
      case py_int_text stamped of
        None \<Rightarrow> Inl RuntimeError
      | Some v \<Rightarrow> if v \<noteq> POLICY_SCHEMA_VERSION then Inl RuntimeError
          else Inr \<lparr>ps_db = db\<lparr>p_version := Some stamped\<rparr>, ps_closed = False\<rparr>)"

definition close_policy_store :: "policy_store \<Rightarrow> policy_store" where
  "close_policy_store s = s\<lparr>ps_closed := True\<rparr>"

section \<open>Shared budgets\<close>

type_synonym limits = "(string \<times> rat) list"

record budget_policy =
  bp_limits :: limits
  bp_scope :: string

definition nonneg_amount :: "pyval \<Rightarrow> exn + rat" where
  "nonneg_amount v = (case finite_float v of
      None \<Rightarrow> Inl ValueError | Some r \<Rightarrow> if r < 0 then Inl ValueError else Inr r)"

definition limit_item :: "limits \<Rightarrow> pykey \<times> pyval \<Rightarrow> exn + limits" where
  "limit_item normalized kv = (case fst kv of
      KStr b \<Rightarrow> if strip b = [] \<or> b \<noteq> strip b then Inl ValueError
        else ebind (nonneg_amount (snd kv)) (\<lambda>r. Inr (dict_put b r normalized))
    | _ \<Rightarrow> Inl ValueError)"

definition make_budget_policy :: "(pykey \<times> pyval) list \<Rightarrow> string \<Rightarrow> exn + budget_policy" where
  "make_budget_policy limits' scope =
     ebind (guard_or ValueError (limits' \<noteq> [])) (\<lambda>_.
     ebind (efoldl limit_item [] limits') (\<lambda>normalized.
     ebind (policy_text scope) (\<lambda>sc. Inr \<lparr>bp_limits = normalized, bp_scope = sc\<rparr>)))"

definition estimate_item :: "limits \<Rightarrow> limits \<Rightarrow> pykey \<times> pyval \<Rightarrow> exn + limits" where
  "estimate_item limits' acc kv = (case fst kv of
      KStr b \<Rightarrow> if strip b = [] \<or> strip b \<noteq> b then Inl ValueError
        else if b \<notin> fst ` set limits' then Inl ValueError
        else ebind (nonneg_amount (snd kv)) (\<lambda>r. Inr (if r = 0 then acc else dict_put b r acc))
    | _ \<Rightarrow> Inl ValueError)"

text \<open>
  \<open>estimate\<close>: \<open>answer\<close> is what the application's estimator returned for this envelope and
  member (\<open>None\<close> when the policy has no estimator).
\<close>

definition estimate :: "budget_policy \<Rightarrow> pyval option \<Rightarrow> exn + limits" where
  "estimate p answer =
     ebind (case answer of
         None \<Rightarrow> Inr (if ''handoffs'' \<in> fst ` set (bp_limits p) then [(KStr ''handoffs'', VFloat (Fin 1))] else [])
       | Some (VDict d) \<Rightarrow> Inr d
       | Some v \<Rightarrow> Inl TypeError) (\<lambda>raw.
     efoldl (estimate_item (bp_limits p)) [] raw)"

section \<open>Capabilities\<close>

record capability_policy =
  cp_grants :: "(string \<times> string list) list"
  cp_default :: "string list"

definition capability_set :: "string list \<Rightarrow> exn + string list" where
  "capability_set values =
     (if \<exists>v \<in> set values. strip v = [] \<or> v \<noteq> strip v then Inl ValueError
      else if length (frozen values) \<noteq> length values then Inl ValueError
      else Inr (frozen values))"

definition grant_item :: "(string \<times> string list) list \<Rightarrow> string \<times> string list \<Rightarrow> exn + (string \<times> string list) list" where
  "grant_item acc kv = (if strip (fst kv) = [] \<or> fst kv \<noteq> strip (fst kv) then Inl ValueError
     else ebind (capability_set (snd kv)) (\<lambda>cs. Inr (dict_put (fst kv) cs acc)))"

definition make_capability_policy ::
  "(string \<times> string list) list \<Rightarrow> string list \<Rightarrow> exn + capability_policy" where
  "make_capability_policy grants default' =
     ebind (efoldl grant_item [] grants) (\<lambda>gs. ebind (capability_set default') (\<lambda>ds.
     Inr \<lparr>cp_grants = gs, cp_default = ds\<rparr>))"

definition allowed_for :: "capability_policy \<Rightarrow> string \<Rightarrow> exn + string list" where
  "allowed_for p member = ebind (policy_text member) (\<lambda>m.
     Inr (dict_get (dict_get (cp_default p) (cp_grants p) ''*'') (cp_grants p) m))"

definition missing :: "capability_policy \<Rightarrow> string \<Rightarrow> string list \<Rightarrow> exn + string list" where
  "missing p member required = ebind (capability_set required) (\<lambda>req.
     ebind (allowed_for p member) (\<lambda>allowed. Inr (filter (\<lambda>c. c \<notin> set allowed) req)))"

end
