(* ===== verification/Effects.thy ===== *)
theory Effects
  imports Policy
begin

text \<open>
  The effect schema (\<open>lipas/effect.py\<close>): field and tag names, proposals, decisions and
  observations with their validation. A \<open>str\<close>-valued enumeration member stands as its
  string; \<open>deepcopy\<close> is the identity on values.
\<close>

section \<open>Names\<close>

definition TAG_EFFECT_INTENT :: string where "TAG_EFFECT_INTENT = ''call_intent''"
definition TAG_EFFECT_RESULT :: string where "TAG_EFFECT_RESULT = ''call_result''"
definition TAG_EFFECT_REJECTED :: string where "TAG_EFFECT_REJECTED = ''call_rejected''"
definition F_EFFECT_ID :: string where "F_EFFECT_ID = ''call_id''"
definition F_PROPOSAL_ID :: string where "F_PROPOSAL_ID = ''proposal_id''"
definition F_PROPOSAL_KIND :: string where "F_PROPOSAL_KIND = ''proposal_kind''"
definition F_ACTOR :: string where "F_ACTOR = ''actor''"
definition F_CAPABILITIES :: string where "F_CAPABILITIES = ''capabilities''"
definition F_RISK :: string where "F_RISK = ''risk''"
definition F_ESTIMATE :: string where "F_ESTIMATE = ''estimate''"
definition F_PROPOSAL_METADATA :: string where "F_PROPOSAL_METADATA = ''proposal_metadata''"
definition F_PROVIDER_REQUEST_ID :: string where "F_PROVIDER_REQUEST_ID = ''provider_request_id''"
definition F_KIND :: string where "F_KIND = ''kind''"
definition F_COMPENSATES :: string where "F_COMPENSATES = ''compensates''"
definition F_CAUSED_BY :: string where "F_CAUSED_BY = ''caused_by''"
definition F_STATUS :: string where "F_STATUS = ''status''"
definition F_ATTEMPTS :: string where "F_ATTEMPTS = ''attempts''"
definition F_TOTAL_USAGE :: string where "F_TOTAL_USAGE = ''total_usage''"
definition F_SPEND :: string where "F_SPEND = ''spend''"
definition F_ERROR :: string where "F_ERROR = ''error''"
definition F_REASON :: string where "F_REASON = ''reason''"
definition F_DETAIL :: string where "F_DETAIL = ''detail''"
definition F_MODEL :: string where "F_MODEL = ''model''"
definition F_REQUEST :: string where "F_REQUEST = ''request''"
definition F_REPLY :: string where "F_REPLY = ''reply''"
definition F_TOOL_NAME :: string where "F_TOOL_NAME = ''tool_name''"
definition F_ARGUMENTS :: string where "F_ARGUMENTS = ''arguments''"
definition F_DECLARED_SIDE_EFFECT :: string where "F_DECLARED_SIDE_EFFECT = ''declared_side_effect''"
definition F_OUTPUT :: string where "F_OUTPUT = ''output''"
definition F_SIDE_EFFECT :: string where "F_SIDE_EFFECT = ''side_effect''"

lemmas effect_names = TAG_EFFECT_INTENT_def TAG_EFFECT_RESULT_def TAG_EFFECT_REJECTED_def

datatype effect_kind = LLM_CALL | TOOL_CALL

fun effect_kind_value :: "effect_kind \<Rightarrow> string" where
  "effect_kind_value LLM_CALL = ''llm_call''"
| "effect_kind_value TOOL_CALL = ''tool_call''"

section \<open>Proposals\<close>

text \<open>\<open>_strict_json_copy\<close>: the shape check, then a dump and a load.\<close>

definition effect_json_copy :: "pyval \<Rightarrow> exn + pyval" where
  "effect_json_copy v = ebind (validate_json_shape v) (\<lambda>_.
     case canon v of Inl e \<Rightarrow> Inl ValueError | Inr t \<Rightarrow> Inr t)"

definition json_mapping :: "(pykey \<times> pyval) list \<Rightarrow> exn + (pykey \<times> pyval) list" where
  "json_mapping d = ebind (effect_json_copy (VDict d)) (\<lambda>v. case v of
      VDict e \<Rightarrow> Inr e | _ \<Rightarrow> Inl ValueError)"

text \<open>\<open>F_CAPABILITIES\<close> is a set of strings, as its sorted list.\<close>

record proposal =
  ep_effect_id :: string
  ep_kind :: string
  ep_actor :: string
  ep_capabilities :: "string list"
  ep_estimate :: "(string \<times> rat) list"
  ep_risk :: string
  ep_caused_by :: "string option"
  ep_metadata :: "(pykey \<times> pyval) list"

definition effect_text :: "string \<Rightarrow> exn + string" where
  "effect_text s = (if strip s = [] then Inl ValueError else Inr (strip s))"

definition effect_text_opt :: "string option \<Rightarrow> exn + string option" where
  "effect_text_opt v = (case v of None \<Rightarrow> Inr None
     | Some s \<Rightarrow> if strip s = [] then Inl ValueError else Inr (Some (strip s)))"

definition capability_names :: "string list \<Rightarrow> exn + string list" where
  "capability_names xs = (if \<exists>x \<in> set xs. strip x = [] then Inl ValueError
     else if length (remdups (map strip xs)) \<noteq> length xs then Inl ValueError
     else Inr (frozen (map strip xs)))"

definition proposal_amount :: "(string \<times> rat) list \<Rightarrow> pykey \<times> pyval \<Rightarrow> exn + (string \<times> rat) list" where
  "proposal_amount acc kv = (case fst kv of
      KStr b \<Rightarrow> if strip b = [] then Inl ValueError
        else (case finite_float (snd kv) of
            None \<Rightarrow> Inl ValueError
          | Some r \<Rightarrow> if r < 0 then Inl ValueError
              else if strip b \<in> fst ` set acc then Inl ValueError
              else Inr (dict_put (strip b) r acc))
    | _ \<Rightarrow> Inl ValueError)"

definition make_proposal ::
  "string \<Rightarrow> string \<Rightarrow> string \<Rightarrow> string list \<Rightarrow> (pykey \<times> pyval) list \<Rightarrow> string \<Rightarrow> string option
    \<Rightarrow> (pykey \<times> pyval) list \<Rightarrow> exn + proposal" where
  "make_proposal effect_id knd actor capabilities amounts risk caused_by metadata =
     ebind (effect_text effect_id) (\<lambda>i. ebind (effect_text knd) (\<lambda>k. ebind (effect_text actor) (\<lambda>a.
     ebind (effect_text risk) (\<lambda>r. ebind (capability_names capabilities) (\<lambda>cs.
     ebind (efoldl proposal_amount [] amounts) (\<lambda>est. ebind (json_mapping metadata) (\<lambda>md.
     ebind (effect_text_opt caused_by) (\<lambda>cb.
     Inr \<lparr>ep_effect_id = i, ep_kind = k, ep_actor = a, ep_capabilities = cs, ep_estimate = est,
        ep_risk = r, ep_caused_by = cb, ep_metadata = md\<rparr>))))))))"

definition text_list :: "string list \<Rightarrow> pyval" where
  "text_list xs = VList (map VStr xs)"

definition amount_dict :: "(string \<times> rat) list \<Rightarrow> pyval" where
  "amount_dict d = vobj (map (\<lambda>(b, r). (b, VFloat (Fin r))) d)"

definition text_or_none :: "string option \<Rightarrow> pyval" where
  "text_or_none v = (case v of None \<Rightarrow> VNone | Some s \<Rightarrow> VStr s)"

definition proposal_dict :: "proposal \<Rightarrow> fieldmap" where
  "proposal_dict p = [(''effect_id'', VStr (ep_effect_id p)), (''kind'', VStr (ep_kind p)),
     (''actor'', VStr (ep_actor p)), (''capabilities'', text_list (ep_capabilities p)),
     (''estimate'', amount_dict (ep_estimate p)), (''risk'', VStr (ep_risk p)),
     (''caused_by'', text_or_none (ep_caused_by p)), (''metadata'', VDict (ep_metadata p))]"

definition HEX :: string where "HEX = ''0123456789abcdef''"

text \<open>
  \<open>claim_id\<close>: an id of the right form is kept, any other is mapped to one by its digest.
\<close>

definition proposal_claim_id :: "(string \<Rightarrow> string) \<Rightarrow> proposal \<Rightarrow> effect_kind \<Rightarrow> string" where
  "proposal_claim_id digest p k =
     (let prefix = (if k = LLM_CALL then ''call'' else ''tool'');
          candidate = ep_effect_id p;
          suffix = (if starts_with candidate (prefix @ ''_'') then drop (length prefix + 1) candidate else [])
      in if length suffix = 12 \<and> (\<forall>c \<in> set suffix. c \<in> set HEX) then candidate
         else prefix @ ''_'' @ take 12 (digest (''lipas-effect:'' @ effect_kind_value k @ '':'' @ candidate)))"

definition proposal_fields :: "proposal \<Rightarrow> fieldmap" where
  "proposal_fields p =
     [(F_PROPOSAL_ID, VStr (ep_effect_id p)), (F_PROPOSAL_KIND, VStr (ep_kind p)),
      (F_ACTOR, VStr (ep_actor p)), (F_CAPABILITIES, text_list (ep_capabilities p)),
      (F_RISK, VStr (ep_risk p)), (F_ESTIMATE, amount_dict (ep_estimate p)),
      (F_PROPOSAL_METADATA, VDict (ep_metadata p))]
     @ (case ep_caused_by p of None \<Rightarrow> [] | Some c \<Rightarrow> [(F_CAUSED_BY, VStr c)])"

section \<open>Decisions and observations\<close>

record decision =
  ed_allowed :: bool
  ed_reason :: string
  ed_policy :: string
  ed_detail :: "(pykey \<times> pyval) list"

definition make_decision :: "bool \<Rightarrow> string \<Rightarrow> string \<Rightarrow> (pykey \<times> pyval) list \<Rightarrow> exn + decision" where
  "make_decision allowed reason policy detail =
     ebind (effect_text reason) (\<lambda>r. ebind (effect_text policy) (\<lambda>p. ebind (json_mapping detail) (\<lambda>d.
     Inr \<lparr>ed_allowed = allowed, ed_reason = r, ed_policy = p, ed_detail = d\<rparr>)))"

definition decision_dict :: "decision \<Rightarrow> fieldmap" where
  "decision_dict d = [(''allowed'', VBool (ed_allowed d)), (''reason'', VStr (ed_reason d)),
     (''policy'', VStr (ed_policy d)), (''detail'', VDict (ed_detail d))]"

record observation =
  eo_effect_id :: string
  eo_status :: string
  eo_result :: pyval
  eo_evidence :: "(pykey \<times> pyval) list"
  eo_claim_id :: "string option"

definition make_observation ::
  "string \<Rightarrow> string \<Rightarrow> pyval \<Rightarrow> (pykey \<times> pyval) list \<Rightarrow> string option \<Rightarrow> exn + observation" where
  "make_observation effect_id status result evidence cid =
     ebind (effect_text effect_id) (\<lambda>i.
     ebind (guard_or ValueError (status \<in> {''succeeded'', ''failed'', ''uncertain'', ''rejected''})) (\<lambda>_.
     ebind (json_mapping evidence) (\<lambda>ev. ebind (effect_text_opt cid) (\<lambda>c.
     Inr \<lparr>eo_effect_id = i, eo_status = status, eo_result = result, eo_evidence = ev, eo_claim_id = c\<rparr>))))"

definition observation_dict :: "observation \<Rightarrow> fieldmap" where
  "observation_dict ob = [(''effect_id'', VStr (eo_effect_id ob)), (''status'', VStr (eo_status ob)),
     (''result'', eo_result ob), (''evidence'', VDict (eo_evidence ob)),
     (''claim_id'', text_or_none (eo_claim_id ob))]"

end
