(* ===== verification/Builtins.thy ===== *)
theory Builtins
  imports Codec Calculus Retry Effects
begin

text \<open>
  The codecs of the canonical shapes (\<open>register_builtin_codecs\<close> in
  \<open>lipas/serialization/codec.py\<close>) and the model request and messages they carry
  (\<open>lipas/adapter/types.py\<close>). An object stands as \<open>VObj tag payload\<close>, with the payload its
  encoder yields; a decoder rebuilds it from a payload, with the checks of its class. The content of a recorded reply is
  a list, and the schema of a recorded tool specification a dictionary.
\<close>

section \<open>Objects as values\<close>

definition opt_text :: "string option \<Rightarrow> pyval" where
  "opt_text o' = (case o' of None \<Rightarrow> VNone | Some s \<Rightarrow> VStr s)"

definition claim_value :: "claim \<Rightarrow> pyval" where
  "claim_value c = VObj ''Claim'' (vobj [(''tag'', VStr (tag c)), (''fields'', vobj (cfields c)), (''kind'', opt_text (kind c)),
     (''priority'', VInt (priority c)), (''source'', VStr (source c)), (''claim_id'', VStr (claim_id c)), (''seq'', VInt (seq c))])"

definition usage_value :: "usage \<Rightarrow> pyval" where
  "usage_value u = VObj ''Usage'' (vobj [(''input'', VInt (us_input u)), (''output'', VInt (us_output u)),
     (''cache_read'', VInt (us_cache_read u)), (''cache_write'', VInt (us_cache_write u))])"

definition reply_value :: "reply \<Rightarrow> pyval" where
  "reply_value r = VObj ''Reply'' (vobj [(''content'', VList (rp_content r)), (''usage'', usage_value (rp_usage r)),
     (''stop_reason'', VStr (rp_stop_reason r)), (''model'', VStr (rp_model r)),
     (''error_detail'', (case rp_error_detail r of None \<Rightarrow> VNone | Some d \<Rightarrow> vobj d))])"

definition message_value :: "string \<Rightarrow> pyval \<Rightarrow> pyval" where
  "message_value role content = VObj ''Message'' (vobj [(''role'', VStr role), (''content'', content)])"

definition tool_spec_value :: "string \<Rightarrow> string \<Rightarrow> fieldmap \<Rightarrow> pyval" where
  "tool_spec_value name description schema = VObj ''ToolSpec'' (vobj [(''name'', VStr name),
     (''description'', VStr description), (''input_schema'', vobj schema)])"

section \<open>Requests\<close>

record request =
  rq_model :: string
  rq_messages :: "pyval list"
  rq_max_tokens :: int
  rq_system :: string
  rq_tools :: "pyval list"
  rq_temperature :: pyval
  rq_stop_sequences :: "pyval list"
  rq_extra :: "(pykey \<times> pyval) list"
  rq_request_id :: "string option"

text \<open>
  Python's iteration over a value and \<open>dict(v)\<close>. Sets are outside: their order is open, and
  no recorded value is one.
\<close>

fun key_value :: "pykey \<Rightarrow> pyval" where
  "key_value KNone = VNone"
| "key_value (KStr s) = VStr s"
| "key_value (KInt i) = VInt i"
| "key_value (KFloat x) = VFloat x"
| "key_value (KTup ks) = VTuple (map key_value ks)"

definition iter_values :: "pyval \<Rightarrow> exn + pyval list" where
  "iter_values v = (case v of VList xs \<Rightarrow> Inr xs | VTuple xs \<Rightarrow> Inr xs | VStr s \<Rightarrow> Inr (map (\<lambda>c. VStr [c]) s)
     | VDict d \<Rightarrow> Inr (map (key_value \<circ> fst) d) | _ \<Rightarrow> Inl TypeError)"

definition pair_of :: "pyval \<Rightarrow> exn + pykey \<times> pyval" where
  "pair_of v = ebind (iter_values v) (\<lambda>xs. case xs of
      [a, b] \<Rightarrow> ebind (hash_key a) (\<lambda>k. Inr (k, b))
    | _ \<Rightarrow> Inl ValueError)"

definition dict_of :: "pyval \<Rightarrow> exn + (pykey \<times> pyval) list" where
  "dict_of v = (case v of VDict d \<Rightarrow> Inr d
     | _ \<Rightarrow> ebind (iter_values v) (efoldl (\<lambda>d x. ebind (pair_of x) (\<lambda>(k, b). Inr (dict_put k b d))) []))"

text \<open>
  \<open>Message.as_dict\<close>; the content blocks stand as the dictionaries \<open>asdict\<close> makes of them.
\<close>

definition message_dict :: "pyval \<Rightarrow> pyval \<Rightarrow> exn + pyval" where
  "message_dict role content = (case content of
      VStr s \<Rightarrow> Inr (vobj [(''role'', role), (''content'', VStr s)])
    | _ \<Rightarrow> ebind (iter_values content) (\<lambda>xs.
        ebind (emap (\<lambda>x. case x of VDict d \<Rightarrow> Inr (VDict d) | _ \<Rightarrow> Inl TypeError) xs) (\<lambda>blocks.
        Inr (vobj [(''role'', role), (''content'', VList blocks)]))))"

definition request_message :: "pyval \<Rightarrow> exn + pyval" where
  "request_message m = (case m of
      VDict d \<Rightarrow> Inr (VDict d)
    | VObj t x \<Rightarrow> (case x of
          VDict d \<Rightarrow> if t = ''Message''
            then message_dict (dict_get VNone d (KStr ''role'')) (dict_get VNone d (KStr ''content'')) else Inl TypeError
        | _ \<Rightarrow> Inl TypeError)
    | _ \<Rightarrow> Inl TypeError)"

text \<open>\<open>math.isfinite\<close> converts an integer first, which may overflow.\<close>

definition check_temperature :: "pyval \<Rightarrow> exn + unit" where
  "check_temperature v = (case v of
      VNone \<Rightarrow> Inr ()
    | VInt i \<Rightarrow> ebind (float_of_int i) (\<lambda>_. Inr ())
    | VFloat x \<Rightarrow> guard_or ValueError (case x of Fin _ \<Rightarrow> True | _ \<Rightarrow> False)
    | _ \<Rightarrow> Inl ValueError)"

definition text_of :: "exn \<Rightarrow> pyval \<Rightarrow> exn + string" where
  "text_of e v = (case v of VStr s \<Rightarrow> Inr s | _ \<Rightarrow> Inl e)"

definition int_of :: "exn \<Rightarrow> pyval \<Rightarrow> exn + int" where
  "int_of e v = (case v of VInt i \<Rightarrow> Inr i | _ \<Rightarrow> Inl e)"

definition check_request_id :: "pyval \<Rightarrow> exn + string option" where
  "check_request_id v = (case v of VNone \<Rightarrow> Inr None
     | _ \<Rightarrow> ebind (text_of ValueError v) (\<lambda>s. if strip s = [] then Inl ValueError else Inr (Some (strip s))))"

definition make_request ::
  "pyval \<Rightarrow> pyval \<Rightarrow> pyval \<Rightarrow> pyval \<Rightarrow> pyval \<Rightarrow> pyval \<Rightarrow> pyval \<Rightarrow> pyval \<Rightarrow> pyval \<Rightarrow> exn + request" where
  "make_request model messages max_tokens system tools temperature stops extra rid =
     ebind (text_of ValueError model) (\<lambda>mo.
     ebind (guard_or ValueError (strip mo \<noteq> [])) (\<lambda>_.
     ebind (text_of TypeError system) (\<lambda>sy.
     ebind (int_of ValueError max_tokens) (\<lambda>mt.
     ebind (guard_or ValueError (0 < mt)) (\<lambda>_.
     ebind (check_temperature temperature) (\<lambda>_.
     ebind (check_request_id rid) (\<lambda>r.
     ebind (ebind (iter_values messages) (emap request_message)) (\<lambda>ms.
     ebind (iter_values tools) (\<lambda>to.
     ebind (iter_values stops) (\<lambda>st.
     ebind (dict_of extra) (\<lambda>ex.
     Inr \<lparr>rq_model = strip mo, rq_messages = ms, rq_max_tokens = mt, rq_system = sy, rq_tools = to,
       rq_temperature = temperature, rq_stop_sequences = st, rq_extra = ex, rq_request_id = r\<rparr>)))))))))))"

text \<open>The encoder of a request leaves \<open>request_id\<close> out.\<close>

definition request_value :: "request \<Rightarrow> pyval" where
  "request_value r = VObj ''Request'' (vobj [(''model'', VStr (rq_model r)), (''messages'', VList (rq_messages r)),
     (''max_tokens'', VInt (rq_max_tokens r)), (''system'', VStr (rq_system r)), (''tools'', VList (rq_tools r)),
     (''temperature'', rq_temperature r), (''stop_sequences'', VList (rq_stop_sequences r)), (''extra'', VDict (rq_extra r))])"

section \<open>Decoders\<close>

text \<open>\<open>d[k]\<close>, \<open>d.get(k, x)\<close>, and the exception of using them on a payload that is no dictionary.\<close>

definition item_of :: "(pykey \<times> pyval) list \<Rightarrow> string \<Rightarrow> exn + pyval" where
  "item_of d k = (case map_of d (KStr k) of None \<Rightarrow> Inl KeyError | Some v \<Rightarrow> Inr v)"

definition item_or :: "pyval \<Rightarrow> (pykey \<times> pyval) list \<Rightarrow> string \<Rightarrow> pyval" where
  "item_or x d k = dict_get x d (KStr k)"

definition with_payload :: "exn \<Rightarrow> ((pykey \<times> pyval) list \<Rightarrow> exn + pyval) \<Rightarrow> pyval \<Rightarrow> exn + pyval" where
  "with_payload e f v = (case v of VDict d \<Rightarrow> f d | _ \<Rightarrow> Inl e)"

definition decode_claim_object :: "pyval \<Rightarrow> exn + pyval" where
  "decode_claim_object = with_payload TypeError (\<lambda>d.
     ebind (item_of d ''tag'') (\<lambda>t.
     let fs = item_or VNone d ''fields'' in
     ebind (item_of d ''claim_id'') (\<lambda>i.
     Inr (VObj ''Claim'' (vobj [(''tag'', t), (''fields'', if truthy fs then fs else VDict []),
       (''kind'', item_or VNone d ''kind''), (''priority'', item_or (VInt 0) d ''priority''),
       (''source'', item_or (VStr []) d ''source''), (''claim_id'', i), (''seq'', item_or (VInt (- 1)) d ''seq'')])))))"

definition count_ok :: "pyval \<Rightarrow> bool" where
  "count_ok v \<longleftrightarrow> (case v of VInt i \<Rightarrow> 0 \<le> i | _ \<Rightarrow> False)"

definition decode_usage_object :: "pyval \<Rightarrow> exn + pyval" where
  "decode_usage_object = with_payload AttributeError (\<lambda>d.
     let i = item_or (VInt 0) d ''input''; out = item_or (VInt 0) d ''output'';
         cr = item_or (VInt 0) d ''cache_read''; cw = item_or (VInt 0) d ''cache_write'' in
     if count_ok i \<and> count_ok out \<and> count_ok cr \<and> count_ok cw
     then Inr (VObj ''Usage'' (vobj [(''input'', i), (''output'', out), (''cache_read'', cr), (''cache_write'', cw)]))
     else Inl ValueError)"

definition is_usage :: "pyval \<Rightarrow> bool" where
  "is_usage v \<longleftrightarrow> (case v of VObj t x \<Rightarrow> t = ''Usage'' | _ \<Rightarrow> False)"

definition stop_reasons :: "string list" where
  "stop_reasons = [''end_turn'', ''max_tokens'', ''stop_sequence'', ''tool_use'', ''error'']"

text \<open>\<open>Reply.__post_init__\<close> on untyped attributes: the set membership hashes the stop reason.\<close>

definition decode_reply_object :: "pyval \<Rightarrow> exn + pyval" where
  "decode_reply_object = with_payload TypeError (\<lambda>d.
     ebind (item_of d ''content'') (\<lambda>content. ebind (item_of d ''usage'') (\<lambda>u.
     ebind (item_of d ''stop_reason'') (\<lambda>reason. ebind (item_of d ''model'') (\<lambda>model.
     let detail = item_or VNone d ''error_detail'' in
     ebind (text_of ValueError model) (\<lambda>m.
     ebind (guard_or ValueError (strip m \<noteq> [])) (\<lambda>_.
     ebind (guard_or TypeError (is_usage u)) (\<lambda>_.
     ebind (hash_key reason) (\<lambda>k.
     ebind (guard_or ValueError (k \<in> KStr ` set stop_reasons)) (\<lambda>_.
     ebind (guard_or ValueError ((reason = VStr ''error'') = (detail \<noteq> VNone))) (\<lambda>_.
     Inr (VObj ''Reply'' (vobj [(''content'', content), (''usage'', u), (''stop_reason'', reason), (''model'', model),
       (''error_detail'', detail)])))))))))))))"

definition decode_message_object :: "pyval \<Rightarrow> exn + pyval" where
  "decode_message_object = with_payload TypeError (\<lambda>d.
     ebind (item_of d ''role'') (\<lambda>role. ebind (item_of d ''content'') (\<lambda>content.
     Inr (VObj ''Message'' (vobj [(''role'', role), (''content'', content)])))))"

definition decode_tool_spec_object :: "pyval \<Rightarrow> exn + pyval" where
  "decode_tool_spec_object = with_payload TypeError (\<lambda>d.
     ebind (item_of d ''name'') (\<lambda>n. ebind (item_of d ''description'') (\<lambda>t. ebind (item_of d ''input_schema'') (\<lambda>s.
     Inr (VObj ''ToolSpec'' (vobj [(''name'', n), (''description'', t), (''input_schema'', s)]))))))"

definition decode_request_object :: "pyval \<Rightarrow> exn + pyval" where
  "decode_request_object = with_payload TypeError (\<lambda>d.
     ebind (item_of d ''model'') (\<lambda>model.
     ebind (item_of d ''messages'') (\<lambda>messages.
     ebind (item_of d ''max_tokens'') (\<lambda>max_tokens.
     ebind (make_request model messages max_tokens (item_or (VStr []) d ''system'') (item_or (VTuple []) d ''tools'')
       (item_or VNone d ''temperature'') (item_or (VTuple []) d ''stop_sequences'') (item_or (VDict []) d ''extra'') VNone) (\<lambda>r.
     Inr (request_value r))))))"

text \<open>\<open>EffectKind(value)\<close>: a member of a string enumeration, which is its string.\<close>

definition decode_effect_kind :: "pyval \<Rightarrow> exn + pyval" where
  "decode_effect_kind v = (if v \<in> {VStr (effect_kind_value LLM_CALL), VStr (effect_kind_value TOOL_CALL)}
     then Inr v else Inl ValueError)"

definition builtin_codecs :: codec_registry where
  "builtin_codecs = [(''Claim'', decode_claim_object), (''Usage'', decode_usage_object), (''Reply'', decode_reply_object),
     (''Message'', decode_message_object), (''ToolSpec'', decode_tool_spec_object), (''Request'', decode_request_object),
     (''EffectKind'', decode_effect_kind)]"

definition register_builtin_codecs :: "codec_registry \<Rightarrow> exn + codec_registry" where
  "register_builtin_codecs reg = efoldl (\<lambda>r (t, f). codec_register t f r) reg builtin_codecs"

definition make_default_codec_registry :: "exn + codec_registry" where
  "make_default_codec_registry = register_builtin_codecs []"

lemma default_codecs: "make_default_codec_registry = Inr builtin_codecs"
  by (simp add: make_default_codec_registry_def register_builtin_codecs_def builtin_codecs_def codec_register_def)

section \<open>What can be recorded\<close>

definition free_keys :: "fieldmap \<Rightarrow> bool" where
  "free_keys fs \<longleftrightarrow> LIPAS_TYPE_KEY \<notin> fst ` set fs \<and> LIPAS_DATA_KEY \<notin> fst ` set fs"

text \<open>JSON values without reserved keys, and the canonical objects, nested in any way.\<close>

inductive recordable :: "pyval \<Rightarrow> bool" where
  rec_none: "recordable VNone"
| rec_bool: "recordable (VBool b)"
| rec_int: "recordable (VInt i)"
| rec_float: "recordable (VFloat x)"
| rec_text: "recordable (VStr s)"
| rec_list: "(\<And>x. x \<in> set xs \<Longrightarrow> recordable x) \<Longrightarrow> recordable (VList xs)"
| rec_dict: "free_keys fs \<Longrightarrow> (\<And>kv. kv \<in> set fs \<Longrightarrow> recordable (snd kv)) \<Longrightarrow> recordable (vobj fs)"
| rec_claim: "recordable (vobj (cfields c)) \<Longrightarrow> recordable (claim_value c)"
| rec_usage: "make_usage a b c d = Inr u \<Longrightarrow> recordable (usage_value u)"
| rec_reply: "make_reply content u reason model detail = Inr r \<Longrightarrow> recordable (usage_value u) \<Longrightarrow> recordable (VList content) \<Longrightarrow>
    (\<And>d. detail = Some d \<Longrightarrow> recordable (vobj d)) \<Longrightarrow> recordable (reply_value r)"
| rec_message: "recordable content \<Longrightarrow> recordable (message_value role content)"
| rec_tool_spec: "recordable (vobj schema) \<Longrightarrow> recordable (tool_spec_value name description schema)"
| rec_request: "make_request model messages max_tokens system tools temperature stops extra rid = Inr r \<Longrightarrow>
    recordable (VList (rq_messages r)) \<Longrightarrow> recordable (VList (rq_tools r)) \<Longrightarrow>
    recordable (VList (rq_stop_sequences r)) \<Longrightarrow> recordable (VDict (rq_extra r)) \<Longrightarrow>
    recordable (request_value r)"

end
