(* ===== verification/BuiltinsProps.thy ===== *)
theory BuiltinsProps
  imports Builtins
begin



lemma free_keys_simps [simp]: "free_keys []" "free_keys ((k, v) # fs) \<longleftrightarrow> k \<noteq> LIPAS_TYPE_KEY \<and> k \<noteq> LIPAS_DATA_KEY \<and> free_keys fs"
  by (auto simp: free_keys_def)




lemma codable_opt_text [simp]: "codable reg (opt_text k)"
  by (simp add: opt_text_def split: option.split)

lemma items_vobj [simp]:
  "with_payload e f (vobj fs) = f (map (\<lambda>(k, v). (KStr k, v)) fs)"
  by (simp add: with_payload_def vobj_def)

lemma truthy_vobj [simp]: "truthy (vobj fs) \<longleftrightarrow> fs \<noteq> []"
  by (simp add: vobj_def)














end
