(* ===== verification/Execution.thy ===== *)
theory Execution
  imports Events
begin

text \<open>
  The execution store (\<open>lipas/execution.py\<close>): tasks, runs with leases, checkpoints,
  interrupts, the audit outbox, the per-run agent event stream and the shared
  coordination budgets. Every method is its argument checks, one transaction over the
  database value (the functions named \<open>_tx\<close>: an exception rolls back, so it carries no
  state) and the mirroring of one batch of audit events afterwards.
\<close>

section \<open>Data\<close>

datatype task_state = TOpen | TCompleted | TCancelled
datatype run_state = Pending | Running | Waiting | Completed | Failed | Cancelled
datatype interrupt_state = IPending | Allowed | Denied

fun task_state_value :: "task_state \<Rightarrow> string" where
  "task_state_value TOpen = ''open''"
| "task_state_value TCompleted = ''completed''"
| "task_state_value TCancelled = ''cancelled''"

fun run_state_value :: "run_state \<Rightarrow> string" where
  "run_state_value Pending = ''pending''"
| "run_state_value Running = ''running''"
| "run_state_value Waiting = ''waiting''"
| "run_state_value Completed = ''completed''"
| "run_state_value Failed = ''failed''"
| "run_state_value Cancelled = ''cancelled''"

fun interrupt_state_value :: "interrupt_state \<Rightarrow> string" where
  "interrupt_state_value IPending = ''pending''"
| "interrupt_state_value Allowed = ''allowed''"
| "interrupt_state_value Denied = ''denied''"

definition active_state :: "run_state \<Rightarrow> bool" where
  "active_state s \<longleftrightarrow> s = Pending \<or> s = Running \<or> s = Waiting"

record task =
  t_id :: string
  t_goal :: string
  t_workspace :: string
  t_state :: task_state
  t_created :: rat
  t_updated :: rat

text \<open>
  A run, as a table row (where \<open>r_result\<close> and \<open>r_error\<close> hold JSON text) and as the
  object \<open>get_run\<close> returns (where they are decoded).
\<close>

record run =
  r_id :: string
  r_task :: string
  r_state :: run_state
  r_attempt :: nat
  r_version :: int
  r_token :: "string option"
  r_expires :: "xfloat option"
  r_cancel :: bool
  r_result :: "pyval option"
  r_error :: "pyval option"
  r_created :: rat
  r_updated :: rat

record checkpoint =
  c_run :: string
  c_version :: int
  c_phase :: string
  c_state :: pyval
  c_created :: rat

record interrupt =
  i_id :: string
  i_run :: string
  i_kind :: string
  i_request :: pyval
  i_state :: interrupt_state
  i_response :: "pyval option"
  i_created :: rat
  i_resolved :: "rat option"

record agent_event_row =
  er_id :: string
  er_run :: string
  er_identity :: string
  er_sequence :: int
  er_type :: string
  er_iteration :: int
  er_data :: pyval
  er_created :: rat

record budget_row =
  b_scope :: string
  b_limits :: pyval
  b_spent :: pyval
  b_updated :: rat

record admission_row =
  ad_scope :: string
  ad_handoff :: string
  ad_estimate :: pyval
  ad_created :: rat

record exec_db =
  d_tasks :: "task list"
  d_runs :: "run list"
  d_checkpoints :: "checkpoint list"
  d_interrupts :: "interrupt list"
  d_audit :: "audit_event list"
  d_agent_events :: "agent_event_row list"
  d_budgets :: "budget_row list"
  d_admissions :: "admission_row list"
  d_schema :: "string option"
  d_seeded :: bool

definition empty_db :: exec_db where
  "empty_db = \<lparr>d_tasks = [], d_runs = [], d_checkpoints = [], d_interrupts = [], d_audit = [],
     d_agent_events = [], d_budgets = [], d_admissions = [], d_schema = None, d_seeded = False\<rparr>"

definition TAG_EXECUTION_TASK_CREATED :: string where
  "TAG_EXECUTION_TASK_CREATED = ''execution_task_created''"
definition TAG_EXECUTION_TASK_COMPLETED :: string where
  "TAG_EXECUTION_TASK_COMPLETED = ''execution_task_completed''"
definition TAG_EXECUTION_TASK_CANCELLED :: string where
  "TAG_EXECUTION_TASK_CANCELLED = ''execution_task_cancelled''"
definition TAG_EXECUTION_RUN_CREATED :: string where
  "TAG_EXECUTION_RUN_CREATED = ''execution_run_created''"
definition TAG_EXECUTION_RUN_CLAIMED :: string where
  "TAG_EXECUTION_RUN_CLAIMED = ''execution_run_claimed''"
definition TAG_EXECUTION_LEASE_RENEWED :: string where
  "TAG_EXECUTION_LEASE_RENEWED = ''execution_lease_renewed''"
definition TAG_EXECUTION_CHECKPOINT_SAVED :: string where
  "TAG_EXECUTION_CHECKPOINT_SAVED = ''execution_checkpoint_saved''"
definition TAG_EXECUTION_INTERRUPT_REQUESTED :: string where
  "TAG_EXECUTION_INTERRUPT_REQUESTED = ''execution_interrupt_requested''"
definition TAG_EXECUTION_INTERRUPT_RESOLVED :: string where
  "TAG_EXECUTION_INTERRUPT_RESOLVED = ''execution_interrupt_resolved''"
definition TAG_EXECUTION_CANCEL_REQUESTED :: string where
  "TAG_EXECUTION_CANCEL_REQUESTED = ''execution_cancel_requested''"
definition TAG_EXECUTION_RUN_COMPLETED :: string where
  "TAG_EXECUTION_RUN_COMPLETED = ''execution_run_completed''"
definition TAG_EXECUTION_RUN_FAILED :: string where
  "TAG_EXECUTION_RUN_FAILED = ''execution_run_failed''"
definition TAG_EXECUTION_RUN_REOPENED :: string where
  "TAG_EXECUTION_RUN_REOPENED = ''execution_run_reopened''"
definition TAG_EXECUTION_RUN_CANCELLED :: string where
  "TAG_EXECUTION_RUN_CANCELLED = ''execution_run_cancelled''"
definition TAG_COORDINATION_BUDGET_RESERVED :: string where
  "TAG_COORDINATION_BUDGET_RESERVED = ''coordination_budget_reserved''"

section \<open>The durable boundary\<close>

definition mapping_json :: "env \<Rightarrow> (pykey \<times> pyval) list \<Rightarrow> exn + pyval" where
  "mapping_json env d = json_text env (VDict d)"

text \<open>
  \<open>_json_result\<close>: non-finite floats become marker objects, and a mapping with a key that
  is not a string becomes a list of entries, before the dump.
\<close>

fun lower_key :: "pykey \<Rightarrow> pyval" where
  "lower_key KNone = VNone"
| "lower_key (KStr s) = VStr s"
| "lower_key (KInt i) = VInt i"
| "lower_key (KFloat x) = (case x of
      Fin r \<Rightarrow> VFloat x
    | NInf \<Rightarrow> vobj [(''__lipas_nonfinite__'', VStr ''-inf'')]
    | PInf \<Rightarrow> vobj [(''__lipas_nonfinite__'', VStr ''inf'')])"
| "lower_key (KTup ks) = VTuple (map lower_key ks)"

definition nonstr_key :: "pykey \<Rightarrow> bool" where
  "nonstr_key k = (case k of KStr s \<Rightarrow> False | _ \<Rightarrow> True)"

fun lower :: "pyval \<Rightarrow> pyval"
  and lower_list :: "pyval list \<Rightarrow> pyval list"
  and lower_items :: "(pykey \<times> pyval) list \<Rightarrow> (pykey \<times> pyval) list"
where
  "lower VNaN = vobj [(''__lipas_nonfinite__'', VStr ''nan'')]"
| "lower (VFloat x) = (case x of
      Fin r \<Rightarrow> VFloat x
    | NInf \<Rightarrow> vobj [(''__lipas_nonfinite__'', VStr ''-inf'')]
    | PInf \<Rightarrow> vobj [(''__lipas_nonfinite__'', VStr ''inf'')])"
| "lower (VList xs) = VList (lower_list xs)"
| "lower (VDict d) =
     (if \<exists>k \<in> fst ` set d. nonstr_key k
      then vobj [(''__lipas_mapping__'', VList (map (\<lambda>(k, v).
             vobj [(''key'', lower_key k), (''value'', v)]) (lower_items d)))]
      else VDict (lower_items d))"
| "lower v = v"
| "lower_list [] = []"
| "lower_list (x # xs) = lower x # lower_list xs"
| "lower_items [] = []"
| "lower_items (kv # d) = (fst kv, lower (snd kv)) # lower_items d"

definition json_result :: "env \<Rightarrow> pyval \<Rightarrow> exn + pyval" where
  "json_result env v = ebind (encode (e_codecs env) v) (\<lambda>e. canon (lower e))"

text \<open>\<open>_budget_mapping\<close>: stripped, distinct, non-empty bucket names with finite amounts.\<close>

definition budget_step :: "budgets \<Rightarrow> pykey \<times> pyval \<Rightarrow> exn + budgets" where
  "budget_step nb kv = (case fst kv of
      KStr b \<Rightarrow> if strip b = [] then Inl ValueError
        else if strip b \<in> fst ` set nb then Inl ValueError
        else (case finite_float (snd kv) of
            None \<Rightarrow> Inl ValueError
          | Some r \<Rightarrow> if r < 0 then Inl ValueError else Inr (dict_put (strip b) r nb))
    | _ \<Rightarrow> Inl ValueError)"

definition budget_mapping :: "pyval \<Rightarrow> exn + budgets" where
  "budget_mapping v = (case v of VDict d \<Rightarrow> efoldl budget_step [] d | _ \<Rightarrow> Inl TypeError)"

definition budget_val :: "budgets \<Rightarrow> pyval" where
  "budget_val bs = vobj (map (\<lambda>(b, r). (b, VFloat (Fin r))) bs)"

section \<open>Audit outbox\<close>

definition audit_claim_id :: "env \<Rightarrow> string \<Rightarrow> string" where
  "audit_claim_id env identity = ''execution_audit_'' @ e_digest env (''execution'' @ [NUL] @ identity)"

definition record_audit_event ::
  "env \<Rightarrow> string \<Rightarrow> string \<Rightarrow> fieldmap \<Rightarrow> rat \<Rightarrow> exec_db \<Rightarrow> exn + exec_db" where
  "record_audit_event env identity tg fs created_at db =
     ebind (json_text env (vobj fs)) (\<lambda>text.
       case sql_first (\<lambda>e. ev_id e = audit_claim_id env identity) (d_audit db) of
         Some e \<Rightarrow> if ev_tag e \<noteq> tg \<or> ev_fields e \<noteq> text then Inl ExecutionStateError else Inr db
       | None \<Rightarrow> Inr (db\<lparr>d_audit := d_audit db @
           [\<lparr>ev_id = audit_claim_id env identity, ev_tag = tg, ev_fields = text,
             ev_at = created_at\<rparr>]\<rparr>))"

section \<open>Reads\<close>

definition get_task :: "string \<Rightarrow> exec_db \<Rightarrow> task option" where
  "get_task tid db = sql_first (\<lambda>t. t_id t = tid) (d_tasks db)"

definition newest_first :: "('r \<Rightarrow> rat) \<Rightarrow> ('r \<Rightarrow> string) \<Rightarrow> 'r \<Rightarrow> 'r \<Rightarrow> bool" where
  "newest_first ts key a b \<longleftrightarrow> ts b < ts a \<or> (ts a = ts b \<and> key b \<le> key a)"

definition oldest_first :: "('r \<Rightarrow> rat) \<Rightarrow> ('r \<Rightarrow> string) \<Rightarrow> 'r \<Rightarrow> 'r \<Rightarrow> bool" where
  "oldest_first ts key a b \<longleftrightarrow> ts a < ts b \<or> (ts a = ts b \<and> key a \<le> key b)"

definition list_tasks :: "task_state option \<Rightarrow> exec_db \<Rightarrow> task list" where
  "list_tasks st db = sql_order (newest_first t_created t_id)
     (filter (\<lambda>t. st = None \<or> st = Some (t_state t)) (d_tasks db))"

definition run_of_row :: "env \<Rightarrow> run \<Rightarrow> exn + run" where
  "run_of_row env r = ebind (from_json_opt env (r_error r)) (\<lambda>err.
     ebind (from_json_opt env (r_result r)) (\<lambda>res. Inr (r\<lparr>r_result := res, r_error := err\<rparr>)))"

definition get_run :: "env \<Rightarrow> string \<Rightarrow> exec_db \<Rightarrow> exn + run option" where
  "get_run env rid db = (case sql_first (\<lambda>r. r_id r = rid) (d_runs db) of
      None \<Rightarrow> Inr None
    | Some row \<Rightarrow> ebind (run_of_row env row) (\<lambda>r. Inr (Some r)))"

definition list_runs :: "env \<Rightarrow> string option \<Rightarrow> exec_db \<Rightarrow> exn + run list" where
  "list_runs env tid db = emap (run_of_row env) (sql_order (newest_first r_created r_id)
     (filter (\<lambda>r. tid = None \<or> tid = Some (r_task r)) (d_runs db)))"

definition claimable :: "rat \<Rightarrow> exec_db \<Rightarrow> run \<Rightarrow> bool" where
  "claimable now db r \<longleftrightarrow>
     (\<exists>t \<in> set (d_tasks db). t_id t = r_task r \<and>
       ((t_state t = TOpen \<and> r_state r = Pending \<and> \<not> r_cancel r)
        \<or> (r_state r = Running \<and> (case r_expires r of None \<Rightarrow> False | Some x \<Rightarrow> x \<le> Fin now))))"

definition list_claimable_runs :: "env \<Rightarrow> pyval \<Rightarrow> exec_db \<Rightarrow> exn + run list" where
  "list_claimable_runs env now db = ebind (timestamp env now) (\<lambda>t.
     ebind (emap (\<lambda>r. get_run env (r_id r) db)
       (sql_order (oldest_first r_created r_id) (filter (claimable t db) (d_runs db))))
     (\<lambda>rs. Inr (List.map_filter id rs)))"

definition get_checkpoint :: "env \<Rightarrow> string \<Rightarrow> int option \<Rightarrow> exec_db \<Rightarrow> exn + checkpoint option" where
  "get_checkpoint env run_id version db = ebind (non_empty_text run_id) (\<lambda>rid.
     if (case version of None \<Rightarrow> False | Some v \<Rightarrow> v < 1) then Inl ValueError
     else
       let rows = filter (\<lambda>c. c_run c = rid) (d_checkpoints db);
           row = (case version of
               None \<Rightarrow> (case sql_order (\<lambda>a b. c_version b \<le> c_version a) rows of
                   [] \<Rightarrow> None | c # _ \<Rightarrow> Some c)
             | Some v \<Rightarrow> sql_first (\<lambda>c. c_version c = v) rows)
       in (case row of None \<Rightarrow> Inr None
           | Some c \<Rightarrow> ebind (from_json env (c_state c)) (\<lambda>st. Inr (Some (c\<lparr>c_state := st\<rparr>)))))"

definition interrupt_of_row :: "env \<Rightarrow> interrupt \<Rightarrow> exn + interrupt" where
  "interrupt_of_row env i = ebind (from_json env (i_request i)) (\<lambda>rq.
     ebind (from_json_opt env (i_response i)) (\<lambda>rs.
       Inr (i\<lparr>i_request := rq, i_response := rs\<rparr>)))"

definition get_interrupt :: "env \<Rightarrow> string \<Rightarrow> exec_db \<Rightarrow> exn + interrupt option" where
  "get_interrupt env interrupt_id db = ebind (non_empty_text interrupt_id) (\<lambda>iid.
     case sql_first (\<lambda>i. i_id i = iid) (d_interrupts db) of
       None \<Rightarrow> Inr None
     | Some row \<Rightarrow> ebind (interrupt_of_row env row) (\<lambda>i. Inr (Some i)))"

definition list_interrupts ::
  "env \<Rightarrow> string option \<Rightarrow> interrupt_state option \<Rightarrow> exec_db \<Rightarrow> exn + interrupt list" where
  "list_interrupts env rid st db = emap (interrupt_of_row env)
     (sql_order (newest_first i_created i_id)
       (filter (\<lambda>i. (rid = None \<or> rid = Some (i_run i)) \<and> (st = None \<or> st = Some (i_state i)))
         (d_interrupts db)))"

text \<open>\<open>get_*\<close> followed by the \<open>KeyError\<close> its callers raise, or the assertion they make.\<close>

definition the_run :: "exn \<Rightarrow> env \<Rightarrow> string \<Rightarrow> exec_db \<Rightarrow> exn + run" where
  "the_run e env rid db = ebind (get_run env rid db)
     (\<lambda>res. case res of None \<Rightarrow> Inl e | Some r \<Rightarrow> Inr r)"

definition the_interrupt :: "exn \<Rightarrow> env \<Rightarrow> string \<Rightarrow> exec_db \<Rightarrow> exn + interrupt" where
  "the_interrupt e env iid db = ebind (get_interrupt env iid db)
     (\<lambda>res. case res of None \<Rightarrow> Inl e | Some i \<Rightarrow> Inr i)"

section \<open>Tasks\<close>

definition create_task_tx :: "env \<Rightarrow> string \<Rightarrow> string \<Rightarrow> string \<Rightarrow> rat \<Rightarrow> exec_db \<Rightarrow> exn + task \<times> exec_db" where
  "create_task_tx env goal ws tid now db =
     (let row = \<lparr>t_id = tid, t_goal = goal, t_workspace = ws, t_state = TOpen,
                 t_created = now, t_updated = now\<rparr> in
      if tid \<in> t_id ` set (d_tasks db) then Inl IntegrityError
      else ebind (record_audit_event env (''task:'' @ tid @ '':created'') TAG_EXECUTION_TASK_CREATED
          [(''task_id'', VStr tid), (''goal'', VStr goal), (''workspace'', VStr ws),
           (''state'', VStr (task_state_value TOpen))] now
          (db\<lparr>d_tasks := d_tasks db @ [row]\<rparr>))
        (\<lambda>db'. Inr (row, db')))"

section \<open>Runs and leases\<close>

definition new_run :: "string \<Rightarrow> string \<Rightarrow> rat \<Rightarrow> run" where
  "new_run rid tid now = \<lparr>r_id = rid, r_task = tid, r_state = Pending, r_attempt = 0, r_version = 0,
     r_token = None, r_expires = None, r_cancel = False, r_result = None, r_error = None,
     r_created = now, r_updated = now\<rparr>"

definition create_run_tx :: "env \<Rightarrow> string \<Rightarrow> string \<Rightarrow> rat \<Rightarrow> exec_db \<Rightarrow> exn + run \<times> exec_db" where
  "create_run_tx env tid rid now db = (case get_task tid db of
      None \<Rightarrow> Inl KeyError
    | Some t \<Rightarrow> if t_state t \<noteq> TOpen then Inl ExecutionStateError
        else if rid \<in> r_id ` set (d_runs db)
          \<or> (\<exists>r \<in> set (d_runs db). r_task r = tid \<and> active_state (r_state r))
        then Inl IntegrityError
        else ebind (record_audit_event env (''run:'' @ rid @ '':created'') TAG_EXECUTION_RUN_CREATED
            [(''run_id'', VStr rid), (''task_id'', VStr tid),
             (''state'', VStr (run_state_value Pending))] now
            (db\<lparr>d_runs := d_runs db @ [new_run rid tid now]\<rparr>))
          (\<lambda>db'. Inr (new_run rid tid now, db')))"

definition expired :: "rat \<Rightarrow> run \<Rightarrow> bool" where
  "expired now r \<longleftrightarrow> (case r_expires r of None \<Rightarrow> False | Some x \<Rightarrow> x \<le> Fin now)"

definition live :: "rat \<Rightarrow> run \<Rightarrow> bool" where
  "live now r \<longleftrightarrow> (case r_expires r of None \<Rightarrow> False | Some x \<Rightarrow> Fin now < x)"

definition can_claim :: "rat \<Rightarrow> run \<Rightarrow> bool" where
  "can_claim now r \<longleftrightarrow> (r_state r = Pending \<and> \<not> r_cancel r) \<or> (r_state r = Running \<and> expired now r)"

definition upd_run :: "string \<Rightarrow> (run \<Rightarrow> bool) \<Rightarrow> (run \<Rightarrow> run) \<Rightarrow> exec_db \<Rightarrow> exec_db" where
  "upd_run rid p f db = db\<lparr>d_runs := sql_update (\<lambda>r. r_id r = rid \<and> p r) f (d_runs db)\<rparr>"

definition count_run :: "string \<Rightarrow> (run \<Rightarrow> bool) \<Rightarrow> exec_db \<Rightarrow> nat" where
  "count_run rid p db = sql_count (\<lambda>r. r_id r = rid \<and> p r) (d_runs db)"

definition claim_tx :: "env \<Rightarrow> string \<Rightarrow> rat \<Rightarrow> rat \<Rightarrow> exec_db \<Rightarrow> exn + run \<times> exec_db" where
  "claim_tx env rid lease now db =
     (let token = fresh_id env ''lease'' in
      if count_run rid (can_claim now) db \<noteq> 1
      then ebind (the_run KeyError env rid db) (\<lambda>_. Inl ExecutionLeaseError)
      else
        let db1 = upd_run rid (can_claim now) (\<lambda>r. r\<lparr>r_state := Running, r_attempt := r_attempt r + 1,
              r_token := Some token, r_expires := Some (f_add now lease), r_updated := now\<rparr>) db
        in ebind (the_run AssertionError env rid db1) (\<lambda>claimed.
           ebind (record_audit_event env (''run:'' @ rid @ '':claimed:'' @ str_int (int (r_attempt claimed)))
              TAG_EXECUTION_RUN_CLAIMED
              [(''run_id'', VStr rid), (''task_id'', VStr (r_task claimed)),
               (''attempt'', VInt (int (r_attempt claimed))),
               (''lease_expires'', json_time (r_expires claimed))] now db1)
             (\<lambda>db2. Inr (claimed, db2))))"

text \<open>\<open>_raise_lease\<close>.\<close>

definition raise_lease :: "env \<Rightarrow> string \<Rightarrow> exec_db \<Rightarrow> exn" where
  "raise_lease env rid db = (case get_run env rid db of
      Inl e \<Rightarrow> e | Inr None \<Rightarrow> KeyError | Inr (Some r) \<Rightarrow> ExecutionLeaseError)"

definition holds_lease :: "string \<Rightarrow> rat \<Rightarrow> run \<Rightarrow> bool" where
  "holds_lease token now r \<longleftrightarrow> r_state r = Running \<and> r_token r = Some token \<and> live now r"

definition renew_tx :: "env \<Rightarrow> string \<Rightarrow> string \<Rightarrow> rat \<Rightarrow> rat \<Rightarrow> exec_db \<Rightarrow> exn + run \<times> exec_db" where
  "renew_tx env rid token lease now db =
     (if count_run rid (holds_lease token now) db \<noteq> 1 then Inl (raise_lease env rid db)
      else
        let db1 = upd_run rid (holds_lease token now)
              (\<lambda>r. r\<lparr>r_expires := Some (f_add now lease), r_updated := now\<rparr>) db
        in ebind (the_run AssertionError env rid db1) (\<lambda>renewed.
           ebind (record_audit_event env
              (''run:'' @ rid @ '':lease-renewed:'' @ str_int (int (r_attempt renewed)) @ '':''
                @ (case r_expires renewed of None \<Rightarrow> ''None'' | Some x \<Rightarrow> e_repr env x))
              TAG_EXECUTION_LEASE_RENEWED
              [(''run_id'', VStr rid), (''task_id'', VStr (r_task renewed)),
               (''attempt'', VInt (int (r_attempt renewed))),
               (''lease_expires'', json_time (r_expires renewed))] now db1)
             (\<lambda>db2. Inr (renewed, db2))))"

definition require_lease :: "env \<Rightarrow> string \<Rightarrow> string \<Rightarrow> rat \<Rightarrow> exec_db \<Rightarrow> exn + run" where
  "require_lease env rid token now db = ebind (the_run KeyError env rid db) (\<lambda>r.
     if r_state r \<noteq> Running \<or> r_token r \<noteq> Some token \<or> r_expires r = None \<or> expired now r
     then Inl ExecutionLeaseError else Inr r)"

end
