(* ===== verification/ExecutionOps.thy ===== *)
theory ExecutionOps
  imports Execution
begin

text \<open>
  The lease-fenced transitions of the execution store (\<open>lipas/execution.py\<close>):
  checkpoints, suspension and its resolution, the terminal transitions, reopening, and
  cancellation of runs and tasks. Each function is the body of one transaction.
\<close>

section \<open>Checkpoints and interrupts\<close>

definition insert_checkpoint :: "string \<Rightarrow> int \<Rightarrow> string \<Rightarrow> pyval \<Rightarrow> rat \<Rightarrow> exec_db \<Rightarrow> exn + exec_db" where
  "insert_checkpoint rid v phase st now db =
     (if \<exists>c \<in> set (d_checkpoints db). c_run c = rid \<and> c_version c = v then Inl IntegrityError
      else Inr (db\<lparr>d_checkpoints := d_checkpoints db @
        [\<lparr>c_run = rid, c_version = v, c_phase = phase, c_state = st, c_created = now\<rparr>]\<rparr>))"

definition insert_interrupt ::
  "string \<Rightarrow> string \<Rightarrow> string \<Rightarrow> pyval \<Rightarrow> rat \<Rightarrow> exec_db \<Rightarrow> exn + exec_db" where
  "insert_interrupt iid rid kd rq now db =
     (if iid \<in> i_id ` set (d_interrupts db)
       \<or> (\<exists>i \<in> set (d_interrupts db). i_run i = rid \<and> i_state i = IPending)
      then Inl IntegrityError
      else Inr (db\<lparr>d_interrupts := d_interrupts db @
        [\<lparr>i_id = iid, i_run = rid, i_kind = kd, i_request = rq, i_state = IPending,
          i_response = None, i_created = now, i_resolved = None\<rparr>]\<rparr>))"

definition save_checkpoint_tx ::
  "env \<Rightarrow> string \<Rightarrow> string \<Rightarrow> int \<Rightarrow> string \<Rightarrow> pyval \<Rightarrow> rat \<Rightarrow> exec_db \<Rightarrow> exn + unit \<times> exec_db" where
  "save_checkpoint_tx env rid token expected phase state_json now db =
     ebind (require_lease env rid token now db) (\<lambda>run.
       if r_version run \<noteq> expected then Inl CheckpointConflict
       else let v = expected + 1 in
         ebind (insert_checkpoint rid v phase state_json now db) (\<lambda>db1.
           if count_run rid (\<lambda>r. r_version r = expected \<and> r_token r = Some token) db1 \<noteq> 1
           then Inl CheckpointConflict
           else ebind (record_audit_event env
               (''run:'' @ rid @ '':checkpoint:'' @ str_int v) TAG_EXECUTION_CHECKPOINT_SAVED
               [(''run_id'', VStr rid), (''version'', VInt v), (''phase'', VStr phase)] now
               (upd_run rid (\<lambda>r. r_version r = expected \<and> r_token r = Some token)
                 (\<lambda>r. r\<lparr>r_version := v, r_updated := now\<rparr>) db1))
             (\<lambda>db2. Inr ((), db2))))"

definition suspend_tx ::
  "env \<Rightarrow> string \<Rightarrow> string \<Rightarrow> int \<Rightarrow> string \<Rightarrow> pyval \<Rightarrow> string \<Rightarrow> pyval \<Rightarrow> string \<Rightarrow> rat \<Rightarrow> exec_db
    \<Rightarrow> exn + unit \<times> exec_db" where
  "suspend_tx env rid token expected phase state_json kd request_json iid now db =
     ebind (require_lease env rid token now db) (\<lambda>run.
       if r_version run \<noteq> expected then Inl CheckpointConflict
       else let v = expected + 1;
                held = (\<lambda>r. r_state r = Running \<and> r_token r = Some token \<and> r_version r = expected)
       in ebind (insert_checkpoint rid v phase state_json now db) (\<lambda>db1.
         ebind (insert_interrupt iid rid kd request_json now db1) (\<lambda>db2.
           if count_run rid held db2 \<noteq> 1 then Inl CheckpointConflict
           else ebind (record_audit_event env
               (''run:'' @ rid @ '':checkpoint:'' @ str_int v) TAG_EXECUTION_CHECKPOINT_SAVED
               [(''run_id'', VStr rid), (''version'', VInt v), (''phase'', VStr phase)] now
               (upd_run rid held (\<lambda>r. r\<lparr>r_state := Waiting, r_version := v, r_token := None,
                  r_expires := None, r_updated := now\<rparr>) db2)) (\<lambda>db3.
             ebind (record_audit_event env
               (''interrupt:'' @ iid @ '':requested'') TAG_EXECUTION_INTERRUPT_REQUESTED
               [(''interrupt_id'', VStr iid), (''run_id'', VStr rid), (''kind'', VStr kd),
                (''state'', VStr (interrupt_state_value IPending))] now db3)
             (\<lambda>db4. Inr ((), db4))))))"

text \<open>The event of a run that reached a terminal state, as four methods record it.\<close>

definition record_terminal ::
  "env \<Rightarrow> string \<Rightarrow> string \<Rightarrow> run_state \<Rightarrow> string \<Rightarrow> int \<Rightarrow> fieldmap \<Rightarrow> rat \<Rightarrow> exec_db \<Rightarrow> exn + exec_db" where
  "record_terminal env rid tid st tg version extra now db =
     record_audit_event env (''run:'' @ rid @ '':state:'' @ run_state_value st) tg
       ([(''run_id'', VStr rid), (''task_id'', VStr tid), (''state'', VStr (run_state_value st)),
         (''checkpoint_version'', VInt version)] @ extra) now db"

definition record_resolved ::
  "env \<Rightarrow> string \<Rightarrow> string \<Rightarrow> string \<Rightarrow> interrupt_state \<Rightarrow> rat \<Rightarrow> exec_db \<Rightarrow> exn + exec_db" where
  "record_resolved env iid rid kd st now db =
     record_audit_event env (''interrupt:'' @ iid @ '':resolved'') TAG_EXECUTION_INTERRUPT_RESOLVED
       [(''interrupt_id'', VStr iid), (''run_id'', VStr rid), (''kind'', VStr kd),
        (''state'', VStr (interrupt_state_value st))] now db"

definition upd_interrupt :: "(interrupt \<Rightarrow> bool) \<Rightarrow> (interrupt \<Rightarrow> interrupt) \<Rightarrow> exec_db \<Rightarrow> exec_db" where
  "upd_interrupt p f db = db\<lparr>d_interrupts := sql_update p f (d_interrupts db)\<rparr>"

definition resolve_interrupt_tx ::
  "env \<Rightarrow> string \<Rightarrow> bool \<Rightarrow> pyval \<Rightarrow> rat \<Rightarrow> exec_db \<Rightarrow> exn + unit \<times> exec_db" where
  "resolve_interrupt_tx env iid allow response_json now db =
     (let target = (if allow then Allowed else Denied);
          next_state = (if allow then Pending else Cancelled);
          here = (\<lambda>i. i_id i = iid \<and> i_state i = IPending) in
      ebind (the_interrupt KeyError env iid db) (\<lambda>cur.
        if i_state cur \<noteq> IPending then Inl ExecutionStateError
        else if sql_count here (d_interrupts db) \<noteq> 1 then Inl ExecutionStateError
        else let db1 = upd_interrupt here (\<lambda>i. i\<lparr>i_state := target,
                i_response := Some response_json, i_resolved := Some now\<rparr>) db in
          if count_run (i_run cur) (\<lambda>r. r_state r = Waiting) db1 \<noteq> 1 then Inl ExecutionStateError
          else let db2 = upd_run (i_run cur) (\<lambda>r. r_state r = Waiting)
                  (\<lambda>r. r\<lparr>r_state := next_state, r_updated := now\<rparr>) db1 in
            ebind (record_resolved env iid (i_run cur) (i_kind cur) target now db2) (\<lambda>db3.
              if allow then Inr ((), db3)
              else ebind (the_run AssertionError env (i_run cur) db3) (\<lambda>run.
                ebind (record_terminal env (i_run cur) (r_task run) Cancelled
                    TAG_EXECUTION_RUN_CANCELLED (r_version run) [] now db3)
                  (\<lambda>db4. Inr ((), db4))))))"

section \<open>Terminal transitions\<close>

definition upd_task :: "string \<Rightarrow> task_state \<Rightarrow> task_state \<Rightarrow> rat \<Rightarrow> exec_db \<Rightarrow> exec_db" where
  "upd_task tid old new now db = db\<lparr>d_tasks := sql_update (\<lambda>t. t_id t = tid \<and> t_state t = old)
     (\<lambda>t. t\<lparr>t_state := new, t_updated := now\<rparr>) (d_tasks db)\<rparr>"

definition record_task_state ::
  "env \<Rightarrow> string \<Rightarrow> task_state \<Rightarrow> string \<Rightarrow> rat \<Rightarrow> exec_db \<Rightarrow> exn + exec_db" where
  "record_task_state env tid st tg now db =
     record_audit_event env (''task:'' @ tid @ '':state:'' @ task_state_value st) tg
       [(''task_id'', VStr tid), (''state'', VStr (task_state_value st))] now db"

definition owned :: "string \<Rightarrow> run \<Rightarrow> bool" where
  "owned token r \<longleftrightarrow> r_state r = Running \<and> r_token r = Some token"

definition complete_run_tx :: "env \<Rightarrow> string \<Rightarrow> string \<Rightarrow> pyval \<Rightarrow> rat \<Rightarrow> exec_db \<Rightarrow> exn + unit \<times> exec_db" where
  "complete_run_tx env rid token result_json now db =
     ebind (require_lease env rid token now db) (\<lambda>run.
       if r_cancel run then Inl ExecutionStateError
       else if count_run rid (owned token) db \<noteq> 1 then Inl (raise_lease env rid db)
       else
         let db1 = upd_run rid (owned token) (\<lambda>r. r\<lparr>r_state := Completed,
               r_result := Some result_json, r_token := None, r_expires := None,
               r_updated := now\<rparr>) db;
             db2 = upd_task (r_task run) TOpen TCompleted now db1
         in ebind (record_terminal env rid (r_task run) Completed TAG_EXECUTION_RUN_COMPLETED
                (r_version run) [] now db2) (\<lambda>db3.
            ebind (record_task_state env (r_task run) TCompleted TAG_EXECUTION_TASK_COMPLETED now db3)
              (\<lambda>db4. Inr ((), db4))))"

definition fail_run_tx ::
  "env \<Rightarrow> string \<Rightarrow> string \<Rightarrow> (pykey \<times> pyval) list \<Rightarrow> pyval \<Rightarrow> rat \<Rightarrow> exec_db \<Rightarrow> exn + unit \<times> exec_db" where
  "fail_run_tx env rid token err error_json now db =
     ebind (require_lease env rid token now db) (\<lambda>_.
       if count_run rid (owned token) db \<noteq> 1 then Inl (raise_lease env rid db)
       else
         let db1 = upd_run rid (owned token) (\<lambda>r. r\<lparr>r_state := Failed,
               r_error := Some error_json, r_token := None, r_expires := None,
               r_updated := now\<rparr>) db
         in ebind (the_run AssertionError env rid db1) (\<lambda>failed.
            ebind (record_terminal env rid (r_task failed) Failed TAG_EXECUTION_RUN_FAILED
                (r_version failed) [(''error'', VDict err)] now db1)
              (\<lambda>db2. Inr ((), db2))))"

text \<open>
  \<open>reopen_uncertain\<close>: the run and the observation are checked before the transaction.
  Setting the run to pending violates the unique index when its task has another
  active run.
\<close>

definition reopenable :: "run \<Rightarrow> bool" where
  "reopenable r \<longleftrightarrow> r_state r = Failed \<and> (case r_error r of
      Some (VDict d) \<Rightarrow> map_of d (KStr ''recovery_required'') = Some (VBool True) | _ \<Rightarrow> False)"

definition reopen_tx ::
  "env \<Rightarrow> run \<Rightarrow> string \<Rightarrow> (pykey \<times> pyval) list \<Rightarrow> rat \<Rightarrow> exec_db \<Rightarrow> exn + unit \<times> exec_db" where
  "reopen_tx env cur rid evidence now db =
     (if (\<exists>r \<in> set (d_runs db). r_id r = rid \<and> r_state r = Failed
          \<and> (\<exists>q \<in> set (d_runs db). r_id q \<noteq> rid \<and> r_task q = r_task r \<and> active_state (r_state q)))
      then Inl IntegrityError
      else if count_run rid (\<lambda>r. r_state r = Failed) db \<noteq> 1 then Inl ExecutionStateError
      else
        let db1 = upd_run rid (\<lambda>r. r_state r = Failed) (\<lambda>r. r\<lparr>r_state := Pending,
              r_error := None, r_cancel := False, r_updated := now\<rparr>) db;
            db2 = upd_task (r_task cur) TCompleted TOpen now db1
        in ebind (record_audit_event env
              (''run:'' @ rid @ '':reopened:'' @ str_int (int (r_attempt cur)))
              TAG_EXECUTION_RUN_REOPENED
              [(''run_id'', VStr rid), (''task_id'', VStr (r_task cur)),
               (''state'', VStr (run_state_value Pending)),
               (''reason'', VStr ''operator_reconciled_uncertain''),
               (''evidence'', VDict evidence)] now db2)
            (\<lambda>db3. Inr ((), db3)))"

section \<open>Cancellation\<close>

definition terminal :: "run_state \<Rightarrow> bool" where
  "terminal s \<longleftrightarrow> s = Completed \<or> s = Failed \<or> s = Cancelled"

definition record_cancel_requested :: "env \<Rightarrow> string \<Rightarrow> string \<Rightarrow> rat \<Rightarrow> exec_db \<Rightarrow> exn + exec_db" where
  "record_cancel_requested env rid tid now db =
     record_audit_event env (''run:'' @ rid @ '':cancel-requested'') TAG_EXECUTION_CANCEL_REQUESTED
       [(''run_id'', VStr rid), (''task_id'', VStr tid)] now db"

definition pending_interrupt :: "run \<Rightarrow> exec_db \<Rightarrow> interrupt option" where
  "pending_interrupt run db = (if r_state run = Waiting
     then sql_first (\<lambda>i. i_run i = r_id run \<and> i_state i = IPending) (d_interrupts db) else None)"

definition cancel_run_row :: "string \<Rightarrow> rat \<Rightarrow> exec_db \<Rightarrow> exec_db" where
  "cancel_run_row rid now db = upd_run rid (\<lambda>_. True) (\<lambda>r. r\<lparr>r_state := Cancelled,
     r_cancel := True, r_token := None, r_expires := None, r_updated := now\<rparr>) db"

definition deny :: "(interrupt \<Rightarrow> bool) \<Rightarrow> pyval \<Rightarrow> rat \<Rightarrow> exec_db \<Rightarrow> exec_db" where
  "deny p response_json now db = upd_interrupt (\<lambda>i. p i \<and> i_state i = IPending)
     (\<lambda>i. i\<lparr>i_state := Denied, i_response := Some response_json, i_resolved := Some now\<rparr>) db"

definition request_cancel_tx :: "env \<Rightarrow> string \<Rightarrow> rat \<Rightarrow> exec_db \<Rightarrow> exn + unit \<times> exec_db" where
  "request_cancel_tx env rid now db =
     ebind (the_run KeyError env rid db) (\<lambda>run.
       if terminal (r_state run) then Inl ExecutionStateError
       else ebind (record_cancel_requested env rid (r_task run) now db) (\<lambda>db1.
         if r_state run = Running
         then Inr ((), upd_run rid (\<lambda>_. True) (\<lambda>r. r\<lparr>r_cancel := True, r_updated := now\<rparr>) db1)
         else
           let pend = pending_interrupt run db1; db2 = cancel_run_row rid now db1 in
           ebind (if r_state run = Waiting
              then ebind (json_text env (vobj [(''reason'', VStr ''run_cancelled'')])) (\<lambda>reason.
                Inr (deny (\<lambda>i. i_run i = rid) reason now db2))
              else Inr db2) (\<lambda>db3.
           ebind (record_terminal env rid (r_task run) Cancelled TAG_EXECUTION_RUN_CANCELLED
              (r_version run) [] now db3) (\<lambda>db4.
              case pend of None \<Rightarrow> Inr ((), db4)
              | Some i \<Rightarrow> ebind (record_resolved env (i_id i) rid (i_kind i) Denied now db4)
                  (\<lambda>db5. Inr ((), db5))))))"

definition finish_cancelled_tx :: "env \<Rightarrow> string \<Rightarrow> string \<Rightarrow> rat \<Rightarrow> exec_db \<Rightarrow> exn + unit \<times> exec_db" where
  "finish_cancelled_tx env rid token now db =
     ebind (require_lease env rid token now db) (\<lambda>run.
       if \<not> r_cancel run then Inl ExecutionStateError
       else if count_run rid (\<lambda>r. r_token r = Some token) db \<noteq> 1 then Inl (raise_lease env rid db)
       else
         let db1 = upd_run rid (\<lambda>r. r_token r = Some token) (\<lambda>r. r\<lparr>r_state := Cancelled,
               r_token := None, r_expires := None, r_updated := now\<rparr>) db
         in ebind (the_run AssertionError env rid db1) (\<lambda>cancelled.
            ebind (record_terminal env rid (r_task cancelled) Cancelled TAG_EXECUTION_RUN_CANCELLED
                (r_version cancelled) [] now db1)
              (\<lambda>db2. Inr ((), db2))))"

text \<open>The part of \<open>cancel_task\<close> that stops the task's active run.\<close>

definition stop_active_run :: "env \<Rightarrow> string \<Rightarrow> string \<Rightarrow> rat \<Rightarrow> exec_db \<Rightarrow> exn + exec_db" where
  "stop_active_run env tid rid now db =
     ebind (the_run AssertionError env rid db) (\<lambda>active.
     ebind (record_cancel_requested env rid tid now db) (\<lambda>db1.
       if r_state active = Running
       then Inr (upd_run rid (\<lambda>r. r_state r = Running)
              (\<lambda>r. r\<lparr>r_cancel := True, r_updated := now\<rparr>) db1)
       else
         let pend = pending_interrupt active db1; db2 = cancel_run_row rid now db1 in
         ebind (case pend of None \<Rightarrow> Inr db2
           | Some i \<Rightarrow> ebind (json_text env (vobj [(''reason'', VStr ''task_cancelled'')])) (\<lambda>reason.
               record_resolved env (i_id i) rid (i_kind i) Denied now
                 (deny (\<lambda>j. i_id j = i_id i) reason now db2)))
           (\<lambda>db3. record_terminal env rid tid Cancelled TAG_EXECUTION_RUN_CANCELLED
              (r_version active) [] now db3)))"

definition cancel_task_tx :: "env \<Rightarrow> string \<Rightarrow> rat \<Rightarrow> exec_db \<Rightarrow> exn + unit \<times> exec_db" where
  "cancel_task_tx env tid now db = (case get_task tid db of
      None \<Rightarrow> Inl KeyError
    | Some t \<Rightarrow>
        if t_state t \<noteq> TOpen then Inl ExecutionStateError
        else ebind (case sql_first (\<lambda>r. r_task r = tid \<and> active_state (r_state r)) (d_runs db) of
             None \<Rightarrow> Inr db
           | Some r \<Rightarrow> stop_active_run env tid (r_id r) now db) (\<lambda>db1.
          if sql_count (\<lambda>t. t_id t = tid \<and> t_state t = TOpen) (d_tasks db1) \<noteq> 1
          then Inl ExecutionStateError
          else ebind (record_task_state env tid TCancelled TAG_EXECUTION_TASK_CANCELLED now
              (upd_task tid TOpen TCancelled now db1))
            (\<lambda>db2. Inr ((), db2))))"

end
