(* ===== verification/ExecutionShared.thy ===== *)
theory ExecutionShared
  imports ExecutionOps
begin

text \<open>
  The parts of the execution store shared by the runs of a session
  (\<open>lipas/execution.py\<close>): the durable agent event stream of a run and the coordination
  budgets that teams of workers reserve against.
\<close>

section \<open>Agent event stream\<close>

definition agent_event_id :: "env \<Rightarrow> string \<Rightarrow> string \<Rightarrow> string" where
  "agent_event_id env run_id identity =
     ''event_'' @ e_digest env (''agent-event'' @ [NUL] @ run_id @ [NUL] @ identity)"

definition agent_event_from_row :: "env \<Rightarrow> agent_event_row \<Rightarrow> exn + agent_event" where
  "agent_event_from_row env row = ebind (from_json env (er_data row)) (\<lambda>data. case data of
      VDict d \<Rightarrow> make_agent_event (er_type row) (er_run row) (er_sequence row) (er_iteration row)
        d (er_created row) (er_id row)
    | _ \<Rightarrow> Inl TypeError)"

definition last_sequence :: "string \<Rightarrow> exec_db \<Rightarrow> int" where
  "last_sequence rid db = fold max (map er_sequence (filter (\<lambda>e. er_run e = rid) (d_agent_events db))) 0"

definition find_agent_event :: "string \<Rightarrow> string \<Rightarrow> exec_db \<Rightarrow> agent_event_row option" where
  "find_agent_event rid identity db =
     sql_first (\<lambda>e. er_run e = rid \<and> er_identity e = identity) (d_agent_events db)"

text \<open>
  The transaction: an event recorded under the same identity is returned when it is the
  same event; otherwise the next sequence number of the run is taken.
\<close>

definition append_agent_event_tx ::
  "env \<Rightarrow> string \<Rightarrow> string \<Rightarrow> agent_event \<Rightarrow> exec_db \<Rightarrow> exn + agent_event option \<times> exec_db" where
  "append_agent_event_tx env rid identity cand db =
     ebind (the_run KeyError env rid db) (\<lambda>_.
       case find_agent_event rid identity db of
         Some row \<Rightarrow> ebind (agent_event_from_row env row) (\<lambda>existing.
           if ae_type existing \<noteq> ae_type cand \<or> ae_iteration existing \<noteq> ae_iteration cand
             \<or> \<not> py_eq (VDict (ae_data existing)) (VDict (ae_data cand))
           then Inl ExecutionStateError else Inr (Some existing, db))
       | None \<Rightarrow> ebind (mapping_json env (ae_data cand)) (\<lambda>data_json.
           if agent_event_id env rid identity \<in> er_id ` set (d_agent_events db) then Inl IntegrityError
           else Inr (None, db\<lparr>d_agent_events := d_agent_events db @
             [\<lparr>er_id = agent_event_id env rid identity, er_run = rid, er_identity = identity,
               er_sequence = last_sequence rid db + 1, er_type = ae_type cand,
               er_iteration = ae_iteration cand, er_data = data_json,
               er_created = e_clock env\<rparr>]\<rparr>)))"

definition agent_events :: "env \<Rightarrow> string \<Rightarrow> int \<Rightarrow> int option \<Rightarrow> exec_db \<Rightarrow> exn + agent_event list" where
  "agent_events env rid after lmt db =
     (if after < 0 \<or> MAX_SQLITE_INT < after then Inl ValueError
      else if (case lmt of None \<Rightarrow> False | Some n \<Rightarrow> n < 1 \<or> MAX_SQLITE_INT < n) then Inl ValueError
      else ebind (the_run KeyError env rid db) (\<lambda>_.
        let rows = sql_order (\<lambda>a b. er_sequence a \<le> er_sequence b)
              (filter (\<lambda>e. er_run e = rid \<and> after < er_sequence e) (d_agent_events db))
        in emap (agent_event_from_row env)
             (case lmt of None \<Rightarrow> rows | Some n \<Rightarrow> take (nat n) rows)))"

definition get_agent_event :: "env \<Rightarrow> string \<Rightarrow> string \<Rightarrow> exec_db \<Rightarrow> exn + agent_event option" where
  "get_agent_event env rid identity db =
     (if strip identity = [] then Inl ValueError
      else ebind (the_run KeyError env rid db) (\<lambda>_.
        case find_agent_event rid identity db of
          None \<Rightarrow> Inr None
        | Some row \<Rightarrow> ebind (agent_event_from_row env row) (\<lambda>e. Inr (Some e))))"

definition agent_event_cursor :: "env \<Rightarrow> string \<Rightarrow> exec_db \<Rightarrow> exn + int" where
  "agent_event_cursor env rid db = ebind (the_run KeyError env rid db) (\<lambda>_. Inr (last_sequence rid db))"

section \<open>Coordination budgets\<close>

definition find_budget :: "string \<Rightarrow> exec_db \<Rightarrow> budget_row option" where
  "find_budget scope db = sql_first (\<lambda>b. b_scope b = scope) (d_budgets db)"

definition configure_budget_tx :: "env \<Rightarrow> string \<Rightarrow> budgets \<Rightarrow> rat \<Rightarrow> exec_db \<Rightarrow> exn + unit \<times> exec_db" where
  "configure_budget_tx env scope limits now db = (case find_budget scope db of
      None \<Rightarrow> ebind (json_text env (budget_val limits)) (\<lambda>lj.
        ebind (json_text env (budget_val [])) (\<lambda>sj.
          Inr ((), db\<lparr>d_budgets := d_budgets db @
            [\<lparr>b_scope = scope, b_limits = lj, b_spent = sj, b_updated = now\<rparr>]\<rparr>)))
    | Some row \<Rightarrow> ebind (from_json env (b_limits row)) (\<lambda>existing.
        if \<not> py_eq existing (budget_val limits) then Inl ExecutionStateError else Inr ((), db)))"

text \<open>One bucket of an estimate: it must be declared and fit under its limit.\<close>

definition reserve_bucket :: "budgets \<Rightarrow> budgets \<Rightarrow> string \<times> rat \<Rightarrow> exn + budgets" where
  "reserve_bucket limits spend ba = (case map_of limits (fst ba) of
      None \<Rightarrow> Inl ExecutionStateError
    | Some lmt \<Rightarrow>
        let total' = f_add (dict_get 0 spend (fst ba)) (snd ba) in
        if Fin lmt < total' then Inl ExecutionStateError
        else (case total' of Fin r \<Rightarrow> Inr (dict_put (fst ba) r spend) | _ \<Rightarrow> Inl ValueError))"

text \<open>The flag says whether the reservation is new: a repeated one returns before mirroring.\<close>

definition reserve_budget_tx ::
  "env \<Rightarrow> string \<Rightarrow> string \<Rightarrow> budgets \<Rightarrow> rat \<Rightarrow> exec_db \<Rightarrow> exn + bool \<times> exec_db" where
  "reserve_budget_tx env scope handoff estimate now db = (case find_budget scope db of
      None \<Rightarrow> Inl ExecutionStateError
    | Some row \<Rightarrow>
       (case sql_first (\<lambda>a. ad_scope a = scope \<and> ad_handoff a = handoff) (d_admissions db) of
          Some prior \<Rightarrow> ebind (from_json env (ad_estimate prior)) (\<lambda>existing.
            if \<not> py_eq existing (budget_val estimate) then Inl ExecutionStateError else Inr (False, db))
        | None \<Rightarrow>
            ebind (ebind (from_json env (b_limits row)) budget_mapping) (\<lambda>limits.
            ebind (ebind (from_json env (b_spent row)) budget_mapping) (\<lambda>spend.
            ebind (efoldl (reserve_bucket limits) spend estimate) (\<lambda>spend'.
            ebind (json_text env (budget_val estimate)) (\<lambda>ej.
            ebind (json_text env (budget_val spend')) (\<lambda>sj.
            ebind (record_audit_event env (''coordination-budget:'' @ scope @ '':'' @ handoff)
                TAG_COORDINATION_BUDGET_RESERVED
                [(''scope'', VStr scope), (''handoff_id'', VStr handoff),
                 (''estimate'', budget_val estimate)] now
                (db\<lparr>d_admissions := d_admissions db @ [\<lparr>ad_scope = scope, ad_handoff = handoff,
                       ad_estimate = ej, ad_created = now\<rparr>],
                    d_budgets := sql_update (\<lambda>b. b_scope b = scope)
                       (\<lambda>b. b\<lparr>b_spent := sj, b_updated := now\<rparr>) (d_budgets db)\<rparr>))
              (\<lambda>db'. Inr (True, db')))))))))"

record budget_snapshot =
  sn_scope :: string
  sn_limits :: budgets
  sn_spent :: budgets
  sn_remaining :: "(string \<times> xfloat) list"
  sn_updated :: rat

definition budget_snapshot_of :: "env \<Rightarrow> string \<Rightarrow> exec_db \<Rightarrow> exn + budget_snapshot" where
  "budget_snapshot_of env scope db = ebind (non_empty_text scope) (\<lambda>sc.
     case find_budget sc db of
       None \<Rightarrow> Inl KeyError
     | Some row \<Rightarrow>
         ebind (ebind (from_json env (b_limits row)) budget_mapping) (\<lambda>limits.
         ebind (ebind (from_json env (b_spent row)) budget_mapping) (\<lambda>spend.
           Inr \<lparr>sn_scope = sc, sn_limits = limits,
             sn_spent = map (\<lambda>(b, l). (b, dict_get 0 spend b)) limits,
             sn_remaining = map (\<lambda>(b, l). (b, f_sub l (dict_get 0 spend b))) limits,
             sn_updated = b_updated row\<rparr>)))"

end
