(* ===== verification/ExecutionStore.thy ===== *)
theory ExecutionStore
  imports ExecutionShared
begin

text \<open>
  The public face of the execution store (\<open>lipas/execution.py\<close>): opening a database, the
  legacy audit seed, the mirroring of the audit outbox into a claim tape, and every public
  method as argument checks, one transaction, the read of its result and one bounded batch
  of mirroring.
\<close>

section \<open>State of an open store\<close>

record exec_store =
  es_db :: exec_db
  es_rowset :: "rowset option"
  es_audit_run_id :: "string option"
  es_cursor :: nat

text \<open>\<open>with self._transaction()\<close>: commit on success, roll back when the body raises.\<close>

definition transact :: "(exec_db \<Rightarrow> exn + 'a \<times> exec_db) \<Rightarrow> exec_store \<Rightarrow> (exn + 'a) \<times> exec_store" where
  "transact tx s = (case tx (es_db s) of
      Inl e \<Rightarrow> (Inl e, s)
    | Inr (x, db) \<Rightarrow> (Inr x, s\<lparr>es_db := db\<rparr>))"

definition reading :: "(exec_db \<Rightarrow> exn + 'a) \<Rightarrow> exec_store \<Rightarrow> (exn + 'a) \<times> exec_store" where
  "reading f s = (f (es_db s), s)"

text \<open>\<open>except sqlite3.IntegrityError\<close> around a transaction.\<close>

definition integrity_as_state :: "(exec_store \<Rightarrow> (exn + 'a) \<times> exec_store) \<Rightarrow> exec_store
    \<Rightarrow> (exn + 'a) \<times> exec_store" where
  "integrity_as_state m s = (case m s of
      (Inl e, s') \<Rightarrow> (Inl (if e = IntegrityError then ExecutionStateError else e), s')
    | (Inr x, s') \<Rightarrow> (Inr x, s'))"

section \<open>Legacy seed\<close>

definition seed_task :: "env \<Rightarrow> exec_db \<Rightarrow> task \<Rightarrow> exn + exec_db" where
  "seed_task env db t =
     ebind (record_audit_event env (''task:'' @ t_id t @ '':created'') TAG_EXECUTION_TASK_CREATED
        [(''task_id'', VStr (t_id t)), (''goal'', VStr (t_goal t)),
         (''workspace'', VStr (t_workspace t)), (''state'', VStr (task_state_value TOpen))]
        (t_created t) db) (\<lambda>db1.
       if t_state t = TOpen then Inr db1
       else record_task_state env (t_id t) (t_state t)
         (if t_state t = TCompleted then TAG_EXECUTION_TASK_COMPLETED
          else TAG_EXECUTION_TASK_CANCELLED) (t_updated t) db1)"

definition terminal_tag :: "run_state \<Rightarrow> string option" where
  "terminal_tag s = (case s of Completed \<Rightarrow> Some TAG_EXECUTION_RUN_COMPLETED
     | Failed \<Rightarrow> Some TAG_EXECUTION_RUN_FAILED
     | Cancelled \<Rightarrow> Some TAG_EXECUTION_RUN_CANCELLED | _ \<Rightarrow> None)"

definition seed_run :: "env \<Rightarrow> exec_db \<Rightarrow> run \<Rightarrow> exn + exec_db" where
  "seed_run env db r =
     ebind (record_audit_event env (''run:'' @ r_id r @ '':created'') TAG_EXECUTION_RUN_CREATED
        [(''run_id'', VStr (r_id r)), (''task_id'', VStr (r_task r)),
         (''state'', VStr (run_state_value Pending))] (r_created r) db) (\<lambda>db1.
     ebind (if r_attempt r = 0 then Inr db1
       else record_audit_event env (''run:'' @ r_id r @ '':claimed:'' @ str_int (int (r_attempt r)))
        TAG_EXECUTION_RUN_CLAIMED
        [(''run_id'', VStr (r_id r)), (''task_id'', VStr (r_task r)),
         (''attempt'', VInt (int (r_attempt r))), (''lease_expires'', json_time (r_expires r))]
        (r_updated r) db1) (\<lambda>db2.
     ebind (if r_cancel r then record_cancel_requested env (r_id r) (r_task r) (r_updated r) db2
       else Inr db2) (\<lambda>db3.
     case terminal_tag (r_state r) of None \<Rightarrow> Inr db3
     | Some tg \<Rightarrow> record_terminal env (r_id r) (r_task r) (r_state r) tg (r_version r) []
         (r_updated r) db3)))"

definition seed_checkpoint :: "env \<Rightarrow> exec_db \<Rightarrow> checkpoint \<Rightarrow> exn + exec_db" where
  "seed_checkpoint env db c = record_audit_event env
     (''run:'' @ c_run c @ '':checkpoint:'' @ str_int (c_version c)) TAG_EXECUTION_CHECKPOINT_SAVED
     [(''run_id'', VStr (c_run c)), (''version'', VInt (c_version c)), (''phase'', VStr (c_phase c))]
     (c_created c) db"

definition seed_interrupt :: "env \<Rightarrow> exec_db \<Rightarrow> interrupt \<Rightarrow> exn + exec_db" where
  "seed_interrupt env db i =
     ebind (record_audit_event env (''interrupt:'' @ i_id i @ '':requested'')
        TAG_EXECUTION_INTERRUPT_REQUESTED
        [(''interrupt_id'', VStr (i_id i)), (''run_id'', VStr (i_run i)), (''kind'', VStr (i_kind i)),
         (''state'', VStr (interrupt_state_value IPending))] (i_created i) db) (\<lambda>db1.
       if i_state i = IPending then Inr db1
       else record_resolved env (i_id i) (i_run i) (i_kind i) (i_state i)
         (case i_resolved i of None \<Rightarrow> i_created i | Some t \<Rightarrow> t) db1)"

definition checkpoint_order :: "checkpoint \<Rightarrow> checkpoint \<Rightarrow> bool" where
  "checkpoint_order a b \<longleftrightarrow> c_created a < c_created b \<or> (c_created a = c_created b \<and>
     (c_run a < c_run b \<or> (c_run a = c_run b \<and> c_version a \<le> c_version b)))"

definition seed_legacy_audit_events :: "env \<Rightarrow> exec_db \<Rightarrow> exn + exec_db" where
  "seed_legacy_audit_events env db =
     ebind (efoldl (seed_task env) db (sql_order (oldest_first t_created t_id) (d_tasks db))) (\<lambda>db1.
     ebind (efoldl (seed_run env) db1 (sql_order (oldest_first r_created r_id) (d_runs db))) (\<lambda>db2.
     ebind (efoldl (seed_checkpoint env) db2 (sql_order checkpoint_order (d_checkpoints db))) (\<lambda>db3.
     efoldl (seed_interrupt env) db3 (sql_order (oldest_first i_created i_id) (d_interrupts db)))))"

definition seed_legacy_audit_events_once :: "env \<Rightarrow> exec_db \<Rightarrow> exn + unit \<times> exec_db" where
  "seed_legacy_audit_events_once env db =
     (if d_seeded db then Inr ((), db)
      else ebind (seed_legacy_audit_events env db) (\<lambda>db'. Inr ((), db'\<lparr>d_seeded := True\<rparr>)))"

section \<open>Mirroring the outbox\<close>

definition event_fields :: "env \<Rightarrow> audit_event \<Rightarrow> exn + fieldmap" where
  "event_fields env e = ebind (from_json env (ev_fields e)) (\<lambda>v. case v of
      VDict d \<Rightarrow> (case str_keys d of Some fs \<Rightarrow> Inr fs | None \<Rightarrow> Inl TypeError)
    | _ \<Rightarrow> Inl TypeError)"

text \<open>
  \<open>repair_loop\<close> walks the selected events; it stops at the first one that raises, with
  the cursor on the last event it mirrored.
\<close>

fun repair_loop :: "env \<Rightarrow> nat \<Rightarrow> (nat \<times> audit_event) list \<Rightarrow> rowset \<Rightarrow> nat \<Rightarrow> nat
    \<Rightarrow> (exn + nat) \<times> rowset \<times> nat" where
  "repair_loop env n [] rs cursor repaired = (Inr repaired, rs, cursor)"
| "repair_loop env n ((rowid, e) # rest) rs cursor repaired =
     (case event_fields env e of
        Inl x \<Rightarrow> (Inl x, rs, cursor)
      | Inr fs \<Rightarrow>
         (case rowset_fold (e_merge_id env n) (mirror_claim ''execution.store'' e fs) rs of
            (Inl x, rs') \<Rightarrow> (Inl x, rs', cursor)
          | (Inr m, rs') \<Rightarrow> repair_loop env (Suc n) rest rs' rowid
              (if claim_known (ev_id e) rs then repaired else Suc repaired)))"

definition of_run :: "string option \<Rightarrow> audit_event \<Rightarrow> bool" where
  "of_run rid e \<longleftrightarrow> (case rid of None \<Rightarrow> True | Some r \<Rightarrow>
     (case ev_fields e of VDict d \<Rightarrow> map_of d (KStr ''run_id'') = Some (VStr r) | _ \<Rightarrow> False))"

definition outbox_after :: "nat \<Rightarrow> string option \<Rightarrow> exec_db \<Rightarrow> (nat \<times> audit_event) list" where
  "outbox_after cursor rid db = filter (\<lambda>(rowid, e). cursor < rowid \<and> of_run rid e)
     (zip [1..<Suc (length (d_audit db))] (d_audit db))"

definition repair_audit :: "env \<Rightarrow> int option \<Rightarrow> exec_store \<Rightarrow> (exn + nat) \<times> exec_store" where
  "repair_audit env batch s = (case es_rowset s of
      None \<Rightarrow> (Inr 0, s)
    | Some rs \<Rightarrow>
       if (case batch of None \<Rightarrow> False | Some n \<Rightarrow> n < 1 \<or> MAX_SQLITE_INT < n) then (Inl ValueError, s)
       else
         let found = outbox_after (es_cursor s) (es_audit_run_id s) (es_db s);
             events = (case batch of None \<Rightarrow> found | Some n \<Rightarrow> take (nat n) found)
         in if events = []
            then (Inr 0, if es_audit_run_id s = None then s
                else s\<lparr>es_cursor := max (es_cursor s) (length (d_audit (es_db s)))\<rparr>)
            else (case repair_loop env 0 events rs (es_cursor s) 0 of
                (res, rs', cursor) \<Rightarrow> (res, s\<lparr>es_rowset := Some rs', es_cursor := cursor\<rparr>)))"

definition repair_audit_batch :: "env \<Rightarrow> exec_store \<Rightarrow> (exn + nat) \<times> exec_store" where
  "repair_audit_batch env = repair_audit env (Some DEFAULT_AUDIT_REPAIR_BATCH_SIZE)"

text \<open>The last two steps of a method: read the result, mirror one batch.\<close>

definition finish :: "env \<Rightarrow> (exec_db \<Rightarrow> exn + 'a) \<Rightarrow> exec_store \<Rightarrow> (exn + 'a) \<times> exec_store" where
  "finish env f = sbind (reading f) (\<lambda>x. sbind (repair_audit_batch env) (\<lambda>_. sret x))"

section \<open>Opening a store\<close>

definition EXECUTION_SCHEMA_VERSION :: int where "EXECUTION_SCHEMA_VERSION = 1"

definition init_schema :: "exec_db \<Rightarrow> exn + exec_db" where
  "init_schema db =
     (let stamped = (case d_schema db of None \<Rightarrow> str_int EXECUTION_SCHEMA_VERSION | Some v \<Rightarrow> v) in
      case py_int_text stamped of
        None \<Rightarrow> Inl ExecutionSchemaVersionMismatch
      | Some v \<Rightarrow> if v \<noteq> EXECUTION_SCHEMA_VERSION then Inl ExecutionSchemaVersionMismatch
          else Inr (db\<lparr>d_schema := Some stamped\<rparr>))"

text \<open>The constructor: the open store or the exception, and the database it leaves behind.\<close>

definition open_store ::
  "env \<Rightarrow> exec_db \<Rightarrow> rowset option \<Rightarrow> string option \<Rightarrow> (exn + exec_store) \<times> exec_db" where
  "open_store env db rs audit_run_id =
     (if (case audit_run_id of None \<Rightarrow> False | Some r \<Rightarrow> strip r = []) then (Inl ValueError, db)
      else (case init_schema db of
          Inl e \<Rightarrow> (Inl e, db)
        | Inr db1 \<Rightarrow>
            let s = \<lparr>es_db = db1, es_rowset = rs, es_audit_run_id = audit_run_id, es_cursor = 0\<rparr> in
            (case sbind (transact (seed_legacy_audit_events_once env)) (\<lambda>_. repair_audit_batch env) s of
               (Inl e, s') \<Rightarrow> (Inl e, es_db s')
             | (Inr n, s') \<Rightarrow> (Inr s', es_db s'))))"

end
