(* ===== verification/ExecutionApi.thy ===== *)
theory ExecutionApi
  imports ExecutionStore
begin

text \<open>
  The public methods of \<open>ExecutionStore\<close> (\<open>lipas/execution.py\<close>): argument checks in the
  code's order, the transaction, the read of the result, one batch of audit mirroring.
  \<open>now\<close> is the value the caller passes (\<open>VNone\<close> reads the clock). A session is a list of
  calls, and \<open>exec_step\<close> runs one of them for its effect on the store.
\<close>

section \<open>Tasks and runs\<close>

text \<open>
  \<open>resolve_dir\<close> stands for \<open>Path(workspace).expanduser().resolve()\<close> followed by
  \<open>is_dir()\<close>: the resolved path of a directory, or \<open>None\<close>.
\<close>

definition create_task ::
  "env \<Rightarrow> (string \<Rightarrow> string option) \<Rightarrow> string \<Rightarrow> string \<Rightarrow> string option \<Rightarrow> exec_store
    \<Rightarrow> (exn + task) \<times> exec_store" where
  "create_task env resolve_dir goal workspace task_id =
     sbind (slift (non_empty_text goal)) (\<lambda>g.
     sbind (slift (case resolve_dir workspace of None \<Rightarrow> Inl ValueError | Some w \<Rightarrow> Inr w)) (\<lambda>ws.
     sbind (slift (case task_id of None \<Rightarrow> Inr (fresh_id env ''task'') | Some t \<Rightarrow> non_empty_text t)) (\<lambda>tid.
     sbind (integrity_as_state (transact (create_task_tx env g ws tid (e_clock env)))) (\<lambda>_.
     finish env (\<lambda>db. case get_task tid db of None \<Rightarrow> Inl AssertionError | Some t \<Rightarrow> Inr t)))))"

definition create_run :: "env \<Rightarrow> string \<Rightarrow> string option \<Rightarrow> exec_store \<Rightarrow> (exn + run) \<times> exec_store" where
  "create_run env task_id run_id =
     sbind (slift (non_empty_text task_id)) (\<lambda>tid.
     sbind (reading (\<lambda>db. case get_task tid db of None \<Rightarrow> Inl KeyError
       | Some t \<Rightarrow> if t_state t \<noteq> TOpen then Inl ExecutionStateError else Inr ())) (\<lambda>_.
     sbind (slift (case run_id of None \<Rightarrow> Inr (fresh_id env ''run'') | Some r \<Rightarrow> non_empty_text r)) (\<lambda>rid.
     sbind (integrity_as_state (transact (create_run_tx env tid rid (e_clock env)))) (\<lambda>_.
     finish env (the_run AssertionError env rid)))))"

definition claim_run :: "env \<Rightarrow> string \<Rightarrow> pyval \<Rightarrow> pyval \<Rightarrow> exec_store \<Rightarrow> (exn + run) \<times> exec_store" where
  "claim_run env rid lease_seconds now =
     sbind (slift (positive_duration lease_seconds)) (\<lambda>lease.
     sbind (slift (timestamp env now)) (\<lambda>t.
     sbind (transact (claim_tx env rid lease t)) (\<lambda>_.
     finish env (the_run AssertionError env rid))))"

definition renew_lease :: "env \<Rightarrow> string \<Rightarrow> string \<Rightarrow> pyval \<Rightarrow> pyval \<Rightarrow> exec_store
    \<Rightarrow> (exn + run) \<times> exec_store" where
  "renew_lease env rid token lease_seconds now =
     sbind (slift (positive_duration lease_seconds)) (\<lambda>lease.
     sbind (slift (non_empty_text token)) (\<lambda>_.
     sbind (slift (timestamp env now)) (\<lambda>t.
     sbind (transact (renew_tx env rid token lease t)) (\<lambda>_.
     finish env (the_run AssertionError env rid)))))"

section \<open>Checkpoints and interrupts\<close>

definition save_checkpoint ::
  "env \<Rightarrow> string \<Rightarrow> string \<Rightarrow> int \<Rightarrow> string \<Rightarrow> (pykey \<times> pyval) list \<Rightarrow> pyval \<Rightarrow> exec_store
    \<Rightarrow> (exn + checkpoint) \<times> exec_store" where
  "save_checkpoint env rid token expected phase st now =
     sbind (slift (guard_or ValueError (0 \<le> expected))) (\<lambda>_.
     sbind (slift (non_empty_text phase)) (\<lambda>ph.
     sbind (slift (mapping_json env st)) (\<lambda>state_json.
     sbind (slift (timestamp env now)) (\<lambda>t.
     sbind (transact (save_checkpoint_tx env rid token expected ph state_json t)) (\<lambda>_.
     finish env (\<lambda>db. ebind (get_checkpoint env rid (Some (expected + 1)) db)
       (\<lambda>c. case c of None \<Rightarrow> Inl AssertionError | Some cp \<Rightarrow> Inr cp)))))))"

definition suspend ::
  "env \<Rightarrow> string \<Rightarrow> string \<Rightarrow> int \<Rightarrow> string \<Rightarrow> (pykey \<times> pyval) list \<Rightarrow> string
    \<Rightarrow> (pykey \<times> pyval) list \<Rightarrow> string option \<Rightarrow> pyval \<Rightarrow> exec_store
    \<Rightarrow> (exn + interrupt) \<times> exec_store" where
  "suspend env rid token expected phase checkpoint_state knd request interrupt_id now =
     sbind (slift (guard_or ValueError (0 \<le> expected))) (\<lambda>_.
     sbind (slift (non_empty_text knd)) (\<lambda>kd.
     sbind (slift (non_empty_text phase)) (\<lambda>ph.
     sbind (slift (mapping_json env checkpoint_state)) (\<lambda>state_json.
     sbind (slift (mapping_json env request)) (\<lambda>request_json.
     sbind (slift (case interrupt_id of None \<Rightarrow> Inr (fresh_id env ''interrupt'')
       | Some i \<Rightarrow> non_empty_text i)) (\<lambda>iid.
     sbind (slift (timestamp env now)) (\<lambda>t.
     sbind (integrity_as_state (transact
       (suspend_tx env rid token expected ph state_json kd request_json iid t))) (\<lambda>_.
     finish env (the_interrupt AssertionError env iid)))))))))"

definition same_resolution :: "interrupt \<Rightarrow> bool \<Rightarrow> pyval \<Rightarrow> bool" where
  "same_resolution i allow response \<longleftrightarrow> i_state i = (if allow then Allowed else Denied)
     \<and> py_eq (case i_response i of None \<Rightarrow> VNone | Some v \<Rightarrow> v) response"

definition resolve_interrupt ::
  "env \<Rightarrow> string \<Rightarrow> bool \<Rightarrow> pyval \<Rightarrow> pyval \<Rightarrow> exec_store \<Rightarrow> (exn + interrupt) \<times> exec_store" where
  "resolve_interrupt env iid allow response now =
     sbind (slift (json_text env response)) (\<lambda>response_json.
     sbind (slift (timestamp env now)) (\<lambda>t.
     sbind (reading (the_interrupt KeyError env iid)) (\<lambda>existing.
       if i_state existing \<noteq> IPending
       then if same_resolution existing allow response
         then sbind (repair_audit_batch env) (\<lambda>_. sret existing)
         else slift (Inl ExecutionStateError)
       else sbind (transact (resolve_interrupt_tx env iid allow response_json t)) (\<lambda>_.
         finish env (the_interrupt AssertionError env iid)))))"

section \<open>Terminal transitions and cancellation\<close>

definition complete_run ::
  "env \<Rightarrow> string \<Rightarrow> string \<Rightarrow> pyval \<Rightarrow> pyval \<Rightarrow> exec_store \<Rightarrow> (exn + run) \<times> exec_store" where
  "complete_run env rid token result now =
     sbind (slift (json_result env result)) (\<lambda>result_json.
     sbind (slift (timestamp env now)) (\<lambda>t.
     sbind (transact (complete_run_tx env rid token result_json t)) (\<lambda>_.
     finish env (the_run AssertionError env rid))))"

definition fail_run ::
  "env \<Rightarrow> string \<Rightarrow> string \<Rightarrow> (pykey \<times> pyval) list \<Rightarrow> pyval \<Rightarrow> exec_store \<Rightarrow> (exn + run) \<times> exec_store" where
  "fail_run env rid token err now =
     sbind (slift (mapping_json env err)) (\<lambda>error_json.
     sbind (slift (timestamp env now)) (\<lambda>t.
     sbind (transact (fail_run_tx env rid token err error_json t)) (\<lambda>_.
     finish env (the_run AssertionError env rid))))"

definition evidence_ok :: "env \<Rightarrow> (pykey \<times> pyval) list option \<Rightarrow> exn + (pykey \<times> pyval) list" where
  "evidence_ok env evidence = (case evidence of
      None \<Rightarrow> Inl ValueError
    | Some ev \<Rightarrow> (case map_of ev (KStr ''observation'') of
          Some (VStr text) \<Rightarrow> if strip text = [] then Inl ValueError
            else (case mapping_json env ev of
                Inl e \<Rightarrow> Inl (if e = TypeError then ValueError else e)
              | Inr t \<Rightarrow> Inr ev)
        | _ \<Rightarrow> Inl ValueError))"

definition reopen_uncertain ::
  "env \<Rightarrow> string \<Rightarrow> (pykey \<times> pyval) list option \<Rightarrow> pyval \<Rightarrow> exec_store \<Rightarrow> (exn + run) \<times> exec_store" where
  "reopen_uncertain env rid evidence now =
     sbind (slift (evidence_ok env evidence)) (\<lambda>payload.
     sbind (slift (timestamp env now)) (\<lambda>t.
     sbind (reading (the_run KeyError env rid)) (\<lambda>cur.
       if \<not> reopenable cur then slift (Inl ExecutionStateError)
       else sbind (transact (reopen_tx env cur rid payload t)) (\<lambda>_.
         finish env (the_run AssertionError env rid)))))"

definition request_cancel :: "env \<Rightarrow> string \<Rightarrow> pyval \<Rightarrow> exec_store \<Rightarrow> (exn + run) \<times> exec_store" where
  "request_cancel env rid now =
     sbind (slift (timestamp env now)) (\<lambda>t.
     sbind (reading (the_run KeyError env rid)) (\<lambda>cur.
       if terminal (r_state cur) then sbind (repair_audit_batch env) (\<lambda>_. sret cur)
       else sbind (transact (request_cancel_tx env rid t)) (\<lambda>_.
         finish env (the_run AssertionError env rid))))"

definition finish_cancelled :: "env \<Rightarrow> string \<Rightarrow> string \<Rightarrow> pyval \<Rightarrow> exec_store \<Rightarrow> (exn + run) \<times> exec_store" where
  "finish_cancelled env rid token now =
     sbind (slift (timestamp env now)) (\<lambda>t.
     sbind (transact (finish_cancelled_tx env rid token t)) (\<lambda>_.
     finish env (the_run AssertionError env rid)))"

definition cancel_task :: "env \<Rightarrow> string \<Rightarrow> pyval \<Rightarrow> exec_store \<Rightarrow> (exn + task) \<times> exec_store" where
  "cancel_task env tid now =
     sbind (slift (timestamp env now)) (\<lambda>t.
     sbind (reading (\<lambda>db. case get_task tid db of None \<Rightarrow> Inl KeyError | Some x \<Rightarrow> Inr x)) (\<lambda>cur.
       if t_state cur = TCancelled then sbind (repair_audit_batch env) (\<lambda>_. sret cur)
       else if t_state cur = TCompleted then slift (Inl ExecutionStateError)
       else sbind (transact (cancel_task_tx env tid t)) (\<lambda>_.
         finish env (\<lambda>db. case get_task tid db of None \<Rightarrow> Inl AssertionError | Some x \<Rightarrow> Inr x))))"

section \<open>Events and budgets\<close>

text \<open>The candidate is validated with sequence 1 before the transaction opens.\<close>

definition append_agent_event ::
  "env \<Rightarrow> string \<Rightarrow> string \<Rightarrow> string \<Rightarrow> int \<Rightarrow> (pykey \<times> pyval) list option \<Rightarrow> exec_store
    \<Rightarrow> (exn + agent_event) \<times> exec_store" where
  "append_agent_event env run_id event_type identity iteration data =
     sbind (slift (non_empty_text identity)) (\<lambda>ident.
     sbind (slift (non_empty_text run_id)) (\<lambda>rid.
     sbind (slift (make_agent_event event_type rid 1 iteration
       (case data of None \<Rightarrow> [] | Some d \<Rightarrow> d) (e_clock env) (fresh_id env ''event''))) (\<lambda>cand.
     sbind (transact (append_agent_event_tx env rid ident cand)) (\<lambda>known.
       case known of
         Some existing \<Rightarrow> sret existing
       | None \<Rightarrow> sbind (reading (\<lambda>db. Inr (last_sequence rid db))) (\<lambda>sqn.
           slift (make_agent_event (ae_type cand) rid sqn (ae_iteration cand) (ae_data cand)
             (e_clock env) (agent_event_id env rid ident)))))))"

definition configure_coordination_budget ::
  "env \<Rightarrow> string \<Rightarrow> pyval \<Rightarrow> pyval \<Rightarrow> exec_store \<Rightarrow> (exn + budgets) \<times> exec_store" where
  "configure_coordination_budget env scope limits now =
     sbind (slift (budget_mapping limits)) (\<lambda>normalized.
     sbind (slift (non_empty_text scope)) (\<lambda>sc.
     sbind (slift (timestamp env now)) (\<lambda>t.
     sbind (transact (configure_budget_tx env sc normalized t)) (\<lambda>_. sret normalized))))"

definition reserve_coordination_budget ::
  "env \<Rightarrow> string \<Rightarrow> string \<Rightarrow> pyval \<Rightarrow> pyval \<Rightarrow> exec_store \<Rightarrow> (exn + budgets) \<times> exec_store" where
  "reserve_coordination_budget env scope handoff_id estimate now =
     sbind (slift (non_empty_text scope)) (\<lambda>sc.
     sbind (slift (non_empty_text handoff_id)) (\<lambda>hid.
     sbind (slift (budget_mapping estimate)) (\<lambda>normalized.
     sbind (slift (timestamp env now)) (\<lambda>t.
     sbind (transact (reserve_budget_tx env sc hid normalized t)) (\<lambda>fresh.
       if \<not> fresh then sret normalized
       else sbind (repair_audit_batch env) (\<lambda>_. sret normalized))))))"

section \<open>Sessions\<close>

text \<open>
  A call of a public method with its environment. The second call of the budget
  reservation, the event stream and the repair are calls like the others, so every
  sequence of method calls is a list of \<open>exec_call\<close> values.
\<close>

datatype exec_call =
    CreateTask "string \<Rightarrow> string option" string string "string option"
  | CreateRun string "string option"
  | ClaimRun string pyval pyval
  | RenewLease string string pyval pyval
  | SaveCheckpoint string string int string "(pykey \<times> pyval) list" pyval
  | Suspend string string int string "(pykey \<times> pyval) list" string "(pykey \<times> pyval) list"
      "string option" pyval
  | ResolveInterrupt string bool pyval pyval
  | CompleteRun string string pyval pyval
  | FailRun string string "(pykey \<times> pyval) list" pyval
  | ReopenUncertain string "(pykey \<times> pyval) list option" pyval
  | RequestCancel string pyval
  | FinishCancelled string string pyval
  | CancelTask string pyval
  | AppendAgentEvent string string string int "(pykey \<times> pyval) list option"
  | ConfigureBudget string pyval pyval
  | ReserveBudget string string pyval pyval
  | RepairAudit "int option"

fun exec_step :: "env \<Rightarrow> exec_call \<Rightarrow> exec_store \<Rightarrow> exec_store" where
  "exec_step env (CreateTask f g w t) s = snd (create_task env f g w t s)"
| "exec_step env (CreateRun t r) s = snd (create_run env t r s)"
| "exec_step env (ClaimRun r l n) s = snd (claim_run env r l n s)"
| "exec_step env (RenewLease r k l n) s = snd (renew_lease env r k l n s)"
| "exec_step env (SaveCheckpoint r k v p st n) s = snd (save_checkpoint env r k v p st n s)"
| "exec_step env (Suspend r k v p st kd rq i n) s = snd (suspend env r k v p st kd rq i n s)"
| "exec_step env (ResolveInterrupt i a rs n) s = snd (resolve_interrupt env i a rs n s)"
| "exec_step env (CompleteRun r k res n) s = snd (complete_run env r k res n s)"
| "exec_step env (FailRun r k err n) s = snd (fail_run env r k err n s)"
| "exec_step env (ReopenUncertain r ev n) s = snd (reopen_uncertain env r ev n s)"
| "exec_step env (RequestCancel r n) s = snd (request_cancel env r n s)"
| "exec_step env (FinishCancelled r k n) s = snd (finish_cancelled env r k n s)"
| "exec_step env (CancelTask t n) s = snd (cancel_task env t n s)"
| "exec_step env (AppendAgentEvent r ty i it d) s = snd (append_agent_event env r ty i it d s)"
| "exec_step env (ConfigureBudget sc l n) s = snd (configure_coordination_budget env sc l n s)"
| "exec_step env (ReserveBudget sc h es n) s = snd (reserve_coordination_budget env sc h es n s)"
| "exec_step env (RepairAudit n) s = snd (repair_audit env n s)"

definition exec_session :: "(env \<times> exec_call) list \<Rightarrow> exec_store \<Rightarrow> exec_store" where
  "exec_session calls s = foldl (\<lambda>s (env, c). exec_step env c s) s calls"

end
