(* ===== verification/ExecutionInv.thy ===== *)
theory ExecutionInv
  imports ExecutionApi
begin

text \<open>
  The invariant of the execution database and its preservation by every transaction of
  \<open>lipas/execution.py\<close>: keys, references, the lease, checkpoint and interrupt disciplines.
\<close>

section \<open>Frames\<close>

lemma record_audit_cases:
  assumes "record_audit_event env i tg fs at' db = Inr db'"
  shows "db' = db \<and> audit_claim_id env i \<in> ev_id ` set (d_audit db)
    \<or> (\<exists>text. db' = db\<lparr>d_audit := d_audit db @
          [\<lparr>ev_id = audit_claim_id env i, ev_tag = tg, ev_fields = text, ev_at = at'\<rparr>]\<rparr>
        \<and> audit_claim_id env i \<notin> ev_id ` set (d_audit db) \<and> json_text env (vobj fs) = Inr text)"
proof -
  from assms obtain body where t: "json_text env (vobj fs) = Inr body"
    by (auto simp: record_audit_event_def)
  show ?thesis
  proof (cases "sql_first (\<lambda>e. ev_id e = audit_claim_id env i) (d_audit db)")
    case None
    then have "audit_claim_id env i \<notin> ev_id ` set (d_audit db)" by (auto simp: sql_first_None)
    moreover have "db' = db\<lparr>d_audit := d_audit db @
        [\<lparr>ev_id = audit_claim_id env i, ev_tag = tg, ev_fields = body, ev_at = at'\<rparr>]\<rparr>"
      using assms t None by (simp add: record_audit_event_def)
    ultimately show ?thesis using t by blast
  next
    case (Some e)
    then have "e \<in> set (d_audit db)" "ev_id e = audit_claim_id env i"
      by (auto dest: sql_first_Some)
    moreover have "db' = db" using assms t Some by (simp add: record_audit_event_def split: if_splits)
    ultimately show ?thesis by (metis image_eqI)
  qed
qed

lemma record_frame:
  assumes "record_audit_event env i tg fs at' db = Inr db'"
  shows "\<exists>a. db' = db\<lparr>d_audit := a\<rparr>"
proof -
  have "db = db\<lparr>d_audit := d_audit db\<rparr>" by simp
  then show ?thesis using record_audit_cases [OF assms] by metis
qed

lemmas recorders = record_terminal_def record_resolved_def record_task_state_def
  record_cancel_requested_def

text \<open>A run as read and its row agree on every column but the decoded ones.\<close>

definition same_run :: "run \<Rightarrow> run \<Rightarrow> bool" where
  "same_run r row \<longleftrightarrow> r_id r = r_id row \<and> r_task r = r_task row \<and> r_state r = r_state row
     \<and> r_attempt r = r_attempt row \<and> r_version r = r_version row \<and> r_token r = r_token row
     \<and> r_expires r = r_expires row \<and> r_cancel r = r_cancel row"

lemma get_run_row:
  "get_run env rid db = Inr (Some r) \<Longrightarrow> \<exists>row \<in> set (d_runs db). r_id row = rid \<and> same_run r row"
  by (auto simp: get_run_def run_of_row_def same_run_def split: option.splits dest!: sql_first_Some)

lemma the_run_row:
  "the_run e env rid db = Inr r \<Longrightarrow> \<exists>row \<in> set (d_runs db). r_id row = rid \<and> same_run r row"
  by (auto simp: the_run_def split: option.splits dest: get_run_row)

lemma require_lease_row:
  assumes "require_lease env rid token now db = Inr r"
  shows "\<exists>row \<in> set (d_runs db). r_id row = rid \<and> same_run r row \<and> holds_lease token now row"
proof -
  from assms have run: "the_run KeyError env rid db = Inr r"
    and held: "r_state r = Running" "r_token r = Some token" "r_expires r \<noteq> None" "\<not> expired now r"
    by (auto simp: require_lease_def split: if_splits)
  from the_run_row [OF run] obtain row
    where row: "row \<in> set (d_runs db)" "r_id row = rid" "same_run r row" by blast
  with held have "holds_lease token now row"
    by (auto simp: holds_lease_def live_def expired_def same_run_def)
  with row show ?thesis by blast
qed

lemma the_interrupt_row:
  assumes "the_interrupt e env iid db = Inr i"
  shows "\<exists>row \<in> set (d_interrupts db). i_id row = strip iid \<and> i_id i = i_id row
    \<and> i_run i = i_run row \<and> i_kind i = i_kind row \<and> i_state i = i_state row"
proof -
  from assms obtain row where sel: "sql_first (\<lambda>i. i_id i = strip iid) (d_interrupts db) = Some row"
    and dec: "interrupt_of_row env row = Inr i"
    by (auto simp: the_interrupt_def get_interrupt_def non_empty_text_def
        split: option.splits if_splits)
  have "i_id i = i_id row" "i_run i = i_run row" "i_kind i = i_kind row" "i_state i = i_state row"
    using dec by (auto simp: interrupt_of_row_def)
  with sql_first_Some [OF sel] show ?thesis by blast
qed

lemma count_run_row: "count_run rid p db = Suc n \<Longrightarrow> \<exists>row \<in> set (d_runs db). r_id row = rid \<and> p row"
  using sql_count_pos [of "\<lambda>r. r_id r = rid \<and> p r" "d_runs db"] by (auto simp: count_run_def)

text \<open>With distinct keys an addressed update replaces one row.\<close>

lemma set_update_one:
  assumes "distinct (map key t)" and "r0 \<in> set t" and "key r0 = k" and "p r0"
  shows "set (sql_update (\<lambda>r. key r = k \<and> p r) f t) = insert (f r0) (set t - {r0})"
proof -
  have "(if key r = k \<and> p r then f r else r) = (if r = r0 then f r0 else r)" if "r \<in> set t" for r
  proof (cases "r = r0")
    case True
    then show ?thesis using assms(3,4) by simp
  next
    case False
    then have "key r \<noteq> k" using assms(1-3) that by (metis distinct_key_unique)
    then show ?thesis using False by simp
  qed
  then have "sql_update (\<lambda>r. key r = k \<and> p r) f t = map (\<lambda>r. if r = r0 then f r0 else r) t"
    unfolding sql_update_def by (intro map_cong refl)
  moreover have "(\<lambda>r. if r = r0 then f r0 else r) ` set t = insert (f r0) (set t - {r0})"
    using assms(2) by auto
  ultimately show ?thesis by simp
qed

section \<open>The invariant\<close>

definition run_ok :: "run \<Rightarrow> bool" where
  "run_ok r \<longleftrightarrow> 0 \<le> r_version r \<and> (r_token r = None \<longleftrightarrow> r_state r \<noteq> Running)
     \<and> (r_expires r = None \<longleftrightarrow> r_token r = None)"

definition one_active :: "run list \<Rightarrow> bool" where
  "one_active rs \<longleftrightarrow> (\<forall>r \<in> set rs. \<forall>q \<in> set rs. active_state (r_state r) \<longrightarrow> active_state (r_state q)
     \<longrightarrow> r_task r = r_task q \<longrightarrow> r_id r = r_id q)"

definition runs_ok :: "task list \<Rightarrow> run list \<Rightarrow> bool" where
  "runs_ok ts rs \<longleftrightarrow> distinct (map t_id ts) \<and> distinct (map r_id rs)
     \<and> (\<forall>r \<in> set rs. run_ok r \<and> r_task r \<in> t_id ` set ts) \<and> one_active rs"

definition versions :: "string \<Rightarrow> checkpoint list \<Rightarrow> int set" where
  "versions rid cs = c_version ` {c \<in> set cs. c_run c = rid}"

definition checkpoints_ok :: "run list \<Rightarrow> checkpoint list \<Rightarrow> bool" where
  "checkpoints_ok rs cs \<longleftrightarrow> distinct (map (\<lambda>c. (c_run c, c_version c)) cs)
     \<and> (\<forall>c \<in> set cs. c_run c \<in> r_id ` set rs)
     \<and> (\<forall>r \<in> set rs. versions (r_id r) cs = {1..r_version r})"

definition one_pending :: "interrupt list \<Rightarrow> bool" where
  "one_pending is \<longleftrightarrow> (\<forall>i \<in> set is. \<forall>j \<in> set is. i_state i = IPending \<longrightarrow> i_state j = IPending
     \<longrightarrow> i_run i = i_run j \<longrightarrow> i_id i = i_id j)"

definition interrupts_ok :: "run list \<Rightarrow> interrupt list \<Rightarrow> bool" where
  "interrupts_ok rs is \<longleftrightarrow> distinct (map i_id is)
     \<and> (\<forall>i \<in> set is. i_run i \<in> r_id ` set rs \<and> strip (i_id i) = i_id i)
     \<and> one_pending is
     \<and> (\<forall>r \<in> set rs. r_state r = Waiting
          \<longleftrightarrow> (\<exists>i \<in> set is. i_run i = r_id r \<and> i_state i = IPending))"

definition exec_inv :: "exec_db \<Rightarrow> bool" where
  "exec_inv db \<longleftrightarrow> runs_ok (d_tasks db) (d_runs db) \<and> checkpoints_ok (d_runs db) (d_checkpoints db)
     \<and> interrupts_ok (d_runs db) (d_interrupts db)"

lemma exec_inv_audit [simp]: "exec_inv (db\<lparr>d_audit := a\<rparr>) = exec_inv db"
  by (simp add: exec_inv_def)

lemma exec_inv_empty: "exec_inv empty_db"
  by (simp add: exec_inv_def empty_db_def runs_ok_def checkpoints_ok_def interrupts_ok_def
      one_active_def one_pending_def)

text \<open>
  One run changes: what has to hold of the new row \<open>r'\<close> in place of \<open>r0\<close> for each part of
  the invariant.
\<close>

definition swap_run :: "run list \<Rightarrow> run \<Rightarrow> run \<Rightarrow> run list \<Rightarrow> bool" where
  "swap_run rs r0 r' rs' \<longleftrightarrow> r0 \<in> set rs \<and> r_id r' = r_id r0 \<and> r_task r' = r_task r0
     \<and> map r_id rs' = map r_id rs \<and> set rs' = insert r' (set rs - {r0})"

lemma swap_run_update:
  assumes "distinct (map r_id rs)" and "r0 \<in> set rs" and "r_id r0 = rid" and "p r0"
    and "\<And>r. r_id (f r) = r_id r \<and> r_task (f r) = r_task r"
  shows "swap_run rs r0 (f r0) (sql_update (\<lambda>r. r_id r = rid \<and> p r) f rs)"
  using assms set_update_one [where key = r_id and f = f, OF assms(1-3), of p]
    map_key_sql_update [of r_id f]
  by (simp add: swap_run_def)

lemma swap_old: "swap_run rs r0 r' rs' \<Longrightarrow> r0 \<in> set rs"
  by (simp add: swap_run_def)

lemma swap_key: "swap_run rs r0 r' rs' \<Longrightarrow> r_id r' = r_id r0"
  by (simp add: swap_run_def)

lemma swap_task: "swap_run rs r0 r' rs' \<Longrightarrow> r_task r' = r_task r0"
  by (simp add: swap_run_def)

lemma swap_ids: "swap_run rs r0 r' rs' \<Longrightarrow> r_id ` set rs' = r_id ` set rs"
  unfolding swap_run_def by (metis set_map)

lemma swap_distinct: "swap_run rs r0 r' rs' \<Longrightarrow> distinct (map r_id rs') = distinct (map r_id rs)"
  by (simp add: swap_run_def)

lemma swap_cases:
  assumes "swap_run rs r0 r' rs'" and "r \<in> set rs'"
  obtains "r = r'" | "r \<in> set rs" "r \<noteq> r0"
  using assms by (auto simp: swap_run_def)

lemma runs_okD:
  assumes "runs_ok ts rs"
  shows "distinct (map t_id ts)" and "distinct (map r_id rs)"
    and "r \<in> set rs \<Longrightarrow> run_ok r" and "r \<in> set rs \<Longrightarrow> r_task r \<in> t_id ` set ts"
    and "r \<in> set rs \<Longrightarrow> q \<in> set rs \<Longrightarrow> active_state (r_state r) \<Longrightarrow> active_state (r_state q) \<Longrightarrow>
      r_task r = r_task q \<Longrightarrow> r_id r = r_id q"
  using assms unfolding runs_ok_def one_active_def by blast+

lemma runs_ok_swap:
  assumes ok: "runs_ok ts rs" and sw: "swap_run rs r0 r' rs'" and new: "run_ok r'"
    and act: "active_state (r_state r') \<Longrightarrow> active_state (r_state r0)
      \<or> (\<forall>q \<in> set rs. r_task q = r_task r0 \<longrightarrow> active_state (r_state q) \<longrightarrow> r_id q = r_id r0)"
  shows "runs_ok ts rs'"
proof -
  note old = runs_okD [OF ok]
  have each: "run_ok r \<and> r_task r \<in> t_id ` set ts" if "r \<in> set rs'" for r
    using sw that
  proof (cases rule: swap_cases)
    case 1
    then show ?thesis using new old(4) [OF swap_old [OF sw]] swap_task [OF sw] by simp
  next
    case 2
    then show ?thesis using old(3,4) by blast
  qed
  have mixed: "r_id q = r_id r'" if "q \<in> set rs" "active_state (r_state q)"
      "active_state (r_state r')" "r_task q = r_task r'" for q
    using act [OF that(3)] old(5) [OF that(1) swap_old [OF sw] that(2)] that swap_key [OF sw]
      swap_task [OF sw] by auto
  have one: "r_id r = r_id q"
    if "r \<in> set rs'" "q \<in> set rs'" and a: "active_state (r_state r)" "active_state (r_state q)"
      "r_task r = r_task q" for r q
    using sw that(1)
  proof (cases rule: swap_cases)
    case 1
    from sw that(2) show ?thesis
    proof (cases rule: swap_cases)
      case 1 with \<open>r = r'\<close> show ?thesis by simp
    next
      case 2 with \<open>r = r'\<close> a mixed [of q] show ?thesis by simp
    qed
  next
    case r: 2
    from sw that(2) show ?thesis
    proof (cases rule: swap_cases)
      case 1 with r a mixed [of r] show ?thesis by simp
    next
      case 2 with r a old(5) [of r q] show ?thesis by simp
    qed
  qed
  show ?thesis
    unfolding runs_ok_def one_active_def swap_distinct [OF sw] using old(1,2) each one by blast
qed

lemma checkpoints_okD:
  assumes "checkpoints_ok rs cs"
  shows "distinct (map (\<lambda>c. (c_run c, c_version c)) cs)"
    and "c \<in> set cs \<Longrightarrow> c_run c \<in> r_id ` set rs"
    and "r \<in> set rs \<Longrightarrow> versions (r_id r) cs = {1..r_version r}"
  using assms unfolding checkpoints_ok_def by blast+

lemma checkpoints_ok_swap:
  assumes ok: "checkpoints_ok rs cs" and sw: "swap_run rs r0 r' rs'"
    and v: "r_version r' = r_version r0"
  shows "checkpoints_ok rs' cs"
proof -
  have "versions (r_id r) cs = {1..r_version r}" if "r \<in> set rs'" for r
    using sw that
  proof (cases rule: swap_cases)
    case 1
    then show ?thesis
      using checkpoints_okD(3) [OF ok swap_old [OF sw]] swap_key [OF sw] v by simp
  next
    case 2
    then show ?thesis using checkpoints_okD(3) [OF ok] by blast
  qed
  then show ?thesis
    unfolding checkpoints_ok_def swap_ids [OF sw] using checkpoints_okD(1,2) [OF ok] by blast
qed

lemma versions_snoc: "versions rid (cs @ [c]) =
    (if c_run c = rid then insert (c_version c) (versions rid cs) else versions rid cs)"
  by (auto simp: versions_def)

lemma checkpoints_ok_save:
  assumes ok: "checkpoints_ok rs cs" and sw: "swap_run rs r0 r' rs'"
    and d: "distinct (map r_id rs)" and v: "r_version r' = r_version r0 + 1" "0 \<le> r_version r0"
    and c: "c_run c = r_id r0" "c_version c = r_version r0 + 1"
  shows "checkpoints_ok rs' (cs @ [c])"
proof -
  have vs: "\<And>r. r \<in> set rs \<Longrightarrow> versions (r_id r) cs = {1..r_version r}"
    using ok by (simp add: checkpoints_ok_def)
  have r0: "r0 \<in> set rs" using sw by (simp add: swap_run_def)
  have new: "(c_run c, c_version c) \<notin> (\<lambda>c. (c_run c, c_version c)) ` set cs"
  proof
    assume "(c_run c, c_version c) \<in> (\<lambda>c. (c_run c, c_version c)) ` set cs"
    then have "r_version r0 + 1 \<in> versions (r_id r0) cs" using c by (auto simp: versions_def)
    with vs [OF r0] show False by simp
  qed
  have ext: "insert (r_version r0 + 1) {1..r_version r0} = {1..r_version r0 + 1}"
    using v(2) by auto
  have other: "r_id r \<noteq> r_id r0" if "r \<in> set rs" "r \<noteq> r0" for r
    using d r0 that by (metis distinct_key_unique)
  have each: "versions (r_id r) (cs @ [c]) = {1..r_version r}" if "r \<in> set rs'" for r
    using sw that
  proof (cases rule: swap_cases)
    case 1
    with swap_key [OF sw] have "r_id r = r_id r0" by simp
    with 1 show ?thesis using vs [OF r0] c v(1) ext by (simp add: versions_snoc)
  next
    case 2
    with other [OF 2] vs [OF 2(1)] c(1) show ?thesis by (simp add: versions_snoc)
  qed
  have "c_run x \<in> r_id ` set rs'" if "x \<in> set (cs @ [c])" for x
    unfolding swap_ids [OF sw] using checkpoints_okD(2) [OF ok, of x] r0 c(1) that by auto
  moreover have "distinct (map (\<lambda>c. (c_run c, c_version c)) (cs @ [c]))"
    using checkpoints_okD(1) [OF ok] new by simp
  ultimately show ?thesis using each by (simp only: checkpoints_ok_def) blast
qed

lemma interrupts_okD:
  assumes "interrupts_ok rs is"
  shows "distinct (map i_id is)"
    and "i \<in> set is \<Longrightarrow> i_run i \<in> r_id ` set rs \<and> strip (i_id i) = i_id i"
    and "i \<in> set is \<Longrightarrow> j \<in> set is \<Longrightarrow> i_state i = IPending \<Longrightarrow> i_state j = IPending \<Longrightarrow>
      i_run i = i_run j \<Longrightarrow> i_id i = i_id j"
    and "r \<in> set rs \<Longrightarrow>
      r_state r = Waiting \<longleftrightarrow> (\<exists>i \<in> set is. i_run i = r_id r \<and> i_state i = IPending)"
  using assms unfolding interrupts_ok_def one_pending_def by blast+

lemma interrupts_ok_swap:
  assumes "interrupts_ok rs is" and "swap_run rs r0 r' rs'"
    and "(r_state r' = Waiting) = (r_state r0 = Waiting)"
  shows "interrupts_ok rs' is"
proof -
  note ok = interrupts_okD [OF assms(1)] and sw = assms(2)
  have "r_state r = Waiting \<longleftrightarrow> (\<exists>i \<in> set is. i_run i = r_id r \<and> i_state i = IPending)"
    if "r \<in> set rs'" for r
    using sw that
  proof (cases rule: swap_cases)
    case 1
    then show ?thesis using ok(4) [OF swap_old [OF sw]] assms(3) swap_key [OF sw] by simp
  next
    case 2
    then show ?thesis using ok(4) by blast
  qed
  then show ?thesis unfolding interrupts_ok_def one_pending_def swap_ids [OF sw] using ok(1-3) by blast
qed

lemma interrupts_ok_suspend:
  assumes ok: "interrupts_ok rs is" and sw: "swap_run rs r0 r' rs'" and d: "distinct (map r_id rs)"
    and i: "i_run i = r_id r0" "i_state i = IPending" "strip (i_id i) = i_id i" "i_id i \<notin> i_id ` set is"
    and none: "\<not> (\<exists>j \<in> set is. i_run j = r_id r0 \<and> i_state j = IPending)"
    and w: "r_state r' = Waiting"
  shows "interrupts_ok rs' (is @ [i])"
proof -
  note old = interrupts_okD [OF ok]
  have refs: "i_run j \<in> r_id ` set rs' \<and> strip (i_id j) = i_id j" if "j \<in> set (is @ [i])" for j
    unfolding swap_ids [OF sw] using that old(2) i(1,3) swap_old [OF sw] by auto
  have one: "i_id j = i_id k" if "j \<in> set (is @ [i])" "k \<in> set (is @ [i])" "i_state j = IPending"
      "i_state k = IPending" "i_run j = i_run k" for j k
    using that old(3) [of j k] i(1) none by auto
  have wait: "r_state r = Waiting \<longleftrightarrow> (\<exists>j \<in> set (is @ [i]). i_run j = r_id r \<and> i_state j = IPending)"
    if "r \<in> set rs'" for r
    using sw that
  proof (cases rule: swap_cases)
    case 1
    with w i(1,2) swap_key [OF sw] show ?thesis by auto
  next
    case 2
    then have "r_id r \<noteq> r_id r0" using d swap_old [OF sw] by (metis distinct_key_unique)
    with old(4) [OF 2(1)] i(1) show ?thesis by auto
  qed
  have "distinct (map i_id (is @ [i]))" using old(1) i(4) by simp
  then show ?thesis unfolding interrupts_ok_def one_pending_def using refs one wait by blast
qed

text \<open>The pending interrupt of a waiting run is settled and the run leaves the waiting state.\<close>

lemma interrupts_ok_settle:
  assumes ok: "interrupts_ok rs is" and sw: "swap_run rs r0 r' rs'" and d: "distinct (map r_id rs)"
    and st: "r_state r' \<noteq> Waiting"
    and p: "\<And>i. i \<in> set is \<Longrightarrow> i_state i = IPending \<Longrightarrow> p i \<longleftrightarrow> i_run i = r_id r0"
    and f: "\<And>i. i_id (f i) = i_id i \<and> i_run (f i) = i_run i \<and> i_state (f i) \<noteq> IPending"
  shows "interrupts_ok rs' (sql_update (\<lambda>i. p i \<and> i_state i = IPending) f is)"
proof -
  let ?is = "sql_update (\<lambda>i. p i \<and> i_state i = IPending) f is"
  note old = interrupts_okD [OF ok]
  have ids: "map i_id ?is = map i_id is" by (rule map_key_sql_update) (simp add: f)
  have pend: "i \<in> set is \<and> i_run i \<noteq> r_id r0" if "i \<in> set ?is" "i_state i = IPending" for i
  proof -
    obtain i0 where i0: "i0 \<in> set is" "i = (if p i0 \<and> i_state i0 = IPending then f i0 else i0)"
      using \<open>i \<in> set ?is\<close> by (auto simp: in_sql_update)
    with f [of i0] that(2) have "i = i0" "\<not> p i0" by (auto split: if_splits)
    with i0(1) p [of i0] that(2) show ?thesis by blast
  qed
  have kept: "i \<in> set ?is" if "i \<in> set is" "i_state i = IPending" "i_run i \<noteq> r_id r0" for i
    using that p by (auto simp: in_sql_update)
  have refs: "i_run i \<in> r_id ` set rs' \<and> strip (i_id i) = i_id i" if "i \<in> set ?is" for i
    unfolding swap_ids [OF sw] using that old(2) f by (auto simp: in_sql_update split: if_splits)
  have one: "i_id i = i_id j" if "i \<in> set ?is" "j \<in> set ?is" "i_state i = IPending"
      "i_state j = IPending" "i_run i = i_run j" for i j
    using that pend old(3) by blast
  have wait: "r_state r = Waiting \<longleftrightarrow> (\<exists>i \<in> set ?is. i_run i = r_id r \<and> i_state i = IPending)"
    if "r \<in> set rs'" for r
    using sw that
  proof (cases rule: swap_cases)
    case 1
    then show ?thesis using st pend swap_key [OF sw] by metis
  next
    case 2
    then have "r_id r \<noteq> r_id r0" using d swap_old [OF sw] by (metis distinct_key_unique)
    with old(4) [OF 2(1)] pend kept show ?thesis by metis
  qed
  show ?thesis unfolding interrupts_ok_def one_pending_def ids using old(1) refs one wait by blast
qed

section \<open>Assembling the invariant\<close>

lemma exec_invD:
  assumes "exec_inv db"
  shows "runs_ok (d_tasks db) (d_runs db)" and "checkpoints_ok (d_runs db) (d_checkpoints db)"
    and "interrupts_ok (d_runs db) (d_interrupts db)"
    and "distinct (map t_id (d_tasks db))" and "distinct (map r_id (d_runs db))"
    and "distinct (map i_id (d_interrupts db))"
proof -
  show r: "runs_ok (d_tasks db) (d_runs db)" and "checkpoints_ok (d_runs db) (d_checkpoints db)"
    and i: "interrupts_ok (d_runs db) (d_interrupts db)"
    using assms unfolding exec_inv_def by blast+
  show "distinct (map t_id (d_tasks db))" "distinct (map r_id (d_runs db))"
    using runs_okD(1,2) [OF r] .
  show "distinct (map i_id (d_interrupts db))" using interrupts_okD(1) [OF i] .
qed

lemma exec_inv_swap:
  assumes inv: "exec_inv db" and sw: "swap_run (d_runs db) r0 r' rs'" and "run_ok r'"
    and "active_state (r_state r') \<Longrightarrow> active_state (r_state r0)
      \<or> (\<forall>q \<in> set (d_runs db). r_task q = r_task r0 \<longrightarrow> active_state (r_state q) \<longrightarrow> r_id q = r_id r0)"
    and "r_version r' = r_version r0" and "(r_state r' = Waiting) = (r_state r0 = Waiting)"
  shows "exec_inv (db\<lparr>d_runs := rs'\<rparr>)"
  using runs_ok_swap [OF exec_invD(1) [OF inv] sw assms(3,4)]
    checkpoints_ok_swap [OF exec_invD(2) [OF inv] sw assms(5)]
    interrupts_ok_swap [OF exec_invD(3) [OF inv] sw assms(6)]
  by (simp add: exec_inv_def)

lemma runs_ok_tasks: "map t_id ts' = map t_id ts \<Longrightarrow> runs_ok ts' rs = runs_ok ts rs"
proof -
  assume m: "map t_id ts' = map t_id ts"
  then have "t_id ` set ts' = t_id ` set ts" by (metis set_map)
  with m show ?thesis unfolding runs_ok_def by presburger
qed

lemma exec_inv_upd_task [simp]: "exec_inv (upd_task tid a b now db) = exec_inv db"
proof -
  have "map t_id (d_tasks (upd_task tid a b now db)) = map t_id (d_tasks db)"
    by (simp add: upd_task_def map_key_sql_update)
  from runs_ok_tasks [OF this] show ?thesis by (simp add: exec_inv_def upd_task_def)
qed

lemma run_ok_row: "exec_inv db \<Longrightarrow> r \<in> set (d_runs db) \<Longrightarrow> run_ok r"
  using runs_okD(3) exec_invD(1) by blast

lemma upd_run_swap:
  assumes "exec_inv db" and "r0 \<in> set (d_runs db)" and "r_id r0 = rid" and "p r0"
    and "\<And>r. r_id (f r) = r_id r \<and> r_task (f r) = r_task r"
  shows "swap_run (d_runs db) r0 (f r0) (d_runs (upd_run rid p f db))"
  using swap_run_update [of "d_runs db" r0 rid p f] assms exec_invD(5) by (simp add: upd_run_def)

end
