(* ===== verification/ExecutionSafe.thy ===== *)
theory ExecutionSafe
  imports ExecutionInv
begin

text \<open>
  What each transaction of \<open>lipas/execution.py\<close> does to the tables when it commits, and
  that it keeps the invariant \<open>exec_inv\<close>.
\<close>

section \<open>Tasks and runs\<close>

lemma create_task_ok:
  assumes "create_task_tx env goal ws tid now db = Inr (t, db')"
  shows "\<exists>a. tid \<notin> t_id ` set (d_tasks db) \<and> t_id t = tid \<and> t_state t = TOpen
    \<and> db' = db\<lparr>d_tasks := d_tasks db @ [t], d_audit := a\<rparr>"
  using assms by (auto simp: create_task_tx_def Let_def split: if_splits dest!: record_frame)

lemma create_task_inv:
  assumes inv: "exec_inv db" and tx: "create_task_tx env goal ws tid now db = Inr (t, db')"
  shows "exec_inv db'"
proof -
  from create_task_ok [OF tx] obtain a where new: "tid \<notin> t_id ` set (d_tasks db)" "t_id t = tid"
    and db': "db' = db\<lparr>d_tasks := d_tasks db @ [t], d_audit := a\<rparr>" by blast
  have "runs_ok (d_tasks db @ [t]) (d_runs db)"
    using exec_invD(1) [OF inv] new unfolding runs_ok_def by auto
  then show ?thesis using inv by (simp add: db' exec_inv_def)
qed

lemma create_run_ok:
  assumes "create_run_tx env tid rid now db = Inr (r, db')"
  shows "\<exists>a t. t \<in> set (d_tasks db) \<and> t_id t = tid \<and> t_state t = TOpen \<and> r = new_run rid tid now
    \<and> rid \<notin> r_id ` set (d_runs db)
    \<and> (\<forall>q \<in> set (d_runs db). r_task q = tid \<longrightarrow> \<not> active_state (r_state q))
    \<and> db' = db\<lparr>d_runs := d_runs db @ [r], d_audit := a\<rparr>"
proof -
  from assms obtain t where t: "get_task tid db = Some t" "t_state t = TOpen"
    and fresh: "rid \<notin> r_id ` set (d_runs db)"
      "\<forall>q \<in> set (d_runs db). r_task q = tid \<longrightarrow> \<not> active_state (r_state q)"
    and r: "r = new_run rid tid now"
    and a: "\<exists>a. db' = db\<lparr>d_runs := d_runs db @ [r], d_audit := a\<rparr>"
    by (auto simp: create_run_tx_def split: option.splits if_splits dest!: record_frame)
  from t(1) have "t \<in> set (d_tasks db)" "t_id t = tid" by (auto simp: get_task_def dest: sql_first_Some)
  with t(2) fresh r a show ?thesis by blast
qed

lemma new_run_sel [simp]: "r_id (new_run rid tid now) = rid" "r_task (new_run rid tid now) = tid"
    "r_state (new_run rid tid now) = Pending" "r_version (new_run rid tid now) = 0"
    "r_token (new_run rid tid now) = None" "r_expires (new_run rid tid now) = None"
    "r_cancel (new_run rid tid now) = False"
  by (simp_all add: new_run_def)

lemma one_active_snoc:
  assumes "one_active rs" and "\<forall>q \<in> set rs. r_task q = r_task r \<longrightarrow> \<not> active_state (r_state q)"
  shows "one_active (rs @ [r])"
  unfolding one_active_def
proof (intro ballI impI)
  fix x y assume xy: "x \<in> set (rs @ [r])" "y \<in> set (rs @ [r])" "active_state (r_state x)"
    "active_state (r_state y)" "r_task x = r_task y"
  then consider "x \<in> set rs" "y \<in> set rs" | "x = r" "y = r" | "x \<in> set rs" "y = r" | "x = r" "y \<in> set rs"
    by auto
  then show "r_id x = r_id y"
  proof cases
    case 1
    then show ?thesis using assms(1) xy unfolding one_active_def by blast
  next
    case 2
    then show ?thesis by simp
  next
    case 3
    then show ?thesis using assms(2) xy by simp
  next
    case 4
    then show ?thesis using assms(2) xy by simp
  qed
qed

lemma create_run_inv:
  assumes inv: "exec_inv db" and tx: "create_run_tx env tid rid now db = Inr (r, db')"
  shows "exec_inv db'"
proof -
  from create_run_ok [OF tx] obtain a t where t: "t \<in> set (d_tasks db)" "t_id t = tid"
    and r: "r = new_run rid tid now" and new: "rid \<notin> r_id ` set (d_runs db)"
    and quiet: "\<forall>q \<in> set (d_runs db). r_task q = tid \<longrightarrow> \<not> active_state (r_state q)"
    and db': "db' = db\<lparr>d_runs := d_runs db @ [r], d_audit := a\<rparr>" by blast
  note ro = runs_okD [OF exec_invD(1) [OF inv]]
  have "run_ok r" by (simp add: r run_ok_def)
  moreover have "one_active (d_runs db @ [r])"
    by (rule one_active_snoc) (use exec_invD(1) [OF inv] quiet r in \<open>auto simp: runs_ok_def\<close>)
  moreover have "r_task r \<in> t_id ` set (d_tasks db)" using t r by auto
  ultimately have 1: "runs_ok (d_tasks db) (d_runs db @ [r])"
    unfolding runs_ok_def using ro(1-4) new r by simp
  have none: "versions rid (d_checkpoints db) = {}"
    using checkpoints_okD(2) [OF exec_invD(2) [OF inv]] new by (auto simp: versions_def)
  have 2: "checkpoints_ok (d_runs db @ [r]) (d_checkpoints db)"
    using exec_invD(2) [OF inv] none r by (auto simp: checkpoints_ok_def)
  have 3: "interrupts_ok (d_runs db @ [r]) (d_interrupts db)"
    using exec_invD(3) [OF inv] new r by (auto simp: interrupts_ok_def)
  show ?thesis using 1 2 3 by (simp add: db' exec_inv_def)
qed

section \<open>Leases\<close>

lemma claim_ok:
  assumes "claim_tx env rid lease now db = Inr (r, db')"
  shows "\<exists>a r0. r0 \<in> set (d_runs db) \<and> r_id r0 = rid \<and> can_claim now r0
    \<and> db' = (upd_run rid (can_claim now) (\<lambda>r. r\<lparr>r_state := Running, r_attempt := r_attempt r + 1,
          r_token := Some (fresh_id env ''lease''), r_expires := Some (f_add now lease),
          r_updated := now\<rparr>) db)\<lparr>d_audit := a\<rparr>"
proof -
  from assms have "count_run rid (can_claim now) db = Suc 0"
    by (auto simp: claim_tx_def Let_def split: if_splits)
  from count_run_row [OF this] assms show ?thesis
    by (auto simp: claim_tx_def Let_def split: if_splits dest!: record_frame)
qed

lemma can_claim_active: "can_claim now r \<Longrightarrow> active_state (r_state r) \<and> r_state r \<noteq> Waiting"
  by (auto simp: can_claim_def active_state_def)

lemma claim_inv:
  assumes inv: "exec_inv db" and tx: "claim_tx env rid lease now db = Inr (r, db')"
  shows "exec_inv db'"
proof -
  let ?f = "\<lambda>r. r\<lparr>r_state := Running, r_attempt := r_attempt r + 1,
          r_token := Some (fresh_id env ''lease''), r_expires := Some (f_add now lease),
          r_updated := now\<rparr>"
  from claim_ok [OF tx] obtain a r0 where r0: "r0 \<in> set (d_runs db)" "r_id r0 = rid" "can_claim now r0"
    and db': "db' = (upd_run rid (can_claim now) ?f db)\<lparr>d_audit := a\<rparr>" by blast
  have "swap_run (d_runs db) r0 (?f r0) (d_runs (upd_run rid (can_claim now) ?f db))"
    by (rule upd_run_swap [where f = ?f, OF inv r0(1,2)]) (simp_all add: r0)
  from exec_inv_swap [OF inv this] show ?thesis
    using run_ok_row [OF inv r0(1)] can_claim_active [OF r0(3)]
    by (simp add: db' upd_run_def run_ok_def)
qed

lemma count_run_first: "count_run rid p db = 1 \<Longrightarrow> \<exists>row \<in> set (d_runs db). r_id row = rid \<and> p row"
  using count_run_row [of rid p db 0] by simp

lemma renew_ok:
  assumes "renew_tx env rid token lease now db = Inr (r, db')"
  shows "\<exists>a r0. r0 \<in> set (d_runs db) \<and> r_id r0 = rid \<and> holds_lease token now r0
    \<and> db' = (upd_run rid (holds_lease token now) (\<lambda>r. r\<lparr>r_expires := Some (f_add now lease),
          r_updated := now\<rparr>) db)\<lparr>d_audit := a\<rparr>"
proof -
  from assms have "count_run rid (holds_lease token now) db = 1"
    by (simp add: renew_tx_def split: if_splits)
  from count_run_first [OF this] assms show ?thesis
    by (auto simp: renew_tx_def Let_def split: if_splits dest!: record_frame)
qed

lemma holds_leaseD: "holds_lease token now r \<Longrightarrow> r_state r = Running" "holds_lease token now r \<Longrightarrow> r_token r = Some token"
  "holds_lease token now r \<Longrightarrow> owned token r"
  by (auto simp: holds_lease_def owned_def)

lemma renew_inv:
  assumes inv: "exec_inv db" and tx: "renew_tx env rid token lease now db = Inr (r, db')"
  shows "exec_inv db'"
proof -
  let ?f = "\<lambda>r. r\<lparr>r_expires := Some (f_add now lease), r_updated := now\<rparr>"
  from renew_ok [OF tx] obtain a r0 where r0: "r0 \<in> set (d_runs db)" "r_id r0 = rid" "holds_lease token now r0"
    and db': "db' = (upd_run rid (holds_lease token now) ?f db)\<lparr>d_audit := a\<rparr>" by blast
  have "swap_run (d_runs db) r0 (?f r0) (d_runs (upd_run rid (holds_lease token now) ?f db))"
    by (rule upd_run_swap [where f = ?f, OF inv r0(1,2)]) (simp_all add: r0)
  from exec_inv_swap [OF inv this] show ?thesis
    using run_ok_row [OF inv r0(1)] holds_leaseD [OF r0(3)]
    by (simp add: db' upd_run_def run_ok_def)
qed

section \<open>Checkpoints and interrupts\<close>

definition new_checkpoint :: "string \<Rightarrow> int \<Rightarrow> string \<Rightarrow> pyval \<Rightarrow> rat \<Rightarrow> checkpoint" where
  "new_checkpoint rid v phase st now =
     \<lparr>c_run = rid, c_version = v, c_phase = phase, c_state = st, c_created = now\<rparr>"

lemma insert_checkpoint_ok:
  "insert_checkpoint rid v phase st now db = Inr db' \<Longrightarrow>
    db' = db\<lparr>d_checkpoints := d_checkpoints db @ [new_checkpoint rid v phase st now]\<rparr>"
  by (simp add: insert_checkpoint_def new_checkpoint_def split: if_splits)

lemma count_run_tables [simp]:
  "count_run rid p (db\<lparr>d_checkpoints := c\<rparr>) = count_run rid p db"
  "count_run rid p (db\<lparr>d_interrupts := i\<rparr>) = count_run rid p db"
  by (simp_all add: count_run_def)

lemma save_checkpoint_ok:
  assumes "save_checkpoint_tx env rid token expected phase st now db = Inr (u, db')"
  shows "\<exists>a r0. r0 \<in> set (d_runs db) \<and> r_id r0 = rid \<and> holds_lease token now r0
    \<and> r_version r0 = expected
    \<and> db' = (upd_run rid (\<lambda>r. r_version r = expected \<and> r_token r = Some token)
          (\<lambda>r. r\<lparr>r_version := expected + 1, r_updated := now\<rparr>)
          (db\<lparr>d_checkpoints := d_checkpoints db @ [new_checkpoint rid (expected + 1) phase st now]\<rparr>))
        \<lparr>d_audit := a\<rparr>"
proof -
  have "\<exists>run a. require_lease env rid token now db = Inr run \<and> r_version run = expected
    \<and> db' = (upd_run rid (\<lambda>r. r_version r = expected \<and> r_token r = Some token)
          (\<lambda>r. r\<lparr>r_version := expected + 1, r_updated := now\<rparr>)
          (db\<lparr>d_checkpoints := d_checkpoints db @ [new_checkpoint rid (expected + 1) phase st now]\<rparr>))
        \<lparr>d_audit := a\<rparr>" (is "\<exists>run a. _ \<and> _ \<and> ?rest a")
    using assms by (auto simp: save_checkpoint_tx_def Let_def split: if_splits
        dest!: record_frame insert_checkpoint_ok)
  then obtain run a where lease: "require_lease env rid token now db = Inr run"
    and v: "r_version run = expected" and rest: "?rest a" by blast
  from require_lease_row [OF lease] obtain row where row: "row \<in> set (d_runs db)" "r_id row = rid"
    "same_run run row" "holds_lease token now row" by blast
  moreover from row(3) v have "r_version row = expected" by (simp add: same_run_def)
  ultimately show ?thesis using rest by blast
qed

lemma save_checkpoint_inv:
  assumes inv: "exec_inv db"
    and tx: "save_checkpoint_tx env rid token expected phase st now db = Inr (u, db')"
  shows "exec_inv db'"
proof -
  let ?p = "\<lambda>r. r_version r = expected \<and> r_token r = Some token"
  let ?f = "\<lambda>r. r\<lparr>r_version := expected + 1, r_updated := now\<rparr>"
  from save_checkpoint_ok [OF tx] obtain a r0 where r0: "r0 \<in> set (d_runs db)" "r_id r0 = rid"
      "holds_lease token now r0" "r_version r0 = expected"
    and db': "db' = (upd_run rid ?p ?f (db\<lparr>d_checkpoints := d_checkpoints db
        @ [new_checkpoint rid (expected + 1) phase st now]\<rparr>))\<lparr>d_audit := a\<rparr>" by blast
  have sw: "swap_run (d_runs db) r0 (?f r0) (d_runs (upd_run rid ?p ?f db))"
    by (rule upd_run_swap [where f = ?f, OF inv r0(1,2)]) (use r0 holds_leaseD in simp_all)
  have ok: "run_ok r0" by (rule run_ok_row [OF inv r0(1)])
  have 1: "runs_ok (d_tasks db) (d_runs (upd_run rid ?p ?f db))"
    by (rule runs_ok_swap [OF exec_invD(1) [OF inv] sw]) (use ok r0 in \<open>simp_all add: run_ok_def\<close>)
  have 2: "checkpoints_ok (d_runs (upd_run rid ?p ?f db))
      (d_checkpoints db @ [new_checkpoint rid (expected + 1) phase st now])"
    by (rule checkpoints_ok_save [OF exec_invD(2) [OF inv] sw exec_invD(5) [OF inv]])
      (use ok r0 in \<open>simp_all add: run_ok_def new_checkpoint_def\<close>)
  have 3: "interrupts_ok (d_runs (upd_run rid ?p ?f db)) (d_interrupts db)"
    by (rule interrupts_ok_swap [OF exec_invD(3) [OF inv] sw]) simp
  show ?thesis using 1 2 3 by (simp add: db' exec_inv_def upd_run_def)
qed

definition new_interrupt :: "string \<Rightarrow> string \<Rightarrow> string \<Rightarrow> pyval \<Rightarrow> rat \<Rightarrow> interrupt" where
  "new_interrupt iid rid kd rq now = \<lparr>i_id = iid, i_run = rid, i_kind = kd, i_request = rq,
     i_state = IPending, i_response = None, i_created = now, i_resolved = None\<rparr>"

lemma insert_interrupt_ok:
  "insert_interrupt iid rid kd rq now db = Inr db' \<Longrightarrow> iid \<notin> i_id ` set (d_interrupts db)
    \<and> \<not> (\<exists>i \<in> set (d_interrupts db). i_run i = rid \<and> i_state i = IPending)
    \<and> db' = db\<lparr>d_interrupts := d_interrupts db @ [new_interrupt iid rid kd rq now]\<rparr>"
  by (simp add: insert_interrupt_def new_interrupt_def split: if_splits)

lemma suspend_ok:
  assumes "suspend_tx env rid token expected phase st kd rq iid now db = Inr (u, db')"
  shows "\<exists>a r0. r0 \<in> set (d_runs db) \<and> r_id r0 = rid \<and> holds_lease token now r0
    \<and> r_version r0 = expected \<and> iid \<notin> i_id ` set (d_interrupts db)
    \<and> \<not> (\<exists>i \<in> set (d_interrupts db). i_run i = rid \<and> i_state i = IPending)
    \<and> db' = (upd_run rid (\<lambda>r. r_state r = Running \<and> r_token r = Some token \<and> r_version r = expected)
          (\<lambda>r. r\<lparr>r_state := Waiting, r_version := expected + 1, r_token := None,
                 r_expires := None, r_updated := now\<rparr>)
          (db\<lparr>d_checkpoints := d_checkpoints db @ [new_checkpoint rid (expected + 1) phase st now],
              d_interrupts := d_interrupts db @ [new_interrupt iid rid kd rq now]\<rparr>))
        \<lparr>d_audit := a\<rparr>"
proof -
  have "\<exists>run a. require_lease env rid token now db = Inr run \<and> r_version run = expected
    \<and> iid \<notin> i_id ` set (d_interrupts db)
    \<and> \<not> (\<exists>i \<in> set (d_interrupts db). i_run i = rid \<and> i_state i = IPending)
    \<and> db' = (upd_run rid (\<lambda>r. r_state r = Running \<and> r_token r = Some token \<and> r_version r = expected)
          (\<lambda>r. r\<lparr>r_state := Waiting, r_version := expected + 1, r_token := None,
                 r_expires := None, r_updated := now\<rparr>)
          (db\<lparr>d_checkpoints := d_checkpoints db @ [new_checkpoint rid (expected + 1) phase st now],
              d_interrupts := d_interrupts db @ [new_interrupt iid rid kd rq now]\<rparr>))
        \<lparr>d_audit := a\<rparr>" (is "\<exists>run a. _ \<and> _ \<and> ?rest a")
    using assms by (auto simp: suspend_tx_def Let_def split: if_splits
        dest!: record_frame insert_checkpoint_ok insert_interrupt_ok)
  then obtain run a where lease: "require_lease env rid token now db = Inr run"
    and v: "r_version run = expected" and rest: "?rest a" by blast
  from require_lease_row [OF lease] obtain row where row: "row \<in> set (d_runs db)" "r_id row = rid"
    "same_run run row" "holds_lease token now row" by blast
  moreover from row(3) v have "r_version row = expected" by (simp add: same_run_def)
  ultimately show ?thesis using rest by blast
qed

lemma suspend_inv:
  assumes inv: "exec_inv db" and iid: "strip iid = iid"
    and tx: "suspend_tx env rid token expected phase st kd rq iid now db = Inr (u, db')"
  shows "exec_inv db'"
proof -
  let ?p = "\<lambda>r. r_state r = Running \<and> r_token r = Some token \<and> r_version r = expected"
  let ?f = "\<lambda>r. r\<lparr>r_state := Waiting, r_version := expected + 1, r_token := None,
                 r_expires := None, r_updated := now\<rparr>"
  from suspend_ok [OF tx] obtain a r0 where r0: "r0 \<in> set (d_runs db)" "r_id r0 = rid"
      "holds_lease token now r0" "r_version r0 = expected"
    and new: "iid \<notin> i_id ` set (d_interrupts db)"
      "\<not> (\<exists>i \<in> set (d_interrupts db). i_run i = rid \<and> i_state i = IPending)"
    and db': "db' = (upd_run rid ?p ?f (db\<lparr>d_checkpoints := d_checkpoints db
        @ [new_checkpoint rid (expected + 1) phase st now],
        d_interrupts := d_interrupts db @ [new_interrupt iid rid kd rq now]\<rparr>))\<lparr>d_audit := a\<rparr>" by blast
  have sw: "swap_run (d_runs db) r0 (?f r0) (d_runs (upd_run rid ?p ?f db))"
    by (rule upd_run_swap [where f = ?f, OF inv r0(1,2)]) (use r0 holds_leaseD in simp_all)
  have ok: "run_ok r0" by (rule run_ok_row [OF inv r0(1)])
  have 1: "runs_ok (d_tasks db) (d_runs (upd_run rid ?p ?f db))"
    by (rule runs_ok_swap [OF exec_invD(1) [OF inv] sw])
      (use ok r0 holds_leaseD(1) [OF r0(3)] in \<open>simp_all add: run_ok_def active_state_def\<close>)
  have 2: "checkpoints_ok (d_runs (upd_run rid ?p ?f db))
      (d_checkpoints db @ [new_checkpoint rid (expected + 1) phase st now])"
    by (rule checkpoints_ok_save [OF exec_invD(2) [OF inv] sw exec_invD(5) [OF inv]])
      (use ok r0 in \<open>simp_all add: run_ok_def new_checkpoint_def\<close>)
  have 3: "interrupts_ok (d_runs (upd_run rid ?p ?f db))
      (d_interrupts db @ [new_interrupt iid rid kd rq now])"
    by (rule interrupts_ok_suspend [OF exec_invD(3) [OF inv] sw exec_invD(5) [OF inv]])
      (use new iid r0(2) in \<open>simp_all add: new_interrupt_def\<close>)
  show ?thesis using 1 2 3 by (simp add: db' exec_inv_def upd_run_def)
qed

lemma record_inv: "record_audit_event env i tg fs at' db = Inr db' \<Longrightarrow> exec_inv db' = exec_inv db"
  by (auto dest!: record_frame)

lemma recorders_inv:
  "record_terminal env rid tid st tg v x now db = Inr db' \<Longrightarrow> exec_inv db' = exec_inv db"
  "record_resolved env iid rid kd ist now db = Inr db' \<Longrightarrow> exec_inv db' = exec_inv db"
  "record_task_state env tid tst tg now db = Inr db' \<Longrightarrow> exec_inv db' = exec_inv db"
  "record_cancel_requested env rid tid now db = Inr db' \<Longrightarrow> exec_inv db' = exec_inv db"
  by (auto simp: recorders dest!: record_frame)

lemma recorders_frame:
  "record_terminal env rid tid st tg v x now db = Inr db' \<Longrightarrow> \<exists>a. db' = db\<lparr>d_audit := a\<rparr>"
  "record_resolved env iid rid kd ist now db = Inr db' \<Longrightarrow> \<exists>a. db' = db\<lparr>d_audit := a\<rparr>"
  "record_task_state env tid tst tg now db = Inr db' \<Longrightarrow> \<exists>a. db' = db\<lparr>d_audit := a\<rparr>"
  "record_cancel_requested env rid tid now db = Inr db' \<Longrightarrow> \<exists>a. db' = db\<lparr>d_audit := a\<rparr>"
  by (simp_all add: recorders record_frame)

text \<open>A waiting run leaves the waiting state while its pending interrupts are settled.\<close>

lemma settle_inv:
  assumes inv: "exec_inv db" and r0: "r0 \<in> set (d_runs db)" "r_id r0 = rid" "q r0"
    and g: "\<And>r. r_id (g r) = r_id r \<and> r_task (g r) = r_task r"
    and new: "run_ok (g r0)" "r_version (g r0) = r_version r0" "r_state (g r0) \<noteq> Waiting"
      "active_state (r_state (g r0)) \<Longrightarrow> active_state (r_state r0)"
    and p: "\<And>i. i \<in> set (d_interrupts db) \<Longrightarrow> i_state i = IPending \<Longrightarrow> p i \<longleftrightarrow> i_run i = rid"
    and f: "\<And>i. i_id (f i) = i_id i \<and> i_run (f i) = i_run i \<and> i_state (f i) \<noteq> IPending"
  shows "exec_inv (upd_run rid q g (upd_interrupt (\<lambda>i. p i \<and> i_state i = IPending) f db))"
proof -
  have sw: "swap_run (d_runs db) r0 (g r0) (d_runs (upd_run rid q g db))"
    by (rule upd_run_swap [where f = g and p = q, OF inv r0(1,2,3)]) (rule g)
  have 1: "runs_ok (d_tasks db) (d_runs (upd_run rid q g db))"
    by (rule runs_ok_swap [OF exec_invD(1) [OF inv] sw new(1)]) (use new(4) in blast)
  have 2: "checkpoints_ok (d_runs (upd_run rid q g db)) (d_checkpoints db)"
    by (rule checkpoints_ok_swap [OF exec_invD(2) [OF inv] sw new(2)])
  have 3: "interrupts_ok (d_runs (upd_run rid q g db))
      (sql_update (\<lambda>i. p i \<and> i_state i = IPending) f (d_interrupts db))"
    by (rule interrupts_ok_settle [OF exec_invD(3) [OF inv] sw exec_invD(5) [OF inv] new(3)])
      (use p r0(2) f in simp_all)
  show ?thesis using 1 2 3 by (simp add: exec_inv_def upd_run_def upd_interrupt_def)
qed

lemma upd_swap_tables [simp]:
  "upd_run rid q g (upd_interrupt p f db) = upd_interrupt p f (upd_run rid q g db)"
  by (simp add: upd_run_def upd_interrupt_def)

text \<open>A run in no waiting state is rewritten into a row that keeps the invariant.\<close>

lemma upd_run_inv:
  assumes inv: "exec_inv db" and r0: "r0 \<in> set (d_runs db)" "r_id r0 = rid" "q r0"
    and g: "\<And>r. r_id (g r) = r_id r \<and> r_task (g r) = r_task r"
    and new: "run_ok (g r0)" "r_version (g r0) = r_version r0"
      "(r_state (g r0) = Waiting) = (r_state r0 = Waiting)"
      "active_state (r_state (g r0)) \<Longrightarrow> active_state (r_state r0)"
  shows "exec_inv (upd_run rid q g db)"
proof -
  have sw: "swap_run (d_runs db) r0 (g r0) (d_runs (upd_run rid q g db))"
    by (rule upd_run_swap [where f = g and p = q, OF inv r0(1,2,3)]) (rule g)
  have "exec_inv (db\<lparr>d_runs := d_runs (upd_run rid q g db)\<rparr>)"
    by (rule exec_inv_swap [OF inv sw new(1) _ new(2,3)]) (use new(4) in blast)
  then show ?thesis by (simp add: upd_run_def)
qed

section \<open>Terminal transitions\<close>

lemma complete_ok:
  assumes "complete_run_tx env rid token res now db = Inr (u, db')"
  shows "\<exists>a r0. r0 \<in> set (d_runs db) \<and> r_id r0 = rid \<and> holds_lease token now r0 \<and> \<not> r_cancel r0
    \<and> db' = (upd_task (r_task r0) TOpen TCompleted now (upd_run rid (owned token)
          (\<lambda>r. r\<lparr>r_state := Completed, r_result := Some res, r_token := None, r_expires := None,
                 r_updated := now\<rparr>) db))\<lparr>d_audit := a\<rparr>"
proof -
  have "\<exists>run a. require_lease env rid token now db = Inr run \<and> \<not> r_cancel run
    \<and> db' = (upd_task (r_task run) TOpen TCompleted now (upd_run rid (owned token)
          (\<lambda>r. r\<lparr>r_state := Completed, r_result := Some res, r_token := None, r_expires := None,
                 r_updated := now\<rparr>) db))\<lparr>d_audit := a\<rparr>" (is "\<exists>run a. _ \<and> _ \<and> ?rest run a")
    using assms by (auto simp: complete_run_tx_def Let_def split: if_splits dest!: recorders_frame)
  then obtain run a where lease: "require_lease env rid token now db = Inr run"
    and v: "\<not> r_cancel run" and rest: "?rest run a" by blast
  from require_lease_row [OF lease] obtain row where row: "row \<in> set (d_runs db)" "r_id row = rid"
    "same_run run row" "holds_lease token now row" by blast
  moreover from row(3) v have "\<not> r_cancel row" "r_task run = r_task row" by (simp_all add: same_run_def)
  ultimately show ?thesis using rest by metis
qed

lemma complete_inv:
  assumes inv: "exec_inv db" and tx: "complete_run_tx env rid token res now db = Inr (u, db')"
  shows "exec_inv db'"
proof -
  from complete_ok [OF tx] obtain a r0 where r0: "r0 \<in> set (d_runs db)" "r_id r0 = rid" "holds_lease token now r0"
    and db': "db' = (upd_task (r_task r0) TOpen TCompleted now (upd_run rid (owned token)
          (\<lambda>r. r\<lparr>r_state := Completed, r_result := Some res, r_token := None, r_expires := None,
                 r_updated := now\<rparr>) db))\<lparr>d_audit := a\<rparr>" by blast
  show ?thesis
    unfolding db' exec_inv_audit exec_inv_upd_task
    by (rule upd_run_inv [OF inv r0(1,2)])
      (use run_ok_row [OF inv r0(1)] holds_leaseD [OF r0(3)] in
        \<open>simp_all add: run_ok_def active_state_def\<close>)
qed

lemma fail_ok:
  assumes "fail_run_tx env rid token err ej now db = Inr (u, db')"
  shows "\<exists>a r0. r0 \<in> set (d_runs db) \<and> r_id r0 = rid \<and> holds_lease token now r0
    \<and> db' = (upd_run rid (owned token)
          (\<lambda>r. r\<lparr>r_state := Failed, r_error := Some ej, r_token := None, r_expires := None,
                 r_updated := now\<rparr>) db)\<lparr>d_audit := a\<rparr>"
proof -
  have "\<exists>run a. require_lease env rid token now db = Inr run
    \<and> db' = (upd_run rid (owned token)
          (\<lambda>r. r\<lparr>r_state := Failed, r_error := Some ej, r_token := None, r_expires := None,
                 r_updated := now\<rparr>) db)\<lparr>d_audit := a\<rparr>"
    using assms by (auto simp: fail_run_tx_def Let_def split: if_splits dest!: recorders_frame)
  then show ?thesis using require_lease_row by blast
qed

lemma fail_inv:
  assumes inv: "exec_inv db" and tx: "fail_run_tx env rid token err ej now db = Inr (u, db')"
  shows "exec_inv db'"
proof -
  from fail_ok [OF tx] obtain a r0 where r0: "r0 \<in> set (d_runs db)" "r_id r0 = rid" "holds_lease token now r0"
    and db': "db' = (upd_run rid (owned token)
          (\<lambda>r. r\<lparr>r_state := Failed, r_error := Some ej, r_token := None, r_expires := None,
                 r_updated := now\<rparr>) db)\<lparr>d_audit := a\<rparr>" by blast
  show ?thesis
    unfolding db' exec_inv_audit
    by (rule upd_run_inv [OF inv r0(1,2)])
      (use run_ok_row [OF inv r0(1)] holds_leaseD [OF r0(3)] in
        \<open>simp_all add: run_ok_def active_state_def\<close>)
qed

lemma finish_cancelled_ok:
  assumes "finish_cancelled_tx env rid token now db = Inr (u, db')"
  shows "\<exists>a r0. r0 \<in> set (d_runs db) \<and> r_id r0 = rid \<and> holds_lease token now r0 \<and> r_cancel r0
    \<and> db' = (upd_run rid (\<lambda>r. r_token r = Some token)
          (\<lambda>r. r\<lparr>r_state := Cancelled, r_token := None, r_expires := None,
                 r_updated := now\<rparr>) db)\<lparr>d_audit := a\<rparr>"
proof -
  have "\<exists>run a. require_lease env rid token now db = Inr run \<and> r_cancel run
    \<and> db' = (upd_run rid (\<lambda>r. r_token r = Some token)
          (\<lambda>r. r\<lparr>r_state := Cancelled, r_token := None, r_expires := None,
                 r_updated := now\<rparr>) db)\<lparr>d_audit := a\<rparr>"
    using assms by (auto simp: finish_cancelled_tx_def Let_def split: if_splits dest!: recorders_frame)
  then show ?thesis using require_lease_row unfolding same_run_def by metis
qed

lemma finish_cancelled_inv:
  assumes inv: "exec_inv db" and tx: "finish_cancelled_tx env rid token now db = Inr (u, db')"
  shows "exec_inv db'"
proof -
  from finish_cancelled_ok [OF tx] obtain a r0
    where r0: "r0 \<in> set (d_runs db)" "r_id r0 = rid" "holds_lease token now r0"
    and db': "db' = (upd_run rid (\<lambda>r. r_token r = Some token)
          (\<lambda>r. r\<lparr>r_state := Cancelled, r_token := None, r_expires := None,
                 r_updated := now\<rparr>) db)\<lparr>d_audit := a\<rparr>" by blast
  show ?thesis
    unfolding db' exec_inv_audit
    by (rule upd_run_inv [OF inv r0(1,2)])
      (use run_ok_row [OF inv r0(1)] holds_leaseD [OF r0(3)] in
        \<open>simp_all add: run_ok_def active_state_def\<close>)
qed

lemma reopen_ok:
  assumes "reopen_tx env cur rid evidence now db = Inr (u, db')"
  shows "\<exists>a r0. r0 \<in> set (d_runs db) \<and> r_id r0 = rid \<and> r_state r0 = Failed
    \<and> (\<forall>q \<in> set (d_runs db). r_id q \<noteq> rid \<longrightarrow> r_task q = r_task r0 \<longrightarrow> \<not> active_state (r_state q))
    \<and> db' = (upd_task (r_task cur) TCompleted TOpen now (upd_run rid (\<lambda>r. r_state r = Failed)
          (\<lambda>r. r\<lparr>r_state := Pending, r_error := None, r_cancel := False, r_updated := now\<rparr>) db))
        \<lparr>d_audit := a\<rparr>"
proof -
  from assms have n: "count_run rid (\<lambda>r. r_state r = Failed) db = 1"
    and quiet: "\<not> (\<exists>r \<in> set (d_runs db). r_id r = rid \<and> r_state r = Failed
          \<and> (\<exists>q \<in> set (d_runs db). r_id q \<noteq> rid \<and> r_task q = r_task r \<and> active_state (r_state q)))"
    by (simp_all add: reopen_tx_def Let_def split: if_splits)
  have "\<exists>a. db' = (upd_task (r_task cur) TCompleted TOpen now (upd_run rid (\<lambda>r. r_state r = Failed)
          (\<lambda>r. r\<lparr>r_state := Pending, r_error := None, r_cancel := False, r_updated := now\<rparr>) db))
        \<lparr>d_audit := a\<rparr>"
    using assms by (auto simp: reopen_tx_def Let_def split: if_splits dest!: record_frame)
  with count_run_first [OF n] quiet show ?thesis by blast
qed

lemma reopen_inv:
  assumes inv: "exec_inv db" and tx: "reopen_tx env cur rid evidence now db = Inr (u, db')"
  shows "exec_inv db'"
proof -
  let ?f = "\<lambda>r. r\<lparr>r_state := Pending, r_error := None, r_cancel := False, r_updated := now\<rparr>"
  from reopen_ok [OF tx] obtain a r0 where r0: "r0 \<in> set (d_runs db)" "r_id r0 = rid" "r_state r0 = Failed"
    and quiet: "\<forall>q \<in> set (d_runs db). r_id q \<noteq> rid \<longrightarrow> r_task q = r_task r0 \<longrightarrow> \<not> active_state (r_state q)"
    and db': "db' = (upd_task (r_task cur) TCompleted TOpen now
        (upd_run rid (\<lambda>r. r_state r = Failed) ?f db))\<lparr>d_audit := a\<rparr>" by blast
  have sw: "swap_run (d_runs db) r0 (?f r0) (d_runs (upd_run rid (\<lambda>r. r_state r = Failed) ?f db))"
    by (rule upd_run_swap [where f = ?f, OF inv r0(1,2)]) (simp_all add: r0)
  have ok: "run_ok (?f r0)" using run_ok_row [OF inv r0(1)] r0(3) by (simp add: run_ok_def)
  have "exec_inv (db\<lparr>d_runs := d_runs (upd_run rid (\<lambda>r. r_state r = Failed) ?f db)\<rparr>)"
    by (rule exec_inv_swap [OF inv sw ok]) (use quiet r0 in auto)
  then show ?thesis unfolding db' exec_inv_audit exec_inv_upd_task by (simp add: upd_run_def)
qed

section \<open>Interrupt resolution\<close>

definition settled :: "bool \<Rightarrow> pyval \<Rightarrow> rat \<Rightarrow> interrupt \<Rightarrow> interrupt" where
  "settled allow response now i = i\<lparr>i_state := (if allow then Allowed else Denied),
     i_response := Some response, i_resolved := Some now\<rparr>"

definition released :: "bool \<Rightarrow> rat \<Rightarrow> run \<Rightarrow> run" where
  "released allow now r = r\<lparr>r_state := (if allow then Pending else Cancelled), r_updated := now\<rparr>"

lemma resolve_ok:
  assumes "resolve_interrupt_tx env iid allow rj now db = Inr (u, db')"
  shows "\<exists>a r0 i j. i \<in> set (d_interrupts db) \<and> i_id i = iid \<and> i_state i = IPending
    \<and> j \<in> set (d_interrupts db) \<and> i_id j = strip iid
    \<and> r0 \<in> set (d_runs db) \<and> r_id r0 = i_run j \<and> r_state r0 = Waiting
    \<and> db' = (upd_run (i_run j) (\<lambda>r. r_state r = Waiting) (released allow now)
        (upd_interrupt (\<lambda>i. i_id i = iid \<and> i_state i = IPending) (settled allow rj now) db))
        \<lparr>d_audit := a\<rparr>"
proof -
  let ?up = "\<lambda>cur. upd_run (i_run cur) (\<lambda>r. r_state r = Waiting) (released allow now)
        (upd_interrupt (\<lambda>i. i_id i = iid \<and> i_state i = IPending) (settled allow rj now) db)"
  have "\<exists>cur a. the_interrupt KeyError env iid db = Inr cur
    \<and> sql_count (\<lambda>i. i_id i = iid \<and> i_state i = IPending) (d_interrupts db) = 1
    \<and> count_run (i_run cur) (\<lambda>r. r_state r = Waiting) db = 1
    \<and> db' = (?up cur)\<lparr>d_audit := a\<rparr>"
    using assms by (auto simp: resolve_interrupt_tx_def Let_def settled_def [abs_def]
        released_def [abs_def] upd_interrupt_def split: if_splits dest!: recorders_frame)
  then obtain cur a where cur: "the_interrupt KeyError env iid db = Inr cur"
    and n: "sql_count (\<lambda>i. i_id i = iid \<and> i_state i = IPending) (d_interrupts db) = 1"
    and w: "count_run (i_run cur) (\<lambda>r. r_state r = Waiting) db = 1"
    and db': "db' = (?up cur)\<lparr>d_audit := a\<rparr>" by blast
  from the_interrupt_row [OF cur] obtain j where j: "j \<in> set (d_interrupts db)" "i_id j = strip iid"
    "i_run cur = i_run j" by blast
  from n obtain i where i: "i \<in> set (d_interrupts db)" "i_id i = iid" "i_state i = IPending"
    using sql_count_pos [of "\<lambda>i. i_id i = iid \<and> i_state i = IPending" "d_interrupts db"] by auto
  from count_run_first [OF w] obtain r0 where r0: "r0 \<in> set (d_runs db)" "r_id r0 = i_run j"
      "r_state r0 = Waiting" using j(3) by auto
  from db' have "db' = (?up j)\<lparr>d_audit := a\<rparr>" by (simp only: j(3))
  with i j(1,2) r0 show ?thesis by blast
qed

lemma resolve_inv:
  assumes inv: "exec_inv db" and tx: "resolve_interrupt_tx env iid allow rj now db = Inr (u, db')"
  shows "exec_inv db'"
proof -
  from resolve_ok [OF tx] obtain a r0 i j where
    i: "i \<in> set (d_interrupts db)" "i_id i = iid" "i_state i = IPending"
    and j: "j \<in> set (d_interrupts db)" "i_id j = strip iid"
    and r0: "r0 \<in> set (d_runs db)" "r_id r0 = i_run j" "r_state r0 = Waiting"
    and db': "db' = (upd_run (i_run j) (\<lambda>r. r_state r = Waiting) (released allow now)
        (upd_interrupt (\<lambda>i. i_id i = iid \<and> i_state i = IPending) (settled allow rj now) db))
        \<lparr>d_audit := a\<rparr>" by blast
  note io = interrupts_okD [OF exec_invD(3) [OF inv]]
  have "i = j" using io(1) io(2) [OF i(1)] i(1,2) j by (metis distinct_key_unique)
  then have p: "i_id x = iid \<longleftrightarrow> i_run x = i_run j" if "x \<in> set (d_interrupts db)" "i_state x = IPending" for x
    using io(3) [OF i(1) that(1)] i that io(1) by (metis distinct_key_unique)
  show ?thesis
    unfolding db' exec_inv_audit
    by (rule settle_inv [OF inv r0(1,2)])
      (use r0(3) p run_ok_row [OF inv r0(1)] in
        \<open>simp_all add: released_def settled_def run_ok_def active_state_def\<close>)
qed

section \<open>Cancellation\<close>

lemma cancel_flag_inv:
  assumes inv: "exec_inv db" and r0: "r0 \<in> set (d_runs db)" "r_id r0 = rid" "q r0"
  shows "exec_inv (upd_run rid q (\<lambda>r. r\<lparr>r_cancel := True, r_updated := now\<rparr>) db)"
  by (rule upd_run_inv [OF inv r0(1,2)]) (use run_ok_row [OF inv r0(1)] r0 in \<open>simp_all add: run_ok_def\<close>)

lemma cancel_pending_inv:
  assumes inv: "exec_inv db" and r0: "r0 \<in> set (d_runs db)" "r_id r0 = rid" "r_state r0 = Pending"
  shows "exec_inv (cancel_run_row rid now db)"
  unfolding cancel_run_row_def
  by (rule upd_run_inv [OF inv r0(1,2)])
    (use run_ok_row [OF inv r0(1)] r0(3) in \<open>simp_all add: run_ok_def active_state_def\<close>)

lemma cancel_waiting_inv:
  assumes inv: "exec_inv db" and r0: "r0 \<in> set (d_runs db)" "r_id r0 = rid" "r_state r0 = Waiting"
    and p: "\<And>i. i \<in> set (d_interrupts db) \<Longrightarrow> i_state i = IPending \<Longrightarrow> p i \<longleftrightarrow> i_run i = rid"
  shows "exec_inv (deny p reason now (cancel_run_row rid now db))"
  unfolding cancel_run_row_def deny_def upd_swap_tables [symmetric]
  by (rule settle_inv [OF inv r0(1,2)])
    (use run_ok_row [OF inv r0(1)] r0(3) p in \<open>simp_all add: run_ok_def active_state_def\<close>)

lemma not_terminal: "\<not> terminal s \<Longrightarrow> s = Pending \<or> s = Running \<or> s = Waiting"
  by (cases s) (simp_all add: terminal_def)

lemma request_cancel_inv:
  assumes inv: "exec_inv db" and tx: "request_cancel_tx env rid now db = Inr (u, db')"
  shows "exec_inv db'"
proof -
  from tx obtain run db1 where run: "the_run KeyError env rid db = Inr run"
    and live: "\<not> terminal (r_state run)"
    and db1: "record_cancel_requested env rid (r_task run) now db = Inr db1"
    by (auto simp: request_cancel_tx_def split: if_splits)
  from the_run_row [OF run] obtain r0 where r0: "r0 \<in> set (d_runs db)" "r_id r0 = rid"
    "r_state run = r_state r0" by (auto simp: same_run_def)
  have inv1: "exec_inv db1" using recorders_inv(4) [OF db1] inv by simp
  have in1: "r0 \<in> set (d_runs db1)" using recorders_frame(4) [OF db1] r0(1) by auto
  from not_terminal [OF live] consider "r_state r0 = Running" | "r_state r0 = Pending" | "r_state r0 = Waiting"
    using r0(3) by auto
  then show ?thesis
  proof cases
    case 1
    with tx run live db1 r0(3) have "db' = upd_run rid (\<lambda>_. True) (\<lambda>r. r\<lparr>r_cancel := True, r_updated := now\<rparr>) db1"
      by (simp add: request_cancel_tx_def)
    then show ?thesis using cancel_flag_inv [OF inv1 in1 r0(2), of "\<lambda>_. True"] by simp
  next
    case 2
    with tx run live db1 r0(3) obtain tg v where
      "record_terminal env rid (r_task run) Cancelled tg v [] now (cancel_run_row rid now db1) = Inr db'"
      by (auto simp: request_cancel_tx_def Let_def pending_interrupt_def)
    from recorders_inv(1) [OF this] show ?thesis using cancel_pending_inv [OF inv1 in1 r0(2) 2] by simp
  next
    case 3
    with tx run live db1 r0(3) obtain reason db4 tg v where
      db4: "record_terminal env rid (r_task run) Cancelled tg v [] now
        (deny (\<lambda>i. i_run i = rid) reason now (cancel_run_row rid now db1)) = Inr db4"
      and res: "(case pending_interrupt run db1 of None \<Rightarrow> Inr ((), db4)
        | Some i \<Rightarrow> ebind (record_resolved env (i_id i) rid (i_kind i) Denied now db4)
            (\<lambda>db5. Inr ((), db5))) = Inr (u, db')"
      by (auto simp: request_cancel_tx_def Let_def)
    from res have "exec_inv db' = exec_inv db4"
      by (cases "pending_interrupt run db1") (auto dest: recorders_inv(2))
    with recorders_inv(1) [OF db4] show ?thesis using cancel_waiting_inv [OF inv1 in1 r0(2) 3] by simp
  qed
qed

lemma pending_of_run:
  assumes inv: "exec_inv db" and i: "i \<in> set (d_interrupts db)" "i_run i = rid" "i_state i = IPending"
    and x: "x \<in> set (d_interrupts db)" "i_state x = IPending"
  shows "i_id x = i_id i \<longleftrightarrow> i_run x = rid"
proof -
  note io = interrupts_okD [OF exec_invD(3) [OF inv]]
  show ?thesis using io(3) [OF x(1) i(1) x(2) i(3)] i x io(1) by (metis distinct_key_unique)
qed

lemma stop_active_inv:
  assumes inv: "exec_inv db" and act: "r \<in> set (d_runs db)" "r_id r = rid" "active_state (r_state r)"
    and tx: "stop_active_run env tid rid now db = Inr db'"
  shows "exec_inv db'"
proof -
  from tx obtain run db1 where run: "the_run AssertionError env rid db = Inr run"
    and db1: "record_cancel_requested env rid tid now db = Inr db1"
    by (auto simp: stop_active_run_def split: if_splits)
  from the_run_row [OF run] obtain r0 where r0: "r0 \<in> set (d_runs db)" "r_id r0 = rid"
    and same: "r_state run = r_state r0" "r_id run = rid" by (auto simp: same_run_def)
  have "r0 = r" using exec_invD(5) [OF inv] r0 act(1,2) by (metis distinct_key_unique)
  have inv1: "exec_inv db1" using recorders_inv(4) [OF db1] inv by simp
  have in1: "r0 \<in> set (d_runs db1)" using recorders_frame(4) [OF db1] r0(1) by auto
  consider "r_state r0 = Running" | "r_state r0 = Pending" | "r_state r0 = Waiting"
    using act(3) \<open>r0 = r\<close> by (auto simp: active_state_def)
  then show ?thesis
  proof cases
    case 1
    with tx run db1 same have "db' = upd_run rid (\<lambda>r. r_state r = Running)
        (\<lambda>r. r\<lparr>r_cancel := True, r_updated := now\<rparr>) db1"
      by (simp add: stop_active_run_def)
    then show ?thesis using cancel_flag_inv [OF inv1 in1 r0(2), of "\<lambda>r. r_state r = Running"] 1 by simp
  next
    case 2
    with tx run db1 same obtain tg v where
      "record_terminal env rid tid Cancelled tg v [] now (cancel_run_row rid now db1) = Inr db'"
      by (auto simp: stop_active_run_def Let_def pending_interrupt_def)
    from recorders_inv(1) [OF this] show ?thesis using cancel_pending_inv [OF inv1 in1 r0(2) 2] by simp
  next
    case 3
    then obtain j where "j \<in> set (d_interrupts db1)" "i_run j = rid" "i_state j = IPending"
      using interrupts_okD(4) [OF exec_invD(3) [OF inv1] in1] r0(2) by auto
    then obtain i where pend: "pending_interrupt run db1 = Some i"
      by (cases "pending_interrupt run db1") (auto simp: pending_interrupt_def same 3 sql_first_None)
    then have i: "i \<in> set (d_interrupts db1)" "i_run i = rid" "i_state i = IPending"
      by (auto simp: pending_interrupt_def same 3 dest: sql_first_Some split: if_splits)
    from tx run db1 same 3 pend obtain reason db3 tg v where
      db3: "record_resolved env (i_id i) rid (i_kind i) Denied now
          (deny (\<lambda>j. i_id j = i_id i) reason now (cancel_run_row rid now db1)) = Inr db3"
      and db': "record_terminal env rid tid Cancelled tg v [] now db3 = Inr db'"
      by (auto simp: stop_active_run_def Let_def)
    have "exec_inv (deny (\<lambda>j. i_id j = i_id i) reason now (cancel_run_row rid now db1))"
      by (rule cancel_waiting_inv [OF inv1 in1 r0(2) 3]) (rule pending_of_run [OF inv1 i])
    then show ?thesis using recorders_inv(2) [OF db3] recorders_inv(1) [OF db'] by simp
  qed
qed

lemma cancel_task_inv:
  assumes inv: "exec_inv db" and tx: "cancel_task_tx env tid now db = Inr (u, db')"
  shows "exec_inv db'"
proof -
  let ?act = "sql_first (\<lambda>r. r_task r = tid \<and> active_state (r_state r)) (d_runs db)"
  from tx obtain db1 where db1: "(case ?act of None \<Rightarrow> Inr db
      | Some r \<Rightarrow> stop_active_run env tid (r_id r) now db) = Inr db1"
    and db': "record_task_state env tid TCancelled TAG_EXECUTION_TASK_CANCELLED now
        (upd_task tid TOpen TCancelled now db1) = Inr db'"
    by (auto simp: cancel_task_tx_def split: option.splits if_splits)
  have "exec_inv db1"
  proof (cases ?act)
    case None
    then show ?thesis using db1 inv by simp
  next
    case (Some r)
    then have "r \<in> set (d_runs db)" "active_state (r_state r)" by (auto dest: sql_first_Some)
    with Some db1 show ?thesis using stop_active_inv [OF inv] by simp
  qed
  then show ?thesis using recorders_inv(3) [OF db'] by simp
qed

end
