(* ===== verification/ExecutionSession.thy ===== *)
theory ExecutionSession
  imports ExecutionSafe
begin

text \<open>
  Sessions of public calls on the execution store: every call keeps the database
  invariant and only appends to the audit outbox, which is an interpretation of the
  \<open>audit_outbox\<close> contract.
\<close>

section \<open>Steps\<close>

lemma keeps_reading [keeps_intros]: "keeps P (reading f)"
  by (simp add: keeps_def reading_def)

lemma keeps_transact:
  assumes "\<And>db x db'. Q db \<Longrightarrow> tx db = Inr (x, db') \<Longrightarrow> Q db'"
  shows "keeps (\<lambda>s. Q (es_db s)) (transact tx)"
  using assms by (auto simp: keeps_def transact_def split: sum.splits)

lemma integrity_as_state_snd: "snd (integrity_as_state m s) = snd (m s)"
  by (simp add: integrity_as_state_def split: prod.splits sum.splits)

lemma keeps_integrity [keeps_intros]: "keeps P m \<Longrightarrow> keeps P (integrity_as_state m)"
  by (simp add: keeps_def integrity_as_state_snd)

lemma repair_audit_db: "es_db (snd (repair_audit env n s)) = es_db s"
  by (simp add: repair_audit_def Let_def split: option.splits prod.splits)

lemma keeps_repair [keeps_intros]: "keeps (\<lambda>s. Q (es_db s)) (repair_audit env n)"
  by (simp add: keeps_def repair_audit_db)

lemma keeps_repair_batch [keeps_intros]: "keeps (\<lambda>s. Q (es_db s)) (repair_audit_batch env)"
  unfolding repair_audit_batch_def by (rule keeps_repair)

lemma keeps_finish [keeps_intros]: "keeps (\<lambda>s. Q (es_db s)) (finish env f)"
  unfolding finish_def by (intro keeps_intros)

text \<open>What a successful method did.\<close>

lemma transact_Inr_iff:
  "transact tx s = (Inr x, s') \<longleftrightarrow> (\<exists>db. tx (es_db s) = Inr (x, db) \<and> s' = s\<lparr>es_db := db\<rparr>)"
  by (auto simp: transact_def split: sum.splits prod.splits)

lemma reading_Inr_iff: "reading f s = (Inr x, s') \<longleftrightarrow> f (es_db s) = Inr x \<and> s' = s"
  by (auto simp: reading_def)

lemma finish_Inr: "finish env f s = (Inr x, s') \<Longrightarrow> f (es_db s) = Inr x \<and> es_db s' = es_db s"
  using repair_audit_db [of env "Some DEFAULT_AUDIT_REPAIR_BATCH_SIZE" s]
  by (auto simp: finish_def sbind_Inr_iff reading_Inr_iff sret_def repair_audit_batch_def)

lemmas method_iffs = sbind_Inr_iff slift_Inr_iff transact_Inr_iff reading_Inr_iff

text \<open>A transaction that raises leaves the store as it was.\<close>

lemma transact_Inl: "tx (es_db s) = Inl e \<Longrightarrow> transact tx s = (Inl e, s)"
  by (simp add: transact_def)

lemma sbind_Inl: "m s = (Inl e, s') \<Longrightarrow> sbind m f s = (Inl e, s')"
  by (simp add: sbind_def)

lemmas exec_methods = create_task_def create_run_def claim_run_def renew_lease_def save_checkpoint_def
  suspend_def resolve_interrupt_def complete_run_def fail_run_def reopen_uncertain_def
  request_cancel_def finish_cancelled_def cancel_task_def append_agent_event_def
  configure_coordination_budget_def reserve_coordination_budget_def

text \<open>
  A predicate of the database that every transaction keeps is kept by every call; the
  interrupt id of a suspension has been stripped or drawn fresh.
\<close>

definition uuid_hex :: "env \<Rightarrow> bool" where
  "uuid_hex env \<longleftrightarrow> set (e_uuid env) \<subseteq> set ''0123456789abcdef''"

lemma strip_fresh_id:
  assumes "uuid_hex env" and "\<forall>c \<in> set p. \<not> is_space c"
  shows "strip (fresh_id env p) = fresh_id env p"
proof (rule strip_no_space)
  have hex: "\<forall>c \<in> set ''0123456789abcdef''. \<not> is_space c" by (simp add: is_space_def)
  fix c assume "c \<in> set (fresh_id env p)"
  then have "c \<in> set p \<or> c = CHR ''_'' \<or> c \<in> set (e_uuid env)" by (auto simp: fresh_id_def)
  then show "\<not> is_space c"
  proof (elim disjE)
    assume "c = CHR ''_''" then show ?thesis by (simp add: is_space_def)
  next
    assume "c \<in> set (e_uuid env)" with assms(1) hex show ?thesis by (auto simp only: uuid_hex_def)
  qed (use assms(2) in blast)
qed

lemma strip_interrupt_id:
  assumes "uuid_hex env"
    and "(case iid of None \<Rightarrow> Inr (fresh_id env ''interrupt'') | Some i \<Rightarrow> non_empty_text i) = Inr i'"
  shows "strip i' = i'"
proof (cases iid)
  case None
  have "\<forall>c \<in> set ''interrupt''. \<not> is_space c" by (simp add: is_space_def)
  with None assms strip_fresh_id [OF assms(1)] show ?thesis by auto
next
  case (Some i)
  with assms show ?thesis by (auto simp: non_empty_text_def split: if_splits)
qed

section \<open>Invariants of sessions\<close>

fun is_reopen :: "exec_call \<Rightarrow> bool" where
  "is_reopen (ReopenUncertain r ev n) = True"
| "is_reopen _ = False"

text \<open>
  The laws of a database invariant: every transaction keeps it. A client proves them once
  per transaction and gets the invariant for every call and every session. The core locale
  leaves reopening out, since some invariants hold only between reopenings.
\<close>

locale tx_core =
  fixes Q :: "exec_db \<Rightarrow> bool"
  assumes create_task: "Q db \<Longrightarrow> create_task_tx env g w t n db = Inr (tk, db') \<Longrightarrow> Q db'"
    and create_run: "Q db \<Longrightarrow> create_run_tx env t rid n db = Inr (rn, db') \<Longrightarrow> Q db'"
    and claim: "Q db \<Longrightarrow> claim_tx env rid l n db = Inr (rn, db') \<Longrightarrow> Q db'"
    and renew: "Q db \<Longrightarrow> renew_tx env rid k l n db = Inr (rn, db') \<Longrightarrow> Q db'"
    and save: "Q db \<Longrightarrow> save_checkpoint_tx env rid k v p st n db = Inr (u, db') \<Longrightarrow> Q db'"
    and suspend: "Q db \<Longrightarrow> strip iid = iid \<Longrightarrow>
      suspend_tx env rid k v p st kd rq iid n db = Inr (u, db') \<Longrightarrow> Q db'"
    and resolve: "Q db \<Longrightarrow> resolve_interrupt_tx env iid a rj n db = Inr (u, db') \<Longrightarrow> Q db'"
    and complete: "Q db \<Longrightarrow> complete_run_tx env rid k res n db = Inr (u, db') \<Longrightarrow> Q db'"
    and fail: "Q db \<Longrightarrow> fail_run_tx env rid k er ej n db = Inr (u, db') \<Longrightarrow> Q db'"
    and request_cancel: "Q db \<Longrightarrow> request_cancel_tx env rid n db = Inr (u, db') \<Longrightarrow> Q db'"
    and finish_cancelled: "Q db \<Longrightarrow> finish_cancelled_tx env rid k n db = Inr (u, db') \<Longrightarrow> Q db'"
    and cancel_task: "Q db \<Longrightarrow> cancel_task_tx env t n db = Inr (u, db') \<Longrightarrow> Q db'"
    and agent_event: "Q db \<Longrightarrow> append_agent_event_tx env rid i c db = Inr (ev, db') \<Longrightarrow> Q db'"
    and configure: "Q db \<Longrightarrow> budget_mapping bv = Inr bl \<Longrightarrow> configure_budget_tx env sc bl n db = Inr (u, db') \<Longrightarrow> Q db'"
    and reserve: "Q db \<Longrightarrow> budget_mapping esv = Inr es \<Longrightarrow> reserve_budget_tx env sc h es n db = Inr (fr, db') \<Longrightarrow> Q db'"
begin

lemma step_core:
  assumes hex: "uuid_hex env" and q: "Q (es_db s)" and c: "\<not> is_reopen c"
  shows "Q (es_db (exec_step env c s))"
proof -
  let ?P = "\<lambda>s. Q (es_db s)"
  have "keeps ?P (\<lambda>s. (Inr (), exec_step env c s))"
  proof (cases c)
    case (CreateTask f g w t)
    have "keeps ?P (create_task env f g w t)"
      unfolding create_task_def by (intro keeps_intros keeps_transact) (rule create_task)
    then show ?thesis by (simp add: CreateTask keeps_def)
  next
    case (CreateRun t r)
    have "keeps ?P (create_run env t r)"
      unfolding create_run_def by (intro keeps_intros keeps_transact) (rule create_run)
    then show ?thesis by (simp add: CreateRun keeps_def)
  next
    case (ClaimRun r l n)
    have "keeps ?P (claim_run env r l n)"
      unfolding claim_run_def by (intro keeps_intros keeps_transact) (rule claim)
    then show ?thesis by (simp add: ClaimRun keeps_def)
  next
    case (RenewLease r k l n)
    have "keeps ?P (renew_lease env r k l n)"
      unfolding renew_lease_def by (intro keeps_intros keeps_transact) (rule renew)
    then show ?thesis by (simp add: RenewLease keeps_def)
  next
    case (SaveCheckpoint r k v p st n)
    have "keeps ?P (save_checkpoint env r k v p st n)"
      unfolding save_checkpoint_def by (intro keeps_intros keeps_transact) (rule save)
    then show ?thesis by (simp add: SaveCheckpoint keeps_def)
  next
    case (Suspend r k v p st kd rq i n)
    have "keeps ?P (ExecutionApi.suspend env r k v p st kd rq i n)"
      unfolding suspend_def
      by (intro keeps_intros keeps_transact) (rule suspend [OF _ strip_interrupt_id [OF hex]])
    then show ?thesis by (simp add: Suspend keeps_def)
  next
    case (ResolveInterrupt i a rs n)
    have "keeps ?P (resolve_interrupt env i a rs n)"
      unfolding resolve_interrupt_def by (intro keeps_intros keeps_transact) (rule resolve)
    then show ?thesis by (simp add: ResolveInterrupt keeps_def)
  next
    case (CompleteRun r k res n)
    have "keeps ?P (complete_run env r k res n)"
      unfolding complete_run_def by (intro keeps_intros keeps_transact) (rule complete)
    then show ?thesis by (simp add: CompleteRun keeps_def)
  next
    case (FailRun r k err n)
    have "keeps ?P (fail_run env r k err n)"
      unfolding fail_run_def by (intro keeps_intros keeps_transact) (rule fail)
    then show ?thesis by (simp add: FailRun keeps_def)
  next
    case (ReopenUncertain r ev n)
    then show ?thesis using c by simp
  next
    case (RequestCancel r n)
    have "keeps ?P (ExecutionApi.request_cancel env r n)"
      unfolding request_cancel_def by (intro keeps_intros keeps_transact) (rule request_cancel)
    then show ?thesis by (simp add: RequestCancel keeps_def)
  next
    case (FinishCancelled r k n)
    have "keeps ?P (ExecutionApi.finish_cancelled env r k n)"
      unfolding finish_cancelled_def by (intro keeps_intros keeps_transact) (rule finish_cancelled)
    then show ?thesis by (simp add: FinishCancelled keeps_def)
  next
    case (CancelTask t n)
    have "keeps ?P (ExecutionApi.cancel_task env t n)"
      unfolding cancel_task_def by (intro keeps_intros keeps_transact) (rule cancel_task)
    then show ?thesis by (simp add: CancelTask keeps_def)
  next
    case (AppendAgentEvent r ty i it d)
    have "keeps ?P (append_agent_event env r ty i it d)"
      unfolding append_agent_event_def by (intro keeps_intros keeps_transact) (rule agent_event)
    then show ?thesis by (simp add: AppendAgentEvent keeps_def)
  next
    case (ConfigureBudget sc l n)
    have "keeps ?P (configure_coordination_budget env sc l n)"
      unfolding configure_coordination_budget_def
      by (intro keeps_intros keeps_transact) (rule configure)
    then show ?thesis by (simp add: ConfigureBudget keeps_def)
  next
    case (ReserveBudget sc h es n)
    have "keeps ?P (reserve_coordination_budget env sc h es n)"
      unfolding reserve_coordination_budget_def
      by (intro keeps_intros keeps_transact) (rule reserve)
    then show ?thesis by (simp add: ReserveBudget keeps_def)
  next
    case (RepairAudit n)
    have "keeps ?P (repair_audit env n)" by (rule keeps_repair)
    then show ?thesis by (simp add: RepairAudit keeps_def)
  qed
  then show ?thesis using q by (simp add: keeps_def)
qed

lemma session_core:
  assumes "\<forall>(env, c) \<in> set calls. uuid_hex env \<and> \<not> is_reopen c" and "Q (es_db s)"
  shows "Q (es_db (exec_session calls s))"
  using assms
proof (induction calls arbitrary: s)
  case Nil
  then show ?case by (simp add: exec_session_def)
next
  case (Cons ec calls)
  obtain env c where ec: "ec = (env, c)" by (cases ec)
  with Cons.prems have "Q (es_db (exec_step env c s))" by (intro step_core) auto
  with Cons ec show ?case by (simp add: exec_session_def)
qed

end

locale tx_invariant = tx_core +
  assumes reopen: "Q db \<Longrightarrow> reopen_tx env cur rid ev n db = Inr (u, db') \<Longrightarrow> Q db'"
begin

lemma step:
  assumes hex: "uuid_hex env" and q: "Q (es_db s)"
  shows "Q (es_db (exec_step env c s))"
proof (cases "is_reopen c")
  case True
  then obtain r ev n where c: "c = ReopenUncertain r ev n" by (cases c) simp_all
  have "keeps (\<lambda>s. Q (es_db s)) (reopen_uncertain env r ev n)"
    unfolding reopen_uncertain_def by (intro keeps_intros keeps_transact) (rule reopen)
  then show ?thesis using q by (simp add: c keeps_def)
next
  case False
  with hex q show ?thesis by (rule step_core)
qed

lemma session:
  assumes "\<forall>(env, c) \<in> set calls. uuid_hex env" and "Q (es_db s)"
  shows "Q (es_db (exec_session calls s))"
  using assms
proof (induction calls arbitrary: s)
  case Nil
  then show ?case by (simp add: exec_session_def)
next
  case (Cons ec calls)
  obtain env c where ec: "ec = (env, c)" by (cases ec)
  with Cons.prems have "Q (es_db (exec_step env c s))" by (intro step) auto
  with Cons ec show ?case by (simp add: exec_session_def)
qed

end

section \<open>The database invariant\<close>

lemma append_agent_event_inv:
  "exec_inv db \<Longrightarrow> append_agent_event_tx env rid i c db = Inr (x, db') \<Longrightarrow> exec_inv db'"
  by (auto simp: append_agent_event_tx_def exec_inv_def split: option.splits if_splits)

lemma configure_budget_inv:
  "exec_inv db \<Longrightarrow> configure_budget_tx env sc l now db = Inr (x, db') \<Longrightarrow> exec_inv db'"
  by (auto simp: configure_budget_tx_def exec_inv_def split: option.splits if_splits)

lemma reserve_budget_frame:
  assumes "reserve_budget_tx env sc h es now db = Inr (x, db')"
  shows "d_tasks db' = d_tasks db" and "d_runs db' = d_runs db"
    and "d_checkpoints db' = d_checkpoints db" and "d_interrupts db' = d_interrupts db"
    and "d_agent_events db' = d_agent_events db"
  using assms by (auto simp: reserve_budget_tx_def split: option.splits if_splits dest!: record_frame)

lemma reserve_budget_inv:
  "exec_inv db \<Longrightarrow> reserve_budget_tx env sc h es now db = Inr (x, db') \<Longrightarrow> exec_inv db'"
  by (simp add: exec_inv_def reserve_budget_frame)

interpretation db_inv: tx_invariant exec_inv
  by unfold_locales (blast intro: create_task_inv create_run_inv claim_inv renew_inv save_checkpoint_inv
    suspend_inv resolve_inv complete_inv fail_inv request_cancel_inv finish_cancelled_inv
    cancel_task_inv append_agent_event_inv configure_budget_inv reserve_budget_inv reopen_inv)+

end
