(* ===== verification/ExecutionAudit.thy ===== *)
theory ExecutionAudit
  imports ExecutionSession
begin

text \<open>
  The audit outbox of the execution store (\<open>lipas/execution.py\<close>): it meets the
  \<open>audit_outbox\<close> contract, every call only appends to it under fresh ids, and mirroring
  it into a row set delivers claims to the tape whose contract is \<open>claim_tape\<close>.
\<close>

section \<open>The outbox contract\<close>

type_synonym audit_item = "env \<times> string \<times> string \<times> fieldmap \<times> rat"

definition item_id :: "audit_item \<Rightarrow> string" where
  "item_id = (\<lambda>(env, i, tg, fs, ts). audit_claim_id env i)"

definition record_item :: "audit_item \<Rightarrow> exec_db \<Rightarrow> exn + exec_db" where
  "record_item = (\<lambda>(env, i, tg, fs, ts) db. record_audit_event env i tg fs ts db)"

interpretation exec_outbox: audit_outbox d_audit item_id record_item
proof
  fix i :: audit_item and db db' :: exec_db
  assume r: "record_item i db = Inr db'"
  obtain env k tg fs ts where i: "i = (env, k, tg, fs, ts)" by (cases i)
  from r have cases: "db' = db \<and> item_id i \<in> ev_id ` set (d_audit db)
    \<or> (\<exists>text. db' = db\<lparr>d_audit := d_audit db @
          [\<lparr>ev_id = item_id i, ev_tag = tg, ev_fields = text, ev_at = ts\<rparr>]\<rparr>
        \<and> item_id i \<notin> ev_id ` set (d_audit db))"
    unfolding i record_item_def item_id_def split by (auto dest!: record_audit_cases)
  show "item_id i \<notin> ev_id ` set (d_audit db) \<Longrightarrow>
      \<exists>e. d_audit db' = d_audit db @ [e] \<and> ev_id e = item_id i"
    using cases by auto
  show "item_id i \<in> ev_id ` set (d_audit db) \<Longrightarrow> d_audit db' = d_audit db"
    using cases by auto
qed

section \<open>Append-only sessions\<close>

definition audit_grows :: "audit_event list \<Rightarrow> audit_event list \<Rightarrow> bool" where
  "audit_grows xs ys \<longleftrightarrow> (\<exists>t. ys = xs @ t)
     \<and> (distinct (map ev_id xs) \<longrightarrow> distinct (map ev_id ys))"

lemma audit_grows_refl [simp]: "audit_grows xs xs"
  by (simp add: audit_grows_def)

lemma audit_grows_trans: "audit_grows xs ys \<Longrightarrow> audit_grows ys zs \<Longrightarrow> audit_grows xs zs"
  by (auto simp: audit_grows_def)

lemma record_grows:
  "record_audit_event env i tg fs ts db = Inr db' \<Longrightarrow> audit_grows (d_audit db) (d_audit db')"
  using exec_outbox.record_prefix [of "(env, i, tg, fs, ts)" db db']
    exec_outbox.record_distinct [of "(env, i, tg, fs, ts)" db db']
  by (simp add: audit_grows_def record_item_def)

lemma recorders_grow:
  "record_terminal env rid tid st tg v x now db = Inr db' \<Longrightarrow> audit_grows (d_audit db) (d_audit db')"
  "record_resolved env iid rid kd ist now db = Inr db' \<Longrightarrow> audit_grows (d_audit db) (d_audit db')"
  "record_task_state env tid tst tg now db = Inr db' \<Longrightarrow> audit_grows (d_audit db) (d_audit db')"
  "record_cancel_requested env rid tid now db = Inr db' \<Longrightarrow> audit_grows (d_audit db) (d_audit db')"
  by (simp_all add: recorders record_grows)

lemma upd_audit [simp]:
  "d_audit (upd_run rid p f db) = d_audit db" "d_audit (upd_task tid a b now db) = d_audit db"
  "d_audit (upd_interrupt q g db) = d_audit db" "d_audit (deny q rs now db) = d_audit db"
  "d_audit (cancel_run_row rid now db) = d_audit db"
  by (simp_all add: upd_run_def upd_task_def upd_interrupt_def deny_def cancel_run_row_def)

lemma insert_audit:
  "insert_checkpoint rid v p st now db = Inr db' \<Longrightarrow> d_audit db' = d_audit db"
  "insert_interrupt iid rid kd rq now db = Inr db' \<Longrightarrow> d_audit db' = d_audit db"
  by (auto simp: insert_checkpoint_def insert_interrupt_def split: if_splits)

lemmas grow_dests = record_grows recorders_grow

lemma create_task_grows: "create_task_tx env g w t n db = Inr (x, db') \<Longrightarrow> audit_grows (d_audit db) (d_audit db')"
  by (auto simp: create_task_tx_def Let_def split: if_splits dest!: grow_dests)

lemma create_run_grows: "create_run_tx env t r n db = Inr (x, db') \<Longrightarrow> audit_grows (d_audit db) (d_audit db')"
  by (auto simp: create_run_tx_def split: if_splits option.splits dest!: grow_dests)

lemma claim_grows: "claim_tx env r l n db = Inr (x, db') \<Longrightarrow> audit_grows (d_audit db) (d_audit db')"
  by (auto simp: claim_tx_def Let_def split: if_splits dest!: grow_dests)

lemma renew_grows: "renew_tx env r k l n db = Inr (x, db') \<Longrightarrow> audit_grows (d_audit db) (d_audit db')"
  by (auto simp: renew_tx_def Let_def split: if_splits dest!: grow_dests)

lemma save_grows: "save_checkpoint_tx env r k v p st n db = Inr (x, db') \<Longrightarrow> audit_grows (d_audit db) (d_audit db')"
  by (auto simp: save_checkpoint_tx_def Let_def split: if_splits dest!: grow_dests insert_audit)

lemma suspend_grows:
  "suspend_tx env r k v p st kd rq i n db = Inr (x, db') \<Longrightarrow> audit_grows (d_audit db) (d_audit db')"
  by (auto simp: suspend_tx_def Let_def split: if_splits dest!: grow_dests insert_audit
      intro: audit_grows_trans)

lemma resolve_grows:
  "resolve_interrupt_tx env i a rj n db = Inr (x, db') \<Longrightarrow> audit_grows (d_audit db) (d_audit db')"
  by (auto simp: resolve_interrupt_tx_def Let_def split: if_splits dest!: grow_dests
      intro: audit_grows_trans)

lemma complete_grows:
  "complete_run_tx env r k res n db = Inr (x, db') \<Longrightarrow> audit_grows (d_audit db) (d_audit db')"
  by (auto simp: complete_run_tx_def Let_def split: if_splits dest!: grow_dests
      intro: audit_grows_trans)

lemma fail_grows:
  "fail_run_tx env r k er ej n db = Inr (x, db') \<Longrightarrow> audit_grows (d_audit db) (d_audit db')"
  by (auto simp: fail_run_tx_def Let_def split: if_splits dest!: grow_dests)

lemma reopen_grows:
  "reopen_tx env cur r ev n db = Inr (x, db') \<Longrightarrow> audit_grows (d_audit db) (d_audit db')"
  by (auto simp: reopen_tx_def Let_def split: if_splits dest!: grow_dests)

lemma finish_cancelled_grows:
  "finish_cancelled_tx env r k n db = Inr (x, db') \<Longrightarrow> audit_grows (d_audit db) (d_audit db')"
  by (auto simp: finish_cancelled_tx_def Let_def split: if_splits dest!: grow_dests)

lemma request_cancel_grows:
  assumes "request_cancel_tx env r n db = Inr (x, db')"
  shows "audit_grows (d_audit db) (d_audit db')"
proof -
  have last: "audit_grows (d_audit db4) (d_audit d)"
    if "(case p of None \<Rightarrow> Inr ((), db4) | Some i \<Rightarrow> ebind (record_resolved env (i_id i) r (i_kind i) Denied n db4)
          (\<lambda>db5. Inr ((), db5))) = Inr (y, d)" for p db4 y d
    using that by (auto split: option.splits dest!: grow_dests)
  show ?thesis
    using assms by (auto simp: request_cancel_tx_def Let_def split: if_splits dest!: grow_dests last)
      (blast intro: audit_grows_trans)+
qed

lemma stop_active_grows:
  assumes "stop_active_run env t r n db = Inr db'"
  shows "audit_grows (d_audit db) (d_audit db')"
proof -
  have settle: "audit_grows (d_audit d2) (d_audit d)"
    if "(case p of None \<Rightarrow> Inr d2 | Some i \<Rightarrow> ebind (json_text env (vobj [(''reason'', VStr ''task_cancelled'')]))
          (\<lambda>reason. record_resolved env (i_id i) r (i_kind i) Denied n
             (deny (\<lambda>j. i_id j = i_id i) reason n d2))) = Inr d" for p d2 d
    using that by (auto split: option.splits dest!: grow_dests)
  show ?thesis
    using assms by (auto simp: stop_active_run_def Let_def split: if_splits dest!: grow_dests settle)
      (blast intro: audit_grows_trans)+
qed

lemma cancel_task_grows:
  assumes "cancel_task_tx env t n db = Inr (x, db')"
  shows "audit_grows (d_audit db) (d_audit db')"
  using assms by (auto simp: cancel_task_tx_def split: if_splits option.splits
      dest!: grow_dests stop_active_grows intro: audit_grows_trans)

lemma reserve_grows:
  "reserve_budget_tx env sc h es n db = Inr (x, db') \<Longrightarrow> audit_grows (d_audit db) (d_audit db')"
  by (auto simp: reserve_budget_tx_def split: if_splits option.splits dest!: grow_dests)

lemma event_budget_grows:
  "append_agent_event_tx env r i c db = Inr (y, db') \<Longrightarrow> audit_grows (d_audit db) (d_audit db')"
  "configure_budget_tx env sc l n db = Inr (u, db') \<Longrightarrow> audit_grows (d_audit db) (d_audit db')"
  by (auto simp: append_agent_event_tx_def configure_budget_tx_def split: if_splits option.splits)

lemmas tx_grows = create_task_grows create_run_grows claim_grows renew_grows save_grows suspend_grows
  resolve_grows complete_grows fail_grows reopen_grows finish_cancelled_grows request_cancel_grows
  cancel_task_grows reserve_grows event_budget_grows

definition audit_from :: "audit_event list \<Rightarrow> exec_db \<Rightarrow> bool" where
  "audit_from a0 db \<longleftrightarrow> audit_grows a0 (d_audit db)"

lemma audit_from_step:
  "audit_from a0 db \<Longrightarrow> audit_grows (d_audit db) (d_audit db') \<Longrightarrow> audit_from a0 db'"
  unfolding audit_from_def by (rule audit_grows_trans)

interpretation audit_inv: tx_invariant "audit_from a0" for a0
  by unfold_locales (blast intro: audit_from_step tx_grows)+

end
