(* ===== verification/ExecutionFrames.thy ===== *)
theory ExecutionFrames
  imports ExecutionAudit
begin

text \<open>
  The task and run transactions of \<open>lipas/execution.py\<close> touch neither the agent event
  stream nor the coordination budgets, and conversely.
\<close>

definition shared :: "exec_db \<Rightarrow> agent_event_row list \<times> budget_row list \<times> admission_row list" where
  "shared db = (d_agent_events db, d_budgets db, d_admissions db)"

lemma record_shared: "record_audit_event env i tg fs ts db = Inr db' \<Longrightarrow> shared db' = shared db"
  by (auto simp: shared_def dest!: record_frame)

lemma recorders_shared:
  "record_terminal env rid tid st tg v x now db = Inr db' \<Longrightarrow> shared db' = shared db"
  "record_resolved env iid rid kd ist now db = Inr db' \<Longrightarrow> shared db' = shared db"
  "record_task_state env tid tst tg now db = Inr db' \<Longrightarrow> shared db' = shared db"
  "record_cancel_requested env rid tid now db = Inr db' \<Longrightarrow> shared db' = shared db"
  by (simp_all add: recorders record_shared)

lemma upd_shared [simp]:
  "shared (upd_run rid p f db) = shared db" "shared (upd_task tid sa sb now db) = shared db"
  "shared (upd_interrupt q g db) = shared db" "shared (deny q rj now db) = shared db"
  "shared (cancel_run_row rid now db) = shared db" "shared (db\<lparr>d_runs := rs\<rparr>) = shared db"
  "shared (db\<lparr>d_tasks := ts\<rparr>) = shared db" "shared (db\<lparr>d_interrupts := is\<rparr>) = shared db"
  "shared (db\<lparr>d_checkpoints := cs\<rparr>) = shared db" "shared (db\<lparr>d_audit := a\<rparr>) = shared db"
  by (simp_all add: shared_def upd_run_def upd_task_def upd_interrupt_def deny_def cancel_run_row_def)

lemma insert_shared:
  "insert_checkpoint rid v p st now db = Inr db' \<Longrightarrow> shared db' = shared db"
  "insert_interrupt iid rid kd rq now db = Inr db' \<Longrightarrow> shared db' = shared db"
  by (auto simp: insert_checkpoint_def insert_interrupt_def split: if_splits)

lemmas shared_dests = record_shared recorders_shared insert_shared

lemma tx_shared:
  "create_task_tx env g w t n db = Inr (tk, db') \<Longrightarrow> shared db' = shared db"
  "create_run_tx env t r n db = Inr (rn, db') \<Longrightarrow> shared db' = shared db"
  "claim_tx env r l n db = Inr (rn, db') \<Longrightarrow> shared db' = shared db"
  "renew_tx env r k l n db = Inr (rn, db') \<Longrightarrow> shared db' = shared db"
  "save_checkpoint_tx env r k v p st n db = Inr (u, db') \<Longrightarrow> shared db' = shared db"
  "suspend_tx env r k v p st kd rq i n db = Inr (u, db') \<Longrightarrow> shared db' = shared db"
  "resolve_interrupt_tx env i a rj n db = Inr (u, db') \<Longrightarrow> shared db' = shared db"
  "complete_run_tx env r k res n db = Inr (u, db') \<Longrightarrow> shared db' = shared db"
  "fail_run_tx env r k er ej n db = Inr (u, db') \<Longrightarrow> shared db' = shared db"
  "reopen_tx env cur r ev n db = Inr (u, db') \<Longrightarrow> shared db' = shared db"
  "finish_cancelled_tx env r k n db = Inr (u, db') \<Longrightarrow> shared db' = shared db"
  by (auto simp: create_task_tx_def create_run_tx_def claim_tx_def renew_tx_def save_checkpoint_tx_def
      suspend_tx_def resolve_interrupt_tx_def complete_run_tx_def fail_run_tx_def reopen_tx_def
      finish_cancelled_tx_def Let_def split: if_splits option.splits dest!: shared_dests)

lemma request_cancel_shared:
  assumes "request_cancel_tx env r n db = Inr (x, db')"
  shows "shared db' = shared db"
proof -
  have last: "shared d = shared db4"
    if "(case p of None \<Rightarrow> Inr ((), db4) | Some i \<Rightarrow> ebind (record_resolved env (i_id i) r (i_kind i) Denied n db4)
          (\<lambda>db5. Inr ((), db5))) = Inr (y, d)" for p db4 y d
    using that by (auto split: option.splits dest!: shared_dests)
  show ?thesis
    using assms by (auto simp: request_cancel_tx_def Let_def split: if_splits dest!: shared_dests last)
qed

lemma stop_active_shared:
  assumes "stop_active_run env t r n db = Inr db'"
  shows "shared db' = shared db"
proof -
  have settle: "shared d = shared d2"
    if "(case p of None \<Rightarrow> Inr d2 | Some i \<Rightarrow> ebind (json_text env (vobj [(''reason'', VStr ''task_cancelled'')]))
          (\<lambda>reason. record_resolved env (i_id i) r (i_kind i) Denied n
             (deny (\<lambda>j. i_id j = i_id i) reason n d2))) = Inr d" for p d2 d
    using that by (auto split: option.splits dest!: shared_dests)
  show ?thesis
    using assms by (auto simp: stop_active_run_def Let_def split: if_splits dest!: shared_dests settle)
qed

lemma cancel_task_shared:
  "cancel_task_tx env t n db = Inr (x, db') \<Longrightarrow> shared db' = shared db"
  by (auto simp: cancel_task_tx_def split: if_splits option.splits
      dest!: shared_dests stop_active_shared)

lemmas run_tx_shared = tx_shared request_cancel_shared cancel_task_shared

lemma append_event_frame:
  "append_agent_event_tx env r i c db = Inr (y, db') \<Longrightarrow>
    d_budgets db' = d_budgets db \<and> d_admissions db' = d_admissions db \<and> d_runs db' = d_runs db"
  by (auto simp: append_agent_event_tx_def split: option.splits if_splits)

lemma configure_frame:
  "configure_budget_tx env sc l n db = Inr (u, db') \<Longrightarrow>
    d_agent_events db' = d_agent_events db \<and> d_admissions db' = d_admissions db \<and> d_runs db' = d_runs db"
  by (auto simp: configure_budget_tx_def split: option.splits if_splits)

end
