(* ===== verification/ExecutionLife.thy ===== *)
theory ExecutionLife
  imports ExecutionFrames
begin

text \<open>
  Life cycles in \<open>lipas/execution.py\<close>: a run in a terminal state is never written again
  unless an operator reopens it, a closed task keeps no run that could still finish it, and
  a lease token that is not held authorises nothing.
\<close>

section \<open>Terminal runs are frozen\<close>

definition frozen :: "run \<Rightarrow> exec_db \<Rightarrow> bool" where
  "frozen r db \<longleftrightarrow> exec_inv db \<and> terminal (r_state r) \<and> r \<in> set (d_runs db)"

lemma terminal_not: "terminal s \<Longrightarrow> s \<noteq> Pending \<and> s \<noteq> Running \<and> s \<noteq> Waiting \<and> \<not> active_state s"
  by (auto simp: terminal_def active_state_def)

lemma terminal_claims:
  assumes "frozen r db"
  shows "\<not> can_claim now r" and "\<not> holds_lease k now r" and "\<not> owned k r" and "r_token r = None"
    and "r_state r \<noteq> Waiting" and "r_state r \<noteq> Running" and "r_state r \<noteq> Pending" and "\<not> active_state (r_state r)"
proof -
  have t: "terminal (r_state r)" and ok: "run_ok r"
    using assms run_ok_row [of db r] by (simp_all add: frozen_def)
  note nt = terminal_not [OF t]
  show "\<not> can_claim now r" "\<not> holds_lease k now r" "\<not> owned k r" "r_token r = None"
    "r_state r \<noteq> Waiting" "r_state r \<noteq> Running" "r_state r \<noteq> Pending" "\<not> active_state (r_state r)"
    using nt ok by (auto simp: can_claim_def holds_lease_def owned_def run_ok_def)
qed

lemma update_spares: "r \<in> set t \<Longrightarrow> \<not> p r \<Longrightarrow> r \<in> set (sql_update p f t)"
  by (auto simp: in_sql_update intro: bexI [of _ r])

lemma frozen_tx:
  assumes fz: "frozen r db" and inv: "exec_inv db'" and rows: "r \<in> set (d_runs db')"
  shows "frozen r db'"
  using assms by (simp add: frozen_def)

lemma frozen_in: "frozen r db \<Longrightarrow> r \<in> set (d_runs db)" "frozen r db \<Longrightarrow> exec_inv db"
  by (simp_all add: frozen_def)

lemma d_runs_upd [simp]:
  "d_runs (upd_run rid p f db) = sql_update (\<lambda>r. r_id r = rid \<and> p r) f (d_runs db)"
  "d_runs (upd_task tid a b now db) = d_runs db" "d_runs (upd_interrupt q g db) = d_runs db"
  "d_runs (deny q rj now db) = d_runs db"
  by (simp_all add: upd_run_def upd_task_def upd_interrupt_def deny_def)

lemma d_tasks_upd [simp]:
  "d_tasks (upd_run rid p f db) = d_tasks db" "d_tasks (upd_interrupt q g db) = d_tasks db"
  "d_tasks (deny q rj now db) = d_tasks db" "d_tasks (cancel_run_row rid now db) = d_tasks db"
  "d_tasks (upd_task tid a b now db) = sql_update (\<lambda>t. t_id t = tid \<and> t_state t = a)
     (\<lambda>t. t\<lparr>t_state := b, t_updated := now\<rparr>) (d_tasks db)"
  by (simp_all add: upd_run_def upd_task_def upd_interrupt_def deny_def cancel_run_row_def)

lemma frozen_simple:
  assumes fz: "frozen r db"
  shows "create_task_tx env g w t n db = Inr (tk, db') \<Longrightarrow> frozen r db'"
    and "create_run_tx env t rid n db = Inr (rn, db') \<Longrightarrow> frozen r db'"
    and "claim_tx env rid l n db = Inr (rn, db') \<Longrightarrow> frozen r db'"
    and "renew_tx env rid k l n db = Inr (rn, db') \<Longrightarrow> frozen r db'"
    and "save_checkpoint_tx env rid k v p st n db = Inr (u, db') \<Longrightarrow> frozen r db'"
    and "strip iid = iid \<Longrightarrow> suspend_tx env rid k v p st kd rq iid n db = Inr (u, db') \<Longrightarrow> frozen r db'"
    and "resolve_interrupt_tx env iid a rj n db = Inr (u, db') \<Longrightarrow> frozen r db'"
    and "complete_run_tx env rid k res n db = Inr (u, db') \<Longrightarrow> frozen r db'"
    and "fail_run_tx env rid k er ej n db = Inr (u, db') \<Longrightarrow> frozen r db'"
    and "finish_cancelled_tx env rid k n db = Inr (u, db') \<Longrightarrow> frozen r db'"
proof -
  note fi = frozen_in [OF fz] and tc = terminal_claims [OF fz]
  show "create_task_tx env g w t n db = Inr (tk, db') \<Longrightarrow> frozen r db'"
    by (rule frozen_tx [OF fz create_task_inv [OF fi(2)]]) (auto dest!: create_task_ok simp: fi(1))
  show "create_run_tx env t rid n db = Inr (rn, db') \<Longrightarrow> frozen r db'"
    by (rule frozen_tx [OF fz create_run_inv [OF fi(2)]]) (auto dest!: create_run_ok simp: fi(1))
  show "claim_tx env rid l n db = Inr (rn, db') \<Longrightarrow> frozen r db'"
    by (rule frozen_tx [OF fz claim_inv [OF fi(2)]])
      (auto dest!: claim_ok intro!: update_spares fi(1) simp: tc)
  show "renew_tx env rid k l n db = Inr (rn, db') \<Longrightarrow> frozen r db'"
    by (rule frozen_tx [OF fz renew_inv [OF fi(2)]])
      (auto dest!: renew_ok intro!: update_spares fi(1) simp: tc)
  show "save_checkpoint_tx env rid k v p st n db = Inr (u, db') \<Longrightarrow> frozen r db'"
    by (rule frozen_tx [OF fz save_checkpoint_inv [OF fi(2)]])
      (auto dest!: save_checkpoint_ok intro!: update_spares fi(1) simp: tc)
  show "strip iid = iid \<Longrightarrow> suspend_tx env rid k v p st kd rq iid n db = Inr (u, db') \<Longrightarrow> frozen r db'"
    by (rule frozen_tx [OF fz suspend_inv [OF fi(2)]])
      (auto dest!: suspend_ok intro!: update_spares fi(1) simp: tc)
  show "resolve_interrupt_tx env iid a rj n db = Inr (u, db') \<Longrightarrow> frozen r db'"
    by (rule frozen_tx [OF fz resolve_inv [OF fi(2)]])
      (auto dest!: resolve_ok intro!: update_spares fi(1) simp: tc)
  show "complete_run_tx env rid k res n db = Inr (u, db') \<Longrightarrow> frozen r db'"
    by (rule frozen_tx [OF fz complete_inv [OF fi(2)]])
      (auto dest!: complete_ok intro!: update_spares fi(1) simp: tc)
  show "fail_run_tx env rid k er ej n db = Inr (u, db') \<Longrightarrow> frozen r db'"
    by (rule frozen_tx [OF fz fail_inv [OF fi(2)]])
      (auto dest!: fail_ok intro!: update_spares fi(1) simp: tc)
  show "finish_cancelled_tx env rid k n db = Inr (u, db') \<Longrightarrow> frozen r db'"
    by (rule frozen_tx [OF fz finish_cancelled_inv [OF fi(2)]])
      (auto dest!: finish_cancelled_ok intro!: update_spares fi(1) simp: tc)
qed

text \<open>A cancellation rewrites one live run into one that carries the request.\<close>

definition cancels :: "string \<Rightarrow> exec_db \<Rightarrow> exec_db \<Rightarrow> bool" where
  "cancels rid db db' \<longleftrightarrow> d_tasks db' = d_tasks db \<and> (\<exists>r0 q g. r0 \<in> set (d_runs db) \<and> r_id r0 = rid
     \<and> \<not> terminal (r_state r0) \<and> q r0 \<and> (\<forall>r. r_id (g r) = r_id r \<and> r_task (g r) = r_task r \<and> r_cancel (g r))
     \<and> d_runs db' = sql_update (\<lambda>r. r_id r = rid \<and> q r) g (d_runs db))"

lemma recorders_tables:
  "record_terminal env rid tid st tg v x now db = Inr db' \<Longrightarrow> d_runs db' = d_runs db \<and> d_tasks db' = d_tasks db"
  "record_resolved env iid rid kd ist now db = Inr db' \<Longrightarrow> d_runs db' = d_runs db \<and> d_tasks db' = d_tasks db"
  "record_task_state env tid tst tg now db = Inr db' \<Longrightarrow> d_runs db' = d_runs db \<and> d_tasks db' = d_tasks db"
  "record_cancel_requested env rid tid now db = Inr db' \<Longrightarrow> d_runs db' = d_runs db \<and> d_tasks db' = d_tasks db"
  by (auto dest!: recorders_frame)

lemma cancelsI_flag:
  assumes "r0 \<in> set (d_runs db)" and "r_id r0 = rid" and "\<not> terminal (r_state r0)" and "q r0"
    and "d_tasks db' = d_tasks db"
    and "d_runs db' = d_runs (upd_run rid q (\<lambda>r. r\<lparr>r_cancel := True, r_updated := now\<rparr>) db)"
  shows "cancels rid db db'"
  unfolding cancels_def
  by (intro conjI exI [of _ r0] exI [of _ q] exI [of _ "\<lambda>r. r\<lparr>r_cancel := True, r_updated := now\<rparr>"])
    (use assms in simp_all)

lemma cancelsI_row:
  assumes "r0 \<in> set (d_runs db)" and "r_id r0 = rid" and "\<not> terminal (r_state r0)"
    and "d_tasks db' = d_tasks db" and "d_runs db' = d_runs (cancel_run_row rid now db)"
  shows "cancels rid db db'"
  unfolding cancels_def
  by (intro conjI exI [of _ r0] exI [of _ "\<lambda>_. True"] exI [of _ "\<lambda>r. r\<lparr>r_state := Cancelled,
     r_cancel := True, r_token := None, r_expires := None, r_updated := now\<rparr>"])
    (use assms in \<open>simp_all add: cancel_run_row_def\<close>)

lemma request_cancel_cancels:
  assumes tx: "request_cancel_tx env rid now db = Inr (u, db')"
  shows "cancels rid db db'"
proof -
  from tx obtain run db1 where run: "the_run KeyError env rid db = Inr run"
    and live: "\<not> terminal (r_state run)"
    and db1: "record_cancel_requested env rid (r_task run) now db = Inr db1"
    by (auto simp: request_cancel_tx_def split: if_splits)
  from the_run_row [OF run] obtain r0 where r0: "r0 \<in> set (d_runs db)" "r_id r0 = rid"
    "r_state run = r_state r0" by (auto simp: same_run_def)
  have t: "\<not> terminal (r_state r0)" using live r0(3) by simp
  note same = recorders_tables(4) [OF db1]
  show ?thesis
  proof (cases "r_state run = Running")
    case True
    with tx run live db1 have "db' = upd_run rid (\<lambda>_. True) (\<lambda>r. r\<lparr>r_cancel := True, r_updated := now\<rparr>) db1"
      by (simp add: request_cancel_tx_def)
    with same show ?thesis
      by (intro cancelsI_flag [OF r0(1,2) t, of "\<lambda>_. True"]) simp_all
  next
    case False
    have mid: "d_runs d3 = d_runs d2 \<and> d_tasks d3 = d_tasks d2"
      if "(if b then ebind (json_text env w) (\<lambda>reason. Inr (deny q reason now d2)) else Inr d2) = Inr d3"
      for b w q d2 d3 using that by (auto split: if_splits)
    have last: "d_runs d = d_runs d4 \<and> d_tasks d = d_tasks d4"
      if "(case p of None \<Rightarrow> Inr ((), d4) | Some i \<Rightarrow> ebind (record_resolved env (i_id i) rid (i_kind i) Denied now d4)
          (\<lambda>db5. Inr ((), db5))) = Inr (y, d)" for p d4 y d
      using that by (auto split: option.splits dest!: recorders_tables)
    from tx run live db1 False have "d_runs db' = d_runs (cancel_run_row rid now db1) \<and> d_tasks db' = d_tasks db1"
      by (auto simp: request_cancel_tx_def Let_def dest!: mid last recorders_tables(1))
    with same show ?thesis
      by (intro cancelsI_row [OF r0(1,2) t]) (simp_all add: cancel_run_row_def)
  qed
qed

lemma stop_active_cancels:
  assumes act: "r0 \<in> set (d_runs db)" "r_id r0 = rid" "active_state (r_state r0)"
    and d: "distinct (map r_id (d_runs db))" and tx: "stop_active_run env tid rid now db = Inr db'"
  shows "cancels rid db db'"
proof -
  from tx obtain run db1 where run: "the_run AssertionError env rid db = Inr run"
    and db1: "record_cancel_requested env rid tid now db = Inr db1"
    by (auto simp: stop_active_run_def split: if_splits)
  from the_run_row [OF run] obtain r1 where "r1 \<in> set (d_runs db)" "r_id r1 = rid" "r_state run = r_state r1"
    by (auto simp: same_run_def)
  with act d have st: "r_state run = r_state r0" by (metis distinct_key_unique)
  have t: "\<not> terminal (r_state r0)" using act(3) terminal_not by blast
  note same = recorders_tables(4) [OF db1]
  show ?thesis
  proof (cases "r_state run = Running")
    case True
    with tx run db1 have "db' = upd_run rid (\<lambda>r. r_state r = Running) (\<lambda>r. r\<lparr>r_cancel := True, r_updated := now\<rparr>) db1"
      by (simp add: stop_active_run_def)
    with same st True show ?thesis
      by (intro cancelsI_flag [OF act(1,2) t, of "\<lambda>r. r_state r = Running"]) simp_all
  next
    case False
    have mid: "d_runs d = d_runs d2 \<and> d_tasks d = d_tasks d2"
      if "(case p of None \<Rightarrow> Inr d2 | Some i \<Rightarrow> ebind (json_text env w)
          (\<lambda>reason. record_resolved env (i_id i) rid (i_kind i) Denied now
             (deny (\<lambda>j. i_id j = i_id i) reason now d2))) = Inr d" for p w d2 d
      using that by (auto split: option.splits dest!: recorders_tables)
    from tx run db1 False have "d_runs db' = d_runs (cancel_run_row rid now db1) \<and> d_tasks db' = d_tasks db1"
      by (auto simp: stop_active_run_def Let_def dest!: mid recorders_tables(1))
    with same show ?thesis
      by (intro cancelsI_row [OF act(1,2) t]) (simp_all add: cancel_run_row_def)
  qed
qed

text \<open>What \<open>cancel_task\<close> leaves: the task cancelled, its active run, if any, stopped.\<close>

lemma cancel_task_rows:
  assumes inv: "exec_inv db" and tx: "cancel_task_tx env tid now db = Inr (u, db')"
  shows "\<exists>db1. d_runs db' = d_runs db1 \<and> d_tasks db' = d_tasks (upd_task tid TOpen TCancelled now db)
    \<and> d_tasks db1 = d_tasks db
    \<and> ((d_runs db1 = d_runs db \<and> (\<forall>r \<in> set (d_runs db). r_task r = tid \<longrightarrow> \<not> active_state (r_state r)))
       \<or> (\<exists>r \<in> set (d_runs db). r_task r = tid \<and> active_state (r_state r) \<and> cancels (r_id r) db db1))"
proof -
  let ?act = "sql_first (\<lambda>r. r_task r = tid \<and> active_state (r_state r)) (d_runs db)"
  from tx obtain db1 where db1: "(case ?act of None \<Rightarrow> Inr db
      | Some r \<Rightarrow> stop_active_run env tid (r_id r) now db) = Inr db1"
    and db': "record_task_state env tid TCancelled TAG_EXECUTION_TASK_CANCELLED now
        (upd_task tid TOpen TCancelled now db1) = Inr db'"
    by (auto simp: cancel_task_tx_def split: option.splits if_splits)
  note same = recorders_tables(3) [OF db']
  show ?thesis
  proof (cases ?act)
    case None
    with db1 same show ?thesis by (intro exI [of _ db]) (auto simp: sql_first_None)
  next
    case (Some r)
    then have r: "r \<in> set (d_runs db)" "r_task r = tid" "active_state (r_state r)"
      by (auto dest: sql_first_Some)
    from Some db1 have "stop_active_run env tid (r_id r) now db = Inr db1" by simp
    from stop_active_cancels [OF r(1) refl r(3) exec_invD(5) [OF inv] this] have c: "cancels (r_id r) db db1" .
    then have t1: "d_tasks db1 = d_tasks db" by (simp add: cancels_def)
    with same have "d_tasks db' = d_tasks (upd_task tid TOpen TCancelled now db)" "d_runs db' = d_runs db1"
      by simp_all
    with t1 c r show ?thesis by blast
  qed
qed

lemma frozen_cancels:
  assumes fz: "frozen r db" and c: "cancels rid db db'"
  shows "r \<in> set (d_runs db')"
proof -
  from c obtain r0 q g where r0: "r0 \<in> set (d_runs db)" "r_id r0 = rid" "\<not> terminal (r_state r0)"
    and rows: "d_runs db' = sql_update (\<lambda>r. r_id r = rid \<and> q r) g (d_runs db)"
    by (auto simp: cancels_def)
  have "r \<noteq> r0" using r0(3) fz by (auto simp: frozen_def)
  then have "r_id r \<noteq> rid"
    using r0(1,2) frozen_in [OF fz] exec_invD(5) by (metis distinct_key_unique)
  with frozen_in(1) [OF fz] show ?thesis unfolding rows by (intro update_spares) simp_all
qed

lemma frozen_cancel:
  assumes fz: "frozen r db"
  shows "request_cancel_tx env rid n db = Inr (u, db') \<Longrightarrow> frozen r db'"
    and "cancel_task_tx env t n db = Inr (u, db') \<Longrightarrow> frozen r db'"
proof -
  note inv = frozen_in(2) [OF fz]
  show "request_cancel_tx env rid n db = Inr (u, db') \<Longrightarrow> frozen r db'"
    using frozen_tx [OF fz request_cancel_inv [OF inv]] frozen_cancels [OF fz] request_cancel_cancels by blast
  assume tx: "cancel_task_tx env t n db = Inr (u, db')"
  from cancel_task_rows [OF inv tx] frozen_cancels [OF fz] frozen_in(1) [OF fz]
  have "r \<in> set (d_runs db')" by (elim exE conjE disjE bexE) auto
  then show "frozen r db'" by (rule frozen_tx [OF fz cancel_task_inv [OF inv tx]])
qed

lemma frozen_other:
  assumes fz: "frozen r db"
  shows "append_agent_event_tx env rid i c db = Inr (ev, db') \<Longrightarrow> frozen r db'"
    and "configure_budget_tx env sc bl n db = Inr (u, db') \<Longrightarrow> frozen r db'"
    and "reserve_budget_tx env sc h es n db = Inr (fr, db') \<Longrightarrow> frozen r db'"
proof -
  note inv = frozen_in(2) [OF fz]
  show "append_agent_event_tx env rid i c db = Inr (ev, db') \<Longrightarrow> frozen r db'"
    by (rule frozen_tx [OF fz append_agent_event_inv [OF inv]])
      (simp_all add: append_event_frame frozen_in(1) [OF fz])
  show "configure_budget_tx env sc bl n db = Inr (u, db') \<Longrightarrow> frozen r db'"
    by (rule frozen_tx [OF fz configure_budget_inv [OF inv]])
      (simp_all add: configure_frame frozen_in(1) [OF fz])
  show "reserve_budget_tx env sc h es n db = Inr (fr, db') \<Longrightarrow> frozen r db'"
    by (rule frozen_tx [OF fz reserve_budget_inv [OF inv]])
      (simp_all add: reserve_budget_frame(2) frozen_in [OF fz])
qed

interpretation frozen_inv: tx_core "frozen r" for r
  by unfold_locales (blast intro: frozen_simple frozen_cancel frozen_other)+

section \<open>Closed tasks\<close>

text \<open>
  As long as nobody reopens a run, a completed task has no active run, and an active run
  of a cancelled task carries the cancellation request (so it can no longer complete).
\<close>

definition closed_ok :: "task list \<Rightarrow> run \<Rightarrow> bool" where
  "closed_ok ts r \<longleftrightarrow> active_state (r_state r) \<longrightarrow>
     (\<forall>t \<in> set ts. t_id t = r_task r \<longrightarrow> t_state t = TOpen \<or> (t_state t = TCancelled \<and> r_cancel r))"

definition closed_inv :: "exec_db \<Rightarrow> bool" where
  "closed_inv db \<longleftrightarrow> exec_inv db \<and> (\<forall>r \<in> set (d_runs db). closed_ok (d_tasks db) r)"

lemma closed_invI:
  "exec_inv db' \<Longrightarrow> d_tasks db' = ts \<Longrightarrow> d_runs db' = rs \<Longrightarrow> \<forall>r \<in> set rs. closed_ok ts r \<Longrightarrow> closed_inv db'"
  by (simp add: closed_inv_def)

lemma closed_update:
  assumes "\<forall>r \<in> set rs. closed_ok ts r"
    and "\<And>r. p r \<Longrightarrow> r_task (f r) = r_task r \<and> (active_state (r_state (f r)) \<longrightarrow> active_state (r_state r))
      \<and> (r_cancel r \<longrightarrow> r_cancel (f r))"
  shows "\<forall>r \<in> set (sql_update p f rs). closed_ok ts r"
proof
  fix r assume "r \<in> set (sql_update p f rs)"
  then obtain r0 where r0: "r0 \<in> set rs" "r = (if p r0 then f r0 else r0)" by (auto simp: in_sql_update)
  show "closed_ok ts r"
  proof (cases "p r0")
    case True
    with r0 have r: "r = f r0" by simp
    from assms(1) r0(1) have "closed_ok ts r0" by blast
    with assms(2) [OF True] show ?thesis unfolding r closed_ok_def by auto
  next
    case False
    with r0 assms(1) show ?thesis by simp
  qed
qed

lemma closed_inD: "closed_inv db \<Longrightarrow> exec_inv db" "closed_inv db \<Longrightarrow> \<forall>r \<in> set (d_runs db). closed_ok (d_tasks db) r"
  by (simp_all add: closed_inv_def)

lemma closed_simple:
  assumes cl: "closed_inv db"
  shows "claim_tx env rid l n db = Inr (rn, db') \<Longrightarrow> closed_inv db'"
    and "renew_tx env rid k l n db = Inr (rn, db') \<Longrightarrow> closed_inv db'"
    and "save_checkpoint_tx env rid k v p st n db = Inr (u, db') \<Longrightarrow> closed_inv db'"
    and "strip iid = iid \<Longrightarrow> suspend_tx env rid k v p st kd rq iid n db = Inr (u, db') \<Longrightarrow> closed_inv db'"
    and "resolve_interrupt_tx env iid a rj n db = Inr (u, db') \<Longrightarrow> closed_inv db'"
    and "fail_run_tx env rid k er ej n db = Inr (u, db') \<Longrightarrow> closed_inv db'"
    and "finish_cancelled_tx env rid k n db = Inr (u, db') \<Longrightarrow> closed_inv db'"
proof -
  note ci = closed_inD [OF cl]
  show "claim_tx env rid l n db = Inr (rn, db') \<Longrightarrow> closed_inv db'"
    by (frule claim_inv [OF ci(1)], drule claim_ok, elim exE conjE, erule closed_invI)
      (simp, simp, rule closed_update [OF ci(2)], auto dest: can_claim_active)
  show "renew_tx env rid k l n db = Inr (rn, db') \<Longrightarrow> closed_inv db'"
    by (frule renew_inv [OF ci(1)], drule renew_ok, elim exE conjE, erule closed_invI)
      (simp, simp, rule closed_update [OF ci(2)], auto)
  show "save_checkpoint_tx env rid k v p st n db = Inr (u, db') \<Longrightarrow> closed_inv db'"
    by (frule save_checkpoint_inv [OF ci(1)], drule save_checkpoint_ok, elim exE conjE, erule closed_invI)
      (simp, simp, rule closed_update [OF ci(2)], auto)
  show "strip iid = iid \<Longrightarrow> suspend_tx env rid k v p st kd rq iid n db = Inr (u, db') \<Longrightarrow> closed_inv db'"
    by (frule suspend_inv [OF ci(1)], assumption, drule suspend_ok, elim exE conjE, erule closed_invI)
      (simp, simp, rule closed_update [OF ci(2)], auto simp: active_state_def)
  show "resolve_interrupt_tx env iid a rj n db = Inr (u, db') \<Longrightarrow> closed_inv db'"
    by (frule resolve_inv [OF ci(1)], drule resolve_ok, elim exE conjE, erule closed_invI)
      (simp, simp, rule closed_update [OF ci(2)], auto simp: released_def active_state_def)
  show "fail_run_tx env rid k er ej n db = Inr (u, db') \<Longrightarrow> closed_inv db'"
    by (frule fail_inv [OF ci(1)], drule fail_ok, elim exE conjE, erule closed_invI)
      (simp, simp, rule closed_update [OF ci(2)], auto simp: active_state_def)
  show "finish_cancelled_tx env rid k n db = Inr (u, db') \<Longrightarrow> closed_inv db'"
    by (frule finish_cancelled_inv [OF ci(1)], drule finish_cancelled_ok, elim exE conjE, erule closed_invI)
      (simp, simp, rule closed_update [OF ci(2)], auto simp: active_state_def)
qed

lemma closed_create:
  assumes cl: "closed_inv db"
  shows "create_task_tx env g w t n db = Inr (tk, db') \<Longrightarrow> closed_inv db'"
    and "create_run_tx env t rid n db = Inr (rn, db') \<Longrightarrow> closed_inv db'"
proof -
  note ci = closed_inD [OF cl]
  assume tx: "create_task_tx env g w t n db = Inr (tk, db')"
  from create_task_ok [OF tx] obtain a where new: "t_state tk = TOpen"
    and db': "db' = db\<lparr>d_tasks := d_tasks db @ [tk], d_audit := a\<rparr>" by blast
  have "\<forall>r \<in> set (d_runs db). closed_ok (d_tasks db @ [tk]) r"
    using ci(2) new by (auto simp: closed_ok_def)
  then show "closed_inv db'" by (intro closed_invI [OF create_task_inv [OF ci(1) tx]]) (simp_all add: db')
next
  note ci = closed_inD [OF cl]
  assume tx: "create_run_tx env t rid n db = Inr (rn, db')"
  from create_run_ok [OF tx] obtain a tk where tk: "tk \<in> set (d_tasks db)" "t_id tk = t" "t_state tk = TOpen"
    and rn: "rn = new_run rid t n" and db': "db' = db\<lparr>d_runs := d_runs db @ [rn], d_audit := a\<rparr>" by blast
  have "x = tk" if "x \<in> set (d_tasks db)" "t_id x = t" for x
    using exec_invD(4) [OF ci(1)] tk that by (metis distinct_key_unique)
  then have "closed_ok (d_tasks db) rn" using tk(3) by (auto simp: closed_ok_def rn)
  moreover have "d_runs db' = d_runs db @ [rn]" "d_tasks db' = d_tasks db" by (simp_all add: db')
  ultimately show "closed_inv db'"
    using create_run_inv [OF ci(1) tx] ci(2) by (simp add: closed_inv_def)
qed

lemma closed_complete:
  assumes cl: "closed_inv db" and tx: "complete_run_tx env rid k res n db = Inr (u, db')"
  shows "closed_inv db'"
proof -
  note ci = closed_inD [OF cl]
  let ?f = "\<lambda>r. r\<lparr>r_state := Completed, r_result := Some res, r_token := None, r_expires := None, r_updated := n\<rparr>"
  from complete_ok [OF tx] obtain a r0 where r0: "r0 \<in> set (d_runs db)" "r_id r0 = rid" "holds_lease k n r0"
    and db': "db' = (upd_task (r_task r0) TOpen TCompleted n (upd_run rid (owned k) ?f db))\<lparr>d_audit := a\<rparr>"
    by blast
  have act: "active_state (r_state r0)" using holds_leaseD(1) [OF r0(3)] by (simp add: active_state_def)
  have "closed_ok (d_tasks db') r" if r: "r \<in> set (d_runs db')" for r
  proof -
    from r obtain q where q: "q \<in> set (d_runs db)" "r = (if r_id q = rid \<and> owned k q then ?f q else q)"
      by (auto simp: db' in_sql_update)
    show ?thesis
    proof (cases "r_id q = rid")
      case True
      then have "q = r0" using q(1) r0 exec_invD(5) [OF ci(1)] by (metis distinct_key_unique)
      with q(2) r0 holds_leaseD(3) [OF r0(3)] have "r_state r = Completed" by simp
      then show ?thesis by (simp add: closed_ok_def active_state_def)
    next
      case False
      with q have "r = q" by simp
      moreover have "r_task q \<noteq> r_task r0" if "active_state (r_state q)"
        using runs_okD(5) [OF exec_invD(1) [OF ci(1)] q(1) r0(1) that act] False r0(2) by blast
      ultimately show ?thesis using ci(2) q(1)
        by (fastforce simp: closed_ok_def db' in_sql_update split: if_splits)
    qed
  qed
  then show ?thesis using complete_inv [OF ci(1) tx] by (simp add: closed_inv_def)
qed

lemma closed_cancels:
  assumes cl: "closed_inv db" and c: "cancels rid db db'"
  shows "\<forall>r \<in> set (d_runs db'). closed_ok (d_tasks db) r"
    and "\<And>r q. r \<in> set (d_runs db) \<Longrightarrow> r_id r = rid \<Longrightarrow> q \<in> set (d_runs db') \<Longrightarrow> r_id q = rid \<Longrightarrow> r_cancel q"
proof -
  note ci = closed_inD [OF cl]
  from c obtain r0 p g where r0: "r0 \<in> set (d_runs db)" "r_id r0 = rid" "\<not> terminal (r_state r0)" "p r0"
    and g: "\<forall>r. r_id (g r) = r_id r \<and> r_task (g r) = r_task r \<and> r_cancel (g r)"
    and rows: "d_runs db' = sql_update (\<lambda>r. r_id r = rid \<and> p r) g (d_runs db)"
    by (auto simp: cancels_def)
  have only: "x = r0" if "x \<in> set (d_runs db)" "r_id x = rid" for x
    using that r0(1,2) exec_invD(5) [OF ci(1)] by (metis distinct_key_unique)
  have act: "active_state (r_state r0)" using not_terminal [OF r0(3)] by (auto simp: active_state_def)
  have img: "(q \<in> set (d_runs db) \<and> r_id q \<noteq> rid) \<or> q = g r0" if "q \<in> set (d_runs db')" for q
    using that only r0(2,4) by (auto simp: rows in_sql_update split: if_splits)
  show "r_cancel q" if "q \<in> set (d_runs db')" "r_id q = rid" for q
    using img [OF that(1)] that(2) g by auto
  show "\<forall>r \<in> set (d_runs db'). closed_ok (d_tasks db) r"
  proof
    fix q assume "q \<in> set (d_runs db')"
    then consider "q \<in> set (d_runs db)" | "q = g r0" using img by blast
    then show "closed_ok (d_tasks db) q"
    proof cases
      case 1
      then show ?thesis using ci(2) by blast
    next
      case 2
      from ci(2) r0(1) have "closed_ok (d_tasks db) r0" by blast
      with act 2 g show ?thesis by (auto simp: closed_ok_def)
    qed
  qed
qed

lemma cancels_other: "cancels rid db db' \<Longrightarrow> q \<in> set (d_runs db') \<Longrightarrow> r_id q \<noteq> rid \<Longrightarrow> q \<in> set (d_runs db)"
  by (auto simp: cancels_def in_sql_update split: if_splits)

lemma closed_request_cancel:
  assumes cl: "closed_inv db" and tx: "request_cancel_tx env rid n db = Inr (u, db')"
  shows "closed_inv db'"
proof -
  note c = request_cancel_cancels [OF tx]
  have "d_tasks db' = d_tasks db" using c by (simp add: cancels_def)
  with closed_cancels(1) [OF cl c] request_cancel_inv [OF closed_inD(1) [OF cl] tx] show ?thesis
    by (simp add: closed_inv_def)
qed

lemma closed_cancel_task:
  assumes cl: "closed_inv db" and tx: "cancel_task_tx env tid n db = Inr (u, db')"
  shows "closed_inv db'"
proof -
  note inv = closed_inD(1) [OF cl]
  from cancel_task_rows [OF inv tx] obtain db1 where runs: "d_runs db' = d_runs db1"
    and tasks: "d_tasks db' = d_tasks (upd_task tid TOpen TCancelled n db)"
    and stop: "(d_runs db1 = d_runs db \<and> (\<forall>r \<in> set (d_runs db). r_task r = tid \<longrightarrow> \<not> active_state (r_state r)))
       \<or> (\<exists>r \<in> set (d_runs db). r_task r = tid \<and> active_state (r_state r) \<and> cancels (r_id r) db db1)"
    by blast
  have old: "\<forall>q \<in> set (d_runs db1). closed_ok (d_tasks db) q"
    using stop closed_cancels(1) [OF cl] closed_inD(2) [OF cl] by auto
  have flag: "r_cancel q" if q: "q \<in> set (d_runs db1)" "r_task q = tid" "active_state (r_state q)" for q
    using stop
  proof (elim disjE conjE bexE)
    assume "d_runs db1 = d_runs db" "\<forall>r \<in> set (d_runs db). r_task r = tid \<longrightarrow> \<not> active_state (r_state r)"
    with q show ?thesis by simp
  next
    fix r assume r: "r \<in> set (d_runs db)" "r_task r = tid" "active_state (r_state r)" "cancels (r_id r) db db1"
    show ?thesis
    proof (cases "r_id q = r_id r")
      case True
      then show ?thesis using closed_cancels(2) [OF cl r(4) r(1) refl q(1)] by blast
    next
      case False
      with cancels_other [OF r(4) q(1)] have "q \<in> set (d_runs db)" by blast
      from runs_okD(5) [OF exec_invD(1) [OF inv] this r(1) q(3) r(3)] False q(2) r(2) show ?thesis by simp
    qed
  qed
  have "closed_ok (d_tasks db') q" if q: "q \<in> set (d_runs db')" for q
  proof -
    have q1: "q \<in> set (d_runs db1)" using q runs by simp
    show ?thesis
      unfolding closed_ok_def
    proof (intro impI ballI)
      fix t assume act: "active_state (r_state q)" and t: "t \<in> set (d_tasks db')" "t_id t = r_task q"
      from t(1) tasks obtain t0 where t0: "t0 \<in> set (d_tasks db)"
        "t = (if t_id t0 = tid \<and> t_state t0 = TOpen then t0\<lparr>t_state := TCancelled, t_updated := n\<rparr> else t0)"
        by (auto simp: in_sql_update)
      then have id0: "t_id t0 = r_task q" using t(2) by (auto split: if_splits)
      from old q1 act t0(1) id0 have st0: "t_state t0 = TOpen \<or> (t_state t0 = TCancelled \<and> r_cancel q)"
        by (simp add: closed_ok_def)
      show "t_state t = TOpen \<or> (t_state t = TCancelled \<and> r_cancel q)"
      proof (cases "t_id t0 = tid \<and> t_state t0 = TOpen")
        case True
        then have "r_cancel q" using flag [OF q1 _ act] id0 by simp
        with True t0(2) show ?thesis by simp
      next
        case False
        with t0(2) have "t = t0" by auto
        with st0 show ?thesis by simp
      qed
    qed
  qed
  with cancel_task_inv [OF inv tx] show ?thesis by (simp add: closed_inv_def)
qed

lemma closed_other:
  assumes cl: "closed_inv db"
  shows "append_agent_event_tx env rid i c db = Inr (ev, db') \<Longrightarrow> closed_inv db'"
    and "configure_budget_tx env sc bl n db = Inr (u, db') \<Longrightarrow> closed_inv db'"
    and "reserve_budget_tx env sc h es n db = Inr (fr, db') \<Longrightarrow> closed_inv db'"
proof -
  note ci = closed_inD [OF cl]
  have t: "append_agent_event_tx env rid i c db = Inr (ev, db') \<Longrightarrow> d_tasks db' = d_tasks db"
    "configure_budget_tx env sc bl n db = Inr (u, db') \<Longrightarrow> d_tasks db' = d_tasks db"
    by (auto simp: append_agent_event_tx_def configure_budget_tx_def split: option.splits if_splits)
  have go: "closed_inv db'" if "exec_inv db'" "d_tasks db' = d_tasks db" "d_runs db' = d_runs db"
    using closed_invI [OF that ci(2)] .
  show "append_agent_event_tx env rid i c db = Inr (ev, db') \<Longrightarrow> closed_inv db'"
    using go append_agent_event_inv [OF ci(1)] t(1) append_event_frame by blast
  show "configure_budget_tx env sc bl n db = Inr (u, db') \<Longrightarrow> closed_inv db'"
    using go configure_budget_inv [OF ci(1)] t(2) configure_frame by blast
  show "reserve_budget_tx env sc h es n db = Inr (fr, db') \<Longrightarrow> closed_inv db'"
    by (rule go [OF reserve_budget_inv [OF ci(1)] reserve_budget_frame(1,2)])
qed

lemma closed_inv_empty: "closed_inv empty_db"
  using exec_inv_empty by (simp add: closed_inv_def empty_db_def)

interpretation closed: tx_core closed_inv
  by unfold_locales (blast intro: closed_simple closed_create closed_complete closed_request_cancel
    closed_cancel_task closed_other)+

section \<open>Fencing\<close>

text \<open>The run, the token and the time a lease-carrying call presents.\<close>

fun lease_call :: "exec_call \<Rightarrow> (string \<times> string \<times> pyval) option" where
  "lease_call (RenewLease r k l n) = Some (r, k, n)"
| "lease_call (SaveCheckpoint r k v p st n) = Some (r, k, n)"
| "lease_call (Suspend r k v p st kd rq i n) = Some (r, k, n)"
| "lease_call (CompleteRun r k res n) = Some (r, k, n)"
| "lease_call (FailRun r k err n) = Some (r, k, n)"
| "lease_call (FinishCancelled r k n) = Some (r, k, n)"
| "lease_call _ = None"

definition lease_held :: "string \<Rightarrow> string \<Rightarrow> rat \<Rightarrow> exec_db \<Rightarrow> bool" where
  "lease_held rid token t db \<longleftrightarrow> (\<exists>r \<in> set (d_runs db). r_id r = rid \<and> holds_lease token t r)"

lemma keeps_exact:
  assumes "\<And>x db'. tx db = Inr (x, db') \<Longrightarrow> False"
  shows "keeps (\<lambda>s. es_db s = db) (transact tx)"
  by (rule keeps_transact [of "\<lambda>d. d = db"]) (use assms in blast)

lemma unheld_calls_change_nothing:
  assumes c: "lease_call c = Some (rid, token, now)" and t: "timestamp env now = Inr t"
    and free: "\<not> lease_held rid token t (es_db s)"
  shows "es_db (exec_step env c s) = es_db s"
proof -
  let ?db = "es_db s"
  have no: "\<not> (r0 \<in> set (d_runs ?db) \<and> r_id r0 = rid \<and> holds_lease token t r0)" for r0
    using free by (auto simp: lease_held_def)
  note k = keeps_exact [where db = ?db] and q = keeps_finish [where Q = "\<lambda>d. d = ?db"]
  have go: "es_db (snd (m s)) = ?db" if "keeps (\<lambda>s. es_db s = ?db) m" for m :: "exec_store \<Rightarrow> (exn + 'b) \<times> exec_store"
    using that by (simp add: keeps_def)
  show ?thesis
  proof (cases c)
    case (RenewLease r kk l n)
    with c t have "r = rid" "kk = token" "\<And>x. timestamp env n = Inr x \<Longrightarrow> x = t" by auto
    then have "keeps (\<lambda>s. es_db s = ?db) (renew_lease env r kk l n)"
      unfolding renew_lease_def by (intro keeps_lift_bind keeps_bind k q) (use no in \<open>blast dest: renew_ok\<close>)
    from go [OF this] RenewLease show ?thesis by simp
  next
    case (SaveCheckpoint r kk v p st n)
    with c t have "r = rid" "kk = token" "\<And>x. timestamp env n = Inr x \<Longrightarrow> x = t" by auto
    then have "keeps (\<lambda>s. es_db s = ?db) (save_checkpoint env r kk v p st n)"
      unfolding save_checkpoint_def
      by (intro keeps_lift_bind keeps_bind k q) (use no in \<open>blast dest: save_checkpoint_ok\<close>)
    from go [OF this] SaveCheckpoint show ?thesis by simp
  next
    case (Suspend r kk v p st kd rq i n)
    with c t have "r = rid" "kk = token" "\<And>x. timestamp env n = Inr x \<Longrightarrow> x = t" by auto
    then have "keeps (\<lambda>s. es_db s = ?db) (suspend env r kk v p st kd rq i n)"
      unfolding suspend_def
      by (intro keeps_lift_bind keeps_bind keeps_integrity k q) (use no in \<open>blast dest: suspend_ok\<close>)
    from go [OF this] Suspend show ?thesis by simp
  next
    case (CompleteRun r kk res n)
    with c t have "r = rid" "kk = token" "\<And>x. timestamp env n = Inr x \<Longrightarrow> x = t" by auto
    then have "keeps (\<lambda>s. es_db s = ?db) (complete_run env r kk res n)"
      unfolding complete_run_def by (intro keeps_lift_bind keeps_bind k q) (use no in \<open>blast dest: complete_ok\<close>)
    from go [OF this] CompleteRun show ?thesis by simp
  next
    case (FailRun r kk err n)
    with c t have "r = rid" "kk = token" "\<And>x. timestamp env n = Inr x \<Longrightarrow> x = t" by auto
    then have "keeps (\<lambda>s. es_db s = ?db) (fail_run env r kk err n)"
      unfolding fail_run_def by (intro keeps_lift_bind keeps_bind k q) (use no in \<open>blast dest: fail_ok\<close>)
    from go [OF this] FailRun show ?thesis by simp
  next
    case (FinishCancelled r kk n)
    with c t have "r = rid" "kk = token" "\<And>x. timestamp env n = Inr x \<Longrightarrow> x = t" by auto
    then have "keeps (\<lambda>s. es_db s = ?db) (finish_cancelled env r kk n)"
      unfolding finish_cancelled_def
      by (intro keeps_lift_bind keeps_bind k q) (use no in \<open>blast dest: finish_cancelled_ok\<close>)
    from go [OF this] FinishCancelled show ?thesis by simp
  qed (use c in simp_all)
qed

text \<open>While a lease is live nobody else can claim the run.\<close>

lemma claim_then_blocked:
  assumes inv: "exec_inv db" and c1: "claim_tx env rid l t db = Inr (r, db')"
    and live: "Fin t2 < f_add t l"
  shows "\<not> (\<exists>q \<in> set (d_runs db'). r_id q = rid \<and> can_claim t2 q)"
proof
  assume "\<exists>q \<in> set (d_runs db'). r_id q = rid \<and> can_claim t2 q"
  then obtain q where q: "q \<in> set (d_runs db')" "r_id q = rid" "can_claim t2 q" by blast
  let ?f = "\<lambda>r. r\<lparr>r_state := Running, r_attempt := r_attempt r + 1,
          r_token := Some (fresh_id env ''lease''), r_expires := Some (f_add t l), r_updated := t\<rparr>"
  from claim_ok [OF c1] obtain a r0 where r0: "r0 \<in> set (d_runs db)" "r_id r0 = rid" "can_claim t r0"
    and db': "db' = (upd_run rid (can_claim t) ?f db)\<lparr>d_audit := a\<rparr>" by blast
  from q(1) obtain q0 where q0: "q0 \<in> set (d_runs db)" "q = (if r_id q0 = rid \<and> can_claim t q0 then ?f q0 else q0)"
    by (auto simp: db' in_sql_update)
  have "r_id q0 = rid" using q0(2) q(2) by (auto split: if_splits)
  then have "q0 = r0" using q0(1) r0 exec_invD(5) [OF inv] by (metis distinct_key_unique)
  with q0(2) r0 have "q = ?f r0" by simp
  with q(3) live show False by (simp add: can_claim_def expired_def)
qed

end
