(* ===== verification/ExecutionMirror.thy ===== *)
theory ExecutionMirror
  imports ExecutionAudit
begin

text \<open>
  Mirroring the audit outbox into the claim tape (\<open>ExecutionStore.repair_audit\<close> in
  \<open>lipas/execution.py\<close>): what one pass delivers and counts, and that repeating it, with
  the cursor kept or lost, changes nothing. The tape facts come from the interpretation
  \<open>tape\<close> of \<open>claim_tape\<close>.
\<close>

section \<open>One event\<close>

definition tape_ok :: "rowset \<Rightarrow> bool" where
  "tape_ok rs \<longleftrightarrow> store_inv (rs_store rs)"

definition on_tape :: "rowset \<Rightarrow> claim \<Rightarrow> bool" where
  "on_tape rs c \<longleftrightarrow> (\<exists>x \<in> set (s_log (rs_store rs)). claim_id x = claim_id c \<and> same_claim_payload x c)"

lemma rowset_fold_Inr:
  assumes "rowset_fold cid c rs = (Inr m, rs')"
  shows "rs' = rs\<lparr>rs_store := snd (store_fold cid c (rs_store rs))\<rparr>"
    and "fst (store_fold cid c (rs_store rs)) = Inr m"
    and "violations c (rs_store rs) (owners (tag c) rs) = Inr []"
proof -
  have s: "snd (rowset_fold cid c rs) = rs'" "fst (rowset_fold cid c rs) = Inr m" using assms by simp_all
  show "rs' = rs\<lparr>rs_store := snd (store_fold cid c (rs_store rs))\<rparr>"
    and "fst (store_fold cid c (rs_store rs)) = Inr m"
    and "violations c (rs_store rs) (owners (tag c) rs) = Inr []"
    using s by (cases cid c rs rule: rowset_fold_cases; simp)+
qed

lemma fold_rows: "rowset_fold cid c rs = (Inr m, rs') \<Longrightarrow> rs_rows rs' = rs_rows rs"
  by (metis rowset_fold_rows snd_conv)

lemma fold_log_prefix:
  assumes "tape_ok rs" and "rowset_fold cid c rs = (Inr m, rs')"
  shows "\<exists>t. s_log (rs_store rs') = s_log (rs_store rs) @ t"
  using tape.log_fold_prefix [of "rs_store rs" cid c] assms rowset_fold_Inr [OF assms(2)]
  by (simp add: tape_ok_def)

lemma fold_tape_ok: "tape_ok rs \<Longrightarrow> rowset_fold cid c rs = (Inr m, rs') \<Longrightarrow> tape_ok rs'"
  using rowset_fold_Inr(1) [of cid c rs m rs'] by (simp add: tape_ok_def store_fold_inv)

lemma fold_on_tape:
  assumes ok: "tape_ok rs" and f: "rowset_fold cid c rs = (Inr m, rs')" and wf: "wf_fields (cfields c)"
  shows "on_tape rs' c"
proof (cases "claim_id c \<in> claim_id ` set (s_log (rs_store rs))")
  case True
  then obtain x where x: "x \<in> set (s_log (rs_store rs))" "claim_id x = claim_id c" by auto
  have "same_claim_payload x c"
  proof (rule ccontr)
    assume "\<not> same_claim_payload x c"
    from tape.fold_conflict [OF _ x this] ok rowset_fold_Inr(2) [OF f] show False
      by (simp add: tape_ok_def)
  qed
  with x fold_log_prefix [OF ok f] show ?thesis by (auto simp: on_tape_def)
next
  case False
  with ok tape.fold_fresh [of "rs_store rs" c cid] rowset_fold_Inr(1) [OF f] fields_eq_refl [OF wf]
  show ?thesis by (auto simp: on_tape_def tape_ok_def same_claim_payload_def)
qed

lemma fold_length:
  assumes ok: "tape_ok rs" and f: "rowset_fold cid c rs = (Inr m, rs')"
  shows "length (s_log (rs_store rs')) =
    length (s_log (rs_store rs)) + (if claim_known (claim_id c) rs then 0 else 1)"
  using tape.fold_known [of "rs_store rs" c cid] tape.fold_fresh [of "rs_store rs" c cid] ok
    rowset_fold_Inr(1) [OF f]
  by (auto simp: claim_known_def tape_ok_def)

lemma on_tape_prefix:
  "on_tape rs c \<Longrightarrow> \<exists>t. s_log (rs_store rs') = s_log (rs_store rs) @ t \<Longrightarrow> on_tape rs' c"
  by (auto simp: on_tape_def)

lemma on_tape_known: "on_tape rs c \<Longrightarrow> claim_known (claim_id c) rs"
  unfolding on_tape_def claim_known_def by (metis imageI)

text \<open>A claim already on the tape folds to the same tape when the rows admit it.\<close>

lemma refold:
  assumes ok: "tape_ok rs" and t: "on_tape rs c"
    and adm: "violations c (rs_store rs) (owners (tag c) rs) = Inr []"
  shows "\<exists>m. rowset_fold cid c rs = (Inr m, rs)"
proof -
  from t obtain x where x: "x \<in> set (s_log (rs_store rs))" "claim_id x = claim_id c"
    "same_claim_payload x c" by (auto simp: on_tape_def)
  have inv: "store_inv (rs_store rs)" using ok by (simp add: tape_ok_def)
  obtain m where "fst (store_fold cid c (rs_store rs)) = Inr m"
    using tape.fold_redeliver [OF inv x] by blast
  moreover have "snd (store_fold cid c (rs_store rs)) = rs_store rs"
    using tape.fold_known [OF inv] x by (metis imageI)
  ultimately have "store_fold cid c (rs_store rs) = (Inr m, rs_store rs)" by (metis prod.collapse)
  with adm show ?thesis by (simp add: rowset_fold_def)
qed

section \<open>One pass\<close>

definition event_claim :: "audit_event \<Rightarrow> fieldmap \<Rightarrow> claim" where
  "event_claim e fs = mirror_claim ''execution.store'' e fs"

lemma event_claim_sel [simp]: "claim_id (event_claim e fs) = ev_id e" "cfields (event_claim e fs) = fs"
    "tag (event_claim e fs) = ev_tag e"
  by (simp_all add: event_claim_def mirror_claim_def)

definition delivered :: "env \<Rightarrow> rowset \<Rightarrow> audit_event \<Rightarrow> bool" where
  "delivered env rs e \<longleftrightarrow> (\<exists>fs. event_fields env e = Inr fs \<and> on_tape rs (event_claim e fs))"

definition proper_event :: "env \<Rightarrow> audit_event \<Rightarrow> bool" where
  "proper_event env e \<longleftrightarrow> (case event_fields env e of Inl x \<Rightarrow> True | Inr fs \<Rightarrow> wf_fields fs)"

lemma repair_loop_ok:
  assumes "repair_loop env n evs rs c k = (Inr k', rs', c')" and "tape_ok rs"
    and "\<forall>(i, e) \<in> set evs. proper_event env e"
  shows "tape_ok rs' \<and> (\<exists>t. s_log (rs_store rs') = s_log (rs_store rs) @ t)
    \<and> (\<forall>(i, e) \<in> set evs. delivered env rs' e)
    \<and> length (s_log (rs_store rs')) + k = length (s_log (rs_store rs)) + k'
    \<and> c' = (if evs = [] then c else fst (last evs)) \<and> rs_rows rs' = rs_rows rs"
  using assms
proof (induction evs arbitrary: n rs c k)
  case Nil
  then show ?case by simp
next
  case (Cons ie evs)
  obtain i e where ie: "ie = (i, e)" by (cases ie)
  from Cons.prems(1) obtain fs m rs1 where fs: "event_fields env e = Inr fs"
    and f: "rowset_fold (e_merge_id env n) (event_claim e fs) rs = (Inr m, rs1)"
    and rest: "repair_loop env (Suc n) evs rs1 i (if claim_known (ev_id e) rs then k else Suc k)
        = (Inr k', rs', c')"
    by (auto simp: ie event_claim_def split: sum.splits prod.splits)
  have wf: "wf_fields (cfields (event_claim e fs))"
    using Cons.prems(3) fs by (auto simp: ie proper_event_def)
  note IH = Cons.IH [OF rest fold_tape_ok [OF Cons.prems(2) f]]
  have all: "\<forall>(i, e) \<in> set evs. proper_event env e" using Cons.prems(3) by auto
  from IH [OF all] obtain t where t: "s_log (rs_store rs') = s_log (rs_store rs1) @ t" by blast
  have "on_tape rs' (event_claim e fs)"
    using on_tape_prefix [OF fold_on_tape [OF Cons.prems(2) f wf]] t by blast
  with fs have "delivered env rs' e" by (auto simp: delivered_def)
  then show ?case
    using IH [OF all] fold_length [OF Cons.prems(2) f] fold_log_prefix [OF Cons.prems(2) f] fold_rows [OF f]
    by (auto simp: ie split: if_splits)
qed

text \<open>
  A tag is unguarded when every row that owns it admits every claim, as the history row,
  which owns the execution tags, does.
\<close>

definition unguarded :: "string \<Rightarrow> rowset \<Rightarrow> bool" where
  "unguarded tg rs \<longleftrightarrow> (\<forall>row \<in> set (rs_rows rs). tg \<in> set (r_namespace row) \<longrightarrow>
     (\<forall>c s. r_check row c s = Inr []))"

lemma unguarded_admits:
  assumes "unguarded tg rs" and "tag c = tg"
  shows "violations c s (owners tg rs) = Inr []"
proof -
  have "violations c s rows = Inr []" if "\<forall>row \<in> set rows. r_check row c s = Inr []" for rows
    using that by (induction rows) auto
  then show ?thesis using assms(1) by (simp add: owners_def unguarded_def)
qed

text \<open>A pass over delivered events changes nothing and counts nothing.\<close>

lemma repair_loop_again:
  assumes "tape_ok rs" and "\<forall>(i, e) \<in> set evs. delivered env rs e"
    and adm: "\<forall>(i, e) \<in> set evs. unguarded (ev_tag e) rs"
  shows "repair_loop env n evs rs c k = (Inr k, rs, if evs = [] then c else fst (last evs))"
  using assms(2) adm
proof (induction evs arbitrary: n c)
  case Nil
  then show ?case by simp
next
  case (Cons ie evs)
  obtain i e where ie: "ie = (i, e)" by (cases ie)
  from Cons.prems obtain fs where fs: "event_fields env e = Inr fs" "on_tape rs (event_claim e fs)"
    by (auto simp: ie delivered_def)
  have "unguarded (ev_tag e) rs" using Cons.prems(2) by (simp add: ie)
  from unguarded_admits [OF this, of "event_claim e fs"] obtain m
    where m: "rowset_fold (e_merge_id env n) (event_claim e fs) rs = (Inr m, rs)"
    using refold [OF assms(1) fs(2)] by auto
  have "claim_known (ev_id e) rs" using on_tape_known [OF fs(2)] by simp
  then show ?case using Cons.IH [of "Suc n" i] Cons.prems m fs(1)
    by (simp add: ie event_claim_def)
qed

section \<open>The selected events\<close>

lemma filter_rowids:
  "filter (\<lambda>(i, e). c < i) (zip [Suc a..<Suc a + length xs] xs) = drop (c - a) (zip [Suc a..<Suc a + length xs] xs)"
proof (induction xs arbitrary: a)
  case Nil
  then show ?case by simp
next
  case (Cons x xs)
  have split: "zip [Suc a..<Suc a + length (x # xs)] (x # xs)
      = (Suc a, x) # zip [Suc (Suc a)..<Suc (Suc a) + length xs] xs"
    by (simp add: upt_conv_Cons del: upt_Suc)
  show ?case
  proof (cases "c \<le> a")
    case True
    then show ?thesis unfolding split using Cons.IH [of "Suc a"] by (simp del: upt_Suc)
  next
    case False
    then have "c - a = Suc (c - Suc a)" by simp
    with False show ?thesis unfolding split using Cons.IH [of "Suc a"] by (simp del: upt_Suc)
  qed
qed

lemma outbox_after_all:
  "outbox_after c None db = drop c (zip [1..<Suc (length (d_audit db))] (d_audit db))"
  using filter_rowids [of c 0 "d_audit db"] by (simp add: outbox_after_def of_run_def case_prod_beta')

lemma outbox_after_events: "map snd (outbox_after c None db) = drop c (d_audit db)"
proof -
  have "map snd (zip [1..<Suc (length (d_audit db))] (d_audit db)) = d_audit db"
    by (rule map_snd_zip) (simp del: upt_Suc)
  then show ?thesis by (metis outbox_after_all drop_map)
qed

lemma outbox_after_last:
  "c < length (d_audit db) \<Longrightarrow> fst (last (outbox_after c None db)) = length (d_audit db)"
  by (simp add: outbox_after_all last_drop last_conv_nth nth_append)

lemma outbox_after_Nil: "outbox_after c None db = [] \<longleftrightarrow> length (d_audit db) \<le> c"
  by (simp add: outbox_after_all del: upt_Suc)

section \<open>Passes over the whole outbox\<close>

text \<open>What an unbounded pass without a run filter establishes when it returns.\<close>

lemma repair_pass:
  assumes r: "repair_audit env None s = (Inr n, s')" and rs: "es_rowset s = Some rs" "tape_ok rs"
    and whole: "es_audit_run_id s = None" and cur: "es_cursor s \<le> length (d_audit (es_db s))"
    and ev: "\<forall>e \<in> set (d_audit (es_db s)). proper_event env e"
  shows "\<exists>rs'. s' = s\<lparr>es_rowset := Some rs', es_cursor := length (d_audit (es_db s))\<rparr> \<and> tape_ok rs'
    \<and> rs_rows rs' = rs_rows rs
    \<and> (\<forall>e \<in> set (drop (es_cursor s) (d_audit (es_db s))). delivered env rs' e)
    \<and> (\<exists>t. s_log (rs_store rs') = s_log (rs_store rs) @ t \<and> length t = n)"
proof (cases "es_cursor s = length (d_audit (es_db s))")
  case True
  then have "outbox_after (es_cursor s) None (es_db s) = []" by (simp add: outbox_after_Nil)
  with r rs whole have "s' = s" "n = 0" by (simp_all add: repair_audit_def)
  moreover have "s = s\<lparr>es_rowset := Some rs, es_cursor := length (d_audit (es_db s))\<rparr>"
    using rs(1) True by simp
  ultimately show ?thesis using rs(2) True by (intro exI [of _ rs]) simp
next
  case False
  let ?evs = "outbox_after (es_cursor s) None (es_db s)"
  from False cur have ne: "?evs \<noteq> []" "es_cursor s < length (d_audit (es_db s))"
    by (simp_all add: outbox_after_Nil)
  obtain res rs' c' where l: "repair_loop env 0 ?evs rs (es_cursor s) 0 = (res, rs', c')"
    by (rule prod_cases3)
  with r rs whole ne(1) have res: "res = Inr n" and s': "s' = s\<lparr>es_rowset := Some rs', es_cursor := c'\<rparr>"
    by (simp_all add: repair_audit_def Let_def)
  have sub: "e \<in> set (drop (es_cursor s) (d_audit (es_db s)))" if "(i, e) \<in> set ?evs" for i e
    using that unfolding outbox_after_events [symmetric] by force
  have sup: "\<exists>i. (i, e) \<in> set ?evs" if "e \<in> set (drop (es_cursor s) (d_audit (es_db s)))" for e
    using that unfolding outbox_after_events [symmetric] by auto
  have proper: "\<forall>(i, e) \<in> set ?evs. proper_event env e"
    using sub ev by (auto dest: in_set_dropD)
  from repair_loop_ok [OF l [unfolded res] rs(2) proper] ne outbox_after_last [OF ne(2)] sup s'
  show ?thesis by (intro exI [of _ rs']) fastforce
qed

end
