(* ===== verification/ExecutionBudgets.thy ===== *)
theory ExecutionBudgets
  imports ExecutionFrames
begin

text \<open>
  The coordination budgets of \<open>lipas/execution.py\<close> against an abstract ledger: a scope has
  limits and a list of admitted estimates, one per handoff, and what is spent of a bucket
  is the float sum of the admitted amounts in order. The stored JSON columns are a faithful
  representation of that ledger.
\<close>

section \<open>Budget mappings and their JSON\<close>

definition plain_keys :: "(string \<times> 'v) list \<Rightarrow> bool" where
  "plain_keys bs \<longleftrightarrow> LIPAS_TYPE_KEY \<notin> fst ` set bs \<and> LIPAS_DATA_KEY \<notin> fst ` set bs"

definition budgets_ok :: "budgets \<Rightarrow> bool" where
  "budgets_ok bs \<longleftrightarrow> distinct (map fst bs) \<and> (\<forall>b \<in> fst ` set bs. strip b = b \<and> b \<noteq> [])
     \<and> (\<forall>r \<in> snd ` set bs. 0 \<le> r)"

lemma insort_key_map: "insort_key fst (k, f v) (map (\<lambda>(k, v). (k, f v)) xs)
    = map (\<lambda>(k, v). (k, f v)) (insort_key fst (k, v) xs)"
  by (induction xs) auto

lemma sort_dict_map: "sort_dict (map (\<lambda>(k, v). (k, f v)) bs) = map (\<lambda>(k, v). (k, f v)) (sort_dict bs)"
proof (induction bs)
  case Nil
  then show ?case by (simp add: sort_dict_def)
next
  case (Cons kv bs)
  then show ?case by (cases kv) (simp add: sort_dict_def insort_key_map)
qed

lemma map_of_sort_dict: "distinct (map fst bs) \<Longrightarrow> map_of (sort_dict bs) = map_of bs"
  by (metis map_of_inject_set sort_dict_distinct sort_dict_perm)

lemma budgets_ok_sort [simp]: "budgets_ok (sort_dict bs) = budgets_ok bs"
  by (simp add: budgets_ok_def)

lemma plain_keys_sort [simp]: "plain_keys (sort_dict bs) = plain_keys bs"
  by (simp add: plain_keys_def)

lemma budget_val_keys: "budget_val bs = VDict (map (\<lambda>(b, r). (KStr b, VFloat (Fin r))) bs)"
  by (simp add: budget_val_def vobj_def case_prod_beta' comp_def)

lemma encode_budget_items: "encode_items reg (map (\<lambda>(b, r). (KStr b, VFloat (Fin r))) bs)
    = Inr (map (\<lambda>(b, r). (KStr b, VFloat (Fin r))) bs)"
  by (induction bs) auto

lemma canon_budget_items: "canon_items (map (\<lambda>(b, r). (KStr b, VFloat (Fin r))) bs)
    = Inr (map (\<lambda>(b, r). (b, VFloat (Fin r))) bs)"
  by (induction bs) auto

lemma decode_budget_items: "decode_items reg (map (\<lambda>(b, r). (KStr b, VFloat (Fin r))) bs)
    = Inr (map (\<lambda>(b, r). (KStr b, VFloat (Fin r))) bs)"
  by (induction bs) auto

lemma budget_keys: "KStr k \<in> fst ` set (map (\<lambda>(b, r). (KStr b, VFloat (Fin r))) bs) \<longleftrightarrow> k \<in> fst ` set bs"
  by force

text \<open>The JSON text of a budget: its items in key order; reserved names are refused.\<close>

lemma json_budget: "json_text env (budget_val bs)
    = (if plain_keys bs then Inr (budget_val (sort_dict bs)) else Inl UnserializableClaim)"
proof -
  have c: "canon (VDict (map (\<lambda>(b, r). (KStr b, VFloat (Fin r))) bs)) = Inr (budget_val (sort_dict bs))"
    using sort_dict_map [of "\<lambda>r. VFloat (Fin r)" bs]
    by (simp add: canon_budget_items budget_val_def)
  show ?thesis
    unfolding json_text_def budget_val_keys [of bs] encode.simps budget_keys encode_budget_items
    using c by (simp add: plain_keys_def)
qed

lemma decode_budget: "plain_keys bs \<Longrightarrow> from_json env (budget_val bs) = Inr (budget_val bs)"
proof -
  assume p: "plain_keys bs"
  have "map_of (map (\<lambda>(b, r). (KStr b, VFloat (Fin r))) bs) (KStr LIPAS_TYPE_KEY) = None"
    using p budget_keys [of LIPAS_TYPE_KEY bs] by (simp add: plain_keys_def map_of_eq_None_iff)
  then show ?thesis by (simp add: from_json_def budget_val_keys decode_budget_items)
qed

lemma dict_put_new: "b \<notin> fst ` set nb \<Longrightarrow> dict_put b r nb = nb @ [(b, r)]"
  by (induction b r nb rule: dict_put.induct) auto

lemma budget_step_ok:
  "budgets_ok (nb @ (b, r) # bs) \<Longrightarrow> budget_step nb (KStr b, VFloat (Fin r)) = Inr (nb @ [(b, r)])"
  using dict_put_new [of b nb r] by (auto simp: budgets_ok_def budget_step_def)

lemma budget_mapping_val: "budgets_ok bs \<Longrightarrow> budget_mapping (budget_val bs) = Inr bs"
proof -
  have "efoldl budget_step nb (map (\<lambda>(b, r). (KStr b, VFloat (Fin r))) bs) = Inr (nb @ bs)"
    if "budgets_ok (nb @ bs)" for nb
    using that
  proof (induction bs arbitrary: nb)
    case Nil
    then show ?case by simp
  next
    case (Cons br bs)
    obtain b r where "br = (b, r)" by (cases br)
    with Cons.prems Cons.IH [of "nb @ [(b, r)]"] budget_step_ok [of nb b r bs] show ?case by simp
  qed
  from this [of "[]"] show "budgets_ok bs \<Longrightarrow> ?thesis"
    by (simp add: budget_mapping_def budget_val_keys)
qed

lemma budget_mapping_ok: "budget_mapping v = Inr bs \<Longrightarrow> budgets_ok bs"
proof -
  have step: "budgets_ok nb'" if "budgets_ok nb" "budget_step nb kv = Inr nb'" for nb kv nb'
  proof -
    from that(2) have "\<exists>k r. strip k \<noteq> [] \<and> strip k \<notin> fst ` set nb \<and> 0 \<le> r
      \<and> nb' = dict_put (strip k) r nb"
      by (fastforce simp: budget_step_def not_less split: pykey.splits if_splits option.splits)
    with that(1) show ?thesis by (auto simp: budgets_ok_def dict_put_new)
  qed
  assume "budget_mapping v = Inr bs"
  then obtain d where "efoldl budget_step [] d = Inr bs"
    by (auto simp: budget_mapping_def split: pyval.splits)
  then show ?thesis
  proof (rule efoldl_invariant)
    show "budgets_ok []" by (simp add: budgets_ok_def)
  qed (rule step)
qed

text \<open>Two stored budgets compare equal exactly when they are the same mapping.\<close>

lemma py_sub_budget: "py_sub (map (\<lambda>(b, r). (KStr b, VFloat (Fin r))) as) (map (\<lambda>(b, r). (KStr b, VFloat (Fin r))) bs)
    \<longleftrightarrow> (\<forall>(b, r) \<in> set as. map_of bs b = Some r)"
proof -
  have m: "map_of (map (\<lambda>(b, r). (KStr b, VFloat (Fin r))) bs) (KStr k)
      = map_option (\<lambda>r. VFloat (Fin r)) (map_of bs k)" for k
    by (induction bs) auto
  show ?thesis by (induction as) (auto simp: m split: option.splits)
qed

lemma py_eq_budget:
  assumes "distinct (map fst as)" and "distinct (map fst bs)"
  shows "py_eq (budget_val as) (budget_val bs) \<longleftrightarrow> map_of as = map_of bs"
proof
  assume "py_eq (budget_val as) (budget_val bs)"
  then have len: "length as = length bs" and sub: "\<forall>(b, r) \<in> set as. map_of bs b = Some r"
    by (simp_all add: budget_val_keys py_sub_budget)
  from sub have "set as \<subseteq> set bs" by (auto dest: map_of_SomeD)
  moreover have "card (set as) = card (set bs)"
    using assms len by (metis distinct_card distinct_map)
  ultimately have "set as = set bs" by (simp add: card_subset_eq)
  with assms show "map_of as = map_of bs" by (metis map_of_inject_set)
next
  assume "map_of as = map_of bs"
  with assms have "set as = set bs" by (metis map_of_inject_set)
  with assms show "py_eq (budget_val as) (budget_val bs)"
    by (auto simp: budget_val_keys py_sub_budget) (metis distinct_card distinct_map)
qed

section \<open>The abstract ledger\<close>

record ledger =
  lg_limits :: budgets
  lg_entries :: "(string \<times> budgets) list"

definition add_amount :: "string \<Rightarrow> rat \<Rightarrow> budgets \<Rightarrow> rat" where
  "add_amount b acc est = (case map_of est b of None \<Rightarrow> acc
     | Some x \<Rightarrow> (case f_add acc x of Fin r \<Rightarrow> r | _ \<Rightarrow> acc))"

definition entries_spent :: "(string \<times> budgets) list \<Rightarrow> string \<Rightarrow> rat" where
  "entries_spent es b = foldl (\<lambda>acc e. add_amount b acc (snd e)) 0 es"

definition fits :: "budgets \<Rightarrow> (string \<Rightarrow> rat) \<Rightarrow> string \<times> rat \<Rightarrow> bool" where
  "fits lims sp bx = (case map_of lims (fst bx) of None \<Rightarrow> False
     | Some l \<Rightarrow> f_add (sp (fst bx)) (snd bx) \<le> Fin l)"

definition ledger_reserve :: "string \<Rightarrow> budgets \<Rightarrow> ledger \<Rightarrow> exn + bool \<times> ledger" where
  "ledger_reserve h est lg = (case map_of (lg_entries lg) h of
      Some prior \<Rightarrow> if set prior = set est then Inr (False, lg) else Inl ExecutionStateError
    | None \<Rightarrow> if (\<forall>bx \<in> set est. fits (lg_limits lg) (entries_spent (lg_entries lg)) bx)
        then Inr (True, lg\<lparr>lg_entries := lg_entries lg @ [(h, sort_dict est)]\<rparr>)
        else Inl ExecutionStateError)"

text \<open>The ledger a scope's rows stand for.\<close>

definition budget_of :: "pyval \<Rightarrow> budgets" where
  "budget_of v = (case budget_mapping v of Inr bs \<Rightarrow> bs | Inl e \<Rightarrow> [])"

definition entries_of :: "string \<Rightarrow> exec_db \<Rightarrow> (string \<times> budgets) list" where
  "entries_of sc db = map (\<lambda>a. (ad_handoff a, budget_of (ad_estimate a)))
     (filter (\<lambda>a. ad_scope a = sc) (d_admissions db))"

definition ledger_of :: "string \<Rightarrow> exec_db \<Rightarrow> ledger option" where
  "ledger_of sc db = map_option (\<lambda>row. \<lparr>lg_limits = budget_of (b_limits row),
     lg_entries = entries_of sc db\<rparr>) (find_budget sc db)"

section \<open>The reservation loop\<close>

lemma f_add_cases: "0 \<le> a \<Longrightarrow> 0 \<le> b \<Longrightarrow> f_add a b \<le> Fin l \<Longrightarrow> \<exists>r. f_add a b = Fin r \<and> 0 \<le> r \<and> r \<le> l"
  using to_double_nonneg [of "a + b"] by (cases "f_add a b") (auto simp: f_add_def)

lemma budgets_ok_put:
  "budgets_ok sp \<Longrightarrow> strip b = b \<Longrightarrow> b \<noteq> [] \<Longrightarrow> 0 \<le> r \<Longrightarrow> budgets_ok (dict_put b r sp)"
  using dict_put_all [of sp "\<lambda>r. 0 \<le> r" r b] by (auto simp: budgets_ok_def)

lemma dict_get_put: "dict_get d (dict_put k v m) c = (if c = k then v else dict_get d m c)"
  by (simp add: dict_get_def)

lemma dict_get_nonneg: "budgets_ok sp \<Longrightarrow> 0 \<le> dict_get 0 sp b"
  by (auto simp: budgets_ok_def dict_get_def split: option.split dest!: map_of_SomeD)

lemma reserve_bucket_fits:
  assumes "budgets_ok sp" and "0 \<le> x" and "fits lims (dict_get 0 sp) (b, x)"
  shows "reserve_bucket lims sp (b, x) = Inr (dict_put b (add_amount b (dict_get 0 sp b) [(b, x)]) sp)"
    and "\<exists>l. map_of lims b = Some l \<and> 0 \<le> add_amount b (dict_get 0 sp b) [(b, x)]
      \<and> add_amount b (dict_get 0 sp b) [(b, x)] \<le> l"
proof -
  from assms(3) obtain l where l: "map_of lims b = Some l" "f_add (dict_get 0 sp b) x \<le> Fin l"
    by (auto simp: fits_def split: option.splits)
  from f_add_cases [OF dict_get_nonneg [OF assms(1)] assms(2) l(2)] obtain r
    where r: "f_add (dict_get 0 sp b) x = Fin r" "0 \<le> r" "r \<le> l" by blast
  with l show "reserve_bucket lims sp (b, x) = Inr (dict_put b (add_amount b (dict_get 0 sp b) [(b, x)]) sp)"
    and "\<exists>l. map_of lims b = Some l \<and> 0 \<le> add_amount b (dict_get 0 sp b) [(b, x)]
      \<and> add_amount b (dict_get 0 sp b) [(b, x)] \<le> l"
    by (simp_all add: reserve_bucket_def add_amount_def Let_def)
qed

lemma reserve_bucket_rejects:
  "\<not> fits lims (dict_get 0 sp) (b, x) \<Longrightarrow> reserve_bucket lims sp (b, x) = Inl ExecutionStateError"
  by (auto simp: reserve_bucket_def fits_def Let_def not_le split: option.splits)

text \<open>
  The loop admits the estimate exactly when every bucket fits on its own, since the buckets
  are distinct; the new spend adds each amount once.
\<close>

lemma reserve_loop:
  assumes "distinct (map fst est)" and "\<forall>(b, x) \<in> set est. 0 \<le> x \<and> strip b = b \<and> b \<noteq> []"
    and "budgets_ok sp" and "\<forall>b r. map_of sp b = Some r \<longrightarrow> (\<exists>l. map_of lims b = Some l \<and> r \<le> l)"
  shows "if \<forall>bx \<in> set est. fits lims (dict_get 0 sp) bx
    then \<exists>sp'. efoldl (reserve_bucket lims) sp est = Inr sp' \<and> budgets_ok sp'
      \<and> (\<forall>b r. map_of sp' b = Some r \<longrightarrow> (\<exists>l. map_of lims b = Some l \<and> r \<le> l))
      \<and> (\<forall>b. dict_get 0 sp' b = add_amount b (dict_get 0 sp b) est)
    else efoldl (reserve_bucket lims) sp est = Inl ExecutionStateError"
  using assms
proof (induction est arbitrary: sp)
  case Nil
  then show ?case by (simp add: add_amount_def)
next
  case (Cons bx est)
  obtain b x where bx: "bx = (b, x)" by (cases bx)
  have x: "0 \<le> x" "strip b = b" "b \<noteq> []" "b \<notin> fst ` set est" using Cons.prems(1,2) by (auto simp: bx)
  show ?case
  proof (cases "fits lims (dict_get 0 sp) (b, x)")
    case False
    then show ?thesis using reserve_bucket_rejects [OF False] by (auto simp: bx)
  next
    case True
    let ?r = "add_amount b (dict_get 0 sp b) [(b, x)]"
    let ?sp = "dict_put b ?r sp"
    note ok = reserve_bucket_fits [OF Cons.prems(3) x(1) True]
    note get = dict_get_put
    have same: "fits lims (dict_get 0 ?sp) cy = fits lims (dict_get 0 sp) cy" if "cy \<in> set est" for cy
    proof -
      have "fst cy \<noteq> b" using that x(4) by (metis imageI)
      then show ?thesis by (simp add: fits_def get split: option.split)
    qed
    have sp: "budgets_ok ?sp" using ok(2) budgets_ok_put [OF Cons.prems(3) x(2,3)] by blast
    have lim: "\<forall>c r. map_of ?sp c = Some r \<longrightarrow> (\<exists>l. map_of lims c = Some l \<and> r \<le> l)"
      using ok(2) Cons.prems(4) by auto
    have amount: "add_amount c (dict_get 0 ?sp c) est = add_amount c (dict_get 0 sp c) (bx # est)" for c
    proof (cases "c = b")
      case True
      then have "map_of est c = None" using x(4) by (simp add: map_of_eq_None_iff)
      with True show ?thesis by (simp add: add_amount_def get bx)
    next
      case False
      then show ?thesis by (simp add: add_amount_def get bx)
    qed
    have rest: "distinct (map fst est)" "\<forall>(b, x) \<in> set est. 0 \<le> x \<and> strip b = b \<and> b \<noteq> []"
      using Cons.prems(1,2) by auto
    from Cons.IH [OF rest sp lim] show ?thesis using ok(1) True same amount by (auto simp: bx split: if_splits)
  qed
qed

section \<open>The stored representation\<close>

definition stored :: "pyval \<Rightarrow> budgets \<Rightarrow> bool" where
  "stored v bs \<longleftrightarrow> v = budget_val bs \<and> plain_keys bs \<and> budgets_ok bs"

lemma storedD:
  assumes "stored v bs"
  shows "from_json env v = Inr (budget_val bs)" and "budget_mapping (budget_val bs) = Inr bs"
    and "budget_of v = bs" and "budgets_ok bs" and "distinct (map fst bs)"
  using assms decode_budget budget_mapping_val by (auto simp: stored_def budget_of_def budgets_ok_def)

lemma stored_json: "json_text env (budget_val bs) = Inr t \<Longrightarrow> budgets_ok bs \<Longrightarrow> stored t (sort_dict bs)"
  by (auto simp: json_budget stored_def split: if_splits)

definition capped :: "budgets \<Rightarrow> budgets \<Rightarrow> bool" where
  "capped lims sp \<longleftrightarrow> (\<forall>b r. map_of sp b = Some r \<longrightarrow> (\<exists>l. map_of lims b = Some l \<and> r \<le> l))"

lemma reserve_loop_cases:
  assumes est: "budgets_ok est" and sp: "budgets_ok sp" and cap: "capped lims sp"
  obtains (admit) sp' where "\<forall>bx \<in> set est. fits lims (dict_get 0 sp) bx"
      "efoldl (reserve_bucket lims) sp est = Inr sp'" "budgets_ok sp'" "capped lims sp'"
      "\<forall>b. dict_get 0 sp' b = add_amount b (dict_get 0 sp b) est"
  | (reject) "\<not> (\<forall>bx \<in> set est. fits lims (dict_get 0 sp) bx)"
      "efoldl (reserve_bucket lims) sp est = Inl ExecutionStateError"
proof -
  have d: "distinct (map fst est)" and e: "\<forall>(b, x) \<in> set est. 0 \<le> x \<and> strip b = b \<and> b \<noteq> []"
    using est by (auto simp: budgets_ok_def)
  note loop = reserve_loop [OF d e sp cap [unfolded capped_def]]
  show thesis
  proof (cases "\<forall>bx \<in> set est. fits lims (dict_get 0 sp) bx")
    case True
    with loop admit show thesis unfolding capped_def by auto
  next
    case False
    with loop reject show thesis by presburger
  qed
qed

definition budget_row_ok :: "exec_db \<Rightarrow> budget_row \<Rightarrow> bool" where
  "budget_row_ok db row \<longleftrightarrow> (\<exists>lims sp. stored (b_limits row) lims \<and> stored (b_spent row) sp
     \<and> capped lims sp \<and> (\<forall>b. dict_get 0 sp b = entries_spent (entries_of (b_scope row) db) b))"

definition budgets_inv :: "exec_db \<Rightarrow> bool" where
  "budgets_inv db \<longleftrightarrow> distinct (map b_scope (d_budgets db)) \<and> (\<forall>row \<in> set (d_budgets db). budget_row_ok db row)
     \<and> (\<forall>a \<in> set (d_admissions db). (\<exists>est. stored (ad_estimate a) est) \<and> ad_scope a \<in> b_scope ` set (d_budgets db))"

lemma budgets_inv_empty: "budgets_inv empty_db"
  by (simp add: budgets_inv_def empty_db_def)

lemma entries_lookup: "map_of (entries_of sc db) h = map_option (\<lambda>a. budget_of (ad_estimate a))
    (sql_first (\<lambda>a. ad_scope a = sc \<and> ad_handoff a = h) (d_admissions db))"
proof -
  have "map_of (map (\<lambda>a. (ad_handoff a, budget_of (ad_estimate a))) (filter (\<lambda>a. ad_scope a = sc) as)) h
      = map_option (\<lambda>a. budget_of (ad_estimate a))
          (sql_first (\<lambda>a. ad_scope a = sc \<and> ad_handoff a = h) as)" for as
    by (induction as) auto
  then show ?thesis by (simp add: entries_of_def)
qed

lemma find_budget_row: "find_budget sc db = Some row \<Longrightarrow> row \<in> set (d_budgets db) \<and> b_scope row = sc"
  by (auto simp: find_budget_def dest: sql_first_Some)

lemma ledger_ofD:
  assumes "ledger_of sc db = Some lg"
  obtains row where "find_budget sc db = Some row" "lg = \<lparr>lg_limits = budget_of (b_limits row), lg_entries = entries_of sc db\<rparr>"
  using assms by (auto simp: ledger_of_def)

text \<open>What the transaction computes on a known scope, in terms of the ledger.\<close>

lemma reserve_tx_rejects:
  assumes inv: "budgets_inv db" and lg: "ledger_of sc db = Some lg" and est: "budgets_ok est"
    and r: "ledger_reserve h est lg = Inl e"
  shows "reserve_budget_tx env sc h est now db = Inl ExecutionStateError"
proof -
  from lg obtain row where row: "find_budget sc db = Some row"
    and lg': "lg = \<lparr>lg_limits = budget_of (b_limits row), lg_entries = entries_of sc db\<rparr>" by (rule ledger_ofD)
  from inv find_budget_row [OF row] obtain lims sp where st: "stored (b_limits row) lims"
      "stored (b_spent row) sp" "capped lims sp" and sum: "\<forall>b. dict_get 0 sp b = entries_spent (entries_of sc db) b"
    by (auto simp: budgets_inv_def budget_row_ok_def)
  show ?thesis
  proof (cases "sql_first (\<lambda>a. ad_scope a = sc \<and> ad_handoff a = h) (d_admissions db)")
    case (Some a)
    then obtain pr where pr: "stored (ad_estimate a) pr"
      using inv by (auto simp: budgets_inv_def dest!: sql_first_Some)
    have "set pr \<noteq> set est"
      using r Some storedD(3) [OF pr] by (auto simp: ledger_reserve_def lg' entries_lookup split: if_splits)
    then have "\<not> py_eq (budget_val pr) (budget_val est)"
      using py_eq_budget [OF storedD(5) [OF pr]] est storedD(5) [OF pr]
      by (metis budgets_ok_def map_of_inject_set)
    with row Some storedD(1) [OF pr] show ?thesis by (simp add: reserve_budget_tx_def)
  next
    case None
    have fn: "dict_get 0 sp = entries_spent (entries_of sc db)" using sum by (simp add: fun_eq_iff)
    have no: "\<not> (\<forall>bx \<in> set est. fits lims (dict_get 0 sp) bx)"
      using r None storedD(3) [OF st(1)] unfolding fn
      by (simp add: ledger_reserve_def lg' entries_lookup split: if_splits)
    from est storedD(4) [OF st(2)] st(3) have "efoldl (reserve_bucket lims) sp est = Inl ExecutionStateError"
      by (cases rule: reserve_loop_cases) (use no in blast)+
    with row None show ?thesis
      using storedD(1,2) [OF st(1)] storedD(1,2) [OF st(2)] by (simp add: reserve_budget_tx_def)
  qed
qed

text \<open>How the rows change when a fresh reservation commits.\<close>

lemma entries_spent_snoc: "entries_spent (es @ [(h, est)]) b = add_amount b (entries_spent es b) est"
  by (simp add: entries_spent_def)

lemma add_amount_sort: "distinct (map fst est) \<Longrightarrow> add_amount b acc (sort_dict est) = add_amount b acc est"
  by (simp add: add_amount_def map_of_sort_dict)

lemma dict_get_sort: "distinct (map fst bs) \<Longrightarrow> dict_get d (sort_dict bs) k = dict_get d bs k"
  by (simp add: dict_get_def map_of_sort_dict)

lemma reserve_fresh_rows:
  assumes r: "reserve_budget_tx env sc h est now db = Inr (True, db')"
    and row: "find_budget sc db = Some row"
    and st: "stored (b_limits row) lims" "stored (b_spent row) sp"
  obtains sp' ej sj a where
    "sql_first (\<lambda>a. ad_scope a = sc \<and> ad_handoff a = h) (d_admissions db) = None"
    "efoldl (reserve_bucket lims) sp est = Inr sp'"
    "json_text env (budget_val est) = Inr ej" "json_text env (budget_val sp') = Inr sj"
    "db' = db\<lparr>d_admissions := d_admissions db @ [\<lparr>ad_scope = sc, ad_handoff = h,
                 ad_estimate = ej, ad_created = now\<rparr>],
              d_budgets := sql_update (\<lambda>b. b_scope b = sc)
                 (\<lambda>b. b\<lparr>b_spent := sj, b_updated := now\<rparr>) (d_budgets db), d_audit := a\<rparr>"
  using r row storedD(1,2) [OF st(1)] storedD(1,2) [OF st(2)]
  by (auto simp: reserve_budget_tx_def split: option.splits if_splits dest!: record_frame)

lemma reserve_tx_repeats:
  assumes inv: "budgets_inv db" and lg: "ledger_of sc db = Some lg" and est: "budgets_ok est"
    and r: "reserve_budget_tx env sc h est now db = Inr (False, db')"
  shows "db' = db \<and> ledger_reserve h est lg = Inr (False, lg)"
proof -
  from lg obtain row where row: "find_budget sc db = Some row"
    and lg': "lg = \<lparr>lg_limits = budget_of (b_limits row), lg_entries = entries_of sc db\<rparr>" by (rule ledger_ofD)
  from r row obtain a where a: "sql_first (\<lambda>a. ad_scope a = sc \<and> ad_handoff a = h) (d_admissions db) = Some a"
    by (auto simp: reserve_budget_tx_def split: option.splits)
  then obtain pr where pr: "stored (ad_estimate a) pr"
    using inv by (auto simp: budgets_inv_def dest!: sql_first_Some)
  from r row a storedD(1) [OF pr] have "py_eq (budget_val pr) (budget_val est)" "db' = db"
    by (simp_all add: reserve_budget_tx_def split: if_splits)
  then have "set pr = set est"
    using py_eq_budget [OF storedD(5) [OF pr]] est storedD(5) [OF pr]
    by (metis budgets_ok_def map_of_inject_set)
  with \<open>db' = db\<close> a storedD(3) [OF pr] show ?thesis
    by (simp add: ledger_reserve_def lg' entries_lookup)
qed

lemma find_budget_update:
  "find_budget k (db\<lparr>d_admissions := ad, d_budgets := sql_update (\<lambda>b. b_scope b = sc)
      (\<lambda>b. b\<lparr>b_spent := sj, b_updated := now\<rparr>) (d_budgets db), d_audit := a\<rparr>)
    = map_option (\<lambda>b. if b_scope b = sc then b\<lparr>b_spent := sj, b_updated := now\<rparr> else b) (find_budget k db)"
  unfolding find_budget_def by (simp add: sql_first_key_update)

lemma reserve_tx_admits:
  assumes inv: "budgets_inv db" and lg: "ledger_of sc db = Some lg" and est: "budgets_ok est"
    and r: "reserve_budget_tx env sc h est now db = Inr (True, db')"
  shows "\<exists>lg'. ledger_reserve h est lg = Inr (True, lg') \<and> ledger_of sc db' = Some lg'"
    and "k \<noteq> sc \<Longrightarrow> ledger_of k db' = ledger_of k db" and "budgets_inv db'"
proof -
  from lg obtain row where row: "find_budget sc db = Some row"
    and lg': "lg = \<lparr>lg_limits = budget_of (b_limits row), lg_entries = entries_of sc db\<rparr>" by (rule ledger_ofD)
  from inv find_budget_row [OF row] obtain lims sp where st: "stored (b_limits row) lims"
      "stored (b_spent row) sp" "capped lims sp" and sum: "\<forall>b. dict_get 0 sp b = entries_spent (entries_of sc db) b"
    by (auto simp: budgets_inv_def budget_row_ok_def)
  from r row st(1,2) obtain sp' ej sj a where
    new: "sql_first (\<lambda>a. ad_scope a = sc \<and> ad_handoff a = h) (d_admissions db) = None"
    and loop: "efoldl (reserve_bucket lims) sp est = Inr sp'"
    and js: "json_text env (budget_val est) = Inr ej" "json_text env (budget_val sp') = Inr sj"
    and db': "db' = db\<lparr>d_admissions := d_admissions db @ [\<lparr>ad_scope = sc, ad_handoff = h,
                 ad_estimate = ej, ad_created = now\<rparr>],
              d_budgets := sql_update (\<lambda>b. b_scope b = sc)
                 (\<lambda>b. b\<lparr>b_spent := sj, b_updated := now\<rparr>) (d_budgets db), d_audit := a\<rparr>"
    by (rule reserve_fresh_rows)
  from est storedD(4) [OF st(2)] st(3) have fit: "\<forall>bx \<in> set est. fits lims (dict_get 0 sp) bx"
    and sp': "budgets_ok sp' \<and> capped lims sp' \<and> (\<forall>b. dict_get 0 sp' b = add_amount b (dict_get 0 sp b) est)"
    by (cases rule: reserve_loop_cases; use loop in simp)+
  have sj: "stored sj (sort_dict sp')" and ej: "stored ej (sort_dict est)"
    using stored_json js sp' est by blast+
  have entries: "entries_of k db' = entries_of k db @ (if k = sc then [(h, sort_dict est)] else [])" for k
    using storedD(3) [OF ej] by (simp add: entries_of_def db')
  have find: "find_budget k db' = map_option (\<lambda>b. if b_scope b = sc then b\<lparr>b_spent := sj, b_updated := now\<rparr> else b)
      (find_budget k db)" for k
    unfolding db' by (rule find_budget_update)
  have fn: "dict_get 0 sp = entries_spent (entries_of sc db)" using sum by (simp add: fun_eq_iff)
  show "\<exists>lg'. ledger_reserve h est lg = Inr (True, lg') \<and> ledger_of sc db' = Some lg'"
    using fit row find_budget_row [OF row] new storedD(3) [OF st(1)]
    by (simp add: ledger_reserve_def lg' entries_lookup fn ledger_of_def find entries)
  show "ledger_of k db' = ledger_of k db" if "k \<noteq> sc"
    using that find_budget_row [of k db]
    by (cases "find_budget k db") (simp_all add: ledger_of_def find entries)
  have scopes: "map b_scope (d_budgets db') = map b_scope (d_budgets db)"
    by (simp add: db' map_key_sql_update)
  have rows: "budget_row_ok db' b" if b: "b \<in> set (d_budgets db')" for b
  proof -
    from b obtain b0 where b0: "b0 \<in> set (d_budgets db)"
      "b = (if b_scope b0 = sc then b0\<lparr>b_spent := sj, b_updated := now\<rparr> else b0)"
      by (auto simp: db' in_sql_update)
    show ?thesis
    proof (cases "b_scope b0 = sc")
      case True
      with inv b0(1) row find_budget_row [OF row] have "b0 = row"
        by (metis budgets_inv_def distinct_key_unique)
      have "capped lims (sort_dict sp')" using sp' by (simp add: capped_def map_of_sort_dict budgets_ok_def)
      moreover have "dict_get 0 (sort_dict sp') c = entries_spent (entries_of sc db') c" for c
        using sp' est by (simp add: dict_get_sort entries entries_spent_snoc add_amount_sort fn budgets_ok_def)
      ultimately show ?thesis using b0 True st(1) sj \<open>b0 = row\<close> by (auto simp: budget_row_ok_def)
    next
      case False
      with inv b0 have "budget_row_ok db b" by (simp add: budgets_inv_def)
      with b0 False show ?thesis by (simp add: budget_row_ok_def entries)
    qed
  qed
  have "row \<in> set (d_budgets db)" "b_scope row = sc" using find_budget_row [OF row] by auto
  then have "sc \<in> b_scope ` set (d_budgets db)" by auto
  moreover have "b_scope ` set (d_budgets db') = b_scope ` set (d_budgets db)" using scopes by (metis set_map)
  ultimately have "\<forall>a \<in> set (d_admissions db'). (\<exists>est. stored (ad_estimate a) est)
      \<and> ad_scope a \<in> b_scope ` set (d_budgets db')"
    using inv ej by (auto simp: db' budgets_inv_def)
  then show "budgets_inv db'" using inv scopes rows by (simp add: budgets_inv_def)
qed

section \<open>The ledger invariant\<close>

lemma configure_budgets_inv:
  assumes inv: "budgets_inv db" and l: "budgets_ok limits"
    and tx: "configure_budget_tx env sc limits now db = Inr (u, db')"
  shows "budgets_inv db'"
proof (cases "find_budget sc db")
  case (Some row)
  then have "db' = db" using tx by (auto simp: configure_budget_tx_def split: if_splits)
  then show ?thesis using inv by simp
next
  case None
  then obtain lj sj where js: "json_text env (budget_val limits) = Inr lj" "json_text env (budget_val []) = Inr sj"
    and db': "db' = db\<lparr>d_budgets := d_budgets db @
            [\<lparr>b_scope = sc, b_limits = lj, b_spent = sj, b_updated = now\<rparr>]\<rparr>"
    using tx by (auto simp: configure_budget_tx_def)
  have new: "sc \<notin> b_scope ` set (d_budgets db)" using None by (auto simp: find_budget_def sql_first_None)
  have "entries_of sc db = []"
    using inv new by (auto simp: entries_of_def budgets_inv_def filter_empty_conv)
  moreover have entries: "entries_of k db' = entries_of k db" for k by (simp add: entries_of_def db')
  moreover have "stored lj (sort_dict limits)" "stored sj []"
    using stored_json [OF js(1) l] stored_json [OF js(2)] by (simp_all add: budgets_ok_def sort_dict_def)
  ultimately have row: "budget_row_ok db' \<lparr>b_scope = sc, b_limits = lj, b_spent = sj, b_updated = now\<rparr>"
    unfolding budget_row_ok_def
    by (intro exI [of _ "sort_dict limits"] exI [of _ "[]"])
      (simp add: capped_def dict_get_def entries_spent_def)
  have old: "budget_row_ok db' r" if "budget_row_ok db r" for r
    using that by (simp add: budget_row_ok_def entries)
  show ?thesis using inv new row old by (auto simp: budgets_inv_def db')
qed

lemma budgets_inv_shared: "shared db' = shared db \<Longrightarrow> budgets_inv db \<Longrightarrow> budgets_inv db'"
  by (simp add: shared_def budgets_inv_def budget_row_ok_def entries_of_def)

lemma reserve_budgets_inv:
  assumes "budgets_inv db" and "budgets_ok est" and "reserve_budget_tx env sc h est now db = Inr (f, db')"
  shows "budgets_inv db'"
proof (cases "ledger_of sc db")
  case None
  then show ?thesis using assms(3) by (simp add: ledger_of_def reserve_budget_tx_def)
next
  case (Some lg)
  with assms show ?thesis
    by (cases f) (auto dest: reserve_tx_repeats reserve_tx_admits(3))
qed

lemma append_budgets_inv:
  "budgets_inv db \<Longrightarrow> append_agent_event_tx env r i c db = Inr (y, db') \<Longrightarrow> budgets_inv db'"
  by (drule append_event_frame) (simp add: budgets_inv_def budget_row_ok_def entries_of_def)

interpretation ledger_inv: tx_invariant budgets_inv
  by unfold_locales (blast intro: budgets_inv_shared run_tx_shared append_budgets_inv
    configure_budgets_inv [OF _ budget_mapping_ok] reserve_budgets_inv [OF _ budget_mapping_ok])+

text \<open>No bucket of a scope is ever reserved beyond its limit.\<close>

lemma ledger_bound:
  assumes inv: "budgets_inv db" and lg: "ledger_of sc db = Some lg" and l: "map_of (lg_limits lg) b = Some l"
  shows "0 \<le> entries_spent (lg_entries lg) b" and "entries_spent (lg_entries lg) b \<le> l"
proof -
  from lg obtain row where row: "find_budget sc db = Some row"
    and lg': "lg = \<lparr>lg_limits = budget_of (b_limits row), lg_entries = entries_of sc db\<rparr>" by (rule ledger_ofD)
  from inv find_budget_row [OF row] obtain lims sp where st: "stored (b_limits row) lims"
      "stored (b_spent row) sp" "capped lims sp" and sum: "\<forall>b. dict_get 0 sp b = entries_spent (entries_of sc db) b"
    by (auto simp: budgets_inv_def budget_row_ok_def)
  have e: "entries_spent (lg_entries lg) b = dict_get 0 sp b" using sum by (simp add: lg')
  show "0 \<le> entries_spent (lg_entries lg) b"
    unfolding e by (rule dict_get_nonneg [OF storedD(4) [OF st(2)]])
  have "map_of lims b = Some l" using l storedD(3) [OF st(1)] by (simp add: lg')
  then have lims: "map_of lims b = Some l" .
  have cap: "r \<le> l" if "map_of sp b = Some r" for r
  proof -
    from st(3) that obtain l' where "map_of lims b = Some l'" "r \<le> l'" unfolding capped_def by blast
    with lims show ?thesis by simp
  qed
  have "(b, l) \<in> set lims" using lims by (rule map_of_SomeD)
  then have "0 \<le> l" using storedD(4) [OF st(1)] by (auto simp: budgets_ok_def)
  then show "entries_spent (lg_entries lg) b \<le> l"
    unfolding e using cap by (simp add: dict_get_def split: option.split)
qed

end
