(* ===== verification/ExecutionEvents.thy ===== *)
theory ExecutionEvents
  imports ExecutionFrames
begin

text \<open>
  The durable agent event stream of \<open>lipas/execution.py\<close>: within a run the sequence
  numbers are 1, 2, 3 and so on without a gap, identities are unique, and appending an
  event again under its identity returns the recorded event.
\<close>

definition run_events :: "string \<Rightarrow> exec_db \<Rightarrow> agent_event_row list" where
  "run_events rid db = filter (\<lambda>e. er_run e = rid) (d_agent_events db)"

definition events_inv :: "exec_db \<Rightarrow> bool" where
  "events_inv db \<longleftrightarrow> distinct (map (\<lambda>e. (er_run e, er_identity e)) (d_agent_events db))
     \<and> distinct (map er_id (d_agent_events db))
     \<and> (\<forall>rid. map er_sequence (run_events rid db) = map (\<lambda>i. int i + 1) [0..<length (run_events rid db)])"

lemma events_inv_empty: "events_inv empty_db"
  by (simp add: events_inv_def run_events_def empty_db_def)

lemma fold_max_gapless: "fold max (map (\<lambda>i. int i + 1) [0..<n]) 0 = int n"
  by (induction n) simp_all

lemma last_sequence_count: "events_inv db \<Longrightarrow> last_sequence rid db = int (length (run_events rid db))"
  using fold_max_gapless [of "length (run_events rid db)"]
  by (simp add: events_inv_def last_sequence_def run_events_def)

text \<open>A fresh event takes the next number of its run; a known one changes nothing.\<close>

lemma append_fresh:
  assumes "append_agent_event_tx env rid i c db = Inr (None, db')"
  shows "find_agent_event rid i db = None"
    and "\<exists>row. d_agent_events db' = d_agent_events db @ [row] \<and> er_run row = rid \<and> er_identity row = i
      \<and> er_sequence row = last_sequence rid db + 1 \<and> er_id row = agent_event_id env rid i
      \<and> er_type row = ae_type c \<and> er_iteration row = ae_iteration c
      \<and> er_id row \<notin> er_id ` set (d_agent_events db)
      \<and> mapping_json env (ae_data c) = Inr (er_data row)"
  using assms by (auto simp: append_agent_event_tx_def split: option.splits if_splits)

lemma append_known:
  "append_agent_event_tx env rid i c db = Inr (Some e, db') \<Longrightarrow> db' = db"
  by (auto simp: append_agent_event_tx_def split: option.splits if_splits)

lemma run_events_append: "d_agent_events db' = d_agent_events db @ [row] \<Longrightarrow>
    run_events k db' = run_events k db @ (if er_run row = k then [row] else [])"
  by (simp add: run_events_def)

lemma append_events_inv:
  assumes inv: "events_inv db" and tx: "append_agent_event_tx env rid i c db = Inr (ev, db')"
  shows "events_inv db'"
proof (cases ev)
  case (Some e)
  then show ?thesis using append_known tx inv by blast
next
  case None
  note tx' = tx [unfolded None]
  from append_fresh(2) [OF tx'] obtain row where row: "d_agent_events db' = d_agent_events db @ [row]"
      "er_run row = rid" "er_identity row = i" "er_sequence row = last_sequence rid db + 1"
      "er_id row \<notin> er_id ` set (d_agent_events db)" by blast
  have fresh: "(rid, i) \<notin> (\<lambda>e. (er_run e, er_identity e)) ` set (d_agent_events db)"
    using append_fresh(1) [OF tx'] by (auto simp: find_agent_event_def sql_first_None)
  have "map er_sequence (run_events k db') = map (\<lambda>i. int i + 1) [0..<length (run_events k db')]" for k
    using inv row last_sequence_count [OF inv]
    by (cases "er_run row = k") (simp_all add: run_events_append [OF row(1)] events_inv_def)
  with inv row fresh show ?thesis by (simp add: events_inv_def)
qed

lemma events_inv_frame: "d_agent_events db' = d_agent_events db \<Longrightarrow> events_inv db \<Longrightarrow> events_inv db'"
  by (simp add: events_inv_def run_events_def)

lemma events_inv_shared: "shared db' = shared db \<Longrightarrow> events_inv db \<Longrightarrow> events_inv db'"
  by (rule events_inv_frame) (simp add: shared_def)

lemma configure_events_inv:
  "events_inv db \<Longrightarrow> configure_budget_tx env sc l n db = Inr (u, db') \<Longrightarrow> events_inv db'"
  by (drule configure_frame) (simp add: events_inv_frame)

lemma reserve_events_inv:
  "events_inv db \<Longrightarrow> reserve_budget_tx env sc h es n db = Inr (u, db') \<Longrightarrow> events_inv db'"
  by (drule reserve_budget_frame(5)) (simp add: events_inv_frame)

interpretation event_inv: tx_invariant events_inv
  by unfold_locales (blast intro: events_inv_shared run_tx_shared append_events_inv
    configure_events_inv reserve_events_inv)+

end
