(* ===== verification/ExecutionProps.thy ===== *)
theory ExecutionProps
  imports ExecutionLife ExecutionMirror ExecutionBudgets ExecutionEvents
begin

text \<open>
  The properties of the execution store (\<open>lipas/execution.py\<close>) and their witnesses: a
  concrete environment, a concrete session and concrete rows on which every hypothesis
  holds and the definitions evaluate.
\<close>

section \<open>Sample data\<close>

definition sample_env :: "string \<Rightarrow> env" where
  "sample_env u = \<lparr>e_clock = 100, e_uuid = u, e_merge_id = (\<lambda>n. ''m'' @ digits n), e_digest = id,
     e_repr = (\<lambda>x. ''100.0''), e_codecs = []\<rparr>"

definition fresh_store :: exec_store where
  "fresh_store = \<lparr>es_db = empty_db, es_rowset = None, es_audit_run_id = None, es_cursor = 0\<rparr>"

definition started :: "(env \<times> exec_call) list" where
  "started = [(sample_env ''a1'', CreateTask Some ''goal'' ''/w'' (Some ''t'')),
     (sample_env ''a2'', CreateRun ''t'' (Some ''r'')),
     (sample_env ''a3'', ClaimRun ''r'' (VInt 60) (VInt 100))]"

definition sample_session :: "(env \<times> exec_call) list" where
  "sample_session = started @
     [(sample_env ''a4'', SaveCheckpoint ''r'' ''lease_a3'' 0 ''plan'' [(KStr ''k'', VInt 1)] (VInt 110)),
      (sample_env ''a5'', Suspend ''r'' ''lease_a3'' 1 ''ask'' [] ''approval'' [] (Some ''i'') (VInt 120)),
      (sample_env ''a6'', ResolveInterrupt ''i'' True VNone (VInt 130)),
      (sample_env ''a7'', ClaimRun ''r'' (VInt 60) (VInt 140)),
      (sample_env ''a8'', CompleteRun ''r'' ''lease_a7'' (VStr ''done'') (VInt 150))]"

section \<open>Safety of sessions\<close>

text \<open>
  C1: every session of public calls on a fresh execution store, in any order and with any
  arguments, clocks and outcomes, leaves a database in which keys are unique and references
  resolve, a task has at most one active run, a run holds a token and an expiry exactly
  while it is running, its checkpoints are numbered 1 to its current version, and it is
  waiting exactly while it has its one pending interrupt.
\<close>

theorem exec_session_safe:
  assumes "\<forall>(env, c) \<in> set calls. uuid_hex env" and "es_db s = empty_db"
  shows "exec_inv (es_db (exec_session calls s))"
  by (rule db_inv.session [OF assms(1)]) (simp add: assms(2) exec_inv_empty)

lemma exec_session_safe_witness:
  "exec_inv (es_db (exec_session sample_session fresh_store))
    \<and> map r_state (d_runs (es_db (exec_session sample_session fresh_store))) = [Completed]"
proof -
  have 1: "\<forall>(env, c) \<in> set sample_session. uuid_hex env" by code_simp
  have 2: "es_db fresh_store = empty_db" by (simp add: fresh_store_def)
  have 3: "map r_state (d_runs (es_db (exec_session sample_session fresh_store))) = [Completed]"
    by code_simp
  show ?thesis using exec_session_safe [OF 1 2] 3 by blast
qed

text \<open>
  C3: fencing. A call that carries a lease (renew, checkpoint, suspend, complete, fail,
  finish a cancellation) under a token the run does not hold at that time, or whose lease
  has expired, leaves the database exactly as it was.
\<close>

theorem stale_lease_fenced:
  assumes "lease_call c = Some (rid, token, now)" and "timestamp env now = Inr t"
    and "\<not> lease_held rid token t (es_db s)"
  shows "es_db (exec_step env c s) = es_db s"
  using assms by (rule unheld_calls_change_nothing)

lemma stale_lease_fenced_witness:
  "es_db (exec_step (sample_env ''b'') (CompleteRun ''r'' ''lease_old'' VNone (VInt 110))
      (exec_session started fresh_store)) = es_db (exec_session started fresh_store)"
proof (rule stale_lease_fenced)
  show "lease_call (CompleteRun ''r'' ''lease_old'' VNone (VInt 110)) = Some (''r'', ''lease_old'', VInt 110)"
    by simp
  show "timestamp (sample_env ''b'') (VInt 110) = Inr 110" by code_simp
  show "\<not> lease_held ''r'' ''lease_old'' 110 (es_db (exec_session started fresh_store))" by code_simp
qed



section \<open>Life cycles\<close>

text \<open>
  C13: a run that is completed, failed or cancelled is never written again by any sequence
  of calls other than an operator's reopening: its row stays in the table unchanged.
\<close>

theorem terminal_runs_frozen:
  assumes "\<forall>(env, c) \<in> set calls. uuid_hex env \<and> \<not> is_reopen c"
    and "exec_inv (es_db s)" and "r \<in> set (d_runs (es_db s))" and "terminal (r_state r)"
  shows "r \<in> set (d_runs (es_db (exec_session calls s)))"
  using frozen_inv.session_core [OF assms(1), of r s] assms by (simp add: frozen_def)

lemma terminal_runs_frozen_witness:
  "\<exists>r. r_state r = Completed \<and> r \<in> set (d_runs (es_db (exec_session
     [(sample_env ''b'', RequestCancel ''r'' VNone), (sample_env ''c'', ClaimRun ''r'' (VInt 1) (VInt 999))]
     (exec_session sample_session fresh_store))))"
proof -
  let ?s = "exec_session sample_session fresh_store"
  let ?calls = "[(sample_env ''b'', RequestCancel ''r'' VNone), (sample_env ''c'', ClaimRun ''r'' (VInt 1) (VInt 999))]"
  have inv: "exec_inv (es_db ?s)"
    by (rule db_inv.session) (code_simp, simp add: fresh_store_def exec_inv_empty)
  have fin: "map r_state (d_runs (es_db ?s)) = [Completed]" by code_simp
  then obtain r where r: "r \<in> set (d_runs (es_db ?s))" "r_state r = Completed"
    by (cases "d_runs (es_db ?s)") auto
  have calls: "\<forall>(env, c) \<in> set ?calls. uuid_hex env \<and> \<not> is_reopen c" by code_simp
  from r(2) have t: "terminal (r_state r)" by (simp add: terminal_def)
  show ?thesis using terminal_runs_frozen [OF calls inv r(1) t] r(2) by blast
qed

text \<open>
  C26: without reopenings, closing a task is final. After any session on a fresh store an
  active run belongs to an open task, or to a cancelled task whose cancellation request it
  carries; no completed task has an active run.
\<close>

theorem closed_tasks_stay_closed:
  assumes "\<forall>(env, c) \<in> set calls. uuid_hex env \<and> \<not> is_reopen c" and "es_db s = empty_db"
  shows "\<forall>r \<in> set (d_runs (es_db (exec_session calls s))). closed_ok (d_tasks (es_db (exec_session calls s))) r"
  using closed.session_core [OF assms(1), of s] assms(2) closed_inv_empty by (simp add: closed_inv_def)

lemma closed_tasks_stay_closed_witness:
  "list_all (closed_ok (d_tasks (es_db (exec_session (started @ [(sample_env ''b'', CancelTask ''t'' VNone)]) fresh_store))))
     (d_runs (es_db (exec_session (started @ [(sample_env ''b'', CancelTask ''t'' VNone)]) fresh_store)))"
proof -
  have 1: "\<forall>(env, c) \<in> set (started @ [(sample_env ''b'', CancelTask ''t'' VNone)]). uuid_hex env \<and> \<not> is_reopen c"
    by code_simp
  have 2: "es_db fresh_store = empty_db" by (simp add: fresh_store_def)
  show ?thesis using closed_tasks_stay_closed [OF 1 2] by (simp add: list_all_iff)
qed

definition reopened_session :: "(env \<times> exec_call) list" where
  "reopened_session = started @
     [(sample_env ''b1'', FailRun ''r'' ''lease_a3'' [(KStr ''recovery_required'', VBool True)] (VInt 110)),
      (sample_env ''b2'', CancelTask ''t'' (VInt 120)),
      (sample_env ''b3'', ReopenUncertain ''r'' (Some [(KStr ''observation'', VStr ''seen'')]) (VInt 130)),
      (sample_env ''b4'', ClaimRun ''r'' (VInt 60) (VInt 140))]"

text \<open>
  Reopening breaks that. A failed run of a cancelled task can be reopened and claimed:
  the task stays cancelled while its run is running again and no request is pending.
\<close>

theorem reopen_revives_cancelled_task:
  "map t_state (d_tasks (es_db (exec_session reopened_session fresh_store))) = [TCancelled]
    \<and> map r_state (d_runs (es_db (exec_session reopened_session fresh_store))) = [Running]
    \<and> map r_cancel (d_runs (es_db (exec_session reopened_session fresh_store))) = [False]"
  by code_simp

definition retried_session :: "(env \<times> exec_call) list" where
  "retried_session = started @
     [(sample_env ''b1'', FailRun ''r'' ''lease_a3'' [(KStr ''recovery_required'', VBool True)] (VInt 110)),
      (sample_env ''b2'', ReopenUncertain ''r'' (Some [(KStr ''observation'', VStr ''seen'')]) (VInt 130)),
      (sample_env ''b3'', ClaimRun ''r'' (VInt 60) (VInt 140))]"

text \<open>
  After a reopening a second failure with another error cannot be recorded. The audit
  identity of the failed state is reused with different data, so \<open>fail_run\<close> raises and the
  run stays running.
\<close>

theorem second_failure_rejected:
  "fst (fail_run (sample_env ''c'') ''r'' ''lease_b3'' [(KStr ''reason'', VStr ''other'')] (VInt 150)
      (exec_session retried_session fresh_store)) = Inl ExecutionStateError
    \<and> map r_state (d_runs (es_db (exec_session retried_session fresh_store))) = [Running]"
  by code_simp

end
