(* ===== verification/ExecutionFacts.thy ===== *)
theory ExecutionFacts
  imports ExecutionProps
begin

text \<open>
  Further properties of the execution store (\<open>lipas/execution.py\<close>): the audit outbox and
  its mirror, the coordination budgets and their ledger, the agent event stream,
  checkpoints, and what a completion writes.
\<close>

section \<open>The audit outbox\<close>

text \<open>
  The outbox is append-only. Whatever a session does, the events recorded before it are
  still there, in the same order and unchanged, and ids stay unique.
\<close>

theorem audit_append_only:
  assumes "\<forall>(env, c) \<in> set calls. uuid_hex env" and "distinct (map ev_id (d_audit (es_db s)))"
  shows "\<exists>new. d_audit (es_db (exec_session calls s)) = d_audit (es_db s) @ new
    \<and> distinct (map ev_id (d_audit (es_db s) @ new))"
  using audit_inv.session [OF assms(1), of "d_audit (es_db s)" s] assms(2)
  by (auto simp: audit_from_def audit_grows_def)

lemma audit_append_only_witness:
  "\<exists>new. d_audit (es_db (exec_session (drop 3 sample_session) (exec_session started fresh_store)))
     = d_audit (es_db (exec_session started fresh_store)) @ new
     \<and> length (d_audit (es_db (exec_session (drop 3 sample_session) (exec_session started fresh_store)))) = 10"
proof -
  have 1: "\<forall>(env, c) \<in> set (drop 3 sample_session). uuid_hex env" by code_simp
  have 2: "distinct (map ev_id (d_audit (es_db (exec_session started fresh_store))))" by code_simp
  have 3: "length (d_audit (es_db (exec_session (drop 3 sample_session) (exec_session started fresh_store)))) = 10"
    by code_simp
  from audit_append_only [OF 1 2] 3 show ?thesis by blast
qed

section \<open>The mirror\<close>

definition sample_rowset :: rowset where
  "sample_rowset = rowset_init (store_init make_default_registry \<lparr>fail_counts = [], caution_threshold = 3\<rparr>) [history_row]"

definition mirrored_sample :: exec_store where
  "mirrored_sample = (exec_session sample_session fresh_store)\<lparr>es_rowset := Some sample_rowset\<rparr>"

lemma mirrored_sample_sel:
  "es_db mirrored_sample = es_db (exec_session sample_session fresh_store)"
  "es_rowset mirrored_sample = Some sample_rowset"
  by (simp_all add: mirrored_sample_def)

lemma sample_rowset_ok: "tape_ok sample_rowset" "rs_rows sample_rowset = [history_row]"
proof -
  show "tape_ok sample_rowset"
    using store_inv_init [of make_default_registry "\<lparr>fail_counts = [], caution_threshold = 3\<rparr>"]
    by (simp add: tape_ok_def sample_rowset_def store_inv_def)
qed (simp add: sample_rowset_def)

text \<open>The tags of the sample session are owned by the history row, which admits every claim.\<close>

lemma history_unguarded: "rs_rows rs = [history_row] \<Longrightarrow> unguarded tg rs"
  by (simp add: unguarded_def history_row_def history_check_def)

text \<open>
  C27: one mirroring pass. When an unbounded pass returns, every event beyond the cursor has
  its claim on the tape with the event's tag and fields, the tape only grew, the result
  counts exactly the claims that were added, and the cursor stands on the last event.
\<close>

theorem mirror_delivers:
  assumes "repair_audit env None s = (Inr n, s')" and "es_rowset s = Some rs" and "tape_ok rs"
    and "es_audit_run_id s = None" and "es_cursor s \<le> length (d_audit (es_db s))"
    and "\<forall>e \<in> set (d_audit (es_db s)). proper_event env e"
  shows "\<exists>rs' t. s' = s\<lparr>es_rowset := Some rs', es_cursor := length (d_audit (es_db s))\<rparr> \<and> tape_ok rs'
    \<and> s_log (rs_store rs') = s_log (rs_store rs) @ t \<and> length t = n
    \<and> (\<forall>e \<in> set (drop (es_cursor s) (d_audit (es_db s))). delivered env rs' e)"
  using repair_pass [OF assms] by blast

lemma sample_mirror:
  "fst (repair_audit (sample_env ''a9'') None mirrored_sample) = Inr 10"
  "es_audit_run_id mirrored_sample = None" "es_cursor mirrored_sample = 0"
  "list_all (proper_event (sample_env ''a9'')) (d_audit (es_db mirrored_sample))"
  by code_simp+

lemma sample_proper: "\<forall>e \<in> set (d_audit (es_db mirrored_sample)). proper_event (sample_env ''a9'') e"
  using sample_mirror(4) by (simp add: list_all_iff)

lemma mirror_delivers_witness:
  "\<exists>rs'. es_rowset (snd (repair_audit (sample_env ''a9'') None mirrored_sample)) = Some rs'
    \<and> length (s_log (rs_store rs')) = 10"
proof -
  let ?r = "repair_audit (sample_env ''a9'') None mirrored_sample"
  have r: "?r = (Inr 10, snd ?r)" using sample_mirror(1) by (simp add: prod_eq_iff)
  have c: "es_cursor mirrored_sample \<le> length (d_audit (es_db mirrored_sample))" by (simp add: sample_mirror(3))
  from mirror_delivers [OF r mirrored_sample_sel(2) sample_rowset_ok(1) sample_mirror(2) c sample_proper]
  obtain rs' t where "snd ?r = mirrored_sample\<lparr>es_rowset := Some rs', es_cursor := length (d_audit (es_db mirrored_sample))\<rparr>"
    "s_log (rs_store rs') = s_log (rs_store sample_rowset) @ t" "length t = 10" by blast
  then show ?thesis by (simp add: sample_rowset_def store_init_def)
qed

text \<open>
  C28: mirroring is idempotent across a crash. After a pass over the whole outbox, a second
  one from any earlier cursor (a fresh process starts at 0) adds nothing, counts nothing
  and only moves the cursor, when no row guards the tags.
\<close>

theorem mirror_after_crash:
  assumes "repair_audit env None s = (Inr n, s')" and "es_rowset s = Some rs" and "tape_ok rs"
    and "es_audit_run_id s = None" and "es_cursor s = 0"
    and "\<forall>e \<in> set (d_audit (es_db s)). proper_event env e \<and> unguarded (ev_tag e) rs"
    and "c \<le> length (d_audit (es_db s))"
  shows "repair_audit env None (s'\<lparr>es_cursor := c\<rparr>) = (Inr 0, s')"
proof -
  have proper: "\<forall>e \<in> set (d_audit (es_db s)). proper_event env e" using assms(6) by blast
  have cur: "es_cursor s \<le> length (d_audit (es_db s))" using assms(5) by simp
  from repair_pass [OF assms(1-4) cur proper] assms(5) obtain rs' where
    s': "s' = s\<lparr>es_rowset := Some rs', es_cursor := length (d_audit (es_db s))\<rparr>" and rs': "tape_ok rs'"
      "rs_rows rs' = rs_rows rs" and all: "\<forall>e \<in> set (d_audit (es_db s)). delivered env rs' e" by auto
  let ?evs = "outbox_after c None (es_db s)"
  have in_db: "e \<in> set (d_audit (es_db s))" if "(i, e) \<in> set ?evs" for i e
    using that unfolding outbox_after_all by (auto dest!: in_set_dropD dest: set_zip_rightD)
  have again: "repair_loop env 0 ?evs rs' c 0 = (Inr 0, rs', if ?evs = [] then c else fst (last ?evs))"
  proof (rule repair_loop_again [OF rs'(1)])
    have "unguarded tg rs' = unguarded tg rs" for tg using rs'(2) by (simp add: unguarded_def)
    then show "\<forall>(i, e) \<in> set ?evs. delivered env rs' e" "\<forall>(i, e) \<in> set ?evs. unguarded (ev_tag e) rs'"
      using in_db all assms(6) by blast+
  qed
  show ?thesis
  proof (cases "?evs = []")
    case True
    then have "c = length (d_audit (es_db s))" using assms(7) by (simp add: outbox_after_Nil)
    with True s' assms(4) show ?thesis by (simp add: repair_audit_def)
  next
    case False
    then have "fst (last ?evs) = length (d_audit (es_db s))"
      using assms(7) by (intro outbox_after_last) (simp add: outbox_after_Nil)
    with False s' assms(4) again show ?thesis by (simp add: repair_audit_def)
  qed
qed

lemma mirror_after_crash_witness:
  "\<exists>s'. repair_audit (sample_env ''a9'') None (s'\<lparr>es_cursor := 4\<rparr>) = (Inr 0, s') \<and> es_cursor s' = 10"
proof -
  let ?r = "repair_audit (sample_env ''a9'') None mirrored_sample"
  have r: "?r = (Inr 10, snd ?r)" using sample_mirror(1) by (simp add: prod_eq_iff)
  have len: "length (d_audit (es_db mirrored_sample)) = 10" "es_cursor (snd ?r) = 10" by code_simp+
  then have c: "4 \<le> length (d_audit (es_db mirrored_sample))" by simp
  have ev: "\<forall>e \<in> set (d_audit (es_db mirrored_sample)).
      proper_event (sample_env ''a9'') e \<and> unguarded (ev_tag e) sample_rowset"
    using sample_proper history_unguarded sample_rowset_ok(2) by blast
  show ?thesis
    using mirror_after_crash [OF r mirrored_sample_sel(2) sample_rowset_ok(1) sample_mirror(2,3) ev c] len(2) by blast
qed

section \<open>Coordination budgets\<close>

text \<open>
  The budget tables refine the ledger. On a configured scope a reservation the ledger
  rejects (an unknown bucket, a bucket over its limit, a hand-off known with another
  estimate) raises \<open>ExecutionStateError\<close>; one that commits is the ledger's step, with the
  same flag, and leaves the other scopes alone.
\<close>

theorem reservation_refines_ledger:
  assumes "budgets_inv db" and "ledger_of sc db = Some lg" and "budgets_ok est"
  shows "(\<forall>e. ledger_reserve h est lg = Inl e \<longrightarrow> reserve_budget_tx env sc h est now db = Inl ExecutionStateError)
    \<and> (\<forall>f db'. reserve_budget_tx env sc h est now db = Inr (f, db') \<longrightarrow>
         (\<exists>lg'. ledger_reserve h est lg = Inr (f, lg') \<and> ledger_of sc db' = Some lg')
         \<and> (\<forall>k. k \<noteq> sc \<longrightarrow> ledger_of k db' = ledger_of k db))"
proof (intro conjI allI impI)
  show "reserve_budget_tx env sc h est now db = Inl ExecutionStateError" if "ledger_reserve h est lg = Inl e" for e
    by (rule reserve_tx_rejects [OF assms that])
  show "\<exists>lg'. ledger_reserve h est lg = Inr (f, lg') \<and> ledger_of sc db' = Some lg'"
    if "reserve_budget_tx env sc h est now db = Inr (f, db')" for f db'
    using that reserve_tx_repeats [OF assms] reserve_tx_admits(1) [OF assms] assms(2) by (cases f) auto
  show "ledger_of k db' = ledger_of k db"
    if "reserve_budget_tx env sc h est now db = Inr (f, db')" "k \<noteq> sc" for f db' k
    using that reserve_tx_repeats [OF assms] reserve_tx_admits(2) [OF assms] by (cases f) auto
qed

definition budget_session :: "(env \<times> exec_call) list" where
  "budget_session =
    [(sample_env ''b1'', ConfigureBudget ''team'' (VDict [(KStr ''usd'', VInt 10)]) (VInt 100)),
     (sample_env ''b2'', ReserveBudget ''team'' ''h1'' (VDict [(KStr ''usd'', VInt 6)]) (VInt 101)),
     (sample_env ''b3'', ReserveBudget ''team'' ''h2'' (VDict [(KStr ''usd'', VInt 6)]) (VInt 102)),
     (sample_env ''b4'', ReserveBudget ''team'' ''h3'' (VDict [(KStr ''usd'', VInt 4)]) (VInt 103)),
     (sample_env ''b5'', ReserveBudget ''team'' ''h1'' (VDict [(KStr ''usd'', VInt 6)]) (VInt 104))]"

lemma budget_session_ok:
  "\<forall>(env, c) \<in> set budget_session. uuid_hex env" "budgets_inv (es_db (exec_session budget_session fresh_store))"
proof -
  show 1: "\<forall>(env, c) \<in> set budget_session. uuid_hex env" by code_simp
  show "budgets_inv (es_db (exec_session budget_session fresh_store))"
    by (rule ledger_inv.session [OF 1]) (simp add: fresh_store_def budgets_inv_empty)
qed

lemma reservation_refines_ledger_witness:
  "\<exists>lg. ledger_of ''team'' (es_db (exec_session budget_session fresh_store)) = Some lg
    \<and> ledger_reserve ''h4'' [(''usd'', 1)] lg = Inl ExecutionStateError
    \<and> reserve_budget_tx (sample_env ''b6'') ''team'' ''h4'' [(''usd'', 1)] 105
        (es_db (exec_session budget_session fresh_store)) = Inl ExecutionStateError"
proof -
  let ?db = "es_db (exec_session budget_session fresh_store)"
  let ?lg = "\<lparr>lg_limits = [(''usd'', 10)], lg_entries = [(''h1'', [(''usd'', 6)]), (''h3'', [(''usd'', 4)])]\<rparr>"
  have lg: "ledger_of ''team'' ?db = Some ?lg" by code_simp
  have est: "budgets_ok [(''usd'', 1)]" by code_simp
  have rej: "ledger_reserve ''h4'' [(''usd'', 1)] ?lg = Inl ExecutionStateError" by code_simp
  from reservation_refines_ledger [OF budget_session_ok(2) lg est] lg rej show ?thesis by blast
qed

text \<open>
  C11: budgets hold across sessions. After any session on a fresh store, what the admitted
  reservations of a scope add up to in a bucket, in the order they were admitted and with
  the rounding of float addition, is between zero and the bucket's limit.
\<close>

theorem reservations_within_limits:
  assumes "\<forall>(env, c) \<in> set calls. uuid_hex env" and "es_db s = empty_db"
    and "ledger_of sc (es_db (exec_session calls s)) = Some lg" and "map_of (lg_limits lg) b = Some l"
  shows "0 \<le> entries_spent (lg_entries lg) b \<and> entries_spent (lg_entries lg) b \<le> l"
proof -
  have "budgets_inv (es_db (exec_session calls s))"
    using ledger_inv.session [OF assms(1), of s] assms(2) by (simp add: budgets_inv_empty)
  then show ?thesis using ledger_bound [OF _ assms(3,4)] by blast
qed

lemma reservations_within_limits_witness:
  "\<exists>lg. ledger_of ''team'' (es_db (exec_session budget_session fresh_store)) = Some lg
    \<and> length (lg_entries lg) = 2 \<and> entries_spent (lg_entries lg) ''usd'' \<le> 10"
proof -
  let ?lg = "\<lparr>lg_limits = [(''usd'', 10)], lg_entries = [(''h1'', [(''usd'', 6)]), (''h3'', [(''usd'', 4)])]\<rparr>"
  have lg: "ledger_of ''team'' (es_db (exec_session budget_session fresh_store)) = Some ?lg" by code_simp
  have l: "map_of (lg_limits ?lg) ''usd'' = Some 10" by simp
  have e: "es_db fresh_store = empty_db" by (simp add: fresh_store_def)
  have n: "length (lg_entries ?lg) = 2" by simp
  show ?thesis using reservations_within_limits [OF budget_session_ok(1) e lg l] lg n by blast
qed

definition colliding_session :: "(env \<times> exec_call) list" where
  "colliding_session =
    [(sample_env ''b1'', ConfigureBudget ''a'' (VDict [(KStr ''usd'', VInt 10)]) (VInt 100)),
     (sample_env ''b2'', ConfigureBudget ''a:b'' (VDict [(KStr ''usd'', VInt 10)]) (VInt 100)),
     (sample_env ''b3'', ReserveBudget ''a:b'' ''c'' (VDict [(KStr ''usd'', VInt 1)]) (VInt 101))]"

text \<open>
  The audit identity of a reservation is ambiguous. With hand-off \<open>c\<close> admitted in
  scope \<open>a:b\<close>, hand-off \<open>b:c\<close> in scope \<open>a\<close> has the same identity string, so a
  reservation the ledger of \<open>a\<close> admits is refused with \<open>ExecutionStateError\<close>.
\<close>

theorem reservation_identity_collides:
  "fst (reserve_coordination_budget (sample_env ''b4'') ''a'' ''b:c'' (VDict [(KStr ''usd'', VInt 1)]) (VInt 102)
      (exec_session colliding_session fresh_store)) = Inl ExecutionStateError
    \<and> ledger_of ''a'' (es_db (exec_session colliding_session fresh_store))
      = Some \<lparr>lg_limits = [(''usd'', 10)], lg_entries = []\<rparr>
    \<and> ledger_reserve ''b:c'' [(''usd'', 1)] \<lparr>lg_limits = [(''usd'', 10)], lg_entries = []\<rparr>
      = Inr (True, \<lparr>lg_limits = [(''usd'', 10)], lg_entries = [(''b:c'', [(''usd'', 1)])]\<rparr>)"
  by code_simp

section \<open>Agent events\<close>

text \<open>
  C29: the durable event stream has no gaps. After any session on a fresh store the events
  of a run are numbered 1, 2, 3 and so on in the order they were stored, and an identity
  names one event of its run.
\<close>

theorem agent_events_gapless:
  assumes "\<forall>(env, c) \<in> set calls. uuid_hex env" and "es_db s = empty_db"
  shows "map er_sequence (run_events rid (es_db (exec_session calls s)))
      = map (\<lambda>i. int i + 1) [0..<length (run_events rid (es_db (exec_session calls s)))]
    \<and> distinct (map (\<lambda>e. (er_run e, er_identity e)) (d_agent_events (es_db (exec_session calls s))))"
  using event_inv.session [OF assms(1), of s] assms(2) by (simp add: events_inv_empty) (simp add: events_inv_def)

definition event_session :: "(env \<times> exec_call) list" where
  "event_session = started @
    [(sample_env ''c1'', AppendAgentEvent ''r'' ''tool.call'' ''e1'' 0 None),
     (sample_env ''c2'', AppendAgentEvent ''r'' ''tool.result'' ''e2'' 1 (Some [(KStr ''ok'', VBool True)])),
     (sample_env ''c3'', AppendAgentEvent ''r'' ''tool.call'' ''e1'' 0 None),
     (sample_env ''c4'', AppendAgentEvent ''r'' ''other'' ''e1'' 0 None)]"

lemma agent_events_gapless_witness:
  "map er_sequence (run_events ''r'' (es_db (exec_session event_session fresh_store))) = [1, 2]"
proof -
  have 1: "\<forall>(env, c) \<in> set event_session. uuid_hex env" by code_simp
  have 2: "es_db fresh_store = empty_db" by (simp add: fresh_store_def)
  have 3: "length (run_events ''r'' (es_db (exec_session event_session fresh_store))) = 2" by code_simp
  show ?thesis using agent_events_gapless [OF 1 2, of "''r''"] unfolding 3 by (simp add: numeral_2_eq_2)
qed

section \<open>Checkpoints and completion\<close>

text \<open>
  C30: checkpoints are compare-and-set. A save that succeeds was made by the holder of the
  run's live lease with the run's current version, stores the next version and advances the
  run to it; a save that names another version fails and changes nothing.
\<close>

theorem checkpoint_compare_and_set:
  assumes "exec_inv (es_db s)" and "r \<in> set (d_runs (es_db s))"
  shows "(\<forall>c s'. save_checkpoint env (r_id r) tok v ph st now s = (Inr c, s') \<longrightarrow>
        v = r_version r \<and> c_version c = v + 1 \<and> c_run c = strip (r_id r) \<and> (\<exists>t. timestamp env now = Inr t \<and> holds_lease tok t r)
        \<and> (\<exists>r' \<in> set (d_runs (es_db s')). r_id r' = r_id r \<and> r_version r' = v + 1 \<and> r_token r' = Some tok))
    \<and> (v \<noteq> r_version r \<longrightarrow> es_db (snd (save_checkpoint env (r_id r) tok v ph st now s)) = es_db s)"
proof (intro conjI allI impI)
  have uniq: "r0 = r" if "r0 \<in> set (d_runs (es_db s))" "r_id r0 = r_id r" for r0
    using assms that by (auto simp: exec_inv_def runs_ok_def dest: distinct_key_unique)
  have ok: "v = r_version r \<and> holds_lease tok t r
      \<and> (\<exists>r' \<in> set (d_runs db'). r_id r' = r_id r \<and> r_version r' = v + 1 \<and> r_token r' = Some tok)"
    if "save_checkpoint_tx env (r_id r) tok v p sj t (es_db s) = Inr (u, db')" for p sj t u db'
  proof -
    from save_checkpoint_ok [OF that] obtain a r0 where r0: "r0 \<in> set (d_runs (es_db s))" "r_id r0 = r_id r"
      "holds_lease tok t r0" "r_version r0 = v"
      and db': "d_runs db' = sql_update (\<lambda>q. r_id q = r_id r \<and> r_version q = v \<and> r_token q = Some tok)
          (\<lambda>q. q\<lparr>r_version := v + 1, r_updated := t\<rparr>) (d_runs (es_db s))" by (auto simp: upd_run_def)
    have r: "r0 = r" by (rule uniq [OF r0(1,2)])
    have "r\<lparr>r_version := v + 1, r_updated := t\<rparr> \<in> set (d_runs db')"
      using assms(2) r0 unfolding r db' by (auto simp: in_sql_update holds_lease_def intro!: bexI [of _ r])
    moreover have "r_token r = Some tok" using r0(3) unfolding r by (simp add: holds_lease_def)
    ultimately show ?thesis using r0(3,4) unfolding r by (auto intro!: bexI [of _ "r\<lparr>r_version := v + 1, r_updated := t\<rparr>"])
  qed
  fix c s' assume saved: "save_checkpoint env (r_id r) tok v ph st now s = (Inr c, s')"
  then obtain p sj t db' where t: "timestamp env now = Inr t"
    and tx: "save_checkpoint_tx env (r_id r) tok v p sj t (es_db s) = Inr ((), db')"
    and get: "get_checkpoint env (r_id r) (Some (v + 1)) db' = Inr (Some c)" and s': "es_db s' = db'"
    by (auto simp: save_checkpoint_def method_iffs split: option.splits dest!: finish_Inr)
  show "v = r_version r" "\<exists>r' \<in> set (d_runs (es_db s')). r_id r' = r_id r \<and> r_version r' = v + 1 \<and> r_token r' = Some tok"
    using ok [OF tx] unfolding s' by blast+
  show "\<exists>t. timestamp env now = Inr t \<and> holds_lease tok t r" using ok [OF tx] t by blast
  show "c_version c = v + 1" "c_run c = strip (r_id r)"
    using get by (auto simp: get_checkpoint_def non_empty_text_def split: if_splits option.splits dest!: sql_first_Some)
next
  assume v: "v \<noteq> r_version r"
  have "\<nexists>u db'. save_checkpoint_tx env (r_id r) tok v p sj t (es_db s) = Inr (u, db')" for p sj t
  proof
    assume "\<exists>u db'. save_checkpoint_tx env (r_id r) tok v p sj t (es_db s) = Inr (u, db')"
    then obtain u db' where "save_checkpoint_tx env (r_id r) tok v p sj t (es_db s) = Inr (u, db')" by blast
    from save_checkpoint_ok [OF this] obtain r0 where "r0 \<in> set (d_runs (es_db s))" "r_id r0 = r_id r" "r_version r0 = v"
      by blast
    then show False using v assms by (auto simp: exec_inv_def runs_ok_def dest: distinct_key_unique)
  qed
  then have "\<exists>e. save_checkpoint_tx env (r_id r) tok v p sj t (es_db s) = Inl e" for p sj t
    by (metis old.sum.exhaust surj_pair)
  then have fail: "\<exists>e. transact (save_checkpoint_tx env (r_id r) tok v p sj t) s = (Inl e, s)" for p sj t
    by (metis transact_Inl)
  show "es_db (snd (save_checkpoint env (r_id r) tok v ph st now s)) = es_db s"
  proof -
    have "es_db s' = es_db s \<and> (\<forall>u. x \<noteq> Inr u)"
      if "transact (save_checkpoint_tx env (r_id r) tok v p sj t) s = (x, s')" for p sj t x s'
      using fail [of p sj t] that by auto
    then show ?thesis
      by (fastforce simp: save_checkpoint_def sbind_def slift_def split: sum.splits prod.splits)
  qed
qed

lemma checkpoint_compare_and_set_witness:
  "\<exists>r. r_version r = 0 \<and> es_db (snd (save_checkpoint (sample_env ''b'') ''r'' ''lease_a3'' 1 ''p'' [] (VInt 110)
      (exec_session started fresh_store))) = es_db (exec_session started fresh_store)
    \<and> r \<in> set (d_runs (es_db (exec_session started fresh_store)))"
proof -
  let ?s = "exec_session started fresh_store"
  have inv: "exec_inv (es_db ?s)"
    by (rule db_inv.session) (code_simp, simp add: fresh_store_def exec_inv_empty)
  have rows: "map (\<lambda>r. (r_id r, r_version r)) (d_runs (es_db ?s)) = [(''r'', 0)]" by code_simp
  then obtain r where r: "r \<in> set (d_runs (es_db ?s))" "r_id r = ''r''" "r_version r = 0"
    by (cases "d_runs (es_db ?s)") auto
  have "(1::int) \<noteq> r_version r" using r(3) by simp
  then show ?thesis using checkpoint_compare_and_set [OF inv r(1)] r unfolding r(2) by blast
qed

text \<open>
  Completion is exact. A run completes only under its live lease and without a pending
  cancellation; then its row is completed with the result and without a lease, its task is
  completed if it was open, and every other run and task is as it was.
\<close>

theorem completion_is_exact:
  assumes "exec_inv (es_db s)" and "complete_run env rid tok res now s = (Inr x, s')"
  shows "\<exists>r t rj. r \<in> set (d_runs (es_db s)) \<and> r_id r = rid \<and> timestamp env now = Inr t \<and> holds_lease tok t r
    \<and> \<not> r_cancel r \<and> json_result env res = Inr rj
    \<and> set (d_runs (es_db s')) = insert (r\<lparr>r_state := Completed, r_result := Some rj, r_token := None,
         r_expires := None, r_updated := t\<rparr>) (set (d_runs (es_db s)) - {r})
    \<and> d_tasks (es_db s') = map (\<lambda>k. if t_id k = r_task r \<and> t_state k = TOpen
         then k\<lparr>t_state := TCompleted, t_updated := t\<rparr> else k) (d_tasks (es_db s))"
proof -
  from assms(2) obtain rj t db' where j: "json_result env res = Inr rj" "timestamp env now = Inr t"
    and tx: "complete_run_tx env rid tok rj t (es_db s) = Inr ((), db')" and s': "es_db s' = db'"
    by (auto simp: complete_run_def method_iffs dest!: finish_Inr)
  from complete_ok [OF tx] obtain a r0 where r0: "r0 \<in> set (d_runs (es_db s))" "r_id r0 = rid"
      "holds_lease tok t r0" "\<not> r_cancel r0"
    and db': "db' = (upd_task (r_task r0) TOpen TCompleted t (upd_run rid (owned tok)
          (\<lambda>r. r\<lparr>r_state := Completed, r_result := Some rj, r_token := None, r_expires := None,
                 r_updated := t\<rparr>) (es_db s)))\<lparr>d_audit := a\<rparr>" by blast
  have own: "owned tok r0" using r0(3) by (simp add: owned_def holds_lease_def)
  have "distinct (map r_id (d_runs (es_db s)))" using assms(1) by (simp add: exec_inv_def runs_ok_def)
  from set_update_one [where key = r_id and p = "owned tok", OF this r0(1,2) own]
  have "set (d_runs db') = insert (r0\<lparr>r_state := Completed, r_result := Some rj, r_token := None,
         r_expires := None, r_updated := t\<rparr>) (set (d_runs (es_db s)) - {r0})"
    by (simp add: db' upd_task_def upd_run_def)
  moreover have "d_tasks db' = map (\<lambda>k. if t_id k = r_task r0 \<and> t_state k = TOpen
         then k\<lparr>t_state := TCompleted, t_updated := t\<rparr> else k) (d_tasks (es_db s))"
    by (simp add: db' upd_task_def upd_run_def sql_update_def)
  ultimately show ?thesis using r0 j s' by blast
qed

lemma completion_is_exact_witness:
  "\<exists>r x s'. complete_run (sample_env ''b'') ''r'' ''lease_a3'' (VInt 5) (VInt 150) (exec_session started fresh_store) = (Inr x, s')
    \<and> r \<in> set (d_runs (es_db (exec_session started fresh_store))) \<and> \<not> r_cancel r"
proof -
  let ?s = "exec_session started fresh_store"
  let ?c = "complete_run (sample_env ''b'') ''r'' ''lease_a3'' (VInt 5) (VInt 150) ?s"
  have inv: "exec_inv (es_db ?s)"
    by (rule db_inv.session) (code_simp, simp add: fresh_store_def exec_inv_empty)
  have "(case fst ?c of Inr x \<Rightarrow> True | Inl e \<Rightarrow> False)" by code_simp
  then obtain x where "fst ?c = Inr x" by (cases "fst ?c") simp_all
  then have c: "?c = (Inr x, snd ?c)" by (simp add: prod_eq_iff)
  from completion_is_exact [OF inv c] c show ?thesis by blast
qed

definition stranded_session :: "(env \<times> exec_call) list" where
  "stranded_session = started @
     [(sample_env ''b1'', RequestCancel ''r'' (VInt 105)),
      (sample_env ''b2'', Suspend ''r'' ''lease_a3'' 0 ''ask'' [] ''approval'' [] (Some ''i'') (VInt 110)),
      (sample_env ''b3'', ResolveInterrupt ''i'' True VNone (VInt 120))]"

text \<open>
  A cancellation request can be lost on the way. \<open>suspend\<close> does not look at the
  request, so a run with one can still wait for an approval; once that is given the run is
  pending with the request set, no claim succeeds on it at any time, and only a second
  request cancels it.
\<close>

theorem cancel_request_strands_run:
  "map (\<lambda>r. (r_state r, r_cancel r)) (d_runs (es_db (exec_session stranded_session fresh_store))) = [(Pending, True)]
    \<and> (\<forall>env l now. es_db (snd (claim_run env ''r'' l now (exec_session stranded_session fresh_store)))
          = es_db (exec_session stranded_session fresh_store))
    \<and> map r_state (d_runs (es_db (snd (request_cancel (sample_env ''b4'') ''r'' (VInt 130)
          (exec_session stranded_session fresh_store))))) = [Cancelled]"
proof -
  let ?s = "exec_session stranded_session fresh_store"
  have rows: "map (\<lambda>r. (r_state r, r_cancel r)) (d_runs (es_db ?s)) = [(Pending, True)]" by code_simp
  have "\<not> can_claim t r" if "r \<in> set (d_runs (es_db ?s))" for t r
  proof -
    from that have "(r_state r, r_cancel r) \<in> set (map (\<lambda>r. (r_state r, r_cancel r)) (d_runs (es_db ?s)))" by auto
    then show ?thesis unfolding rows by (simp add: can_claim_def)
  qed
  then have "count_run ''r'' (can_claim t) (es_db ?s) = 0" for t
    by (auto simp: count_run_def sql_count_0)
  then have "\<exists>e. claim_tx env ''r'' l t (es_db ?s) = Inl e" for env l t
    by (cases "the_run KeyError env ''r'' (es_db ?s)") (simp_all add: claim_tx_def)
  then have "snd (transact (claim_tx env ''r'' l t) ?s) = ?s \<and> (\<exists>e. fst (transact (claim_tx env ''r'' l t) ?s) = Inl e)" for env l t
    by (metis transact_Inl fst_conv snd_conv)
  then have "es_db (snd (claim_run env ''r'' l now ?s)) = es_db ?s" for env l now
    by (auto simp: claim_run_def sbind_def slift_def split: sum.splits prod.splits) (metis fst_conv snd_conv Inl_Inr_False)+
  moreover have "map r_state (d_runs (es_db (snd (request_cancel (sample_env ''b4'') ''r'' (VInt 130) ?s)))) = [Cancelled]"
    by code_simp
  ultimately show ?thesis using rows by blast
qed

end
