(* ===== verification/Mailbox.thy ===== *)
theory Mailbox
  imports Events
begin

text \<open>
  The leased mailbox and the agent orchestrator (\<open>lipas/orchestration.py\<close>): messages are
  handed off, leased under a token, acknowledged, released or recovered after a crash. As
  in the execution store a method is its argument checks, transactions over the database
  value (the functions named \<open>_tx\<close>) and one batch of mirrored audit events.
\<close>

section \<open>Data\<close>

definition TAG_AGENT_HANDOFF :: string where "TAG_AGENT_HANDOFF = ''agent_handoff''"
definition TAG_AGENT_MAIL_CLAIM :: string where "TAG_AGENT_MAIL_CLAIM = ''agent_mail_claim''"
definition TAG_AGENT_MAIL_ACK :: string where "TAG_AGENT_MAIL_ACK = ''agent_mail_ack''"
definition TAG_AGENT_MAIL_RELEASED :: string where "TAG_AGENT_MAIL_RELEASED = ''agent_mail_released''"
definition TAG_AGENT_MAIL_RECOVERED :: string where "TAG_AGENT_MAIL_RECOVERED = ''agent_mail_recovered''"
definition MAILBOX_SCHEMA_VERSION :: int where "MAILBOX_SCHEMA_VERSION = 1"

datatype mail_status = MPending | MLeased | MAcked

text \<open>A row of the table \<open>mailbox\<close>; \<open>m_payload\<close> holds JSON text as its canonical value.\<close>

record mail =
  m_id :: string
  m_sender :: string
  m_recipient :: string
  m_payload :: pyval
  m_status :: mail_status
  m_attempts :: nat
  m_token :: "string option"
  m_expires :: "xfloat option"
  m_created :: rat
  m_acked :: "rat option"

text \<open>\<open>MailboxMessage\<close>, what the methods return.\<close>

record message =
  mm_id :: string
  mm_sender :: string
  mm_recipient :: string
  mm_payload :: "(pykey \<times> pyval) list"
  mm_status :: mail_status
  mm_attempts :: nat
  mm_token :: "string option"

record mail_db =
  b_mail :: "mail list"
  b_audit :: "audit_event list"
  b_schema :: "string option"
  b_seeded :: bool

definition empty_mail_db :: mail_db where
  "empty_mail_db = \<lparr>b_mail = [], b_audit = [], b_schema = None, b_seeded = False\<rparr>"

text \<open>
  The open mailbox; \<open>mb_mirrored\<close> is \<open>_mirrored_payloads\<close>, the tag and text of every
  claim this mailbox has put on the tape.
\<close>

record mailbox =
  mb_db :: mail_db
  mb_rowset :: "rowset option"
  mb_closed :: bool
  mb_cursor :: nat
  mb_mirrored :: "(string \<times> pyval) list option"

text \<open>
  One call's non-determinism: the readings of the clock that decide about leases, the
  readings that stamp the audit events (by their place in the outbox), the \<open>uuid4\<close> draws
  and the ids of merged claims (by repair pass and place in it); SHA-256 is a parameter.
\<close>

record mail_env =
  me_now :: "nat \<Rightarrow> rat"
  me_stamp :: "nat \<Rightarrow> rat"
  me_uuid :: "nat \<Rightarrow> string"
  me_digest :: "string \<Rightarrow> string"
  me_merge :: "nat \<Rightarrow> nat \<Rightarrow> string"

section \<open>Strict JSON\<close>

text \<open>
  \<open>_strict_json_copy\<close>: the shape check (the same function as in \<open>events.py\<close>), then a dump
  and a load, so the copy is the canonical value and dumping it again changes nothing.
\<close>

definition strict_json_copy :: "pyval \<Rightarrow> exn + pyval" where
  "strict_json_copy v = ebind (validate_json_shape v) (\<lambda>_.
     case canon v of Inl e \<Rightarrow> Inl ValueError | Inr t \<Rightarrow> Inr t)"

text \<open>
  \<open>_strict_json_loads\<close> of a stored text; a text with a non-finite constant is rejected
  with \<open>ValueError\<close> while it is parsed, as the shape check would reject it.
\<close>

definition strict_json_loads :: "pyval \<Rightarrow> exn + pyval" where
  "strict_json_loads t = strict_json_copy t"

section \<open>The audit outbox\<close>

definition mail_audit_id :: "mail_env \<Rightarrow> string \<Rightarrow> string" where
  "mail_audit_id env identity = ''mailbox_audit_'' @ me_digest env (''mailbox'' @ [NUL] @ identity)"

text \<open>\<open>_record_audit_event\<close>: \<open>INSERT OR IGNORE\<close>, so a known id keeps its first event.\<close>

definition record_mail_event ::
  "mail_env \<Rightarrow> string \<Rightarrow> string \<Rightarrow> fieldmap \<Rightarrow> mail_db \<Rightarrow> exn + mail_db" where
  "record_mail_event env identity tg fs db = ebind (strict_json_copy (vobj fs)) (\<lambda>text.
     if mail_audit_id env identity \<in> ev_id ` set (b_audit db) then Inr db
     else Inr (db\<lparr>b_audit := b_audit db @
       [\<lparr>ev_id = mail_audit_id env identity, ev_tag = tg, ev_fields = text,
         ev_at = me_stamp env (length (b_audit db))\<rparr>]\<rparr>))"

definition attempt_fields :: "string \<Rightarrow> string \<Rightarrow> nat \<Rightarrow> fieldmap" where
  "attempt_fields mid recipient attempt =
     [(''message_id'', VStr mid), (''recipient'', VStr recipient), (''attempt'', VInt (int attempt))]"

definition record_handoff :: "mail_env \<Rightarrow> string \<Rightarrow> string \<Rightarrow> string \<Rightarrow> pyval \<Rightarrow> mail_db \<Rightarrow> exn + mail_db" where
  "record_handoff env mid sender recipient payload db =
     record_mail_event env (''handoff:'' @ mid) TAG_AGENT_HANDOFF
       [(''message_id'', VStr mid), (''sender'', VStr sender), (''recipient'', VStr recipient),
        (''payload'', payload)] db"

definition record_mail_claim :: "mail_env \<Rightarrow> string \<Rightarrow> string \<Rightarrow> nat \<Rightarrow> mail_db \<Rightarrow> exn + mail_db" where
  "record_mail_claim env mid recipient attempt db =
     record_mail_event env (''claim:'' @ mid @ '':'' @ str_int (int attempt)) TAG_AGENT_MAIL_CLAIM
       (attempt_fields mid recipient attempt) db"

definition record_recovered :: "mail_env \<Rightarrow> string \<Rightarrow> string \<Rightarrow> nat \<Rightarrow> mail_db \<Rightarrow> exn + mail_db" where
  "record_recovered env mid recipient attempt db =
     record_mail_event env (''recovered:'' @ mid @ '':'' @ str_int (int attempt)) TAG_AGENT_MAIL_RECOVERED
       (attempt_fields mid recipient attempt) db"

definition record_released :: "mail_env \<Rightarrow> string \<Rightarrow> nat \<Rightarrow> mail_db \<Rightarrow> exn + mail_db" where
  "record_released env mid attempt db =
     record_mail_event env (''released:'' @ mid @ '':'' @ str_int (int attempt)) TAG_AGENT_MAIL_RELEASED
       [(''message_id'', VStr mid), (''attempt'', VInt (int attempt))] db"

definition record_ack :: "mail_env \<Rightarrow> string \<Rightarrow> mail_db \<Rightarrow> exn + mail_db" where
  "record_ack env mid db = record_mail_event env (''ack:'' @ mid) TAG_AGENT_MAIL_ACK
     [(''message_id'', VStr mid)] db"

section \<open>Transactions\<close>

text \<open>\<open>get\<close> on the table.\<close>

definition message_of_row :: "mail \<Rightarrow> exn + message" where
  "message_of_row r = ebind (strict_json_loads (m_payload r)) (\<lambda>p. case p of
      VDict d \<Rightarrow> Inr \<lparr>mm_id = m_id r, mm_sender = m_sender r, mm_recipient = m_recipient r,
         mm_payload = d, mm_status = m_status r, mm_attempts = m_attempts r, mm_token = m_token r\<rparr>
    | _ \<Rightarrow> Inl ValueError)"

definition get_message :: "string \<Rightarrow> mail_db \<Rightarrow> exn + message option" where
  "get_message message_id db = ebind (non_empty_text message_id) (\<lambda>mid.
     case sql_first (\<lambda>r. m_id r = mid) (b_mail db) of
       None \<Rightarrow> Inr None
     | Some r \<Rightarrow> ebind (message_of_row r) (\<lambda>m. Inr (Some m)))"

definition upd_mail :: "string \<Rightarrow> (mail \<Rightarrow> bool) \<Rightarrow> (mail \<Rightarrow> mail) \<Rightarrow> mail_db \<Rightarrow> mail_db" where
  "upd_mail mid p f db = db\<lparr>b_mail := sql_update (\<lambda>r. m_id r = mid \<and> p r) f (b_mail db)\<rparr>"

definition count_mail :: "string \<Rightarrow> (mail \<Rightarrow> bool) \<Rightarrow> mail_db \<Rightarrow> nat" where
  "count_mail mid p db = sql_count (\<lambda>r. m_id r = mid \<and> p r) (b_mail db)"

definition new_mail :: "string \<Rightarrow> string \<Rightarrow> string \<Rightarrow> pyval \<Rightarrow> rat \<Rightarrow> mail" where
  "new_mail mid sender recipient encoded now = \<lparr>m_id = mid, m_sender = sender,
     m_recipient = recipient, m_payload = encoded, m_status = MPending, m_attempts = 0,
     m_token = None, m_expires = None, m_created = now, m_acked = None\<rparr>"

definition send_tx :: "mail_env \<Rightarrow> string \<Rightarrow> string \<Rightarrow> string \<Rightarrow> pyval \<Rightarrow> mail_db \<Rightarrow> exn + unit \<times> mail_db" where
  "send_tx env mid sender recipient payload db =
     (if mid \<in> m_id ` set (b_mail db) then Inl IntegrityError
      else ebind (record_handoff env mid sender recipient payload
            (db\<lparr>b_mail := b_mail db @ [new_mail mid sender recipient payload (me_now env 0)]\<rparr>))
        (\<lambda>db'. Inr ((), db')))"

definition lease_over :: "rat \<Rightarrow> mail \<Rightarrow> bool" where
  "lease_over now r \<longleftrightarrow> m_status r = MLeased
     \<and> (case m_expires r of None \<Rightarrow> False | Some x \<Rightarrow> x \<le> Fin now)"

definition owns_mail :: "string \<Rightarrow> rat \<Rightarrow> mail \<Rightarrow> bool" where
  "owns_mail token now r \<longleftrightarrow> m_status r = MLeased \<and> m_token r = Some token
     \<and> (case m_expires r of None \<Rightarrow> False | Some x \<Rightarrow> Fin now < x)"

definition to_pending :: "mail \<Rightarrow> mail" where
  "to_pending r = r\<lparr>m_status := MPending, m_token := None, m_expires := None\<rparr>"

definition recover_step :: "mail_env \<Rightarrow> rat \<Rightarrow> mail_db \<times> nat \<Rightarrow> mail \<Rightarrow> exn + mail_db \<times> nat" where
  "recover_step env now st r = (case st of (db, n) \<Rightarrow>
     if count_mail (m_id r) (lease_over now) db = 0 then Inr (db, n)
     else ebind (record_recovered env (m_id r) (m_recipient r) (m_attempts r)
          (upd_mail (m_id r) (lease_over now) to_pending db)) (\<lambda>db'. Inr (db', n + 1)))"

definition recover_tx :: "mail_env \<Rightarrow> rat \<Rightarrow> mail_db \<Rightarrow> exn + nat \<times> mail_db" where
  "recover_tx env now db = ebind (efoldl (recover_step env now) (db, 0)
      (sql_order (\<lambda>a b. m_id a \<le> m_id b) (filter (lease_over now) (b_mail db))))
     (\<lambda>(db', n). Inr (n, db'))"

text \<open>The \<open>i\<close>-th selected message of a claim: the token is the \<open>i\<close>-th draw.\<close>

definition claim_mail_tx :: "mail_env \<Rightarrow> nat \<Rightarrow> rat \<Rightarrow> string \<Rightarrow> string \<Rightarrow> mail_db \<Rightarrow> exn + message option \<times> mail_db" where
  "claim_mail_tx env i lease recipient mid db =
     (let pending = (\<lambda>r. m_status r = MPending) in
      if count_mail mid pending db = 0 then Inr (None, db)
      else
        let db1 = upd_mail mid pending (\<lambda>r. r\<lparr>m_status := MLeased, m_attempts := m_attempts r + 1,
              m_token := Some (me_uuid env i),
              m_expires := Some (f_add (me_now env (Suc i)) lease)\<rparr>) db
        in ebind (get_message mid db1) (\<lambda>res. case res of
             None \<Rightarrow> Inl AssertionError
           | Some m \<Rightarrow> ebind (record_mail_claim env mid recipient (mm_attempts m) db1)
               (\<lambda>db2. Inr (Some m, db2))))"

text \<open>
  \<open>acknowledge\<close> and \<open>release\<close>: the transaction commits whether or not a row matched; the
  lease error is raised after it, with nothing written.
\<close>

definition ack_tx :: "mail_env \<Rightarrow> string \<Rightarrow> string \<Rightarrow> mail_db \<Rightarrow> exn + unit \<times> mail_db" where
  "ack_tx env mid token db =
     (let now = me_now env 0 in
      if count_mail mid (owns_mail token now) db = 0 then Inl MailboxLeaseError
      else ebind (record_ack env mid (upd_mail mid (owns_mail token now)
            (\<lambda>r. r\<lparr>m_status := MAcked, m_token := None, m_expires := None, m_acked := Some now\<rparr>) db))
        (\<lambda>db'. Inr ((), db')))"

definition release_tx :: "mail_env \<Rightarrow> string \<Rightarrow> string \<Rightarrow> mail_db \<Rightarrow> exn + unit \<times> mail_db" where
  "release_tx env mid token db =
     (let now = me_now env 0 in
      case sql_first (\<lambda>r. m_id r = mid \<and> owns_mail token now r) (b_mail db) of
        None \<Rightarrow> Inl MailboxLeaseError
      | Some row \<Rightarrow> ebind (record_released env mid (m_attempts row)
            (upd_mail mid (owns_mail token now) to_pending db)) (\<lambda>db'. Inr ((), db')))"

section \<open>Legacy seed and opening\<close>

definition seed_mail :: "mail_env \<Rightarrow> mail_db \<Rightarrow> mail \<Rightarrow> exn + mail_db" where
  "seed_mail env db r =
     ebind (strict_json_loads (m_payload r)) (\<lambda>payload.
     ebind (record_handoff env (m_id r) (m_sender r) (m_recipient r) payload db) (\<lambda>db1.
     ebind (efoldl (\<lambda>d a. record_mail_claim env (m_id r) (m_recipient r) a d) db1
          [1..<Suc (m_attempts r)]) (\<lambda>db2.
     if m_status r = MAcked then record_ack env (m_id r) db2 else Inr db2)))"

definition mail_order :: "mail \<Rightarrow> mail \<Rightarrow> bool" where
  "mail_order a b \<longleftrightarrow> m_created a < m_created b \<or> (m_created a = m_created b \<and> m_id a \<le> m_id b)"

definition seed_mail_events_once :: "mail_env \<Rightarrow> mail_db \<Rightarrow> exn + unit \<times> mail_db" where
  "seed_mail_events_once env db =
     (if b_seeded db then Inr ((), db)
      else ebind (efoldl (seed_mail env) db (sql_order mail_order (b_mail db)))
        (\<lambda>db'. Inr ((), db'\<lparr>b_seeded := True\<rparr>)))"

definition init_mail_schema :: "mail_db \<Rightarrow> exn + mail_db" where
  "init_mail_schema db =
     (let stamped = (case b_schema db of None \<Rightarrow> str_int MAILBOX_SCHEMA_VERSION | Some v \<Rightarrow> v) in
      case py_int_text stamped of
        None \<Rightarrow> Inl MailboxSchemaVersionMismatch
      | Some v \<Rightarrow> if v \<noteq> MAILBOX_SCHEMA_VERSION then Inl MailboxSchemaVersionMismatch
          else Inr (db\<lparr>b_schema := Some stamped\<rparr>))"

section \<open>Mirroring\<close>

text \<open>
  The signature of a claim already on the tape: its tag and text, dumped with escapes for
  every character beyond ASCII. The table's texts are dumped without escapes, so only an
  ASCII text can equal one of them; a claim with other characters, a non-finite number or
  a nested key that is not a string has no matching signature (\<open>None\<close>). A value that does
  not dump at all raises \<open>TypeError\<close>.
\<close>

definition ascii :: "string \<Rightarrow> bool" where
  "ascii s \<longleftrightarrow> (\<forall>c \<in> set s. (of_char c :: nat) < 128)"

fun ascii_key :: "pykey \<Rightarrow> bool" where
  "ascii_key (KStr s) = ascii s"
| "ascii_key _ = False"

fun ascii_val :: "pyval \<Rightarrow> bool" where
  "ascii_val (VStr s) = ascii s"
| "ascii_val (VList xs) = (\<forall>x \<in> set xs. ascii_val x)"
| "ascii_val (VTuple xs) = (\<forall>x \<in> set xs. ascii_val x)"
| "ascii_val (VDict d) = (\<forall>kv \<in> set d. ascii_key (fst kv) \<and> ascii_val (snd kv))"
| "ascii_val _ = True"

fun dumpable :: "pyval \<Rightarrow> bool" where
  "dumpable (VList xs) = (\<forall>x \<in> set xs. dumpable x)"
| "dumpable (VTuple xs) = (\<forall>x \<in> set xs. dumpable x)"
| "dumpable (VDict d) = (\<forall>kv \<in> set d. dumpable (snd kv))"
| "dumpable (VSet s) = False"
| "dumpable (VObj t x) = False"
| "dumpable (VOpaque n) = False"
| "dumpable v = True"

definition claim_signature :: "claim \<Rightarrow> exn + (string \<times> pyval) option" where
  "claim_signature c =
     (if \<not> dumpable (vobj (cfields c)) then Inl TypeError
      else if \<not> ascii_val (vobj (cfields c)) then Inr None
      else (case canon (vobj (cfields c)) of Inl e \<Rightarrow> Inr None | Inr t \<Rightarrow> Inr (Some (tag c, t))))"

definition mirrored_payloads :: "rowset \<Rightarrow> exn + (string \<times> pyval) list" where
  "mirrored_payloads rs = ebind
     (emap claim_signature (store_filter None None (Some ''orchestration.mailbox'') (rs_store rs)))
     (\<lambda>sigs. Inr (List.map_filter id sigs))"

text \<open>
  The loop of \<open>repair_audit\<close>; it stops at the first event that raises, with the cursor on
  the last event it handled.
\<close>

fun mail_repair_loop :: "(nat \<Rightarrow> string) \<Rightarrow> nat \<Rightarrow> (nat \<times> audit_event) list \<Rightarrow> rowset
    \<Rightarrow> (string \<times> pyval) list \<Rightarrow> nat \<Rightarrow> nat \<Rightarrow> (exn + nat) \<times> rowset \<times> (string \<times> pyval) list \<times> nat" where
  "mail_repair_loop ids n [] rs sigs cursor repaired = (Inr repaired, rs, sigs, cursor)"
| "mail_repair_loop ids n ((rowid, e) # rest) rs sigs cursor repaired =
     (case strict_json_loads (ev_fields e) of
        Inl x \<Rightarrow> (Inl x, rs, sigs, cursor)
      | Inr v \<Rightarrow> (case v of
          VDict d \<Rightarrow> (case str_keys d of
              None \<Rightarrow> (Inl TypeError, rs, sigs, cursor)
            | Some fs \<Rightarrow>
              if \<not> claim_known (ev_id e) rs \<and> (ev_tag e, ev_fields e) \<in> set sigs
              then mail_repair_loop ids n rest rs sigs rowid repaired
              else (case rowset_fold (ids n) (mirror_claim ''orchestration.mailbox'' e fs) rs of
                  (Inl x, rs') \<Rightarrow> (Inl x, rs', sigs, cursor)
                | (Inr m, rs') \<Rightarrow>
                    if claim_known (ev_id e) rs
                    then mail_repair_loop ids (Suc n) rest rs' sigs rowid repaired
                    else mail_repair_loop ids (Suc n) rest rs' ((ev_tag e, ev_fields e) # sigs) rowid (Suc repaired)))
        | _ \<Rightarrow> (Inl TypeError, rs, sigs, cursor)))"

definition mail_outbox_after :: "nat \<Rightarrow> mail_db \<Rightarrow> (nat \<times> audit_event) list" where
  "mail_outbox_after cursor db = filter (\<lambda>(rowid, e). cursor < rowid)
     (zip [1..<Suc (length (b_audit db))] (b_audit db))"

definition ensure_open :: "mailbox \<Rightarrow> exn + unit" where
  "ensure_open s = (if mb_closed s then Inl ProgrammingError else Inr ())"

definition mail_repair_audit :: "mail_env \<Rightarrow> nat \<Rightarrow> int option \<Rightarrow> mailbox \<Rightarrow> (exn + nat) \<times> mailbox" where
  "mail_repair_audit env pass batch s = (case ensure_open s of Inl e \<Rightarrow> (Inl e, s) | Inr _ \<Rightarrow>
     (case mb_rowset s of
       None \<Rightarrow> (Inr 0, s)
     | Some rs \<Rightarrow>
        if (case batch of None \<Rightarrow> False | Some n \<Rightarrow> n < 1 \<or> MAX_SQLITE_INT < n)
        then (Inl (if the batch < 1 then ValueError else OverflowError), s)
        else
          let found = mail_outbox_after (mb_cursor s) (mb_db s);
              events = (case batch of None \<Rightarrow> found | Some n \<Rightarrow> take (nat n) found)
          in if events = [] then (Inr 0, s)
             else (case (case mb_mirrored s of Some sigs \<Rightarrow> Inr sigs | None \<Rightarrow> mirrored_payloads rs) of
                 Inl e \<Rightarrow> (Inl e, s)
               | Inr sigs \<Rightarrow> (case mail_repair_loop (me_merge env pass) 0 events rs sigs (mb_cursor s) 0 of
                   (res, rs', sigs', cursor) \<Rightarrow>
                     (res, s\<lparr>mb_rowset := Some rs', mb_cursor := cursor, mb_mirrored := Some sigs'\<rparr>)))))"

definition mail_repair_batch :: "mail_env \<Rightarrow> nat \<Rightarrow> mailbox \<Rightarrow> (exn + nat) \<times> mailbox" where
  "mail_repair_batch env pass = mail_repair_audit env pass (Some DEFAULT_AUDIT_REPAIR_BATCH_SIZE)"

end
