(* ===== verification/MailboxApi.thy ===== *)
theory MailboxApi
  imports Mailbox
begin

text \<open>
  The public methods of the mailbox, the orchestrator's \<open>handoff\<close>, and sessions of calls.
  A method that runs two mirroring passes numbers them, so their merged claims have ids of
  their own.
\<close>

section \<open>Methods of the mailbox\<close>

definition mail_transact :: "(mail_db \<Rightarrow> exn + 'a \<times> mail_db) \<Rightarrow> mailbox \<Rightarrow> (exn + 'a) \<times> mailbox" where
  "mail_transact tx s = (case tx (mb_db s) of
      Inl e \<Rightarrow> (Inl e, s)
    | Inr (x, db) \<Rightarrow> (Inr x, s\<lparr>mb_db := db\<rparr>))"

definition mail_open :: "mailbox \<Rightarrow> (exn + unit) \<times> mailbox" where
  "mail_open s = (ensure_open s, s)"

definition mail_get :: "string \<Rightarrow> mailbox \<Rightarrow> (exn + message option) \<times> mailbox" where
  "mail_get message_id = sbind mail_open (\<lambda>_ s. (get_message message_id (mb_db s), s))"

text \<open>\<open>send\<close>: a message id that is already stored makes the call a replay of that handoff.\<close>

definition same_handoff :: "message \<Rightarrow> string \<Rightarrow> string \<Rightarrow> pyval \<Rightarrow> bool" where
  "same_handoff m sender recipient payload \<longleftrightarrow> mm_sender m = sender \<and> mm_recipient m = recipient
     \<and> py_eq (VDict (mm_payload m)) payload"

definition send_new ::
  "mail_env \<Rightarrow> string \<Rightarrow> string \<Rightarrow> string \<Rightarrow> pyval \<Rightarrow> mailbox \<Rightarrow> (exn + message option) \<times> mailbox" where
  "send_new env mid sender recipient payload s =
     (case mail_transact (send_tx env mid sender recipient payload) s of
        (Inr u, s1) \<Rightarrow> sbind (mail_repair_batch env 0) (\<lambda>_. mail_get mid) s1
      | (Inl e, s1) \<Rightarrow>
          if e \<noteq> IntegrityError then (Inl e, s1)
          else sbind (mail_get mid) (\<lambda>res. case res of
              None \<Rightarrow> slift (Inl AssertionError)
            | Some m \<Rightarrow> if \<not> same_handoff m sender recipient payload then slift (Inl ValueError)
                else sbind (mail_repair_batch env 0) (\<lambda>_. sret (Some m))) s1)"

definition send ::
  "mail_env \<Rightarrow> string \<Rightarrow> string \<Rightarrow> (pykey \<times> pyval) list \<Rightarrow> string option
    \<Rightarrow> mailbox \<Rightarrow> (exn + message option) \<times> mailbox" where
  "send env sender recipient payload message_id =
     sbind mail_open (\<lambda>_.
     sbind (slift (non_empty_text sender)) (\<lambda>sender.
     sbind (slift (non_empty_text recipient)) (\<lambda>recipient.
     sbind (slift (case message_id of None \<Rightarrow> Inr (''msg_'' @ me_uuid env 0)
            | Some m \<Rightarrow> non_empty_text m)) (\<lambda>mid.
     sbind (slift (strict_json_copy (VDict payload))) (\<lambda>payload.
     send_new env mid sender recipient payload)))))"

definition recovery_time :: "mail_env \<Rightarrow> pyval \<Rightarrow> exn + rat" where
  "recovery_time env now = (if now = VNone then Inr (me_now env 0)
     else (case finite_float now of None \<Rightarrow> Inl ValueError | Some t \<Rightarrow> Inr t))"

definition recover_expired :: "mail_env \<Rightarrow> pyval \<Rightarrow> mailbox \<Rightarrow> (exn + nat) \<times> mailbox" where
  "recover_expired env now =
     sbind mail_open (\<lambda>_.
     sbind (slift (recovery_time env now)) (\<lambda>t.
     sbind (mail_transact (recover_tx env t)) (\<lambda>n.
     sbind (mail_repair_batch env 0) (\<lambda>_. sret n))))"

text \<open>The ids a claim selects; binding a limit beyond 64 bits raises \<open>OverflowError\<close>.\<close>

definition select_mail :: "string \<Rightarrow> int \<Rightarrow> string option \<Rightarrow> mail_db \<Rightarrow> exn + string list" where
  "select_mail recipient lmt message_id db = (case message_id of
      None \<Rightarrow> if MAX_SQLITE_INT < lmt then Inl OverflowError
        else Inr (map m_id (take (nat lmt) (sql_order mail_order
          (filter (\<lambda>r. m_recipient r = recipient \<and> m_status r = MPending) (b_mail db)))))
    | Some mid \<Rightarrow> Inr (map m_id (filter (\<lambda>r. m_id r = mid \<and> m_recipient r = recipient
          \<and> m_status r = MPending) (b_mail db))))"

fun claim_loop :: "mail_env \<Rightarrow> rat \<Rightarrow> string \<Rightarrow> nat \<Rightarrow> string list \<Rightarrow> mailbox \<Rightarrow> (exn + message list) \<times> mailbox" where
  "claim_loop env lease recipient i [] = sret []"
| "claim_loop env lease recipient i (mid # mids) =
     sbind (mail_transact (claim_mail_tx env i lease recipient mid)) (\<lambda>m.
     sbind (claim_loop env lease recipient (Suc i) mids) (\<lambda>ms.
     sret (case m of None \<Rightarrow> ms | Some x \<Rightarrow> x # ms)))"

definition claim_mail ::
  "mail_env \<Rightarrow> string \<Rightarrow> int \<Rightarrow> pyval \<Rightarrow> string option \<Rightarrow> mailbox \<Rightarrow> (exn + message list) \<times> mailbox" where
  "claim_mail env recipient lmt lease_seconds message_id =
     sbind mail_open (\<lambda>_.
     sbind (slift (non_empty_text recipient)) (\<lambda>recipient.
     sbind (slift (guard_or ValueError (1 \<le> lmt))) (\<lambda>_.
     sbind (slift (positive_duration lease_seconds)) (\<lambda>lease.
     sbind (slift (case message_id of None \<Rightarrow> Inr None
            | Some m \<Rightarrow> ebind (non_empty_text m) (\<lambda>m. Inr (Some m)))) (\<lambda>message_id.
     sbind (recover_expired env VNone) (\<lambda>_.
     sbind (\<lambda>s. (select_mail recipient lmt message_id (mb_db s), s)) (\<lambda>mids.
     sbind (claim_loop env lease recipient 0 mids) (\<lambda>claimed.
     sbind (mail_repair_batch env 1) (\<lambda>_. sret claimed)))))))))"

definition acknowledge :: "mail_env \<Rightarrow> string \<Rightarrow> string \<Rightarrow> mailbox \<Rightarrow> (exn + unit) \<times> mailbox" where
  "acknowledge env message_id lease_token =
     sbind mail_open (\<lambda>_.
     sbind (slift (non_empty_text message_id)) (\<lambda>mid.
     sbind (slift (non_empty_text lease_token)) (\<lambda>token.
     sbind (mail_transact (ack_tx env mid token)) (\<lambda>_.
     sbind (mail_repair_batch env 0) (\<lambda>_. sret ())))))"

definition release :: "mail_env \<Rightarrow> string \<Rightarrow> string \<Rightarrow> mailbox \<Rightarrow> (exn + unit) \<times> mailbox" where
  "release env message_id lease_token =
     sbind mail_open (\<lambda>_.
     sbind (slift (non_empty_text message_id)) (\<lambda>mid.
     sbind (slift (non_empty_text lease_token)) (\<lambda>token.
     sbind (mail_transact (release_tx env mid token)) (\<lambda>_.
     sbind (mail_repair_batch env 0) (\<lambda>_. sret ())))))"

definition close_mailbox :: "mailbox \<Rightarrow> mailbox" where
  "close_mailbox s = s\<lparr>mb_closed := True\<rparr>"

text \<open>The constructor: the open mailbox or the exception, and the database it leaves behind.\<close>

definition open_mailbox :: "mail_env \<Rightarrow> mail_db \<Rightarrow> rowset option \<Rightarrow> (exn + mailbox) \<times> mail_db" where
  "open_mailbox env db rs = (case init_mail_schema db of
      Inl e \<Rightarrow> (Inl e, db)
    | Inr db1 \<Rightarrow>
        let s = \<lparr>mb_db = db1, mb_rowset = rs, mb_closed = False, mb_cursor = 0, mb_mirrored = None\<rparr> in
        (case sbind (mail_transact (seed_mail_events_once env)) (\<lambda>_. mail_repair_batch env 0) s of
           (Inl e, s') \<Rightarrow> (Inl e, mb_db s')
         | (Inr n, s') \<Rightarrow> (Inr s', mb_db s')))"

section \<open>Sessions\<close>

text \<open>
  Calls in the order they take effect: the members of an orchestration share one table, so
  a session interleaves the calls of all of them.
\<close>

datatype mail_call =
    Send string string "(pykey \<times> pyval) list" "string option"
  | Recover pyval
  | ClaimMail string int pyval "string option"
  | Acknowledge string string
  | Release string string
  | RepairMail "int option"
  | CloseMailbox

fun mail_step :: "mail_env \<Rightarrow> mail_call \<Rightarrow> mailbox \<Rightarrow> mailbox" where
  "mail_step env (Send a b p m) s = snd (send env a b p m s)"
| "mail_step env (Recover n) s = snd (recover_expired env n s)"
| "mail_step env (ClaimMail r l d m) s = snd (claim_mail env r l d m s)"
| "mail_step env (Acknowledge m k) s = snd (acknowledge env m k s)"
| "mail_step env (Release m k) s = snd (release env m k s)"
| "mail_step env (RepairMail n) s = snd (mail_repair_audit env 0 n s)"
| "mail_step env CloseMailbox s = close_mailbox s"

definition mail_session :: "(mail_env \<times> mail_call) list \<Rightarrow> mailbox \<Rightarrow> mailbox" where
  "mail_session calls s = foldl (\<lambda>s (env, c). mail_step env c s) s calls"

section \<open>The orchestrator\<close>

text \<open>
  \<open>AgentOrchestrator\<close>: the registered handlers by name. A handler is the host's code: it
  takes the message, may change the mailbox while it runs (other members do), and returns
  or raises.
\<close>

type_synonym handler = "message \<Rightarrow> mailbox \<Rightarrow> (exn + pyval) \<times> mailbox"

record orchestrator =
  ao_lease :: rat
  ao_agents :: "(string \<times> handler) list"

definition orchestrator_init :: "pyval \<Rightarrow> exn + orchestrator" where
  "orchestrator_init lease_seconds = ebind (positive_duration lease_seconds)
     (\<lambda>l. Inr \<lparr>ao_lease = l, ao_agents = []\<rparr>)"

definition register_agent :: "string \<Rightarrow> handler \<Rightarrow> orchestrator \<Rightarrow> exn + orchestrator" where
  "register_agent name h ao = (if name = [] \<or> name \<in> fst ` set (ao_agents ao) then Inl ValueError
     else Inr (ao\<lparr>ao_agents := dict_put name h (ao_agents ao)\<rparr>))"

text \<open>
  \<open>handoff\<close>: the environments of its \<open>send\<close>, its \<open>claim\<close>, and the call that settles the
  lease. A failing handler releases the lease and its exception is raised again; only a
  lease error of that release is swallowed.
\<close>

definition settle_failure :: "mail_env \<Rightarrow> message \<Rightarrow> exn \<Rightarrow> mailbox \<Rightarrow> (exn + pyval) \<times> mailbox" where
  "settle_failure env m e s =
     (case release env (mm_id m) (case mm_token m of None \<Rightarrow> [] | Some k \<Rightarrow> k) s of
        (Inl x, s') \<Rightarrow> (Inl (if x = MailboxLeaseError then e else x), s')
      | (Inr u, s') \<Rightarrow> (Inl e, s'))"

definition run_handler :: "mail_env \<Rightarrow> handler \<Rightarrow> message \<Rightarrow> mailbox \<Rightarrow> (exn + pyval) \<times> mailbox" where
  "run_handler env h m s = (case h m s of
      (Inl e, s1) \<Rightarrow> settle_failure env m e s1
    | (Inr res, s1) \<Rightarrow>
        sbind (acknowledge env (mm_id m) (case mm_token m of None \<Rightarrow> [] | Some k \<Rightarrow> k)) (\<lambda>_. sret res) s1)"

definition handoff ::
  "mail_env \<Rightarrow> mail_env \<Rightarrow> mail_env \<Rightarrow> orchestrator \<Rightarrow> string \<Rightarrow> string \<Rightarrow> (pykey \<times> pyval) list
    \<Rightarrow> string option \<Rightarrow> mailbox \<Rightarrow> (exn + pyval) \<times> mailbox" where
  "handoff env1 env2 env3 ao sender recipient payload message_id =
     (case map_of (ao_agents ao) recipient of
        None \<Rightarrow> slift (Inl KeyError)
      | Some h \<Rightarrow>
          sbind (send env1 sender recipient payload message_id) (\<lambda>res. case res of
              None \<Rightarrow> slift (Inl AttributeError)
            | Some sent \<Rightarrow>
              if mm_status sent = MAcked then slift (Inl MailboxLeaseError)
              else sbind (claim_mail env2 recipient 1 (VFloat (Fin (ao_lease ao))) (Some (mm_id sent))) (\<lambda>ms.
                case find (\<lambda>m. mm_id m = mm_id sent) ms of
                  None \<Rightarrow> slift (Inl MailboxLeaseError)
                | Some m \<Rightarrow> run_handler env3 h m)))"

end
