(* ===== verification/MailboxLog.thy ===== *)
theory MailboxLog
  imports MailboxApi
begin

text \<open>
  The abstract protocol of the mailbox and the refinement of it: the outbox of
  \<open>lipas/orchestration.py\<close> is a legal history of hand-offs, claims, acknowledgements,
  releases and recoveries, and replaying it gives the table.
\<close>

section \<open>The protocol\<close>

text \<open>A letter: what the protocol knows of a message.\<close>

record letter =
  l_sender :: string
  l_recipient :: string
  l_payload :: pyval
  l_status :: mail_status
  l_attempts :: nat

datatype mail_fact =
    FHandoff string string string pyval
  | FClaimed string string nat
  | FAcked string
  | FReleased string nat
  | FRecovered string string nat

type_synonym letters = "string \<Rightarrow> letter option"

text \<open>One step; an illegal one has no successor.\<close>

fun fact_step :: "mail_fact \<Rightarrow> letters \<Rightarrow> letters option" where
  "fact_step (FHandoff mid sn rcp pl) m = (case m mid of
      None \<Rightarrow> Some (m(mid \<mapsto> \<lparr>l_sender = sn, l_recipient = rcp, l_payload = pl,
        l_status = MPending, l_attempts = 0\<rparr>))
    | Some l \<Rightarrow> None)"
| "fact_step (FClaimed mid rcp n) m = (case m mid of
      None \<Rightarrow> None
    | Some l \<Rightarrow> if l_status l = MPending \<and> l_recipient l = rcp \<and> n = l_attempts l + 1
        then Some (m(mid \<mapsto> l\<lparr>l_status := MLeased, l_attempts := n\<rparr>)) else None)"
| "fact_step (FAcked mid) m = (case m mid of
      None \<Rightarrow> None
    | Some l \<Rightarrow> if l_status l = MLeased then Some (m(mid \<mapsto> l\<lparr>l_status := MAcked\<rparr>)) else None)"
| "fact_step (FReleased mid n) m = (case m mid of
      None \<Rightarrow> None
    | Some l \<Rightarrow> if l_status l = MLeased \<and> n = l_attempts l
        then Some (m(mid \<mapsto> l\<lparr>l_status := MPending\<rparr>)) else None)"
| "fact_step (FRecovered mid rcp n) m = (case m mid of
      None \<Rightarrow> None
    | Some l \<Rightarrow> if l_status l = MLeased \<and> l_recipient l = rcp \<and> n = l_attempts l
        then Some (m(mid \<mapsto> l\<lparr>l_status := MPending\<rparr>)) else None)"

fun replay :: "mail_fact list \<Rightarrow> letters \<Rightarrow> letters option" where
  "replay [] m = Some m"
| "replay (f # fs) m = (case fact_step f m of None \<Rightarrow> None | Some m' \<Rightarrow> replay fs m')"

lemma replay_append:
  "replay (fs @ gs) m = (case replay fs m of None \<Rightarrow> None | Some m' \<Rightarrow> replay gs m')"
  by (induction fs arbitrary: m) (auto split: option.splits)

lemma replay_snoc: "replay fs m = Some m' \<Longrightarrow> replay (fs @ [f]) m = fact_step f m'"
  by (simp add: replay_append split: option.splits)

text \<open>How each kind of fact is written to the outbox.\<close>

fun fact_identity :: "mail_fact \<Rightarrow> string" where
  "fact_identity (FHandoff mid s r p) = ''handoff:'' @ mid"
| "fact_identity (FClaimed mid r n) = ''claim:'' @ mid @ '':'' @ str_int (int n)"
| "fact_identity (FAcked mid) = ''ack:'' @ mid"
| "fact_identity (FReleased mid n) = ''released:'' @ mid @ '':'' @ str_int (int n)"
| "fact_identity (FRecovered mid r n) = ''recovered:'' @ mid @ '':'' @ str_int (int n)"

fun fact_tag :: "mail_fact \<Rightarrow> string" where
  "fact_tag (FHandoff mid s r p) = TAG_AGENT_HANDOFF"
| "fact_tag (FClaimed mid r n) = TAG_AGENT_MAIL_CLAIM"
| "fact_tag (FAcked mid) = TAG_AGENT_MAIL_ACK"
| "fact_tag (FReleased mid n) = TAG_AGENT_MAIL_RELEASED"
| "fact_tag (FRecovered mid r n) = TAG_AGENT_MAIL_RECOVERED"

fun fact_fields :: "mail_fact \<Rightarrow> fieldmap" where
  "fact_fields (FHandoff mid s r p) = [(''message_id'', VStr mid), (''sender'', VStr s),
     (''recipient'', VStr r), (''payload'', p)]"
| "fact_fields (FClaimed mid r n) = attempt_fields mid r n"
| "fact_fields (FAcked mid) = [(''message_id'', VStr mid)]"
| "fact_fields (FReleased mid n) = [(''message_id'', VStr mid), (''attempt'', VInt (int n))]"
| "fact_fields (FRecovered mid r n) = attempt_fields mid r n"

definition recorded :: "(string \<Rightarrow> string) \<Rightarrow> mail_fact \<Rightarrow> audit_event \<Rightarrow> bool" where
  "recorded d f e \<longleftrightarrow> ev_id e = ''mailbox_audit_'' @ d (''mailbox'' @ [NUL] @ fact_identity f)
     \<and> ev_tag e = fact_tag f \<and> strict_json_copy (vobj (fact_fields f)) = Inr (ev_fields e)"

section \<open>A legal history names every fact once\<close>

lemma split_first:
  "u @ c # a = v @ c # b \<Longrightarrow> c \<notin> set u \<Longrightarrow> c \<notin> set v \<Longrightarrow> u = v \<and> a = b"
proof (induction u arbitrary: v)
  case Nil
  then show ?case by (cases v) auto
next
  case (Cons x u)
  then show ?case by (cases v) auto
qed

lemma colon_number:
  "a @ CHR '':'' # str_int (int m) = b @ CHR '':'' # str_int (int n) \<Longrightarrow> a = b \<and> m = n"
proof -
  assume "a @ CHR '':'' # str_int (int m) = b @ CHR '':'' # str_int (int n)"
  then have *: "rev (str_int (int m)) @ CHR '':'' # rev a = rev (str_int (int n)) @ CHR '':'' # rev b"
    by (metis append.assoc append_Cons append_Nil rev.simps(2) rev_append)
  have no: "CHR '':'' \<notin> set (rev (str_int (int k)))" for k
    by (simp add: str_int_def digits_no_colon)
  have "rev (str_int (int m)) = rev (str_int (int n)) \<and> rev a = rev b"
    by (rule split_first [OF * no no])
  then show ?thesis by (auto simp: str_int_def dest: digits_inj)
qed

lemma colon_next:
  "a @ CHR '':'' # str_int (1 + int m) = b @ CHR '':'' # str_int (int n) \<Longrightarrow> a = b \<and> Suc m = n"
  using colon_number [of a "Suc m" b n] by simp

text \<open>What a history implies about the letters it mentions.\<close>

fun fact_past :: "letters \<Rightarrow> mail_fact \<Rightarrow> bool" where
  "fact_past m (FHandoff mid s r p) = (m mid \<noteq> None)"
| "fact_past m (FClaimed mid r n) = (\<exists>l. m mid = Some l \<and> n \<le> l_attempts l)"
| "fact_past m (FAcked mid) = (\<exists>l. m mid = Some l \<and> l_status l = MAcked)"
| "fact_past m (FReleased mid n) = (\<exists>l. m mid = Some l
     \<and> (n < l_attempts l \<or> n = l_attempts l \<and> l_status l = MPending))"
| "fact_past m (FRecovered mid r n) = (\<exists>l. m mid = Some l
     \<and> (n < l_attempts l \<or> n = l_attempts l \<and> l_status l = MPending))"

lemma fact_past_step: "fact_step f m = Some m' \<Longrightarrow> fact_past m g \<Longrightarrow> fact_past m' g"
  by (cases f; cases g) (auto split: option.splits if_splits)

lemma fact_past_new: "fact_step f m = Some m' \<Longrightarrow> fact_past m' f"
  by (cases f) (auto split: option.splits if_splits)

lemma replay_past: "replay fs m0 = Some m \<Longrightarrow> f \<in> set fs \<Longrightarrow> fact_past m f"
proof (induction fs arbitrary: m rule: rev_induct)
  case Nil
  then show ?case by simp
next
  case (snoc g fs)
  then obtain m1 where m1: "replay fs m0 = Some m1" "fact_step g m1 = Some m"
    by (auto simp: replay_append split: option.splits)
  from snoc.prems(2) show ?case
    using fact_past_new [OF m1(2)] fact_past_step [OF m1(2) snoc.IH [OF m1(1)]] by auto
qed

lemma fact_step_fresh:
  assumes "fact_step f m \<noteq> None" and "fact_past m g"
  shows "fact_identity f \<noteq> fact_identity g"
  using assms by (cases f; cases g) (auto split: option.splits if_splits dest!: colon_number colon_next)

lemma replay_fresh:
  assumes "replay fs m0 = Some m" and "fact_step f m \<noteq> None"
  shows "fact_identity f \<notin> fact_identity ` set fs"
  using replay_past [OF assms(1)] fact_step_fresh [OF assms(2)] by fastforce

section \<open>The outbox contract\<close>

type_synonym mail_item = "mail_env \<times> string \<times> string \<times> fieldmap"

definition mail_item_id :: "mail_item \<Rightarrow> string" where
  "mail_item_id = (\<lambda>(env, i, tg, fs). mail_audit_id env i)"

definition record_mail_item :: "mail_item \<Rightarrow> mail_db \<Rightarrow> exn + mail_db" where
  "record_mail_item = (\<lambda>(env, i, tg, fs) db. record_mail_event env i tg fs db)"

interpretation mail_outbox: audit_outbox b_audit mail_item_id record_mail_item
  by unfold_locales
    (auto simp: record_mail_item_def mail_item_id_def record_mail_event_def split: if_splits)

section \<open>The refinement\<close>

definition letter_of :: "mail \<Rightarrow> letter" where
  "letter_of r = \<lparr>l_sender = m_sender r, l_recipient = m_recipient r, l_payload = m_payload r,
     l_status = m_status r, l_attempts = m_attempts r\<rparr>"

definition letters :: "mail list \<Rightarrow> letters" where
  "letters t = (\<lambda>mid. map_option letter_of (sql_first (\<lambda>r. m_id r = mid) t))"

definition history :: "(string \<Rightarrow> string) \<Rightarrow> mail_db \<Rightarrow> bool" where
  "history d db \<longleftrightarrow> (\<exists>fs. list_all2 (recorded d) fs (b_audit db)
     \<and> replay fs Map.empty = Some (letters (b_mail db)))"

lemma history_empty: "history d empty_mail_db"
  by (simp add: history_def letters_def empty_mail_db_def)

text \<open>
  One transaction: the table moves as a fact does, the fact is offered to the outbox, and
  the history grows by it. A digest without collisions makes the offer an append.
\<close>

lemma history_step:
  assumes d: "inj d" "me_digest env = d" and h: "history d db"
    and mail: "b_audit db1 = b_audit db"
    and rec: "record_mail_event env (fact_identity f) (fact_tag f) (fact_fields f) db1 = Inr db'"
    and step: "fact_step f (letters (b_mail db)) = Some (letters (b_mail db1))"
  shows "history d db'"
proof -
  obtain fs where fs: "list_all2 (recorded d) fs (b_audit db)"
    "replay fs Map.empty = Some (letters (b_mail db))" using h by (auto simp: history_def)
  have "mail_audit_id env (fact_identity f) \<notin> ev_id ` set (b_audit db)"
  proof
    assume "mail_audit_id env (fact_identity f) \<in> ev_id ` set (b_audit db)"
    then obtain e where e: "e \<in> set (b_audit db)" "ev_id e = mail_audit_id env (fact_identity f)" by auto
    with fs(1) obtain g where g: "g \<in> set fs" "recorded d g e" by (metis list_all2_nthD2 in_set_conv_nth list_all2_lengthD)
    then have "fact_identity f = fact_identity g"
      using e(2) d by (auto simp: recorded_def mail_audit_id_def dest: injD)
    moreover have "fact_identity f \<notin> fact_identity ` set fs"
      by (rule replay_fresh [OF fs(2)]) (simp add: step)
    ultimately show False using g(1) by auto
  qed
  with rec mail obtain tx where tx: "strict_json_copy (vobj (fact_fields f)) = Inr tx"
      "b_audit db' = b_audit db @ [\<lparr>ev_id = mail_audit_id env (fact_identity f), ev_tag = fact_tag f,
         ev_fields = tx, ev_at = me_stamp env (length (b_audit db1))\<rparr>]"
      "b_mail db' = b_mail db1"
    by (auto simp: record_mail_event_def)
  have "list_all2 (recorded d) (fs @ [f]) (b_audit db')"
    using fs(1) tx(1,2) d(2) by (auto simp: recorded_def mail_audit_id_def intro!: list_all2_appendI)
  moreover have "replay (fs @ [f]) Map.empty = Some (letters (b_mail db'))"
    using fs(2) step tx(3) by (simp add: replay_snoc)
  ultimately show ?thesis unfolding history_def by blast
qed

end
