(* ===== verification/MailboxInv.thy ===== *)
theory MailboxInv
  imports MailboxLog
begin

text \<open>
  The mailbox (\<open>lipas/orchestration.py\<close>) as a transition system: five moves, each a change
  of one row with its audit event. Every public call is a sequence of moves, so a property
  is an invariant of all sessions once every move keeps it (locale \<open>mail_invariant\<close>).
\<close>

section \<open>Well-formed tables\<close>

definition mail_hex :: "mail_env \<Rightarrow> bool" where
  "mail_hex env \<longleftrightarrow> (\<forall>i. me_uuid env i \<noteq> [] \<and> set (me_uuid env i) \<subseteq> set ''0123456789abcdef'')"

definition payload_ok :: "pyval \<Rightarrow> bool" where
  "payload_ok p \<longleftrightarrow> (case p of VDict d \<Rightarrow> True | _ \<Rightarrow> False) \<and> strict_json_loads p = Inr p"

lemma strict_copy_payload: "strict_json_copy (VDict d) = Inr p \<Longrightarrow> payload_ok p"
  using canon_idem(1) [of "VDict d" p]
  by (auto simp: strict_json_copy_def strict_json_loads_def payload_ok_def vobj_def split: sum.splits)

definition mail_ok :: "mail \<Rightarrow> bool" where
  "mail_ok r \<longleftrightarrow> m_id r \<noteq> [] \<and> strip (m_id r) = m_id r \<and> payload_ok (m_payload r)
     \<and> (m_status r = MLeased \<longleftrightarrow> m_token r \<noteq> None) \<and> (m_token r = None \<longleftrightarrow> m_expires r = None)
     \<and> (\<forall>k. m_token r = Some k \<longrightarrow> k \<noteq> [] \<and> strip k = k)
     \<and> (m_status r = MAcked \<longleftrightarrow> m_acked r \<noteq> None)
     \<and> (m_status r \<noteq> MPending \<longrightarrow> 0 < m_attempts r)"

definition mail_wf :: "mail_db \<Rightarrow> bool" where
  "mail_wf db \<longleftrightarrow> distinct (map m_id (b_mail db)) \<and> (\<forall>r \<in> set (b_mail db). mail_ok r)"

lemma mail_wf_empty: "mail_wf empty_mail_db"
  by (simp add: mail_wf_def empty_mail_db_def)

lemma wf_unique:
  "mail_wf db \<Longrightarrow> r \<in> set (b_mail db) \<Longrightarrow> q \<in> set (b_mail db) \<Longrightarrow> m_id r = m_id q \<Longrightarrow> r = q"
  unfolding mail_wf_def by (blast intro: distinct_key_unique [where key = m_id])

lemma wf_find: "mail_wf db \<Longrightarrow> sql_first (\<lambda>r. m_id r = mid) (b_mail db) = Some r
    \<longleftrightarrow> r \<in> set (b_mail db) \<and> m_id r = mid"
  unfolding mail_wf_def by (simp add: sql_first_key)

lemma strip_hex:
  "mail_hex env \<Longrightarrow> strip (me_uuid env i) = me_uuid env i"
proof (rule strip_no_space)
  have hex: "\<forall>c \<in> set ''0123456789abcdef''. \<not> is_space c" by (simp add: is_space_def)
  show "mail_hex env \<Longrightarrow> c \<in> set (me_uuid env i) \<Longrightarrow> \<not> is_space c" for c
    using hex unfolding mail_hex_def by blast
qed

lemma strip_msg_id: "mail_hex env \<Longrightarrow> strip (''msg_'' @ me_uuid env i) = ''msg_'' @ me_uuid env i"
proof (rule strip_no_space)
  have hex: "\<forall>c \<in> set ''0123456789abcdef''. \<not> is_space c" by (simp add: is_space_def)
  have msg: "\<forall>c \<in> set ''msg_''. \<not> is_space c" by (simp add: is_space_def)
  show "mail_hex env \<Longrightarrow> c \<in> set (''msg_'' @ me_uuid env i) \<Longrightarrow> \<not> is_space c" for c
    using hex msg unfolding mail_hex_def set_append by blast
qed

section \<open>Moves\<close>

definition leased_row :: "string \<Rightarrow> xfloat \<Rightarrow> mail \<Rightarrow> mail" where
  "leased_row k x r = r\<lparr>m_status := MLeased, m_attempts := m_attempts r + 1, m_token := Some k,
     m_expires := Some x\<rparr>"

definition acked_row :: "rat \<Rightarrow> mail \<Rightarrow> mail" where
  "acked_row t r = r\<lparr>m_status := MAcked, m_token := None, m_expires := None, m_acked := Some t\<rparr>"

inductive mail_move :: "(string \<Rightarrow> string) \<Rightarrow> mail_db \<Rightarrow> mail_db \<Rightarrow> bool" for d where
  move_send: "me_digest env = d \<Longrightarrow> mid \<noteq> [] \<Longrightarrow> strip mid = mid \<Longrightarrow> payload_ok pl \<Longrightarrow> mid \<notin> m_id ` set (b_mail db) \<Longrightarrow>
    record_handoff env mid sn rcp pl (db\<lparr>b_mail := b_mail db @ [new_mail mid sn rcp pl t]\<rparr>) = Inr db' \<Longrightarrow>
    mail_move d db db'"
| move_claim: "me_digest env = d \<Longrightarrow> r \<in> set (b_mail db) \<Longrightarrow> m_status r = MPending \<Longrightarrow>
    k \<noteq> [] \<Longrightarrow> strip k = k \<Longrightarrow>
    record_mail_claim env (m_id r) (m_recipient r) (m_attempts r + 1)
      (upd_mail (m_id r) (\<lambda>r. m_status r = MPending) (leased_row k x) db) = Inr db' \<Longrightarrow>
    mail_move d db db'"
| move_ack: "me_digest env = d \<Longrightarrow> r \<in> set (b_mail db) \<Longrightarrow> owns_mail k t r \<Longrightarrow>
    record_ack env (m_id r) (upd_mail (m_id r) (owns_mail k t) (acked_row t) db) = Inr db' \<Longrightarrow>
    mail_move d db db'"
| move_release: "me_digest env = d \<Longrightarrow> r \<in> set (b_mail db) \<Longrightarrow> owns_mail k t r \<Longrightarrow>
    record_released env (m_id r) (m_attempts r) (upd_mail (m_id r) (owns_mail k t) to_pending db) = Inr db' \<Longrightarrow>
    mail_move d db db'"
| move_recover: "me_digest env = d \<Longrightarrow> r \<in> set (b_mail db) \<Longrightarrow> lease_over t r \<Longrightarrow>
    record_recovered env (m_id r) (m_recipient r) (m_attempts r)
      (upd_mail (m_id r) (lease_over t) to_pending db) = Inr db' \<Longrightarrow>
    mail_move d db db'"

lemma record_mail_frame:
  "record_mail_event env i tg fs db = Inr db' \<Longrightarrow> b_mail db' = b_mail db \<and> b_schema db' = b_schema db
    \<and> b_seeded db' = b_seeded db"
  by (auto simp: record_mail_event_def split: if_splits)

lemma mail_recorders_frame:
  "record_handoff env a b c p db = Inr db' \<Longrightarrow> b_mail db' = b_mail db"
  "record_mail_claim env a b n db = Inr db' \<Longrightarrow> b_mail db' = b_mail db"
  "record_ack env a db = Inr db' \<Longrightarrow> b_mail db' = b_mail db"
  "record_released env a n db = Inr db' \<Longrightarrow> b_mail db' = b_mail db"
  "record_recovered env a b n db = Inr db' \<Longrightarrow> b_mail db' = b_mail db"
  by (auto simp: record_handoff_def record_mail_claim_def record_ack_def record_released_def
      record_recovered_def dest!: record_mail_frame)

lemmas mail_recorders = record_handoff_def record_mail_claim_def record_ack_def record_released_def
  record_recovered_def

lemma upd_mail_simps [simp]:
  "b_mail (upd_mail mid p f db) = sql_update (\<lambda>r. m_id r = mid \<and> p r) f (b_mail db)"
  "b_audit (upd_mail mid p f db) = b_audit db"
  by (simp_all add: upd_mail_def)

lemma row_changes [simp]:
  "m_id (leased_row k x r) = m_id r" "m_id (acked_row t r) = m_id r" "m_id (to_pending r) = m_id r"
  "m_recipient (leased_row k x r) = m_recipient r" "m_recipient (acked_row t r) = m_recipient r"
  "m_recipient (to_pending r) = m_recipient r"
  "m_status (to_pending r) = MPending" "m_status (leased_row k x r) = MLeased" "m_status (acked_row t r) = MAcked"
  by (simp_all add: leased_row_def acked_row_def to_pending_def)

lemma row_ok:
  "mail_ok r \<Longrightarrow> m_status r = MPending \<Longrightarrow> k \<noteq> [] \<Longrightarrow> strip k = k \<Longrightarrow> mail_ok (leased_row k x r)"
  "mail_ok r \<Longrightarrow> m_status r = MLeased \<Longrightarrow> mail_ok (acked_row t r)"
  "mail_ok r \<Longrightarrow> m_status r = MLeased \<Longrightarrow> mail_ok (to_pending r)"
  by (auto simp: mail_ok_def leased_row_def acked_row_def to_pending_def)

lemma lease_leased: "owns_mail k t r \<Longrightarrow> m_status r = MLeased" "lease_over t r \<Longrightarrow> m_status r = MLeased"
  by (simp_all add: owns_mail_def lease_over_def)

text \<open>A move that updates a row by its id keeps the table well-formed.\<close>

lemma wf_update:
  assumes "mail_wf db" and "\<And>r. m_id (f r) = m_id r"
    and "\<And>r. r \<in> set (b_mail db) \<Longrightarrow> mail_ok r \<Longrightarrow> p r \<Longrightarrow> mail_ok (f r)"
  shows "mail_wf (upd_mail mid p f db)"
  using assms by (auto simp: mail_wf_def map_key_sql_update in_sql_update)

lemma wf_same_mail: "mail_wf db \<Longrightarrow> b_mail db' = b_mail db \<Longrightarrow> mail_wf db'"
  by (simp add: mail_wf_def)

lemma wf_move: "mail_move d db db' \<Longrightarrow> mail_wf db \<Longrightarrow> mail_wf db'"
proof (induction rule: mail_move.induct)
  case (move_send env mid pl db sn rcp t db')
  then have "b_mail db' = b_mail db @ [new_mail mid sn rcp pl t]"
    by (auto dest!: mail_recorders_frame)
  moreover have "mail_ok (new_mail mid sn rcp pl t)" "m_id (new_mail mid sn rcp pl t) = mid"
    using move_send by (simp_all add: mail_ok_def new_mail_def)
  ultimately show ?case using move_send by (auto simp: mail_wf_def)
next
  case (move_claim env r db k x db')
  show ?case
    by (rule wf_same_mail [OF wf_update mail_recorders_frame(2) [OF move_claim(6)]])
      (simp_all add: move_claim row_ok)
next
  case (move_ack env r db k t db')
  show ?case
    by (rule wf_same_mail [OF wf_update mail_recorders_frame(3) [OF move_ack(4)]])
      (simp_all add: move_ack row_ok lease_leased)
next
  case (move_release env r db k t db')
  show ?case
    by (rule wf_same_mail [OF wf_update mail_recorders_frame(4) [OF move_release(4)]])
      (simp_all add: move_release row_ok lease_leased)
next
  case (move_recover env r db t db')
  show ?case
    by (rule wf_same_mail [OF wf_update mail_recorders_frame(5) [OF move_recover(4)]])
      (simp_all add: move_recover row_ok lease_leased)
qed

text \<open>With distinct ids, updating by id replaces one letter.\<close>

lemma letters_update:
  assumes wf: "mail_wf db" and r: "r \<in> set (b_mail db)" "p r" and id: "\<And>r. m_id (f r) = m_id r"
  shows "letters (b_mail (upd_mail (m_id r) p f db)) = (letters (b_mail db))(m_id r \<mapsto> letter_of (f r))"
proof
  fix mid
  have upd: "sql_first (\<lambda>q. m_id q = mid) (sql_update (\<lambda>q. m_id q = m_id r \<and> p q) f (b_mail db))
      = map_option (\<lambda>q. if m_id q = m_id r \<and> p q then f q else q) (sql_first (\<lambda>q. m_id q = mid) (b_mail db))"
    using id by (rule sql_first_key_update)
  show "letters (b_mail (upd_mail (m_id r) p f db)) mid = ((letters (b_mail db))(m_id r \<mapsto> letter_of (f r))) mid"
  proof (cases "mid = m_id r")
    case True
    then have "sql_first (\<lambda>q. m_id q = mid) (b_mail db) = Some r" using wf_find [OF wf] r by blast
    with True upd r(2) show ?thesis by (simp add: letters_def)
  next
    case False
    with upd show ?thesis
      by (cases "sql_first (\<lambda>q. m_id q = mid) (b_mail db)") (auto simp: letters_def dest: sql_first_Some)
  qed
qed

lemma letters_row:
  "mail_wf db \<Longrightarrow> r \<in> set (b_mail db) \<Longrightarrow> letters (b_mail db) (m_id r) = Some (letter_of r)"
  using wf_find [of db "m_id r" r] by (simp add: letters_def)

lemma letters_new:
  "mid \<notin> m_id ` set t \<Longrightarrow> letters (t @ [new_mail mid sn rcp pl c]) = (letters t)(mid \<mapsto> letter_of (new_mail mid sn rcp pl c))"
  by (auto simp: letters_def sql_first_append fun_eq_iff new_mail_def sql_first_None split: option.splits
      dest!: sql_first_Some)

section \<open>Invariants of moves are invariants of sessions\<close>

abbreviation mail_moves :: "(string \<Rightarrow> string) \<Rightarrow> mail_db \<Rightarrow> mail_db \<Rightarrow> bool" where
  "mail_moves d \<equiv> (mail_move d)\<^sup>*\<^sup>*"

lemma wf_moves: "mail_moves d db db' \<Longrightarrow> mail_wf db \<Longrightarrow> mail_wf db'"
  by (induction rule: rtranclp_induct) (auto dest: wf_move)

end
