(* ===== verification/MailboxSession.thy ===== *)
theory MailboxSession
  imports MailboxInv
begin

text \<open>
  Every call of the mailbox (\<open>lipas/orchestration.py\<close>) is a sequence of moves, whether it
  returns or raises; the locale \<open>mail_invariant\<close> turns an invariant of moves into one of
  sessions, and is interpreted on the history of the outbox and on settled messages.
\<close>

section \<open>Transactions as moves\<close>

lemma send_moves:
  assumes "me_digest env = d" and "mid \<noteq> []" and "strip mid = mid" and "payload_ok pl"
    and "send_tx env mid sn rcp pl db = Inr (u, db')"
  shows "mail_moves d db db'"
  using assms by (auto simp: send_tx_def split: if_splits intro!: r_into_rtranclp move_send)

lemma count_mail_pos: "0 < count_mail mid p db \<longleftrightarrow> (\<exists>r \<in> set (b_mail db). m_id r = mid \<and> p r)"
  unfolding count_mail_def by (simp add: sql_count_pos)

lemma leased_row_eta: "(\<lambda>r. r\<lparr>m_status := MLeased, m_attempts := Suc (m_attempts r),
    m_token := Some k, m_expires := Some x\<rparr>) = leased_row k x"
  by (rule ext) (simp add: leased_row_def)

lemma acked_row_eta: "(\<lambda>r. r\<lparr>m_status := MAcked, m_token := None, m_expires := None,
    m_acked := Some t\<rparr>) = acked_row t"
  by (rule ext) (simp add: acked_row_def)

lemma get_after_update:
  assumes wf: "mail_wf db" and r: "r \<in> set (b_mail db)" "p r" and id: "\<And>r. m_id (f r) = m_id r"
    and g: "get_message (m_id r) (upd_mail (m_id r) p f db) = Inr res"
  shows "\<exists>m. res = Some m \<and> message_of_row (f r) = Inr m"
proof -
  have s: "strip (m_id r) = m_id r" "m_id r \<noteq> []" using wf r by (auto simp: mail_wf_def mail_ok_def)
  have "sql_first (\<lambda>q. m_id q = m_id r) (b_mail db) = Some r" using wf_find [OF wf] r by blast
  then have "sql_first (\<lambda>q. m_id q = m_id r) (b_mail (upd_mail (m_id r) p f db)) = Some (f r)"
    using sql_first_key_update [where key = m_id and f = f, OF id] r(2) by simp
  with g s show ?thesis by (auto simp: get_message_def non_empty_text_def)
qed

lemma message_of_row_fields:
  "message_of_row r = Inr m \<Longrightarrow> mm_attempts m = m_attempts r \<and> mm_id m = m_id r
    \<and> mm_token m = m_token r \<and> mm_recipient m = m_recipient r \<and> mm_sender m = m_sender r
    \<and> mm_status m = m_status r"
proof -
  assume "message_of_row r = Inr m"
  then obtain v where "strict_json_loads (m_payload r) = Inr v" and "(case v of
      VDict d \<Rightarrow> Inr \<lparr>mm_id = m_id r, mm_sender = m_sender r, mm_recipient = m_recipient r,
         mm_payload = d, mm_status = m_status r, mm_attempts = m_attempts r, mm_token = m_token r\<rparr>
    | _ \<Rightarrow> Inl ValueError) = Inr m" by (auto simp: message_of_row_def)
  then show ?thesis by (cases v) auto
qed

lemma claim_tx_cases:
  assumes wf: "mail_wf db" and tx: "claim_mail_tx env i l rcp mid db = Inr (res, db')"
  shows "(res = None \<and> db' = db \<and> (\<forall>r \<in> set (b_mail db). m_id r = mid \<longrightarrow> m_status r \<noteq> MPending))
    \<or> (\<exists>r m db1. r \<in> set (b_mail db) \<and> m_id r = mid \<and> m_status r = MPending
        \<and> db1 = upd_mail mid (\<lambda>r. m_status r = MPending)
            (leased_row (me_uuid env i) (f_add (me_now env (Suc i)) l)) db
        \<and> res = Some m \<and> message_of_row (leased_row (me_uuid env i) (f_add (me_now env (Suc i)) l) r) = Inr m
        \<and> record_mail_claim env mid rcp (m_attempts r + 1) db1 = Inr db')"
proof (cases "count_mail mid (\<lambda>r. m_status r = MPending) db = 0")
  case True
  then show ?thesis using tx count_mail_pos [of mid "\<lambda>r. m_status r = MPending" db]
    by (auto simp: claim_mail_tx_def)
next
  case False
  then obtain r where r: "r \<in> set (b_mail db)" "m_id r = mid" "m_status r = MPending"
    by (auto simp: count_mail_pos)
  let ?f = "leased_row (me_uuid env i) (f_add (me_now env (Suc i)) l)"
  let ?db1 = "upd_mail mid (\<lambda>r. m_status r = MPending) ?f db"
  from tx False obtain x where x: "get_message mid ?db1 = Inr x"
      "(case x of None \<Rightarrow> Inl AssertionError | Some m \<Rightarrow>
         ebind (record_mail_claim env mid rcp (mm_attempts m) ?db1) (\<lambda>db2. Inr (Some m, db2))) = Inr (res, db')"
    by (auto simp: claim_mail_tx_def Let_def leased_row_eta)
  obtain m where m: "x = Some m" "message_of_row (?f r) = Inr m"
    using get_after_update [OF wf r(1), where p = "\<lambda>r. m_status r = MPending" and f = ?f] r x(1) by auto
  have "mm_attempts m = m_attempts r + 1" using message_of_row_fields [OF m(2)] by (simp add: leased_row_def)
  with x(2) m r show ?thesis by (auto intro!: disjI2 bexI [of _ r] exI [of _ r])
qed

definition routed :: "string list \<Rightarrow> string \<Rightarrow> mail_db \<Rightarrow> bool" where
  "routed mids rcp db \<longleftrightarrow> (\<forall>r \<in> set (b_mail db). m_id r \<in> set mids \<longrightarrow> m_recipient r = rcp)"

lemma claim_moves:
  assumes wf: "mail_wf db" and d: "me_digest env = d" and hex: "mail_hex env"
    and rt: "routed (mid # mids) rcp db" and tx: "claim_mail_tx env i l rcp mid db = Inr (res, db')"
  shows "mail_moves d db db' \<and> routed mids rcp db'"
  using claim_tx_cases [OF wf tx]
proof
  assume "\<exists>r m db1. r \<in> set (b_mail db) \<and> m_id r = mid \<and> m_status r = MPending
        \<and> db1 = upd_mail mid (\<lambda>r. m_status r = MPending)
            (leased_row (me_uuid env i) (f_add (me_now env (Suc i)) l)) db
        \<and> res = Some m \<and> message_of_row (leased_row (me_uuid env i) (f_add (me_now env (Suc i)) l) r) = Inr m
        \<and> record_mail_claim env mid rcp (m_attempts r + 1) db1 = Inr db'"
  then obtain r where r: "r \<in> set (b_mail db)" "m_id r = mid" "m_status r = MPending"
    and rec: "record_mail_claim env mid rcp (m_attempts r + 1) (upd_mail mid (\<lambda>r. m_status r = MPending)
        (leased_row (me_uuid env i) (f_add (me_now env (Suc i)) l)) db) = Inr db'" by blast
  have rcp: "m_recipient r = rcp" using rt r by (simp add: routed_def)
  have k: "me_uuid env i \<noteq> []" "strip (me_uuid env i) = me_uuid env i"
    using hex strip_hex [OF hex] by (simp_all add: mail_hex_def)
  have "mail_move d db db'"
    using move_claim [OF d r(1,3) k] rec r(2) rcp by blast
  moreover have "routed mids rcp db'"
    using rt mail_recorders_frame(2) [OF rec] by (auto simp: routed_def in_sql_update)
  ultimately show ?thesis by blast
qed (use rt in \<open>simp add: routed_def\<close>)

lemma ack_moves:
  assumes "me_digest env = d" and "ack_tx env mid k db = Inr (u, db')"
  shows "mail_moves d db db'"
  using assms by (auto simp: ack_tx_def Let_def acked_row_eta count_mail_pos split: if_splits
      intro!: r_into_rtranclp intro: move_ack)

lemma release_moves:
  assumes "me_digest env = d" and "release_tx env mid k db = Inr (u, db')"
  shows "mail_moves d db db'"
  using assms by (auto simp: release_tx_def Let_def split: option.splits dest!: sql_first_Some
      intro!: r_into_rtranclp intro: move_release)

text \<open>While leases are recovered the rows not yet handled are the selected ones.\<close>

definition partly_recovered :: "mail list \<Rightarrow> mail_db \<Rightarrow> bool" where
  "partly_recovered t db \<longleftrightarrow> (\<forall>q \<in> set (b_mail db). q \<in> set t \<or> m_status q = MPending)"

lemma recover_step_moves:
  assumes wf: "distinct (map m_id t)" and d: "me_digest env = d" and r: "r \<in> set t"
    and part: "partly_recovered t db" and st: "recover_step env now (db, n) r = Inr (db', n')"
  shows "mail_moves d db db' \<and> partly_recovered t db'"
proof (cases "count_mail (m_id r) (lease_over now) db = 0")
  case True
  with st part show ?thesis by (simp add: recover_step_def)
next
  case False
  then obtain q where q: "q \<in> set (b_mail db)" "m_id q = m_id r" "lease_over now q"
    by (auto simp: count_mail_pos)
  then have "q \<in> set t" using part lease_leased(2) [OF q(3)] by (auto simp: partly_recovered_def)
  then have qr: "q = r" using distinct_key_unique [OF wf _ r] q(2) by blast
  from st False have rec: "record_recovered env (m_id r) (m_recipient r) (m_attempts r)
      (upd_mail (m_id r) (lease_over now) to_pending db) = Inr db'" by (auto simp: recover_step_def)
  have "mail_move d db db'" using move_recover [OF d] q rec unfolding qr by blast
  moreover have "partly_recovered t db'"
    using part unfolding partly_recovered_def mail_recorders_frame(5) [OF rec] upd_mail_simps
    by (force simp: in_sql_update split: if_splits)
  ultimately show ?thesis by blast
qed

lemma recover_moves:
  assumes wf: "mail_wf db" and d: "me_digest env = d" and tx: "recover_tx env now db = Inr (n, db')"
  shows "mail_moves d db db'"
proof -
  let ?rows = "sql_order (\<lambda>a b. m_id a \<le> m_id b) (filter (lease_over now) (b_mail db))"
  let ?P = "\<lambda>st. mail_moves d db (fst st) \<and> partly_recovered (b_mail db) (fst st)"
  have walk: "?P st'" if "efoldl (recover_step env now) st rows = Inr st'" "?P st" "set rows \<subseteq> set (b_mail db)"
    for st st' rows
    using that
  proof (induction rows arbitrary: st)
    case Nil
    then show ?case by simp
  next
    case (Cons r rows)
    obtain db1 n1 where st: "st = (db1, n1)" by (cases st)
    from Cons.prems(1) obtain st1 where st1: "recover_step env now st r = Inr st1"
      "efoldl (recover_step env now) st1 rows = Inr st'" by auto
    obtain db2 n2 where eq: "st1 = (db2, n2)" by (cases st1)
    have "mail_moves d db1 db2 \<and> partly_recovered (b_mail db) db2"
      using wf Cons.prems(2,3) st1(1) unfolding st eq
      by (intro recover_step_moves [OF _ d]) (auto simp: mail_wf_def)
    then have "?P st1" using Cons.prems(2) by (auto simp: st eq)
    then show ?case using Cons.IH [OF st1(2)] Cons.prems(3) by simp
  qed
  from tx obtain m where "efoldl (recover_step env now) (db, 0) ?rows = Inr (db', m)"
    by (auto simp: recover_tx_def)
  from walk [OF this] show ?thesis by (auto simp: partly_recovered_def)
qed

section \<open>Calls as moves\<close>

definition reached :: "(string \<Rightarrow> string) \<Rightarrow> mail_db \<Rightarrow> mailbox \<Rightarrow> bool" where
  "reached d db0 s \<longleftrightarrow> mail_wf (mb_db s) \<and> mail_moves d db0 (mb_db s)"

lemma reached_moves: "reached d db0 s \<Longrightarrow> mail_moves d (mb_db s) (mb_db s') \<Longrightarrow> reached d db0 s'"
  by (auto simp: reached_def dest: wf_moves)

lemma keeps_mail_transact [keeps_intros]:
  assumes "\<And>db x db'. mail_wf db \<Longrightarrow> tx db = Inr (x, db') \<Longrightarrow> mail_moves d db db'"
  shows "keeps (reached d db0) (mail_transact tx)"
proof -
  have "reached d db0 (snd (mail_transact tx s))" if "reached d db0 s" for s
    using that assms reached_moves [OF that]
    by (auto simp: mail_transact_def reached_def split: sum.splits prod.splits)
  then show ?thesis by (simp add: keeps_def)
qed

lemma keeps_mail_open [keeps_intros]: "keeps P mail_open"
  by (simp add: keeps_def mail_open_def)

lemma keeps_mail_read [keeps_intros]: "keeps P (\<lambda>s. (f s, s))"
  by (simp add: keeps_def)

lemma keeps_mail_get [keeps_intros]: "keeps P (mail_get mid)"
  unfolding mail_get_def by (intro keeps_intros)

lemma mail_repair_db: "mb_db (snd (mail_repair_audit env p n s)) = mb_db s"
  by (simp add: mail_repair_audit_def Let_def split: option.splits prod.splits sum.splits)

lemma keeps_mail_repair [keeps_intros]: "keeps (reached d db0) (mail_repair_audit env p n)"
  by (simp add: keeps_def reached_def mail_repair_db)

lemma keeps_mail_batch [keeps_intros]: "keeps (reached d db0) (mail_repair_batch env p)"
  unfolding mail_repair_batch_def by (rule keeps_mail_repair)

lemma keeps_send_new:
  assumes "me_digest env = d" and "mid \<noteq> []" and "strip mid = mid" and "payload_ok pl"
  shows "keeps (reached d db0) (send_new env mid sn rcp pl)"
proof -
  have tx: "keeps (reached d db0) (mail_transact (send_tx env mid sn rcp pl))"
    by (intro keeps_intros) (rule send_moves [OF assms])
  have ok: "keeps (reached d db0) (sbind (mail_repair_batch env 0) (\<lambda>_. mail_get mid))"
    by (intro keeps_intros)
  have again: "keeps (reached d db0) (sbind (mail_get mid) (\<lambda>res. case res of
              None \<Rightarrow> slift (Inl AssertionError)
            | Some m \<Rightarrow> if \<not> same_handoff m sn rcp pl then slift (Inl ValueError)
                else sbind (mail_repair_batch env 0) (\<lambda>_. sret (Some m))))"
    by (intro keeps_intros)
  have "reached d db0 (snd (send_new env mid sn rcp pl s))" if "reached d db0 s" for s
  proof -
    obtain res s1 where t: "mail_transact (send_tx env mid sn rcp pl) s = (res, s1)" by fastforce
    with tx that have "reached d db0 s1" by (fastforce simp: keeps_def)
    then show ?thesis using ok again t by (cases res) (auto simp: send_new_def keeps_def)
  qed
  then show ?thesis by (simp add: keeps_def)
qed

lemma keeps_send:
  assumes "me_digest env = d" and "mail_hex env"
  shows "keeps (reached d db0) (send env sn rcp pl m)"
proof -
  have mid: "mid \<noteq> [] \<and> strip mid = mid"
    if "(case m of None \<Rightarrow> Inr (''msg_'' @ me_uuid env 0) | Some m \<Rightarrow> non_empty_text m) = Inr mid" for mid
    using that strip_msg_id [OF assms(2)] by (auto simp: non_empty_text_def split: option.splits if_splits)
  show ?thesis
    unfolding send_def by (intro keeps_intros keeps_send_new [OF assms(1)]) (auto dest: mid strict_copy_payload)
qed

lemma keeps_recover:
  assumes "me_digest env = d"
  shows "keeps (reached d db0) (recover_expired env now)"
  unfolding recover_expired_def by (intro keeps_intros) (rule recover_moves [OF _ assms])

lemma claim_loop_reached:
  assumes d: "me_digest env = d" and hex: "mail_hex env"
  shows "reached d db0 s \<Longrightarrow> routed mids rcp (mb_db s) \<Longrightarrow>
    reached d db0 (snd (claim_loop env l rcp i mids s))"
proof (induction mids arbitrary: s i)
  case Nil
  then show ?case by simp
next
  case (Cons mid mids)
  show ?case
  proof (cases "claim_mail_tx env i l rcp mid (mb_db s)")
    case (Inl e)
    then show ?thesis using Cons.prems by (simp add: sbind_def mail_transact_def)
  next
    case (Inr b)
    obtain m db1 where b: "b = (m, db1)" by (cases b)
    have wf: "mail_wf (mb_db s)" using Cons.prems(1) by (simp add: reached_def)
    have mv: "mail_moves d (mb_db s) db1" "routed mids rcp db1"
      using claim_moves [OF wf d hex Cons.prems(2)] Inr b by simp_all
    let ?s1 = "s\<lparr>mb_db := db1\<rparr>"
    have "reached d db0 ?s1" by (rule reached_moves [OF Cons.prems(1)]) (simp add: mv)
    with Cons.IH [of ?s1 "Suc i"] mv(2)
    have r: "reached d db0 (snd (claim_loop env l rcp (Suc i) mids ?s1))" by simp
    obtain x s2 where "claim_loop env l rcp (Suc i) mids ?s1 = (x, s2)" by fastforce
    with r show ?thesis
      by (cases x) (simp_all add: sbind_def mail_transact_def Inr b sret_def)
  qed
qed

lemma select_routed:
  "mail_wf db \<Longrightarrow> select_mail rcp n mid db = Inr mids \<Longrightarrow> routed mids rcp db"
  unfolding routed_def select_mail_def
  by (auto split: option.splits if_splits dest!: in_set_takeD) (metis wf_unique)+

lemma keeps_claim:
  assumes d: "me_digest env = d" and hex: "mail_hex env"
  shows "keeps (reached d db0) (claim_mail env rcp n l m)"
proof -
  have loop: "keeps (reached d db0) (sbind (\<lambda>s. (select_mail rcp' n m' (mb_db s), s)) (\<lambda>mids.
     sbind (claim_loop env lease rcp' 0 mids) (\<lambda>claimed. sbind (mail_repair_batch env 1) (\<lambda>_. sret claimed))))"
    for rcp' m' lease
  proof -
    have fin: "keeps (reached d db0) (sbind (mail_repair_batch env 1) (\<lambda>_. sret c))" for c :: "message list"
      by (intro keeps_intros)
    have "reached d db0 (snd (sbind (claim_loop env lease rcp' 0 mids)
        (\<lambda>claimed. sbind (mail_repair_batch env 1) (\<lambda>_. sret claimed)) s))"
      if "reached d db0 s" "routed mids rcp' (mb_db s)" for mids s
    proof -
      obtain x s2 where c: "claim_loop env lease rcp' 0 mids s = (x, s2)" by fastforce
      have "reached d db0 s2" using claim_loop_reached [OF d hex that, of lease 0] c by simp
      then show ?thesis using fin c by (cases x) (auto simp: sbind_def [of "claim_loop env lease rcp' 0 mids"] keeps_def)
    qed
    then show ?thesis
      using select_routed by (auto simp: keeps_def sbind_def [of "\<lambda>s. (select_mail rcp' n m' (mb_db s), s)"]
          reached_def split: sum.splits)
  qed
  show ?thesis unfolding claim_mail_def
    by (intro keeps_intros keeps_recover [OF d] loop)
qed

lemma keeps_ack: "me_digest env = d \<Longrightarrow> keeps (reached d db0) (acknowledge env m k)"
  unfolding acknowledge_def by (intro keeps_intros) (rule ack_moves)

lemma keeps_release: "me_digest env = d \<Longrightarrow> keeps (reached d db0) (release env m k)"
  unfolding release_def by (intro keeps_intros) (rule release_moves)

lemma step_reached:
  assumes "me_digest env = d" and "mail_hex env" and "reached d db0 s"
  shows "reached d db0 (mail_step env c s)"
proof (cases c)
  case CloseMailbox
  then show ?thesis using assms(3) by (simp add: close_mailbox_def reached_def)
qed (simp_all add: keepsD [OF keeps_send [OF assms(1,2)] assms(3)] keepsD [OF keeps_recover [OF assms(1)] assms(3)]
    keepsD [OF keeps_claim [OF assms(1,2)] assms(3)] keepsD [OF keeps_ack [OF assms(1)] assms(3)]
    keepsD [OF keeps_release [OF assms(1)] assms(3)] keepsD [OF keeps_mail_repair assms(3)])

lemma session_reached:
  assumes "\<forall>(env, c) \<in> set calls. mail_hex env \<and> me_digest env = d" and "reached d db0 s"
  shows "reached d db0 (mail_session calls s)"
  using assms by (induction calls arbitrary: s) (auto simp: mail_session_def step_reached)

section \<open>Invariants\<close>

locale mail_invariant =
  fixes d :: "string \<Rightarrow> string" and Q :: "mail_db \<Rightarrow> bool"
  assumes move: "mail_wf db \<Longrightarrow> Q db \<Longrightarrow> mail_move d db db' \<Longrightarrow> Q db'"
begin

lemma moves: "mail_moves d db db' \<Longrightarrow> mail_wf db \<Longrightarrow> Q db \<Longrightarrow> Q db'"
  by (induction rule: rtranclp_induct) (blast intro: move wf_moves)+

lemma session:
  assumes "\<forall>(env, c) \<in> set calls. mail_hex env \<and> me_digest env = d"
    and "mail_wf (mb_db s)" and "Q (mb_db s)"
  shows "mail_wf (mb_db (mail_session calls s)) \<and> Q (mb_db (mail_session calls s))"
proof -
  have "reached d (mb_db s) (mail_session calls s)"
    by (rule session_reached [OF assms(1)]) (simp add: reached_def assms(2))
  then show ?thesis using moves assms(2,3) by (auto simp: reached_def)
qed

end

lemma letter_of_new: "letter_of (new_mail mid sn rcp pl t) = \<lparr>l_sender = sn, l_recipient = rcp,
    l_payload = pl, l_status = MPending, l_attempts = 0\<rparr>"
  by (simp add: letter_of_def new_mail_def)

lemma letter_of_rows:
  "letter_of (leased_row k x r) = (letter_of r)\<lparr>l_status := MLeased, l_attempts := Suc (m_attempts r)\<rparr>"
  "letter_of (acked_row t r) = (letter_of r)\<lparr>l_status := MAcked\<rparr>"
  "letter_of (to_pending r) = (letter_of r)\<lparr>l_status := MPending\<rparr>"
  "l_status (letter_of r) = m_status r" "l_recipient (letter_of r) = m_recipient r"
  "l_attempts (letter_of r) = m_attempts r"
  by (simp_all add: letter_of_def leased_row_def acked_row_def to_pending_def)

lemma history_move:
  assumes d: "inj d" and wf: "mail_wf db" and h: "history d db" and mv: "mail_move d db db'"
  shows "history d db'"
proof -
  note step = letters_update [OF wf] letters_row [OF wf] letter_of_rows
  from mv show ?thesis
proof cases
  case (move_send env mid pl sn rcp t)
  have none: "letters (b_mail db) mid = None" using move_send(5) by (auto simp: letters_def sql_first_None)
  show ?thesis
    by (rule history_step [OF d move_send(1) h _ _, where f = "FHandoff mid sn rcp pl"
        and ?db1.0 = "db\<lparr>b_mail := b_mail db @ [new_mail mid sn rcp pl t]\<rparr>"])
      (use move_send none in \<open>simp_all add: record_handoff_def letters_new letter_of_new\<close>)
next
  case (move_claim env r k x)
  show ?thesis
    by (rule history_step [OF d move_claim(1) h, where f = "FClaimed (m_id r) (m_recipient r) (m_attempts r + 1)"
        and ?db1.0 = "upd_mail (m_id r) (\<lambda>r. m_status r = MPending) (leased_row k x) db"])
      (use move_claim in \<open>simp_all add: record_mail_claim_def step del: upd_mail_simps(1)\<close>)
next
  case (move_ack env r k t)
  show ?thesis
    by (rule history_step [OF d move_ack(1) h, where f = "FAcked (m_id r)"
        and ?db1.0 = "upd_mail (m_id r) (owns_mail k t) (acked_row t) db"])
      (use move_ack in \<open>simp_all add: record_ack_def step lease_leased del: upd_mail_simps(1)\<close>)
next
  case (move_release env r k t)
  show ?thesis
    by (rule history_step [OF d move_release(1) h, where f = "FReleased (m_id r) (m_attempts r)"
        and ?db1.0 = "upd_mail (m_id r) (owns_mail k t) to_pending db"])
      (use move_release in \<open>simp_all add: record_released_def step lease_leased del: upd_mail_simps(1)\<close>)
next
  case (move_recover env r t)
  show ?thesis
    by (rule history_step [OF d move_recover(1) h, where f = "FRecovered (m_id r) (m_recipient r) (m_attempts r)"
        and ?db1.0 = "upd_mail (m_id r) (lease_over t) to_pending db"])
      (use move_recover in \<open>simp_all add: record_recovered_def step lease_leased del: upd_mail_simps(1)\<close>)
qed
qed

text \<open>A settled message: its row is acknowledged, and no move touches it again.\<close>

definition settled_mail :: "mail \<Rightarrow> mail_db \<Rightarrow> bool" where
  "settled_mail r db \<longleftrightarrow> m_status r = MAcked \<and> r \<in> set (b_mail db)"

lemma settled_update:
  "settled_mail r db \<Longrightarrow> (\<And>q. p q \<Longrightarrow> m_status q \<noteq> MAcked) \<Longrightarrow> settled_mail r (upd_mail mid p f db)"
  by (auto simp: settled_mail_def in_sql_update)

lemma settled_record: "settled_mail r db1 \<Longrightarrow> b_mail db' = b_mail db1 \<Longrightarrow> settled_mail r db'"
  by (simp add: settled_mail_def)

lemma settled_move:
  assumes "settled_mail r db" and "mail_move d db db'"
  shows "settled_mail r db'"
  using assms(2)
proof cases
  case (move_send env mid pl sn rcp t)
  have "settled_mail r (db\<lparr>b_mail := b_mail db @ [new_mail mid sn rcp pl t]\<rparr>)"
    using assms(1) by (simp add: settled_mail_def)
  then show ?thesis by (rule settled_record [OF _ mail_recorders_frame(1) [OF move_send(6)]])
next
  case (move_claim env r' k x)
  show ?thesis
    by (rule settled_record [OF settled_update [OF assms(1)] mail_recorders_frame(2) [OF move_claim(6)]]) simp
next
  case (move_ack env r' k t)
  show ?thesis
    by (rule settled_record [OF settled_update [OF assms(1)] mail_recorders_frame(3) [OF move_ack(4)]])
      (simp add: lease_leased)
next
  case (move_release env r' k t)
  show ?thesis
    by (rule settled_record [OF settled_update [OF assms(1)] mail_recorders_frame(4) [OF move_release(4)]])
      (simp add: lease_leased)
next
  case (move_recover env r' t)
  show ?thesis
    by (rule settled_record [OF settled_update [OF assms(1)] mail_recorders_frame(5) [OF move_recover(4)]])
      (simp add: lease_leased)
qed

interpretation history_inv: mail_invariant d "\<lambda>db. inj d \<longrightarrow> history d db" for d
  by unfold_locales (blast intro: history_move)

interpretation settled_inv: mail_invariant d "settled_mail r" for d r
  by unfold_locales (rule settled_move)

end
