(* ===== verification/MailboxLease.thy ===== *)
theory MailboxLease
  imports MailboxSession
begin

text \<open>
  What a claim, a recovery and an acknowledgement of the mailbox (\<open>lipas/orchestration.py\<close>)
  leave in the table: leases exclude one another until they run out, an expired message is
  delivered again, and only the holder of a live lease settles a message.
\<close>

section \<open>Recording never fails on its own fields\<close>

lemma record_attempt_ok:
  "\<exists>db'. record_mail_claim env mid rcp n db = Inr db'"
  "\<exists>db'. record_recovered env mid rcp n db = Inr db'"
  "\<exists>db'. record_released env mid n db = Inr db'"
  "\<exists>db'. record_ack env mid db = Inr db'"
  by (simp_all add: record_mail_claim_def record_recovered_def record_released_def record_ack_def
      record_mail_event_def attempt_fields_def strict_json_copy_def vobj_def)

section \<open>Recovery\<close>

lemma recover_step_cases:
  "recover_step env now (db, n) r = Inr (db', n') \<Longrightarrow> db' = db
    \<or> b_mail db' = b_mail (upd_mail (m_id r) (lease_over now) to_pending db)"
  by (auto simp: recover_step_def split: if_splits dest!: mail_recorders_frame)

lemma recover_step_keeps:
  assumes "recover_step env now (db, n) r = Inr (db', n')" and "q \<in> set (b_mail db)" and "\<not> lease_over now q"
  shows "q \<in> set (b_mail db')"
  using recover_step_cases [OF assms(1)] assms(2,3) by (auto simp: in_sql_update)

lemma recover_walk_keeps:
  "efoldl (recover_step env now) st rows = Inr st' \<Longrightarrow> q \<in> set (b_mail (fst st)) \<Longrightarrow> \<not> lease_over now q \<Longrightarrow>
    q \<in> set (b_mail (fst st'))"
proof (induction rows arbitrary: st)
  case Nil
  then show ?case by simp
next
  case (Cons r rows)
  then obtain st1 where st1: "recover_step env now st r = Inr st1" "efoldl (recover_step env now) st1 rows = Inr st'"
    by auto
  have "q \<in> set (b_mail (fst st1))"
    using recover_step_keeps [of env now "fst st" "snd st" r "fst st1" "snd st1" q] st1(1) Cons.prems(2,3) by simp
  then show ?case using Cons.IH [OF st1(2)] Cons.prems(3) by blast
qed

lemma recover_keeps:
  "recover_tx env now db = Inr (n, db') \<Longrightarrow> q \<in> set (b_mail db) \<Longrightarrow> \<not> lease_over now q \<Longrightarrow> q \<in> set (b_mail db')"
  using recover_walk_keeps [where st = "(db, 0)"] by (fastforce simp: recover_tx_def)

lemma recover_step_ok: "\<exists>db' n'. recover_step env now (db, n) r = Inr (db', n')"
  using record_attempt_ok(2) by (fastforce simp: recover_step_def)

lemma recover_walk_ok: "\<exists>st'. efoldl (recover_step env now) st rows = Inr st'"
proof (induction rows arbitrary: st)
  case Nil
  then show ?case by simp
next
  case (Cons r rows)
  obtain db n where st: "st = (db, n)" by (cases st)
  obtain db1 n1 where "recover_step env now st r = Inr (db1, n1)" using recover_step_ok st by blast
  then show ?case using Cons [of "(db1, n1)"] by simp
qed

lemma recover_tx_ok: "\<exists>n db'. recover_tx env now db = Inr (n, db')"
proof -
  obtain st' where "efoldl (recover_step env now) (db, 0)
      (sql_order (\<lambda>a b. m_id a \<le> m_id b) (filter (lease_over now) (b_mail db))) = Inr st'"
    using recover_walk_ok by blast
  then show ?thesis by (cases st') (simp add: recover_tx_def)
qed

text \<open>A row whose lease is over comes back pending, with its attempts.\<close>

lemma recover_walk_back:
  "efoldl (recover_step env now) st rows = Inr st' \<Longrightarrow> r \<in> set (b_mail (fst st)) \<Longrightarrow>
    lease_over now r \<Longrightarrow> r \<in> set rows \<Longrightarrow> to_pending r \<in> set (b_mail (fst st'))"
proof (induction rows arbitrary: st)
  case Nil
  then show ?case by simp
next
  case (Cons q rows)
  obtain db n where st: "st = (db, n)" by (cases st)
  from Cons.prems(1) obtain st1 where st1: "recover_step env now st q = Inr st1"
    "efoldl (recover_step env now) st1 rows = Inr st'" by auto
  obtain db1 n1 where eq: "st1 = (db1, n1)" by (cases st1)
  have free: "\<not> lease_over now (to_pending r)" by (simp add: lease_over_def)
  show ?case
  proof (cases "m_id q = m_id r")
    case True
    have "0 < count_mail (m_id q) (lease_over now) db"
      using Cons.prems(2,3) True st by (auto simp: count_mail_pos)
    then have "b_mail db1 = b_mail (upd_mail (m_id q) (lease_over now) to_pending db)"
      using st1(1) by (auto simp: st eq recover_step_def split: if_splits dest!: mail_recorders_frame)
    then have "to_pending r \<in> set (b_mail db1)"
      using Cons.prems(2,3) True st by (auto simp: in_sql_update)
    then show ?thesis using recover_walk_keeps [OF st1(2) _ free] eq by simp
  next
    case False
    then have "r \<in> set (b_mail db1)"
      using recover_step_cases [of env now db n q db1 n1] st1(1) Cons.prems(2) st eq
      by (auto simp: in_sql_update intro!: bexI [of _ r])
    then show ?thesis using Cons.IH [OF st1(2)] Cons.prems(3,4) False eq by auto
  qed
qed

lemma recover_back:
  assumes "recover_tx env now db = Inr (n, db')" and "r \<in> set (b_mail db)" and "lease_over now r"
  shows "to_pending r \<in> set (b_mail db')"
proof -
  let ?rows = "sql_order (\<lambda>a b. m_id a \<le> m_id b) (filter (lease_over now) (b_mail db))"
  from assms(1) obtain m where w: "efoldl (recover_step env now) (db, 0) ?rows = Inr (db', m)"
    by (auto simp: recover_tx_def)
  show ?thesis using recover_walk_back [OF w] assms(2,3) by simp
qed

section \<open>Claims\<close>

definition leased_by :: "mail_env \<Rightarrow> rat \<Rightarrow> message \<Rightarrow> mail \<Rightarrow> bool" where
  "leased_by env l m r \<longleftrightarrow> m_id r = mm_id m \<and> m_status r = MLeased \<and> m_token r = mm_token m
     \<and> (\<exists>j. m_token r = Some (me_uuid env j) \<and> m_expires r = Some (f_add (me_now env (Suc j)) l))"

lemma claim_tx_keeps:
  assumes "mail_wf db" and "claim_mail_tx env i l rcp mid db = Inr (res, db')"
    and "q \<in> set (b_mail db)" and "m_status q \<noteq> MPending"
  shows "q \<in> set (b_mail db')"
  using claim_tx_cases [OF assms(1,2)] assms(3,4)
  by (auto simp: in_sql_update dest!: mail_recorders_frame)

lemma claim_tx_leases:
  assumes wf: "mail_wf db" and tx: "claim_mail_tx env i l rcp mid db = Inr (Some m, db')"
  shows "mm_id m = mid \<and> (\<exists>r \<in> set (b_mail db'). leased_by env l m r)"
proof -
  from claim_tx_cases [OF wf tx] obtain r where r: "r \<in> set (b_mail db)" "m_id r = mid" "m_status r = MPending"
    and m: "message_of_row (leased_row (me_uuid env i) (f_add (me_now env (Suc i)) l) r) = Inr m"
    and rec: "record_mail_claim env mid rcp (m_attempts r + 1) (upd_mail mid (\<lambda>r. m_status r = MPending)
        (leased_row (me_uuid env i) (f_add (me_now env (Suc i)) l)) db) = Inr db'" by auto
  let ?r = "leased_row (me_uuid env i) (f_add (me_now env (Suc i)) l) r"
  have "?r \<in> set (b_mail db')" using mail_recorders_frame(2) [OF rec] r by (auto simp: in_sql_update)
  moreover have "leased_by env l m ?r"
    using message_of_row_fields [OF m] by (auto simp: leased_by_def leased_row_def)
  ultimately show ?thesis using message_of_row_fields [OF m] r(2) by auto
qed

lemma claim_loop_post:
  assumes "me_digest env = d" and "mail_hex env"
  shows "claim_loop env l rcp i mids s = (Inr ms, s') \<Longrightarrow> mail_wf (mb_db s) \<Longrightarrow> routed mids rcp (mb_db s) \<Longrightarrow>
    (\<forall>q \<in> set (b_mail (mb_db s)). m_status q \<noteq> MPending \<longrightarrow> q \<in> set (b_mail (mb_db s')))
    \<and> (\<forall>m \<in> set ms. mm_id m \<in> set mids \<and> (\<exists>r \<in> set (b_mail (mb_db s')). leased_by env l m r))"
proof (induction mids arbitrary: s i ms)
  case Nil
  then show ?case by (simp add: sret_def)
next
  case (Cons mid mids)
  from Cons.prems(1) obtain x s1 ms1 where s1: "mail_transact (claim_mail_tx env i l rcp mid) s = (Inr x, s1)"
    and rest: "claim_loop env l rcp (Suc i) mids s1 = (Inr ms1, s')"
    and ms: "ms = (case x of None \<Rightarrow> ms1 | Some m \<Rightarrow> m # ms1)"
    by (auto simp: sbind_Inr_iff sret_def)
  then have tx: "claim_mail_tx env i l rcp mid (mb_db s) = Inr (x, mb_db s1)"
    by (auto simp: mail_transact_def split: sum.splits prod.splits)
  have mv: "mail_moves d (mb_db s) (mb_db s1)" "routed mids rcp (mb_db s1)"
    using claim_moves [OF Cons.prems(2) assms Cons.prems(3) tx] by simp_all
  have wf1: "mail_wf (mb_db s1)" by (rule wf_moves [OF mv(1) Cons.prems(2)])
  note IH = Cons.IH [OF rest wf1 mv(2)]
  have keep: "\<forall>q \<in> set (b_mail (mb_db s)). m_status q \<noteq> MPending \<longrightarrow> q \<in> set (b_mail (mb_db s'))"
    using IH claim_tx_keeps [OF Cons.prems(2) tx] by blast
  have "mm_id m \<in> set (mid # mids) \<and> (\<exists>r \<in> set (b_mail (mb_db s')). leased_by env l m r)" if "m \<in> set ms" for m
  proof (cases "x = Some m")
    case True
    with claim_tx_leases [OF Cons.prems(2)] tx obtain r where
      r: "mm_id m = mid" "r \<in> set (b_mail (mb_db s1))" "leased_by env l m r" by blast
    then have "r \<in> set (b_mail (mb_db s'))" using IH by (auto simp: leased_by_def)
    with r show ?thesis by auto
  next
    case False
    then have "m \<in> set ms1" using that ms by (cases x) auto
    then show ?thesis using IH by auto
  qed
  with keep show ?case by blast
qed

text \<open>The phases of a successful claim.\<close>

lemma recover_expired_Inr:
  assumes "recover_expired env VNone s = (Inr n, s')"
  shows "recover_tx env (me_now env 0) (mb_db s) = Inr (n, mb_db s')"
proof -
  from assms obtain s1 x where "mail_transact (recover_tx env (me_now env 0)) s = (Inr n, s1)"
      "mail_repair_batch env 0 s1 = (Inr x, s')"
    by (auto simp: recover_expired_def recovery_time_def sbind_Inr_iff slift_Inr_iff sret_def mail_open_def)
  moreover from this have "mb_db s' = mb_db s1"
    using mail_repair_db [of env 0 "Some DEFAULT_AUDIT_REPAIR_BATCH_SIZE" s1] by (simp add: mail_repair_batch_def)
  ultimately show ?thesis by (auto simp: mail_transact_def split: sum.splits prod.splits)
qed

lemma claim_phases:
  assumes "claim_mail env rcp n l m s = (Inr ms, s')"
  obtains lease rcp' m' s1 s2 mids k where
    "positive_duration l = Inr lease" "recover_tx env (me_now env 0) (mb_db s) = Inr (k, mb_db s1)"
    "select_mail rcp' n m' (mb_db s1) = Inr mids" "claim_loop env lease rcp' 0 mids s1 = (Inr ms, s2)"
    "mb_db s' = mb_db s2"
proof -
  from assms obtain lease rcp' m' k s1 mids s2 x where
    *: "positive_duration l = Inr lease" "recover_expired env VNone s = (Inr k, s1)"
    "select_mail rcp' n m' (mb_db s1) = Inr mids" "claim_loop env lease rcp' 0 mids s1 = (Inr ms, s2)"
    "mail_repair_batch env 1 s2 = (Inr x, s')"
    by (auto simp: claim_mail_def sbind_Inr_iff slift_Inr_iff sret_def mail_open_def)
  have "mb_db s' = mb_db s2"
    using *(5) mail_repair_db [of env 1 "Some DEFAULT_AUDIT_REPAIR_BATCH_SIZE" s2] by (simp add: mail_repair_batch_def)
  with * recover_expired_Inr [OF *(2)] that show thesis by blast
qed

text \<open>A claim leases what it returns, and only what was pending or recovered.\<close>

lemma claim_leases:
  assumes hex: "mail_hex env" and wf: "mail_wf (mb_db s)" and c: "claim_mail env rcp n l m s = (Inr ms, s')"
    and l: "positive_duration l = Inr lease" and x: "x \<in> set ms"
  shows "\<exists>r \<in> set (b_mail (mb_db s')). leased_by env lease x r"
proof -
  from c obtain lease' rcp' m' s1 s2 mids k where p: "positive_duration l = Inr lease'"
    "recover_tx env (me_now env 0) (mb_db s) = Inr (k, mb_db s1)"
    "select_mail rcp' n m' (mb_db s1) = Inr mids" "claim_loop env lease' rcp' 0 mids s1 = (Inr ms, s2)"
    "mb_db s' = mb_db s2" by (rule claim_phases)
  have wf1: "mail_wf (mb_db s1)" by (rule wf_moves [OF recover_moves [OF wf refl p(2)] wf])
  show ?thesis
    using claim_loop_post [OF refl hex p(4) wf1 select_routed [OF wf1 p(3)]] x p(1,5) l by auto
qed

lemma select_pending:
  assumes "select_mail rcp n mid db = Inr mids" and "i \<in> set mids"
  shows "\<exists>r \<in> set (b_mail db). m_id r = i \<and> m_status r = MPending"
  using assms by (auto simp: select_mail_def split: option.splits if_splits dest!: in_set_takeD) blast

lemma claim_spares:
  assumes hex: "mail_hex env" and wf: "mail_wf (mb_db s)" and c: "claim_mail env rcp n l m s = (Inr ms, s')"
    and q: "q \<in> set (b_mail (mb_db s))" "m_status q = MLeased" "\<not> lease_over (me_now env 0) q"
  shows "m_id q \<notin> mm_id ` set ms \<and> q \<in> set (b_mail (mb_db s'))"
proof -
  from c obtain lease rcp' m' s1 s2 mids k where p: "positive_duration l = Inr lease"
    "recover_tx env (me_now env 0) (mb_db s) = Inr (k, mb_db s1)"
    "select_mail rcp' n m' (mb_db s1) = Inr mids" "claim_loop env lease rcp' 0 mids s1 = (Inr ms, s2)"
    "mb_db s' = mb_db s2" by (rule claim_phases)
  have wf1: "mail_wf (mb_db s1)" by (rule wf_moves [OF recover_moves [OF wf refl p(2)] wf])
  have q1: "q \<in> set (b_mail (mb_db s1))" by (rule recover_keeps [OF p(2) q(1,3)])
  have "m_id q \<notin> set mids"
  proof
    assume "m_id q \<in> set mids"
    with select_pending [OF p(3)] obtain r where "r \<in> set (b_mail (mb_db s1))" "m_id r = m_id q"
      "m_status r = MPending" by blast
    then show False using wf_unique [OF wf1 q1] q(2) by fastforce
  qed
  then show ?thesis
    using claim_loop_post [OF refl hex p(4) wf1 select_routed [OF wf1 p(3)]] q1 q(2) p(5) by auto
qed

section \<open>Delivery again\<close>

lemma mail_repair_none: "mb_rowset s = None \<Longrightarrow> \<not> mb_closed s \<Longrightarrow> mail_repair_batch env p s = (Inr 0, s)"
  by (simp add: mail_repair_batch_def mail_repair_audit_def ensure_open_def)

lemma message_of_ok: "payload_ok (m_payload r) \<Longrightarrow> \<exists>m. message_of_row r = Inr m"
  by (auto simp: payload_ok_def message_of_row_def split: pyval.splits)

text \<open>A pending message is claimed by its id.\<close>

lemma claim_pending_row:
  assumes wf: "mail_wf db" and r: "r \<in> set (b_mail db)" "m_status r = MPending"
  shows "\<exists>m db'. claim_mail_tx env i l rcp (m_id r) db = Inr (Some m, db')
    \<and> mm_id m = m_id r \<and> mm_attempts m = m_attempts r + 1 \<and> mm_status m = MLeased
    \<and> mm_token m = Some (me_uuid env i)"
proof -
  let ?f = "leased_row (me_uuid env i) (f_add (me_now env (Suc i)) l)"
  let ?db1 = "upd_mail (m_id r) (\<lambda>r. m_status r = MPending) ?f db"
  have ok: "mail_ok r" using wf r by (simp add: mail_wf_def)
  have s: "strip (m_id r) = m_id r" "m_id r \<noteq> []" using ok by (auto simp: mail_ok_def)
  obtain m where m: "message_of_row (?f r) = Inr m"
    using message_of_ok [of "?f r"] ok by (auto simp: mail_ok_def leased_row_def)
  have "sql_first (\<lambda>q. m_id q = m_id r) (b_mail db) = Some r" using wf_find [OF wf] r by blast
  then have "sql_first (\<lambda>q. m_id q = m_id r) (b_mail ?db1) = Some (?f r)"
    using sql_first_key_update [where key = m_id and f = ?f] r(2) by simp
  then have g: "get_message (m_id r) ?db1 = Inr (Some m)" using s m by (simp add: get_message_def non_empty_text_def)
  have c: "0 < count_mail (m_id r) (\<lambda>r. m_status r = MPending) db" using r by (auto simp: count_mail_pos)
  obtain db' where "record_mail_claim env (m_id r) rcp (mm_attempts m) ?db1 = Inr db'"
    using record_attempt_ok(1) by blast
  with g c have "claim_mail_tx env i l rcp (m_id r) db = Inr (Some m, db')"
    by (simp add: claim_mail_tx_def Let_def leased_row_eta)
  then show ?thesis using message_of_row_fields [OF m] by (auto simp: leased_row_def)
qed

lemma claim_by_id:
  assumes wf: "mail_wf (mb_db s)" and live: "mb_rowset s = None" "\<not> mb_closed s"
    and args: "non_empty_text rcp = Inr (m_recipient r)" "positive_duration l = Inr lease" "1 \<le> n"
    and r: "r \<in> set (b_mail (mb_db s))" "m_status r = MPending \<or> lease_over (me_now env 0) r"
  shows "\<exists>m s'. claim_mail env rcp n l (Some (m_id r)) s = (Inr [m], s') \<and> mm_id m = m_id r
    \<and> mm_attempts m = m_attempts r + 1 \<and> mm_status m = MLeased \<and> mm_token m = Some (me_uuid env 0)"
proof -
  have ok: "mail_ok r" using wf r by (simp add: mail_wf_def)
  obtain k db1 where rec: "recover_tx env (me_now env 0) (mb_db s) = Inr (k, db1)" using recover_tx_ok by blast
  let ?s1 = "s\<lparr>mb_db := db1\<rparr>"
  have e: "recover_expired env VNone s = (Inr k, ?s1)"
    using rec live by (simp add: recover_expired_def recovery_time_def mail_open_def ensure_open_def
        mail_transact_def sbind_def slift_def sret_def mail_repair_none)
  have wf1: "mail_wf db1" by (rule wf_moves [OF recover_moves [OF wf refl rec] wf])
  obtain q where q: "q \<in> set (b_mail db1)" "m_id q = m_id r" "m_status q = MPending"
      "m_attempts q = m_attempts r" "m_recipient q = m_recipient r"
  proof (cases "lease_over (me_now env 0) r")
    case True
    show thesis by (rule that [of "to_pending r"]) (use recover_back [OF rec r(1) True] in \<open>simp_all add: to_pending_def\<close>)
  next
    case False
    show thesis by (rule that [of r]) (use recover_keeps [OF rec r(1) False] r False in simp_all)
  qed
  have "filter (\<lambda>r'. m_id r' = m_id r \<and> m_recipient r' = m_recipient r \<and> m_status r' = MPending) (b_mail db1) = [q]"
    using wf1 q by (intro filter_unique_key [where key = m_id]) (auto simp: mail_wf_def)
  then have sel: "select_mail (m_recipient r) n (Some (m_id r)) db1 = Inr [m_id r]" using q by (simp add: select_mail_def)
  from claim_pending_row [OF wf1 q(1,3), of env 0 lease "m_recipient r"] obtain m db2 where
    c: "claim_mail_tx env 0 lease (m_recipient r) (m_id r) db1 = Inr (Some m, db2)"
    and m: "mm_id m = m_id r" "mm_attempts m = m_attempts r + 1" "mm_status m = MLeased"
      "mm_token m = Some (me_uuid env 0)" using q by auto
  have loop: "claim_loop env lease (m_recipient r) 0 [m_id r] ?s1 = (Inr [m], s\<lparr>mb_db := db2\<rparr>)"
    using c by (simp add: sbind_def sret_def mail_transact_def)
  have id: "non_empty_text (m_id r) = Inr (m_id r)" using ok by (simp add: non_empty_text_def mail_ok_def)
  have "claim_mail env rcp n l (Some (m_id r)) s = (Inr [m], s\<lparr>mb_db := db2\<rparr>)"
    using args live e sel loop id
    by (simp add: claim_mail_def sbind_def slift_def sret_def mail_open_def ensure_open_def guard_or_def mail_repair_none)
  with m show ?thesis by blast
qed

section \<open>The phases of a handoff\<close>

lemma ack_tx_marks:
  assumes "ack_tx env mid k db = Inr (u, db')"
  shows "\<exists>r \<in> set (b_mail db'). m_id r = mid \<and> m_status r = MAcked"
proof -
  let ?t = "me_now env 0"
  from assms have "0 < count_mail mid (owns_mail k ?t) db"
    and rec: "record_ack env mid (upd_mail mid (owns_mail k ?t) (acked_row ?t) db) = Inr db'"
    by (auto simp: ack_tx_def Let_def acked_row_eta split: if_splits)
  then obtain r where r: "r \<in> set (b_mail db)" "m_id r = mid" "owns_mail k ?t r" by (auto simp: count_mail_pos)
  then have "acked_row ?t r \<in> set (b_mail db')"
    using mail_recorders_frame(3) [OF rec] by (auto simp: in_sql_update)
  with r(2) show ?thesis by (intro bexI [of _ "acked_row ?t r"]) simp_all
qed

lemma handoff_phases:
  assumes "map_of (ao_agents ao) rcp = Some h" and "handoff env1 env2 env3 ao sn rcp pl mid s = (Inr res, s')"
  obtains sent s0 ms s1 m where "send env1 sn rcp pl mid s = (Inr (Some sent), s0)"
    "claim_mail env2 rcp 1 (VFloat (Fin (ao_lease ao))) (Some (mm_id sent)) s0 = (Inr ms, s1)"
    "m \<in> set ms" "run_handler env3 h m s1 = (Inr res, s')"
proof -
  from assms obtain x s0 where x: "send env1 sn rcp pl mid s = (Inr x, s0)"
    and y: "(case x of None \<Rightarrow> slift (Inl AttributeError)
      | Some sent \<Rightarrow> if mm_status sent = MAcked then slift (Inl MailboxLeaseError)
          else sbind (claim_mail env2 rcp 1 (VFloat (Fin (ao_lease ao))) (Some (mm_id sent))) (\<lambda>ms.
            case find (\<lambda>m. mm_id m = mm_id sent) ms of None \<Rightarrow> slift (Inl MailboxLeaseError)
            | Some m \<Rightarrow> run_handler env3 h m)) s0 = (Inr res, s')"
    unfolding handoff_def by (auto simp: sbind_Inr_iff)
  then obtain sent where sent: "x = Some sent" by (cases x) (auto simp: slift_def)
  with y have "mm_status sent \<noteq> MAcked" by (auto simp: slift_def)
  with y sent obtain ms s1 where ms: "claim_mail env2 rcp 1 (VFloat (Fin (ao_lease ao))) (Some (mm_id sent)) s0 = (Inr ms, s1)"
    and z: "(case find (\<lambda>m. mm_id m = mm_id sent) ms of None \<Rightarrow> slift (Inl MailboxLeaseError)
        | Some m \<Rightarrow> run_handler env3 h m) s1 = (Inr res, s')" by (auto simp: sbind_Inr_iff)
  then obtain m where m: "find (\<lambda>m. mm_id m = mm_id sent) ms = Some m"
    by (cases "find (\<lambda>m. mm_id m = mm_id sent) ms") (auto simp: slift_def)
  then have "m \<in> set ms" by (auto simp: find_Some_iff)
  with that x sent ms z m show thesis by simp
qed

end
