(* ===== verification/MailboxProps.thy ===== *)
theory MailboxProps
  imports MailboxLease
begin

text \<open>
  The properties of the mailbox and the orchestrator (\<open>lipas/orchestration.py\<close>), with
  witnesses on a concrete mailbox, concrete calls and concrete clocks.
\<close>

section \<open>Sample data\<close>

text \<open>Call \<open>u\<close> at time \<open>t\<close>; the digest is the identity, which has no collisions.\<close>

definition mail_env_at :: "string \<Rightarrow> rat \<Rightarrow> mail_env" where
  "mail_env_at u t = \<lparr>me_now = (\<lambda>n. t), me_stamp = (\<lambda>n. t), me_uuid = (\<lambda>n. u @ ''f'' @ replicate n (CHR ''0'')),
     me_digest = id, me_merge = (\<lambda>p n. u @ digits p @ ''.'' @ digits n)\<rparr>"

definition empty_mailbox :: mailbox where
  "empty_mailbox = \<lparr>mb_db = empty_mail_db, mb_rowset = None, mb_closed = False, mb_cursor = 0, mb_mirrored = None\<rparr>"

definition mail_sample :: "(mail_env \<times> mail_call) list" where
  "mail_sample =
    [(mail_env_at ''a1'' 100, Send ''boss'' ''worker'' [(KStr ''job'', VInt 1)] (Some ''m'')),
     (mail_env_at ''a2'' 110, ClaimMail ''worker'' 1 (VInt 60) None),
     (mail_env_at ''a3'' 200, ClaimMail '' worker '' 5 (VInt 60) None)]"

definition mail_settled :: "(mail_env \<times> mail_call) list" where
  "mail_settled = mail_sample @ [(mail_env_at ''a4'' 210, Acknowledge ''m'' ''a3f'')]"

lemma sample_hex: "mail_hex (mail_env_at ''a1'' t) \<and> mail_hex (mail_env_at ''a2'' t)
    \<and> mail_hex (mail_env_at ''a3'' t) \<and> mail_hex (mail_env_at ''a4'' t)"
  by (auto simp: mail_hex_def mail_env_at_def)

lemma sample_calls:
  "\<forall>(env, c) \<in> set mail_sample. mail_hex env \<and> me_digest env = id"
  "\<forall>(env, c) \<in> set mail_settled. mail_hex env \<and> me_digest env = id"
  using sample_hex by (auto simp: mail_settled_def mail_sample_def mail_env_at_def)

lemma empty_mailbox_db: "mb_db empty_mailbox = empty_mail_db"
  by (simp add: empty_mailbox_def)

section \<open>Sessions\<close>

text \<open>
  C5: the outbox of the mailbox refines the mailbox protocol. After every session on a
  fresh mailbox, whatever its calls return or raise, the recorded audit events are a legal
  history of hand-offs, claims, acknowledgements, releases and recoveries, each with its
  identity, tag and fields, and replaying them gives exactly the table; the table itself is
  well-formed (a lease is a token with an expiry, only an acknowledged row has an
  acknowledgement time). The digest is assumed to be free of collisions.
\<close>

theorem outbox_refines_protocol:
  assumes "\<forall>(env, c) \<in> set calls. mail_hex env \<and> me_digest env = d" and "inj d"
    and "mb_db s = empty_mail_db"
  shows "mail_wf (mb_db (mail_session calls s)) \<and> history d (mb_db (mail_session calls s))"
  using history_inv.session [OF assms(1), of s] assms(2,3) by (simp add: mail_wf_empty history_empty)

lemma outbox_refines_protocol_witness:
  "history id (mb_db (mail_session mail_settled empty_mailbox))
    \<and> map ev_tag (b_audit (mb_db (mail_session mail_settled empty_mailbox)))
      = [TAG_AGENT_HANDOFF, TAG_AGENT_MAIL_CLAIM, TAG_AGENT_MAIL_RECOVERED, TAG_AGENT_MAIL_CLAIM, TAG_AGENT_MAIL_ACK]"
proof -
  have "map ev_tag (b_audit (mb_db (mail_session mail_settled empty_mailbox)))
      = [TAG_AGENT_HANDOFF, TAG_AGENT_MAIL_CLAIM, TAG_AGENT_MAIL_RECOVERED, TAG_AGENT_MAIL_CLAIM, TAG_AGENT_MAIL_ACK]"
    by code_simp
  then show ?thesis using outbox_refines_protocol [OF sample_calls(2) inj_on_id empty_mailbox_db] by blast
qed

text \<open>
  C22: acknowledgement is final. The row of an acknowledged message stays in the table
  unchanged through every later session: it is never leased or delivered again.
\<close>

theorem acknowledged_is_final:
  assumes "\<forall>(env, c) \<in> set calls. mail_hex env \<and> me_digest env = d" and "mail_wf (mb_db s)"
    and "r \<in> set (b_mail (mb_db s))" and "m_status r = MAcked"
  shows "r \<in> set (b_mail (mb_db (mail_session calls s)))"
  using settled_inv.session [OF assms(1,2), of r] assms(3,4) by (simp add: settled_mail_def)

lemma acknowledged_is_final_witness:
  "\<exists>r. m_status r = MAcked \<and> r \<in> set (b_mail (mb_db (mail_session mail_sample (mail_session mail_settled empty_mailbox))))"
proof -
  let ?s = "mail_session mail_settled empty_mailbox"
  have wf: "mail_wf (mb_db ?s)"
    using history_inv.session [OF sample_calls(2), of empty_mailbox]
    by (simp add: empty_mailbox_db mail_wf_empty history_empty)
  have "map m_status (b_mail (mb_db ?s)) = [MAcked]" by code_simp
  then obtain r where r: "r \<in> set (b_mail (mb_db ?s))" "m_status r = MAcked"
    by (cases "b_mail (mb_db ?s)") auto
  show ?thesis using acknowledged_is_final [OF sample_calls(1) wf r] r(2) by blast
qed

section \<open>Leases\<close>

text \<open>
  C21: fencing. An acknowledgement or a release that does not name a live lease of the
  message, by its token, raises and leaves the table and the outbox as they were.
\<close>

theorem mail_fenced:
  assumes "non_empty_text message_id = Inr mid" and "non_empty_text lease_token = Inr token"
    and "\<forall>r \<in> set (b_mail (mb_db s)). m_id r = mid \<longrightarrow> \<not> owns_mail token (me_now env 0) r"
  shows "mb_db (snd (acknowledge env message_id lease_token s)) = mb_db s
    \<and> mb_db (snd (release env message_id lease_token s)) = mb_db s
    \<and> (\<not> mb_closed s \<longrightarrow> fst (acknowledge env message_id lease_token s) = Inl MailboxLeaseError
        \<and> fst (release env message_id lease_token s) = Inl MailboxLeaseError)"
proof -
  have "ack_tx env mid token (mb_db s) = Inl MailboxLeaseError"
    using assms(3) count_mail_pos [of mid "owns_mail token (me_now env 0)" "mb_db s"] by (auto simp: ack_tx_def)
  moreover have "sql_first (\<lambda>r. m_id r = mid \<and> owns_mail token (me_now env 0) r) (b_mail (mb_db s)) = None"
    using assms(3) by (auto simp: sql_first_None)
  then have "release_tx env mid token (mb_db s) = Inl MailboxLeaseError" by (simp add: release_tx_def)
  ultimately show ?thesis
    using assms(1,2) by (simp add: acknowledge_def release_def sbind_def slift_def mail_open_def ensure_open_def
        mail_transact_def)
qed

lemma mail_fenced_witness:
  "fst (acknowledge (mail_env_at ''b'' 205) ''m'' ''a2f'' (mail_session mail_sample empty_mailbox)) = Inl MailboxLeaseError"
proof -
  let ?s = "mail_session mail_sample empty_mailbox"
  have args: "non_empty_text ''m'' = Inr ''m''" "non_empty_text ''a2f'' = Inr ''a2f''" by code_simp+
  have no: "\<forall>r \<in> set (b_mail (mb_db ?s)). m_id r = ''m'' \<longrightarrow> \<not> owns_mail ''a2f'' (me_now (mail_env_at ''b'' 205) 0) r"
    by code_simp
  have opened: "\<not> mb_closed ?s" by code_simp
  show ?thesis using mail_fenced [OF args no] opened by blast
qed





text \<open>
  A message id names one handoff for ever. Sending again under a stored id writes
  nothing, and raises \<open>ValueError\<close> when sender, recipient or payload differ.
\<close>

theorem send_is_idempotent:
  assumes "mail_wf (mb_db s)" and "r \<in> set (b_mail (mb_db s))"
  shows "mb_db (snd (send env sn rcp pl (Some (m_id r)) s)) = mb_db s
    \<and> (non_empty_text sn = Inr sn' \<and> non_empty_text rcp = Inr rcp' \<and> (sn' \<noteq> m_sender r \<or> rcp' \<noteq> m_recipient r)
         \<and> strict_json_copy (VDict pl) = Inr p \<and> \<not> mb_closed s
       \<longrightarrow> fst (send env sn rcp pl (Some (m_id r)) s) = Inl ValueError)"
proof -
  have ok: "mail_ok r" using assms by (simp add: mail_wf_def)
  then have id: "non_empty_text (m_id r) = Inr (m_id r)" by (simp add: non_empty_text_def mail_ok_def)
  have "sql_first (\<lambda>q. m_id q = m_id r) (b_mail (mb_db s)) = Some r" using wf_find [OF assms(1)] assms(2) by blast
  moreover obtain m where m: "message_of_row r = Inr m" using message_of_ok [of r] ok by (auto simp: mail_ok_def)
  ultimately have g: "get_message (m_id r) (mb_db s) = Inr (Some m)" using id by (simp add: get_message_def)
  have fields: "mm_sender m = m_sender r" "mm_recipient m = m_recipient r" using message_of_row_fields [OF m] by auto
  have dup: "mail_transact (send_tx env (m_id r) sn' rcp' p) s = (Inl IntegrityError, s)" for sn' rcp' p
    using assms(2) by (simp add: mail_transact_def send_tx_def)
  have db: "mb_db (snd (mail_repair_batch env 0 s)) = mb_db s"
    by (simp add: mail_repair_batch_def mail_repair_db)
  have same: "mb_db (snd (send_new env (m_id r) sn' rcp' p s)) = mb_db s" for sn' rcp' p
    using g db by (auto simp: send_new_def dup mail_get_def sbind_def mail_open_def ensure_open_def slift_def sret_def
        split: prod.splits sum.splits)
  have "mb_db (snd (send env sn rcp pl (Some (m_id r)) s)) = mb_db s"
    using same id by (auto simp: send_def sbind_def slift_def mail_open_def split: sum.splits)
  moreover have "fst (send_new env (m_id r) sn' rcp' p s) = Inl ValueError"
    if "sn' \<noteq> m_sender r \<or> rcp' \<noteq> m_recipient r" "\<not> mb_closed s" for sn' rcp' p
    using that g fields by (auto simp: send_new_def dup mail_get_def sbind_def mail_open_def ensure_open_def slift_def
        same_handoff_def)
  ultimately show ?thesis using id by (auto simp: send_def sbind_def slift_def mail_open_def ensure_open_def)
qed

lemma send_is_idempotent_witness:
  "\<exists>s. fst (send (mail_env_at ''b'' 400) ''other'' ''worker'' [] (Some ''m'') s) = Inl ValueError
    \<and> mb_db (snd (send (mail_env_at ''b'' 400) ''boss'' ''worker'' [(KStr ''job'', VFloat (Fin 1))] (Some ''m'') s)) = mb_db s"
proof -
  let ?s = "mail_session mail_sample empty_mailbox"
  have wf: "mail_wf (mb_db ?s)"
    using history_inv.session [OF sample_calls(1), of empty_mailbox]
    by (simp add: empty_mailbox_db mail_wf_empty history_empty)
  have rows: "map (\<lambda>r. (m_id r, m_sender r)) (b_mail (mb_db ?s)) = [(''m'', ''boss'')]" by code_simp
  then obtain r where r: "r \<in> set (b_mail (mb_db ?s))" "m_id r = ''m''" "m_sender r = ''boss''"
    by (cases "b_mail (mb_db ?s)") auto
  have c: "\<not> mb_closed ?s" by code_simp
  have args: "non_empty_text ''other'' = Inr ''other''" "non_empty_text ''worker'' = Inr ''worker''"
    "strict_json_copy (VDict []) = Inr (VDict [])" by code_simp+
  have ne: "''other'' \<noteq> m_sender r" unfolding r(3) by simp
  show ?thesis
    using send_is_idempotent [OF wf r(1), of "mail_env_at ''b'' 400" _ _ _ "''other''" "''worker''" "VDict []"] args c ne
    unfolding r(2) by blast
qed

section \<open>Hand-offs\<close>

text \<open>
  C24: a successful handoff ran the recipient's handler on a message leased to this call
  and returns its result, and the message is acknowledged when it returns.
\<close>

theorem handoff_settles:
  assumes "mail_hex env2" and "mail_wf (mb_db s)" and "me_digest env1 = d" and "mail_hex env1"
    and "map_of (ao_agents ao) rcp = Some h"
    and "handoff env1 env2 env3 ao sn rcp pl mid s = (Inr res, s')"
  shows "\<exists>m s1 s2. h m s1 = (Inr res, s2) \<and> (\<exists>r \<in> set (b_mail (mb_db s1)). leased_by env2 (ao_lease ao) m r)
    \<and> (\<exists>r \<in> set (b_mail (mb_db s')). m_id r = strip (mm_id m) \<and> m_status r = MAcked)"
proof -
  from assms(5,6) obtain sent s0 ms s1 m where st:
    "send env1 sn rcp pl mid s = (Inr (Some sent), s0)"
    "claim_mail env2 rcp 1 (VFloat (Fin (ao_lease ao))) (Some (mm_id sent)) s0 = (Inr ms, s1)"
    "m \<in> set ms" "run_handler env3 h m s1 = (Inr res, s')"
    by (rule handoff_phases)
  have wf: "mail_wf (mb_db s0)"
    using keepsD [OF keeps_send [OF assms(3,4), of "mb_db s" sn rcp pl mid], of s] st(1) assms(2)
    by (simp add: reached_def)
  obtain lease where l: "positive_duration (VFloat (Fin (ao_lease ao))) = Inr lease"
    using st(2) by (rule claim_phases)
  then have "lease = ao_lease ao" by (auto simp: positive_duration_def split: if_splits)
  with claim_leases [OF assms(1) wf st(2) l st(3)]
  have held: "\<exists>r \<in> set (b_mail (mb_db s1)). leased_by env2 (ao_lease ao) m r" by simp
  from st(4) obtain s2 where h: "h m s1 = (Inr res, s2)"
    and ack: "acknowledge env3 (mm_id m) (case mm_token m of None \<Rightarrow> [] | Some k \<Rightarrow> k) s2 = (Inr (), s')"
    by (auto simp: run_handler_def settle_failure_def sbind_Inr_iff sret_def split: prod.splits sum.splits)
  from ack obtain k x s3 where tx: "mail_transact (ack_tx env3 (strip (mm_id m)) k) s2 = (Inr (), s3)"
    "mail_repair_batch env3 0 s3 = (Inr x, s')"
    by (auto simp: acknowledge_def sbind_Inr_iff slift_def sret_def mail_open_def non_empty_text_def split: if_splits)
  have "mb_db s' = mb_db s3"
    using tx(2) mail_repair_db [of env3 0 "Some DEFAULT_AUDIT_REPAIR_BATCH_SIZE" s3] by (simp add: mail_repair_batch_def)
  with tx(1) have "\<exists>r \<in> set (b_mail (mb_db s')). m_id r = strip (mm_id m) \<and> m_status r = MAcked"
    using ack_tx_marks by (auto simp: mail_transact_def split: sum.splits prod.splits)
  with h held show ?thesis by blast
qed

lemma handoff_settles_witness:
  "\<exists>s' r. handoff (mail_env_at ''a1'' 100) (mail_env_at ''a2'' 101) (mail_env_at ''a3'' 102)
      \<lparr>ao_lease = 60, ao_agents = [(''worker'', \<lambda>m s. (Inr (VInt 7), s))]\<rparr> ''boss'' ''worker'' [] (Some ''m'') empty_mailbox
      = (Inr (VInt 7), s') \<and> r \<in> set (b_mail (mb_db s')) \<and> m_status r = MAcked"
proof -
  let ?ao = "\<lparr>ao_lease = 60, ao_agents = [(''worker'', \<lambda>m s. (Inr (VInt 7), s))]\<rparr>"
  let ?h = "handoff (mail_env_at ''a1'' 100) (mail_env_at ''a2'' 101) (mail_env_at ''a3'' 102) ?ao
     ''boss'' ''worker'' [] (Some ''m'') empty_mailbox"
  have "fst ?h = Inr (VInt 7)" by code_simp
  then have r: "?h = (Inr (VInt 7), snd ?h)" by (simp add: prod_eq_iff)
  have h: "mail_hex (mail_env_at ''a2'' 101)" "mail_hex (mail_env_at ''a1'' 100)" using sample_hex by blast+
  have wf: "mail_wf (mb_db empty_mailbox)" by (simp add: empty_mailbox_db mail_wf_empty)
  have a: "map_of (ao_agents ?ao) ''worker'' = Some (\<lambda>m s. (Inr (VInt 7), s))" by simp
  show ?thesis using handoff_settles [OF h(1) wf refl h(2) a r] r by blast
qed

text \<open>
  A handler that raises gives its message back. While the lease is live and nobody
  else touched the mailbox, the handler's exception is raised again and the message is
  pending, without a token, for the next claim.
\<close>

theorem failing_handler_releases:
  assumes "mail_wf (mb_db s)" and "mb_rowset s = None" and "\<not> mb_closed s"
    and "r \<in> set (b_mail (mb_db s))" and "m_id r = mm_id m" and "mm_token m = Some k"
    and "owns_mail k (me_now env 0) r" and "h m s = (Inl e, s)"
  shows "\<exists>s'. run_handler env h m s = (Inl e, s') \<and> to_pending r \<in> set (b_mail (mb_db s'))"
proof -
  have ok: "mail_ok r" using assms(1,4) by (simp add: mail_wf_def)
  have tok: "m_token r = Some k" using assms(7) by (simp add: owns_mail_def)
  have args: "non_empty_text (mm_id m) = Inr (m_id r)" "non_empty_text k = Inr k"
    using ok tok assms(5) by (auto simp: mail_ok_def non_empty_text_def)
  let ?p = "\<lambda>q. m_id q = m_id r \<and> owns_mail k (me_now env 0) q"
  have "sql_first ?p (b_mail (mb_db s)) \<noteq> None" using assms(4,7) by (auto simp: sql_first_None)
  then obtain q where q: "sql_first ?p (b_mail (mb_db s)) = Some q" by blast
  then have "q = r" using sql_first_Some [OF q] wf_unique [OF assms(1) _ assms(4)] by blast
  obtain db' where db': "record_released env (m_id r) (m_attempts r)
      (upd_mail (m_id r) (owns_mail k (me_now env 0)) to_pending (mb_db s)) = Inr db'"
    using record_attempt_ok(3) by blast
  then have "release_tx env (m_id r) k (mb_db s) = Inr ((), db')"
    using q \<open>q = r\<close> by (simp add: release_tx_def Let_def)
  then have "release env (mm_id m) k s = (Inr (), s\<lparr>mb_db := db'\<rparr>)"
    using args assms(2,3) by (simp add: release_def sbind_def slift_def sret_def mail_open_def ensure_open_def
        mail_transact_def mail_repair_none)
  moreover have "to_pending r \<in> set (b_mail db')"
    using mail_recorders_frame(4) [OF db'] assms(4,7) by (auto simp: in_sql_update)
  ultimately show ?thesis using assms(6,8) by (simp add: run_handler_def settle_failure_def)
qed

lemma failing_handler_releases_witness:
  "\<exists>m r s'. run_handler (mail_env_at ''b'' 205) (\<lambda>m s. (Inl RuntimeError, s)) m (mail_session mail_sample empty_mailbox)
      = (Inl RuntimeError, s') \<and> r \<in> set (b_mail (mb_db s')) \<and> m_status r = MPending"
proof -
  let ?s = "mail_session mail_sample empty_mailbox"
  let ?m = "\<lparr>mm_id = ''m'', mm_sender = ''boss'', mm_recipient = ''worker'', mm_payload = [], mm_status = MLeased,
     mm_attempts = 2, mm_token = Some ''a3f''\<rparr>"
  have wf: "mail_wf (mb_db ?s)"
    using history_inv.session [OF sample_calls(1), of empty_mailbox]
    by (simp add: empty_mailbox_db mail_wf_empty history_empty)
  have st: "mb_rowset ?s = None" "\<not> mb_closed ?s" by code_simp+
  have rows: "map (\<lambda>r. (m_id r, owns_mail ''a3f'' (me_now (mail_env_at ''b'' 205) 0) r)) (b_mail (mb_db ?s)) = [(''m'', True)]"
    by code_simp
  then obtain r where r: "r \<in> set (b_mail (mb_db ?s))" "m_id r = ''m''"
    "owns_mail ''a3f'' (me_now (mail_env_at ''b'' 205) 0) r" by (cases "b_mail (mb_db ?s)") auto
  have id: "m_id r = mm_id ?m" "mm_token ?m = Some ''a3f''" using r(2) by simp_all
  obtain s' where "run_handler (mail_env_at ''b'' 205) (\<lambda>m s. (Inl RuntimeError, s)) ?m ?s = (Inl RuntimeError, s')"
    "to_pending r \<in> set (b_mail (mb_db s'))"
    using failing_handler_releases [OF wf st r(1) id r(3), of "\<lambda>m s. (Inl RuntimeError, s)" RuntimeError] by blast
  then show ?thesis by (intro exI conjI) (assumption, assumption, simp)
qed

end
