(* ===== verification/Operations.thy ===== *)
theory Operations
  imports Mailbox
begin

text \<open>
  The operation journal (\<open>lipas/operations.py\<close>): a key is durably prepared before a
  provider is contacted, settled once, and never rewritten. As in the other stores a method
  is its argument checks, transactions over the database value (the functions named \<open>_tx\<close>)
  and one batch of mirrored audit events.
\<close>

section \<open>Data\<close>

definition TAG_OPERATION_PREPARED :: string where "TAG_OPERATION_PREPARED = ''operation_prepared''"
definition TAG_OPERATION_UNCERTAIN :: string where "TAG_OPERATION_UNCERTAIN = ''operation_uncertain''"
definition TAG_OPERATION_SUCCEEDED :: string where "TAG_OPERATION_SUCCEEDED = ''operation_succeeded''"
definition TAG_OPERATION_FAILED :: string where "TAG_OPERATION_FAILED = ''operation_failed''"
definition OPERATION_SCHEMA_VERSION :: int where "OPERATION_SCHEMA_VERSION = 1"

datatype op_status = OpPending | OpUncertain | OpSucceeded | OpFailed

fun op_status_value :: "op_status \<Rightarrow> string" where
  "op_status_value OpPending = ''pending''"
| "op_status_value OpUncertain = ''uncertain''"
| "op_status_value OpSucceeded = ''succeeded''"
| "op_status_value OpFailed = ''failed''"

text \<open>What the methods return: \<open>Operation\<close>.\<close>

record operation =
  op_key :: string
  op_kind :: string
  op_request :: "(pykey \<times> pyval) list"
  op_state :: op_status
  op_result :: pyval
  op_reference :: "string option"
  op_error :: "(pykey \<times> pyval) list option"
  op_effect :: "string option"
  op_provider_id :: "string option"

text \<open>A row of the table \<open>operations\<close>; JSON columns hold the canonical value of their text.\<close>

record op_row =
  o_key :: string
  o_kind :: string
  o_request :: pyval
  o_state :: op_status
  o_result :: "pyval option"
  o_reference :: "string option"
  o_error :: "pyval option"
  o_effect :: "string option"
  o_provider_id :: "string option"
  o_created :: rat
  o_updated :: rat

record op_db =
  j_ops :: "op_row list"
  j_audit :: "audit_event list"
  j_schema :: "string option"
  j_seeded :: bool

definition empty_op_db :: op_db where
  "empty_op_db = \<lparr>j_ops = [], j_audit = [], j_schema = None, j_seeded = False\<rparr>"

record journal =
  jn_db :: op_db
  jn_rowset :: "rowset option"
  jn_closed :: bool
  jn_cursor :: nat
  jn_mirrored :: "(string \<times> pyval) list option"

text \<open>
  One call's surroundings. Steps of a call that read the clock or mirror events are numbered;
  \<open>oe_other\<close> is what other connections commit between the read and the write of a
  transition; \<open>oe_describe\<close> is the class name and message of an exception.
\<close>

record op_env =
  oe_now :: "nat \<Rightarrow> rat"
  oe_stamp :: "nat \<Rightarrow> rat"
  oe_digest :: "string \<Rightarrow> string"
  oe_merge :: "nat \<Rightarrow> nat \<Rightarrow> string"
  oe_other :: "nat \<Rightarrow> op_db \<Rightarrow> op_db"
  oe_describe :: "exn \<Rightarrow> string \<times> string"

section \<open>Strict JSON and text\<close>

text \<open>
  \<open>_strict_json_copy\<close>: the same shape check as in \<open>events.py\<close>, a dump and a load. A
  \<open>TypeError\<close> of the check passes, every other failure is a \<open>ValueError\<close>.
\<close>

definition journal_json_copy :: "pyval \<Rightarrow> exn + pyval" where
  "journal_json_copy v = ebind (validate_json_shape v) (\<lambda>_.
     case canon v of Inl e \<Rightarrow> Inl (if e = TypeError then TypeError else ValueError) | Inr t \<Rightarrow> Inr t)"

text \<open>\<open>_loads_strict\<close>: a text with a non-finite constant raises.\<close>

definition journal_loads :: "pyval \<Rightarrow> exn + pyval" where
  "journal_loads t = (case canon t of Inl e \<Rightarrow> Inl ValueError | Inr v \<Rightarrow> Inr v)"

definition operation_text :: "string \<Rightarrow> exn + string" where
  "operation_text s = (if strip s = [] then Inl ValueError else Inr (strip s))"

definition optional_text :: "string option \<Rightarrow> exn + string option" where
  "optional_text v = (case v of None \<Rightarrow> Inr None
     | Some s \<Rightarrow> if strip s = [] then Inl ValueError else Inr (Some (strip s)))"

section \<open>Reading\<close>

definition loads_opt :: "pyval option \<Rightarrow> exn + pyval option" where
  "loads_opt t = (case t of None \<Rightarrow> Inr None | Some x \<Rightarrow> ebind (journal_loads x) (\<lambda>v. Inr (Some v)))"

fun mapping_or :: "exn \<Rightarrow> pyval \<Rightarrow> exn + (pykey \<times> pyval) list" where
  "mapping_or e (VDict d) = Inr d"
| "mapping_or e v = Inl e"

definition operation_of_row :: "op_row \<Rightarrow> exn + operation" where
  "operation_of_row r =
     ebind (journal_loads (o_request r)) (\<lambda>request.
     ebind (mapping_or OperationStateError request) (\<lambda>request.
     ebind (loads_opt (o_result r)) (\<lambda>result.
     ebind (loads_opt (o_error r)) (\<lambda>error.
     ebind (case error of None \<Rightarrow> Inr None
            | Some v \<Rightarrow> if v = VNone then Inr None
                else ebind (mapping_or OperationStateError v) (\<lambda>d. Inr (Some d))) (\<lambda>error.
     Inr \<lparr>op_key = o_key r, op_kind = o_kind r, op_request = request, op_state = o_state r,
        op_result = (case result of None \<Rightarrow> VNone | Some v \<Rightarrow> v), op_reference = o_reference r,
        op_error = error, op_effect = o_effect r, op_provider_id = o_provider_id r\<rparr>)))))"

definition get_operation :: "string \<Rightarrow> op_db \<Rightarrow> exn + operation option" where
  "get_operation key db = ebind (operation_text key) (\<lambda>k.
     case sql_first (\<lambda>r. o_key r = k) (j_ops db) of
       None \<Rightarrow> Inr None
     | Some r \<Rightarrow> ebind (operation_of_row r) (\<lambda>m. Inr (Some m)))"

section \<open>The audit outbox\<close>

definition op_audit_id :: "op_env \<Rightarrow> string \<Rightarrow> string \<Rightarrow> string" where
  "op_audit_id env key tg =
     ''operation_audit_'' @ oe_digest env (''operation'' @ [NUL] @ key @ [NUL] @ tg)"

fun op_text :: "string option \<Rightarrow> pyval" where
  "op_text None = VNone"
| "op_text (Some s) = VStr s"

definition op_audit_fields :: "operation \<Rightarrow> fieldmap" where
  "op_audit_fields op =
     [(''operation_key'', VStr (op_key op)), (''operation_kind'', VStr (op_kind op)),
      (''state'', VStr (op_status_value (op_state op))), (''effect_id'', op_text (op_effect op)),
      (''provider_request_id'', op_text (op_provider_id op)),
      (''provider_reference'', op_text (op_reference op)),
      (''error'', case op_error op of None \<Rightarrow> VNone | Some d \<Rightarrow> VDict d)]"

text \<open>\<open>_record_audit_event\<close>: \<open>INSERT OR IGNORE\<close>, so a known id keeps its first event.\<close>

definition record_op_event :: "op_env \<Rightarrow> string \<Rightarrow> operation \<Rightarrow> fieldmap \<Rightarrow> op_db \<Rightarrow> exn + op_db" where
  "record_op_event env tg op extra db =
     ebind (canon (vobj (dict_update (op_audit_fields op) extra))) (\<lambda>text.
       if op_audit_id env (op_key op) tg \<in> ev_id ` set (j_audit db) then Inr db
       else Inr (db\<lparr>j_audit := j_audit db @
         [\<lparr>ev_id = op_audit_id env (op_key op) tg, ev_tag = tg, ev_fields = text,
           ev_at = oe_stamp env (length (j_audit db))\<rparr>]\<rparr>))"

fun state_tag :: "op_status \<Rightarrow> string" where
  "state_tag OpPending = TAG_OPERATION_PREPARED"
| "state_tag OpUncertain = TAG_OPERATION_UNCERTAIN"
| "state_tag OpSucceeded = TAG_OPERATION_SUCCEEDED"
| "state_tag OpFailed = TAG_OPERATION_FAILED"

section \<open>Transactions\<close>

definition new_operation :: "string \<Rightarrow> string \<Rightarrow> (pykey \<times> pyval) list \<Rightarrow> string option \<Rightarrow> string \<Rightarrow> operation" where
  "new_operation key knd request effect pid = \<lparr>op_key = key, op_kind = knd, op_request = request,
     op_state = OpPending, op_result = VNone, op_reference = None, op_error = None,
     op_effect = effect, op_provider_id = Some pid\<rparr>"

definition new_op_row :: "string \<Rightarrow> string \<Rightarrow> (pykey \<times> pyval) list \<Rightarrow> string option \<Rightarrow> string \<Rightarrow> rat \<Rightarrow> op_row" where
  "new_op_row key knd request effect pid now = \<lparr>o_key = key, o_kind = knd,
     o_request = VDict request, o_state = OpPending, o_result = None, o_reference = None,
     o_error = None, o_effect = effect, o_provider_id = Some pid, o_created = now, o_updated = now\<rparr>"

definition prepare_tx ::
  "op_env \<Rightarrow> string \<Rightarrow> string \<Rightarrow> (pykey \<times> pyval) list \<Rightarrow> string option \<Rightarrow> string \<Rightarrow> op_db \<Rightarrow> exn + unit \<times> op_db" where
  "prepare_tx env key knd request effect pid db =
     (if \<exists>r \<in> set (j_ops db). o_provider_id r = Some pid \<and> o_key r \<noteq> key then Inl ValueError
      else if key \<in> o_key ` set (j_ops db) then Inl IntegrityError
      else ebind (record_op_event env TAG_OPERATION_PREPARED (new_operation key knd request effect pid) []
            (db\<lparr>j_ops := j_ops db @ [new_op_row key knd request effect pid (oe_now env 0)]\<rparr>))
        (\<lambda>db'. Inr ((), db')))"

fun allowed_from :: "op_status \<Rightarrow> op_status \<Rightarrow> bool" where
  "allowed_from OpUncertain st = (st = OpPending)"
| "allowed_from _ st = (st = OpPending \<or> st = OpUncertain)"

definition nullable_json :: "pyval \<Rightarrow> pyval option" where
  "nullable_json v = (if v = VNone then None else Some v)"

definition settle_row ::
  "op_status \<Rightarrow> pyval \<Rightarrow> string option \<Rightarrow> (pykey \<times> pyval) list option \<Rightarrow> rat \<Rightarrow> op_row \<Rightarrow> op_row" where
  "settle_row st result ref error now r = r\<lparr>o_state := st, o_result := nullable_json result,
     o_reference := ref, o_error := map_option VDict error, o_updated := now\<rparr>"

text \<open>The conditional update; the flag tells whether its \<open>rowcount\<close> was one.\<close>

definition transition_tx ::
  "op_env \<Rightarrow> nat \<Rightarrow> operation \<Rightarrow> op_status \<Rightarrow> pyval \<Rightarrow> string option \<Rightarrow> (pykey \<times> pyval) list option
    \<Rightarrow> fieldmap \<Rightarrow> op_db \<Rightarrow> exn + bool \<times> op_db" where
  "transition_tx env i current st result ref error extra db =
     (let mine = (\<lambda>r. o_key r = op_key current \<and> allowed_from st (o_state r)) in
      if sql_count mine (j_ops db) \<noteq> 1 then Inr (False, db)
      else ebind (record_op_event env (state_tag st)
            (current\<lparr>op_state := st, op_result := result, op_reference := ref, op_error := error\<rparr>) extra
            (db\<lparr>j_ops := sql_update mine (settle_row st result ref error (oe_now env i)) (j_ops db)\<rparr>))
        (\<lambda>db'. Inr (True, db')))"

section \<open>Legacy seed and opening\<close>

definition seed_operation :: "op_env \<Rightarrow> op_db \<Rightarrow> op_row \<Rightarrow> exn + op_db" where
  "seed_operation env db r =
     ebind (get_operation (o_key r) db) (\<lambda>res. case res of
         None \<Rightarrow> Inl AssertionError
       | Some op \<Rightarrow>
         ebind (record_op_event env TAG_OPERATION_PREPARED
           (op\<lparr>op_state := OpPending, op_result := VNone, op_reference := None, op_error := None\<rparr>) [] db) (\<lambda>db1.
         if op_state op = OpPending then Inr db1
         else record_op_event env (state_tag (op_state op)) op [] db1))"

definition op_order :: "op_row \<Rightarrow> op_row \<Rightarrow> bool" where
  "op_order a b \<longleftrightarrow> o_created a < o_created b \<or> (o_created a = o_created b \<and> o_key a \<le> o_key b)"

definition seed_op_events_once :: "op_env \<Rightarrow> op_db \<Rightarrow> exn + unit \<times> op_db" where
  "seed_op_events_once env db =
     (if j_seeded db then Inr ((), db)
      else ebind (efoldl (seed_operation env) db (sql_order op_order (j_ops db)))
        (\<lambda>db'. Inr ((), db'\<lparr>j_seeded := True\<rparr>)))"

text \<open>The stamp is checked, then rows without a provider identity take their key.\<close>

definition init_op_schema :: "op_db \<Rightarrow> exn + op_db" where
  "init_op_schema db =
     (let stamped = (case j_schema db of None \<Rightarrow> str_int OPERATION_SCHEMA_VERSION | Some v \<Rightarrow> v) in
      case py_int_text stamped of
        None \<Rightarrow> Inl OperationSchemaVersionMismatch
      | Some v \<Rightarrow> if v \<noteq> OPERATION_SCHEMA_VERSION then Inl OperationSchemaVersionMismatch
          else Inr (db\<lparr>j_schema := Some stamped,
            j_ops := sql_update (\<lambda>r. o_provider_id r = None) (\<lambda>r. r\<lparr>o_provider_id := Some (o_key r)\<rparr>) (j_ops db)\<rparr>))"

section \<open>Mirroring\<close>

definition journal_payloads :: "rowset \<Rightarrow> exn + (string \<times> pyval) list" where
  "journal_payloads rs = ebind
     (emap claim_signature (store_filter None None (Some ''operations.journal'') (rs_store rs)))
     (\<lambda>sigs. Inr (List.map_filter id sigs))"

fun op_repair_loop :: "(nat \<Rightarrow> string) \<Rightarrow> nat \<Rightarrow> (nat \<times> audit_event) list \<Rightarrow> rowset
    \<Rightarrow> (string \<times> pyval) list \<Rightarrow> nat \<Rightarrow> nat \<Rightarrow> (exn + nat) \<times> rowset \<times> (string \<times> pyval) list \<times> nat" where
  "op_repair_loop ids n [] rs sigs cursor repaired = (Inr repaired, rs, sigs, cursor)"
| "op_repair_loop ids n ((rowid, e) # rest) rs sigs cursor repaired =
     (case journal_loads (ev_fields e) of
        Inl x \<Rightarrow> (Inl x, rs, sigs, cursor)
      | Inr v \<Rightarrow> (case v of
          VDict d \<Rightarrow> (case str_keys d of
              None \<Rightarrow> (Inl TypeError, rs, sigs, cursor)
            | Some fs \<Rightarrow>
              if \<not> claim_known (ev_id e) rs \<and> (ev_tag e, ev_fields e) \<in> set sigs
              then op_repair_loop ids n rest rs sigs rowid repaired
              else (case rowset_fold (ids n) (mirror_claim ''operations.journal'' e fs) rs of
                  (Inl x, rs') \<Rightarrow> (Inl x, rs', sigs, cursor)
                | (Inr m, rs') \<Rightarrow>
                    if claim_known (ev_id e) rs
                    then op_repair_loop ids (Suc n) rest rs' sigs rowid repaired
                    else op_repair_loop ids (Suc n) rest rs' ((ev_tag e, ev_fields e) # sigs) rowid (Suc repaired)))
        | _ \<Rightarrow> (Inl TypeError, rs, sigs, cursor)))"

definition journal_outbox_after :: "nat \<Rightarrow> op_db \<Rightarrow> (nat \<times> audit_event) list" where
  "journal_outbox_after cursor db = filter (\<lambda>(rowid, e). cursor < rowid)
     (zip [1..<Suc (length (j_audit db))] (j_audit db))"

definition journal_open :: "journal \<Rightarrow> (exn + unit) \<times> journal" where
  "journal_open s = ((if jn_closed s then Inl RuntimeError else Inr ()), s)"

definition op_repair_audit :: "op_env \<Rightarrow> nat \<Rightarrow> int option \<Rightarrow> journal \<Rightarrow> (exn + nat) \<times> journal" where
  "op_repair_audit env pass batch = sbind journal_open (\<lambda>_ s.
     (case jn_rowset s of
       None \<Rightarrow> (Inr 0, s)
     | Some rs \<Rightarrow>
        if (case batch of None \<Rightarrow> False | Some n \<Rightarrow> n < 1 \<or> MAX_SQLITE_INT < n)
        then (Inl (if the batch < 1 then ValueError else OverflowError), s)
        else
          let found = journal_outbox_after (jn_cursor s) (jn_db s);
              events = (case batch of None \<Rightarrow> found | Some n \<Rightarrow> take (nat n) found)
          in if events = [] then (Inr 0, s)
             else (case (case jn_mirrored s of Some sigs \<Rightarrow> Inr sigs | None \<Rightarrow> journal_payloads rs) of
                 Inl e \<Rightarrow> (Inl e, s)
               | Inr sigs \<Rightarrow> (case op_repair_loop (oe_merge env pass) 0 events rs sigs (jn_cursor s) 0 of
                   (res, rs', sigs', cursor) \<Rightarrow>
                     (res, s\<lparr>jn_rowset := Some rs', jn_cursor := cursor, jn_mirrored := Some sigs'\<rparr>)))))"

definition op_repair_batch :: "op_env \<Rightarrow> nat \<Rightarrow> journal \<Rightarrow> (exn + nat) \<times> journal" where
  "op_repair_batch env pass = op_repair_audit env pass (Some DEFAULT_AUDIT_REPAIR_BATCH_SIZE)"

end
