(* ===== verification/OperationsApi.thy ===== *)
theory OperationsApi
  imports Operations
begin

text \<open>
  The public methods of the operation journal and sessions of calls. \<open>execute\<close> is split at
  the provider call, so that a session can interleave what other workers do while a
  provider runs.
\<close>

section \<open>Preparing and settling\<close>

definition journal_transact :: "(op_db \<Rightarrow> exn + 'a \<times> op_db) \<Rightarrow> journal \<Rightarrow> (exn + 'a) \<times> journal" where
  "journal_transact tx s = (case tx (jn_db s) of
      Inl e \<Rightarrow> (Inl e, s)
    | Inr (x, db) \<Rightarrow> (Inr x, s\<lparr>jn_db := db\<rparr>))"

definition journal_get :: "string \<Rightarrow> journal \<Rightarrow> (exn + operation option) \<times> journal" where
  "journal_get key = sbind journal_open (\<lambda>_ s. (get_operation key (jn_db s), s))"

text \<open>The provider identity a request carries in itself.\<close>

definition embedded_id :: "(pykey \<times> pyval) list \<Rightarrow> exn + string option" where
  "embedded_id request = (case dict_get VNone request (KStr ''provider_request_id'') of
      VNone \<Rightarrow> Inr None
    | VStr s \<Rightarrow> if strip s = [] then Inl ValueError else Inr (Some (strip s))
    | _ \<Rightarrow> Inl ValueError)"

definition resolve_provider_id :: "string \<Rightarrow> string option \<Rightarrow> string option \<Rightarrow> exn + string" where
  "resolve_provider_id key given embedded = (case (given, embedded) of
      (Some a, Some b) \<Rightarrow> if a \<noteq> b then Inl ValueError else Inr a
    | (Some a, None) \<Rightarrow> Inr a
    | (None, Some b) \<Rightarrow> Inr b
    | (None, None) \<Rightarrow> Inr key)"

definition canonical_request ::
  "(pykey \<times> pyval) list \<Rightarrow> string option \<Rightarrow> exn + (pykey \<times> pyval) list" where
  "canonical_request request embedded = ebind
     (journal_json_copy (VDict (case embedded of None \<Rightarrow> request
        | Some s \<Rightarrow> dict_put (KStr ''provider_request_id'') (VStr s) request)))
     (mapping_or ValueError)"

definition same_operation :: "operation \<Rightarrow> string \<Rightarrow> (pykey \<times> pyval) list \<Rightarrow> string option \<Rightarrow> string \<Rightarrow> bool" where
  "same_operation op knd request effect pid \<longleftrightarrow> op_kind op = knd
     \<and> py_eq (VDict (op_request op)) (VDict request)
     \<and> (effect = None \<or> op_effect op = effect) \<and> op_provider_id op = Some pid"

text \<open>The insertion; a key that is already stored makes the call a replay of that operation.\<close>

definition prepare_row ::
  "op_env \<Rightarrow> string \<Rightarrow> string \<Rightarrow> (pykey \<times> pyval) list \<Rightarrow> string option \<Rightarrow> string \<Rightarrow> journal
    \<Rightarrow> (exn + operation \<times> bool) \<times> journal" where
  "prepare_row env key knd request effect pid =
     stry (journal_transact (prepare_tx env key knd request effect pid))
       (\<lambda>e. if e \<noteq> IntegrityError then slift (Inl e)
          else sbind (journal_get key) (\<lambda>res. case res of
              None \<Rightarrow> slift (Inl AssertionError)
            | Some op \<Rightarrow> if \<not> same_operation op knd request effect pid then slift (Inl ValueError)
                else sbind (op_repair_batch env 0) (\<lambda>_. sret (op, False))))
       (\<lambda>_. sbind (journal_get key) (\<lambda>res. case res of
            None \<Rightarrow> slift (Inl AssertionError)
          | Some op \<Rightarrow> sbind (op_repair_batch env 0) (\<lambda>_. sret (op, True))))"

definition prepare_owned ::
  "op_env \<Rightarrow> string \<Rightarrow> string \<Rightarrow> (pykey \<times> pyval) list \<Rightarrow> string option \<Rightarrow> string option \<Rightarrow> journal
    \<Rightarrow> (exn + operation \<times> bool) \<times> journal" where
  "prepare_owned env key knd request effect pid =
     sbind journal_open (\<lambda>_.
     sbind (slift (operation_text key)) (\<lambda>key.
     sbind (slift (operation_text knd)) (\<lambda>knd.
     sbind (slift (optional_text effect)) (\<lambda>effect.
     sbind (slift (optional_text pid)) (\<lambda>pid.
     sbind (slift (embedded_id request)) (\<lambda>embedded.
     sbind (slift (resolve_provider_id key pid embedded)) (\<lambda>pid.
     sbind (slift (canonical_request request embedded)) (\<lambda>request.
     prepare_row env key knd request effect pid))))))))"

definition prepare_operation ::
  "op_env \<Rightarrow> string \<Rightarrow> string \<Rightarrow> (pykey \<times> pyval) list \<Rightarrow> string option \<Rightarrow> string option \<Rightarrow> journal
    \<Rightarrow> (exn + operation) \<times> journal" where
  "prepare_operation env key knd request effect pid =
     sbind (prepare_owned env key knd request effect pid) (\<lambda>r. sret (fst r))"

definition terminal :: "op_status \<Rightarrow> bool" where
  "terminal st \<longleftrightarrow> st = OpSucceeded \<or> st = OpFailed"

fun py_eq_opt :: "(pykey \<times> pyval) list option \<Rightarrow> (pykey \<times> pyval) list option \<Rightarrow> bool" where
  "py_eq_opt None None = True"
| "py_eq_opt (Some a) (Some b) = py_eq (VDict a) (VDict b)"
| "py_eq_opt _ _ = False"

definition same_outcome ::
  "operation \<Rightarrow> op_status \<Rightarrow> pyval \<Rightarrow> string option \<Rightarrow> (pykey \<times> pyval) list option \<Rightarrow> bool" where
  "same_outcome op st result ref error \<longleftrightarrow> op_state op = st \<and> py_eq (op_result op) result
     \<and> op_reference op = ref \<and> py_eq_opt (op_error op) error"

definition error_copy :: "(pykey \<times> pyval) list option \<Rightarrow> exn + (pykey \<times> pyval) list option" where
  "error_copy error = (case error of None \<Rightarrow> Inr None
     | Some d \<Rightarrow> ebind (journal_json_copy (VDict d)) (\<lambda>v. ebind (mapping_or ValueError v) (\<lambda>d. Inr (Some d))))"

text \<open>What other connections commit after the row was read and before it is updated.\<close>

definition others :: "op_env \<Rightarrow> nat \<Rightarrow> journal \<Rightarrow> (exn + unit) \<times> journal" where
  "others env i s = (Inr (), s\<lparr>jn_db := oe_other env i (jn_db s)\<rparr>)"

definition commit_transition ::
  "op_env \<Rightarrow> nat \<Rightarrow> operation \<Rightarrow> op_status \<Rightarrow> pyval \<Rightarrow> string option \<Rightarrow> (pykey \<times> pyval) list option
    \<Rightarrow> fieldmap \<Rightarrow> journal \<Rightarrow> (exn + operation) \<times> journal" where
  "commit_transition env i current st result ref error extra =
     sbind (others env i) (\<lambda>_.
     sbind (journal_transact (transition_tx env i current st result ref error extra)) (\<lambda>mine.
     sbind (journal_get (op_key current)) (\<lambda>res. case res of
         None \<Rightarrow> slift (Inl AssertionError)
       | Some latest \<Rightarrow>
           if \<not> mine \<and> \<not> same_outcome latest st result ref error then slift (Inl OperationStateError)
           else sbind (op_repair_batch env i) (\<lambda>_. sret latest))))"

definition transition ::
  "op_env \<Rightarrow> nat \<Rightarrow> string \<Rightarrow> op_status \<Rightarrow> pyval \<Rightarrow> string option \<Rightarrow> (pykey \<times> pyval) list option
    \<Rightarrow> fieldmap \<Rightarrow> journal \<Rightarrow> (exn + operation) \<times> journal" where
  "transition env i key st result ref error extra =
     sbind (slift (operation_text key)) (\<lambda>key.
     sbind (slift (guard_or ValueError (st \<noteq> OpPending))) (\<lambda>_.
     sbind (slift (optional_text ref)) (\<lambda>ref.
     sbind (journal_get key) (\<lambda>res. case res of
         None \<Rightarrow> slift (Inl KeyError)
       | Some current \<Rightarrow>
           sbind (slift (error_copy error)) (\<lambda>error.
           sbind (slift (journal_json_copy result)) (\<lambda>result.
           if same_outcome current st result ref error
           then sbind (op_repair_batch env i) (\<lambda>_. sret current)
           else if terminal (op_state current) then slift (Inl OperationStateError)
           else if \<not> allowed_from st (op_state current) then slift (Inl OperationStateError)
           else commit_transition env i current st result ref error extra))))))"

definition settle :: "op_env \<Rightarrow> nat \<Rightarrow> string \<Rightarrow> pyval \<Rightarrow> string option \<Rightarrow> journal \<Rightarrow> (exn + operation) \<times> journal" where
  "settle env i key result ref = transition env i key OpSucceeded result ref None []"

definition fail_operation :: "op_env \<Rightarrow> nat \<Rightarrow> string \<Rightarrow> (pykey \<times> pyval) list \<Rightarrow> journal \<Rightarrow> (exn + operation) \<times> journal" where
  "fail_operation env i key error = transition env i key OpFailed VNone None (Some error) []"

definition mark_uncertain ::
  "op_env \<Rightarrow> nat \<Rightarrow> string \<Rightarrow> (pykey \<times> pyval) list option \<Rightarrow> journal \<Rightarrow> (exn + operation) \<times> journal" where
  "mark_uncertain env i key error = transition env i key OpUncertain VNone None error []"

section \<open>Execution\<close>

text \<open>
  What \<open>execute\<close> decides before the provider call: hand back a settled operation, or submit
  (with the key the provider gets); a replayed key that is not settled raises.
\<close>

datatype submission = Settled operation | Submit

definition begin_execute ::
  "op_env \<Rightarrow> string \<Rightarrow> string \<Rightarrow> (pykey \<times> pyval) list \<Rightarrow> string option \<Rightarrow> string option \<Rightarrow> journal
    \<Rightarrow> (exn + submission) \<times> journal" where
  "begin_execute env key knd request effect pid =
     sbind (prepare_owned env key knd request effect pid) (\<lambda>r. case r of (op, owns) \<Rightarrow>
       if op_state op = OpSucceeded then sret (Settled op)
       else if \<not> owns \<and> op_state op = OpFailed then slift (Inl PendingOperation)
       else if \<not> owns \<and> (op_state op = OpPending \<or> op_state op = OpUncertain) then slift (Inl PendingOperation)
       else sret Submit)"

definition diagnostic :: "op_env \<Rightarrow> exn \<Rightarrow> (pykey \<times> pyval) list" where
  "diagnostic env e = [(KStr ''type'', VStr (fst (oe_describe env e))),
     (KStr ''message'', VStr (snd (oe_describe env e)))]"

definition mark_uncertain_after_submission :: "op_env \<Rightarrow> nat \<Rightarrow> string \<Rightarrow> exn \<Rightarrow> journal \<Rightarrow> (exn + unit) \<times> journal" where
  "mark_uncertain_after_submission env i key e =
     sbind (journal_get key) (\<lambda>res. case res of
         None \<Rightarrow> sret ()
       | Some current \<Rightarrow>
           if op_state current \<noteq> OpPending then sret ()
           else stry (mark_uncertain env i key (Some (diagnostic env e)))
             (\<lambda>e'. if e' = OperationStateError then sret ()
               else sbind (journal_get key) (\<lambda>latest. case latest of
                   None \<Rightarrow> slift (Inl e')
                 | Some l \<Rightarrow> if op_state l \<noteq> OpUncertain then slift (Inl e') else sret ()))
             (\<lambda>_. sret ()))"

text \<open>
  What follows the provider call: settle its result, and turn any exception (of the
  provider, of the reference extraction, of settling) into uncertainty before it is raised
  again. \<open>outcome\<close> is what the provider returned or raised.
\<close>

definition end_execute ::
  "op_env \<Rightarrow> string \<Rightarrow> exn + pyval \<Rightarrow> (pyval \<Rightarrow> exn + string option) \<Rightarrow> journal \<Rightarrow> (exn + operation) \<times> journal" where
  "end_execute env key outcome reference =
     stry (sbind (slift outcome) (\<lambda>result. sbind (slift (reference result)) (\<lambda>ref.
          settle env 1 key result ref)))
       (\<lambda>e. sbind (mark_uncertain_after_submission env 2 key e) (\<lambda>_. slift (Inl e)))
       sret"

text \<open>\<open>busy\<close> is what other workers do to the journal while the provider runs.\<close>

definition execute ::
  "op_env \<Rightarrow> string \<Rightarrow> string \<Rightarrow> (pykey \<times> pyval) list \<Rightarrow> (string \<Rightarrow> exn + pyval)
    \<Rightarrow> (pyval \<Rightarrow> exn + string option) \<Rightarrow> string option \<Rightarrow> string option \<Rightarrow> (journal \<Rightarrow> journal)
    \<Rightarrow> journal \<Rightarrow> (exn + operation) \<times> journal" where
  "execute env key knd request provider reference effect pid busy =
     sbind (begin_execute env key knd request effect pid) (\<lambda>sub. case sub of
         Settled op \<Rightarrow> sret op
       | Submit \<Rightarrow> (\<lambda>s. end_execute env key (provider key) reference (busy s)))"

section \<open>Reconciliation\<close>

definition pending_operations :: "journal \<Rightarrow> (exn + operation list) \<times> journal" where
  "pending_operations = sbind journal_open (\<lambda>_ s.
     (ebind (emap (\<lambda>r. get_operation (o_key r) (jn_db s))
        (sql_order op_order (filter (\<lambda>r. \<not> terminal (o_state r)) (j_ops (jn_db s)))))
       (\<lambda>ops. Inr (List.map_filter id ops)), s))"

text \<open>What a provider lookup answers: whether the operation was found, its result and reference.\<close>

type_synonym finding = "pyval \<times> pyval \<times> string option"

definition checked_finding :: "exn + finding \<Rightarrow> exn + bool \<times> pyval \<times> string option" where
  "checked_finding answer = ebind answer (\<lambda>(found, result, ref). case found of
      VBool b \<Rightarrow> Inr (b, result, ref)
    | _ \<Rightarrow> Inl ValueError)"

definition not_found_error :: "(pykey \<times> pyval) list" where
  "not_found_error = [(KStr ''type'', VStr ''provider_not_found''),
     (KStr ''message'', VStr ''reconciliation found no provider operation'')]"

definition reconcile_diagnostic :: "op_env \<Rightarrow> exn \<Rightarrow> (pykey \<times> pyval) list" where
  "reconcile_diagnostic env e = diagnostic env e @ [(KStr ''phase'', VStr ''reconcile'')]"

definition observation_fields :: "string option \<Rightarrow> fieldmap" where
  "observation_fields observation = (case observation of None \<Rightarrow> []
     | Some o' \<Rightarrow> [(''reconciliation_observation'', VStr o')])"

definition reconcile ::
  "op_env \<Rightarrow> string \<Rightarrow> (string \<Rightarrow> exn + finding) \<Rightarrow> string option \<Rightarrow> journal \<Rightarrow> (exn + operation) \<times> journal" where
  "reconcile env key lookup observation =
     sbind journal_open (\<lambda>_.
     sbind (slift (operation_text key)) (\<lambda>key.
     sbind (slift (optional_text observation)) (\<lambda>_.
     sbind (journal_get key) (\<lambda>res. case res of
         None \<Rightarrow> slift (Inl KeyError)
       | Some op \<Rightarrow>
           if terminal (op_state op) then sbind (op_repair_batch env 0) (\<lambda>_. sret op)
           else (case checked_finding (lookup key) of
               Inl e \<Rightarrow> stry (mark_uncertain env 0 key (Some (reconcile_diagnostic env e)))
                 (\<lambda>e'. slift (Inl (if e' = OperationStateError then e else e')))
                 (\<lambda>_. slift (Inl e))
             | Inr (found, result, ref) \<Rightarrow>
                 if found then transition env 0 key OpSucceeded result ref None (observation_fields observation)
                 else transition env 0 key OpFailed VNone None (Some not_found_error)
                   (observation_fields observation))))))"

text \<open>
  One key of a sweep. \<open>Some op\<close> is the operation appended to the result, \<open>None\<close> a key
  that another worker settled in the meantime. Interrupts are raised again, after the
  uncertainty is stored; every other exception is absorbed.
\<close>

definition reconcile_key ::
  "op_env \<Rightarrow> nat \<Rightarrow> (operation \<Rightarrow> exn + finding) \<Rightarrow> bool \<Rightarrow> string \<Rightarrow> journal
    \<Rightarrow> (exn + operation option) \<times> journal" where
  "reconcile_key env i lookup include_pending key =
     sbind (journal_get key) (\<lambda>res. case res of
         None \<Rightarrow> sret None
       | Some op \<Rightarrow>
           if terminal (op_state op) \<or> (op_state op = OpPending \<and> \<not> include_pending) then sret None
           else stry (sbind (slift (checked_finding (lookup op))) (\<lambda>(found, result, ref).
                   if found then settle env (2 * i) key result ref
                   else fail_operation env (2 * i) key not_found_error))
             (\<lambda>e. sbind (stry (mark_uncertain env (2 * i + 1) key (Some (reconcile_diagnostic env e)))
                     (\<lambda>e'. if e' \<noteq> OperationStateError then slift (Inl e')
                       else sbind (journal_get key) (\<lambda>latest. case latest of
                           None \<Rightarrow> slift (Inl e')
                         | Some l \<Rightarrow> sret l))
                     sret)
                   (\<lambda>current. if e = Interrupt then slift (Inl e) else sret (Some current)))
             (\<lambda>current. sret (Some current)))"

fun reconcile_keys ::
  "op_env \<Rightarrow> nat \<Rightarrow> (operation \<Rightarrow> exn + finding) \<Rightarrow> bool \<Rightarrow> string list \<Rightarrow> journal
    \<Rightarrow> (exn + operation list) \<times> journal" where
  "reconcile_keys env i lookup inc [] = sret []"
| "reconcile_keys env i lookup inc (key # keys) =
     sbind (reconcile_key env i lookup inc key) (\<lambda>c.
     sbind (reconcile_keys env (Suc i) lookup inc keys) (\<lambda>cs.
     sret (case c of None \<Rightarrow> cs | Some op \<Rightarrow> op # cs)))"

definition recoverable_keys :: "bool \<Rightarrow> op_db \<Rightarrow> string list" where
  "recoverable_keys include_pending db = map o_key (sql_order op_order
     (filter (\<lambda>r. o_state r = OpUncertain \<or> (include_pending \<and> o_state r = OpPending)) (j_ops db)))"

definition reconcile_pending ::
  "op_env \<Rightarrow> (operation \<Rightarrow> exn + finding) \<Rightarrow> bool \<Rightarrow> journal \<Rightarrow> (exn + operation list) \<times> journal" where
  "reconcile_pending env lookup include_pending =
     sbind journal_open (\<lambda>_ s.
       reconcile_keys env 0 lookup include_pending (recoverable_keys include_pending (jn_db s)) s)"

section \<open>Opening and sessions\<close>

definition close_journal :: "journal \<Rightarrow> journal" where
  "close_journal s = s\<lparr>jn_closed := True\<rparr>"

definition open_journal :: "op_env \<Rightarrow> op_db \<Rightarrow> rowset option \<Rightarrow> (exn + journal) \<times> op_db" where
  "open_journal env db rs = (case init_op_schema db of
      Inl e \<Rightarrow> (Inl e, db)
    | Inr db1 \<Rightarrow>
        let s = \<lparr>jn_db = db1, jn_rowset = rs, jn_closed = False, jn_cursor = 0, jn_mirrored = None\<rparr> in
        (case sbind (journal_transact (seed_op_events_once env)) (\<lambda>_. op_repair_batch env 0) s of
           (Inl e, s') \<Rightarrow> (Inl e, jn_db s')
         | (Inr n, s') \<Rightarrow> (Inr s', jn_db s')))"

text \<open>
  Calls in the order they take effect; an \<open>execute\<close> is a \<open>Begin\<close> and, when that submits, a
  \<open>Finish\<close> with what the provider returned or raised, with the calls of other workers
  in between.
\<close>

datatype op_call =
    Prepare string string "(pykey \<times> pyval) list" "string option" "string option"
  | Begin string string "(pykey \<times> pyval) list" "string option" "string option"
  | Finish string "exn + pyval" "pyval \<Rightarrow> exn + string option"
  | Settle string pyval "string option"
  | Fail string "(pykey \<times> pyval) list"
  | MarkUncertain string "(pykey \<times> pyval) list option"
  | Reconcile string "string \<Rightarrow> exn + finding" "string option"
  | ReconcilePending "operation \<Rightarrow> exn + finding" bool
  | RepairJournal "int option"
  | CloseJournal

definition op_step :: "op_env \<Rightarrow> op_call \<Rightarrow> journal \<Rightarrow> journal" where
  "op_step env c s = (case c of
      Prepare key knd request effect pid \<Rightarrow> snd (prepare_operation env key knd request effect pid s)
    | Begin key knd request effect pid \<Rightarrow> snd (begin_execute env key knd request effect pid s)
    | Finish key outcome reference \<Rightarrow> snd (end_execute env key outcome reference s)
    | Settle key result ref \<Rightarrow> snd (settle env 0 key result ref s)
    | Fail key error \<Rightarrow> snd (fail_operation env 0 key error s)
    | MarkUncertain key error \<Rightarrow> snd (mark_uncertain env 0 key error s)
    | Reconcile key lookup observation \<Rightarrow> snd (reconcile env key lookup observation s)
    | ReconcilePending lookup inc \<Rightarrow> snd (reconcile_pending env lookup inc s)
    | RepairJournal batch \<Rightarrow> snd (op_repair_audit env 0 batch s)
    | CloseJournal \<Rightarrow> close_journal s)"

definition op_session :: "(op_env \<times> op_call) list \<Rightarrow> journal \<Rightarrow> journal" where
  "op_session calls s = foldl (\<lambda>s (env, c). op_step env c s) s calls"

text \<open>The operation a call hands to its provider, if it does.\<close>

definition submits :: "op_env \<Rightarrow> op_call \<Rightarrow> journal \<Rightarrow> string option" where
  "submits env c s = (case c of
      Begin key knd request effect pid \<Rightarrow>
        (if fst (begin_execute env key knd request effect pid s) = Inr Submit then Some (strip key) else None)
    | _ \<Rightarrow> None)"

fun submissions :: "(op_env \<times> op_call) list \<Rightarrow> journal \<Rightarrow> string list" where
  "submissions [] s = []"
| "submissions ((env, c) # calls) s =
     (case submits env c s of None \<Rightarrow> [] | Some k \<Rightarrow> [k]) @ submissions calls (op_step env c s)"

end
