(* ===== verification/OperationsInv.thy ===== *)
theory OperationsInv
  imports OperationsApi
begin

text \<open>
  The operation journal (\<open>lipas/operations.py\<close>) as a transition system: an operation is
  inserted once, and settled by a conditional update. Every public call is a sequence of
  these moves, whatever it returns or raises and whatever other connections commit
  meanwhile; the locale \<open>op_invariant\<close> turns an invariant of moves into one of sessions.
\<close>

section \<open>Well-formed journals\<close>

definition op_row_ok :: "op_row \<Rightarrow> bool" where
  "op_row_ok r \<longleftrightarrow> o_key r \<noteq> [] \<and> strip (o_key r) = o_key r \<and> o_provider_id r \<noteq> None
     \<and> (\<exists>op. operation_of_row r = Inr op)"

definition op_wf :: "op_db \<Rightarrow> bool" where
  "op_wf db \<longleftrightarrow> distinct (map o_key (j_ops db)) \<and> distinct (map o_provider_id (j_ops db))
     \<and> (\<forall>r \<in> set (j_ops db). op_row_ok r)"

lemma op_wf_empty: "op_wf empty_op_db"
  by (simp add: op_wf_def empty_op_db_def)

lemma op_wf_unique:
  "op_wf db \<Longrightarrow> r \<in> set (j_ops db) \<Longrightarrow> q \<in> set (j_ops db) \<Longrightarrow> o_key r = o_key q \<Longrightarrow> r = q"
  unfolding op_wf_def by (blast intro: distinct_key_unique [where key = o_key])

lemma op_wf_find: "op_wf db \<Longrightarrow> sql_first (\<lambda>r. o_key r = k) (j_ops db) = Some r
    \<longleftrightarrow> r \<in> set (j_ops db) \<and> o_key r = k"
  unfolding op_wf_def by (simp add: sql_first_key)

definition canonical :: "pyval \<Rightarrow> bool" where
  "canonical v \<longleftrightarrow> canon v = Inr v"

lemma canonical_loads [simp]: "canonical v \<Longrightarrow> journal_loads v = Inr v"
  by (simp add: canonical_def journal_loads_def)

lemma copy_canonical: "journal_json_copy v = Inr t \<Longrightarrow> canonical t"
  using canon_idem(1) [of v t] by (auto simp: journal_json_copy_def canonical_def split: sum.splits)

lemma request_canonical: "canonical_request request e = Inr d \<Longrightarrow> canonical (VDict d)"
proof -
  assume "canonical_request request e = Inr d"
  then obtain v where v: "canonical v" "mapping_or ValueError v = Inr d"
    by (auto simp: canonical_request_def dest: copy_canonical)
  then show ?thesis by (cases v) auto
qed

lemma error_copy_canonical: "error_copy error = Inr (Some d) \<Longrightarrow> canonical (VDict d)"
proof -
  assume "error_copy error = Inr (Some d)"
  then obtain v where v: "canonical v" "mapping_or ValueError v = Inr d"
    by (auto simp: error_copy_def split: option.splits dest: copy_canonical)
  then show ?thesis by (cases v) auto
qed

lemma operation_text_Inr: "operation_text s = Inr k \<longleftrightarrow> k = strip s \<and> k \<noteq> []"
  by (auto simp: operation_text_def)

lemma operation_of_row_fields:
  "operation_of_row r = Inr op \<Longrightarrow> op_key op = o_key r \<and> op_state op = o_state r \<and> op_kind op = o_kind r
    \<and> op_reference op = o_reference r \<and> op_effect op = o_effect r \<and> op_provider_id op = o_provider_id r"
  by (auto simp: operation_of_row_def)

lemma get_operation_Some:
  assumes "get_operation key db = Inr (Some op)"
  shows "\<exists>r \<in> set (j_ops db). o_key r = strip key \<and> operation_of_row r = Inr op"
  using assms by (auto simp: get_operation_def operation_text_Inr split: option.splits dest!: sql_first_Some)

lemma get_operation_row:
  assumes "op_wf db" and "r \<in> set (j_ops db)" and "strip key = o_key r"
  shows "\<exists>op. get_operation key db = Inr (Some op) \<and> operation_of_row r = Inr op"
proof -
  have "op_row_ok r" using assms(1,2) by (simp add: op_wf_def)
  moreover have "sql_first (\<lambda>q. o_key q = o_key r) (j_ops db) = Some r"
    using op_wf_find [OF assms(1)] assms(2) by blast
  ultimately show ?thesis
    by (auto simp: get_operation_def operation_text_def op_row_ok_def assms(3))
qed

lemma get_operation_absent:
  assumes "op_wf db" and "get_operation key db = Inr None" and "r \<in> set (j_ops db)"
  shows "o_key r \<noteq> strip key"
  using get_operation_row [OF assms(1,3), of key] assms(2) by auto

section \<open>Moves\<close>

inductive op_move :: "(string \<Rightarrow> string) \<Rightarrow> op_db \<Rightarrow> op_db \<Rightarrow> bool" for d where
  op_insert: "oe_digest env = d \<Longrightarrow> key \<noteq> [] \<Longrightarrow> strip key = key \<Longrightarrow> canonical (VDict request) \<Longrightarrow>
    key \<notin> o_key ` set (j_ops db) \<Longrightarrow> Some pid \<notin> o_provider_id ` set (j_ops db) \<Longrightarrow>
    record_op_event env TAG_OPERATION_PREPARED (new_operation key knd request effect pid) []
      (db\<lparr>j_ops := j_ops db @ [new_op_row key knd request effect pid t]\<rparr>) = Inr db' \<Longrightarrow>
    op_move d db db'"
| op_settle: "oe_digest env = d \<Longrightarrow> r \<in> set (j_ops db) \<Longrightarrow> op_key current = o_key r \<Longrightarrow>
    st \<noteq> OpPending \<Longrightarrow> allowed_from st (o_state r) \<Longrightarrow> canonical result \<Longrightarrow>
    (\<And>e. error = Some e \<Longrightarrow> canonical (VDict e)) \<Longrightarrow>
    record_op_event env (state_tag st)
      (current\<lparr>op_state := st, op_result := result, op_reference := ref, op_error := error\<rparr>) extra
      (db\<lparr>j_ops := sql_update (\<lambda>q. o_key q = o_key r \<and> allowed_from st (o_state q))
         (settle_row st result ref error t) (j_ops db)\<rparr>) = Inr db' \<Longrightarrow>
    op_move d db db'"

abbreviation op_moves :: "(string \<Rightarrow> string) \<Rightarrow> op_db \<Rightarrow> op_db \<Rightarrow> bool" where
  "op_moves d \<equiv> (op_move d)\<^sup>*\<^sup>*"

lemma record_op_frame:
  "record_op_event env tg op extra db = Inr db' \<Longrightarrow> j_ops db' = j_ops db \<and> j_schema db' = j_schema db
    \<and> j_seeded db' = j_seeded db"
  by (auto simp: record_op_event_def split: if_splits)

lemma settle_row_simps [simp]:
  "o_key (settle_row st result ref error t r) = o_key r"
  "o_state (settle_row st result ref error t r) = st"
  "o_provider_id (settle_row st result ref error t r) = o_provider_id r"
  "o_result (settle_row st result ref error t r) = nullable_json result"
  "o_reference (settle_row st result ref error t r) = ref"
  by (simp_all add: settle_row_def)

lemma new_op_row_simps [simp]:
  "o_key (new_op_row key knd request effect pid t) = key"
  "o_state (new_op_row key knd request effect pid t) = OpPending"
  "o_provider_id (new_op_row key knd request effect pid t) = Some pid"
  by (simp_all add: new_op_row_def)

lemma mapping_or_Inr: "mapping_or e v = Inr d \<longleftrightarrow> v = VDict d"
  by (cases v) auto

lemma settle_row_ok:
  assumes "op_row_ok r" and "canonical result" and "\<And>e. error = Some e \<Longrightarrow> canonical (VDict e)"
  shows "op_row_ok (settle_row st result ref error t r)"
proof -
  obtain op where "operation_of_row r = Inr op" using assms(1) by (auto simp: op_row_ok_def)
  then obtain d where "journal_loads (o_request r) = Inr (VDict d)"
    by (auto simp: operation_of_row_def mapping_or_Inr)
  then have "\<exists>op. operation_of_row (settle_row st result ref error t r) = Inr op"
    using assms(2,3)
    by (cases error) (auto simp: operation_of_row_def settle_row_def loads_opt_def nullable_json_def)
  then show ?thesis using assms(1) by (simp add: op_row_ok_def)
qed

lemma new_op_row_ok:
  "key \<noteq> [] \<Longrightarrow> strip key = key \<Longrightarrow> canonical (VDict request) \<Longrightarrow>
    op_row_ok (new_op_row key knd request effect pid t)"
  by (simp add: op_row_ok_def) (simp add: new_op_row_def operation_of_row_def loads_opt_def)

lemma op_wf_move: "op_move d db db' \<Longrightarrow> op_wf db \<Longrightarrow> op_wf db'"
proof (induction rule: op_move.induct)
  case (op_insert env key request db pid knd effect t db')
  then have "j_ops db' = j_ops db @ [new_op_row key knd request effect pid t]"
    by (auto dest!: record_op_frame)
  with op_insert show ?case by (auto simp: op_wf_def new_op_row_ok)
next
  case (op_settle env r db current st result error ref extra t db')
  then have ops: "j_ops db' = sql_update (\<lambda>q. o_key q = o_key r \<and> allowed_from st (o_state q))
      (settle_row st result ref error t) (j_ops db)" by (auto dest!: record_op_frame)
  have "op_row_ok (settle_row st result ref error t q)" if "q \<in> set (j_ops db)" for q
    using settle_row_ok op_settle(6,7,9) that by (auto simp: op_wf_def)
  then show ?case using op_settle(9) by (auto simp: op_wf_def ops map_key_sql_update in_sql_update)
qed

lemma op_wf_moves: "op_moves d db db' \<Longrightarrow> op_wf db \<Longrightarrow> op_wf db'"
  by (induction rule: rtranclp_induct) (auto dest: op_wf_move)

section \<open>Calls are moves\<close>

text \<open>
  The other connections commit moves of their own; \<open>moved\<close> is the property of the state a
  call keeps: its database is reached from \<open>db0\<close> by moves.
\<close>

definition polite :: "(string \<Rightarrow> string) \<Rightarrow> op_env \<Rightarrow> bool" where
  "polite d env \<longleftrightarrow> oe_digest env = d \<and> (\<forall>i db. op_moves d db (oe_other env i db))"

definition moved :: "(string \<Rightarrow> string) \<Rightarrow> op_db \<Rightarrow> journal \<Rightarrow> bool" where
  "moved d db0 s \<longleftrightarrow> op_wf (jn_db s) \<and> op_moves d db0 (jn_db s)"

lemma keeps_op_transact:
  assumes "\<And>db x db'. op_wf db \<Longrightarrow> tx db = Inr (x, db') \<Longrightarrow> op_moves d db db'"
  shows "keeps (moved d db0) (journal_transact tx)"
  unfolding keeps_def
proof (intro allI impI)
  fix s assume s: "moved d db0 s"
  show "moved d db0 (snd (journal_transact tx s))"
  proof (cases "tx (jn_db s)")
    case (Inl e)
    then show ?thesis using s by (simp add: journal_transact_def)
  next
    case (Inr r)
    obtain x db' where r: "r = (x, db')" by fastforce
    then have "op_moves d (jn_db s) db'" using assms s Inr by (auto simp: moved_def)
    then show ?thesis using s Inr r op_wf_moves [of d "jn_db s" db']
      by (auto simp: journal_transact_def moved_def)
  qed
qed

lemma snd_journal_get [simp]: "snd (journal_get key s) = s"
  by (auto simp: journal_get_def sbind_def journal_open_def)

lemma repair_db: "jn_db (snd (op_repair_audit env i b s)) = jn_db s"
  by (auto simp: op_repair_audit_def sbind_def journal_open_def Let_def split: option.split sum.split prod.split)

lemma keeps_journal [keeps_intros]:
  "keeps (moved d db0) (journal_get key)" "keeps (moved d db0) journal_open"
  "keeps (moved d db0) (op_repair_audit env i b)" "keeps (moved d db0) (op_repair_batch env i)"
  by (simp_all add: keeps_def moved_def repair_db op_repair_batch_def journal_open_def)

lemma keeps_others [keeps_intros]: "polite d env \<Longrightarrow> keeps (moved d db0) (others env i)"
  unfolding keeps_def moved_def polite_def others_def
  by (auto intro: op_wf_moves rtranclp_trans)

lemma prepare_tx_move:
  assumes "oe_digest env = d" and "key \<noteq> []" and "strip key = key" and "canonical (VDict request)"
    and "prepare_tx env key knd request effect pid db = Inr (u, db')"
  shows "op_move d db db'"
  using assms by (intro op_insert [of env d key request db pid knd effect "oe_now env 0"])
    (auto simp: prepare_tx_def split: if_splits)

lemma transition_tx_moves:
  assumes "oe_digest env = d" and "st \<noteq> OpPending" and "canonical result"
    and err: "\<And>e. error = Some e \<Longrightarrow> canonical (VDict e)"
    and tx: "transition_tx env i current st result ref error extra db = Inr (mine, db')"
  shows "op_moves d db db'"
proof (cases mine)
  case False
  then show ?thesis using tx by (auto simp: transition_tx_def Let_def split: if_splits)
next
  case True
  let ?p = "\<lambda>r. o_key r = op_key current \<and> allowed_from st (o_state r)"
  have "0 < sql_count ?p (j_ops db)"
    and rec: "record_op_event env (state_tag st)
        (current\<lparr>op_state := st, op_result := result, op_reference := ref, op_error := error\<rparr>) extra
        (db\<lparr>j_ops := sql_update ?p (settle_row st result ref error (oe_now env i)) (j_ops db)\<rparr>) = Inr db'"
    using tx True by (auto simp: transition_tx_def Let_def split: if_splits)
  then obtain r where r: "r \<in> set (j_ops db)" "o_key r = op_key current" "allowed_from st (o_state r)"
    unfolding sql_count_pos by blast
  have "op_move d db db'"
    by (rule op_settle [OF assms(1) r(1) r(2) [symmetric] assms(2) r(3) assms(3) err])
      (use rec r(2) in \<open>simp_all\<close>)
  then show ?thesis ..
qed

lemma keeps_commit:
  assumes "polite d env" and "st \<noteq> OpPending" and "canonical result"
    and "\<And>e. error = Some e \<Longrightarrow> canonical (VDict e)"
  shows "keeps (moved d db0) (commit_transition env i current st result ref error extra)"
  unfolding commit_transition_def
  by (intro keeps_intros keeps_op_transact transition_tx_moves assms) (use assms in \<open>auto simp: polite_def\<close>)

end
