(* ===== verification/OperationsSession.thy ===== *)
theory OperationsSession
  imports OperationsInv
begin

text \<open>
  Every call of the operation journal (\<open>lipas/operations.py\<close>) is a sequence of moves, and
  the invariants of moves: settled operations are final, an operation is submitted at most
  once, and the outbox spells the history of every operation.
\<close>

section \<open>Methods\<close>

lemma keeps_transition [keeps_intros]:
  "polite d env \<Longrightarrow> keeps (moved d db0) (transition env i key st result ref error extra)"
  unfolding transition_def
  by (intro keeps_intros keeps_commit) (auto dest: copy_canonical error_copy_canonical)

lemma keeps_settling [keeps_intros]:
  assumes "polite d env"
  shows "keeps (moved d db0) (settle env i key result ref)"
    "keeps (moved d db0) (fail_operation env i key err)"
    "keeps (moved d db0) (mark_uncertain env i key error)"
  unfolding settle_def fail_operation_def mark_uncertain_def by (rule keeps_transition [OF assms])+

lemma keeps_prepare_row:
  "polite d env \<Longrightarrow> key \<noteq> [] \<Longrightarrow> strip key = key \<Longrightarrow> canonical (VDict request) \<Longrightarrow>
    keeps (moved d db0) (prepare_row env key knd request effect pid)"
  unfolding prepare_row_def
  by (intro keeps_intros keeps_op_transact r_into_rtranclp prepare_tx_move) (auto simp: polite_def)

lemma keeps_prepare [keeps_intros]:
  "polite d env \<Longrightarrow> keeps (moved d db0) (prepare_owned env key knd request effect pid)"
  unfolding prepare_owned_def
  by (intro keeps_intros keeps_prepare_row) (auto simp: operation_text_Inr dest: request_canonical)

lemma keeps_unpack [keeps_intros]:
  "(\<And>a b. keeps P (f a b)) \<Longrightarrow> keeps P (case x of (a, b) \<Rightarrow> f a b)"
  by (cases x) simp

lemma keeps_sum [keeps_intros]:
  "(\<And>a. keeps P (f a)) \<Longrightarrow> (\<And>b. keeps P (g b)) \<Longrightarrow> keeps P (case x of Inl a \<Rightarrow> f a | Inr b \<Rightarrow> g b)"
  by (cases x) simp_all

lemma keeps_execute [keeps_intros]:
  assumes "polite d env"
  shows "keeps (moved d db0) (prepare_operation env key knd request effect pid)"
    "keeps (moved d db0) (begin_execute env key knd request effect pid)"
    "keeps (moved d db0) (mark_uncertain_after_submission env i key e)"
    "keeps (moved d db0) (end_execute env key outcome reference)"
  unfolding prepare_operation_def begin_execute_def mark_uncertain_after_submission_def end_execute_def
  by (intro keeps_intros assms)+

lemma keeps_reconcile [keeps_intros]:
  assumes "polite d env"
  shows "keeps (moved d db0) (reconcile env key lookup observation)"
    "keeps (moved d db0) (reconcile_key env i lookup' inc key)"
  unfolding reconcile_def reconcile_key_def by (intro keeps_intros assms)+

lemma keeps_reconcile_keys [keeps_intros]:
  "polite d env \<Longrightarrow> keeps (moved d db0) (reconcile_keys env i lookup inc keys)"
  by (induction keys arbitrary: i) (auto intro!: keeps_intros)

lemma keeps_reconcile_pending [keeps_intros]:
  assumes "polite d env"
  shows "keeps (moved d db0) (reconcile_pending env lookup inc)"
proof -
  have "keeps (moved d db0) (\<lambda>s. reconcile_keys env 0 lookup inc (recoverable_keys inc (jn_db s)) s)"
    using keepsD [OF keeps_reconcile_keys [OF assms]] by (auto simp: keeps_def)
  then show ?thesis unfolding reconcile_pending_def by (intro keeps_intros)
qed

lemma op_step_moves:
  assumes "polite d env" and "op_wf (jn_db s)"
  shows "op_wf (jn_db (op_step env c s)) \<and> op_moves d (jn_db s) (jn_db (op_step env c s))"
proof -
  have start: "moved d (jn_db s) s" using assms(2) by (simp add: moved_def)
  note step = keepsD [where P = "moved d (jn_db s)" and s = s, OF _ start]
  have "moved d (jn_db s) (op_step env c s)"
    by (cases c) (use assms in \<open>auto simp: op_step_def close_journal_def moved_def [of _ _ "_\<lparr>jn_closed := True\<rparr>"]
        intro!: step keeps_intros\<close>)
  then show ?thesis by (simp add: moved_def)
qed

section \<open>Invariants of moves\<close>

text \<open>
  An invariant of moves holds after every session. \<open>ok\<close> may rely on the journal being
  well-formed before the move.
\<close>

locale op_invariant =
  fixes d :: "string \<Rightarrow> string" and ok :: "op_db \<Rightarrow> bool"
  assumes keeps_move: "op_move d db db' \<Longrightarrow> op_wf db \<Longrightarrow> ok db \<Longrightarrow> ok db'"
begin

lemma moves: "op_moves d db db' \<Longrightarrow> op_wf db \<Longrightarrow> ok db \<Longrightarrow> ok db'"
proof (induction rule: rtranclp_induct)
  case (step y z)
  then show ?case using keeps_move [of y z] op_wf_moves [of d db y] by blast
qed simp

lemma session:
  assumes "\<forall>(env, c) \<in> set calls. polite d env" and "op_wf (jn_db s)" and "ok (jn_db s)"
  shows "op_wf (jn_db (op_session calls s)) \<and> ok (jn_db (op_session calls s))"
  using assms
proof (induction calls arbitrary: s)
  case Nil
  then show ?case by (simp add: op_session_def)
next
  case (Cons x calls)
  obtain env c where x: "x = (env, c)" by fastforce
  with Cons.prems have m: "op_wf (jn_db (op_step env c s)) \<and> op_moves d (jn_db s) (jn_db (op_step env c s))"
    by (intro op_step_moves) auto
  then have "ok (jn_db (op_step env c s))" using moves Cons.prems by blast
  with m Cons.IH [of "op_step env c s"] Cons.prems(1) show ?case by (simp add: op_session_def x)
qed

end

text \<open>A settled row, and every key, stays.\<close>

lemma settled_op_move:
  assumes "op_move d db db'" and "r \<in> set (j_ops db)" and "terminal (o_state r)"
  shows "r \<in> set (j_ops db')"
  using assms
proof (induction rule: op_move.induct)
  case (op_insert env key request db pid knd effect t db')
  then show ?case by (auto dest!: record_op_frame)
next
  case (op_settle env q db current st result error ref extra t db')
  then have "\<not> allowed_from st (o_state r)" by (cases st) (auto simp: terminal_def)
  with op_settle show ?case by (auto dest!: record_op_frame simp: in_sql_update intro!: bexI [of _ r])
qed

lemma keys_move: "op_move d db db' \<Longrightarrow> o_key ` set (j_ops db) \<subseteq> o_key ` set (j_ops db')"
proof (induction rule: op_move.induct)
  case (op_settle env r db current st result error ref extra t db')
  have "map o_key (j_ops db') = map o_key (j_ops db)"
    using record_op_frame [OF op_settle(8)] by (simp add: map_key_sql_update)
  then show ?case by (metis list.set_map subset_refl)
qed (auto dest!: record_op_frame)

interpretation settled_inv: op_invariant d "\<lambda>db. terminal (o_state r) \<and> r \<in> set (j_ops db)" for d r
  by unfold_locales (auto dest: settled_op_move)

interpretation keys_inv: op_invariant d "\<lambda>db. K \<subseteq> o_key ` set (j_ops db)" for d K
  by unfold_locales (auto dest!: keys_move)

section \<open>At most one submission\<close>

lemma journal_get_op:
  "journal_get key s = (Inr (Some op), s1) \<Longrightarrow> s1 = s \<and> get_operation key (jn_db s) = Inr (Some op)"
  by (auto simp: journal_get_def sbind_def journal_open_def split: prod.splits sum.splits if_splits)

lemma repaired: "op_repair_batch env i s = (x, s') \<Longrightarrow> jn_db s' = jn_db s"
  using repair_db [of env i "Some DEFAULT_AUDIT_REPAIR_BATCH_SIZE" s] by (simp add: op_repair_batch_def)

lemma prepare_row_owned:
  assumes "prepare_row env key knd request effect pid s = (Inr (op, owns), s')" and owns
  shows "\<exists>db'. prepare_tx env key knd request effect pid (jn_db s) = Inr ((), db') \<and> jn_db s' = db'"
proof (cases "prepare_tx env key knd request effect pid (jn_db s)")
  case (Inl e)
  then show ?thesis
    using assms by (auto simp: prepare_row_def stry_def journal_transact_def sbind_Inr_iff slift_Inr_iff
        sret_def split: if_splits option.splits)
next
  case (Inr x)
  obtain db' where x: "x = ((), db')" by (cases x) simp
  let ?s = "s\<lparr>jn_db := db'\<rparr>"
  have "sbind (journal_get key) (\<lambda>res. case res of
            None \<Rightarrow> slift (Inl AssertionError)
          | Some op \<Rightarrow> sbind (op_repair_batch env 0) (\<lambda>_. sret (op, True))) ?s = (Inr (op, owns), s')"
    using assms(1) Inr by (simp add: prepare_row_def stry_def journal_transact_def x)
  then obtain r s2 where r: "journal_get key ?s = (Inr r, s2)"
      "(case r of None \<Rightarrow> slift (Inl AssertionError)
          | Some op \<Rightarrow> sbind (op_repair_batch env 0) (\<lambda>_. sret (op, True))) s2 = (Inr (op, owns), s')"
    unfolding sbind_Inr_iff by blast
  have "s2 = ?s" using snd_journal_get [of key ?s] r(1) by simp
  then have "jn_db s' = db'"
    using r(2) by (cases r) (auto simp: sbind_Inr_iff slift_Inr_iff sret_def dest: repaired)
  then show ?thesis using Inr x by simp
qed

lemma submit_new:
  assumes "begin_execute env key knd request effect pid s = (Inr Submit, s')"
  shows "strip key \<notin> o_key ` set (j_ops (jn_db s)) \<and> strip key \<in> o_key ` set (j_ops (jn_db s'))"
proof -
  obtain op owns where p: "prepare_owned env key knd request effect pid s = (Inr (op, owns), s')"
      and own: "owns"
    using assms
    by (auto simp: begin_execute_def sbind_def slift_def sret_def split: prod.splits sum.splits if_splits)
      (metis op_status.exhaust)
  from p obtain r e p2 s0 where row: "prepare_row env (strip key) (strip knd) r e p2 s = (Inr (op, owns), s')"
    by (auto simp: prepare_owned_def sbind_Inr_iff slift_Inr_iff journal_open_def operation_text_Inr split: if_splits)
  from prepare_row_owned [OF row own]
    obtain db' where tx: "prepare_tx env (strip key) (strip knd) r e p2 (jn_db s) = Inr ((), db')"
      "jn_db s' = db'" by blast
  then show ?thesis by (auto simp: prepare_tx_def split: if_splits dest!: record_op_frame)
qed

lemma session_submissions:
  assumes "\<forall>(env, c) \<in> set calls. polite d env" and "op_wf (jn_db s)"
  shows "distinct (submissions calls s) \<and> set (submissions calls s) \<inter> o_key ` set (j_ops (jn_db s)) = {}"
  using assms
proof (induction calls arbitrary: s)
  case Nil
  then show ?case by simp
next
  case (Cons x calls)
  obtain env c where x: "x = (env, c)" by fastforce
  let ?s = "op_step env c s"
  have m: "op_wf (jn_db ?s)" "op_moves d (jn_db s) (jn_db ?s)"
    using op_step_moves [of d env s c] Cons.prems x by auto
  have more: "o_key ` set (j_ops (jn_db s)) \<subseteq> o_key ` set (j_ops (jn_db ?s))"
    using keys_inv.moves [OF m(2)] Cons.prems(2) by blast
  have IH: "distinct (submissions calls ?s)" "set (submissions calls ?s) \<inter> o_key ` set (j_ops (jn_db ?s)) = {}"
    using Cons.IH [OF _ m(1)] Cons.prems(1) by auto
  show ?case
  proof (cases "submits env c s")
    case None
    have "set (submissions calls ?s) \<inter> o_key ` set (j_ops (jn_db s)) = {}" using IH(2) more by blast
    then show ?thesis using IH(1) None by (simp add: x)
  next
    case (Some k)
    then obtain key knd request effect pid s' where c: "c = Begin key knd request effect pid"
      and b: "begin_execute env key knd request effect pid s = (Inr Submit, s')" and k: "k = strip key"
      by (cases c) (auto simp: submits_def split: if_splits, metis prod.collapse)
    have "?s = s'" using b by (simp add: op_step_def c)
    moreover have "set (submissions calls ?s) \<inter> o_key ` set (j_ops (jn_db s)) = {}" using IH(2) more by blast
    ultimately show ?thesis using IH Some submit_new [OF b] by (auto simp: x k)
  qed
qed

section \<open>The history of an operation in the outbox\<close>

text \<open>
  The tags an operation's events may have, in the order they were recorded, by its state.
\<close>

definition op_histories :: "op_status \<Rightarrow> string list set" where
  "op_histories st = (case st of
      OpPending \<Rightarrow> {[TAG_OPERATION_PREPARED]}
    | OpUncertain \<Rightarrow> {[TAG_OPERATION_PREPARED, TAG_OPERATION_UNCERTAIN]}
    | _ \<Rightarrow> {[TAG_OPERATION_PREPARED, state_tag st],
         [TAG_OPERATION_PREPARED, TAG_OPERATION_UNCERTAIN, state_tag st]})"

definition op_ident :: "(string \<Rightarrow> string) \<Rightarrow> string \<Rightarrow> string \<Rightarrow> string" where
  "op_ident d key tg = ''operation_audit_'' @ d (''operation'' @ [NUL] @ key @ [NUL] @ tg)"

definition op_events :: "(string \<Rightarrow> string) \<Rightarrow> string \<Rightarrow> op_db \<Rightarrow> string list" where
  "op_events d key db = map ev_tag (filter (\<lambda>e. ev_id e = op_ident d key (ev_tag e)) (j_audit db))"

definition op_tags :: "string list" where
  "op_tags = map state_tag [OpPending, OpUncertain, OpSucceeded, OpFailed]"

definition spelled :: "(string \<Rightarrow> string) \<Rightarrow> op_db \<Rightarrow> bool" where
  "spelled d db \<longleftrightarrow> (\<forall>r \<in> set (j_ops db). op_events d (o_key r) db \<in> op_histories (o_state r))
     \<and> (\<forall>e \<in> set (j_audit db). ev_tag e \<in> set op_tags
          \<and> (\<exists>r \<in> set (j_ops db). ev_id e = op_ident d (o_key r) (ev_tag e)))"

lemma state_tag_inj [simp]: "state_tag a = state_tag b \<longleftrightarrow> a = b"
  by (cases a; cases b) (simp_all add: TAG_OPERATION_PREPARED_def TAG_OPERATION_UNCERTAIN_def
      TAG_OPERATION_SUCCEEDED_def TAG_OPERATION_FAILED_def)

lemma state_tag_no_NUL: "NUL \<notin> set (state_tag st)"
proof -
  have "list_all (\<lambda>st. NUL \<notin> set (state_tag st)) [OpPending, OpUncertain, OpSucceeded, OpFailed]" by code_simp
  then show ?thesis by (cases st) (simp_all del: state_tag.simps)
qed

lemma op_tag_state: "t \<in> set op_tags \<Longrightarrow> \<exists>st. t = state_tag st"
  by (auto simp: op_tags_def simp del: state_tag.simps)

lemma state_tag_op_tags: "state_tag st \<in> set op_tags"
  by (cases st) (simp_all add: op_tags_def del: state_tag.simps)

lemma split_last:
  assumes "a @ [x] @ b = a' @ [x] @ b'" and "x \<notin> set b" and "x \<notin> set b'"
  shows "a = a' \<and> b = b'"
proof -
  have "takeWhile (\<lambda>c. c \<noteq> x) (rev (a @ [x] @ b)) = rev b" if "x \<notin> set b" for a b
    using takeWhile_append2 [of "rev b" "\<lambda>c. c \<noteq> x" "x # rev a"] that by auto
  then have "rev b = rev b'" using assms by metis
  then show ?thesis using assms(1) by simp
qed

lemma op_ident_inj:
  assumes "inj d" and "op_ident d k (state_tag a) = op_ident d k' (state_tag b)"
  shows "k = k' \<and> a = b"
proof -
  have "k @ [NUL] @ state_tag a = k' @ [NUL] @ state_tag b"
    using assms by (auto simp: op_ident_def dest: injD)
  from split_last [OF this state_tag_no_NUL state_tag_no_NUL] show ?thesis by simp
qed

lemma record_fresh:
  assumes "record_op_event env tg op extra db = Inr db'" and "oe_digest env = d"
    and "op_ident d (op_key op) tg \<notin> ev_id ` set (j_audit db)"
  shows "\<exists>e. j_audit db' = j_audit db @ [e] \<and> ev_id e = op_ident d (op_key op) tg \<and> ev_tag e = tg"
  using assms by (auto simp: record_op_event_def op_audit_id_def op_ident_def)

lemma op_events_snoc:
  assumes "inj d" and "j_audit db' = j_audit db @ [e]" and "ev_id e = op_ident d k (state_tag st)"
    and "ev_tag e = state_tag st"
  shows "op_events d k' db' = op_events d k' db @ (if k' = k then [state_tag st] else [])"
  using assms(2-4) op_ident_inj [OF assms(1), of k st k' st] by (auto simp: op_events_def)

lemma spelledD: "spelled d db \<Longrightarrow> e \<in> set (j_audit db) \<Longrightarrow> ev_tag e \<in> set op_tags
    \<and> (\<exists>r \<in> set (j_ops db). ev_id e = op_ident d (o_key r) (ev_tag e))"
  by (simp add: spelled_def)

lemma spelled_known:
  assumes "inj d" and "spelled d db" and "op_ident d k (state_tag st) \<in> ev_id ` set (j_audit db)"
  shows "k \<in> o_key ` set (j_ops db) \<and> state_tag st \<in> set (op_events d k db)"
proof -
  from assms(3) obtain e where e: "e \<in> set (j_audit db)" "ev_id e = op_ident d k (state_tag st)" by auto
  with assms(2) have "ev_tag e \<in> set op_tags" "\<exists>r \<in> set (j_ops db). ev_id e = op_ident d (o_key r) (ev_tag e)"
    using spelledD [OF assms(2) e(1)] by blast+
  then obtain r st' where r: "r \<in> set (j_ops db)" "ev_id e = op_ident d (o_key r) (ev_tag e)"
      "ev_tag e = state_tag st'" using op_tag_state by blast
  have "o_key r = k \<and> st' = st" using op_ident_inj [OF assms(1), of "o_key r" st' k st] e(2) r by simp
  then show ?thesis using r e by (auto simp: op_events_def intro!: image_eqI [of _ _ e])
qed

lemma op_history_step:
  assumes "h \<in> op_histories st0" and "allowed_from st st0" and "st \<noteq> OpPending"
  shows "state_tag st \<notin> set h \<and> h @ [state_tag st] \<in> op_histories st"
proof -
  note [simp] = state_tag.simps(1,2) [symmetric]
  show ?thesis
    using assms by (cases st; cases st0) (auto simp: op_histories_def simp del: state_tag.simps)
qed

lemma spelled_move:
  assumes "op_move d db db'" and "inj d" and "op_wf db" and "spelled d db"
  shows "spelled d db'"
  using assms
proof (induction rule: op_move.induct)
  case (op_insert env key request db pid knd effect t db')
  have ops: "j_ops db' = j_ops db @ [new_op_row key knd request effect pid t]"
    using record_op_frame [OF op_insert(7)] by simp
  have fresh: "op_ident d key (state_tag OpPending) \<notin> ev_id ` set (j_audit db)"
    using spelled_known [OF op_insert(8,10), of key OpPending] op_insert(5) by blast
  have none: "op_events d key db = []"
  proof (rule ccontr)
    assume "op_events d key db \<noteq> []"
    then obtain e where e: "e \<in> set (j_audit db)" "ev_id e = op_ident d key (ev_tag e)"
      by (auto simp: op_events_def filter_empty_conv)
    moreover obtain st where "ev_tag e = state_tag st" using spelledD [OF op_insert(10) e(1)] op_tag_state by blast
    ultimately show False using spelled_known [OF op_insert(8,10), of key st] op_insert(5) by force
  qed
  obtain e where e: "j_audit db' = j_audit db @ [e]" "ev_id e = op_ident d key (state_tag OpPending)"
      "ev_tag e = state_tag OpPending"
    using record_fresh [OF op_insert(7,1)] fresh by (auto simp: new_operation_def)
  show ?case
    using op_insert(5,10) none unfolding spelled_def op_events_snoc [OF op_insert(8) e] ops
    by (auto simp: e op_histories_def op_tags_def)
next
  case (op_settle env r db current st result error ref extra t db')
  let ?u = "sql_update (\<lambda>q. o_key q = o_key r \<and> allowed_from st (o_state q)) (settle_row st result ref error t) (j_ops db)"
  have ops: "j_ops db' = ?u" using record_op_frame [OF op_settle(8)] by simp
  have hist: "op_events d (o_key r) db \<in> op_histories (o_state r)"
    using op_settle(2,11) by (simp add: spelled_def)
  note step = op_history_step [OF hist op_settle(5,4)]
  have fresh: "op_ident d (o_key r) (state_tag st) \<notin> ev_id ` set (j_audit db)"
    using spelled_known [OF op_settle(9,11)] step by blast
  obtain e where e: "j_audit db' = j_audit db @ [e]" "ev_id e = op_ident d (o_key r) (state_tag st)"
      "ev_tag e = state_tag st"
    using record_fresh [OF op_settle(8,1)] fresh op_settle(3) by auto
  have keys: "o_key ` set ?u = o_key ` set (j_ops db)"
    by (rule key_set_sql_update) simp
  have row: "q = r" if "q \<in> set (j_ops db)" "o_key q = o_key r" for q
    using op_wf_unique [OF op_settle(10) that(1) op_settle(2) that(2)] .
  have rows: "op_events d (o_key q) db' \<in> op_histories (o_state q)" if "q \<in> set ?u" for q
  proof -
    from that obtain q0 where q0: "q0 \<in> set (j_ops db)"
      "q = (if o_key q0 = o_key r \<and> allowed_from st (o_state q0) then settle_row st result ref error t q0 else q0)"
      by (auto simp: in_sql_update)
    show ?thesis
    proof (cases "o_key q0 = o_key r")
      case True
      then show ?thesis using row [OF q0(1)] q0(2) op_settle(5) step by (simp add: op_events_snoc [OF op_settle(9) e])
    next
      case False
      then show ?thesis using q0 op_settle(11) by (simp add: op_events_snoc [OF op_settle(9) e] spelled_def)
    qed
  qed
  have evs: "\<exists>q \<in> set ?u. ev_id x = op_ident d (o_key q) (ev_tag x)" "ev_tag x \<in> set op_tags"
    if "x \<in> set (j_audit db')" for x
  proof -
    have lift: "\<exists>q \<in> set ?u. i = op_ident d (o_key q) tg"
      if "i = op_ident d (o_key q0) tg" "q0 \<in> set (j_ops db)" for i q0 tg
    proof -
      from that(2) have "o_key q0 \<in> o_key ` set ?u" using keys by simp
      then obtain q where "o_key q0 = o_key q" "q \<in> set ?u" by (rule imageE)
      then show ?thesis using that(1) by (intro bexI [of _ q]) simp_all
    qed
    show "\<exists>q \<in> set ?u. ev_id x = op_ident d (o_key q) (ev_tag x)"
    proof (cases "x = e")
      case True
      then show ?thesis using e(2,3) op_settle(2) by (intro lift [of _ r]) simp_all
    next
      case False
      then have "x \<in> set (j_audit db)" using that by (simp add: e(1))
      then show ?thesis using spelledD [OF op_settle(11)] lift by blast
    qed
    show "ev_tag x \<in> set op_tags"
      using that op_settle(11) e(3) state_tag_op_tags by (auto simp: e(1) spelled_def)
  qed
  show ?case using rows evs by (simp add: spelled_def ops)
qed

lemma spelled_empty: "spelled d empty_op_db"
  by (simp add: spelled_def empty_op_db_def)

interpretation history_inv: op_invariant d "\<lambda>db. inj d \<and> spelled d db" for d
  by unfold_locales (auto dest: spelled_move)

end
