(* ===== verification/OperationsProps.thy ===== *)
theory OperationsProps
  imports OperationsSession
begin

text \<open>
  What the operation journal (\<open>lipas/operations.py\<close>) guarantees: settled operations are
  final, no key is submitted twice, provider identities are bound to one key, the outbox
  spells every history, and a submission that fails is never left looking unsubmitted.
\<close>

section \<open>What a transition leaves behind\<close>

lemma record_op_ok:
  assumes "\<And>d. op_error op = Some d \<Longrightarrow> canonical (VDict d)"
  shows "\<exists>db'. record_op_event env tg op [] db = Inr db'"
proof -
  have t: "canon (op_text x) = Inr (op_text x)" for x by (cases x) simp_all
  have "\<exists>t. canon (vobj (op_audit_fields op)) = Inr t"
    using assms by (cases "op_error op") (auto simp: op_audit_fields_def vobj_def t canonical_def)
  then obtain t where "canon (vobj (op_audit_fields op)) = Inr t" by blast
  then show ?thesis by (simp add: record_op_event_def dict_update_def)
qed

lemma transition_tx_ok:
  assumes "\<And>e. error = Some e \<Longrightarrow> canonical (VDict e)"
  shows "\<exists>mine db'. transition_tx env i current st result ref error [] db = Inr (mine, db')"
  using record_op_ok [of "current\<lparr>op_state := st, op_result := result, op_reference := ref, op_error := error\<rparr>"]
    assms by (auto simp: transition_tx_def Let_def)

text \<open>After the update, the row is no longer in a state the update applies to.\<close>

lemma transition_tx_state:
  assumes "op_wf db" and "st \<noteq> OpPending"
    and tx: "transition_tx env i current st result ref error extra db = Inr (mine, db')"
    and r: "r \<in> set (j_ops db')" "o_key r = op_key current"
  shows "o_state r \<noteq> OpPending" and "mine \<Longrightarrow> o_state r = st"
proof -
  let ?p = "\<lambda>r. o_key r = op_key current \<and> allowed_from st (o_state r)"
  have count: "sql_count ?p (j_ops db) = (case sql_first (\<lambda>r. o_key r = op_key current) (j_ops db) of
      None \<Rightarrow> 0 | Some r \<Rightarrow> if allowed_from st (o_state r) then 1 else 0)"
    using assms(1) by (intro sql_count_key) (simp add: op_wf_def)
  have "o_state r \<noteq> OpPending \<and> (mine \<longrightarrow> o_state r = st)"
  proof (cases mine)
    case False
    then have n: "sql_count ?p (j_ops db) \<noteq> 1" "db' = db" using tx by (auto simp: transition_tx_def Let_def split: if_splits)
    have "sql_first (\<lambda>q. o_key q = op_key current) (j_ops db) = Some r"
      using op_wf_find [OF assms(1)] r n(2) by blast
    with n(1) count False show ?thesis by (cases st) (auto split: if_splits)
  next
    case True
    then have n: "sql_count ?p (j_ops db) = 1"
      "j_ops db' = sql_update ?p (settle_row st result ref error (oe_now env i)) (j_ops db)"
      using tx by (auto simp: transition_tx_def Let_def split: if_splits dest!: record_op_frame)
    obtain q where q0: "q \<in> set (j_ops db)"
        "r = (if ?p q then settle_row st result ref error (oe_now env i) q else q)"
      using r(1) unfolding n(2) in_sql_update by blast
    have "o_key r = o_key q" by (subst q0(2)) simp
    then have q: "q \<in> set (j_ops db)" "o_key q = op_key current" using r(2) q0(1) by simp_all
    have "sql_first (\<lambda>q. o_key q = op_key current) (j_ops db) = Some q"
      using op_wf_find [OF assms(1)] q by blast
    then have "sql_count ?p (j_ops db) = (if allowed_from st (o_state q) then 1 else 0)" using count by simp
    then have "(if allowed_from st (o_state q) then 1 else 0) = (1::nat)" using n(1) by (rule trans [OF sym])
    then have "allowed_from st (o_state q)" by (simp split: if_splits)
    then show ?thesis using q q0(2) assms(2) by simp
  qed
  then show "o_state r \<noteq> OpPending" "mine \<Longrightarrow> o_state r = st" by auto
qed

lemma journal_open_Inr: "journal_open s = (Inr u, s') \<longleftrightarrow> s' = s \<and> \<not> jn_closed s"
  by (auto simp: journal_open_def)

lemma journal_get_iff: "journal_get key s = (Inr x, s') \<longleftrightarrow>
    s' = s \<and> \<not> jn_closed s \<and> get_operation key (jn_db s) = Inr x"
  by (auto simp: journal_get_def sbind_def journal_open_def)

lemma transact_Inr:
  "journal_transact tx s = (Inr x, s') \<longleftrightarrow> (\<exists>db. tx (jn_db s) = Inr (x, db) \<and> s' = s\<lparr>jn_db := db\<rparr>)"
  by (auto simp: journal_transact_def split: sum.splits prod.splits)

text \<open>What a transition returns has the state that was asked for.\<close>

lemma commit_state:
  assumes "polite d env" and "op_wf (jn_db s)" and "st \<noteq> OpPending" and "strip (op_key current) = op_key current"
    and c: "commit_transition env i current st result ref error extra s = (Inr op, s')"
  shows "op_state op = st"
proof -
  have wf: "op_wf (oe_other env i (jn_db s))"
    using assms(1,2) by (auto simp: polite_def intro: op_wf_moves)
  from c obtain mine db2 where tx: "transition_tx env i current st result ref error extra (oe_other env i (jn_db s)) = Inr (mine, db2)"
    and get: "get_operation (op_key current) db2 = Inr (Some op)"
    and ok: "mine \<or> same_outcome op st result ref error"
    by (auto simp: commit_transition_def others_def raise_iffs transact_Inr journal_get_iff)
  from get_operation_Some [OF get] obtain r where r: "r \<in> set (j_ops db2)" "o_key r = op_key current"
      "operation_of_row r = Inr op" using assms(4) by auto
  then have "op_state op = o_state r" by (auto dest: operation_of_row_fields)
  then show ?thesis
    using ok transition_tx_state(2) [OF wf assms(3) tx r(1,2)] by (auto simp: same_outcome_def)
qed

lemma transition_state:
  assumes "polite d env" and "op_wf (jn_db s)"
    and t: "transition env i key st result ref error extra s = (Inr op, s')"
  shows "op_state op = st"
proof -
  from t obtain cur ref' error' result' where st: "st \<noteq> OpPending"
    and get: "get_operation (strip key) (jn_db s) = Inr (Some cur)"
    and c: "same_outcome cur st result' ref' error' \<and> op = cur
      \<or> commit_transition env i cur st result' ref' error' extra s = (Inr op, s')"
    by (auto simp: transition_def raise_iffs operation_text_Inr journal_get_iff split: if_splits)
  from get_operation_Some [OF get] obtain r where "r \<in> set (j_ops (jn_db s))" "operation_of_row r = Inr cur" by auto
  then have "strip (op_key cur) = op_key cur"
    using assms(2) by (auto simp: op_wf_def op_row_ok_def dest!: operation_of_row_fields)
  then show ?thesis using c commit_state [OF assms(1,2) st] by (auto simp: same_outcome_def)
qed

section \<open>Properties\<close>

lemma polite_keeps_key:
  assumes "polite d env" and "op_wf db" and "k \<in> o_key ` set (j_ops db)"
  shows "k \<in> o_key ` set (j_ops (oe_other env i db))"
proof -
  have "op_moves d db (oe_other env i db)" using assms(1) by (simp add: polite_def)
  from keys_inv.moves [OF this assms(2)] assms(3) show ?thesis by blast
qed

definition rests_at :: "op_db \<Rightarrow> journal \<Rightarrow> bool" where
  "rests_at db s \<longleftrightarrow> jn_db s = db \<and> \<not> jn_closed s"

lemma repair_closed: "jn_closed (snd (op_repair_audit env i b s)) = jn_closed s"
  by (auto simp: op_repair_audit_def sbind_def journal_open_def Let_def split: option.split sum.split prod.split)

lemma keeps_rests_at [keeps_intros]:
  "keeps (rests_at db) (journal_get key)" "keeps (rests_at db) (op_repair_batch env i)"
  by (simp_all add: keeps_def rests_at_def repair_db repair_closed op_repair_batch_def)

lemma diagnostic_copy: "\<exists>d. error_copy (Some (diagnostic env e)) = Inr (Some d)"
  by (simp add: error_copy_def diagnostic_def journal_json_copy_def vobj_def)

text \<open>A pending row that is marked uncertain is not pending afterwards, whatever else happens.\<close>

lemma mark_uncertain_leaves:
  assumes pol: "polite d env" and wf: "op_wf (jn_db s)" and open': "\<not> jn_closed s"
    and r: "r \<in> set (j_ops (jn_db s))" "o_key r = strip key" "o_state r = OpPending"
  shows "\<exists>db. rests_at db (snd (mark_uncertain env i key (Some (diagnostic env e)) s)) \<and> op_wf db
    \<and> strip key \<in> o_key ` set (j_ops db) \<and> (\<forall>q \<in> set (j_ops db). o_key q = strip key \<longrightarrow> o_state q \<noteq> OpPending)
    \<and> (fst (mark_uncertain env i key (Some (diagnostic env e)) s) = Inl OperationStateError
       \<or> (\<forall>q \<in> set (j_ops db). o_key q = strip key \<longrightarrow> o_state q = OpUncertain))"
proof -
  have k: "strip key \<noteq> []" using wf r(1,2) by (auto simp: op_wf_def op_row_ok_def)
  obtain op where op: "get_operation (strip key) (jn_db s) = Inr (Some op)" "operation_of_row r = Inr op"
    using get_operation_row [OF wf r(1), of "strip key"] r(2) by auto
  then have cur: "op_state op = OpPending" "op_key op = strip key"
    using r operation_of_row_fields by auto
  obtain c where c: "error_copy (Some (diagnostic env e)) = Inr (Some c)" using diagnostic_copy by blast
  have m: "mark_uncertain env i key (Some (diagnostic env e)) s
      = commit_transition env i op OpUncertain VNone None (Some c) [] s"
    using k op(1) cur c open' by (simp add: mark_uncertain_def transition_def operation_text_def journal_get_def
        journal_open_def sbind_def slift_def same_outcome_def terminal_def optional_text_def journal_json_copy_def)
  let ?db1 = "oe_other env i (jn_db s)"
  have wf1: "op_wf ?db1" and key1: "strip key \<in> o_key ` set (j_ops ?db1)"
  proof -
    have "op_moves d (jn_db s) ?db1" using pol by (simp add: polite_def)
    then show "op_wf ?db1" using wf by (rule op_wf_moves)
    have "strip key \<in> o_key ` set (j_ops (jn_db s))" using r(1) unfolding r(2) [symmetric] by (rule imageI)
    then show "strip key \<in> o_key ` set (j_ops ?db1)" by (rule polite_keeps_key [OF pol wf])
  qed
  obtain mine db2 where tx: "transition_tx env i op OpUncertain VNone None (Some c) [] ?db1 = Inr (mine, db2)"
    using transition_tx_ok error_copy_canonical [OF c] by blast
  have mv: "op_moves d ?db1 db2"
    using transition_tx_moves [OF _ _ _ _ tx, of d] error_copy_canonical [OF c] pol
    by (simp add: polite_def canonical_def)
  let ?rest = "sbind (journal_get (op_key op)) (\<lambda>res. case res of
         None \<Rightarrow> slift (Inl AssertionError)
       | Some latest \<Rightarrow>
           if \<not> mine \<and> \<not> same_outcome latest OpUncertain VNone None (Some c) then slift (Inl OperationStateError)
           else sbind (op_repair_batch env i) (\<lambda>_. sret latest))"
  have "keeps (rests_at db2) ?rest" by (intro keeps_intros)
  moreover have "rests_at db2 (s\<lparr>jn_db := db2\<rparr>)" using open' by (simp add: rests_at_def)
  ultimately have "rests_at db2 (snd (?rest (s\<lparr>jn_db := db2\<rparr>)))" by (rule keepsD)
  moreover have rest: "commit_transition env i op OpUncertain VNone None (Some c) [] s = ?rest (s\<lparr>jn_db := db2\<rparr>)"
    using tx by (simp add: commit_transition_def others_def sbind_def [of "others env i"]
        sbind_def [of "journal_transact (transition_tx env i op OpUncertain VNone None (Some c) [])"] journal_transact_def)
  moreover have key2: "strip key \<in> o_key ` set (j_ops db2)"
    using keys_inv.moves [OF mv wf1, of "{strip key}"] key1 by simp
  moreover have "fst (?rest (s\<lparr>jn_db := db2\<rparr>)) = Inl OperationStateError
      \<or> (\<forall>q \<in> set (j_ops db2). o_key q = strip key \<longrightarrow> o_state q = OpUncertain)"
  proof -
    have wf2: "op_wf db2" by (rule op_wf_moves [OF mv wf1])
    from key2 obtain q where q: "q \<in> set (j_ops db2)" "o_key q = strip key" by auto
    obtain l where l: "get_operation (op_key op) db2 = Inr (Some l)" "operation_of_row q = Inr l"
      using get_operation_row [OF wf2 q(1), of "op_key op"] q(2) cur(2) by auto
    have "o_state q' = op_state l" if "q' \<in> set (j_ops db2)" "o_key q' = strip key" for q'
      using op_wf_unique [OF wf2 that(1) q(1)] that(2) q(2) operation_of_row_fields [OF l(2)] by simp
    moreover have "journal_get (op_key op) (s\<lparr>jn_db := db2\<rparr>) = (Inr (Some l), s\<lparr>jn_db := db2\<rparr>)"
      using l(1) open' by (simp add: journal_get_iff)
    moreover have "mine \<Longrightarrow> op_state l = OpUncertain"
      using transition_tx_state(2) [OF wf1 _ tx q(1)] q(2) cur(2) operation_of_row_fields [OF l(2)] by simp
    ultimately show ?thesis
      by (cases "\<not> mine \<and> \<not> same_outcome l OpUncertain VNone None (Some c)")
        (auto simp: sbind_def [of "journal_get (op_key op)"] slift_def same_outcome_def)
  qed
  ultimately show ?thesis
    using op_wf_moves [OF mv wf1] transition_tx_state(1) [OF wf1 _ tx] cur(2) m by auto
qed

text \<open>A concrete journal: one operation whose provider fails, one that succeeds.\<close>

definition calm_env :: op_env where
  "calm_env = \<lparr>oe_now = (\<lambda>i. 100), oe_stamp = (\<lambda>i. 101), oe_digest = (\<lambda>x. x), oe_merge = (\<lambda>i n. ''m''),
     oe_other = (\<lambda>i db. db), oe_describe = (\<lambda>e. (''TimeoutError'', ''no answer''))\<rparr>"

definition fresh_journal :: journal where
  "fresh_journal = \<lparr>jn_db = empty_op_db, jn_rowset = None, jn_closed = False, jn_cursor = 0, jn_mirrored = None\<rparr>"

definition pay_request :: "(pykey \<times> pyval) list" where
  "pay_request = [(KStr ''to'', VStr ''bob''), (KStr ''amount'', VInt 5)]"

definition journal_calls :: "(op_env \<times> op_call) list" where
  "journal_calls = map (Pair calm_env)
     [Begin ''k1'' ''pay'' pay_request None None, Begin ''k2'' ''pay'' pay_request None None,
      Finish ''k1'' (Inl RuntimeError) (\<lambda>_. Inr None), Begin ''k1'' ''pay'' pay_request None None,
      Finish ''k2'' (Inr (VInt 7)) (\<lambda>_. Inr (Some ''ref'')),
      Reconcile ''k1'' (\<lambda>_. Inr (VBool False, VNone, None)) None]"

lemma calm_polite: "polite (\<lambda>x. x) calm_env"
  by (simp add: polite_def calm_env_def)

lemma journal_calls_polite: "\<forall>(env, c) \<in> set journal_calls. polite (\<lambda>x. x) env"
  by (simp add: journal_calls_def calm_polite)

lemma fresh_journal_wf: "op_wf (jn_db fresh_journal)"
  by (simp add: fresh_journal_def op_wf_empty)

text \<open>
  C31: a settled operation is final. Once an operation has succeeded or failed, no sequence
  of calls, by this journal or by other connections between its statements, changes its row.
\<close>

theorem settled_operations_final:
  assumes "\<forall>(env, c) \<in> set calls. polite d env" and "op_wf (jn_db s)"
    and "r \<in> set (j_ops (jn_db s))" and "terminal (o_state r)"
  shows "r \<in> set (j_ops (jn_db (op_session calls s)))"
  using settled_inv.session [OF assms(1,2), of r] assms(3,4) by blast

lemma settled_operations_final_witness:
  "\<exists>r \<in> set (j_ops (jn_db (op_session (journal_calls @ journal_calls) fresh_journal))).
     o_key r = ''k2'' \<and> o_state r = OpSucceeded \<and> o_result r = Some (VInt 7)"
proof -
  let ?s = "op_session journal_calls fresh_journal"
  have wf: "op_wf (jn_db ?s)"
    using settled_inv.session op_invariant.session [OF keys_inv.op_invariant_axioms, of journal_calls "\<lambda>x. x" fresh_journal "{}"]
      journal_calls_polite fresh_journal_wf by simp
  have "map (\<lambda>r. (o_key r, o_state r, o_result r)) (j_ops (jn_db ?s))
      = [(''k1'', OpFailed, None), (''k2'', OpSucceeded, Some (VInt 7))]" by code_simp
  then obtain q r where "j_ops (jn_db ?s) = [q, r]"
      and rk: "o_key r = ''k2''" "o_state r = OpSucceeded" "o_result r = Some (VInt 7)"
    by (auto simp: map_eq_Cons_conv)
  with rk have r: "r \<in> set (j_ops (jn_db ?s))" "o_key r = ''k2''" "o_state r = OpSucceeded" "o_result r = Some (VInt 7)"
    by simp_all
  have "terminal (o_state r)" using r(3) by (simp add: terminal_def)
  from settled_operations_final [OF journal_calls_polite wf r(1) this] r
  show ?thesis by (auto simp: op_session_def)
qed

text \<open>
  C8: at most one submission. In any interleaving of executions, retries, reconciliations
  and other connections' commits, no key is handed to its provider twice, and no key that
  is already in the journal is handed to its provider at all.
\<close>

theorem submitted_at_most_once:
  assumes "\<forall>(env, c) \<in> set calls. polite d env" and "op_wf (jn_db s)"
  shows "distinct (submissions calls s) \<and> set (submissions calls s) \<inter> o_key ` set (j_ops (jn_db s)) = {}"
  using assms by (rule session_submissions)

lemma submitted_at_most_once_witness:
  "submissions journal_calls fresh_journal = [''k1'', ''k2''] \<and> distinct (submissions journal_calls fresh_journal)"
  using submitted_at_most_once [OF journal_calls_polite fresh_journal_wf]
  by (intro conjI) (code_simp, blast)

text \<open>
  The outbox spells every history. After any session on a fresh journal, the events of
  each operation are \<open>prepared\<close>, then at most once \<open>uncertain\<close>, then at most one of
  \<open>succeeded\<close> and \<open>failed\<close>, ending in the state of its row.
\<close>

theorem outbox_spells_history:
  assumes "\<forall>(env, c) \<in> set calls. polite d env" and "inj d" and "jn_db s = empty_op_db"
    and "r \<in> set (j_ops (jn_db (op_session calls s)))"
  shows "op_events d (o_key r) (jn_db (op_session calls s)) \<in> op_histories (o_state r)"
  using history_inv.session [OF assms(1), of s] assms(2-4)
  by (simp add: op_wf_empty spelled_empty) (simp add: spelled_def)

lemma outbox_spells_history_witness:
  "op_events (\<lambda>x. x) ''k1'' (jn_db (op_session journal_calls fresh_journal))
    = [''operation_prepared'', ''operation_uncertain'', ''operation_failed'']"
proof -
  let ?s = "op_session journal_calls fresh_journal"
  have "map (\<lambda>r. (o_key r, o_state r)) (j_ops (jn_db ?s)) = [(''k1'', OpFailed), (''k2'', OpSucceeded)]"
    by code_simp
  then obtain r where r: "r \<in> set (j_ops (jn_db ?s))" "o_key r = ''k1''" "o_state r = OpFailed"
    by (cases "j_ops (jn_db ?s)") auto
  have e: "jn_db fresh_journal = empty_op_db" by (simp add: fresh_journal_def)
  have "op_events (\<lambda>x. x) ''k1'' (jn_db ?s) \<in> op_histories OpFailed"
    using outbox_spells_history [OF journal_calls_polite _ e r(1)] r by (simp add: inj_on_def)
  moreover have "length (op_events (\<lambda>x. x) ''k1'' (jn_db ?s)) = 3" by code_simp
  ultimately show ?thesis
    by (auto simp: op_histories_def TAG_OPERATION_PREPARED_def TAG_OPERATION_UNCERTAIN_def TAG_OPERATION_FAILED_def)
qed

text \<open>
  Identities are exclusive. In every session, keys and provider request identities
  name one operation each.
\<close>

theorem operation_identities_exclusive:
  assumes "\<forall>(env, c) \<in> set calls. polite d env" and "op_wf (jn_db s)"
  shows "distinct (map o_key (j_ops (jn_db (op_session calls s))))
    \<and> distinct (map o_provider_id (j_ops (jn_db (op_session calls s))))"
  using keys_inv.session [OF assms, of "{}"] by (simp add: op_wf_def)

lemma operation_identities_exclusive_witness:
  "map o_provider_id (j_ops (jn_db (op_session journal_calls fresh_journal))) = [Some ''k1'', Some ''k2'']
    \<and> distinct (map o_provider_id (j_ops (jn_db (op_session journal_calls fresh_journal))))"
  using operation_identities_exclusive [OF journal_calls_polite fresh_journal_wf]
  by (intro conjI) (code_simp, blast)

text \<open>
  A failed submission is never left looking unsubmitted. When the provider raises, the
  exception is raised again, and the row of the key is no longer pending, so a retry is
  refused until the operation is reconciled.
\<close>

theorem failed_submission_not_pending:
  assumes "polite d env" and "op_wf (jn_db s)" and "\<not> jn_closed s"
    and "r \<in> set (j_ops (jn_db s))" and "o_key r = strip key"
  shows "fst (end_execute env key (Inl e) reference s) = Inl e
    \<and> (\<exists>q \<in> set (j_ops (jn_db (snd (end_execute env key (Inl e) reference s)))).
         o_key q = strip key \<and> o_state q \<noteq> OpPending)"
proof -
  let ?m = "mark_uncertain env 2 key (Some (diagnostic env e))"
  obtain op where op: "get_operation key (jn_db s) = Inr (Some op)" "operation_of_row r = Inr op"
    using get_operation_row [OF assms(2,4), of key] assms(5) by auto
  have st: "op_state op = o_state r" using operation_of_row_fields [OF op(2)] by simp
  have get: "journal_get key s = (Inr (Some op), s)" using op(1) assms(3) by (simp add: journal_get_iff)
  have e: "end_execute env key (Inl e) reference s
      = sbind (mark_uncertain_after_submission env 2 key e) (\<lambda>_. slift (Inl e)) s"
    by (simp add: end_execute_def stry_def)
  show ?thesis
  proof (cases "o_state r = OpPending")
    case False
    then show ?thesis using get st assms(4,5)
      by (auto simp: e mark_uncertain_after_submission_def sbind_def sret_def slift_def)
  next
    case True
    obtain x s1 where m: "?m s = (x, s1)" by fastforce
    from mark_uncertain_leaves [OF assms(1-5) True, of 2 e] m obtain db where db: "rests_at db s1" "op_wf db"
      "strip key \<in> o_key ` set (j_ops db)" "\<forall>q \<in> set (j_ops db). o_key q = strip key \<longrightarrow> o_state q \<noteq> OpPending"
      "x = Inl OperationStateError \<or> (\<forall>q \<in> set (j_ops db). o_key q = strip key \<longrightarrow> o_state q = OpUncertain)"
      unfolding m fst_conv snd_conv by blast
    then obtain q where q: "q \<in> set (j_ops db)" "o_key q = strip key" by auto
    obtain l where l: "get_operation key db = Inr (Some l)" "operation_of_row q = Inr l"
      using get_operation_row [OF db(2) q(1), of key] q(2) by auto
    have "journal_get key s1 = (Inr (Some l), s1)" using l(1) db(1) by (simp add: journal_get_iff rests_at_def)
    moreover have "x = Inl OperationStateError \<or> op_state l = OpUncertain"
      using db(5) q operation_of_row_fields [OF l(2)] by auto
    ultimately have "mark_uncertain_after_submission env 2 key e s = (Inr (), s1)"
      using get st True m
      by (cases x) (auto simp: mark_uncertain_after_submission_def sbind_def stry_def sret_def slift_def)
    then show ?thesis using q db(1,4) by (auto simp: e sbind_def slift_def rests_at_def)
  qed
qed

lemma failed_submission_not_pending_witness:
  "fst (end_execute calm_env ''k1'' (Inl RuntimeError) (\<lambda>_. Inr None)
      (op_session [(calm_env, Begin ''k1'' ''pay'' pay_request None None)] fresh_journal)) = Inl RuntimeError"
proof -
  let ?s = "op_session [(calm_env, Begin ''k1'' ''pay'' pay_request None None)] fresh_journal"
  have wf: "op_wf (jn_db ?s)"
    using keys_inv.session [of "[(calm_env, Begin ''k1'' ''pay'' pay_request None None)]" "\<lambda>x. x" fresh_journal "{}"]
      calm_polite fresh_journal_wf by simp
  have "map o_key (j_ops (jn_db ?s)) = [''k1'']" and open': "\<not> jn_closed ?s" by code_simp+
  then obtain r where r: "r \<in> set (j_ops (jn_db ?s))" "o_key r = ''k1''" by auto
  have "strip ''k1'' = ''k1''" by code_simp
  then show ?thesis
    using failed_submission_not_pending [OF calm_polite wf open' r(1), of "''k1''"] r(2) by simp
qed

text \<open>
  An execution returns only a success. Whatever other workers do while the provider
  runs, the operation \<open>execute\<close> returns has succeeded.
\<close>

theorem execute_returns_success:
  assumes "polite d env" and "op_wf (jn_db s)" and "\<And>s. op_wf (jn_db s) \<Longrightarrow> op_wf (jn_db (busy s))"
    and "execute env key knd request provider reference effect pid busy s = (Inr op, s')"
  shows "op_state op = OpSucceeded"
proof -
  obtain sub s1 where b: "begin_execute env key knd request effect pid s = (Inr sub, s1)"
    and f: "(case sub of Settled op \<Rightarrow> sret op
       | Submit \<Rightarrow> (\<lambda>s. end_execute env key (provider key) reference (busy s))) s1 = (Inr op, s')"
    using assms(4) by (auto simp: execute_def sbind_Inr_iff)
  show ?thesis
  proof (cases sub)
    case (Settled x)
    then show ?thesis
      using b f by (auto simp: begin_execute_def raise_iffs split: prod.splits if_splits)
  next
    case Submit
    have "moved d (jn_db s) s1"
      using keepsD [OF keeps_execute(2) [OF assms(1)], of "jn_db s" s key knd request effect pid] b assms(2)
      by (simp add: moved_def)
    then have wf: "op_wf (jn_db (busy s1))" using assms(3) by (simp add: moved_def)
    obtain result ref where "settle env 1 key result ref (busy s1) = (Inr op, s')"
      using f Submit by (auto simp: end_execute_def stry_def slift_def sbind_def sret_def
          split: prod.splits sum.splits)
    then show ?thesis using transition_state [OF assms(1) wf] by (auto simp: settle_def)
  qed
qed

lemma execute_returns_success_witness:
  "\<exists>op s'. execute calm_env ''k9'' ''pay'' pay_request (\<lambda>k. Inr (VStr k)) (\<lambda>_. Inr None) None None (\<lambda>s. s) fresh_journal
     = (Inr op, s') \<and> op_state op = OpSucceeded"
proof -
  let ?e = "execute calm_env ''k9'' ''pay'' pay_request (\<lambda>k. Inr (VStr k)) (\<lambda>_. Inr None) None None (\<lambda>s. s) fresh_journal"
  have "(case fst ?e of Inl e \<Rightarrow> False | Inr op \<Rightarrow> True)" by code_simp
  then obtain op s' where r: "?e = (Inr op, s')" by (cases ?e) (auto split: sum.splits)
  with execute_returns_success [OF calm_polite fresh_journal_wf _ r] show ?thesis by blast
qed

end
