(* ===== verification/PolicyProps.thy ===== *)
theory PolicyProps
  imports Policy
begin

text \<open>
  What the policy registry (\<open>lipas/coordination_policy.py\<close>) guarantees: its tables stay
  consistent with each other and with the audit trail, a revoked delegation stays revoked,
  and a delegation never allows more than its grantor may do.
\<close>

section \<open>Sets of strings\<close>

lemma frozen_set [simp]: "set (frozen xs) = set xs" "distinct (frozen xs)" "sorted (frozen xs)"
  by (simp_all add: frozen_def)

lemma frozen_frozen [simp]: "frozen (frozen xs) = frozen xs"
  by (simp add: frozen_def distinct_remdups_id sort_key_id_if_sorted)

lemma frozen_id: "sorted xs \<Longrightarrow> distinct xs \<Longrightarrow> frozen xs = xs"
  by (simp add: frozen_def distinct_remdups_id sort_key_id_if_sorted)

definition normal :: "string list \<Rightarrow> bool" where
  "normal xs \<longleftrightarrow> normal_set xs = Inr xs"

lemma normal_iff: "normal xs \<longleftrightarrow> sorted xs \<and> distinct xs \<and> (\<forall>x \<in> set xs. strip x = x \<and> x \<noteq> [])"
proof
  assume n: "normal xs"
  then have f: "frozen (map strip xs) = xs" "\<forall>x \<in> set xs. strip x \<noteq> []"
    by (auto simp: normal_def normal_set_def Let_def split: if_splits)
  then have "sorted xs" "distinct xs" by (metis frozen_set)+
  moreover have "strip x = x" if "x \<in> set xs" for x
  proof -
    have "x \<in> set (frozen (map strip xs))" using that f(1) by simp
    then obtain y where "x = strip y" by auto
    then show ?thesis by simp
  qed
  ultimately show "sorted xs \<and> distinct xs \<and> (\<forall>x \<in> set xs. strip x = x \<and> x \<noteq> [])" using f(2) by metis
next
  assume n: "sorted xs \<and> distinct xs \<and> (\<forall>x \<in> set xs. strip x = x \<and> x \<noteq> [])"
  then have "map strip xs = xs" by (simp add: map_idI)
  with n show "normal xs" by (auto simp: normal_def normal_set_def frozen_id)
qed

lemma normal_set_normal: "normal_set xs = Inr ys \<Longrightarrow> normal ys"
  by (fastforce simp: normal_set_def Let_def normal_iff split: if_splits)

lemma normal_set_empty: "normal_set xs = Inr [] \<Longrightarrow> xs = []"
  by (auto simp: normal_set_def Let_def split: if_splits)

definition identity_ok :: "identity \<Rightarrow> bool" where
  "identity_ok w \<longleftrightarrow> make_identity (wi_id w) (wi_name w) (wi_roles w) (wi_scopes w) = Inr w"

definition delegation_ok :: "delegation \<Rightarrow> bool" where
  "delegation_ok d \<longleftrightarrow> identity_ok (dl_grantor d) \<and> identity_ok (dl_delegate d) \<and> strip (dl_id d) = dl_id d
     \<and> dl_id d \<noteq> [] \<and> dl_scopes d \<noteq> [] \<and> normal (dl_scopes d)"

text \<open>What the two constructors build is well-formed.\<close>

lemma make_identity_ok: "make_identity i n r sc = Inr w \<Longrightarrow> identity_ok w"
proof -
  assume "make_identity i n r sc = Inr w"
  then have w: "policy_text (wi_id w) = Inr (wi_id w)" "policy_text (wi_name w) = Inr (wi_name w)"
      "normal (wi_roles w)" "normal (wi_scopes w)"
    by (auto simp: make_identity_def policy_text_def split: if_splits dest: normal_set_normal)
  then show ?thesis by (simp add: identity_ok_def make_identity_def normal_def)
qed

lemma make_delegation_ok:
  "identity_ok g \<Longrightarrow> identity_ok w \<Longrightarrow> make_delegation i g w sc x = Inr d \<Longrightarrow> delegation_ok d"
  by (auto simp: make_delegation_def delegation_ok_def policy_text_def guard_or_def
      dest: normal_set_normal normal_set_empty split: if_splits)

section \<open>Attenuation\<close>

text \<open>What a granted scope covers, the grants that granted it cover too.\<close>

lemma starts_with_iff: "starts_with s p \<longleftrightarrow> (\<exists>t. s = p @ t)"
  by (auto simp: starts_with_def) (metis append_take_drop_id)

lemma ends_with_iff: "ends_with s p \<longleftrightarrow> (\<exists>t. s = t @ p)"
proof -
  have "(\<exists>t. rev s = rev p @ t) \<longleftrightarrow> (\<exists>t. s = t @ p)"
    by (metis rev_append rev_rev_ident)
  then show ?thesis by (simp add: ends_with_def starts_with_iff)
qed

lemma last_star:
  assumes "c \<noteq> x" and "t @ [c, x] = v @ [c] @ w"
  shows "\<exists>w'. t @ [c] = v @ [c] @ w'"
proof (cases w rule: rev_cases)
  case Nil
  then have "(t @ [c]) @ [x] = v @ [c]" using assms(2) by simp
  then show ?thesis using assms(1) by simp
next
  case (snoc w' y)
  then have "(t @ [c]) @ [x] = (v @ [c] @ w') @ [y]" using assms(2) by simp
  then show ?thesis by (simp only: append1_eq_conv) blast
qed

lemma wildcard_covers:
  assumes "granted sc grant" and "ends_with grant '':*''" and "starts_with scope (butlast grant)"
  shows "granted sc scope"
proof -
  from assms(2) obtain t where g: "grant = t @ '':*''" by (auto simp: ends_with_iff)
  from assms(3) obtain u where s: "scope = t @ '':'' @ u" by (auto simp: starts_with_iff g butlast_append)
  show ?thesis
  proof (cases "grant \<in> set sc \<or> ''*'' \<in> set sc")
    case True
    then show ?thesis using assms(2,3) by (auto simp: granted_def)
  next
    case False
    then obtain h where h: "h \<in> set sc" "ends_with h '':*''" "starts_with grant (butlast h)"
      using assms(1) by (auto simp: granted_def)
    from h(2) obtain v where v: "h = v @ '':*''" by (auto simp: ends_with_iff)
    from h(3) obtain w where w: "grant = v @ '':'' @ w" by (auto simp: starts_with_iff butlast_append v)
    with g obtain w' where "t @ '':'' = v @ '':'' @ w'" using last_star [of "CHR '':''" "CHR ''*''" t v w] by auto
    then have "scope = butlast h @ w' @ u" by (simp add: s v butlast_append)
    then have "starts_with scope (butlast h)" by (auto simp: starts_with_iff)
    then show ?thesis using h by (auto simp: granted_def)
  qed
qed

lemma star_covers: "granted sc ''*'' \<Longrightarrow> ''*'' \<in> set sc"
  by (auto simp: granted_def starts_with_iff ends_with_iff butlast_append Cons_eq_append_conv)

text \<open>
  C16: delegations attenuate. A delegation that its grantor registered allows nothing the
  grantor may not do: whatever scope it allows at whatever time, the grantor's own grants,
  wildcards included, cover that scope.
\<close>

theorem delegation_attenuates:
  assumes "put_delegation d actor_id now s = (Inr d', s')"
    and "wi_id (dl_grantor d) \<noteq> ''system''" and "map_option strip actor_id \<noteq> Some ''system''"
    and "allows d scope at_time clock = Inr True" and "delegation_ok d"
  shows "can (dl_grantor d) scope"
proof -
  obtain actor where a: "(case actor_id of None \<Rightarrow> Inr (wi_id (dl_grantor d)) | Some a \<Rightarrow> policy_text a) = Inr actor"
    and "actor = ''system'' \<or> (\<forall>scope \<in> set (dl_scopes d). can (dl_grantor d) scope)"
    using assms(1) by (auto simp: put_delegation_def raise_iffs)
  moreover have "actor \<noteq> ''system''"
    using a assms(2,3) by (auto simp: policy_text_def split: option.splits if_splits)
  ultimately have held: "g \<in> set (dl_scopes d) \<Longrightarrow> can (dl_grantor d) g" for g by blast
  have ok: "strip scope \<noteq> []" "granted (dl_scopes d) (strip scope)"
    using assms(4) by (auto simp: allows_def split: if_splits)
  then consider "strip scope \<in> set (dl_scopes d)" | "''*'' \<in> set (dl_scopes d)"
    | g where "g \<in> set (dl_scopes d)" "ends_with g '':*''" "starts_with (strip scope) (butlast g)"
    by (auto simp: granted_def)
  then have "granted (wi_scopes (dl_grantor d)) (strip scope)"
  proof cases
    case 1
    then show ?thesis using held [of "strip scope"] by (simp add: can_def)
  next
    case 2
    have "strip ''*'' = ''*''" by code_simp
    then have "granted (wi_scopes (dl_grantor d)) ''*''" using held [OF 2] by (simp add: can_def)
    from star_covers [OF this] show ?thesis by (simp add: granted_def)
  next
    case 3
    have "strip g = g" using 3(1) assms(5) by (auto simp: delegation_ok_def normal_iff)
    then have "granted (wi_scopes (dl_grantor d)) g" using held [OF 3(1)] by (simp add: can_def)
    then show ?thesis using 3(2,3) by (rule wildcard_covers)
  qed
  then show ?thesis using ok(1) by (simp add: can_def)
qed

definition alice :: identity where
  "alice = \<lparr>wi_id = ''alice'', wi_name = ''Alice'', wi_roles = [], wi_scopes = [''mail:*'', ''run:start'']\<rparr>"

definition bob :: identity where
  "bob = \<lparr>wi_id = ''bob'', wi_name = ''Bob'', wi_roles = [''operator''], wi_scopes = []\<rparr>"

definition hand_over :: delegation where
  "hand_over = \<lparr>dl_id = ''d1'', dl_grantor = alice, dl_delegate = bob, dl_scopes = [''mail:in:*''],
     dl_expires = Some 50\<rparr>"

definition fresh_policies :: policy_store where
  "fresh_policies = \<lparr>ps_db = empty_policy_db, ps_closed = False\<rparr>"

lemma samples_ok: "delegation_ok hand_over" "identity_ok alice" "identity_ok bob"
proof -
  show i: "identity_ok alice" "identity_ok bob" by code_simp+
  have "normal (dl_scopes hand_over)" "strip ''d1'' = ''d1''" by code_simp+
  then show "delegation_ok hand_over" using i by (simp add: delegation_ok_def hand_over_def)
qed

lemma delegation_attenuates_witness: "can alice ''mail:in:read'' \<and> \<not> can alice ''mail''"
proof -
  have a: "allows hand_over ''mail:in:read'' (VInt 40) 0 = Inr True" by code_simp
  have n: "wi_id (dl_grantor hand_over) \<noteq> ''system''" by code_simp
  have "(case fst (put_delegation hand_over None (\<lambda>i. 7) fresh_policies) of Inl e \<Rightarrow> False | Inr d \<Rightarrow> True)"
    by code_simp
  then obtain d' s' where p: "put_delegation hand_over None (\<lambda>i. 7) fresh_policies = (Inr d', s')"
    by (cases "put_delegation hand_over None (\<lambda>i. 7) fresh_policies") (auto split: sum.splits)
  have "can (dl_grantor hand_over) ''mail:in:read''"
    by (rule delegation_attenuates [OF p n _ a samples_ok(1)]) simp
  moreover have "dl_grantor hand_over = alice" by (simp add: hand_over_def)
  moreover have "\<not> can alice ''mail''" by code_simp
  ultimately show ?thesis by simp
qed

section \<open>The registry and its audit trail\<close>

definition ev_identity :: "string \<Rightarrow> string" where "ev_identity i = ''identity:'' @ i @ '':created''"
definition ev_created :: "string \<Rightarrow> string" where "ev_created i = ''delegation:'' @ i @ '':created''"
definition ev_revoked :: "string \<Rightarrow> string" where "ev_revoked i = ''delegation:'' @ i @ '':revoked''"

text \<open>
  The tables agree: ids are unique, a delegation joins two registered identities, and the
  audit trail has exactly one event for every registration and every revocation.
\<close>

definition policy_wf :: "policy_db \<Rightarrow> bool" where
  "policy_wf db \<longleftrightarrow> distinct (map ir_id (p_identities db)) \<and> distinct (map dr_id (p_delegations db))
     \<and> distinct (map pe_id (p_audit db))
     \<and> (\<forall>r \<in> set (p_delegations db). {dr_grantor r, dr_delegate r} \<subseteq> ir_id ` set (p_identities db))
     \<and> pe_id ` set (p_audit db) = ev_identity ` ir_id ` set (p_identities db)
         \<union> ev_created ` dr_id ` set (p_delegations db)
         \<union> ev_revoked ` dr_id ` {r \<in> set (p_delegations db). dr_revoked r \<noteq> None}"

lemma policy_wf_empty: "policy_wf empty_policy_db"
  by (simp add: policy_wf_def empty_policy_db_def)

lemma policy_audit_Inr:
  assumes "policy_audit i k a pl now db = Inr db'"
  shows "p_identities db' = p_identities db" and "p_delegations db' = p_delegations db"
    and "pe_id ` set (p_audit db') = insert i (pe_id ` set (p_audit db))"
    and "distinct (map pe_id (p_audit db)) \<Longrightarrow> distinct (map pe_id (p_audit db'))"
    and "\<exists>t. p_audit db' = p_audit db @ t"
proof -
  obtain t where "policy_json (vobj pl) = Inr t" using assms by (auto simp: policy_audit_def)
  then show "p_identities db' = p_identities db" "p_delegations db' = p_delegations db"
    "pe_id ` set (p_audit db') = insert i (pe_id ` set (p_audit db))"
    "distinct (map pe_id (p_audit db)) \<Longrightarrow> distinct (map pe_id (p_audit db'))"
    "\<exists>t. p_audit db' = p_audit db @ t"
    using assms by (auto simp: policy_audit_def sql_first_None split: option.splits if_splits dest!: sql_first_Some)
qed

lemma put_identity_wf:
  assumes "policy_wf db" and "put_identity_tx w actor now db = Inr (x, db')"
  shows "policy_wf db'"
proof (cases "sql_first (\<lambda>r. ir_id r = wi_id w) (p_identities db)")
  case None
  then obtain roles scopes where a: "policy_audit (''identity:'' @ wi_id w @ '':created'') ''identity_created'' actor
      [(''identity_id'', VStr (wi_id w))] now
      (db\<lparr>p_identities := p_identities db @ [\<lparr>ir_id = wi_id w, ir_name = wi_name w,
          ir_roles = roles, ir_scopes = scopes, ir_created = now, ir_updated = now\<rparr>]\<rparr>) = Inr db'"
    using assms(2) by (auto simp: put_identity_tx_def)
  from None have "wi_id w \<notin> ir_id ` set (p_identities db)" by (auto simp: sql_first_None)
  then show ?thesis using assms(1) policy_audit_Inr [OF a]
    unfolding policy_wf_def by (auto simp: ev_identity_def)
next
  case (Some r)
  then show ?thesis using assms by (auto simp: put_identity_tx_def split: if_splits)
qed

lemma put_delegation_wf:
  assumes "policy_wf db" and "put_delegation_tx d actor now db = Inr (x, db')"
  shows "policy_wf db'"
proof (cases "sql_first (\<lambda>r. dr_id r = dl_id d) (p_delegations db)")
  case None
  then obtain scopes where fk: "{wi_id (dl_grantor d), wi_id (dl_delegate d)} \<subseteq> ir_id ` set (p_identities db)"
    and a: "policy_audit (''delegation:'' @ dl_id d @ '':created'') ''delegation_created'' actor
      [(''delegation_id'', VStr (dl_id d))] now
      (db\<lparr>p_delegations := p_delegations db @ [\<lparr>dr_id = dl_id d, dr_grantor = wi_id (dl_grantor d),
              dr_delegate = wi_id (dl_delegate d), dr_scopes = scopes, dr_expires = dl_expires d,
              dr_revoked = None, dr_created = now\<rparr>]\<rparr>) = Inr db'"
    using assms(2) by (auto simp: put_delegation_tx_def split: if_splits)
  from None have "dl_id d \<notin> dr_id ` set (p_delegations db)" by (auto simp: sql_first_None)
  moreover have "{r \<in> set (p_delegations db'). dr_revoked r \<noteq> None} = {r \<in> set (p_delegations db). dr_revoked r \<noteq> None}"
    using policy_audit_Inr(2) [OF a] by auto
  ultimately show ?thesis using assms(1) policy_audit_Inr(1-4) [OF a] fk
    unfolding policy_wf_def by (simp add: ev_created_def insert_commute)
next
  case (Some r)
  then show ?thesis using assms by (auto simp: put_delegation_tx_def split: if_splits)
qed

lemma revoke_wf:
  assumes "policy_wf db" and "revoke_tx i actor now db = Inr (x, db')"
  shows "policy_wf db'"
proof -
  from assms(2) obtain r where r: "sql_first (\<lambda>r. dr_id r = i) (p_delegations db) = Some r"
    by (auto simp: revoke_tx_def split: option.splits)
  let ?u = "sql_update (\<lambda>r. dr_id r = i) (\<lambda>r. r\<lparr>dr_revoked := Some now\<rparr>) (p_delegations db)"
  show ?thesis
  proof (cases "dr_revoked r")
    case (Some t)
    then show ?thesis using assms r by (auto simp: revoke_tx_def split: if_splits)
  next
    case None
    with assms(2) r have a: "policy_audit (''delegation:'' @ i @ '':revoked'') ''delegation_revoked'' actor
        [(''delegation_id'', VStr i)] now (db\<lparr>p_delegations := ?u\<rparr>) = Inr db'"
      by (auto simp: revoke_tx_def split: if_splits)
    note f = policy_audit_Inr [OF a]
    have mem: "r \<in> set (p_delegations db)" "dr_id r = i" using sql_first_Some [OF r] by auto
    have keys: "map dr_id ?u = map dr_id (p_delegations db)" by (rule map_key_sql_update) simp
    then have kset: "dr_id ` set ?u = dr_id ` set (p_delegations db)" by (metis list.set_map)
    have rev: "dr_id ` {q \<in> set ?u. dr_revoked q \<noteq> None}
        = insert i (dr_id ` {q \<in> set (p_delegations db). dr_revoked q \<noteq> None})"
    proof -
      have "r\<lparr>dr_revoked := Some now\<rparr> \<in> set ?u" using mem by (auto simp: in_sql_update intro!: bexI [of _ r])
      then have "i \<in> dr_id ` {q \<in> set ?u. dr_revoked q \<noteq> None}" using mem(2)
        by (intro image_eqI [where x = "r\<lparr>dr_revoked := Some now\<rparr>"]) simp_all
      moreover have "q0 \<in> set ?u" if "q0 \<in> set (p_delegations db)" "dr_id q0 \<noteq> i" for q0
        using that by (auto simp: in_sql_update intro!: bexI [of _ q0])
      moreover have "dr_id q = i \<or> q \<in> set (p_delegations db)" if "q \<in> set ?u" for q
        using that by (auto simp: in_sql_update split: if_splits)
      ultimately show ?thesis by blast
    qed
    have fk: "\<forall>q \<in> set ?u. {dr_grantor q, dr_delegate q} \<subseteq> ir_id ` set (p_identities db)"
      using assms(1) by (auto simp: policy_wf_def in_sql_update)
    show ?thesis
      using assms(1) f(1-4) keys kset rev fk unfolding policy_wf_def by (simp add: ev_revoked_def)
  qed
qed

section \<open>Sessions\<close>

datatype policy_call =
    PutIdentity identity string rat
  | PutDelegation delegation "string option" "nat \<Rightarrow> rat"
  | Revoke string string rat
  | ClosePolicies

definition policy_step :: "policy_call \<Rightarrow> policy_store \<Rightarrow> policy_store" where
  "policy_step c s = (case c of
      PutIdentity w actor now \<Rightarrow> snd (put_identity w actor now s)
    | PutDelegation d actor now \<Rightarrow> snd (put_delegation d actor now s)
    | Revoke i actor now \<Rightarrow> snd (revoke_delegation i actor now s)
    | ClosePolicies \<Rightarrow> close_policy_store s)"

definition policy_session :: "policy_call list \<Rightarrow> policy_store \<Rightarrow> policy_store" where
  "policy_session calls s = foldl (\<lambda>s c. policy_step c s) s calls"

text \<open>A property of the tables that the three transactions keep holds after every session.\<close>

locale policy_invariant =
  fixes ok :: "policy_db \<Rightarrow> bool"
  assumes ok_identity: "ok db \<Longrightarrow> put_identity_tx w actor now db = Inr (x, db') \<Longrightarrow> ok db'"
    and ok_delegation: "ok db \<Longrightarrow> put_delegation_tx d actor now db = Inr (u, db') \<Longrightarrow> ok db'"
    and ok_revoke: "ok db \<Longrightarrow> revoke_tx i actor now db = Inr (v, db') \<Longrightarrow> ok db'"
begin

abbreviation kept :: "policy_store \<Rightarrow> bool" where
  "kept s \<equiv> ok (ps_db s)"

lemma keeps_tx:
  assumes "\<And>db x db'. ok db \<Longrightarrow> tx db = Inr (x, db') \<Longrightarrow> ok db'"
  shows "keeps kept (policy_transact tx)"
  using assms by (auto simp: keeps_def policy_transact_def split: sum.split prod.split)

lemma keeps_open: "keeps kept policy_open"
  by (simp add: keeps_def policy_open_def)

lemma keeps_methods:
  "keeps kept (put_identity w actor now)" "keeps kept (put_delegation d actor_id stamps)"
  "keeps kept (revoke_delegation i actor now)"
proof -
  have tx: "keeps kept (policy_transact (put_identity_tx w actor now))"
    "keeps kept (policy_transact (put_delegation_tx d actor now))"
    "keeps kept (policy_transact (revoke_tx i actor now))" for w actor now d i
    by (rule keeps_tx, erule (1) ok_identity ok_delegation ok_revoke)+
  show "keeps kept (put_identity w actor now)" "keeps kept (put_delegation d actor_id stamps)"
    "keeps kept (revoke_delegation i actor now)"
    unfolding put_identity_def put_delegation_def revoke_delegation_def
    by (intro keeps_intros keeps_open tx)+
qed

lemma session: "kept s \<Longrightarrow> kept (policy_session calls s)"
proof (induction calls arbitrary: s)
  case (Cons c calls)
  then have "kept (policy_step c s)"
    by (cases c) (auto simp: policy_step_def close_policy_store_def intro: keepsD [OF keeps_methods(1)]
        keepsD [OF keeps_methods(2)] keepsD [OF keeps_methods(3)])
  then show ?case using Cons.IH by (simp add: policy_session_def)
qed (simp add: policy_session_def)

end

interpretation registry: policy_invariant policy_wf
  by unfold_locales (rule put_identity_wf put_delegation_wf revoke_wf; assumption)+

text \<open>A revoked row stays as it is, and the audit trail only grows.\<close>

lemma revoked_kept:
  assumes "distinct (map dr_id (p_delegations db))" and "r \<in> set (p_delegations db)" and "dr_revoked r \<noteq> None"
    and "revoke_tx i actor now db = Inr (x, db')"
  shows "r \<in> set (p_delegations db')"
proof (cases "dr_id r = i")
  case True
  then have "sql_first (\<lambda>r. dr_id r = i) (p_delegations db) = Some r"
    using assms(1,2) by (simp add: sql_first_key)
  then show ?thesis using assms(2-4) by (auto simp: revoke_tx_def split: if_splits)
next
  case False
  then show ?thesis using assms(2,4)
    by (auto simp: revoke_tx_def in_sql_update policy_audit_Inr split: option.splits if_splits dest!: policy_audit_Inr(2))
qed

interpretation revocation: policy_invariant
  "\<lambda>db. policy_wf db \<and> r \<in> set (p_delegations db) \<and> dr_revoked r \<noteq> None" for r
proof
  fix db w actor now x db' d u i v
  assume ok: "policy_wf db \<and> r \<in> set (p_delegations db) \<and> dr_revoked r \<noteq> None"
  show "policy_wf db' \<and> r \<in> set (p_delegations db') \<and> dr_revoked r \<noteq> None"
    if "put_identity_tx w actor now db = Inr (x, db')"
    using ok that put_identity_wf [of db] by (auto simp: put_identity_tx_def split: option.splits if_splits
        dest!: policy_audit_Inr(2))
  show "policy_wf db' \<and> r \<in> set (p_delegations db') \<and> dr_revoked r \<noteq> None"
    if "put_delegation_tx d actor now db = Inr (u, db')"
    using ok that put_delegation_wf [of db] by (auto simp: put_delegation_tx_def split: option.splits if_splits
        dest!: policy_audit_Inr(2))
  show "policy_wf db' \<and> r \<in> set (p_delegations db') \<and> dr_revoked r \<noteq> None"
    if "revoke_tx i actor now db = Inr (v, db')"
    using ok that revoke_wf [of db] revoked_kept [of db r] by (auto simp: policy_wf_def [of db])
qed

section \<open>Properties of the registry\<close>

text \<open>
  The registry is consistent with its audit trail. After every session on an empty
  registry ids are unique, every delegation joins two registered identities, and the trail
  holds exactly one event for each registration and each revocation and no others.
\<close>

theorem registry_matches_audit:
  assumes "ps_db s = empty_policy_db"
  shows "policy_wf (ps_db (policy_session calls s))"
  using assms by (intro registry.session) (simp add: policy_wf_empty)

definition policy_calls :: "policy_call list" where
  "policy_calls = [PutDelegation hand_over None (\<lambda>i. 7), PutIdentity bob ''root'' 8,
     Revoke ''d1'' ''bob'' 9, Revoke ''d1'' ''alice'' 10, Revoke ''d1'' ''alice'' 11]"

lemma registry_matches_audit_witness:
  "policy_wf (ps_db (policy_session policy_calls fresh_policies))
    \<and> map pe_id (p_audit (ps_db (policy_session policy_calls fresh_policies)))
      = [''identity:alice:created'', ''identity:bob:created'', ''delegation:d1:created'', ''delegation:d1:revoked'']"
  using registry_matches_audit [of fresh_policies policy_calls]
  by (intro conjI) (simp add: fresh_policies_def, code_simp)

text \<open>
  C32: revocation is permanent. Once a delegation is revoked, no session brings it back:
  the registry answers every later lookup with nothing.
\<close>

theorem revocation_is_permanent:
  assumes "policy_wf (ps_db s)" and "r \<in> set (p_delegations (ps_db s))" and "dr_revoked r \<noteq> None"
    and "get_delegation i False (policy_session calls s) = (Inr res, s')" and "strip i = dr_id r"
  shows "res = None"
proof -
  let ?s = "policy_session calls s"
  have wf: "policy_wf (ps_db ?s)" "r \<in> set (p_delegations (ps_db ?s))"
    using revocation.session [where r = r and s = s and calls = calls] assms(1-3) by simp_all
  then have "sql_first (\<lambda>q. dr_id q = dr_id r) (p_delegations (ps_db ?s)) = Some r"
    by (simp add: sql_first_key policy_wf_def)
  then show ?thesis using assms(3-5)
    by (auto simp: get_delegation_def raise_iffs policy_open_def policy_text_def split: if_splits)
qed

lemma revocation_is_permanent_witness:
  "fst (get_delegation ''d1'' False (policy_session policy_calls (policy_session policy_calls fresh_policies))) = Inr None"
proof -
  let ?s = "policy_session policy_calls fresh_policies"
  have wf: "policy_wf (ps_db ?s)" by (intro registry.session) (simp add: fresh_policies_def policy_wf_empty)
  have "map (\<lambda>r. (dr_id r, dr_revoked r)) (p_delegations (ps_db ?s)) = [(''d1'', Some 10)]" by code_simp
  then obtain r where r: "r \<in> set (p_delegations (ps_db ?s))" "dr_id r = ''d1''" "dr_revoked r = Some 10"
    by (cases "p_delegations (ps_db ?s)") auto
  have "(case fst (get_delegation ''d1'' False (policy_session policy_calls ?s)) of Inl e \<Rightarrow> False | Inr res \<Rightarrow> True)"
    by code_simp
  then obtain res s' where g: "get_delegation ''d1'' False (policy_session policy_calls ?s) = (Inr res, s')"
    by (cases "get_delegation ''d1'' False (policy_session policy_calls ?s)") (auto split: sum.splits)
  have "strip ''d1'' = ''d1''" by code_simp
  then have "res = None" using revocation_is_permanent [OF wf r(1) _ g] r(2,3) by simp
  then show ?thesis using g by simp
qed

text \<open>
  Registering a revoked delegation again looks like success. The second
  \<open>put_delegation\<close> returns the delegation, yet it stays revoked and no lookup finds it.
\<close>

theorem revoked_delegation_put_again:
  "fst (put_delegation hand_over None (\<lambda>i. 20) (policy_session policy_calls fresh_policies)) = Inr hand_over
    \<and> fst (get_delegation ''d1'' False
        (snd (put_delegation hand_over None (\<lambda>i. 20) (policy_session policy_calls fresh_policies)))) = Inr None"
  by (intro conjI) code_simp+

text \<open>
  Budget estimates stay inside the policy. An accepted estimate names only buckets the
  policy limits, each once, each with a positive amount.
\<close>

theorem estimate_within_policy:
  assumes "estimate p answer = Inr amounts"
  shows "distinct (map fst amounts) \<and> fst ` set amounts \<subseteq> fst ` set (bp_limits p) \<and> (\<forall>(b, a) \<in> set amounts. 0 < a)"
proof -
  obtain raw where "efoldl (estimate_item (bp_limits p)) [] raw = Inr amounts"
    using assms by (auto simp: estimate_def)
  then show ?thesis
  proof (rule efoldl_invariant)
    fix acc x acc'
    assume acc: "distinct (map fst acc) \<and> fst ` set acc \<subseteq> fst ` set (bp_limits p) \<and> (\<forall>(b, a) \<in> set acc. 0 < a)"
      and "estimate_item (bp_limits p) acc x = Inr acc'"
    then obtain b where kb: "fst x = KStr b" by (cases "fst x") (simp_all add: estimate_item_def)
    with \<open>estimate_item (bp_limits p) acc x = Inr acc'\<close>
    have "b \<in> fst ` set (bp_limits p)"
      and "ebind (nonneg_amount (snd x)) (\<lambda>r. Inr (if r = 0 then acc else dict_put b r acc)) = Inr acc'"
      by (simp_all add: estimate_item_def del: ebind_eq_Inr_iff split: if_splits)
    then obtain r where "b \<in> fst ` set (bp_limits p)" and r: "nonneg_amount (snd x) = Inr r"
        "acc' = (if r = 0 then acc else dict_put b r acc)" by (cases "nonneg_amount (snd x)") simp_all
    moreover have "0 \<le> r" using r(1) by (auto simp: nonneg_amount_def split: option.splits if_splits)
    ultimately have "acc' = acc \<or> (\<exists>b r. b \<in> fst ` set (bp_limits p) \<and> 0 < r \<and> acc' = dict_put b r acc)"
      by (cases "r = 0") (auto simp: order_less_le)
    then show "distinct (map fst acc') \<and> fst ` set acc' \<subseteq> fst ` set (bp_limits p) \<and> (\<forall>(b, a) \<in> set acc'. 0 < a)"
    proof
      assume "\<exists>b r. b \<in> fst ` set (bp_limits p) \<and> 0 < r \<and> acc' = dict_put b r acc"
      then obtain b r where "b \<in> fst ` set (bp_limits p)" "0 < r" "acc' = dict_put b r acc" by blast
      then show ?thesis using acc set_dict_put [of b r acc] by auto
    qed (use acc in simp)
  qed simp
qed

lemma estimate_within_policy_witness:
  "\<exists>p. make_budget_policy [(KStr ''handoffs'', VInt 3), (KStr ''tokens'', VInt 1000)] ''team'' = Inr p
    \<and> estimate p (Some (VDict [(KStr ''tokens'', VInt 40), (KStr ''handoffs'', VInt 0)])) = Inr [(''tokens'', 40)]
    \<and> fst ` set [(''tokens'', 40 :: rat)] \<subseteq> fst ` set (bp_limits p)"
proof -
  let ?p = "\<lparr>bp_limits = [(''handoffs'', 3), (''tokens'', 1000)], bp_scope = ''team''\<rparr>"
  have p: "make_budget_policy [(KStr ''handoffs'', VInt 3), (KStr ''tokens'', VInt 1000)] ''team'' = Inr ?p"
    by code_simp
  have e: "estimate ?p (Some (VDict [(KStr ''tokens'', VInt 40), (KStr ''handoffs'', VInt 0)])) = Inr [(''tokens'', 40)]"
    by code_simp
  from p e estimate_within_policy [OF e] show ?thesis by blast
qed

end
