(* ===== verification/RetryProps.thy ===== *)
theory RetryProps
  imports Retry
begin

text \<open>
  What retried calls guarantee (\<open>lipas/retry.py\<close>): every attempt is accounted for, only
  retryable failures whose text nobody has seen are retried, and calls end.
\<close>

section \<open>One attempt\<close>

lemma put_run [simp]: "sbind (sput f) k s = k () (f s)"
  by (simp add: sbind_def sput_def)

lemma get_run [simp]: "sbind (sget f) k s = k (f s) s"
  by (simp add: sbind_def sget_def)

lemma moment_run [simp]: "sbind moment k r = k (rr_now r) (r\<lparr>rr_now := rr_now r + 1\<rparr>)"
  by (simp add: sbind_def moment_def)

lemma deliver_run: "deliver env e r = (Inr u, r') \<Longrightarrow>
    rr_replies r' = rr_replies r \<and> rr_delays r' = rr_delays r
    \<and> (rr_visible r' \<longleftrightarrow> rr_visible r \<or> re_sink env \<noteq> None \<and> \<not> is_done_event e)"
  by (auto simp: deliver_def slift_Inr_iff sret_Inr_iff split: option.splits)

lemma read_events_run: "read_events env ending es r = (Inr found, r') \<Longrightarrow>
    rr_replies r' = rr_replies r \<and> rr_delays r' = rr_delays r
    \<and> (\<forall>reply. found = Some reply \<longrightarrow> DoneEvent reply \<in> set es) \<and> (rr_visible r \<longrightarrow> rr_visible r')
    \<and> (rr_visible r' \<longrightarrow> rr_visible r \<or> (\<exists>e \<in> set es. \<not> is_done_event e))
    \<and> (\<not> rr_visible r' \<and> re_sink env \<noteq> None \<longrightarrow> es = [] \<or> is_done_event (hd es))"
proof (induction es arbitrary: r)
  case Nil
  then show ?case by (auto simp: raise_iffs split: stream_end.splits)
next
  case (Cons e es)
  then obtain u r1 where d: "deliver env e r = (Inr u, r1)"
    and rest: "(case e of DoneEvent reply \<Rightarrow> sret (Some reply) | _ \<Rightarrow> read_events env ending es) r1 = (Inr found, r')"
    by (auto simp: sbind_Inr_iff)
  show ?case
  proof (cases "is_done_event e")
    case True
    then obtain reply where "e = DoneEvent reply" by (cases e) auto
    with rest deliver_run [OF d] show ?thesis by (auto simp: sret_Inr_iff)
  next
    case False
    then have "read_events env ending es r1 = (Inr found, r')" using rest by (cases e) auto
    from Cons.IH [OF this] deliver_run [OF d] False show ?thesis by auto
  qed
qed

lemma complete_call_run:
  assumes "complete_call env st r = (Inr reply, r')"
  shows "rr_replies r' = rr_replies r \<and> rr_delays r' = rr_delays r \<and> DoneEvent reply \<in> set (st_events st)
    \<and> (rr_visible r' \<longrightarrow> rr_visible r \<or> (\<exists>e \<in> set (st_events st). \<not> is_done_event e))
    \<and> (\<not> rr_visible r' \<and> re_sink env \<noteq> None \<longrightarrow> is_done_event (hd (st_events st)))"
proof (cases "read_events env (st_ending st) (st_events st) r")
  case (Pair x r1)
  with assms obtain found where "x = Inr found" "found = Some reply" "r1 = r'"
    by (cases x) (auto simp: complete_call_def stry_def raise_iffs split: option.splits)
  with Pair read_events_run [of env "st_ending st" "st_events st" r found r1] show ?thesis by auto
qed

lemma run_attempt_run:
  assumes "run_attempt env a r = (Inr reply, r')"
  shows "rr_replies r' = rr_replies r @ [reply] \<and> rr_delays r' = rr_delays r
    \<and> DoneEvent reply \<in> set (st_events (re_stream env a))
    \<and> (rr_visible r' \<longrightarrow> (\<exists>e \<in> set (st_events (re_stream env a)). \<not> is_done_event e))
    \<and> (\<not> rr_visible r' \<and> re_sink env \<noteq> None \<longrightarrow> is_done_event (hd (st_events (re_stream env a))))"
proof -
  from assms obtain r1 where "complete_call env (re_stream env a) (r\<lparr>rr_visible := False\<rparr>) = (Inr reply, r1)"
    "r' = r1\<lparr>rr_replies := rr_replies r1 @ [reply]\<rparr>"
    by (auto simp: run_attempt_def sbind_Inr_iff [of "complete_call _ _"] sret_Inr_iff)
  with complete_call_run [OF this(1)] show ?thesis by simp
qed

lemma report_attempt_run: "report_attempt env a reply kind r = (Inr u, r') \<Longrightarrow>
    rr_replies r' = rr_replies r \<and> rr_delays r' = rr_delays r \<and> rr_visible r' = rr_visible r"
  by (auto simp: report_attempt_def raise_iffs split: option.splits)

lemma back_off_run: "back_off env p a r = (Inr u, r') \<Longrightarrow>
    rr_replies r' = rr_replies r \<and> length (rr_delays r') = Suc (length (rr_delays r)) \<and> rr_visible r' = rr_visible r"
  by (auto simp: back_off_def sbind_Inr_iff [of "slift _"] slift_Inr_iff Let_def)

section \<open>The loop\<close>

definition usage_plus :: "usage \<Rightarrow> usage \<Rightarrow> usage" where
  "usage_plus u v = \<lparr>us_input = us_input u + us_input v, us_output = us_output u + us_output v,
     us_cache_read = us_cache_read u + us_cache_read v, us_cache_write = us_cache_write u + us_cache_write v\<rparr>"

lemma usage_add_plus: "usage_add u v = Inr w \<Longrightarrow> w = usage_plus u v"
  by (auto simp: usage_add_def make_usage_def usage_plus_def)

text \<open>
  Why an attempt was followed by another one: it failed, its kind may be retried and has
  attempts left, and the sink, if there is one, has been shown nothing of it.
\<close>

definition retried :: "retry_env \<Rightarrow> (error_kind \<times> retry_policy) list \<Rightarrow> nat \<Rightarrow> reply \<Rightarrow> bool" where
  "retried env table i reply \<longleftrightarrow> rp_stop_reason reply = ''error''
     \<and> (\<exists>k p. classify (re_show env) reply = Inr k \<and> map_of table k = Some p \<and> po_should_retry p
          \<and> int i + 1 < po_max_attempts p)
     \<and> (re_sink env \<noteq> None \<longrightarrow> is_done_event (hd (st_events (re_stream env i))))"

text \<open>Why the last attempt was the last one.\<close>

definition final_attempt :: "retry_env \<Rightarrow> (error_kind \<times> retry_policy) list \<Rightarrow> nat \<Rightarrow> reply \<Rightarrow> bool" where
  "final_attempt env table i reply \<longleftrightarrow> (rp_stop_reason reply = ''error'' \<longrightarrow>
     (\<exists>k p. classify (re_show env) reply = Inr k \<and> map_of table k = Some p
        \<and> (\<not> po_should_retry p \<or> po_max_attempts p \<le> int i + 1
           \<or> (\<exists>e \<in> set (st_events (re_stream env i)). \<not> is_done_event e))))"

lemma retry_loop_run:
  "retry_loop env table a used r = (Inr out, r') \<Longrightarrow> \<exists>earlier.
     rr_replies r' = rr_replies r @ earlier @ [ro_reply out]
     \<and> ro_attempts out = int (a + length earlier) + 1
     \<and> length (rr_delays r') = length (rr_delays r) + length earlier
     \<and> ro_total_usage out = Some (foldl usage_plus used (map rp_usage (earlier @ [ro_reply out])))
     \<and> (\<forall>i < length earlier. retried env table (a + i) (earlier ! i))
     \<and> final_attempt env table (a + length earlier) (ro_reply out)"
proof (induction env table a used arbitrary: r rule: retry_loop.induct)
  case (1 env table a used)
  from 1(2) obtain reply r1 billed kind u r2 where
    att: "run_attempt env a r = (Inr reply, r1)" and billed: "usage_add used (rp_usage reply) = Inr billed"
    and kind: "attempt_kind env reply = Inr kind" and rep: "report_attempt env a reply kind r1 = (Inr u, r2)"
    and go: "(case kind of None \<Rightarrow> slift (make_retry_outcome reply (int a + 1) (Some billed))
      | Some k \<Rightarrow> (case map_of table k of None \<Rightarrow> slift (Inl KeyError)
         | Some p \<Rightarrow> sbind (sget rr_visible) (\<lambda>visible.
             if visible \<or> \<not> po_should_retry p \<or> po_max_attempts p \<le> int a + 1
             then slift (make_retry_outcome reply (int a + 1) (Some billed))
             else sbind (back_off env p a) (\<lambda>_. retry_loop env table (a + 1) billed)))) r2 = (Inr out, r')"
    by (subst (asm) retry_loop.simps)
      (auto simp: sbind_Inr_iff [of "run_attempt _ _"] sbind_Inr_iff [of "slift _"] sbind_Inr_iff [of "report_attempt _ _ _ _"]
        slift_Inr_iff)
  note runs = run_attempt_run [OF att] report_attempt_run [OF rep] usage_add_plus [OF billed]
  have ends: ?case if "make_retry_outcome reply (int a + 1) (Some billed) = Inr out" "r' = r2"
    "final_attempt env table a reply"
    using that runs by (intro exI [of _ "[]"]) (auto simp: make_retry_outcome_def)
  show ?case
  proof (cases kind)
    case None
    with kind have "final_attempt env table a reply"
      by (auto simp: attempt_kind_def final_attempt_def split: if_splits)
    with None go ends show ?thesis by (simp add: slift_Inr_iff)
  next
    case (Some k)
    with kind have k: "rp_stop_reason reply = ''error''" "classify (re_show env) reply = Inr k"
      by (auto simp: attempt_kind_def split: if_splits)
    from go Some obtain p where p: "map_of table k = Some p" by (auto simp: slift_Inr_iff split: option.splits)
    show ?thesis
    proof (cases "rr_visible r2 \<or> \<not> po_should_retry p \<or> po_max_attempts p \<le> int a + 1")
      case True
      with k p runs have "final_attempt env table a reply" by (auto simp: final_attempt_def)
      with True go Some p ends show ?thesis by (simp add: slift_Inr_iff)
    next
      case False
      with go Some p obtain v r3 where slept: "back_off env p a r2 = (Inr v, r3)"
        and loop: "retry_loop env table (a + 1) billed r3 = (Inr out, r')" by (auto simp: sbind_Inr_iff)
      have now: "retried env table a reply" using False k p runs by (auto simp: retried_def)
      from 1(1) [OF Some p False loop] obtain earlier where e:
        "rr_replies r' = rr_replies r3 @ earlier @ [ro_reply out]" "ro_attempts out = int (a + 1 + length earlier) + 1"
        "length (rr_delays r') = length (rr_delays r3) + length earlier"
        "ro_total_usage out = Some (foldl usage_plus billed (map rp_usage (earlier @ [ro_reply out])))"
        "\<forall>i < length earlier. retried env table (a + 1 + i) (earlier ! i)"
        "final_attempt env table (a + 1 + length earlier) (ro_reply out)" by blast
      have "\<forall>i < length (reply # earlier). retried env table (a + i) ((reply # earlier) ! i)"
        using now e(5) by (auto simp: nth_Cons split: nat.split)
      then show ?thesis
        using e(1-4,6) runs back_off_run [OF slept] by (intro exI [of _ "reply # earlier"]) auto
    qed
  qed
qed

section \<open>Calls end\<close>

definition valid_usage :: "usage \<Rightarrow> bool" where
  "valid_usage u \<longleftrightarrow> 0 \<le> us_input u \<and> 0 \<le> us_output u \<and> 0 \<le> us_cache_read u \<and> 0 \<le> us_cache_write u"

text \<open>
  A host that keeps the adapter's contract: every stream ends in a \<open>Done\<close> whose failure can
  be classified, and closing it, the sinks and the sleep return.
\<close>

definition obliging :: "retry_env \<Rightarrow> bool" where
  "obliging env \<longleftrightarrow> (\<forall>n. (\<exists>reply. DoneEvent reply \<in> set (st_events (re_stream env n)))
       \<and> st_close (re_stream env n) = Inr ()
       \<and> (\<forall>reply. DoneEvent reply \<in> set (st_events (re_stream env n)) \<longrightarrow> valid_usage (rp_usage reply)
            \<and> (rp_stop_reason reply = ''error'' \<longrightarrow> (\<exists>k. classify (re_show env) reply = Inr k))))
     \<and> (\<forall>sink. re_sink env = Some sink \<longrightarrow> (\<forall>n e. sink n e = Inr ()))
     \<and> (\<forall>sink. re_attempt env = Some sink \<longrightarrow> (\<forall>n i reply k. sink n i reply k = Inr ()))
     \<and> (\<forall>n x. re_sleep env n x = Inr ())"

lemma deliver_ok: "obliging env \<Longrightarrow> \<exists>r'. deliver env e r = (Inr (), r')"
  by (cases "re_sink env") (auto simp: deliver_def obliging_def sret_def slift_def)

lemma read_events_ok: "obliging env \<Longrightarrow> DoneEvent d \<in> set es \<Longrightarrow> \<exists>reply r'. read_events env ending es r = (Inr (Some reply), r')"
proof (induction es arbitrary: r)
  case (Cons e es)
  obtain r1 where "deliver env e r = (Inr (), r1)" using deliver_ok [OF Cons.prems(1)] by blast
  with Cons show ?case by (cases e) (auto simp: sbind_def sret_def)
qed simp

lemma run_attempt_ok:
  assumes "obliging env"
  shows "\<exists>reply r'. run_attempt env a r = (Inr reply, r') \<and> valid_usage (rp_usage reply)
    \<and> (\<exists>kind. attempt_kind env reply = Inr kind)"
proof -
  let ?st = "re_stream env a"
  obtain d where d: "DoneEvent d \<in> set (st_events ?st)" and close: "st_close ?st = Inr ()"
    using assms unfolding obliging_def by blast
  obtain reply r1 where read: "read_events env (st_ending ?st) (st_events ?st) (r\<lparr>rr_visible := False\<rparr>) = (Inr (Some reply), r1)"
    using read_events_ok [OF assms d] by blast
  have "DoneEvent reply \<in> set (st_events ?st)" using read_events_run [OF read] by simp
  then have "valid_usage (rp_usage reply) \<and> (\<exists>kind. attempt_kind env reply = Inr kind)"
    using assms unfolding obliging_def attempt_kind_def by force
  with read close show ?thesis
    by (auto simp: run_attempt_def complete_call_def stry_def sbind_def [of "stry _ _ _"] sret_def slift_def sput_def sbind_def)
qed

lemma report_attempt_ok: "obliging env \<Longrightarrow> \<exists>r'. report_attempt env a reply kind r = (Inr (), r')"
  by (cases "re_attempt env") (auto simp: report_attempt_def obliging_def sret_def slift_def)

lemma back_off_ok:
  assumes "obliging env" and "a < 50"
  shows "\<exists>r'. back_off env p a r = (Inr (), r')"
proof -
  have "(2 :: int) ^ a < 2 ^ 53" using assms(2) by (intro power_strict_increasing) auto
  then have "to_double (of_int (2 ^ a)) = Fin (of_int (2 ^ a))" by (rule to_double_of_int [rotated]) simp
  then have "\<exists>c. backoff_ceiling p a = Inr c" by (simp add: backoff_ceiling_def)
  with assms(1) show ?thesis by (auto simp: back_off_def obliging_def slift_def Let_def)
qed

lemma retry_loop_ok:
  assumes "obliging env" and "\<And>k. \<exists>p. map_of table k = Some p" and "attempts_bound table \<le> 50"
  shows "valid_usage used \<Longrightarrow> \<exists>out r'. retry_loop env table a used r = (Inr out, r')
    \<and> ro_attempts out \<le> int (max (a + 1) (attempts_bound table))"
  using assms
proof (induction env table a used arbitrary: r rule: retry_loop.induct)
  case (1 env table a used)
  obtain reply r1 kind where att: "run_attempt env a r = (Inr reply, r1)" "valid_usage (rp_usage reply)"
    "attempt_kind env reply = Inr kind" using run_attempt_ok [OF 1(3)] by blast
  let ?billed = "usage_plus used (rp_usage reply)"
  have valid: "valid_usage ?billed" "usage_le (rp_usage reply) ?billed"
    using 1(2) att(2) by (simp_all add: valid_usage_def usage_plus_def usage_le_def)
  then have billed: "usage_add used (rp_usage reply) = Inr ?billed"
    by (simp add: usage_add_def make_usage_def usage_plus_def valid_usage_def)
  obtain r2 where rep: "report_attempt env a reply kind r1 = (Inr (), r2)" using report_attempt_ok [OF 1(3)] by blast
  have ends: "\<exists>out. make_retry_outcome reply (int a + 1) (Some ?billed) = Inr out \<and> ro_attempts out = int a + 1"
    using valid(2) by (simp add: make_retry_outcome_def)
  show ?case
  proof (cases kind)
    case None
    with att billed rep ends show ?thesis by (subst retry_loop.simps) (auto simp: sbind_def slift_def)
  next
    case (Some k)
    obtain p where p: "map_of table k = Some p" using 1(4) by blast
    show ?thesis
    proof (cases "rr_visible r2 \<or> \<not> po_should_retry p \<or> po_max_attempts p \<le> int a + 1")
      case True
      with Some p att billed rep ends show ?thesis
        by (subst retry_loop.simps) (auto simp: sbind_def slift_def sget_def)
    next
      case False
      then have less: "a + 1 < attempts_bound table" using attempts_bound_ge [OF map_of_SomeD [OF p]] by linarith
      obtain r3 where slept: "back_off env p a r2 = (Inr (), r3)"
        using back_off_ok [OF 1(3)] less 1(5) by (meson less_le_trans less_add_one less_trans)
      obtain out r' where "retry_loop env table (a + 1) ?billed r3 = (Inr out, r')"
        "ro_attempts out \<le> int (max (a + 1 + 1) (attempts_bound table))"
        using 1(1) [OF Some p False valid(1) 1(3-5)] by blast
      with False Some p att billed rep slept less show ?thesis
        by (subst retry_loop.simps) (auto simp: sbind_def slift_def sget_def)
    qed
  qed
qed

section \<open>Properties\<close>

text \<open>
  C18: Whatever the adapter, the sinks and the policies do, a call that returns counts every
  attempt: the attempts are the replies read, the last of which is the reply of the outcome;
  the billed usage is the sum over all of them, failures included; each attempt but the last
  was a failure of a retryable kind with attempts left whose stream had shown the sink nothing
  before its end, and it was followed by one sleep; the last attempt succeeded, or its kind
  allows no more attempts, or part of it had been shown.
\<close>

theorem retry_accounts_every_attempt:
  assumes "call_with_retry env table new_call_run = (Inr out, r)"
  shows "ro_attempts out = int (length (rr_replies r)) \<and> rr_replies r \<noteq> [] \<and> last (rr_replies r) = ro_reply out
    \<and> billed_usage out = foldl usage_plus no_usage (map rp_usage (rr_replies r))
    \<and> Suc (length (rr_delays r)) = length (rr_replies r)
    \<and> (\<forall>i < length (rr_replies r) - 1. retried env table i (rr_replies r ! i))
    \<and> final_attempt env table (length (rr_replies r) - 1) (ro_reply out)"
proof -
  obtain earlier where "rr_replies r = earlier @ [ro_reply out]" "ro_attempts out = int (length earlier) + 1"
    "length (rr_delays r) = length earlier"
    "ro_total_usage out = Some (foldl usage_plus no_usage (map rp_usage (earlier @ [ro_reply out])))"
    "\<forall>i < length earlier. retried env table i (earlier ! i)" "final_attempt env table (length earlier) (ro_reply out)"
    using retry_loop_run [OF assms [unfolded call_with_retry_def]] by (auto simp: new_call_run_def)
  then show ?thesis by (simp add: billed_usage_def nth_append)
qed

text \<open>
  C36: With the default policies and a host that keeps the contract of adapters, every call
  returns an outcome, after at most five attempts.
\<close>

theorem default_retries_end:
  assumes "obliging env"
  shows "\<exists>out r. call_with_retry env default_retry_policies new_call_run = (Inr out, r) \<and> ro_attempts out \<le> 5"
proof -
  have bound: "attempts_bound default_retry_policies = 5"
    by (simp add: attempts_bound_def default_retry_policies_def Let_def)
  have "\<exists>p. map_of default_retry_policies k = Some p" for k
    by (cases k) (simp_all add: default_retry_policies_def Let_def)
  from retry_loop_ok [OF assms this, of no_usage 0 new_call_run] show ?thesis
    by (auto simp: bound call_with_retry_def valid_usage_def no_usage_def)
qed

text \<open>A provider whose first answer is a network error and whose second one succeeds.\<close>

definition demo_reply :: "nat \<Rightarrow> reply" where
  "demo_reply n = (if n = 0
     then \<lparr>rp_content = [], rp_usage = \<lparr>us_input = 3, us_output = 0, us_cache_read = 0, us_cache_write = 0\<rparr>,
       rp_stop_reason = ''error'', rp_model = ''m'',
       rp_error_detail = Some [(''type'', VStr ''network_error''), (''exception_type'', VStr ''ReadTimeout'')]\<rparr>
     else \<lparr>rp_content = [], rp_usage = \<lparr>us_input = 3, us_output = 4, us_cache_read = 0, us_cache_write = 0\<rparr>,
       rp_stop_reason = ''end_turn'', rp_model = ''m'', rp_error_detail = None\<rparr>)"

definition demo_env :: retry_env where
  "demo_env = \<lparr>re_stream = \<lambda>n. \<lparr>st_events = [DoneEvent (demo_reply n)], st_ending = StreamEnded, st_close = Inr ()\<rparr>,
     re_sink = Some (\<lambda>n e. Inr ()), re_attempt = None, re_uniform = \<lambda>n x. x, re_sleep = \<lambda>n x. Inr (),
     re_show = \<lambda>v. ''value''\<rparr>"

lemma demo_obliging: "obliging demo_env"
  by (simp add: obliging_def demo_env_def demo_reply_def valid_usage_def classify_def dict_get_def required_def
      timeout_name_def)

lemma default_retries_end_witness: "\<exists>out r. call_with_retry demo_env default_retry_policies new_call_run = (Inr out, r)
    \<and> ro_attempts out \<le> 5"
  by (rule default_retries_end [OF demo_obliging])

lemma demo_call: "case call_with_retry demo_env default_retry_policies new_call_run of
    (Inr out, r) \<Rightarrow> ro_attempts out = 2 \<and> us_input (billed_usage out) = 6 \<and> rr_delays r = [Fin 1] | _ \<Rightarrow> False"
  by code_simp

lemma retry_accounts_every_attempt_witness:
  "\<exists>out r. call_with_retry demo_env default_retry_policies new_call_run = (Inr out, r)
    \<and> ro_attempts out = 2 \<and> length (rr_replies r) = 2 \<and> retried demo_env default_retry_policies 0 (rr_replies r ! 0)"
proof -
  obtain out r where c: "call_with_retry demo_env default_retry_policies new_call_run = (Inr out, r)" "ro_attempts out = 2"
    using demo_call by (auto split: prod.splits sum.splits)
  with retry_accounts_every_attempt [OF c(1)] show ?thesis by auto
qed

end
