(* ===== verification/Sqlite.thy ===== *)
theory Sqlite
  imports Floats
begin

text \<open>
  The shared SQLite policy (\<open>lipas/sqlite_storage.py\<close>): the validated connection policy,
  the classification of driver errors, the bounded retries of \<open>PRAGMA journal_mode\<close> and
  \<open>BEGIN IMMEDIATE\<close>, opening a connection, and the immediate transaction around a body.
  The driver and the file system are a parameter: the outcome of every statement.
\<close>

section \<open>Failures and the policy\<close>

datatype failure_kind = BusyFailure | ConstraintFailure | ReadOnlyFailure | DiskFullFailure
  | CorruptionFailure | OtherFailure

fun failure_kind_value :: "failure_kind \<Rightarrow> string" where
  "failure_kind_value BusyFailure = ''busy''"
| "failure_kind_value ConstraintFailure = ''constraint''"
| "failure_kind_value ReadOnlyFailure = ''read_only''"
| "failure_kind_value DiskFullFailure = ''disk_full''"
| "failure_kind_value CorruptionFailure = ''corruption''"
| "failure_kind_value OtherFailure = ''other''"

text \<open>
  The primary code is the low byte of the extended code; the codes are those of
  \<open>SQLITE_BUSY\<close>, \<open>LOCKED\<close>, \<open>CONSTRAINT\<close>, \<open>READONLY\<close>, \<open>FULL\<close>, \<open>CORRUPT\<close> and \<open>NOTADB\<close>.
\<close>

definition classify_message :: "string \<Rightarrow> failure_kind" where
  "classify_message m =
     (if has_text ''locked'' m \<or> has_text ''busy'' m then BusyFailure
      else if has_text ''readonly'' m \<or> has_text ''read-only'' m then ReadOnlyFailure
      else if has_text ''full'' m then DiskFullFailure
      else if has_text ''malformed'' m \<or> has_text ''not a database'' m then CorruptionFailure
      else OtherFailure)"

definition classify_sqlite_failure :: "int option \<Rightarrow> string \<Rightarrow> failure_kind" where
  "classify_sqlite_failure code message =
     (let primary = map_option (\<lambda>c. c mod 256) code in
      if primary = Some 5 \<or> primary = Some 6 then BusyFailure
      else if primary = Some 19 then ConstraintFailure
      else if primary = Some 8 then ReadOnlyFailure
      else if primary = Some 13 then DiskFullFailure
      else if primary = Some 11 \<or> primary = Some 26 then CorruptionFailure
      else classify_message (ascii_lower message))"

text \<open>The errors a retry answers: an \<open>OperationalError\<close> that is \<open>BUSY\<close>.\<close>

definition is_busy :: "exn \<Rightarrow> bool" where
  "is_busy e = (case e of SQLiteError operational code message \<Rightarrow>
       operational \<and> classify_sqlite_failure code message = BusyFailure | _ \<Rightarrow> False)"

definition DEFAULT_BUSY_TIMEOUT_MS :: int where "DEFAULT_BUSY_TIMEOUT_MS = 5000"
definition DEFAULT_WAL_AUTOCHECKPOINT_PAGES :: int where "DEFAULT_WAL_AUTOCHECKPOINT_PAGES = 1000"

record sqlite_policy =
  sp_busy_timeout_ms :: int
  sp_wal_autocheckpoint_pages :: int
  sp_synchronous :: string

definition make_sqlite_policy :: "int \<Rightarrow> int \<Rightarrow> string \<Rightarrow> exn + sqlite_policy" where
  "make_sqlite_policy busy pages sync =
     ebind (guard_or ValueError (0 \<le> busy)) (\<lambda>_.
     ebind (guard_or ValueError (1 \<le> pages)) (\<lambda>_.
     ebind (guard_or ValueError (sync \<in> {''OFF'', ''NORMAL'', ''FULL'', ''EXTRA''})) (\<lambda>_.
     Inr \<lparr>sp_busy_timeout_ms = busy, sp_wal_autocheckpoint_pages = pages, sp_synchronous = sync\<rparr>)))"

definition default_sqlite_policy :: sqlite_policy where
  "default_sqlite_policy = \<lparr>sp_busy_timeout_ms = DEFAULT_BUSY_TIMEOUT_MS,
     sp_wal_autocheckpoint_pages = DEFAULT_WAL_AUTOCHECKPOINT_PAGES, sp_synchronous = ''FULL''\<rparr>"

section \<open>Bounded retries\<close>

text \<open>\<open>x * 2 ** attempt\<close> of a float: the power is converted first, which may overflow.\<close>

definition doubled :: "rat \<Rightarrow> nat \<Rightarrow> exn + xfloat" where
  "doubled x attempt = ebind (float_of_int (2 ^ attempt)) (\<lambda>p.
     case p of Fin q \<Rightarrow> Inr (to_double (x * q)) | _ \<Rightarrow> Inl OverflowError)"

text \<open>
  The host of a connection: \<open>dh_exec k\<close> is the outcome of the \<open>k\<close>-th execution of a statement,
  \<open>dh_sleep k\<close> that of the \<open>k\<close>-th sleep.
\<close>

record db_host =
  dh_exec :: "nat \<Rightarrow> exn option"
  dh_sleep :: "nat \<Rightarrow> xfloat \<Rightarrow> exn option"

text \<open>
  The attempts \<open>attempt\<close>, \<dots> of a statement, \<open>left\<close> of them: the result, and the delays slept
  before it. \<open>delay\<close> computes the delay after a busy attempt.
\<close>

fun retry_busy :: "db_host \<Rightarrow> (nat \<Rightarrow> exn + xfloat) \<Rightarrow> nat \<Rightarrow> nat \<Rightarrow> (exn + unit) \<times> xfloat list" where
  "retry_busy host delay attempt 0 = (Inr (), [])"
| "retry_busy host delay attempt (Suc left) = (case dh_exec host attempt of
      None \<Rightarrow> (Inr (), [])
    | Some e \<Rightarrow> if \<not> is_busy e \<or> left = 0 then (Inl e, [])
        else (case delay attempt of
            Inl e' \<Rightarrow> (Inl e', [])
          | Inr d \<Rightarrow> (case dh_sleep host attempt d of
                Some e' \<Rightarrow> (Inl e', [d])
              | None \<Rightarrow> (case retry_busy host delay (Suc attempt) left of (r, ds) \<Rightarrow> (r, d # ds)))))"

text \<open>\<open>_enable_wal_with_retry\<close>: eight attempts, each delay capped by the busy timeout.\<close>

definition wal_delay :: "sqlite_policy \<Rightarrow> nat \<Rightarrow> exn + xfloat" where
  "wal_delay p attempt = (case to_double (5 / 100) of
      Fin step \<Rightarrow> ebind (doubled step attempt) (\<lambda>a.
        Inr (min a (to_double (of_int (sp_busy_timeout_ms p) / 1000))))
    | _ \<Rightarrow> Inl OverflowError)"

definition enable_wal_with_retry :: "db_host \<Rightarrow> sqlite_policy \<Rightarrow> (exn + unit) \<times> xfloat list" where
  "enable_wal_with_retry host p = retry_busy host (wal_delay p) 0 8"

section \<open>Opening a connection\<close>

text \<open>What opening asks of the host, in order.\<close>

datatype conn_event = MakeParent | Opened bool xfloat | Executed string | SleptFor xfloat | MadePrivate | ClosedConn

text \<open>The host: the outcome of the parent directory, of the open and of each statement.\<close>

record conn_host =
  ch_parent :: "exn option"
  ch_open :: "exn option"
  ch_pragma :: "string \<Rightarrow> exn option"
  ch_wal :: db_host
  ch_posix :: bool

text \<open>A path as the code sees it: a \<open>str\<close> or a \<open>Path\<close>.\<close>

datatype db_path = TextPath string | FilePath string

fun path_text :: "db_path \<Rightarrow> string" where
  "path_text (TextPath s) = s" | "path_text (FilePath s) = s"

definition is_memory :: "db_path \<Rightarrow> bool" where
  "is_memory p \<longleftrightarrow> p = TextPath '':memory:''"

definition is_uri :: "db_path \<Rightarrow> bool" where
  "is_uri p = (case p of TextPath s \<Rightarrow> take 5 s = ''file:'' | FilePath s \<Rightarrow> False)"

definition is_read_only_uri :: "db_path \<Rightarrow> bool" where
  "is_read_only_uri p \<longleftrightarrow> is_uri p \<and> has_text ''mode=ro'' (path_text p)"

type_synonym 'a conn_op = "conn_event list \<Rightarrow> (exn + 'a) \<times> conn_event list"

definition raise_some :: "exn option \<Rightarrow> exn + unit" where
  "raise_some o' = (case o' of None \<Rightarrow> Inr () | Some e \<Rightarrow> Inl e)"

definition asked :: "conn_event \<Rightarrow> exn option \<Rightarrow> unit conn_op" where
  "asked ev r lg = (raise_some r, lg @ [ev])"

definition pragma :: "conn_host \<Rightarrow> string \<Rightarrow> unit conn_op" where
  "pragma host q = asked (Executed q) (ch_pragma host q)"

definition ensure_sqlite_parent :: "conn_host \<Rightarrow> db_path \<Rightarrow> unit conn_op" where
  "ensure_sqlite_parent host p = (if is_memory p \<or> is_uri p then sret () else asked MakeParent (ch_parent host))"

text \<open>After each sleep the pragma is executed again.\<close>

definition enable_wal :: "conn_host \<Rightarrow> sqlite_policy \<Rightarrow> unit conn_op" where
  "enable_wal host pol lg = (case enable_wal_with_retry (ch_wal host) pol of (r, ds) \<Rightarrow>
     (r, lg @ Executed ''PRAGMA journal_mode = WAL'' # map SleptFor ds))"

text \<open>\<open>chmod\<close> is best effort: \<open>OSError\<close> and \<open>TypeError\<close> are swallowed, and it raises nothing else.\<close>

definition make_private :: "conn_host \<Rightarrow> unit conn_op" where
  "make_private host lg = (Inr (), if ch_posix host then lg @ [MadePrivate] else lg)"

definition configure_connection :: "conn_host \<Rightarrow> db_path \<Rightarrow> sqlite_policy \<Rightarrow> unit conn_op" where
  "configure_connection host p pol =
     sbind (pragma host ''PRAGMA trusted_schema = OFF'') (\<lambda>_.
     sbind (pragma host ''PRAGMA foreign_keys = ON'') (\<lambda>_.
     sbind (pragma host (''PRAGMA busy_timeout = '' @ str_int (sp_busy_timeout_ms pol))) (\<lambda>_.
     sbind (if is_read_only_uri p then pragma host ''PRAGMA query_only = ON'' else sret ()) (\<lambda>_.
     if \<not> is_memory p \<and> \<not> is_read_only_uri p then
       sbind (enable_wal host pol) (\<lambda>_.
       sbind (pragma host (''PRAGMA synchronous = '' @ sp_synchronous pol)) (\<lambda>_.
       sbind (pragma host (''PRAGMA wal_autocheckpoint = '' @ str_int (sp_wal_autocheckpoint_pages pol))) (\<lambda>_.
       make_private host)))
     else sret ()))))"

definition connect_sqlite :: "conn_host \<Rightarrow> db_path \<Rightarrow> sqlite_policy \<Rightarrow> unit conn_op" where
  "connect_sqlite host p pol =
     sbind (ensure_sqlite_parent host p) (\<lambda>_.
     sbind (asked (Opened (is_uri p) (to_double (of_int (sp_busy_timeout_ms pol) / 1000))) (ch_open host)) (\<lambda>_.
     stry (configure_connection host p pol)
       (\<lambda>e. sbind (asked ClosedConn None) (\<lambda>_. slift (Inl e)))
       sret))"

section \<open>The immediate transaction\<close>

text \<open>
  The state is the database and whatever else the body changes: a rollback restores the
  database alone. \<open>xh_begin\<close> is the host of \<open>BEGIN IMMEDIATE\<close>, \<open>xh_commit\<close> the outcome of the
  commit; what a rollback raises is swallowed.
\<close>

record tx_host =
  xh_begin :: db_host
  xh_commit :: "exn option"

definition calm :: tx_host where
  "calm = \<lparr>xh_begin = \<lparr>dh_exec = \<lambda>_. None, dh_sleep = \<lambda>_ _. None\<rparr>, xh_commit = None\<rparr>"

definition begin_immediate :: "db_host \<Rightarrow> int \<Rightarrow> xfloat \<Rightarrow> (exn + unit) \<times> xfloat list" where
  "begin_immediate host attempts delay =
     (if attempts < 1 then (Inl ValueError, [])
      else (case delay of
          Fin d \<Rightarrow> if d < 0 then (Inl ValueError, []) else retry_busy host (doubled d) 0 (nat attempts)
        | _ \<Rightarrow> (Inl ValueError, [])))"

definition immediate_transaction ::
  "tx_host \<Rightarrow> int \<Rightarrow> xfloat \<Rightarrow> ('d \<times> 'i \<Rightarrow> (exn + 'a) \<times> 'd \<times> 'i) \<Rightarrow> 'd \<times> 'i \<Rightarrow> (exn + 'a) \<times> 'd \<times> 'i" where
  "immediate_transaction host attempts delay body s = (case fst (begin_immediate (xh_begin host) attempts delay) of
      Inl e \<Rightarrow> (Inl e, s)
    | Inr _ \<Rightarrow> (case body s of
          (Inl e, (db, rest)) \<Rightarrow> (Inl e, (fst s, rest))
        | (Inr x, (db, rest)) \<Rightarrow> (case xh_commit host of
              None \<Rightarrow> (Inr x, (db, rest))
            | Some e \<Rightarrow> (Inl e, (fst s, rest)))))"

text \<open>\<open>wal_checkpoint\<close>: the counts of the row, zeros without one.\<close>

definition wal_checkpoint :: "(string \<Rightarrow> (int \<times> int \<times> int) option) \<Rightarrow> bool \<Rightarrow> int \<times> int \<times> int" where
  "wal_checkpoint answer shrink = (case answer (if shrink then ''TRUNCATE'' else ''PASSIVE'') of None \<Rightarrow> (0, 0, 0) | Some r \<Rightarrow> r)"

end
