(* ===== verification/SqliteProps.thy ===== *)
theory SqliteProps
  imports Sqlite
begin

text \<open>
  Properties of the shared SQLite policy: the bounded retries, the transaction, the connection.
\<close>

section \<open>Retries\<close>

text \<open>Attempt \<open>i\<close> was busy, and the delay that \<open>delay\<close> gives for it was slept.\<close>

definition slept_for :: "db_host \<Rightarrow> (nat \<Rightarrow> exn + xfloat) \<Rightarrow> nat \<Rightarrow> xfloat \<Rightarrow> bool" where
  "slept_for host delay i d \<longleftrightarrow> (\<exists>e. dh_exec host i = Some e \<and> is_busy e) \<and> delay i = Inr d"

lemma retry_busy_run:
  assumes "retry_busy host delay attempt left = (r, ds)" and "0 < left"
  shows "length ds \<le> left - 1 \<and> (\<forall>i < length ds. slept_for host delay (attempt + i) (ds ! i))
    \<and> (r = Inr () \<longrightarrow> dh_exec host (attempt + length ds) = None)"
  using assms
proof (induction host delay attempt left arbitrary: r ds rule: retry_busy.induct)
  case (2 host delay attempt left)
  show ?case
  proof (cases "dh_exec host attempt")
    case None
    then show ?thesis using 2 by auto
  next
    case (Some e)
    show ?thesis
    proof (cases "is_busy e \<and> left \<noteq> 0 \<and> (\<exists>d. delay attempt = Inr d \<and> dh_sleep host attempt d = None)")
      case False
      then show ?thesis using 2 Some by (auto simp: slept_for_def split: if_splits sum.splits option.splits)
    next
      case True
      then obtain d where d: "delay attempt = Inr d" "dh_sleep host attempt d = None" by blast
      obtain r1 es where rec: "retry_busy host delay (Suc attempt) left = (r1, es)" by fastforce
      have res: "r = r1" "ds = d # es" using 2(2) Some True d rec by auto
      from 2(1) [OF Some _ d rec] True
      have IH: "length es \<le> left - 1" "\<forall>i < length es. slept_for host delay (Suc attempt + i) (es ! i)"
        "r1 = Inr () \<longrightarrow> dh_exec host (Suc attempt + length es) = None" by auto
      have "slept_for host delay (attempt + i) ((d # es) ! i)" if "i < length (d # es)" for i
        using that IH(2) Some True d(1) by (cases i) (auto simp: slept_for_def)
      then show ?thesis using res IH(1,3) True by auto
    qed
  qed
qed simp

text \<open>
  C39: A short write transaction is begun by at most the given number of attempts: each failed
  one but the last was busy and followed by its doubled delay. Only then does the body run,
  once; the database changes exactly when the body returns and the commit succeeds, and in
  every other case it is as it was, whatever the body did to it.
\<close>

theorem transaction_all_or_nothing:
  assumes "immediate_transaction host n (Fin d) body (db, s) = (r, (db', s'))"
    and "begin_immediate (xh_begin host) n (Fin d) = (b, ds)"
  shows "length ds \<le> nat (n - 1) \<and> (\<forall>i < length ds. slept_for (xh_begin host) (doubled d) i (ds ! i))
    \<and> (case r of
        Inr x \<Rightarrow> b = Inr () \<and> body (db, s) = (Inr x, (db', s')) \<and> xh_commit host = None
      | Inl e \<Rightarrow> db' = db \<and> (s' = s \<and> b = Inl e \<or> b = Inr () \<and> s' = snd (snd (body (db, s)))))"
proof -
  have "length ds \<le> nat (n - 1) \<and> (\<forall>i < length ds. slept_for (xh_begin host) (doubled d) i (ds ! i))"
  proof (cases "n < 1 \<or> d < 0")
    case True
    then show ?thesis using assms(2) by (auto simp: begin_immediate_def split: if_splits)
  next
    case False
    then have "retry_busy (xh_begin host) (doubled d) 0 (nat n) = (b, ds)" "0 < nat n"
      using assms(2) by (auto simp: begin_immediate_def)
    from retry_busy_run [OF this] False show ?thesis by (auto simp: nat_diff_distrib')
  qed
  moreover have "case r of
        Inr x \<Rightarrow> b = Inr () \<and> body (db, s) = (Inr x, (db', s')) \<and> xh_commit host = None
      | Inl e \<Rightarrow> db' = db \<and> (s' = s \<and> b = Inl e \<or> b = Inr () \<and> s' = snd (snd (body (db, s))))"
    using assms by (cases b) (auto simp: immediate_transaction_def split: sum.splits prod.splits option.splits)
  ultimately show ?thesis by blast
qed

theorem transaction_all_or_nothing_witness:
  "\<exists>ds. begin_immediate \<lparr>dh_exec = \<lambda>k. if k < 2 then Some (SQLiteError True (Some 5) ''x'') else None, dh_sleep = \<lambda>_ _. None\<rparr>
      3 (Fin 1) = (Inr (), ds) \<and> length ds = 2
    \<and> immediate_transaction \<lparr>xh_begin = \<lparr>dh_exec = \<lambda>k. if k < 2 then Some (SQLiteError True (Some 5) ''x'') else None,
        dh_sleep = \<lambda>_ _. None\<rparr>, xh_commit = Some (Foreign True [] [])\<rparr> 3 (Fin 1)
        (\<lambda>t. (Inr (), (7, snd t))) (1 :: int, ()) = (Inl (Foreign True [] []), (1, ()))
    \<and> length ds \<le> nat (3 - 1)"
proof -
  let ?b = "\<lparr>dh_exec = \<lambda>k. if k < 2 then Some (SQLiteError True (Some 5) ''x'') else None, dh_sleep = \<lambda>_ _. None\<rparr> :: db_host"
  let ?h = "\<lparr>xh_begin = ?b, xh_commit = Some (Foreign True [] [])\<rparr> :: tx_host"
  have b: "(case begin_immediate ?b 3 (Fin 1) of (Inl e, ds) \<Rightarrow> False | (Inr u, ds) \<Rightarrow> length ds = 2)" by code_simp
  then obtain ds where ds: "begin_immediate ?b 3 (Fin 1) = (Inr (), ds)" "length ds = 2"
    by (cases "begin_immediate ?b 3 (Fin 1)"; cases "fst (begin_immediate ?b 3 (Fin 1))") auto
  then have t: "immediate_transaction ?h 3 (Fin 1) (\<lambda>t. (Inr (), (7, snd t))) (1 :: int, ()) = (Inl (Foreign True [] []), (1, ()))"
    by (simp add: immediate_transaction_def)
  from transaction_all_or_nothing [OF t, of "Inr ()" ds] ds show ?thesis using t by auto
qed

section \<open>Connections\<close>

text \<open>What a successful open has executed.\<close>

definition configured :: "db_path \<Rightarrow> sqlite_policy \<Rightarrow> conn_event list \<Rightarrow> bool" where
  "configured p pol evs \<longleftrightarrow> Executed ''PRAGMA foreign_keys = ON'' \<in> set evs
     \<and> Executed (''PRAGMA busy_timeout = '' @ str_int (sp_busy_timeout_ms pol)) \<in> set evs
     \<and> (is_read_only_uri p \<longrightarrow> Executed ''PRAGMA query_only = ON'' \<in> set evs)
     \<and> (\<not> is_memory p \<longrightarrow> \<not> is_read_only_uri p \<longrightarrow> Executed ''PRAGMA journal_mode = WAL'' \<in> set evs
          \<and> Executed (''PRAGMA synchronous = '' @ sp_synchronous pol) \<in> set evs)"

lemma sbind_log:
  assumes "sbind m f lg = (r, lg')"
  obtains (failed) e where "m lg = (Inl e, lg')" "r = Inl e" | (ran) x lg1 where "m lg = (Inr x, lg1)" "f x lg1 = (r, lg')"
  using assms by (auto simp: sbind_def split: prod.splits sum.splits)

definition only_appends :: "'a conn_op \<Rightarrow> bool" where
  "only_appends m \<longleftrightarrow> (\<forall>lg r lg'. m lg = (r, lg') \<longrightarrow> (\<exists>t. lg' = lg @ t \<and> ClosedConn \<notin> set t))"

lemma only_appends_bind: "only_appends m \<Longrightarrow> (\<And>x. only_appends (f x)) \<Longrightarrow> only_appends (sbind m f)"
  unfolding only_appends_def
proof (intro allI impI)
  fix lg r lg'
  assume m: "\<forall>lg r lg'. m lg = (r, lg') \<longrightarrow> (\<exists>t. lg' = lg @ t \<and> ClosedConn \<notin> set t)"
    and f: "\<And>x. \<forall>lg r lg'. f x lg = (r, lg') \<longrightarrow> (\<exists>t. lg' = lg @ t \<and> ClosedConn \<notin> set t)"
    and "sbind m f lg = (r, lg')"
  from this(3) show "\<exists>t. lg' = lg @ t \<and> ClosedConn \<notin> set t"
  proof (cases rule: sbind_log)
    case (ran x lg1)
    obtain t where "lg1 = lg @ t" "ClosedConn \<notin> set t" using m ran(1) by blast
    moreover obtain u where "lg' = lg1 @ u" "ClosedConn \<notin> set u" using f ran(2) by blast
    ultimately show ?thesis by (intro exI [of _ "t @ u"]) simp
  qed (use m in blast)
qed

lemma only_appends_asked: "ev \<noteq> ClosedConn \<Longrightarrow> only_appends (asked ev r)"
  by (auto simp: only_appends_def asked_def)

lemma only_appends_ret: "only_appends (sret x)" "only_appends (make_private host)" "only_appends (enable_wal host pol)"
  by (auto simp: only_appends_def sret_def make_private_def enable_wal_def split: prod.splits)

lemma configure_appends: "only_appends (configure_connection host p pol)"
  unfolding configure_connection_def pragma_def
  by (auto intro!: only_appends_bind only_appends_asked only_appends_ret)

lemma asked_ok: "asked ev r lg = (Inr x, lg') \<longleftrightarrow> r = None \<and> lg' = lg @ [ev]"
  by (auto simp: asked_def raise_some_def split: option.splits)

lemma configure_ok:
  assumes "configure_connection host p pol lg = (Inr x, lg')"
  shows "configured p pol lg'"
  using assms unfolding configure_connection_def
  by (auto simp: sbind_Inr_iff pragma_def asked_ok sret_def make_private_def enable_wal_def configured_def
      split: if_splits prod.splits)

lemma connect_configures_or_closes:
  assumes "connect_sqlite host p pol [] = (r, evs)"
  shows "(r = Inr () \<longrightarrow> configured p pol evs \<and> ClosedConn \<notin> set evs)
    \<and> (\<forall>e. r = Inl e \<longrightarrow> ch_open host = None \<longrightarrow> (\<exists>u t. Opened u t \<in> set evs) \<longrightarrow> last evs = ClosedConn)"
  using assms unfolding connect_sqlite_def
proof (cases rule: sbind_log)
  case (failed e)
  then show ?thesis by (auto simp: ensure_sqlite_parent_def sret_def asked_def split: if_splits)
next
  case (ran x lg1)
  have lg1: "ClosedConn \<notin> set lg1" "\<forall>u t. Opened u t \<notin> set lg1"
    using ran(1) by (auto simp: ensure_sqlite_parent_def sret_def asked_def split: if_splits)
  from ran(2) show ?thesis
  proof (cases rule: sbind_log)
    case (failed e)
    then show ?thesis by (auto simp: asked_def raise_some_def split: option.splits)
  next
    case (ran y lg2)
    obtain r2 lg3 where c: "configure_connection host p pol lg2 = (r2, lg3)" by fastforce
    have lg2: "ClosedConn \<notin> set lg2" using ran(1) lg1 by (auto simp: asked_def)
    obtain t where "lg3 = lg2 @ t" "ClosedConn \<notin> set t"
      using c configure_appends [of host p pol, unfolded only_appends_def] by blast
    then have lg3: "ClosedConn \<notin> set lg3" using lg2 by simp
    show ?thesis
    proof (cases r2)
      case (Inl e)
      then have "r = Inl e" "evs = lg3 @ [ClosedConn]"
        using ran(2) c by (auto simp: stry_def sbind_def asked_def raise_some_def slift_def)
      then show ?thesis by simp
    next
      case (Inr z)
      then have "r = Inr z" "evs = lg3" using ran(2) c by (auto simp: stry_def sret_def)
      then show ?thesis using configure_ok c Inr lg3 by auto
    qed
  qed
qed

end
