(* ===== verification/SqliteTape.thy ===== *)
theory SqliteTape
  imports Sqlite Codec Store
begin

text \<open>
  The durable claim store (\<open>lipas/serialization/store_sqlite.py\<close>): the \<open>meta\<close>, \<open>claims\<close> and
  \<open>claim_projection_snapshots\<close> tables of one file, and the instances (connections) that share
  it, each with a resident projection of the tape. An operation works on the file and one
  instance; it raises or returns and leaves both behind. The indices of the schema only speed
  up the selects. \<open>deepcopy\<close> is the identity on values, and the texts of \<open>fields_json\<close> stand as
  the values they denote.
\<close>

section \<open>Tables and instances\<close>

record tape_row =
  tr_seq :: int
  tr_id :: string
  tr_tag :: string
  tr_kind :: "string option"
  tr_priority :: int
  tr_version :: int
  tr_source :: string
  tr_fields :: pyval
  tr_ts :: rat

record snapshot_row =
  sn_key :: string
  sn_seq :: int
  sn_version :: int
  sn_id :: string
  sn_tag :: string
  sn_kind :: "string option"
  sn_priority :: int
  sn_source :: string
  sn_fields :: pyval
  sn_digest :: "string option"
  sn_created :: rat

record tape_db =
  td_meta :: "(string \<times> string) list"
  td_rows :: "tape_row list"
  td_snaps :: "snapshot_row list"

definition empty_tape_db :: tape_db where
  "empty_tape_db = \<lparr>td_meta = [], td_rows = [], td_snaps = []\<rparr>"

definition TAPE_SCHEMA_VERSION :: int where "TAPE_SCHEMA_VERSION = 1"
definition PROJECTION_SNAPSHOT_VERSION :: int where "PROJECTION_SNAPSHOT_VERSION = 2"
definition DEFAULT_SNAPSHOT_INTERVAL :: int where "DEFAULT_SNAPSHOT_INTERVAL = 256"

text \<open>\<open>q_log\<close>, \<open>q_by_tag\<close> and \<open>q_by_id\<close> hold the claims replayed after the latest snapshot.\<close>

record sq_store =
  q_registry :: registry
  q_ctx :: belief_context
  q_interval :: int
  q_key :: string
  q_snapshot_seq :: int
  q_merged :: claim
  q_log :: "claim list"
  q_seq :: int
  q_by_tag :: "(string \<times> nat list) list"
  q_by_id :: "(string \<times> claim) list"
  q_closed :: bool

text \<open>
  Pure functions of the runtime: the codecs, the fingerprint of a registry and context
  (\<open>_projection_fingerprint\<close>, which hashes their code), and the digest of a snapshot.
\<close>

record tape_env =
  te_codecs :: codec_registry
  te_print :: "registry \<Rightarrow> belief_context \<Rightarrow> string"
  te_digest :: "pyval \<Rightarrow> string"

text \<open>
  The host of one call: the clock and its \<open>repr\<close>, a fresh id, the id a merge with the claim
  at a sequence number draws, the connection and the two transactions a call may open.
\<close>

record tape_host =
  th_clock :: rat
  th_clock_repr :: string
  th_fresh :: string
  th_merge :: "int \<Rightarrow> string"
  th_connect :: "exn option"
  th_append :: tx_host
  th_snapshot :: tx_host

type_synonym 'a tape_op = "tape_db \<times> sq_store \<Rightarrow> (exn + 'a) \<times> tape_db \<times> sq_store"

section \<open>Rows and claims\<close>

text \<open>Parsing a stored text: constants that are not JSON numbers raise \<open>ValueError\<close>.\<close>

fun finite_json :: "pyval \<Rightarrow> bool" where
  "finite_json VNaN = False"
| "finite_json (VFloat x) = (case x of Fin r \<Rightarrow> True | _ \<Rightarrow> False)"
| "finite_json (VList xs) = (\<forall>x \<in> set xs. finite_json x)"
| "finite_json (VDict d) = (\<forall>kv \<in> set d. finite_json (snd kv))"
| "finite_json v = True"

definition load_fields :: "pyval \<Rightarrow> exn + pyval" where
  "load_fields t = (if finite_json t then Inr t else Inl ValueError)"

definition dump_fields :: "tape_env \<Rightarrow> fieldmap \<Rightarrow> exn + pyval" where
  "dump_fields env fs = ebind (encode (te_codecs env) (vobj fs)) canon"

text \<open>\<open>_decode_claim\<close>; decoders build objects, so a decoded dictionary has string keys.\<close>

definition decode_claim :: "tape_env \<Rightarrow> tape_row \<Rightarrow> exn + claim" where
  "decode_claim env r =
     (if tr_version r \<noteq> TAPE_SCHEMA_VERSION then Inl SchemaVersionMismatch
      else ebind (load_fields (tr_fields r)) (\<lambda>encoded. ebind (decode (te_codecs env) encoded) (\<lambda>v. case v of
          VDict d \<Rightarrow> (case str_keys d of
              Some fs \<Rightarrow> Inr \<lparr>tag = tr_tag r, cfields = fs, kind = tr_kind r, priority = tr_priority r,
                source = tr_source r, claim_id = tr_id r, seq = tr_seq r\<rparr>
            | None \<Rightarrow> Inl LipasError)
        | _ \<Rightarrow> Inl LipasError)))"

text \<open>\<open>SELECT \<dots> FROM claims WHERE p ORDER BY seq\<close>.\<close>

definition select_rows :: "(tape_row \<Rightarrow> bool) \<Rightarrow> tape_db \<Rightarrow> tape_row list" where
  "select_rows p db = sql_order (\<lambda>a b. tr_seq a \<le> tr_seq b) (filter p (td_rows db))"

definition decode_rows :: "tape_env \<Rightarrow> tape_row list \<Rightarrow> exn + claim list" where
  "decode_rows env rows = emap (decode_claim env) rows"

section \<open>The resident projection\<close>

text \<open>
  \<open>_admit_to_projection\<close>: the indices first, then the merge; the sequence number moves only
  when the merge did not raise.
\<close>

definition admit :: "tape_host \<Rightarrow> claim \<Rightarrow> sq_store \<Rightarrow> (exn + unit) \<times> sq_store" where
  "admit host c q =
     (let q1 = q\<lparr>q_log := q_log q @ [c],
          q_by_tag := dict_put (tag c) (dict_get [] (q_by_tag q) (tag c) @ [length (q_log q)]) (q_by_tag q),
          q_by_id := dict_put (claim_id c) c (q_by_id q)\<rparr>
      in (case merge (th_merge host (seq c)) (q_merged q1) c (q_ctx q1) (q_registry q1) of
            Inl e \<Rightarrow> (Inl e, q1)
          | Inr m \<Rightarrow> (Inr (), q1\<lparr>q_merged := m, q_seq := max (q_seq q1) (seq c + 1)\<rparr>)))"

fun admit_rows :: "tape_env \<Rightarrow> tape_host \<Rightarrow> tape_row list \<Rightarrow> sq_store \<Rightarrow> (exn + int) \<times> sq_store" where
  "admit_rows env host [] = sret 0"
| "admit_rows env host (r # rows) =
     sbind (slift (decode_claim env r)) (\<lambda>c.
     sbind (admit host c) (\<lambda>_.
     sbind (admit_rows env host rows) (\<lambda>n. sret (n + 1))))"

text \<open>An operation on the instance alone, and a select on the file.\<close>

definition on_instance :: "(sq_store \<Rightarrow> (exn + 'a) \<times> sq_store) \<Rightarrow> 'a tape_op" where
  "on_instance m t = (case m (snd t) of (r, q) \<Rightarrow> (r, (fst t, q)))"

definition refresh_existing :: "tape_env \<Rightarrow> tape_host \<Rightarrow> int tape_op" where
  "refresh_existing env host t = on_instance
     (admit_rows env host (select_rows (\<lambda>r. q_seq (snd t) \<le> tr_seq r) (fst t))) t"

definition ensure_open :: "unit tape_op" where
  "ensure_open t = (guard_or LipasError (\<not> q_closed (snd t)), t)"

definition tape_refresh :: "tape_env \<Rightarrow> tape_host \<Rightarrow> int tape_op" where
  "tape_refresh env host = sbind ensure_open (\<lambda>_. refresh_existing env host)"

definition tape_merged :: "tape_env \<Rightarrow> tape_host \<Rightarrow> claim tape_op" where
  "tape_merged env host = sbind (tape_refresh env host) (\<lambda>_. sget (\<lambda>t. q_merged (snd t)))"

definition tape_seq :: "tape_env \<Rightarrow> tape_host \<Rightarrow> int tape_op" where
  "tape_seq env host = sbind (tape_refresh env host) (\<lambda>_. sget (\<lambda>t. q_seq (snd t)))"

section \<open>Snapshots\<close>

definition snapshot_digest ::
  "tape_env \<Rightarrow> int \<Rightarrow> string \<Rightarrow> string \<Rightarrow> string option \<Rightarrow> int \<Rightarrow> string \<Rightarrow> pyval \<Rightarrow> string" where
  "snapshot_digest env n cid tg knd prio src body =
     te_digest env (VList [VInt n, VStr cid, VStr tg, (case knd of None \<Rightarrow> VNone | Some k \<Rightarrow> VStr k),
       VInt prio, VStr src, body])"

text \<open>The newest three, or those of one key that a checkpoint keeps.\<close>

definition newest_snapshots :: "(snapshot_row \<Rightarrow> bool) \<Rightarrow> tape_db \<Rightarrow> snapshot_row list" where
  "newest_snapshots p db = take 3 (sql_order (\<lambda>a b. sn_seq b \<le> sn_seq a) (filter p (td_snaps db)))"

text \<open>The row \<open>_decode_claim\<close> is called with for a snapshot.\<close>

definition snapshot_as_row :: "snapshot_row \<Rightarrow> tape_row" where
  "snapshot_as_row s = \<lparr>tr_seq = sn_seq s, tr_id = sn_id s, tr_tag = sn_tag s, tr_kind = sn_kind s,
     tr_priority = sn_priority s, tr_version = TAPE_SCHEMA_VERSION, tr_source = sn_source s,
     tr_fields = sn_fields s, tr_ts = 0\<rparr>"

text \<open>The checksum a snapshot must carry.\<close>

definition expected_digest :: "tape_env \<Rightarrow> snapshot_row \<Rightarrow> string" where
  "expected_digest env s = snapshot_digest env (sn_seq s) (sn_id s) (sn_tag s) (sn_kind s) (sn_priority s)
     (sn_source s) (sn_fields s)"

text \<open>The projection of one snapshot; anything wrong with it only skips it.\<close>

definition restore_snapshot :: "tape_env \<Rightarrow> tape_db \<Rightarrow> snapshot_row \<Rightarrow> claim option" where
  "restore_snapshot env db s =
     (if sn_seq s < 0 \<or> sn_digest s \<noteq> Some (expected_digest env s)
       \<or> sql_first (\<lambda>r. tr_seq r = sn_seq s) (td_rows db) = None then None
      else (case decode_claim env (snapshot_as_row s) of Inl e \<Rightarrow> None | Inr c \<Rightarrow> Some c))"

fun pick_snapshot :: "tape_env \<Rightarrow> tape_db \<Rightarrow> snapshot_row list \<Rightarrow> (int \<times> claim) option" where
  "pick_snapshot env db [] = None"
| "pick_snapshot env db (s # ss) = (case restore_snapshot env db s of
      Some c \<Rightarrow> Some (sn_seq s, c)
    | None \<Rightarrow> pick_snapshot env db ss)"

text \<open>\<open>INSERT \<dots> ON CONFLICT(projection_key, snapshot_seq) DO UPDATE\<close>, then the trim.\<close>

definition put_snapshot :: "snapshot_row \<Rightarrow> tape_db \<Rightarrow> tape_db" where
  "put_snapshot s db =
     (let same = (\<lambda>x. sn_key x = sn_key s \<and> sn_seq x = sn_seq s);
          db1 = (if filter same (td_snaps db) = [] then db\<lparr>td_snaps := td_snaps db @ [s]\<rparr>
                 else db\<lparr>td_snaps := sql_update same (\<lambda>_. s) (td_snaps db)\<rparr>);
          kept = map sn_seq (newest_snapshots (\<lambda>x. sn_key x = sn_key s) db1)
      in db1\<lparr>td_snaps := filter (\<lambda>x. sn_key x \<noteq> sn_key s \<or> sn_seq x \<in> set kept) (td_snaps db1)\<rparr>)"

definition checkpoint_projection :: "tape_env \<Rightarrow> tape_host \<Rightarrow> int tape_op" where
  "checkpoint_projection env host =
     sbind (tape_refresh env host) (\<lambda>_.
     sbind (sget snd) (\<lambda>q.
     if te_print env (q_registry q) (q_ctx q) \<noteq> q_key q then slift (Inl LipasError)
     else let n = q_seq q - 1; m = q_merged q in
       if n < 0 \<or> n \<le> q_snapshot_seq q then sret (q_snapshot_seq q)
       else
         sbind (slift (dump_fields env (cfields m))) (\<lambda>body.
         sbind (immediate_transaction (th_snapshot host) 1 (to_double (1 / 100)) (\<lambda>t. (Inr (),
             (put_snapshot \<lparr>sn_key = q_key q, sn_seq = n, sn_version = PROJECTION_SNAPSHOT_VERSION,
                sn_id = claim_id m, sn_tag = tag m, sn_kind = kind m, sn_priority = priority m,
                sn_source = source m, sn_fields = body,
                sn_digest = Some (snapshot_digest env n (claim_id m) (tag m) (kind m) (priority m) (source m) body),
                sn_created = th_clock host\<rparr> (fst t), snd t)))) (\<lambda>_.
         sbind (sput (\<lambda>t. (fst t, (snd t)\<lparr>q_snapshot_seq := n, q_log := [], q_by_tag := [], q_by_id := []\<rparr>))) (\<lambda>_.
         sret n)))))"

text \<open>\<open>_try_snapshot\<close>: a failed snapshot is no failed append.\<close>

definition try_snapshot :: "tape_env \<Rightarrow> tape_host \<Rightarrow> unit tape_op" where
  "try_snapshot env host = stry (checkpoint_projection env host) (\<lambda>_. sret ()) (\<lambda>_. sret ())"

section \<open>Appending\<close>

definition claim_by_id :: "tape_env \<Rightarrow> string \<Rightarrow> tape_db \<times> sq_store \<Rightarrow> exn + claim option" where
  "claim_by_id env cid t = (case map_of (q_by_id (snd t)) cid of
      Some c \<Rightarrow> Inr (Some c)
    | None \<Rightarrow> (case sql_first (\<lambda>r. tr_id r = cid) (td_rows (fst t)) of
          None \<Rightarrow> Inr None
        | Some r \<Rightarrow> ebind (decode_claim env r) (\<lambda>c. Inr (Some c))))"

definition sqlite_int :: "int \<Rightarrow> bool" where
  "sqlite_int i \<longleftrightarrow> - (2 ^ 63) \<le> i \<and> i < 2 ^ 63"

text \<open>The \<open>INSERT\<close>: a duplicate key is reported as \<open>LipasError\<close>, a number beyond 64 bits raises.\<close>

definition insert_row :: "tape_row \<Rightarrow> tape_db \<Rightarrow> exn + tape_db" where
  "insert_row r db =
     (if \<not> sqlite_int (tr_seq r) \<or> \<not> sqlite_int (tr_priority r) then Inl OverflowError
      else if tr_seq r \<in> tr_seq ` set (td_rows db) \<or> tr_id r \<in> tr_id ` set (td_rows db) then Inl LipasError
      else Inr (db\<lparr>td_rows := td_rows db @ [r]\<rparr>))"

text \<open>What the transaction answers: the claim was on the tape already, or it was admitted.\<close>

datatype append_answer = AlreadyThere claim | Appended claim

definition append_body :: "tape_env \<Rightarrow> tape_host \<Rightarrow> pyval \<Rightarrow> claim \<Rightarrow> append_answer tape_op" where
  "append_body env host body c =
     sbind (refresh_existing env host) (\<lambda>_.
     sbind (sget (claim_by_id env (claim_id c))) (\<lambda>found.
     sbind (slift found) (\<lambda>existing. case existing of
         Some x \<Rightarrow> if same_claim_payload x c then sget (\<lambda>t. AlreadyThere (q_merged (snd t)))
                  else slift (Inl ClaimIdConflict)
       | None \<Rightarrow>
           sbind (sget (\<lambda>t. q_seq (snd t))) (\<lambda>n.
           if 0 \<le> seq c \<and> seq c \<noteq> n then slift (Inl LipasError)
           else let c' = c\<lparr>seq := n\<rparr> in
             sbind (sget fst) (\<lambda>db.
             sbind (slift (insert_row \<lparr>tr_seq = seq c', tr_id = claim_id c', tr_tag = tag c', tr_kind = kind c',
                 tr_priority = priority c', tr_version = TAPE_SCHEMA_VERSION, tr_source = source c',
                 tr_fields = body, tr_ts = th_clock host\<rparr> db)) (\<lambda>db'.
             sbind (sput (\<lambda>t. (db', snd t))) (\<lambda>_. sret (Appended c'))))))))"

text \<open>
  \<open>fold\<close> in its two halves: up to the first refresh, and the transaction with what follows.
  Other connections commit between the halves.
\<close>

definition fold_opens :: "tape_env \<Rightarrow> tape_host \<Rightarrow> claim \<Rightarrow> pyval tape_op" where
  "fold_opens env host c =
     sbind ensure_open (\<lambda>_.
     sbind (slift (dump_fields env (cfields c))) (\<lambda>body.
     sbind (refresh_existing env host) (\<lambda>_. sret body)))"

definition fold_writes :: "tape_env \<Rightarrow> tape_host \<Rightarrow> claim \<Rightarrow> pyval \<Rightarrow> claim tape_op" where
  "fold_writes env host c body =
     sbind (immediate_transaction (th_append host) 1 (to_double (1 / 100)) (append_body env host body c)) (\<lambda>ans.
     case ans of
       AlreadyThere m \<Rightarrow> sret m
     | Appended c' \<Rightarrow>
         sbind (on_instance (admit host c')) (\<lambda>_.
         sbind (sget snd) (\<lambda>q.
         sbind (if q_interval q \<le> seq c' - q_snapshot_seq q then try_snapshot env host else sret ()) (\<lambda>_.
         sget (\<lambda>t. q_merged (snd t))))))"

definition tape_fold :: "tape_env \<Rightarrow> tape_host \<Rightarrow> claim \<Rightarrow> claim tape_op" where
  "tape_fold env host c = sbind (fold_opens env host c) (fold_writes env host c)"

section \<open>Reading\<close>

record claim_page =
  cp_claims :: "claim list"
  cp_next :: int
  cp_more :: bool

text \<open>\<open>read_page\<close> of an open store; \<open>tape_wants\<close> is the tag clause.\<close>

definition tape_wants :: "string option \<Rightarrow> tape_row \<Rightarrow> bool" where
  "tape_wants tg r \<longleftrightarrow> tg = None \<or> tg = Some (tr_tag r)"

definition page_of :: "tape_env \<Rightarrow> int \<Rightarrow> int \<Rightarrow> string option \<Rightarrow> tape_db \<Rightarrow> exn + claim_page" where
  "page_of env after limit tg db =
     (if limit < 1 then Inl ValueError
      else if \<not> sqlite_int after \<or> \<not> sqlite_int (limit + 1) then Inl OverflowError
      else let rows = take (nat (limit + 1)) (select_rows (\<lambda>r. after < tr_seq r \<and> tape_wants tg r) db) in
        ebind (decode_rows env (take (nat limit) rows)) (\<lambda>cs.
        Inr \<lparr>cp_claims = cs, cp_next = (if cs = [] then after else seq (last cs)),
          cp_more = (limit < int (length rows))\<rparr>))"

definition read_page :: "tape_env \<Rightarrow> int \<Rightarrow> int \<Rightarrow> string option \<Rightarrow> claim_page tape_op" where
  "read_page env after limit tg = sbind ensure_open (\<lambda>_.
     sbind (sget (\<lambda>t. page_of env after limit tg (fst t))) slift)"

text \<open>
  \<open>log\<close>: pages of 1000 until the last. The cursor moves forward on a page that promises more,
  or the loop would not end; \<open>left\<close> is the number of rows behind the cursor.
\<close>

definition rows_after :: "int \<Rightarrow> tape_db \<Rightarrow> nat" where
  "rows_after after db = length (filter (\<lambda>r. after < tr_seq r) (td_rows db))"

definition LOG_PAGE :: int where "LOG_PAGE = 1000"

partial_function (option) log_loop :: "tape_env \<Rightarrow> tape_db \<Rightarrow> int \<Rightarrow> claim list \<Rightarrow> (exn + claim list) option" where
  "log_loop env db cursor acc = (case page_of env cursor LOG_PAGE None db of
      Inl e \<Rightarrow> Some (Inl e)
    | Inr p \<Rightarrow> if \<not> cp_more p then Some (Inr (acc @ cp_claims p))
        else log_loop env db (cp_next p) (acc @ cp_claims p))"

definition tape_log :: "tape_env \<Rightarrow> tape_db \<times> sq_store \<Rightarrow> (exn + claim list) option" where
  "tape_log env t = (if q_closed (snd t) then Some (Inl LipasError) else log_loop env (fst t) (- 1) [])"

definition tape_filter :: "tape_env \<Rightarrow> string option \<Rightarrow> string option \<Rightarrow> string option \<Rightarrow> claim list tape_op" where
  "tape_filter env tg knd src = sbind ensure_open (\<lambda>_.
     sbind (sget (\<lambda>t. decode_rows env (select_rows (\<lambda>r. tape_wants tg r \<and> (knd = None \<or> tr_kind r = knd)
       \<and> (src = None \<or> src = Some (tr_source r))) (fst t)))) slift)"

definition tape_length :: "int tape_op" where
  "tape_length = sbind ensure_open (\<lambda>_. sget (\<lambda>t. int (length (td_rows (fst t)))))"

definition contains_claim_id :: "string \<Rightarrow> bool tape_op" where
  "contains_claim_id cid = sbind ensure_open (\<lambda>_. sget (\<lambda>t. cid \<in> tr_id ` set (td_rows (fst t))))"

definition resident_claim_count :: "sq_store \<Rightarrow> nat" where
  "resident_claim_count q = length (q_log q)"

definition tape_store_id :: "tape_db \<Rightarrow> exn + string" where
  "tape_store_id db = (case map_of (td_meta db) ''store_id'' of
      None \<Rightarrow> Inl LipasError
    | Some s \<Rightarrow> if s = [] then Inl LipasError else Inr s)"

section \<open>Opening and closing\<close>

definition meta_put_new :: "string \<times> string \<Rightarrow> tape_db \<Rightarrow> tape_db" where
  "meta_put_new kv db = (if fst kv \<in> fst ` set (td_meta db) then db else db\<lparr>td_meta := td_meta db @ [kv]\<rparr>)"

definition init_tape_schema :: "tape_host \<Rightarrow> tape_db \<Rightarrow> (exn + unit) \<times> tape_db" where
  "init_tape_schema host db =
     (let db1 = (if map_of (td_meta db) ''lipas_schema_version'' = None
            then foldl (\<lambda>d kv. meta_put_new kv d) db
              [(''lipas_schema_version'', str_int TAPE_SCHEMA_VERSION), (''store_id'', th_fresh host),
               (''created_at'', th_clock_repr host)]
            else db)
      in (case map_of (td_meta db1) ''lipas_schema_version'' of
            None \<Rightarrow> (Inl SchemaVersionMismatch, db1)
          | Some v \<Rightarrow> (if py_int_text v = Some TAPE_SCHEMA_VERSION then (Inr (), db1)
              else (Inl SchemaVersionMismatch, db1))))"

definition new_instance :: "tape_env \<Rightarrow> registry \<Rightarrow> belief_context \<Rightarrow> int \<Rightarrow> sq_store" where
  "new_instance env reg ctx interval = \<lparr>q_registry = reg, q_ctx = ctx, q_interval = interval,
     q_key = te_print env reg ctx, q_snapshot_seq = - 1, q_merged = BOTTOM, q_log = [], q_seq = 0,
     q_by_tag = [], q_by_id = [], q_closed = False\<rparr>"

text \<open>\<open>_load_existing\<close>: the newest snapshot that restores, then the rows after it.\<close>

definition load_existing :: "tape_env \<Rightarrow> tape_host \<Rightarrow> tape_db \<Rightarrow> sq_store \<Rightarrow> (exn + unit) \<times> sq_store" where
  "load_existing env host db q =
     (let found = pick_snapshot env db (newest_snapshots
            (\<lambda>s. sn_key s = q_key q \<and> sn_version s = PROJECTION_SNAPSHOT_VERSION) db);
          after = (case found of None \<Rightarrow> - 1 | Some (n, c) \<Rightarrow> n);
          q1 = (case found of None \<Rightarrow> q | Some (n, c) \<Rightarrow> q\<lparr>q_merged := c, q_snapshot_seq := n\<rparr>);
          rows = select_rows (\<lambda>r. after < tr_seq r) db
      in sbind (admit_rows env host rows) (\<lambda>_.
         sput (\<lambda>q. q\<lparr>q_seq := (if rows = [] then after else tr_seq (last rows)) + 1\<rparr>)) q1)"

text \<open>A failed open closes the connection: there is no instance, but the file may be stamped.\<close>

definition open_tape ::
  "tape_env \<Rightarrow> tape_host \<Rightarrow> registry \<Rightarrow> belief_context \<Rightarrow> int \<Rightarrow> tape_db \<Rightarrow> (exn + sq_store) \<times> tape_db" where
  "open_tape env host reg ctx interval =
     sbind (slift (guard_or ValueError (1 \<le> interval))) (\<lambda>_.
     sbind (slift (raise_some (th_connect host))) (\<lambda>_.
     sbind (init_tape_schema host) (\<lambda>_.
     sbind (sget (\<lambda>db. load_existing env host db (new_instance env reg ctx interval))) (\<lambda>res.
     case res of (Inl e, q) \<Rightarrow> slift (Inl e) | (Inr _, q) \<Rightarrow> sret q))))"

definition close_tape :: "unit tape_op" where
  "close_tape = sput (\<lambda>t. (fst t, (snd t)\<lparr>q_closed := True\<rparr>))"

end
