(* ===== verification/SqliteTapeInv.thy ===== *)
theory SqliteTapeInv
  imports SqliteTape
begin

text \<open>
  What the proofs about the durable tape share: merges do not depend on the order of fields or
  on drawn ids, the text of a claim reads back as the claim, and the invariant of a file and
  its instances with the steps that keep it.
\<close>

section \<open>Merges up to the order of fields\<close>

text \<open>A claim up to its identity, its sequence number and the order of its fields.\<close>

definition same_view :: "claim \<Rightarrow> claim \<Rightarrow> bool" where
  "same_view a b \<longleftrightarrow> tag a = tag b \<and> kind a = kind b \<and> priority a = priority b \<and> source a = source b
     \<and> map_of (cfields a) = map_of (cfields b)"

lemma same_view_refl [simp]: "same_view a a"
  by (simp add: same_view_def)

lemma same_view_sym: "same_view a b \<Longrightarrow> same_view b a"
  by (simp add: same_view_def)

lemma same_view_trans: "same_view a b \<Longrightarrow> same_view b c \<Longrightarrow> same_view a c"
  by (simp add: same_view_def)

lemma emap_pairs:
  assumes "emap (\<lambda>k. ebind (f k) (\<lambda>v. Inr (k, v))) xs = Inr ys"
  shows "map_of ys k = (if k \<in> set xs then Some (projr (f k)) else None) \<and> (k \<in> set xs \<longrightarrow> f k = Inr (projr (f k)))"
  using assms by (induction xs arbitrary: ys) auto

lemma emap_pairs_keys: "emap (\<lambda>k. ebind (f k) (\<lambda>v. Inr (k, v))) xs = Inr ys \<Longrightarrow> map fst ys = xs"
  by (induction xs arbitrary: ys) auto

lemma emap_Inr_ex: "(\<forall>x \<in> set xs. \<exists>y. f x = Inr y) \<Longrightarrow> \<exists>ys. emap f xs = Inr ys"
  by (induction xs) auto

lemma merge_field_view:
  "same_view a a' \<Longrightarrow> same_view b b' \<Longrightarrow> merge_field a b ctx reg k = merge_field a' b' ctx reg k"
  by (simp add: merge_field_def same_view_def dict_get_def)

lemma set_all_dict_keys: "set (all_keys a b) = dom (map_of (cfields a)) \<union> dom (map_of (cfields b))"
  by (auto simp: all_keys_def dom_map_of_conv_image_fst image_iff)

lemma all_keys_view: "same_view a a' \<Longrightarrow> same_view b b' \<Longrightarrow> set (all_keys a b) = set (all_keys a' b')"
  by (simp add: set_all_dict_keys same_view_def)

lemma merge_view:
  assumes "same_view a a'" and "same_view b b'" and "merge cid a b ctx reg = Inr m"
  shows "\<exists>m'. merge cid' a' b' ctx reg = Inr m' \<and> same_view m m'"
proof (cases "tag a = bottom_tag \<or> tag b = bottom_tag")
  case True
  then show ?thesis using assms by (auto simp: merge_def same_view_def split: if_splits)
next
  case False
  let ?f = "\<lambda>a b k. ebind (merge_field a b ctx reg k) (\<lambda>v. Inr (k, v))"
  from assms(3) False obtain fs where fs: "emap (?f a b) (all_keys a b) = Inr fs"
    and m: "tag m = (if priority b \<le> priority a then tag a else tag b)" "cfields m = fs"
      "kind m = (if kind a = None \<or> kind a = Some [] then kind b else kind a)"
      "priority m = max (priority a) (priority b)" "source m = ''''"
    by (auto simp: merge_def)
  have "\<exists>y. ?f a' b' k = Inr y" if k: "k \<in> set (all_keys a' b')" for k
  proof -
    have "k \<in> set (all_keys a b)" using k all_keys_view [OF assms(1,2)] by simp
    then have "merge_field a b ctx reg k = Inr (projr (merge_field a b ctx reg k))"
      using emap_pairs [OF fs, of k] by blast
    then show ?thesis using merge_field_view [OF assms(1,2), of ctx reg k] by (metis ebind.simps(2))
  qed
  then obtain fs' where fs': "emap (?f a' b') (all_keys a' b') = Inr fs'" using emap_Inr_ex [of "all_keys a' b'" "?f a' b'"] by blast
  have "map_of fs = map_of fs'"
    using emap_pairs [OF fs] emap_pairs [OF fs'] all_keys_view [OF assms(1,2)] merge_field_view [OF assms(1,2)]
    by (auto simp: fun_eq_iff)
  then show ?thesis using False assms(1,2) fs' m by (auto simp: merge_def same_view_def)
qed

text \<open>The projection of a tape: every claim merged in order; ids are immaterial.\<close>

definition projection :: "registry \<Rightarrow> belief_context \<Rightarrow> claim list \<Rightarrow> exn + claim" where
  "projection reg ctx cs = efoldl (\<lambda>m c. merge [] m c ctx reg) BOTTOM cs"

lemma projection_Nil [simp]: "projection reg ctx [] = Inr BOTTOM"
  by (simp add: projection_def)

lemma projection_append:
  "projection reg ctx (cs @ [c]) = ebind (projection reg ctx cs) (\<lambda>m. merge [] m c ctx reg)"
  by (simp add: projection_def efoldl_append)

lemma projection_prefix:
  "projection reg ctx (cs @ ds) = Inr m \<Longrightarrow> \<exists>m'. projection reg ctx cs = Inr m'"
  by (auto simp: projection_def efoldl_append)

lemma merge_projection:
  assumes "same_view m p" and "projection reg ctx cs = Inr p" and "same_view c c'"
  shows "merge cid m c ctx reg = Inr m1 \<Longrightarrow> \<exists>p1. projection reg ctx (cs @ [c']) = Inr p1 \<and> same_view m1 p1"
    and "merge cid m c ctx reg = Inl e \<Longrightarrow> \<exists>e'. projection reg ctx (cs @ [c']) = Inl e'"
proof -
  show "\<exists>p1. projection reg ctx (cs @ [c']) = Inr p1 \<and> same_view m1 p1" if "merge cid m c ctx reg = Inr m1"
    using merge_view [OF assms(1,3) that] assms(2) by (simp add: projection_append)
  show "\<exists>e'. projection reg ctx (cs @ [c']) = Inl e'" if e: "merge cid m c ctx reg = Inl e"
  proof (cases "merge [] p c' ctx reg")
    case (Inr x)
    with merge_view [OF same_view_sym [OF assms(1)] same_view_sym [OF assms(3)] Inr, of cid] e show ?thesis by simp
  qed (simp add: projection_append assms(2))
qed

section \<open>Texts\<close>

lemma finite_json_vobj: "finite_json (vobj fs) \<longleftrightarrow> (\<forall>kv \<in> set fs. finite_json (snd kv))"
  by (auto simp: vobj_def)

lemma canon_finite:
  "canon v = Inr w \<Longrightarrow> finite_json w"
  "canons vs = Inr ws \<Longrightarrow> \<forall>x \<in> set ws. finite_json x"
  "canon_items d = Inr fs \<Longrightarrow> \<forall>kv \<in> set fs. finite_json (snd kv)"
  by (induction v and vs and d arbitrary: w and ws and fs rule: canon_canons_canon_items.induct)
    (fastforce simp: finite_json_vobj split: xfloat.splits pykey.splits)+

text \<open>A value that its text reads back exactly, and a claim of such values.\<close>

definition exact :: "tape_env \<Rightarrow> pyval \<Rightarrow> bool" where
  "exact env v \<longleftrightarrow> (\<forall>w. ebind (encode (te_codecs env) v) canon = Inr w \<longrightarrow> decode (te_codecs env) w = Inr v)"

definition exact_claim :: "tape_env \<Rightarrow> claim \<Rightarrow> bool" where
  "exact_claim env c \<longleftrightarrow> distinct (map fst (cfields c)) \<and> (\<forall>kv \<in> set (cfields c). exact env (snd kv))"

definition exact_registry :: "tape_env \<Rightarrow> registry \<Rightarrow> belief_context \<Rightarrow> bool" where
  "exact_registry env reg ctx \<longleftrightarrow> (\<forall>k a b v. exact env a \<longrightarrow> exact env b \<longrightarrow>
     registry_get reg k a b ctx = Inr v \<longrightarrow> exact env v)"

lemma encode_vobj_items:
  "encode_items reg (map (\<lambda>(k, v). (KStr k, v)) fs) = Inr e \<Longrightarrow>
    \<exists>gs. e = map (\<lambda>(k, v). (KStr k, v)) gs \<and> list_all2 (\<lambda>x y. fst x = fst y \<and> encode reg (snd x) = Inr (snd y)) fs gs"
proof (induction fs arbitrary: e)
  case (Cons kv fs)
  then obtain y e' where e: "e = (KStr (fst kv), y) # e'" "encode reg (snd kv) = Inr y"
    "encode_items reg (map (\<lambda>(k, v). (KStr k, v)) fs) = Inr e'" by (auto split: prod.splits)
  obtain gs where "e' = map (\<lambda>(k, v). (KStr k, v)) gs"
    "list_all2 (\<lambda>x y. fst x = fst y \<and> encode reg (snd x) = Inr (snd y)) fs gs" using Cons.IH [OF e(3)] by blast
  then show ?case using e by (intro exI [of _ "(fst kv, y) # gs"]) (auto simp: case_prod_beta)
qed simp

lemma canon_vobj_items:
  "canon_items (map (\<lambda>(k, v). (KStr k, v)) gs) = Inr hs \<Longrightarrow>
    list_all2 (\<lambda>x y. fst x = fst y \<and> canon (snd x) = Inr (snd y)) gs hs"
  by (induction gs arbitrary: hs) (auto simp: case_prod_beta)

lemma decode_vobj_items:
  "(\<And>kv. kv \<in> set hs \<Longrightarrow> decode reg (snd kv) = Inr (f kv)) \<Longrightarrow>
    decode_items reg (map (\<lambda>(k, v). (KStr k, v)) hs) = Inr (map (\<lambda>(k, v). (KStr k, v)) (map (\<lambda>kv. (fst kv, f kv)) hs))"
  by (induction hs) (auto simp: case_prod_beta)

lemma map_of_KStr: "map_of (map (\<lambda>(k, v). (KStr k, v)) fs) (KStr k) = map_of fs k"
  by (induction fs) auto

lemma map_of_keyed: "map_of (map (\<lambda>k. (k, f k)) ks) k = (if k \<in> set ks then Some (f k) else None)"
  by (induction ks) auto

lemma dump_decode:
  assumes ex: "distinct (map fst fs)" "\<forall>kv \<in> set fs. exact env (snd kv)" and dump: "dump_fields env fs = Inr t"
  shows "\<exists>gs. load_fields t = Inr t \<and> decode (te_codecs env) t = Inr (vobj gs) \<and> distinct (map fst gs)
    \<and> map_of gs = map_of fs"
proof -
  let ?cs = "te_codecs env"
  obtain e where e: "encode_items ?cs (map (\<lambda>(k, v). (KStr k, v)) fs) = Inr e"
    and free: "KStr LIPAS_TYPE_KEY \<notin> fst ` set (map (\<lambda>(k, v). (KStr k, v)) fs)" and t0: "canon (VDict e) = Inr t"
    using dump by (auto simp: dump_fields_def vobj_def split: if_splits)
  from encode_vobj_items [OF e] obtain gs where gs: "e = map (\<lambda>(k, v). (KStr k, v)) gs"
    "list_all2 (\<lambda>x y. fst x = fst y \<and> encode ?cs (snd x) = Inr (snd y)) fs gs" by blast
  obtain hs where hs: "canon_items e = Inr hs" and t: "t = vobj (sort_dict hs)" using t0 by auto
  have both: "list_all2 (\<lambda>x y. fst x = fst y \<and> canon (snd x) = Inr (snd y)) gs hs"
    using canon_vobj_items [OF hs [unfolded gs(1)]] .
  have "list_all2 (\<lambda>x y. fst x = fst y \<and> ebind (encode ?cs (snd x)) canon = Inr (snd y)) fs hs"
    by (rule list_all2_trans [OF _ gs(2) both]) simp
  then have rel: "length fs = length hs" "\<And>i. i < length fs \<Longrightarrow> fst (fs ! i) = fst (hs ! i)
      \<and> ebind (encode ?cs (snd (fs ! i))) canon = Inr (snd (hs ! i))" by (auto simp: list_all2_conv_all_nth)
  have keys: "map fst hs = map fst fs" using rel by (intro nth_equalityI) auto
  have reads: "decode ?cs (snd kv) = Inr (the (map_of fs (fst kv)))" if kv: "kv \<in> set (sort_dict hs)" for kv
  proof -
    from kv obtain i where i: "i < length fs" "kv = hs ! i" using rel(1) by (auto simp: in_set_conv_nth)
    have "exact env (snd (fs ! i))" using ex(2) i(1) nth_mem by blast
    then have "decode ?cs (snd kv) = Inr (snd (fs ! i))" using rel(2) [OF i(1)] i(2) by (auto simp: exact_def)
    moreover have "map_of fs (fst (fs ! i)) = Some (snd (fs ! i))" using ex(1) i(1) by simp
    ultimately show ?thesis using rel(2) [OF i(1)] i(2) by simp
  qed
  let ?ks = "map fst (sort_dict hs)"
  let ?gs = "map (\<lambda>k. (k, the (map_of fs k))) ?ks"
  have mem: "set ?ks = fst ` set fs" using keys by (metis list.set_map sort_dict_perm)
  have dist: "distinct ?ks" using ex(1) keys by simp
  have "LIPAS_TYPE_KEY \<notin> fst ` set fs" using free by (force simp: image_iff)
  then have "map_of (map (\<lambda>(k, v). (KStr k, v)) (sort_dict hs)) (KStr LIPAS_TYPE_KEY) = None"
    using mem by (simp add: map_of_KStr map_of_eq_None_iff)
  then have "decode ?cs t = Inr (vobj ?gs)"
    using decode_vobj_items [of "sort_dict hs" ?cs "\<lambda>kv. the (map_of fs (fst kv))", OF reads]
    by (simp add: t vobj_def comp_def)
  moreover have "map_of ?gs = map_of fs"
    unfolding fun_eq_iff map_of_keyed mem by (metis map_of_eq_None_iff option.collapse)
  moreover have "load_fields t = Inr t" using canon_finite(1) [OF t0] by (simp add: load_fields_def)
  ultimately show ?thesis using dist by (intro exI [of _ ?gs]) (simp add: comp_def)
qed

lemma str_keys_vobj [simp]: "str_keys (map (\<lambda>(k, v). (KStr k, v)) fs) = Some fs"
  by (rule str_keys_map)

text \<open>Exactness is a matter of the field map.\<close>

lemma exact_claim_view:
  assumes "exact_claim env c" and "map_of (cfields d) = map_of (cfields c)" and "distinct (map fst (cfields d))"
  shows "exact_claim env d"
proof -
  have "exact env (snd kv)" if "kv \<in> set (cfields d)" for kv
  proof -
    have "map_of (cfields c) (fst kv) = Some (snd kv)" using that assms(2,3) by (metis map_of_is_SomeI prod.collapse)
    then have "(fst kv, snd kv) \<in> set (cfields c)" by (rule map_of_SomeD)
    then show ?thesis using assms(1) by (fastforce simp: exact_claim_def)
  qed
  then show ?thesis using assms(3) by (simp add: exact_claim_def)
qed

lemma exact_None [simp]: "exact env VNone"
  by (simp add: exact_def)

lemma exact_BOTTOM [simp]: "exact_claim env BOTTOM"
  by (simp add: exact_claim_def BOTTOM_def)

lemma exact_field: "exact_claim env c \<Longrightarrow> exact env (dict_get VNone (cfields c) k)"
  by (auto simp: exact_claim_def dict_get_def dest!: map_of_SomeD split: option.split)

lemma either_field:
  "(if x = VNone then Inr y else if y = VNone then Inr x else r) = Inr v \<Longrightarrow> v = y \<or> v = x \<or> r = Inr v"
  by (simp split: if_splits)

lemma merge_exact:
  assumes "exact_claim env a" and "exact_claim env b" and "exact_registry env reg ctx" and m: "merge cid a b ctx reg = Inr m"
  shows "exact_claim env m"
proof (cases "tag a = bottom_tag \<or> tag b = bottom_tag")
  case True
  then show ?thesis using assms by (auto simp: merge_def split: if_splits)
next
  case False
  then obtain fs where fs: "emap (\<lambda>k. ebind (merge_field a b ctx reg k) (\<lambda>v. Inr (k, v))) (all_keys a b) = Inr fs"
    and cf: "cfields m = fs" using m by (auto simp: merge_def)
  have dist: "distinct (map fst fs)"
    unfolding emap_pairs_keys [OF fs] using assms(1,2) by (auto simp: all_keys_def exact_claim_def)
  have "exact env v" if "(k, v) \<in> set fs" for k v
  proof -
    have "map_of fs k = Some v" using that dist by simp
    then have "merge_field a b ctx reg k = Inr v" using emap_pairs [OF fs, of k] by (auto split: if_splits)
    then consider "v = dict_get VNone (cfields b) k" | "v = dict_get VNone (cfields a) k"
      | "registry_get reg k (dict_get VNone (cfields a) k) (dict_get VNone (cfields b) k) ctx = Inr v"
      using either_field [of "dict_get VNone (cfields a) k" "dict_get VNone (cfields b) k"]
      unfolding merge_field_def Let_def by blast
    then show ?thesis
    proof cases
      case 3
      then show ?thesis
        using assms(3) [unfolded exact_registry_def] exact_field [OF assms(1)] exact_field [OF assms(2)] by blast
    qed (simp_all add: exact_field assms(1,2))
  qed
  then show ?thesis using dist cf by (auto simp: exact_claim_def)
qed

section \<open>The rows of a tape\<close>

definition tape_claims :: "tape_env \<Rightarrow> tape_db \<Rightarrow> claim list" where
  "tape_claims env db = (case decode_rows env (td_rows db) of Inr cs \<Rightarrow> cs | Inl e \<Rightarrow> [])"

definition rows_ok :: "tape_env \<Rightarrow> tape_db \<Rightarrow> bool" where
  "rows_ok env db \<longleftrightarrow> map tr_seq (td_rows db) = map int [0..<length (td_rows db)]
     \<and> int (length (td_rows db)) \<le> 2 ^ 63
     \<and> distinct (map tr_id (td_rows db)) \<and> decode_rows env (td_rows db) = Inr (tape_claims env db)
     \<and> (\<forall>c \<in> set (tape_claims env db). exact_claim env c)"

lemma emap_nth: "emap f xs = Inr ys \<Longrightarrow> i < length xs \<Longrightarrow> f (xs ! i) = Inr (ys ! i)"
proof (induction xs arbitrary: ys i)
  case (Cons x xs)
  then show ?case by (cases i) auto
qed simp

lemma emap_append: "emap f (xs @ ys) = ebind (emap f xs) (\<lambda>a. ebind (emap f ys) (\<lambda>b. Inr (a @ b)))"
proof (induction xs)
  case (Cons x xs)
  then show ?case by (cases "f x"; cases "emap f xs") (auto simp: ebind_assoc)
qed simp

lemma dict_case_elim:
  assumes "(case v of VDict d \<Rightarrow> (case str_keys d of Some fs \<Rightarrow> Inr (f fs) | None \<Rightarrow> Inl e) | _ \<Rightarrow> Inl e) = Inr c"
  obtains d fs where "v = VDict d" "str_keys d = Some fs" "c = f fs"
  using assms by (cases v) (auto split: option.splits)

lemma if_Inr_elim: "(if b then Inl e else m) = Inr c \<Longrightarrow> (\<not> b \<Longrightarrow> m = Inr c \<Longrightarrow> P) \<Longrightarrow> P"
  by (simp split: if_splits)

lemma decode_claim_fields:
  "decode_claim env r = Inr c \<Longrightarrow> seq c = tr_seq r \<and> claim_id c = tr_id r \<and> tag c = tr_tag r \<and> kind c = tr_kind r
    \<and> priority c = tr_priority r \<and> source c = tr_source r"
  unfolding decode_claim_def by (elim if_Inr_elim) (auto elim!: dict_case_elim)

lemma sorted_order: "sorted_wrt le t \<Longrightarrow> sql_order le t = t"
proof (induction t)
  case (Cons r t)
  then show ?case by (cases t) (auto simp: sql_order_def)
qed (simp add: sql_order_def)

lemma rows_sorted:
  assumes "rows_ok env db"
  shows "sorted_wrt (\<lambda>a b. tr_seq a \<le> tr_seq b) (td_rows db)"
proof -
  have "tr_seq (td_rows db ! i) = int i" if "i < length (td_rows db)" for i
    using assms that unfolding rows_ok_def by (metis length_map map_nth nth_map nth_upt add_0 length_upt minus_nat.diff_0)
  then show ?thesis by (auto simp: sorted_wrt_iff_nth_less)
qed

lemma select_sorted: "rows_ok env db \<Longrightarrow> select_rows p db = filter p (td_rows db)"
  unfolding select_rows_def by (rule sorted_order) (rule sorted_wrt_filter, rule rows_sorted)

lemma row_seq: "rows_ok env db \<Longrightarrow> i < length (td_rows db) \<Longrightarrow> tr_seq (td_rows db ! i) = int i"
  unfolding rows_ok_def by (metis length_map map_nth nth_map nth_upt add_0 length_upt minus_nat.diff_0)

lemma rows_from:
  assumes "rows_ok env db" and "0 \<le> k"
  shows "filter (\<lambda>r. k \<le> tr_seq r) (td_rows db) = drop (nat k) (td_rows db)"
proof -
  let ?t = "td_rows db"
  have lo: "filter (\<lambda>r. k \<le> tr_seq r) (take (nat k) ?t) = []"
    using row_seq [OF assms(1)] assms(2) by (auto simp: filter_empty_conv in_set_conv_nth)
  have hi: "filter (\<lambda>r. k \<le> tr_seq r) (drop (nat k) ?t) = drop (nat k) ?t"
    using row_seq [OF assms(1)] assms(2) by (auto simp: filter_id_conv in_set_conv_nth)
  have "filter (\<lambda>r. k \<le> tr_seq r) (take (nat k) ?t @ drop (nat k) ?t) = drop (nat k) ?t"
    using lo hi by (simp only: filter_append append_Nil)
  then show ?thesis by simp
qed

lemma length_claims: "rows_ok env db \<Longrightarrow> length (tape_claims env db) = length (td_rows db)"
  unfolding rows_ok_def decode_rows_def by (metis emap_Inr_length)

lemma row_claim:
  assumes "rows_ok env db" and "i < length (td_rows db)"
  shows "decode_claim env (td_rows db ! i) = Inr (tape_claims env db ! i)" and "seq (tape_claims env db ! i) = int i"
    and "claim_id (tape_claims env db ! i) = tr_id (td_rows db ! i)" and "exact_claim env (tape_claims env db ! i)"
proof -
  show d: "decode_claim env (td_rows db ! i) = Inr (tape_claims env db ! i)"
    using assms by (simp add: rows_ok_def decode_rows_def emap_nth)
  show "seq (tape_claims env db ! i) = int i" "claim_id (tape_claims env db ! i) = tr_id (td_rows db ! i)"
    using decode_claim_fields [OF d] row_seq [OF assms] by simp_all
  show "exact_claim env (tape_claims env db ! i)"
    using assms length_claims [OF assms(1)] by (simp add: rows_ok_def)
qed

lemma claim_ids: "rows_ok env db \<Longrightarrow> map claim_id (tape_claims env db) = map tr_id (td_rows db)"
  by (intro nth_equalityI) (simp_all add: length_claims row_claim)

section \<open>An instance of a tape\<close>

definition twin :: "claim \<Rightarrow> claim \<Rightarrow> bool" where
  "twin c x \<longleftrightarrow> claim_id c = claim_id x \<and> same_view c x"

definition inst_ok :: "tape_env \<Rightarrow> registry \<Rightarrow> belief_context \<Rightarrow> tape_db \<Rightarrow> sq_store \<Rightarrow> bool" where
  "inst_ok env reg ctx db q \<longleftrightarrow> q_registry q = reg \<and> q_ctx q = ctx \<and> q_key q = te_print env reg ctx
     \<and> 0 \<le> q_seq q \<and> q_seq q \<le> int (length (td_rows db)) \<and> q_snapshot_seq q < q_seq q \<and> - 1 \<le> q_snapshot_seq q
     \<and> exact_claim env (q_merged q)
     \<and> (\<exists>p. projection reg ctx (take (nat (q_seq q)) (tape_claims env db)) = Inr p \<and> same_view (q_merged q) p)
     \<and> (\<forall>(cid, c) \<in> set (q_by_id q). \<exists>x \<in> set (tape_claims env db). cid = claim_id x \<and> twin c x)"

text \<open>Fields of an instance that a projection step leaves alone.\<close>

definition same_frame :: "sq_store \<Rightarrow> sq_store \<Rightarrow> bool" where
  "same_frame q q' \<longleftrightarrow> q_closed q' = q_closed q \<and> q_snapshot_seq q' = q_snapshot_seq q \<and> q_interval q' = q_interval q"

lemma same_frame_refl [simp]: "same_frame q q"
  by (simp add: same_frame_def)

lemma same_frame_trans: "same_frame a b \<Longrightarrow> same_frame b c \<Longrightarrow> same_frame a c"
  by (simp add: same_frame_def)

definition stuck :: "tape_env \<Rightarrow> registry \<Rightarrow> belief_context \<Rightarrow> tape_db \<Rightarrow> bool" where
  "stuck env reg ctx db \<longleftrightarrow> (\<exists>e. projection reg ctx (tape_claims env db) = Inl e)"

lemma projection_prefix_fails: "projection reg ctx (take n cs) = Inl e \<Longrightarrow> \<exists>e'. projection reg ctx cs = Inl e'"
  using projection_prefix [of reg ctx "take n cs" "drop n cs"] by (cases "projection reg ctx cs") auto

lemma admit_ok:
  assumes reg: "exact_registry env reg ctx" and rows: "rows_ok env db" and q: "inst_ok env reg ctx db q"
    and here: "q_seq q = int k" "k < length (td_rows db)" "seq c = int k"
    and c: "twin c (tape_claims env db ! k)" "exact_claim env c" and step: "admit host c q = (r, q')"
  shows "inst_ok env reg ctx db q' \<and> same_frame q q'
    \<and> (case r of Inr _ \<Rightarrow> q_seq q' = int (Suc k) | Inl e \<Rightarrow> stuck env reg ctx db)"
proof -
  let ?L = "tape_claims env db"
  let ?q1 = "q\<lparr>q_log := q_log q @ [c],
      q_by_tag := dict_put (tag c) (dict_get [] (q_by_tag q) (tag c) @ [length (q_log q)]) (q_by_tag q),
      q_by_id := dict_put (claim_id c) c (q_by_id q)\<rparr>"
  have k: "k < length ?L" using here(2) by (simp add: length_claims [OF rows])
  obtain p where p: "projection reg ctx (take k ?L) = Inr p" "same_view (q_merged q) p"
    using q here(1) by (auto simp: inst_ok_def)
  have snoc: "take (Suc k) ?L = take k ?L @ [?L ! k]" using k by (rule take_Suc_conv_app_nth)
  have view: "same_view c (?L ! k)" using c(1) by (simp add: twin_def)
  have ids: "\<exists>x \<in> set ?L. cid = claim_id x \<and> twin y x" if "(cid, y) \<in> set (dict_put (claim_id c) c (q_by_id q))" for cid y
    using set_dict_put [of "claim_id c" c "q_by_id q"] that q c(1) k nth_mem [OF k]
    by (fastforce simp: inst_ok_def twin_def)
  have q1: "inst_ok env reg ctx db ?q1"
    using q ids by (auto simp: inst_ok_def)
  show ?thesis
  proof (cases "merge (th_merge host (seq c)) (q_merged q) c ctx reg")
    case (Inl e)
    have "projection reg ctx (take (Suc k) ?L) = Inl x \<Longrightarrow> stuck env reg ctx db" for x
      unfolding stuck_def by (rule projection_prefix_fails)
    then have "stuck env reg ctx db" using merge_projection(2) [OF p(2,1) view Inl] by (auto simp: snoc)
    moreover have "r = Inl e" "q' = ?q1" using step q Inl by (auto simp: admit_def inst_ok_def)
    ultimately show ?thesis using q1 by (simp add: same_frame_def)
  next
    case (Inr m)
    have q': "r = Inr ()" "q' = ?q1\<lparr>q_merged := m, q_seq := int (Suc k)\<rparr>"
      using step q Inr here(1,3) by (auto simp: admit_def inst_ok_def)
    have "exact_claim env m"
      by (rule merge_exact [OF _ c(2) reg Inr]) (use q in \<open>simp add: inst_ok_def\<close>)
    moreover obtain p1 where "projection reg ctx (take (Suc k) ?L) = Inr p1" "same_view m p1"
      using merge_projection(1) [OF p(2,1) view Inr] by (auto simp: snoc)
    moreover have "nat (1 + int k) = Suc k" by simp
    ultimately have "inst_ok env reg ctx db q'"
      using q1 here(1,2) q'(2) by (auto simp: inst_ok_def)
    then show ?thesis using q' by (simp add: same_frame_def)
  qed
qed

lemma admit_rows_ok:
  assumes reg: "exact_registry env reg ctx" and rows: "rows_ok env db"
  shows "inst_ok env reg ctx db q \<Longrightarrow> admit_rows env host (drop (nat (q_seq q)) (td_rows db)) q = (r, q') \<Longrightarrow>
    inst_ok env reg ctx db q' \<and> same_frame q q'
    \<and> (case r of Inr _ \<Rightarrow> q_seq q' = int (length (td_rows db)) | Inl e \<Rightarrow> stuck env reg ctx db)"
proof (induction "length (td_rows db) - nat (q_seq q)" arbitrary: q r q')
  case 0
  then have "drop (nat (q_seq q)) (td_rows db) = []" "q_seq q = int (length (td_rows db))"
    by (auto simp: inst_ok_def)
  then show ?case using 0 by (auto simp: sret_def)
next
  case (Suc n)
  define k where "k = nat (q_seq q)"
  have k: "k < length (td_rows db)" "q_seq q = int k" using Suc.hyps(2) Suc.prems(1) by (auto simp: k_def inst_ok_def)
  let ?c = "tape_claims env db ! k"
  have drop: "drop k (td_rows db) = td_rows db ! k # drop (Suc k) (td_rows db)" using k(1) by (simp add: Cons_nth_drop_Suc)
  obtain r1 q1 where a: "admit host ?c q = (r1, q1)" by fastforce
  note ok = admit_ok [OF reg rows Suc.prems(1) k(2,1) row_claim(2) [OF rows k(1)] _ row_claim(4) [OF rows k(1)] a]
  have tw: "twin ?c ?c" by (simp add: twin_def)
  have run: "admit_rows env host (drop (nat (q_seq q)) (td_rows db)) q
      = sbind (admit host ?c) (\<lambda>_. sbind (admit_rows env host (drop (Suc k) (td_rows db))) (\<lambda>n. sret (n + 1))) q"
    using row_claim(1) [OF rows k(1)] by (simp add: k_def [symmetric] drop)
  show ?case
  proof (cases r1)
    case (Inl e)
    then show ?thesis using ok [OF tw] run a Suc.prems(2) by (simp add: sbind_def)
  next
    case (Inr u)
    have q1: "inst_ok env reg ctx db q1" "same_frame q q1" "q_seq q1 = int (Suc k)" using ok [OF tw] Inr by auto
    obtain r2 q2 where b: "admit_rows env host (drop (Suc k) (td_rows db)) q1 = (r2, q2)" by fastforce
    have now: "nat (q_seq q1) = Suc k" using q1(3) by simp
    have m: "n = length (td_rows db) - nat (q_seq q1)" using Suc.hyps(2) unfolding now k_def by simp
    from now have "inst_ok env reg ctx db q2 \<and> same_frame q1 q2
        \<and> (case r2 of Inr _ \<Rightarrow> q_seq q2 = int (length (td_rows db)) | Inl e \<Rightarrow> stuck env reg ctx db)"
      using Suc.hyps(1) [OF m q1(1)] b by simp
    moreover have "q' = q2" "(\<exists>e. r2 = Inl e \<and> r = Inl e) \<or> (\<exists>i j. r2 = Inr i \<and> r = Inr j)"
      using run a b Inr Suc.prems(2) by (auto simp: sbind_def sret_def split: sum.splits)
    ultimately show ?thesis using same_frame_trans [OF q1(2)] by auto
  qed
qed

lemma refresh_ok:
  assumes "exact_registry env reg ctx" and "rows_ok env db" and "inst_ok env reg ctx db q"
    and step: "refresh_existing env host (db, q) = (r, t)"
  shows "fst t = db \<and> inst_ok env reg ctx db (snd t) \<and> same_frame q (snd t)
    \<and> (case r of Inr _ \<Rightarrow> q_seq (snd t) = int (length (td_rows db)) | Inl e \<Rightarrow> stuck env reg ctx db)"
proof -
  have "0 \<le> q_seq q" using assms(3) by (simp add: inst_ok_def)
  then have "select_rows (\<lambda>x. q_seq q \<le> tr_seq x) db = drop (nat (q_seq q)) (td_rows db)"
    by (simp add: select_sorted [OF assms(2)] rows_from [OF assms(2)])
  then show ?thesis
    using step admit_rows_ok [OF assms(1,2,3), of host r "snd t"]
    by (cases r) (auto simp: refresh_existing_def on_instance_def split: prod.splits)
qed

end
