(* ===== verification/SqliteTapeSession.thy ===== *)
theory SqliteTapeSession
  imports SqliteTapeInv
begin

text \<open>
  Every step of an instance keeps the invariant of the file and of all its instances; sessions
  of several instances with crashes and damaged snapshots.
\<close>

section \<open>Growing tapes\<close>

definition grows :: "tape_env \<Rightarrow> tape_db \<Rightarrow> tape_db \<Rightarrow> bool" where
  "grows env db db' \<longleftrightarrow> rows_ok env db' \<and> (\<exists>cs. tape_claims env db' = tape_claims env db @ cs)"

lemma grows_refl: "rows_ok env db \<Longrightarrow> grows env db db"
  by (simp add: grows_def)

lemma grows_trans: "grows env a b \<Longrightarrow> grows env b c \<Longrightarrow> grows env a c"
  by (auto simp: grows_def)

lemma grows_length: "rows_ok env db \<Longrightarrow> grows env db db' \<Longrightarrow> length (td_rows db) \<le> length (td_rows db')"
  using length_claims [of env db] length_claims [of env db'] by (auto simp: grows_def)

lemma inst_grows:
  assumes "rows_ok env db" and "grows env db db'" and q: "inst_ok env reg ctx db q"
  shows "inst_ok env reg ctx db' q"
proof -
  obtain cs where cs: "tape_claims env db' = tape_claims env db @ cs" using assms(2) by (auto simp: grows_def)
  have len: "length (td_rows db) \<le> length (td_rows db')" using grows_length [OF assms(1,2)] .
  have "nat (q_seq q) \<le> length (tape_claims env db)"
    using q by (auto simp: inst_ok_def length_claims [OF assms(1)])
  then have "take (nat (q_seq q)) (tape_claims env db') = take (nat (q_seq q)) (tape_claims env db)" by (simp add: cs)
  then show ?thesis using q len by (fastforce simp: inst_ok_def cs)
qed

lemma not_stuck:
  assumes "rows_ok env db" and "inst_ok env reg ctx db q" and "q_seq q = int (length (td_rows db))"
  shows "\<not> stuck env reg ctx db" and "\<exists>p. projection reg ctx (tape_claims env db) = Inr p \<and> same_view (q_merged q) p"
proof -
  show e: "\<exists>p. projection reg ctx (tape_claims env db) = Inr p \<and> same_view (q_merged q) p"
    using assms(2,3) by (auto simp: inst_ok_def length_claims [OF assms(1), symmetric])
  then show "\<not> stuck env reg ctx db" by (auto simp: stuck_def)
qed

section \<open>Snapshots\<close>

definition snapshot_ok :: "tape_env \<Rightarrow> registry \<Rightarrow> belief_context \<Rightarrow> tape_db \<Rightarrow> snapshot_row \<Rightarrow> bool" where
  "snapshot_ok env reg ctx db s \<longleftrightarrow> (sn_key s = te_print env reg ctx \<longrightarrow> sn_version s = PROJECTION_SNAPSHOT_VERSION \<longrightarrow>
     sn_digest s = Some (expected_digest env s) \<longrightarrow> sn_seq s < int (length (td_rows db))
     \<and> (\<exists>c p. decode_claim env (snapshot_as_row s) = Inr c \<and> exact_claim env c
         \<and> projection reg ctx (take (nat (sn_seq s + 1)) (tape_claims env db)) = Inr p \<and> same_view c p))"

definition snaps_ok :: "tape_env \<Rightarrow> registry \<Rightarrow> belief_context \<Rightarrow> tape_db \<Rightarrow> bool" where
  "snaps_ok env reg ctx db \<longleftrightarrow> (\<forall>s \<in> set (td_snaps db). snapshot_ok env reg ctx db s)"

lemma snapshot_grows:
  assumes "rows_ok env db" and "grows env db db'" and "snapshot_ok env reg ctx db s"
  shows "snapshot_ok env reg ctx db' s"
proof -
  obtain cs where cs: "tape_claims env db' = tape_claims env db @ cs" using assms(2) by (auto simp: grows_def)
  have len: "length (td_rows db) \<le> length (td_rows db')" using grows_length [OF assms(1,2)] .
  have "take (nat (sn_seq s + 1)) (tape_claims env db') = take (nat (sn_seq s + 1)) (tape_claims env db)"
    if "sn_seq s < int (length (td_rows db))"
    using that by (simp add: cs length_claims [OF assms(1)])
  then show ?thesis using assms(3) len by (auto simp: snapshot_ok_def)
qed

lemma snaps_grow:
  assumes "rows_ok env db" and "grows env db db'" and "snaps_ok env reg ctx db" and "td_snaps db' = td_snaps db"
  shows "snaps_ok env reg ctx db'"
  using snapshot_grows [OF assms(1,2)] assms(3,4) by (simp add: snaps_ok_def)

definition tape_ok :: "tape_env \<Rightarrow> registry \<Rightarrow> belief_context \<Rightarrow> tape_db \<Rightarrow> bool" where
  "tape_ok env reg ctx db \<longleftrightarrow> rows_ok env db \<and> snaps_ok env reg ctx db"

text \<open>What does not concern the rows changes no claim.\<close>

lemma rows_same:
  assumes "td_rows db' = td_rows db"
  shows "tape_claims env db' = tape_claims env db" and "rows_ok env db' = rows_ok env db"
    and "inst_ok env reg ctx db' q = inst_ok env reg ctx db q" and "stuck env reg ctx db' = stuck env reg ctx db"
    and "snapshot_ok env reg ctx db' s = snapshot_ok env reg ctx db s"
proof -
  show c: "tape_claims env db' = tape_claims env db" using assms by (simp add: tape_claims_def)
  show "rows_ok env db' = rows_ok env db" "inst_ok env reg ctx db' q = inst_ok env reg ctx db q"
    "stuck env reg ctx db' = stuck env reg ctx db" "snapshot_ok env reg ctx db' s = snapshot_ok env reg ctx db s"
    using assms c by (simp_all add: rows_ok_def inst_ok_def stuck_def snapshot_ok_def)
qed

lemma put_snapshot_rows [simp]: "td_rows (put_snapshot s db) = td_rows db"
  by (simp add: put_snapshot_def Let_def)

lemma put_snapshot_set: "set (td_snaps (put_snapshot s db)) \<subseteq> insert s (set (td_snaps db))"
  by (auto simp: put_snapshot_def Let_def in_sql_update split: if_splits)

section \<open>The transaction\<close>

lemma immediate_transaction_cases:
  assumes "immediate_transaction host n d body (db, q) = (r, (db', q'))"
  obtains (unbegun) e where "r = Inl e" "db' = db" "q' = q"
    | (undone) e r0 db0 where "r = Inl e" "db' = db" "body (db, q) = (r0, (db0, q'))"
    | (committed) x where "r = Inr x" "body (db, q) = (Inr x, (db', q'))"
  using assms by (auto simp: immediate_transaction_def split: sum.splits prod.splits option.splits)

lemma triple_ex: "\<exists>r d i. x = (r, (d, i))"
  by (cases x) auto

lemma claim_by_id_ok:
  assumes rows: "rows_ok env db" and q: "inst_ok env reg ctx db q"
  shows "claim_by_id env cid (db, q) = Inr found \<Longrightarrow> (case found of
      None \<Rightarrow> cid \<notin> tr_id ` set (td_rows db)
    | Some y \<Rightarrow> \<exists>x \<in> set (tape_claims env db). claim_id x = cid \<and> twin y x)"
proof (cases "map_of (q_by_id q) cid")
  case (Some y)
  then have "(cid, y) \<in> set (q_by_id q)" by (rule map_of_SomeD)
  then have "\<exists>x \<in> set (tape_claims env db). cid = claim_id x \<and> twin y x" using q by (auto simp: inst_ok_def)
  then show "claim_by_id env cid (db, q) = Inr found \<Longrightarrow> ?thesis" using Some by (auto simp: claim_by_id_def)
next
  case None
  assume f: "claim_by_id env cid (db, q) = Inr found"
  show ?thesis
  proof (cases "sql_first (\<lambda>r. tr_id r = cid) (td_rows db)")
    case None
    then have "found = None" using \<open>map_of (q_by_id q) cid = None\<close> f by (simp add: claim_by_id_def)
    then show ?thesis using None by (auto simp: sql_first_None)
  next
    case (Some r)
    from sql_first_Some [OF Some] obtain i where i: "i < length (td_rows db)" "r = td_rows db ! i" "tr_id r = cid"
      by (auto simp: in_set_conv_nth)
    have "found = Some (tape_claims env db ! i)"
      using Some None f row_claim(1) [OF rows i(1)] i(2) by (simp add: claim_by_id_def)
    moreover have "tape_claims env db ! i \<in> set (tape_claims env db)" using i(1) length_claims [OF rows] by simp
    moreover have "claim_id (tape_claims env db ! i) = cid" using row_claim(3) [OF rows i(1)] i(2,3) by simp
    ultimately show ?thesis by (auto simp: twin_def)
  qed
qed

lemma decode_new_row:
  assumes "exact_claim env c" and "dump_fields env (cfields c) = Inr body"
  shows "\<exists>x. decode_claim env \<lparr>tr_seq = n, tr_id = claim_id c, tr_tag = tag c, tr_kind = kind c,
      tr_priority = priority c, tr_version = TAPE_SCHEMA_VERSION, tr_source = source c, tr_fields = body, tr_ts = now\<rparr>
    = Inr x \<and> twin (c\<lparr>seq := n\<rparr>) x \<and> seq x = n \<and> exact_claim env x"
proof -
  obtain gs where gs: "load_fields body = Inr body" "decode (te_codecs env) body = Inr (vobj gs)"
    "distinct (map fst gs)" "map_of gs = map_of (cfields c)"
    using dump_decode [of "cfields c" env body] assms by (auto simp: exact_claim_def)
  let ?x = "\<lparr>tag = tag c, cfields = gs, kind = kind c, priority = priority c, source = source c,
     claim_id = claim_id c, seq = n\<rparr>"
  have "exact_claim env ?x" by (rule exact_claim_view [OF assms(1)]) (simp_all add: gs)
  then show ?thesis using gs by (intro exI [of _ ?x]) (simp add: decode_claim_def twin_def same_view_def vobj_def)
qed

lemma insert_row_ok:
  assumes rows: "rows_ok env db" and r: "tr_seq r = int (length (td_rows db))" "decode_claim env r = Inr x" "exact_claim env x"
    and ins: "insert_row r db = Inr db'"
  shows "rows_ok env db'" "tape_claims env db' = tape_claims env db @ [x]" "td_snaps db' = td_snaps db"
    "td_meta db' = td_meta db" "td_rows db' = td_rows db @ [r]"
proof -
  have db': "db' = db\<lparr>td_rows := td_rows db @ [r]\<rparr>" "tr_id r \<notin> tr_id ` set (td_rows db)"
    and small: "int (length (td_rows db)) < 2 ^ 63"
    using ins r(1) by (auto simp: insert_row_def sqlite_int_def split: if_splits)
  have dec: "decode_rows env (td_rows db') = Inr (tape_claims env db @ [x])"
    using rows r(2) by (simp add: db' decode_rows_def emap_append rows_ok_def)
  then show tc: "tape_claims env db' = tape_claims env db @ [x]" by (simp add: tape_claims_def)
  show "rows_ok env db'" using rows r(1,3) db'(2) dec tc small by (auto simp: rows_ok_def db'(1))
qed (use ins in \<open>auto simp: insert_row_def split: if_splits\<close>)

text \<open>What the body of the appending transaction does.\<close>

definition appended :: "tape_env \<Rightarrow> registry \<Rightarrow> belief_context \<Rightarrow> claim \<Rightarrow> tape_db \<Rightarrow> exn + append_answer
    \<Rightarrow> tape_db \<Rightarrow> sq_store \<Rightarrow> bool" where
  "appended env reg ctx c db r db' q' \<longleftrightarrow> (case r of
      Inl e \<Rightarrow> db' = db
    | Inr (AlreadyThere m) \<Rightarrow> db' = db \<and> m = q_merged q' \<and> q_seq q' = int (length (td_rows db))
        \<and> (\<exists>x \<in> set (tape_claims env db). \<exists>y. twin y x \<and> claim_id x = claim_id c \<and> same_claim_payload y c)
    | Inr (Appended c') \<Rightarrow> c' = c\<lparr>seq := int (length (td_rows db))\<rparr> \<and> q_seq q' = int (length (td_rows db))
        \<and> claim_id c \<notin> claim_id ` set (tape_claims env db)
        \<and> td_snaps db' = td_snaps db \<and> td_meta db' = td_meta db \<and> length (td_rows db') = Suc (length (td_rows db))
        \<and> rows_ok env db' \<and> (\<exists>x. tape_claims env db' = tape_claims env db @ [x] \<and> twin c' x))"

lemma append_body_ok:
  assumes reg: "exact_registry env reg ctx" and rows: "rows_ok env db" and q: "inst_ok env reg ctx db q"
    and c: "exact_claim env c" "dump_fields env (cfields c) = Inr body"
    and step: "append_body env host body c (db, q) = (r, (db', q'))"
  shows "inst_ok env reg ctx db q' \<and> same_frame q q' \<and> appended env reg ctx c db r db' q'"
proof -
  obtain r1 db1 q1 where f: "refresh_existing env host (db, q) = (r1, (db1, q1))" by (metis prod.collapse)
  from refresh_ok [OF reg rows q f] have db1: "db1 = db" and q1: "inst_ok env reg ctx db q1" "same_frame q q1"
    and full: "\<And>n. r1 = Inr n \<Longrightarrow> q_seq q1 = int (length (td_rows db))" by auto
  show ?thesis
  proof (cases r1)
    case (Inl e)
    then have "r = Inl e" "db' = db" "q' = q1" using step f db1 by (auto simp: append_body_def sbind_def)
    then show ?thesis using q1 by (simp add: appended_def)
  next
    case (Inr n)
    note full = full [OF Inr]
    let ?n = "int (length (td_rows db))"
    define found where "found = claim_by_id env (claim_id c) (db, q1)"
    have run: "append_body env host body c (db, q) = sbind (slift found) (\<lambda>existing. case existing of
         Some x \<Rightarrow> if same_claim_payload x c then sget (\<lambda>t. AlreadyThere (q_merged (snd t)))
                  else slift (Inl ClaimIdConflict)
       | None \<Rightarrow>
           if 0 \<le> seq c \<and> seq c \<noteq> ?n then slift (Inl LipasError)
           else sbind (slift (insert_row \<lparr>tr_seq = ?n, tr_id = claim_id c, tr_tag = tag c, tr_kind = kind c,
                 tr_priority = priority c, tr_version = TAPE_SCHEMA_VERSION, tr_source = source c,
                 tr_fields = body, tr_ts = th_clock host\<rparr> db)) (\<lambda>db'.
             sbind (sput (\<lambda>t. (db', snd t))) (\<lambda>_. sret (Appended (c\<lparr>seq := ?n\<rparr>))))) (db, q1)"
      using f Inr db1 full by (simp add: append_body_def sbind_def sget_def slift_def found_def Let_def split: sum.split option.split)
    show ?thesis
    proof (cases found)
      case (Inl e)
      then show ?thesis using step run q1 by (auto simp: appended_def)
    next
      case found: (Inr existing)
      note known = claim_by_id_ok [OF rows q1(1) found [unfolded found_def]]
      show ?thesis
      proof (cases existing)
        case (Some y)
        then obtain x where x: "x \<in> set (tape_claims env db)" "claim_id x = claim_id c" "twin y x" using known by auto
        show ?thesis
          by (cases "same_claim_payload y c") (use step run found Some q1 full x in
            \<open>auto simp: appended_def sget_def slift_def intro!: bexI [of _ x] exI [of _ y]\<close>)
      next
        case None
        let ?r = "\<lparr>tr_seq = ?n, tr_id = claim_id c, tr_tag = tag c, tr_kind = kind c, tr_priority = priority c,
          tr_version = TAPE_SCHEMA_VERSION, tr_source = source c, tr_fields = body, tr_ts = th_clock host\<rparr>"
        obtain x where x: "decode_claim env ?r = Inr x" "twin (c\<lparr>seq := ?n\<rparr>) x" "exact_claim env x"
          using decode_new_row [OF c] by blast
        have new: "claim_id c \<notin> claim_id ` set (tape_claims env db)"
        proof -
          have "claim_id c \<notin> set (map tr_id (td_rows db))" using known None by simp
          then show ?thesis unfolding claim_ids [OF rows, symmetric] by simp
        qed
        show ?thesis
        proof (cases "\<not> (0 \<le> seq c \<and> seq c \<noteq> ?n) \<and> (\<exists>d. insert_row ?r db = Inr d)")
          case True
          then obtain d where d: "insert_row ?r db = Inr d" by blast
          have "r = Inr (Appended (c\<lparr>seq := ?n\<rparr>))" "db' = d" "q' = q1"
            using step run found None True d by (auto simp: sbind_def sput_def sret_def slift_def)
          moreover have "tr_seq ?r = int (length (td_rows db))" by simp
          note insert_row_ok [OF rows this x(1,3) d]
          ultimately show ?thesis using q1 full x new by (auto simp: appended_def)
        next
          case False
          then have "\<exists>e. r = Inl e" "db' = db" "q' = q1"
            using step run found None by (auto simp: slift_def sbind_def split: if_splits sum.splits)
          then show ?thesis using q1 by (auto simp: appended_def)
        qed
      qed
    qed
  qed
qed

section \<open>Checkpoints\<close>

lemma tape_refresh_ok:
  assumes "exact_registry env reg ctx" and "rows_ok env db" and "inst_ok env reg ctx db q"
    and step: "tape_refresh env host (db, q) = (r, (db', q'))"
  shows "db' = db \<and> inst_ok env reg ctx db q' \<and> same_frame q q'
    \<and> (case r of Inr _ \<Rightarrow> q_seq q' = int (length (td_rows db)) \<and> \<not> q_closed q | Inl e \<Rightarrow> q_closed q \<or> stuck env reg ctx db)"
proof (cases "q_closed q")
  case True
  then show ?thesis using assms by (auto simp: tape_refresh_def ensure_open_def sbind_def)
next
  case False
  then have "refresh_existing env host (db, q) = (r, (db', q'))"
    using step by (simp add: tape_refresh_def ensure_open_def sbind_def)
  from refresh_ok [OF assms(1-3) this] False show ?thesis by (cases r) auto
qed

lemma checkpoint_ok:
  assumes reg: "exact_registry env reg ctx" and ok: "tape_ok env reg ctx db" and q: "inst_ok env reg ctx db q"
    and step: "checkpoint_projection env host (db, q) = (r, (db', q'))"
  shows "td_rows db' = td_rows db \<and> td_meta db' = td_meta db \<and> tape_ok env reg ctx db' \<and> inst_ok env reg ctx db' q'
    \<and> q_closed q' = q_closed q \<and> ((\<exists>x. r = Inr x) \<longrightarrow> q_seq q' = int (length (td_rows db)))
    \<and> (\<not> q_closed q \<longrightarrow> q_seq q = int (length (td_rows db)) \<longrightarrow> q_seq q' = q_seq q \<and> q_merged q' = q_merged q)"
proof -
  have rows: "rows_ok env db" using ok by (simp add: tape_ok_def)
  obtain r1 db1 q1 where f: "tape_refresh env host (db, q) = (r1, (db1, q1))" by (metis prod.collapse)
  from tape_refresh_ok [OF reg rows q f] have db1: "db1 = db" and q1: "inst_ok env reg ctx db q1" "same_frame q q1"
    and full: "\<And>n. r1 = Inr n \<Longrightarrow> q_seq q1 = int (length (td_rows db))" by auto
  have same: "q1 = q" if "\<not> q_closed q" "q_seq q = int (length (td_rows db))"
  proof -
    have "select_rows (\<lambda>r. q_seq q \<le> tr_seq r) db = []"
      using rows_from [OF rows, of "q_seq q"] that(2) by (simp add: select_sorted [OF rows])
    then show ?thesis
      using f that(1) by (simp add: tape_refresh_def ensure_open_def sbind_def refresh_existing_def on_instance_def sret_def)
  qed
  have idle: ?thesis if "db' = db" "q' = q1" "(\<exists>x. r = Inr x) \<longrightarrow> q_seq q1 = int (length (td_rows db))"
    using that q1 ok same by (auto simp: same_frame_def)
  show ?thesis
  proof (cases r1)
    case (Inl e)
    then show ?thesis using step f db1 by (intro idle) (auto simp: checkpoint_projection_def sbind_def)
  next
    case (Inr k)
    note full = full [OF Inr]
    let ?n = "q_seq q1 - 1" and ?m = "q_merged q1"
    show ?thesis
    proof (cases "te_print env (q_registry q1) (q_ctx q1) \<noteq> q_key q1 \<or> ?n < 0 \<or> ?n \<le> q_snapshot_seq q1
        \<or> (\<exists>e. dump_fields env (cfields ?m) = Inl e)")
      case True
      then show ?thesis using step f db1 Inr full
        by (intro idle) (auto simp: checkpoint_projection_def sbind_def sget_def slift_def sret_def Let_def split: if_splits)
    next
      case False
      then obtain body where body: "dump_fields env (cfields ?m) = Inr body"
        by (cases "dump_fields env (cfields ?m)") auto
      define s where "s = \<lparr>sn_key = q_key q1, sn_seq = ?n, sn_version = PROJECTION_SNAPSHOT_VERSION,
                sn_id = claim_id ?m, sn_tag = tag ?m, sn_kind = kind ?m, sn_priority = priority ?m,
                sn_source = source ?m, sn_fields = body,
                sn_digest = Some (snapshot_digest env ?n (claim_id ?m) (tag ?m) (kind ?m) (priority ?m) (source ?m) body),
                sn_created = th_clock host\<rparr>"
      define res where "res = immediate_transaction (th_snapshot host) 1 (to_double (1 / 100))
          (\<lambda>t. (Inr (), (put_snapshot s (fst t), snd t))) (db, q1)"
      obtain r2 db2 q2 where res0: "res = (r2, (db2, q2))" using triple_ex [of res] by blast
      note tx = res0 [unfolded res_def]
      have run: "(r, (db', q')) = (case r2 of Inl e \<Rightarrow> (Inl e, (db2, q2))
          | Inr _ \<Rightarrow> (Inr ?n, (db2, q2\<lparr>q_snapshot_seq := ?n, q_log := [], q_by_tag := [], q_by_id := []\<rparr>)))"
        using step f db1 Inr False body tx
        by (auto simp: checkpoint_projection_def sbind_def sget_def slift_def sret_def sput_def Let_def s_def split: sum.split)
      from tx show ?thesis
      proof (cases rule: immediate_transaction_cases)
        case (unbegun e)
        then show ?thesis using run by (intro idle) auto
      next
        case (undone e r0 db0)
        then show ?thesis using run by (intro idle) auto
      next
        case (committed x)
        then have db2: "db2 = put_snapshot s db" "q2 = q1" by auto
        let ?q = "q1\<lparr>q_snapshot_seq := ?n, q_log := [], q_by_tag := [], q_by_id := []\<rparr>"
        have out: "r = Inr ?n" "db' = put_snapshot s db" "q' = ?q" using run committed db2 by auto
        have rs: "td_rows db' = td_rows db" by (simp add: out)
        obtain p where p: "projection reg ctx (tape_claims env db) = Inr p" "same_view ?m p"
          using not_stuck(2) [OF rows q1(1) full] by blast
        have ex: "exact_claim env ?m" using q1(1) by (simp add: inst_ok_def)
        have "snapshot_ok env reg ctx db s"
        proof -
          have "snapshot_as_row s = \<lparr>tr_seq = ?n, tr_id = claim_id ?m, tr_tag = tag ?m, tr_kind = kind ?m,
              tr_priority = priority ?m, tr_version = TAPE_SCHEMA_VERSION, tr_source = source ?m, tr_fields = body, tr_ts = 0\<rparr>"
            by (simp add: snapshot_as_row_def s_def)
          moreover obtain y where "decode_claim env \<lparr>tr_seq = ?n, tr_id = claim_id ?m, tr_tag = tag ?m, tr_kind = kind ?m,
              tr_priority = priority ?m, tr_version = TAPE_SCHEMA_VERSION, tr_source = source ?m, tr_fields = body, tr_ts = 0\<rparr> = Inr y"
            "twin (?m\<lparr>seq := ?n\<rparr>) y" "exact_claim env y" using decode_new_row [OF ex body] by blast
          moreover have "same_view y p" if "twin (?m\<lparr>seq := ?n\<rparr>) y" for y
            using that p(2) by (auto simp: twin_def same_view_def)
          moreover have "nat (sn_seq s + 1) = length (tape_claims env db)" using full by (simp add: s_def length_claims [OF rows])
          ultimately show ?thesis using p(1) full by (auto simp: snapshot_ok_def s_def)
        qed
        then have "snaps_ok env reg ctx db'"
          using ok put_snapshot_set [of s db] rows_same(5) [OF rs] unfolding snaps_ok_def out(2) tape_ok_def by fastforce
        moreover have "inst_ok env reg ctx db' q'"
          unfolding rows_same(3) [OF rs] using q1(1) False by (auto simp: out(3) inst_ok_def)
        moreover have "td_meta db' = td_meta db" by (simp add: out put_snapshot_def Let_def)
        moreover have "rows_ok env db'" using rows rows_same(2) [OF rs] by simp
        ultimately show ?thesis
          using rs out q1(2) full same by (auto simp: tape_ok_def same_frame_def)
      qed
    qed
  qed
qed

section \<open>Appending\<close>

text \<open>What a fold leaves: nothing new, or its claim at the end of the tape.\<close>

definition fold_left :: "tape_env \<Rightarrow> claim \<Rightarrow> tape_db \<Rightarrow> tape_db \<Rightarrow> bool" where
  "fold_left env c db db' \<longleftrightarrow> td_rows db' = td_rows db
     \<or> (claim_id c \<notin> claim_id ` set (tape_claims env db)
        \<and> (\<exists>x. tape_claims env db' = tape_claims env db @ [x] \<and> twin c x))"

definition on_tape_already :: "tape_env \<Rightarrow> claim \<Rightarrow> tape_db \<Rightarrow> bool" where
  "on_tape_already env c db \<longleftrightarrow>
     (\<exists>x \<in> set (tape_claims env db). \<exists>y. twin y x \<and> claim_id x = claim_id c \<and> same_claim_payload y c)"

lemma twin_seq [simp]: "twin (c\<lparr>seq := n\<rparr>) x = twin c x"
  by (simp add: twin_def same_view_def)

lemma exact_seq [simp]: "exact_claim env (c\<lparr>seq := n\<rparr>) = exact_claim env c"
  by (simp add: exact_claim_def)

lemma try_snapshot_state: "snd (try_snapshot env host t) = snd (checkpoint_projection env host t)"
    "\<exists>u. fst (try_snapshot env host t) = Inr u"
  by (auto simp: try_snapshot_def stry_def sret_def split: prod.splits sum.splits)

text \<open>After the commit: the claim joins the projection, and a snapshot may be taken.\<close>

lemma after_append_ok:
  assumes reg: "exact_registry env reg ctx" and ok: "tape_ok env reg ctx db" and q: "inst_ok env reg ctx db q" "\<not> q_closed q"
    and here: "length (td_rows db) = Suc k" "q_seq q = int k" "seq c = int k"
    and c: "twin c (tape_claims env db ! k)" "exact_claim env c"
    and step: "sbind (on_instance (admit host c)) (\<lambda>_. sbind (sget snd) (\<lambda>q.
         sbind (if q_interval q \<le> seq c - q_snapshot_seq q then try_snapshot env host else sret ()) (\<lambda>_.
         sget (\<lambda>t. q_merged (snd t))))) (db, q) = (r, (db', q'))"
  shows "td_rows db' = td_rows db \<and> tape_ok env reg ctx db' \<and> inst_ok env reg ctx db' q' \<and> \<not> q_closed q'
    \<and> (\<forall>m. r = Inr m \<longrightarrow> q_seq q' = int (Suc k) \<and> m = q_merged q')"
proof -
  have rows: "rows_ok env db" using ok by (simp add: tape_ok_def)
  obtain r1 q1 where a: "admit host c q = (r1, q1)" by fastforce
  have k: "k < length (td_rows db)" using here(1) by simp
  note q1 = admit_ok [OF reg rows q(1) here(2) k here(3) c a]
  show ?thesis
  proof (cases r1)
    case (Inl e)
    then have "r = Inl e" "db' = db" "q' = q1" using step a by (auto simp: sbind_def on_instance_def)
    then show ?thesis using q1 ok q(2) by (auto simp: same_frame_def)
  next
    case (Inr u)
    then have full: "q_seq q1 = int (length (td_rows db))" and open1: "\<not> q_closed q1" and ok1: "inst_ok env reg ctx db q1"
      using q1 q(2) here(1) by (auto simp: same_frame_def)
    show ?thesis
    proof (cases "q_interval q1 \<le> seq c - q_snapshot_seq q1")
      case False
      then have "r = Inr (q_merged q1)" "db' = db" "q' = q1"
        using step a Inr by (auto simp: sbind_def on_instance_def sget_def sret_def)
      then show ?thesis using ok1 ok full open1 here(1) by simp
    next
      case True
      obtain r2 db2 q2 where cp: "checkpoint_projection env host (db, q1) = (r2, (db2, q2))"
        using triple_ex [of "checkpoint_projection env host (db, q1)"] by blast
      have "snd (try_snapshot env host (db, q1)) = (db2, q2)" using try_snapshot_state(1) [of env host "(db, q1)"] cp by simp
      moreover obtain u where "fst (try_snapshot env host (db, q1)) = Inr u" using try_snapshot_state(2) by blast
      ultimately have "try_snapshot env host (db, q1) = (Inr u, (db2, q2))" by (simp add: prod_eq_iff)
      then have "r = Inr (q_merged q2)" "db' = db2" "q' = q2"
        using step a Inr True by (auto simp: sbind_def on_instance_def sget_def)
      then show ?thesis using checkpoint_ok [OF reg ok ok1 cp] full open1 here(1) by simp
    qed
  qed
qed

lemma fold_writes_ok:
  assumes reg: "exact_registry env reg ctx" and ok: "tape_ok env reg ctx db" and q: "inst_ok env reg ctx db q" "\<not> q_closed q"
    and c: "exact_claim env c" "dump_fields env (cfields c) = Inr body"
    and step: "fold_writes env host c body (db, q) = (r, (db', q'))"
  shows "tape_ok env reg ctx db' \<and> inst_ok env reg ctx db' q' \<and> grows env db db' \<and> \<not> q_closed q' \<and> fold_left env c db db'
    \<and> (\<forall>m. r = Inr m \<longrightarrow> q_seq q' = int (length (td_rows db')) \<and> m = q_merged q'
        \<and> (td_rows db' = td_rows db \<longrightarrow> on_tape_already env c db))"
proof -
  have rows: "rows_ok env db" using ok by (simp add: tape_ok_def)
  define res where "res = immediate_transaction (th_append host) 1 (to_double (1 / 100)) (append_body env host body c) (db, q)"
  obtain r1 db1 q1 where res0: "res = (r1, (db1, q1))" using triple_ex [of res] by blast
  note tx = res0 [unfolded res_def]
  have idle: ?thesis if "r = Inl e" "db' = db" "inst_ok env reg ctx db q'" "same_frame q q'" for e
    using that ok rows q by (auto simp: fold_left_def grows_refl same_frame_def)
  from tx show ?thesis
  proof (cases rule: immediate_transaction_cases)
    case (unbegun e)
    then have "r = Inl e" "db' = db" "q' = q"
      using step [unfolded fold_writes_def, unfolded sbind_fail [of "immediate_transaction (th_append host) 1 (to_double (1 / 100)) (append_body env host body c)" "(db, q)" e "(db1, q1)", OF tx [unfolded unbegun(1)]]] by simp_all
    then show ?thesis using q by (intro idle) auto
  next
    case (undone e r0 db0)
    then have "r = Inl e" "db' = db" "q' = q1"
      using step [unfolded fold_writes_def, unfolded sbind_fail [of "immediate_transaction (th_append host) 1 (to_double (1 / 100)) (append_body env host body c)" "(db, q)" e "(db1, q1)", OF tx [unfolded undone(1)]]] by simp_all
    then show ?thesis using append_body_ok [OF reg rows q(1) c undone(3)] by (intro idle) auto
  next
    case (committed ans)
    note b = append_body_ok [OF reg rows q(1) c committed(2)]
    note run = step [unfolded fold_writes_def, unfolded sbind_ok [of "immediate_transaction (th_append host) 1 (to_double (1 / 100)) (append_body env host body c)" "(db, q)" ans "(db1, q1)", OF tx [unfolded committed(1)]]]
    show ?thesis
    proof (cases ans)
      case (AlreadyThere m)
      then have "r = Inr m" "db' = db1" "q' = q1" using run by (auto simp: sret_def)
      then show ?thesis using b AlreadyThere ok rows q(2)
        by (auto simp: appended_def fold_left_def grows_refl same_frame_def on_tape_already_def)
    next
      case (Appended c')
      let ?k = "length (td_rows db)"
      from b Appended obtain x where
        c': "c' = c\<lparr>seq := int ?k\<rparr>" and new: "claim_id c \<notin> claim_id ` set (tape_claims env db)"
        and db1: "td_snaps db1 = td_snaps db" "length (td_rows db1) = Suc ?k" "rows_ok env db1"
          "tape_claims env db1 = tape_claims env db @ [x]" and x: "twin c x"
        and q1: "inst_ok env reg ctx db q1" "same_frame q q1" "q_seq q1 = int ?k"
        by (auto simp: appended_def)
      have g: "grows env db db1" using db1 by (auto simp: grows_def)
      have ok1: "tape_ok env reg ctx db1"
        using snaps_grow [OF rows g _ db1(1)] ok db1(3) by (simp add: tape_ok_def)
      have at: "tape_claims env db1 ! ?k = x" using length_claims [OF rows] by (simp add: db1(4) nth_append)
      have rest: "sbind (on_instance (admit host c')) (\<lambda>_. sbind (sget snd) (\<lambda>q.
         sbind (if q_interval q \<le> seq c' - q_snapshot_seq q then try_snapshot env host else sret ()) (\<lambda>_.
         sget (\<lambda>t. q_merged (snd t))))) (db1, q1) = (r, (db', q'))"
        using run Appended by simp
      have "\<not> q_closed q1" using q1(2) q(2) by (simp add: same_frame_def)
      note fin = after_append_ok [OF reg ok1 inst_grows [OF rows g q1(1)] this db1(2) q1(3) _ _ _ rest]
      have fin: "td_rows db' = td_rows db1 \<and> tape_ok env reg ctx db' \<and> inst_ok env reg ctx db' q' \<and> \<not> q_closed q'
          \<and> (\<forall>m. r = Inr m \<longrightarrow> q_seq q' = int (Suc ?k) \<and> m = q_merged q')"
        by (rule fin) (use c' x at c(1) in simp_all)
      have tc: "tape_claims env db' = tape_claims env db1" using fin rows_same(1) by blast
      have "grows env db db'" "fold_left env c db db'"
        using fin tc g db1(4) new x rows_same(2) [of db' db1 env] by (auto simp: grows_def fold_left_def)
      then show ?thesis using fin db1(2) by auto
    qed
  qed
qed

section \<open>Opening\<close>

lemma admit_seq:
  assumes "admit host c (q\<lparr>q_seq := j\<rparr>) = (r, q1)"
  shows "\<exists>i. admit host c q = (r, q1\<lparr>q_seq := i\<rparr>)"
  using assms by (auto simp: admit_def Let_def split: sum.splits intro: exI [of _ "q_seq (snd (admit host c q))"])

lemma admit_rows_seq:
  "admit_rows env host rows (q\<lparr>q_seq := j\<rparr>) = (r, q1) \<Longrightarrow> \<exists>i. admit_rows env host rows q = (r, q1\<lparr>q_seq := i\<rparr>)"
proof (induction rows arbitrary: q j r q1)
  case Nil
  then have "q1\<lparr>q_seq := q_seq q\<rparr> = q" "r = Inr 0" by (auto simp: sret_def)
  then show ?case by (metis admit_rows.simps(1) sret_def)
next
  case (Cons x rows)
  show ?case
  proof (cases "decode_claim env x")
    case (Inl e)
    with Cons.prems have "q1\<lparr>q_seq := q_seq q\<rparr> = q" "r = Inl e" by auto
    with Inl show ?thesis by (metis admit_rows.simps(2) sbind_lift_Inl)
  next
    case (Inr c)
    obtain r1 q2 where a: "admit host c (q\<lparr>q_seq := j\<rparr>) = (r1, q2)" by fastforce
    from admit_seq [OF a] obtain i where a': "admit host c q = (r1, q2\<lparr>q_seq := i\<rparr>)" by blast
    show ?thesis
    proof (cases r1)
      case (Inl e)
      with Cons.prems a a' Inr show ?thesis by (auto simp: sbind_def slift_def)
    next
      case r1: (Inr u)
      obtain r2 q3 where b: "admit_rows env host rows ((q2\<lparr>q_seq := i\<rparr>)\<lparr>q_seq := q_seq q2\<rparr>) = (r2, q3)" by fastforce
      from Cons.IH [OF b] obtain i' where b': "admit_rows env host rows (q2\<lparr>q_seq := i\<rparr>) = (r2, q3\<lparr>q_seq := i'\<rparr>)" by blast
      have "admit_rows env host rows q2 = (r2, q3)" using b by simp
      with Cons.prems a a' b' Inr r1 show ?thesis by (cases r2) (auto simp: sbind_def slift_def sret_def)
    qed
  qed
qed

lemma pick_snapshot_Some:
  "pick_snapshot env db ss = Some (n, c) \<Longrightarrow>
    \<exists>s \<in> set ss. restore_snapshot env db s = Some c \<and> sn_seq s = n"
  by (induction ss) (auto split: option.splits)

lemma newest_subset: "set (newest_snapshots p db) \<subseteq> {s \<in> set (td_snaps db). p s}"
  using set_take_subset by (fastforce simp: newest_snapshots_def)

lemma load_existing_ok:
  assumes reg: "exact_registry env reg ctx" and ok: "tape_ok env reg ctx db"
    and step: "load_existing env host db (new_instance env reg ctx interval) = (r, q)"
  shows "case r of Inr _ \<Rightarrow> inst_ok env reg ctx db q \<and> q_seq q = int (length (td_rows db)) \<and> \<not> q_closed q
    | Inl e \<Rightarrow> stuck env reg ctx db"
proof -
  have rows: "rows_ok env db" using ok by (simp add: tape_ok_def)
  let ?q0 = "new_instance env reg ctx interval"
  define found where "found = pick_snapshot env db (newest_snapshots
      (\<lambda>s. sn_key s = q_key ?q0 \<and> sn_version s = PROJECTION_SNAPSHOT_VERSION) db)"
  define after where "after = (case found of None \<Rightarrow> - 1 | Some (n, c) \<Rightarrow> n)"
  define q1 where "q1 = (case found of None \<Rightarrow> ?q0 | Some (n, c) \<Rightarrow> ?q0\<lparr>q_merged := c, q_snapshot_seq := n\<rparr>)"
  have start: "inst_ok env reg ctx db (q1\<lparr>q_seq := after + 1\<rparr>) \<and> \<not> q_closed q1"
  proof (cases found)
    case None
    then show ?thesis by (simp add: q1_def after_def inst_ok_def new_instance_def)
  next
    case (Some nc)
    then obtain n c where nc: "found = Some (n, c)" by (cases nc) auto
    from pick_snapshot_Some [OF nc [unfolded found_def]] newest_subset obtain s where
      s: "s \<in> set (td_snaps db)" "sn_key s = te_print env reg ctx" "sn_version s = PROJECTION_SNAPSHOT_VERSION"
        "restore_snapshot env db s = Some c" "sn_seq s = n"
      by (fastforce simp: new_instance_def)
    have d: "sn_digest s = Some (expected_digest env s)" "0 \<le> n" "decode_claim env (snapshot_as_row s) = Inr c"
      using s(4,5) by (auto simp: restore_snapshot_def split: if_splits sum.splits)
    from ok s d obtain p where "n < int (length (td_rows db))" "exact_claim env c"
      "projection reg ctx (take (nat (n + 1)) (tape_claims env db)) = Inr p" "same_view c p"
      by (fastforce simp: tape_ok_def snaps_ok_def snapshot_ok_def)
    then show ?thesis using nc d(2) by (auto simp: q1_def after_def inst_ok_def new_instance_def)
  qed
  then have after: "- 1 \<le> after" "after < int (length (td_rows db))" by (auto simp: inst_ok_def)
  have rest: "select_rows (\<lambda>r. after < tr_seq r) db = drop (nat (after + 1)) (td_rows db)"
    using rows_from [OF rows, of "after + 1"] after(1) by (simp add: select_sorted [OF rows] add1_zle_eq)
  obtain r1 q2 where a: "admit_rows env host (drop (nat (after + 1)) (td_rows db)) (q1\<lparr>q_seq := after + 1\<rparr>) = (r1, q2)" by fastforce
  have ok2: "inst_ok env reg ctx db q2 \<and> same_frame (q1\<lparr>q_seq := after + 1\<rparr>) q2
    \<and> (case r1 of Inr _ \<Rightarrow> q_seq q2 = int (length (td_rows db)) | Inl e \<Rightarrow> stuck env reg ctx db)"
    using admit_rows_ok [OF reg rows conjunct1 [OF start]] a by simp
  obtain i where a': "admit_rows env host (drop (nat (after + 1)) (td_rows db)) q1 = (r1, q2\<lparr>q_seq := i\<rparr>)"
    using admit_rows_seq [OF a] by blast
  have run: "(r, q) = (case r1 of Inl e \<Rightarrow> (Inl e, q2\<lparr>q_seq := i\<rparr>)
      | Inr _ \<Rightarrow> (Inr (), q2\<lparr>q_seq := (if drop (nat (after + 1)) (td_rows db) = [] then after
          else tr_seq (last (drop (nat (after + 1)) (td_rows db)))) + 1\<rparr>))"
    using step [symmetric] unfolding load_existing_def Let_def found_def [symmetric] after_def [symmetric]
      q1_def [symmetric] rest
    by (cases r1) (simp_all add: sbind_def a' sput_def)
  have last: "(if drop (nat (after + 1)) (td_rows db) = [] then after
      else tr_seq (last (drop (nat (after + 1)) (td_rows db)))) + 1 = int (length (td_rows db))"
  proof (cases "drop (nat (after + 1)) (td_rows db) = []")
    case True
    then show ?thesis using after by auto
  next
    case False
    then have "last (drop (nat (after + 1)) (td_rows db)) = td_rows db ! (length (td_rows db) - 1)"
      by (simp add: last_drop last_conv_nth)
    then show ?thesis using False row_seq [OF rows, of "length (td_rows db) - 1"] by auto
  qed
  show ?thesis
  proof (cases r1)
    case (Inl e)
    then show ?thesis using run ok2 by simp
  next
    case (Inr u)
    then have "q_seq q2 = int (length (td_rows db))" using ok2 by simp
    then have "q = q2" using run Inr last by simp
    then show ?thesis using run Inr ok2 start by (simp add: same_frame_def)
  qed
qed

lemma init_tape_schema_rows:
  assumes "init_tape_schema host db = (r, db')"
  shows "td_rows db' = td_rows db" "td_snaps db' = td_snaps db"
proof -
  have m: "td_rows (meta_put_new kv d) = td_rows d" "td_snaps (meta_put_new kv d) = td_snaps d" for kv d
    by (simp_all add: meta_put_new_def)
  show "td_rows db' = td_rows db" "td_snaps db' = td_snaps db"
    using assms by (auto simp: init_tape_schema_def Let_def m split: if_splits option.splits)
qed

lemma open_ok:
  assumes reg: "exact_registry env reg ctx" and ok: "tape_ok env reg ctx db"
    and step: "open_tape env host reg ctx interval db = (r, db')"
  shows "td_rows db' = td_rows db \<and> tape_ok env reg ctx db'
    \<and> (\<forall>q. r = Inr q \<longrightarrow> inst_ok env reg ctx db' q \<and> q_seq q = int (length (td_rows db)) \<and> \<not> q_closed q)"
proof (cases "1 \<le> interval \<and> th_connect host = None")
  case False
  then have "db' = db \<and> (\<exists>e. r = Inl e)"
    using step by (cases "1 \<le> interval"; cases "th_connect host") (auto simp: open_tape_def raise_some_def)
  then show ?thesis using ok by auto
next
  case True
  obtain r1 db1 where i: "init_tape_schema host db = (r1, db1)" by fastforce
  note rs = init_tape_schema_rows [OF i]
  have ok1: "tape_ok env reg ctx db1"
    using ok rows_same(2,5) [OF rs(1)] rs(2) by (simp add: tape_ok_def snaps_ok_def)
  obtain r2 q where l: "load_existing env host db1 (new_instance env reg ctx interval) = (r2, q)" by fastforce
  have "db' = db1 \<and> (\<forall>x. r = Inr x \<longrightarrow> x = q \<and> (\<exists>u. r2 = Inr u))"
  proof -
    have "(r, db') = sbind (init_tape_schema host) (\<lambda>_.
        sbind (sget (\<lambda>db. load_existing env host db (new_instance env reg ctx interval))) (\<lambda>res.
        case res of (Inl e, q) \<Rightarrow> slift (Inl e) | (Inr _, q) \<Rightarrow> sret q)) db"
      using step True by (simp add: open_tape_def raise_some_def)
    also have "\<dots> = (case r1 of Inl e \<Rightarrow> (Inl e, db1) | Inr u \<Rightarrow>
        (case r2 of Inl e \<Rightarrow> (Inl e, db1) | Inr u \<Rightarrow> (Inr q, db1)))"
    proof (cases r1)
      case (Inl e)
      then show ?thesis using sbind_fail [of "init_tape_schema host" db e db1] i by simp
    next
      case (Inr u)
      then have "init_tape_schema host db = (Inr u, db1)" using i by simp
      then show ?thesis unfolding Inr by (subst sbind_ok) (auto simp: sbind_def sget_def l slift_def sret_def split: sum.split)
    qed
    finally show ?thesis by (auto split: sum.splits)
  qed
  then show ?thesis using load_existing_ok [OF reg ok1 l] ok1 rs(1) by (auto split: sum.splits)
qed

section \<open>Sessions\<close>

text \<open>
  Several instances share a file. A fold is two steps, so that others commit in between; an
  instance may vanish at any moment, and snapshot rows may be lost or damaged as long as the
  checksum shows it.
\<close>

datatype tape_cmd = OpenTape nat int | FoldOpens nat claim | FoldWrites nat claim | RefreshTape nat
  | CheckpointTape nat | CloseTape nat | CrashTape nat | DamageSnapshots "snapshot_row list"

record tape_session =
  ts_db :: tape_db
  ts_open :: "(nat \<times> sq_store) list"

definition fresh_session :: tape_session where
  "fresh_session = \<lparr>ts_db = empty_tape_db, ts_open = []\<rparr>"

definition on_open :: "nat \<Rightarrow> 'a tape_op \<Rightarrow> tape_session \<Rightarrow> tape_session" where
  "on_open i m S = (case map_of (ts_open S) i of
      None \<Rightarrow> S
    | Some q \<Rightarrow> if q_closed q then S else (case m (ts_db S, q) of (r, (db', q')) \<Rightarrow>
        S\<lparr>ts_db := db', ts_open := dict_put i q' (ts_open S)\<rparr>))"

fun tape_step :: "tape_env \<Rightarrow> registry \<Rightarrow> belief_context \<Rightarrow> tape_session \<Rightarrow> tape_host \<times> tape_cmd \<Rightarrow> tape_session" where
  "tape_step env reg ctx S (host, OpenTape i interval) = (case open_tape env host reg ctx interval (ts_db S) of
      (Inl e, db) \<Rightarrow> S\<lparr>ts_db := db\<rparr>
    | (Inr q, db) \<Rightarrow> S\<lparr>ts_db := db, ts_open := dict_put i q (ts_open S)\<rparr>)"
| "tape_step env reg ctx S (host, FoldOpens i c) = on_open i (fold_opens env host c) S"
| "tape_step env reg ctx S (host, FoldWrites i c) = (case dump_fields env (cfields c) of
      Inl e \<Rightarrow> S | Inr body \<Rightarrow> on_open i (fold_writes env host c body) S)"
| "tape_step env reg ctx S (host, RefreshTape i) = on_open i (tape_refresh env host) S"
| "tape_step env reg ctx S (host, CheckpointTape i) = on_open i (checkpoint_projection env host) S"
| "tape_step env reg ctx S (host, CloseTape i) = on_open i close_tape S"
| "tape_step env reg ctx S (host, CrashTape i) = S\<lparr>ts_open := filter (\<lambda>x. fst x \<noteq> i) (ts_open S)\<rparr>"
| "tape_step env reg ctx S (host, DamageSnapshots ss) = S\<lparr>ts_db := (ts_db S)\<lparr>td_snaps :=
      filter (\<lambda>s. s \<in> set (td_snaps (ts_db S)) \<or> sn_digest s \<noteq> Some (expected_digest env s)) ss\<rparr>\<rparr>"

definition tape_session :: "tape_env \<Rightarrow> registry \<Rightarrow> belief_context \<Rightarrow> (tape_host \<times> tape_cmd) list \<Rightarrow> tape_session
    \<Rightarrow> tape_session" where
  "tape_session env reg ctx cmds S = foldl (tape_step env reg ctx) S cmds"

fun cmd_exact :: "tape_env \<Rightarrow> tape_cmd \<Rightarrow> bool" where
  "cmd_exact env (FoldOpens i c) = exact_claim env c"
| "cmd_exact env (FoldWrites i c) = exact_claim env c"
| "cmd_exact env _ = True"

definition session_ok :: "tape_env \<Rightarrow> registry \<Rightarrow> belief_context \<Rightarrow> tape_session \<Rightarrow> bool" where
  "session_ok env reg ctx S \<longleftrightarrow> tape_ok env reg ctx (ts_db S) \<and> (\<forall>(i, q) \<in> set (ts_open S). inst_ok env reg ctx (ts_db S) q)"

lemma session_ok_fresh: "session_ok env reg ctx fresh_session"
  by (simp add: session_ok_def fresh_session_def tape_ok_def rows_ok_def snaps_ok_def empty_tape_db_def decode_rows_def
      tape_claims_def)

lemma session_ok_inst: "session_ok env reg ctx S \<Longrightarrow> map_of (ts_open S) i = Some q \<Longrightarrow> inst_ok env reg ctx (ts_db S) q"
  by (auto simp: session_ok_def dest: map_of_SomeD)

lemma session_ok_put:
  assumes S: "session_ok env reg ctx S" and "tape_ok env reg ctx db'" and "inst_ok env reg ctx db' q'"
    and g: "grows env (ts_db S) db'"
  shows "session_ok env reg ctx (S\<lparr>ts_db := db', ts_open := dict_put i q' (ts_open S)\<rparr>)"
proof -
  have "rows_ok env (ts_db S)" using S by (simp add: session_ok_def tape_ok_def)
  then have "\<forall>(i, q) \<in> set (ts_open S). inst_ok env reg ctx db' q"
    using S inst_grows [OF _ g] by (auto simp: session_ok_def)
  then show ?thesis using assms(2,3) set_dict_put [of i q' "ts_open S"] by (fastforce simp: session_ok_def)
qed

text \<open>An operation that keeps the invariant of its instance and file keeps that of the session.\<close>

lemma on_open_ok:
  assumes S: "session_ok env reg ctx S"
    and m: "\<And>q r db' q'. inst_ok env reg ctx (ts_db S) q \<Longrightarrow> \<not> q_closed q \<Longrightarrow> m (ts_db S, q) = (r, (db', q')) \<Longrightarrow>
      tape_ok env reg ctx db' \<and> inst_ok env reg ctx db' q' \<and> grows env (ts_db S) db'"
  shows "session_ok env reg ctx (on_open i m S) \<and> grows env (ts_db S) (ts_db (on_open i m S))"
proof (cases "map_of (ts_open S) i")
  case None
  then show ?thesis using S by (simp add: on_open_def grows_refl session_ok_def tape_ok_def)
next
  case (Some q)
  obtain r db' q' where r: "m (ts_db S, q) = (r, (db', q'))" using triple_ex [of "m (ts_db S, q)"] by blast
  show ?thesis
  proof (cases "q_closed q")
    case True
    then show ?thesis using S Some by (simp add: on_open_def grows_refl session_ok_def tape_ok_def)
  next
    case False
    from m [OF session_ok_inst [OF S Some] False r] show ?thesis
      using session_ok_put [OF S] Some False r by (simp add: on_open_def)
  qed
qed

lemma grows_same_rows: "rows_ok env db \<Longrightarrow> td_rows db' = td_rows db \<Longrightarrow> grows env db db'"
  using rows_same(1,2) [of db' db env] by (simp add: grows_def)

lemma fold_opens_ok:
  assumes "exact_registry env reg ctx" and "tape_ok env reg ctx db" and "inst_ok env reg ctx db q"
    and step: "fold_opens env host c (db, q) = (r, (db', q'))"
  shows "db' = db \<and> inst_ok env reg ctx db q' \<and> q_closed q' = q_closed q"
proof (cases "q_closed q \<or> (\<exists>e. dump_fields env (cfields c) = Inl e)")
  case True
  then have "db' = db \<and> q' = q" using step
    by (auto simp: fold_opens_def sbind_def ensure_open_def guard_or_def slift_def split: if_splits)
  then show ?thesis using assms by simp
next
  case False
  then obtain body where body: "dump_fields env (cfields c) = Inr body" by (cases "dump_fields env (cfields c)") auto
  obtain r1 t1 where f: "refresh_existing env host (db, q) = (r1, t1)" by (cases "refresh_existing env host (db, q)")
  have "t1 = (db', q')"
    using step body False f by (auto simp: fold_opens_def sbind_def ensure_open_def slift_def sret_def split: sum.splits)
  then show ?thesis using refresh_ok [OF assms(1) _ assms(3) f] assms(2) by (simp add: tape_ok_def same_frame_def)
qed

lemma session_step:
  assumes reg: "exact_registry env reg ctx" and S: "session_ok env reg ctx S" and cmd: "cmd_exact env cmd"
  shows "session_ok env reg ctx (tape_step env reg ctx S (host, cmd))
    \<and> grows env (ts_db S) (ts_db (tape_step env reg ctx S (host, cmd)))"
proof -
  have ok: "tape_ok env reg ctx (ts_db S)" and rows: "rows_ok env (ts_db S)" using S by (auto simp: session_ok_def tape_ok_def)
  show ?thesis
  proof (cases cmd)
    case (OpenTape i interval)
    obtain r db where o: "open_tape env host reg ctx interval (ts_db S) = (r, db)" by fastforce
    have g: "grows env (ts_db S) db" and ok': "tape_ok env reg ctx db"
      using open_ok [OF reg ok o] grows_same_rows [OF rows] by auto
    show ?thesis
    proof (cases r)
      case (Inl e)
      have "\<forall>(i, q) \<in> set (ts_open S). inst_ok env reg ctx db q" using S inst_grows [OF rows g] by (auto simp: session_ok_def)
      then show ?thesis using OpenTape o g ok' Inl by (simp add: session_ok_def)
    next
      case (Inr q)
      then show ?thesis using OpenTape o session_ok_put [OF S ok' _ g] open_ok [OF reg ok o] g by simp
    qed
  next
    case (FoldOpens i c)
    show ?thesis unfolding FoldOpens tape_step.simps
      by (rule on_open_ok [OF S]) (use fold_opens_ok [OF reg ok] ok grows_refl [OF rows] in blast)
  next
    case (FoldWrites i c)
    show ?thesis
    proof (cases "dump_fields env (cfields c)")
      case (Inl e)
      then show ?thesis using FoldWrites S grows_refl [OF rows] by simp
    next
      case (Inr body)
      have c: "exact_claim env c" using cmd FoldWrites by simp
      show ?thesis unfolding FoldWrites tape_step.simps Inr sum.case
        by (rule on_open_ok [OF S]) (use fold_writes_ok [OF reg ok _ _ c Inr] in blast)
    qed
  next
    case (RefreshTape i)
    show ?thesis unfolding RefreshTape tape_step.simps
      by (rule on_open_ok [OF S]) (use tape_refresh_ok [OF reg rows] ok grows_refl [OF rows] in blast)
  next
    case (CheckpointTape i)
    show ?thesis unfolding CheckpointTape tape_step.simps
      by (rule on_open_ok [OF S]) (use checkpoint_ok [OF reg ok] grows_same_rows [OF rows] in blast)
  next
    case (CloseTape i)
    show ?thesis unfolding CloseTape tape_step.simps
      by (rule on_open_ok [OF S]) (use ok grows_refl [OF rows] in \<open>auto simp: close_tape_def sput_def inst_ok_def\<close>)
  next
    case (CrashTape i)
    then show ?thesis using S grows_refl [OF rows] by (auto simp: session_ok_def)
  next
    case (DamageSnapshots ss)
    define db' where "db' = (ts_db S)\<lparr>td_snaps := filter (\<lambda>s. s \<in> set (td_snaps (ts_db S))
      \<or> sn_digest s \<noteq> Some (expected_digest env s)) ss\<rparr>"
    have rs: "td_rows db' = td_rows (ts_db S)" by (simp add: db'_def)
    have "snapshot_ok env reg ctx (ts_db S) s" if "s \<in> set (td_snaps db')" for s
      using that ok by (auto simp: db'_def tape_ok_def snaps_ok_def snapshot_ok_def)
    then have "tape_ok env reg ctx db'" using rows rows_same(2,5) [OF rs] by (simp add: tape_ok_def snaps_ok_def)
    then show ?thesis using DamageSnapshots S grows_same_rows [OF rows rs] rows_same(3) [OF rs]
      by (simp add: session_ok_def db'_def [symmetric])
  qed
qed

lemma session_run:
  assumes "exact_registry env reg ctx" and "session_ok env reg ctx S" and "\<forall>(host, cmd) \<in> set cmds. cmd_exact env cmd"
  shows "session_ok env reg ctx (tape_session env reg ctx cmds S) \<and> grows env (ts_db S) (ts_db (tape_session env reg ctx cmds S))"
  using assms(2,3)
proof (induction cmds arbitrary: S)
  case Nil
  then show ?case by (simp add: tape_session_def grows_refl session_ok_def tape_ok_def)
next
  case (Cons hc cmds)
  obtain host cmd where hc: "hc = (host, cmd)" by (cases hc)
  have one: "session_ok env reg ctx (tape_step env reg ctx S hc)" "grows env (ts_db S) (ts_db (tape_step env reg ctx S hc))"
    using session_step [OF assms(1) Cons.prems(1), of cmd host] Cons.prems(2) by (auto simp: hc)
  from Cons.IH [OF one(1)] Cons.prems(2) grows_trans [OF one(2)] show ?case by (auto simp: tape_session_def)
qed

end
