(* ===== verification/SqliteTapeProps.thy ===== *)
theory SqliteTapeProps
  imports SqliteTapeSession
begin

text \<open>
  Properties of the durable claim store: whatever several instances, crashes, failed
  transactions and damaged snapshots do to a file, an instance that answers answers as the
  in-memory store would; claims are never lost; a claim whose merge raises blocks the file.
\<close>

section \<open>Reading the whole tape\<close>









section \<open>The store in memory\<close>








section \<open>A claim that cannot be merged\<close>



section \<open>Witnesses\<close>

text \<open>
  Two instances of one file: the first takes a snapshot, vanishes and is opened again. The
  field \<open>n\<close> merges by maximum.
\<close>

definition demo_tape_env :: tape_env where
  "demo_tape_env = \<lparr>te_codecs = [], te_print = \<lambda>_ _. ''p'', te_digest = \<lambda>_. ''d''\<rparr>"

definition demo_tape_host :: tape_host where
  "demo_tape_host = \<lparr>th_clock = 0, th_clock_repr = ''0'', th_fresh = ''s'', th_merge = \<lambda>_. ''m'', th_connect = None,
     th_append = calm, th_snapshot = calm\<rparr>"

definition demo_tape_registry :: registry where
  "demo_tape_registry = register ''n'' strategy_max registry_init"

definition demo_tape_ctx :: belief_context where
  "demo_tape_ctx = \<lparr>fail_counts = [], caution_threshold = 3\<rparr>"

definition demo_tape_claim :: "string \<Rightarrow> pyval \<Rightarrow> claim" where
  "demo_tape_claim cid v = \<lparr>tag = ''t'', cfields = [(''n'', v)], kind = None, priority = 0, source = '''',
     claim_id = cid, seq = - 1\<rparr>"















text \<open>
  A tuple is stored as a list: the connection that wrote such a claim recognises its
  redelivery, any other connection takes it for a conflict.
\<close>

definition demo_tuple_cmds :: "(tape_host \<times> tape_cmd) list" where
  "demo_tuple_cmds = map (Pair demo_tape_host) [OpenTape 0 256, FoldWrites 0 (demo_tape_claim ''a'' (VTuple [VInt 1])), OpenTape 1 256]"

lemma tuple_redelivered:
  "(let S = tape_session demo_tape_env demo_tape_registry demo_tape_ctx demo_tuple_cmds fresh_session;
        again = (\<lambda>i. fst (tape_fold demo_tape_env demo_tape_host (demo_tape_claim ''a'' (VTuple [VInt 1]))
          (ts_db S, the (map_of (ts_open S) i))))
    in (case again 1 of Inl e \<Rightarrow> e = ClaimIdConflict | Inr m \<Rightarrow> False) \<and> \<not> isl (again 0))"
  by code_simp

end
