(* ===== verification/Supervisor.thy ===== *)
theory Supervisor
  imports Rows
begin

text \<open>
  The supervisor (\<open>lipas/supervisor.py\<close>) and the lint of its tape (\<open>lipas/lint.py\<close>):
  predicates over a snapshot recommend retries, termination or escalation, a tick folds one
  claim per recommendation, and every termination or escalation is followed by its
  \<open>goal_blocked\<close> claim. Predicates, the digest and fresh ids are parameters.
\<close>

section \<open>Actions\<close>

datatype sup_tactic = Retry | Terminate | EscalateHuman

fun tactic_value :: "sup_tactic \<Rightarrow> string" where
  "tactic_value Retry = ''retry''"
| "tactic_value Terminate = ''terminate''"
| "tactic_value EscalateHuman = ''escalate_human''"

datatype supervisor_action =
    RetryAction (act_target: string) (act_max_attempts: int) (act_reason: string)
  | TerminateAction (act_reason: string)
  | EscalateAction (act_reason: string) (act_payload: "(pykey \<times> pyval) list")

text \<open>What a predicate returns: nothing, an action, or an object of another class.\<close>

datatype answer = NoAction | Recommend supervisor_action | NotAnAction

record 'v policy_rule =
  pr_name :: string
  pr_predicate :: "'v \<Rightarrow> belief_context \<Rightarrow> exn + answer"

record 'v supervisor =
  sv_policy :: "'v policy_rule list"
  sv_session :: string

definition supervisor_init :: "'v policy_rule list \<Rightarrow> string \<Rightarrow> exn + 'v supervisor" where
  "supervisor_init policy session = (if session = [] then Inl ValueError
     else Inr \<lparr>sv_policy = policy, sv_session = session\<rparr>)"

section \<open>Tags and fields\<close>

definition TAG_SUPERVISOR_RETRY :: string where "TAG_SUPERVISOR_RETRY = ''supervisor_retry''"
definition TAG_SUPERVISOR_TERMINATE :: string where "TAG_SUPERVISOR_TERMINATE = ''supervisor_terminate''"
definition TAG_SUPERVISOR_ESCALATE :: string where "TAG_SUPERVISOR_ESCALATE = ''supervisor_escalate''"
definition TAG_GOAL_BLOCKED :: string where "TAG_GOAL_BLOCKED = ''goal_blocked''"

definition F_SUP_SCHEMA_VERSION :: string where "F_SUP_SCHEMA_VERSION = ''schema_version''"
definition F_SUP_TARGET_EFFECT_ID :: string where "F_SUP_TARGET_EFFECT_ID = ''target_effect_id''"
definition F_SUP_IDEMPOTENCY_KEY :: string where "F_SUP_IDEMPOTENCY_KEY = ''idempotency_key''"
definition F_SUP_ATTEMPT_INDEX :: string where "F_SUP_ATTEMPT_INDEX = ''attempt_index''"
definition F_SUP_MAX_ATTEMPTS :: string where "F_SUP_MAX_ATTEMPTS = ''max_attempts''"
definition F_SUP_REASON :: string where "F_SUP_REASON = ''reason''"
definition F_SUP_PAYLOAD :: string where "F_SUP_PAYLOAD = ''payload''"
definition F_GB_SCHEMA_VERSION :: string where "F_GB_SCHEMA_VERSION = ''schema_version''"
definition F_GB_SOURCE_TACTIC :: string where "F_GB_SOURCE_TACTIC = ''source_tactic''"
definition F_GB_SOURCE_CLAIM_SEQ :: string where "F_GB_SOURCE_CLAIM_SEQ = ''source_claim_seq''"
definition F_GB_REASON :: string where "F_GB_REASON = ''reason''"
definition F_GB_PAYLOAD :: string where "F_GB_PAYLOAD = ''payload''"

lemmas supervisor_tags = TAG_SUPERVISOR_RETRY_def TAG_SUPERVISOR_TERMINATE_def TAG_SUPERVISOR_ESCALATE_def
  TAG_GOAL_BLOCKED_def

lemmas supervisor_fields = F_SUP_SCHEMA_VERSION_def F_SUP_TARGET_EFFECT_ID_def F_SUP_IDEMPOTENCY_KEY_def
  F_SUP_ATTEMPT_INDEX_def F_SUP_MAX_ATTEMPTS_def F_SUP_REASON_def F_SUP_PAYLOAD_def F_GB_SCHEMA_VERSION_def
  F_GB_SOURCE_TACTIC_def F_GB_SOURCE_CLAIM_SEQ_def F_GB_REASON_def F_GB_PAYLOAD_def

section \<open>Claims\<close>

text \<open>
  The digest of the key, and the ids: \<open>se_fresh n\<close> is the \<open>n\<close>-th default claim id and
  \<open>se_merged n\<close> the id of the \<open>n\<close>-th merged claim.
\<close>

record supervisor_env =
  se_digest :: "string \<Rightarrow> string"
  se_fresh :: "nat \<Rightarrow> string"
  se_merged :: "nat \<Rightarrow> string"

definition gen_idempotency_key :: "(string \<Rightarrow> string) \<Rightarrow> string \<Rightarrow> string \<Rightarrow> int \<Rightarrow> string" where
  "gen_idempotency_key digest session target attempt =
     take 32 (digest (session @ [char_of (0 :: nat)] @ target @ [char_of (0 :: nat)] @ str_int attempt))"

definition supervisor_source :: "string \<Rightarrow> string" where
  "supervisor_source session = ''supervisor:'' @ session"

definition action_reason :: "string \<Rightarrow> supervisor_action \<Rightarrow> string" where
  "action_reason name a = ''['' @ name @ ''] '' @ act_reason a"

definition action_to_claim :: "(string \<Rightarrow> string) \<Rightarrow> string \<Rightarrow> string \<Rightarrow> supervisor_action \<Rightarrow> string \<Rightarrow> int
    \<Rightarrow> string option \<Rightarrow> claim" where
  "action_to_claim digest session fresh a name attempt cid =
     (let body = (case a of
          RetryAction target maximum r \<Rightarrow> (TAG_SUPERVISOR_RETRY,
            [(F_SUP_SCHEMA_VERSION, VInt 1), (F_SUP_TARGET_EFFECT_ID, VStr target),
             (F_SUP_IDEMPOTENCY_KEY, VStr (gen_idempotency_key digest session target attempt)),
             (F_SUP_ATTEMPT_INDEX, VInt attempt), (F_SUP_MAX_ATTEMPTS, VInt maximum),
             (F_SUP_REASON, VStr (action_reason name a))])
        | TerminateAction r \<Rightarrow> (TAG_SUPERVISOR_TERMINATE,
            [(F_SUP_SCHEMA_VERSION, VInt 1), (F_SUP_REASON, VStr (action_reason name a))])
        | EscalateAction r payload \<Rightarrow> (TAG_SUPERVISOR_ESCALATE,
            [(F_SUP_SCHEMA_VERSION, VInt 1), (F_SUP_REASON, VStr (action_reason name a)),
             (F_SUP_PAYLOAD, VDict payload)]))
      in \<lparr>tag = fst body, cfields = snd body, kind = None, priority = 0, source = supervisor_source session,
          claim_id = (case cid of Some i \<Rightarrow> i | None \<Rightarrow> fresh), seq = - 1\<rparr>)"

definition build_goal_blocked :: "string \<Rightarrow> claim \<Rightarrow> int \<Rightarrow> exn + claim" where
  "build_goal_blocked session src n =
     ebind (if tag src = TAG_SUPERVISOR_TERMINATE then Inr (Terminate, None)
        else if tag src = TAG_SUPERVISOR_ESCALATE then
          (case dict_get (VDict []) (cfields src) F_SUP_PAYLOAD of
             VDict d \<Rightarrow> Inr (EscalateHuman, Some d) | _ \<Rightarrow> Inl TypeError)
        else Inl AssertionError) (\<lambda>(t, payload).
     Inr \<lparr>tag = TAG_GOAL_BLOCKED,
       cfields = [(F_GB_SCHEMA_VERSION, VInt 1), (F_GB_SOURCE_TACTIC, VStr (tactic_value t)),
           (F_GB_SOURCE_CLAIM_SEQ, VInt n), (F_GB_REASON, dict_get (VStr []) (cfields src) F_SUP_REASON)]
         @ (case payload of None \<Rightarrow> [] | Some d \<Rightarrow> [(F_GB_PAYLOAD, VDict d)]),
       kind = None, priority = 0, source = supervisor_source session,
       claim_id = claim_id src @ '':goal-blocked'', seq = - 1\<rparr>)"

section \<open>A tick\<close>

text \<open>The rows and the number of ids drawn so far.\<close>

record supervised =
  su_rows :: rowset
  su_next :: nat

definition counted :: "string option \<Rightarrow> claim \<Rightarrow> bool" where
  "counted skip c \<longleftrightarrow> (case skip of None \<Rightarrow> True
     | Some p \<Rightarrow> take (length p + 1) (claim_id c) \<noteq> p @ '':'')"

definition tally_step :: "string option \<Rightarrow> (string \<times> int) list \<Rightarrow> claim \<Rightarrow> (string \<times> int) list" where
  "tally_step skip out c = (if \<not> counted skip c then out
     else (case map_of (cfields c) F_SUP_TARGET_EFFECT_ID of
        Some (VStr t) \<Rightarrow> dict_put t (dict_get 0 out t + 1) out
      | _ \<Rightarrow> out))"

definition tally_prior_retries :: "string option \<Rightarrow> rowset \<Rightarrow> (string \<times> int) list" where
  "tally_prior_retries skip rows =
     foldl (tally_step skip) [] (store_filter (Some TAG_SUPERVISOR_RETRY) None None (rs_store rows))"

text \<open>Phase 1: the pending actions with their rule and attempt index.\<close>

type_synonym pending = "(supervisor_action \<times> string \<times> int) list"

fun evaluate_rules :: "(string \<times> int) list \<Rightarrow> 'v \<Rightarrow> belief_context \<Rightarrow> (string \<times> int) list \<Rightarrow> 'v policy_rule list
    \<Rightarrow> exn + pending" where
  "evaluate_rules prior view ctx now [] = Inr []"
| "evaluate_rules prior view ctx now (r # rules) =
     ebind (pr_predicate r view ctx) (\<lambda>ans. case ans of
         NoAction \<Rightarrow> evaluate_rules prior view ctx now rules
       | NotAnAction \<Rightarrow> Inl TypeError
       | Recommend a \<Rightarrow> (case a of
             RetryAction target maximum reason \<Rightarrow>
               let already = dict_get 0 prior target + dict_get 0 now target in
               if maximum \<le> already then evaluate_rules prior view ctx now rules
               else ebind (evaluate_rules prior view ctx (dict_put target (dict_get 0 now target + 1) now) rules) (\<lambda>later.
                 Inr ((a, pr_name r, already + 1) # later))
           | _ \<Rightarrow> ebind (evaluate_rules prior view ctx now rules) (\<lambda>later. Inr ((a, pr_name r, 0) # later))))"

text \<open>Phase 2: the claims, from the action number \<open>k\<close> on; a default id is drawn for each.\<close>

fun action_claims :: "supervisor_env \<Rightarrow> string \<Rightarrow> string option \<Rightarrow> nat \<Rightarrow> nat \<Rightarrow> pending \<Rightarrow> claim list" where
  "action_claims env session prefix n k [] = []"
| "action_claims env session prefix n k ((a, name, attempt) # later) =
     action_to_claim (se_digest env) session (se_fresh env n) a name attempt
       (map_option (\<lambda>p. p @ '':action:'' @ str_int (int k)) prefix)
     # action_claims env session prefix (n + 1) (k + 1) later"

text \<open>Fold one claim and read its stored copy back; \<open>next\<close> of an empty search raises.\<close>

definition fold_stored :: "supervisor_env \<Rightarrow> claim \<Rightarrow> supervised \<Rightarrow> (exn + claim) \<times> supervised" where
  "fold_stored env c s = (case rowset_fold (se_merged env (su_next s)) c (su_rows s) of (res, rows) \<Rightarrow>
     let s1 = s\<lparr>su_rows := rows, su_next := su_next s + 1\<rparr> in
     (case res of Inl e \<Rightarrow> (Inl e, s1)
      | Inr m \<Rightarrow> (case find (\<lambda>x. claim_id x = claim_id c) (s_log (rs_store rows)) of
            None \<Rightarrow> (Inl (Foreign True ''StopIteration'' []), s1)
          | Some x \<Rightarrow> (Inr x, s1))))"

fun emit_batch :: "supervisor_env \<Rightarrow> string \<Rightarrow> claim list \<Rightarrow> supervised \<Rightarrow> (exn + claim list) \<times> supervised" where
  "emit_batch env session [] = sret []"
| "emit_batch env session (c # cs) =
     sbind (fold_stored env c) (\<lambda>x.
     sbind (if tag x \<in> {TAG_SUPERVISOR_TERMINATE, TAG_SUPERVISOR_ESCALATE}
        then sbind (slift (build_goal_blocked session x (seq x))) (\<lambda>gb.
          sbind (fold_stored env gb) (\<lambda>y. sret [x, y]))
        else sret [x]) (\<lambda>these.
     sbind (emit_batch env session cs) (\<lambda>later. sret (these @ later))))"

definition tick :: "supervisor_env \<Rightarrow> 'v supervisor \<Rightarrow> 'v \<Rightarrow> belief_context \<Rightarrow> string option \<Rightarrow> supervised
    \<Rightarrow> (exn + claim list) \<times> supervised" where
  "tick env sv view ctx prefix s =
     (case evaluate_rules (tally_prior_retries prefix (su_rows s)) view ctx [] (sv_policy sv) of
        Inl e \<Rightarrow> (Inl e, s)
      | Inr todo \<Rightarrow> emit_batch env (sv_session sv) (action_claims env (sv_session sv) prefix (su_next s) 0 todo)
          (s\<lparr>su_next := su_next s + length todo\<rparr>))"

section \<open>The projection\<close>

record retry_recommendation =
  rc_target :: string
  rc_key :: string
  rc_attempt :: int
  rc_max_attempts :: int
  rc_reason :: string

record supervisor_projection =
  sp_retries :: "retry_recommendation list"
  sp_terminated :: bool
  sp_terminate_reason :: "string option"
  sp_escalations :: "fieldmap list"

text \<open>\<open>str\<close> and \<open>int\<close> of a recorded field; other values are left to the parameters.\<close>

record field_readers =
  fr_str :: "pyval \<Rightarrow> string"
  fr_int :: "pyval \<Rightarrow> exn + int"

definition read_str :: "field_readers \<Rightarrow> claim \<Rightarrow> string \<Rightarrow> string" where
  "read_str rd c k = (case dict_get (VStr []) (cfields c) k of VStr s \<Rightarrow> s | v \<Rightarrow> fr_str rd v)"

definition read_int :: "field_readers \<Rightarrow> claim \<Rightarrow> string \<Rightarrow> exn + int" where
  "read_int rd c k = (case dict_get (VInt 0) (cfields c) k of VInt i \<Rightarrow> Inr i | v \<Rightarrow> fr_int rd v)"

definition retry_recommendation_of :: "field_readers \<Rightarrow> claim \<Rightarrow> exn + retry_recommendation" where
  "retry_recommendation_of rd c =
     ebind (read_int rd c F_SUP_ATTEMPT_INDEX) (\<lambda>i. ebind (read_int rd c F_SUP_MAX_ATTEMPTS) (\<lambda>m.
     Inr \<lparr>rc_target = read_str rd c F_SUP_TARGET_EFFECT_ID, rc_key = read_str rd c F_SUP_IDEMPOTENCY_KEY,
       rc_attempt = i, rc_max_attempts = m, rc_reason = read_str rd c F_SUP_REASON\<rparr>))"

definition project_supervisor :: "field_readers \<Rightarrow> store \<Rightarrow> exn + supervisor_projection" where
  "project_supervisor rd st =
     ebind (emap (retry_recommendation_of rd) (store_filter (Some TAG_SUPERVISOR_RETRY) None None st)) (\<lambda>rcs.
     let ends = store_filter (Some TAG_SUPERVISOR_TERMINATE) None None st in
     Inr \<lparr>sp_retries = rcs, sp_terminated = (ends \<noteq> []),
       sp_terminate_reason = (if ends = [] then None else Some (read_str rd (last ends) F_SUP_REASON)),
       sp_escalations = map cfields (store_filter (Some TAG_SUPERVISOR_ESCALATE) None None st)\<rparr>)"

section \<open>The lint\<close>

text \<open>The messages stand as the condition that failed.\<close>

datatype lint_message = NoSuccessor | NotGoalBlocked | WrongSourceSeq | WrongTactic

record lint_violation =
  lv_rule :: string
  lv_message :: lint_message
  lv_seq :: int
  lv_related :: "int list"

definition trigger_tags :: "string list" where
  "trigger_tags = [TAG_SUPERVISOR_TERMINATE, TAG_SUPERVISOR_ESCALATE]"

definition expected_tactic :: "string \<Rightarrow> exn + string" where
  "expected_tactic t = (if t = TAG_SUPERVISOR_TERMINATE then Inr ''terminate''
     else if t = TAG_SUPERVISOR_ESCALATE then Inr ''escalate_human'' else Inl AssertionError)"

definition seq_index :: "claim list \<Rightarrow> (int \<times> claim) list" where
  "seq_index lg = foldl (\<lambda>d c. dict_put (seq c) c d) [] lg"

definition pairing_violation :: "lint_message \<Rightarrow> claim \<Rightarrow> int list \<Rightarrow> lint_violation" where
  "pairing_violation m c related = \<lparr>lv_rule = ''goal_blocked_pairing'', lv_message = m, lv_seq = seq c,
     lv_related = related\<rparr>"

definition lint_trigger :: "(int \<times> claim) list \<Rightarrow> claim \<Rightarrow> exn + lint_violation list" where
  "lint_trigger by_seq c =
     (if tag c \<notin> set trigger_tags then Inr []
      else (case map_of by_seq (seq c + 1) of
          None \<Rightarrow> Inr [pairing_violation NoSuccessor c []]
        | Some nxt \<Rightarrow>
            if tag nxt \<noteq> TAG_GOAL_BLOCKED then Inr [pairing_violation NotGoalBlocked c [seq nxt]]
            else ebind (expected_tactic (tag c)) (\<lambda>expected.
              Inr ((if py_eq (dict_get VNone (cfields nxt) F_GB_SOURCE_CLAIM_SEQ) (VInt (seq c)) then []
                    else [pairing_violation WrongSourceSeq c [seq nxt]])
                 @ (if py_eq (dict_get VNone (cfields nxt) F_GB_SOURCE_TACTIC) (VStr expected) then []
                    else [pairing_violation WrongTactic c [seq nxt]])))))"

definition lint_goal_blocked_pairing :: "store \<Rightarrow> exn + lint_violation list" where
  "lint_goal_blocked_pairing st =
     ebind (emap (lint_trigger (seq_index (s_log st))) (s_log st)) (\<lambda>vss. Inr (concat vss))"

text \<open>\<open>lint_store\<close>: one rule, so the sort is by sequence number.\<close>

definition lint_store :: "store \<Rightarrow> exn + lint_violation list" where
  "lint_store st = ebind (lint_goal_blocked_pairing st) (\<lambda>vs. Inr (sort_key lv_seq vs))"

end
