(* ===== verification/SupervisorProps.thy ===== *)
theory SupervisorProps
  imports Supervisor
begin

text \<open>
  What the supervisor guarantees (\<open>lipas/supervisor.py\<close>): its tape passes the lint of
  \<open>lipas/lint.py\<close>, the attempts of each target are numbered without gaps up to the cap, and
  a repeated tick changes nothing.
\<close>

section \<open>The tape\<close>

abbreviation su_log :: "supervised \<Rightarrow> claim list" where
  "su_log s \<equiv> s_log (rs_store (su_rows s))"

text \<open>Every claim of the tape carries its position.\<close>

definition numbered :: "claim list \<Rightarrow> bool" where
  "numbered lg \<longleftrightarrow> map seq lg = map int [0..<length lg]"

definition tape_ok :: "supervised \<Rightarrow> bool" where
  "tape_ok s \<longleftrightarrow> store_inv (rs_store (su_rows s)) \<and> numbered (su_log s)"

lemma numbered_snoc: "numbered lg \<Longrightarrow> seq c = int (length lg) \<Longrightarrow> numbered (lg @ [c])"
  by (simp add: numbered_def)

lemma numbered_nth: "numbered lg \<Longrightarrow> i < length lg \<Longrightarrow> seq (lg ! i) = int i"
  by (metis add_0 length_map nth_map nth_upt numbered_def)

lemma rowset_fold_log:
  assumes "store_inv (rs_store rows)"
  shows "(s_log (rs_store (snd (rowset_fold cid c rows))) = s_log (rs_store rows))
    \<or> (claim_id c \<notin> claim_id ` set (s_log (rs_store rows))
       \<and> s_log (rs_store (snd (rowset_fold cid c rows))) = s_log (rs_store rows) @ [sequenced (rs_store rows) c])"
proof (cases rule: rowset_fold_cases [of cid c rows])
  case admitted
  show ?thesis
  proof (cases "claim_id c \<in> claim_id ` set (s_log (rs_store rows))")
    case True
    then show ?thesis using tape.fold_known [OF assms] by (simp add: admitted)
  next
    case False
    then show ?thesis using store_fold_new(1) [OF by_id_None [OF assms False]] by (simp add: admitted)
  qed
qed simp

lemma rowset_fold_tape_ok:
  assumes "tape_ok s" and "seq c < 0"
  shows "tape_ok (s\<lparr>su_rows := snd (rowset_fold cid c (su_rows s)), su_next := n\<rparr>)"
proof -
  have inv: "store_inv (rs_store (su_rows s))" and num: "numbered (su_log s)" using assms(1) by (simp_all add: tape_ok_def)
  have "s_seq (rs_store (su_rows s)) = int (length (su_log s))" using inv by (simp add: store_inv_def)
  then have "seq (sequenced (rs_store (su_rows s)) c) = int (length (su_log s))" using assms(2) by (simp add: sequenced_def)
  with rowset_fold_log [OF inv, of cid c] numbered_snoc [OF num] num rowset_fold_store_inv [OF inv, of cid c]
  show ?thesis by (auto simp: tape_ok_def)
qed

lemma fold_stored_ok: "tape_ok s \<Longrightarrow> seq c < 0 \<Longrightarrow> tape_ok (snd (fold_stored env c s))"
  using rowset_fold_tape_ok [of s c "su_next s + 1" "se_merged env (su_next s)"]
  by (auto simp: fold_stored_def Let_def split: prod.split sum.split option.split)

lemma fold_stored_cases:
  assumes "tape_ok s" and "seq c < 0" and "fold_stored env c s = (Inr x, s')"
  obtains (known) "su_log s' = su_log s" "x \<in> set (su_log s)" "same_claim_payload x c" "claim_id x = claim_id c"
  | (new) "su_log s' = su_log s @ [x]" "x = c\<lparr>seq := int (length (su_log s))\<rparr>" "claim_id c \<notin> claim_id ` set (su_log s)"
proof -
  let ?st = "rs_store (su_rows s)"
  have inv: "store_inv ?st" using assms(1) by (simp add: tape_ok_def)
  obtain rows m where f: "rowset_fold (se_merged env (su_next s)) c (su_rows s) = (Inr m, rows)"
    and x: "find (\<lambda>x. claim_id x = claim_id c) (s_log (rs_store rows)) = Some x"
    and s': "s' = s\<lparr>su_rows := rows, su_next := su_next s + 1\<rparr>"
    using assms(3) by (auto simp: fold_stored_def Let_def split: prod.splits sum.splits option.splits)
  then have admitted: "fst (store_fold (se_merged env (su_next s)) c ?st) = Inr m"
    "rs_store rows = snd (store_fold (se_merged env (su_next s)) c ?st)"
    by (cases rule: rowset_fold_cases [of "se_merged env (su_next s)" c "su_rows s"]; auto)+
  show thesis
  proof (cases "claim_id c \<in> claim_id ` set (s_log ?st)")
    case True
    then obtain y where y: "y \<in> set (s_log ?st)" "claim_id y = claim_id c" by auto
    have same: "s_log (rs_store rows) = s_log ?st" using tape.fold_known [OF inv True] admitted(2) by simp
    have "same_claim_payload y c"
      using tape.fold_conflict [OF inv y(1) y(2)] admitted(1) by fastforce
    moreover have "y = x"
      using x y same inv by_id_Some [OF inv y(1)] by_id_find [OF inv] by fastforce
    ultimately show thesis using y same by (intro known) (simp_all add: s')
  next
    case False
    have num: "s_seq ?st = int (length (s_log ?st))" using inv by (simp add: store_inv_def)
    have lg: "s_log (rs_store rows) = s_log ?st @ [sequenced ?st c]"
      using store_fold_new(1) [OF by_id_None [OF inv False]] admitted(2) by simp
    have "claim_id y \<noteq> claim_id c" if "y \<in> set (s_log ?st)" for y using False that by (metis imageI)
    then have "find (\<lambda>x. claim_id x = claim_id c) (s_log ?st) = None" by (simp add: find_None_iff)
    then have "x = sequenced ?st c" using x by (simp add: lg find_append)
    then show thesis using lg False num assms(2) by (intro new) (simp_all add: s' sequenced_def)
  qed
qed

section \<open>Pairing\<close>

definition paired :: "claim \<Rightarrow> claim \<Rightarrow> bool" where
  "paired c g \<longleftrightarrow> tag g = TAG_GOAL_BLOCKED \<and> py_eq (dict_get VNone (cfields g) F_GB_SOURCE_CLAIM_SEQ) (VInt (seq c))
     \<and> (case expected_tactic (tag c) of Inr t \<Rightarrow> py_eq (dict_get VNone (cfields g) F_GB_SOURCE_TACTIC) (VStr t) | Inl e \<Rightarrow> False)"

definition paired_log :: "claim list \<Rightarrow> bool" where
  "paired_log lg \<longleftrightarrow> (\<forall>i < length lg. tag (lg ! i) \<in> set trigger_tags \<longrightarrow>
     Suc i < length lg \<and> paired (lg ! i) (lg ! Suc i))"

lemma seq_index_snoc: "seq_index (lg @ [c]) = dict_put (seq c) c (seq_index lg)"
  by (simp add: seq_index_def)

lemma seq_index_lookup:
  "numbered lg \<Longrightarrow> map_of (seq_index lg) n = (if 0 \<le> n \<and> n < int (length lg) then Some (lg ! nat n) else None)"
proof (induction lg rule: rev_induct)
  case Nil
  show ?case by (simp add: seq_index_def)
next
  case (snoc c lg)
  then have "numbered lg" "seq c = int (length lg)" by (simp_all add: numbered_def)
  with snoc.IH show ?case by (auto simp: seq_index_snoc nth_append)
qed

lemma expected_tactic_ok: "t \<in> set trigger_tags \<Longrightarrow> \<exists>v. expected_tactic t = Inr v"
  by (auto simp: trigger_tags_def expected_tactic_def)

lemma lint_trigger_clean:
  assumes "numbered lg" and "i < length lg"
  shows "lint_trigger (seq_index lg) (lg ! i) = Inr [] \<longleftrightarrow>
    (tag (lg ! i) \<in> set trigger_tags \<longrightarrow> Suc i < length lg \<and> paired (lg ! i) (lg ! Suc i))"
proof (cases "tag (lg ! i) \<in> set trigger_tags")
  case True
  then obtain v where "expected_tactic (tag (lg ! i)) = Inr v" using expected_tactic_ok by blast
  then show ?thesis
    using True assms by (auto simp: lint_trigger_def seq_index_lookup numbered_nth nat_add_distrib paired_def)
qed (simp add: lint_trigger_def)

lemma lint_trigger_total: "\<exists>vs. lint_trigger idx c = Inr vs"
  using expected_tactic_ok [of "tag c"] by (auto simp: lint_trigger_def split: option.split)

lemma emap_concat_Nil:
  assumes "\<And>x. x \<in> set xs \<Longrightarrow> \<exists>vs. f x = Inr vs"
  shows "ebind (emap f xs) (\<lambda>vss. Inr (concat vss)) = Inr [] \<longleftrightarrow> (\<forall>x \<in> set xs. f x = Inr [])"
proof -
  obtain g where g: "\<And>x. x \<in> set xs \<Longrightarrow> f x = Inr (g x)" using assms by metis
  then have "emap f xs = Inr (map g xs)" by (rule emap_cong_Inr)
  with g show ?thesis by simp
qed

lemma lint_clean:
  assumes "numbered (s_log st)"
  shows "lint_store st = Inr [] \<longleftrightarrow> paired_log (s_log st)"
proof -
  have "lint_store st = Inr [] \<longleftrightarrow> lint_goal_blocked_pairing st = Inr []"
    by (cases "lint_goal_blocked_pairing st") (auto simp: lint_store_def dest: arg_cong [of _ _ length])
  also have "\<dots> \<longleftrightarrow> (\<forall>c \<in> set (s_log st). lint_trigger (seq_index (s_log st)) c = Inr [])"
    unfolding lint_goal_blocked_pairing_def by (rule emap_concat_Nil) (rule lint_trigger_total)
  also have "\<dots> \<longleftrightarrow> (\<forall>i < length (s_log st). lint_trigger (seq_index (s_log st)) (s_log st ! i) = Inr [])"
    by (simp add: all_set_conv_all_nth)
  finally show ?thesis using lint_trigger_clean [OF assms] by (auto simp: paired_log_def)
qed

lemma paired_log_other: "paired_log lg \<Longrightarrow> tag c \<notin> set trigger_tags \<Longrightarrow> paired_log (lg @ [c])"
  by (auto simp: paired_log_def nth_append less_Suc_eq)

lemma paired_log_pair:
  "paired_log lg \<Longrightarrow> paired c g \<Longrightarrow> tag g \<notin> set trigger_tags \<Longrightarrow> paired_log (lg @ [c, g])"
  by (auto simp: paired_log_def nth_append less_Suc_eq nth_Cons')

section \<open>Emission\<close>

text \<open>A claim built by the supervisor: unsequenced, and not a \<open>goal_blocked\<close> claim.\<close>

definition own_claim :: "claim \<Rightarrow> bool" where
  "own_claim c \<longleftrightarrow> seq c = - 1 \<and> tag c \<in> {TAG_SUPERVISOR_RETRY, TAG_SUPERVISOR_TERMINATE, TAG_SUPERVISOR_ESCALATE}"

lemma own_action: "own_claim (action_to_claim digest session fresh a name attempt cid)"
  by (cases a) (simp_all add: own_claim_def action_to_claim_def Let_def)

lemma own_actions: "c \<in> set (action_claims env session prefix n k todo) \<Longrightarrow> own_claim c"
  by (induction env session prefix n k todo rule: action_claims.induct) (auto simp: own_action)

lemma goal_blocked_pairs:
  "build_goal_blocked session x (seq x) = Inr g \<Longrightarrow>
    seq g = - 1 \<and> tag g = TAG_GOAL_BLOCKED \<and> paired x g \<and> claim_id g = claim_id x @ '':goal-blocked''"
  by (auto simp: build_goal_blocked_def paired_def expected_tactic_def dict_get_def supervisor_fields supervisor_tags
      split: if_splits pyval.splits)

text \<open>The \<open>goal_blocked\<close> claims of the tape were built for earlier claims.\<close>

definition gb_fields :: "claim \<Rightarrow> int \<Rightarrow> bool" where
  "gb_fields g n \<longleftrightarrow> tag g = TAG_GOAL_BLOCKED \<and> map_of (cfields g) F_GB_SOURCE_CLAIM_SEQ = Some (VInt n)"

definition gb_log :: "claim list \<Rightarrow> bool" where
  "gb_log lg \<longleftrightarrow> (\<forall>g \<in> set lg. tag g = TAG_GOAL_BLOCKED \<longrightarrow> (\<exists>n. gb_fields g n \<and> n < seq g))"

lemma build_gb_fields: "build_goal_blocked session x n = Inr g \<Longrightarrow> gb_fields g n"
  by (auto simp: build_goal_blocked_def gb_fields_def supervisor_fields split: if_splits pyval.splits)

lemma py_sub_get: "py_sub d e \<Longrightarrow> map_of d k = Some v \<Longrightarrow> \<exists>w. map_of e k = Some w \<and> py_eq v w"
  by (induction d) (auto split: if_splits option.splits)

lemma payload_source:
  assumes "same_claim_payload y g" and "gb_fields y n" and "gb_fields g m"
  shows "n = m"
proof -
  have "py_eq (vobj (cfields y)) (vobj (cfields g))" using assms(1) by (simp add: same_claim_payload_def fields_eq_def)
  then have "py_sub (map (\<lambda>(k, v). (KStr k, v)) (cfields y)) (map (\<lambda>(k, v). (KStr k, v)) (cfields g))"
    by (simp add: vobj_def)
  moreover have key: "map_of (map (\<lambda>(k, v). (KStr k, v)) fs) (KStr k) = map_of fs k" for fs :: fieldmap and k
    by (induction fs) auto
  ultimately have "py_eq (VInt n) (VInt m)"
    using py_sub_get [of _ _ "KStr F_GB_SOURCE_CLAIM_SEQ" "VInt n"] assms(2,3) by (fastforce simp: gb_fields_def key)
  then show ?thesis by simp
qed

lemma gb_log_snoc: "gb_log lg \<Longrightarrow> (tag c = TAG_GOAL_BLOCKED \<Longrightarrow> \<exists>n. gb_fields c n \<and> n < seq c) \<Longrightarrow> gb_log (lg @ [c])"
  by (auto simp: gb_log_def)

lemma gb_no_trigger: "TAG_GOAL_BLOCKED \<notin> set trigger_tags" "TAG_SUPERVISOR_RETRY \<notin> set trigger_tags"
  by (simp_all add: trigger_tags_def supervisor_tags)

text \<open>One round of the loop: the stored claim, and its pair if it needs one.\<close>

definition emit_one :: "supervisor_env \<Rightarrow> string \<Rightarrow> claim \<Rightarrow> supervised \<Rightarrow> (exn + claim list) \<times> supervised" where
  "emit_one env session c = sbind (fold_stored env c) (\<lambda>x.
     if tag x \<in> {TAG_SUPERVISOR_TERMINATE, TAG_SUPERVISOR_ESCALATE}
     then sbind (slift (build_goal_blocked session x (seq x))) (\<lambda>gb. sbind (fold_stored env gb) (\<lambda>y. sret [x, y]))
     else sret [x])"

lemma sbind_assoc: "sbind (sbind m f) g = sbind m (\<lambda>x. sbind (f x) g)"
  by (auto simp: sbind_def fun_eq_iff split: prod.split sum.split)

lemma emit_batch_one:
  "emit_batch env session (c # cs) = sbind (emit_one env session c) (\<lambda>these.
     sbind (emit_batch env session cs) (\<lambda>later. sret (these @ later)))"
  by (simp add: emit_one_def sbind_assoc)

definition sup_tape :: "supervised \<Rightarrow> bool" where
  "sup_tape s \<longleftrightarrow> tape_ok s \<and> paired_log (su_log s) \<and> gb_log (su_log s)"

lemma gb_fold_keeps:
  assumes tape: "tape_ok s" "gb_log (su_log s)" and x: "x \<in> set (su_log s)"
    and gb: "build_goal_blocked session x (seq x) = Inr g" "fold_stored env g s = (Inr y, s')"
  shows "tape_ok s' \<and> gb_log (su_log s') \<and> (\<exists>t. su_log s' = su_log s @ t \<and> (t = [] \<or> (t = [y] \<and> paired x y
      \<and> tag y = TAG_GOAL_BLOCKED))) \<and> (su_log s' = su_log s \<longrightarrow> y \<in> set (su_log s) \<and> seq x < seq y)
      \<and> claim_id y = claim_id x @ '':goal-blocked''"
proof -
  note g = goal_blocked_pairs [OF gb(1)] build_gb_fields [OF gb(1)]
  have neg: "seq g < 0" using g(1) by simp
  have ok': "tape_ok s'" using fold_stored_ok [OF tape(1) neg, of env] gb(2) by simp
  from tape(1) neg gb(2) show ?thesis
  proof (cases rule: fold_stored_cases)
    case known
    have "tag y = TAG_GOAL_BLOCKED" using known(3) g(1) by (simp add: same_claim_payload_def)
    with tape(2) known(2) obtain n where "gb_fields y n" "n < seq y" by (auto simp: gb_log_def)
    with payload_source [OF known(3) this(1) g(2)] have "seq x < seq y" by simp
    then show ?thesis using ok' tape(2) known g(1) by simp
  next
    case new
    obtain i where "i < length (su_log s)" "su_log s ! i = x" using x by (auto simp: in_set_conv_nth)
    then have "seq x < int (length (su_log s))" using tape(1) by (auto simp: tape_ok_def numbered_nth)
    moreover have "gb_fields y (seq x)" using g(2) new(2) by (simp add: gb_fields_def)
    moreover have "paired x y" using g(1) new(2) by (auto simp: paired_def split: sum.splits)
    ultimately show ?thesis using ok' tape(2) new g(1) by (auto intro!: gb_log_snoc)
  qed
qed

lemma emit_one_keeps:
  assumes sup: "sup_tape s" and own: "own_claim c" and run: "emit_one env session c s = (Inr these, s')"
  shows "sup_tape s'"
proof -
  have ok: "tape_ok s" "paired_log (su_log s)" "gb_log (su_log s)" using sup by (simp_all add: sup_tape_def)
  have neg: "seq c < 0" using own by (simp add: own_claim_def)
  obtain x s1 where x: "fold_stored env c s = (Inr x, s1)"
    and rest: "(if tag x \<in> {TAG_SUPERVISOR_TERMINATE, TAG_SUPERVISOR_ESCALATE}
      then sbind (slift (build_goal_blocked session x (seq x))) (\<lambda>gb. sbind (fold_stored env gb) (\<lambda>y. sret [x, y]))
      else sret [x]) s1 = (Inr these, s')"
    using run by (auto simp: emit_one_def sbind_Inr_iff [of "fold_stored _ _"])
  have ok1: "tape_ok s1" using fold_stored_ok [OF ok(1) neg, of env] x by simp
  have tags: "tag x = tag c"
    by (cases rule: fold_stored_cases [OF ok(1) neg x]) (auto simp: same_claim_payload_def)
  have no_gb: "tag x \<noteq> TAG_GOAL_BLOCKED" using own tags by (auto simp: own_claim_def supervisor_tags)
  have gb1: "gb_log (su_log s1)" and in1: "x \<in> set (su_log s1)"
    by (cases rule: fold_stored_cases [OF ok(1) neg x]; use ok(3) no_gb in \<open>simp add: gb_log_def\<close>)+
  show ?thesis
  proof (cases "tag x \<in> set trigger_tags")
    case False
    with rest have "s' = s1" by (simp add: trigger_tags_def sret_Inr_iff)
    moreover have "paired_log (su_log s1)"
      by (cases rule: fold_stored_cases [OF ok(1) neg x]) (use ok(2) False in \<open>simp_all add: paired_log_other\<close>)
    ultimately show ?thesis using ok1 gb1 by (simp add: sup_tape_def)
  next
    case True
    with rest obtain g y where g: "build_goal_blocked session x (seq x) = Inr g" "fold_stored env g s1 = (Inr y, s')"
      by (auto simp: trigger_tags_def raise_iffs)
    note keep = gb_fold_keeps [OF ok1 gb1 in1 g]
    from ok(1) neg x have "paired_log (su_log s')"
    proof (cases rule: fold_stored_cases)
      case known
      then show ?thesis using keep ok(2) gb_no_trigger(1) paired_log_other [of "su_log s1" y] by auto
    next
      case new
      have "y \<notin> set (su_log s1) \<or> \<not> seq x < seq y"
      proof (rule ccontr)
        assume "\<not> ?thesis"
        then obtain i where "i < length (su_log s1)" "su_log s1 ! i = y" "seq x < seq y" by (auto simp: in_set_conv_nth)
        then show False using ok1 new by (auto simp: tape_ok_def numbered_nth)
      qed
      then have "su_log s' = su_log s @ [x, y]" "paired x y" "tag y = TAG_GOAL_BLOCKED" using keep new(1) by auto
      then show ?thesis using paired_log_pair [OF ok(2)] gb_no_trigger(1) by simp
    qed
    then show ?thesis using keep by (simp add: sup_tape_def)
  qed
qed

lemma emit_batch_keeps:
  "sup_tape s \<Longrightarrow> \<forall>c \<in> set cs. own_claim c \<Longrightarrow> emit_batch env session cs s = (Inr out, s') \<Longrightarrow> sup_tape s'"
proof (induction cs arbitrary: s out)
  case Nil
  then show ?case by (simp add: sret_Inr_iff)
next
  case (Cons c cs)
  then obtain these s1 later where "emit_one env session c s = (Inr these, s1)" "emit_batch env session cs s1 = (Inr later, s')"
    unfolding emit_batch_one by (auto simp: raise_iffs)
  with Cons.IH [OF emit_one_keeps [OF Cons.prems(1) _ this(1)]] Cons.prems(2) show ?case by simp
qed

lemma tick_keeps:
  assumes "sup_tape s" and "tick env sv view ctx prefix s = (Inr out, s')"
  shows "sup_tape s'"
proof -
  obtain todo where "emit_batch env (sv_session sv) (action_claims env (sv_session sv) prefix (su_next s) 0 todo)
      (s\<lparr>su_next := su_next s + length todo\<rparr>) = (Inr out, s')"
    using assms(2) by (auto simp: tick_def split: sum.splits)
  from emit_batch_keeps [OF _ _ this] assms(1) own_actions show ?thesis by (auto simp: sup_tape_def tape_ok_def)
qed

section \<open>Sessions\<close>

text \<open>
  A tape that a supervisor shares: it ticks, and others fold unsequenced claims that are not
  the supervisor's own.
\<close>

inductive attended :: "supervisor_env \<Rightarrow> 'v supervisor \<Rightarrow> supervised \<Rightarrow> supervised \<Rightarrow> bool"
  for env sv s where
  start: "attended env sv s s"
| ticked: "attended env sv s t \<Longrightarrow> tick env sv view ctx prefix t = (Inr out, u) \<Longrightarrow> attended env sv s u"
| folded: "attended env sv s t \<Longrightarrow> seq c < 0 \<Longrightarrow> tag c \<notin> set trigger_tags \<Longrightarrow> tag c \<noteq> TAG_GOAL_BLOCKED \<Longrightarrow>
    attended env sv s (t\<lparr>su_rows := snd (rowset_fold cid c (su_rows t))\<rparr>)"

lemma other_fold_keeps:
  assumes "sup_tape t" and "seq c < 0" "tag c \<notin> set trigger_tags" "tag c \<noteq> TAG_GOAL_BLOCKED"
  shows "sup_tape (t\<lparr>su_rows := snd (rowset_fold cid c (su_rows t))\<rparr>)"
proof -
  have inv: "store_inv (rs_store (su_rows t))" using assms(1) by (simp add: sup_tape_def tape_ok_def)
  have "tape_ok (t\<lparr>su_rows := snd (rowset_fold cid c (su_rows t)), su_next := su_next t\<rparr>)"
    using assms by (intro rowset_fold_tape_ok) (simp_all add: sup_tape_def)
  then show ?thesis
    using rowset_fold_log [OF inv, of cid c] assms by (auto simp: sup_tape_def paired_log_other intro!: gb_log_snoc)
qed

lemma attended_keeps: "attended env sv s t \<Longrightarrow> sup_tape s \<Longrightarrow> sup_tape t"
  by (induction rule: attended.induct) (auto intro: tick_keeps other_fold_keeps)

text \<open>An empty tape with its rows.\<close>

definition empty_tape :: "row list \<Rightarrow> supervised" where
  "empty_tape rows = \<lparr>su_rows = rowset_init (store_init make_default_registry \<lparr>fail_counts = [], caution_threshold = 3\<rparr>) rows,
     su_next = 0\<rparr>"

lemma sup_tape_empty: "sup_tape (empty_tape rows)"
proof -
  let ?s = "store_init make_default_registry \<lparr>fail_counts = [], caution_threshold = 3\<rparr>"
  have "s_log (rs_store (rowset_init ?s rows)) = []" by (simp add: store_init_def)
  moreover have "store_inv (rs_store (rowset_init ?s rows))"
    using store_inv_init [of make_default_registry "\<lparr>fail_counts = [], caution_threshold = 3\<rparr>"] by (simp add: store_inv_def)
  ultimately show ?thesis by (simp add: sup_tape_def tape_ok_def numbered_def paired_log_def gb_log_def empty_tape_def)
qed

text \<open>
  C19: However ticks that return and folds of other claims interleave, with whatever claim ids,
  redelivered prefixes and rules, the tape passes the lint: every termination and escalation is
  followed at the next sequence number by its \<open>goal_blocked\<close> claim with the tactic that matches.
\<close>

theorem supervised_tape_is_paired:
  assumes "attended env sv (empty_tape rows) t"
  shows "lint_store (rs_store (su_rows t)) = Inr []"
  using attended_keeps [OF assms sup_tape_empty] by (simp add: sup_tape_def tape_ok_def lint_clean)

section \<open>Attempt numbers\<close>

definition retries :: "string \<Rightarrow> claim list \<Rightarrow> claim list" where
  "retries t lg = filter (\<lambda>c. tag c = TAG_SUPERVISOR_RETRY
     \<and> map_of (cfields c) F_SUP_TARGET_EFFECT_ID = Some (VStr t)) lg"

definition attempt_of :: "claim \<Rightarrow> pyval option" where
  "attempt_of c = map_of (cfields c) F_SUP_ATTEMPT_INDEX"

definition gapless :: "claim list \<Rightarrow> bool" where
  "gapless lg \<longleftrightarrow> (\<forall>t. map attempt_of (retries t lg) = map (\<lambda>i. Some (VInt (int i))) [1..<Suc (length (retries t lg))])"

definition capped :: "claim list \<Rightarrow> bool" where
  "capped lg \<longleftrightarrow> (\<forall>t. \<forall>c \<in> set (retries t lg). \<exists>i m. attempt_of c = Some (VInt i)
     \<and> map_of (cfields c) F_SUP_MAX_ATTEMPTS = Some (VInt m) \<and> i \<le> m)"

lemma retries_append [simp]: "retries t (lg @ lg') = retries t lg @ retries t lg'"
  by (simp add: retries_def)

lemma tally_step_get:
  "dict_get 0 (tally_step skip out c) t = dict_get 0 out t
    + (if counted skip c \<and> map_of (cfields c) F_SUP_TARGET_EFFECT_ID = Some (VStr t) then 1 else 0)"
proof (cases "map_of (cfields c) F_SUP_TARGET_EFFECT_ID")
  case (Some v)
  then show ?thesis by (cases v) (simp_all add: tally_step_def dict_get_def)
qed (simp add: tally_step_def)

lemma tally_get:
  "dict_get 0 (foldl (tally_step skip) out cs) t = dict_get 0 out t
    + int (length (filter (\<lambda>c. counted skip c \<and> map_of (cfields c) F_SUP_TARGET_EFFECT_ID = Some (VStr t)) cs))"
  by (induction cs arbitrary: out) (simp_all add: tally_step_get)

lemma tally_prior:
  assumes "store_inv (rs_store rows)" and "\<forall>c \<in> set (s_log (rs_store rows)). counted skip c"
  shows "dict_get 0 (tally_prior_retries skip rows) t = int (length (retries t (s_log (rs_store rows))))"
proof -
  have "filter (\<lambda>c. counted skip c \<and> map_of (cfields c) F_SUP_TARGET_EFFECT_ID = Some (VStr t))
      (filter (\<lambda>c. tag c = TAG_SUPERVISOR_RETRY) (s_log (rs_store rows))) = retries t (s_log (rs_store rows))"
    using assms(2) by (auto simp: retries_def intro!: filter_cong)
  then show ?thesis
    unfolding tally_prior_retries_def store_filter_tag [OF assms(1)] tally_get by (simp add: dict_get_def)
qed

text \<open>The retries that phase 1 leaves pending for a target.\<close>

definition pending_retries :: "string \<Rightarrow> pending \<Rightarrow> (int \<times> int) list" where
  "pending_retries t todo = List.map_filter (\<lambda>(a, name, i). case a of RetryAction u m r \<Rightarrow>
     if u = t then Some (i, m) else None | _ \<Rightarrow> None) todo"

lemma pending_simps [simp]:
  "pending_retries t [] = []"
  "pending_retries t ((RetryAction u m r, name, i) # todo) = (if u = t then [(i, m)] else []) @ pending_retries t todo"
  "pending_retries t ((TerminateAction r, name, i) # todo) = pending_retries t todo"
  "pending_retries t ((EscalateAction r p, name, i) # todo) = pending_retries t todo"
  by (simp_all add: pending_retries_def map_filter_simps)

lemma evaluate_numbers:
  "evaluate_rules prior view ctx now rules = Inr todo \<Longrightarrow>
    map fst (pending_retries t todo)
      = map (\<lambda>i. dict_get 0 prior t + dict_get 0 now t + int i) [1..<Suc (length (pending_retries t todo))]
    \<and> (\<forall>(i, m) \<in> set (pending_retries t todo). i \<le> m)"
proof (induction prior view ctx now rules arbitrary: todo rule: evaluate_rules.induct)
  case (1 prior view ctx now)
  then show ?case by simp
next
  case (2 prior view ctx now r rules)
  then obtain ans where ans: "pr_predicate r view ctx = Inr ans" by auto
  show ?case
  proof (cases ans)
    case (Recommend a)
    show ?thesis
    proof (cases a)
      case (RetryAction u m reason)
      let ?already = "dict_get 0 prior u + dict_get 0 now u"
      show ?thesis
      proof (cases "m \<le> ?already")
        case True
        then show ?thesis using 2 ans Recommend RetryAction by simp
      next
        case False
        then obtain later where later: "evaluate_rules prior view ctx (dict_put u (dict_get 0 now u + 1) now) rules = Inr later"
          "todo = (a, pr_name r, ?already + 1) # later"
          using 2 ans Recommend RetryAction by auto
        note IH = 2(3) [OF RetryAction refl False later(1)]
        show ?thesis
        proof (cases "u = t")
          case True
          have todo: "pending_retries t todo = (?already + 1, m) # pending_retries t later"
            using True RetryAction by (simp add: later(2))
          have "[1..<Suc (length (pending_retries t todo))] = 1 # map Suc [1..<Suc (length (pending_retries t later))]"
            by (simp add: todo map_Suc_upt upt_conv_Cons del: upt_Suc)
          then show ?thesis using IH True False
            by (auto simp: todo dict_get_def algebra_simps)
        next
          case other: False
          then have "pending_retries t todo = pending_retries t later"
            using RetryAction by (simp add: later(2))
          then show ?thesis using IH other by (simp add: dict_get_def)
        qed
      qed
    next
      case (TerminateAction reason)
      with 2(6) ans Recommend obtain later where later: "evaluate_rules prior view ctx now rules = Inr later"
        "todo = (a, pr_name r, 0) # later" by auto
      show ?thesis using 2(4) [OF TerminateAction later(1)] TerminateAction by (simp add: later(2) del: upt_Suc)
    next
      case (EscalateAction reason payload)
      with 2(6) ans Recommend obtain later where later: "evaluate_rules prior view ctx now rules = Inr later"
        "todo = (a, pr_name r, 0) # later" by auto
      show ?thesis using 2(5) [OF EscalateAction later(1)] EscalateAction by (simp add: later(2) del: upt_Suc)
    qed
  qed (use 2 ans in simp_all)
qed

text \<open>The claims of a tick carry those numbers.\<close>

lemma action_retries:
  "map attempt_of (retries t (action_claims env session prefix n k todo)) = map (\<lambda>(i, m). Some (VInt i)) (pending_retries t todo)
   \<and> map (\<lambda>c. map_of (cfields c) F_SUP_MAX_ATTEMPTS) (retries t (action_claims env session prefix n k todo))
     = map (\<lambda>(i, m). Some (VInt m)) (pending_retries t todo)"
proof (induction env session prefix n k todo rule: action_claims.induct)
  case (2 env session prefix n k a name attempt later)
  then show ?case
    by (cases a) (auto simp: retries_def action_to_claim_def attempt_of_def supervisor_fields supervisor_tags)
qed (simp add: retries_def)

text \<open>Claims with new ids are appended, each with at most its \<open>goal_blocked\<close> claim after it.\<close>

lemma emit_one_new:
  assumes sup: "sup_tape s" and own: "own_claim c" and new_id: "claim_id c \<notin> claim_id ` set (su_log s)"
    and run: "emit_one env session c s = (Inr these, s')"
  shows "\<exists>x gbs. su_log s' = su_log s @ x # gbs \<and> cfields x = cfields c \<and> tag x = tag c \<and> claim_id x = claim_id c
    \<and> (\<forall>g \<in> set gbs. tag g = TAG_GOAL_BLOCKED \<and> claim_id g = claim_id c @ '':goal-blocked'')"
proof -
  have ok: "tape_ok s" "gb_log (su_log s)" and neg: "seq c < 0"
    using sup own by (simp_all add: sup_tape_def own_claim_def)
  obtain x s1 where x: "fold_stored env c s = (Inr x, s1)"
    and rest: "(if tag x \<in> {TAG_SUPERVISOR_TERMINATE, TAG_SUPERVISOR_ESCALATE}
      then sbind (slift (build_goal_blocked session x (seq x))) (\<lambda>gb. sbind (fold_stored env gb) (\<lambda>y. sret [x, y]))
      else sret [x]) s1 = (Inr these, s')"
    using run by (auto simp: emit_one_def sbind_Inr_iff [of "fold_stored _ _"])
  have ok1: "tape_ok s1" using fold_stored_ok [OF ok(1) neg, of env] x by simp
  from ok(1) neg x have added: "su_log s1 = su_log s @ [x]" "x = c\<lparr>seq := int (length (su_log s))\<rparr>"
    by (cases rule: fold_stored_cases; use new_id in \<open>metis imageI\<close>)+
  have "tag x \<noteq> TAG_GOAL_BLOCKED" using own added(2) by (auto simp: own_claim_def supervisor_tags)
  then have gb1: "gb_log (su_log s1)" using ok(2) by (simp add: added(1) gb_log_def)
  show ?thesis
  proof (cases "tag x \<in> set trigger_tags")
    case False
    with rest have "s' = s1" by (simp add: trigger_tags_def sret_Inr_iff)
    with added show ?thesis by simp
  next
    case True
    with rest obtain g y where g: "build_goal_blocked session x (seq x) = Inr g" "fold_stored env g s1 = (Inr y, s')"
      by (auto simp: trigger_tags_def raise_iffs)
    from gb_fold_keeps [OF ok1 gb1 _ g] added obtain t where "su_log s' = su_log s1 @ t"
      "t = [] \<or> t = [y] \<and> tag y = TAG_GOAL_BLOCKED" "claim_id y = claim_id c @ '':goal-blocked''" by auto
    with added show ?thesis by auto
  qed
qed

lemma emit_batch_new:
  assumes "sup_tape s" and "\<forall>c \<in> set cs. own_claim c" and "distinct (map claim_id cs)"
    and "\<forall>c \<in> set cs. claim_id c \<notin> claim_id ` set (su_log s)"
    and "\<forall>c \<in> set cs. \<forall>d \<in> set cs. claim_id c \<noteq> claim_id d @ '':goal-blocked''"
    and "emit_batch env session cs s = (Inr out, s')"
  shows "\<exists>added. su_log s' = su_log s @ added \<and> map cfields (retries t added) = map cfields (retries t cs)
    \<and> (\<forall>x \<in> set added. \<exists>c \<in> set cs. claim_id x \<in> {claim_id c, claim_id c @ '':goal-blocked''})"
  using assms
proof (induction cs arbitrary: s out)
  case Nil
  then show ?case by (simp add: sret_Inr_iff retries_def)
next
  case (Cons c cs)
  then obtain these s1 later where one: "emit_one env session c s = (Inr these, s1)"
    and rest: "emit_batch env session cs s1 = (Inr later, s')"
    unfolding emit_batch_one by (auto simp: raise_iffs)
  have own: "own_claim c" "claim_id c \<notin> claim_id ` set (su_log s)" using Cons.prems(2,4) by simp_all
  obtain x gbs where x: "su_log s1 = su_log s @ x # gbs" "cfields x = cfields c" "tag x = tag c" "claim_id x = claim_id c"
    and gbs: "\<forall>g \<in> set gbs. tag g = TAG_GOAL_BLOCKED \<and> claim_id g = claim_id c @ '':goal-blocked''"
    using emit_one_new [OF Cons.prems(1) own one] by blast
  have "\<exists>added. su_log s' = su_log s1 @ added \<and> map cfields (retries t added) = map cfields (retries t cs)
    \<and> (\<forall>x \<in> set added. \<exists>c \<in> set cs. claim_id x \<in> {claim_id c, claim_id c @ '':goal-blocked''})"
  proof (rule Cons.IH [OF _ _ _ _ _ rest])
    show "sup_tape s1" by (rule emit_one_keeps [OF Cons.prems(1) own(1) one])
    show "\<forall>d \<in> set cs. claim_id d \<notin> claim_id ` set (su_log s1)"
    proof
      fix d assume d: "d \<in> set cs"
      then have "claim_id d \<noteq> claim_id c" using Cons.prems(3) by (metis distinct.simps(2) image_eqI list.simps(9) set_map)
      moreover have "claim_id d \<noteq> claim_id c @ '':goal-blocked''" using Cons.prems(5) d by simp
      moreover have "claim_id d \<notin> claim_id ` set (su_log s)" using Cons.prems(4) d by simp
      ultimately show "claim_id d \<notin> claim_id ` set (su_log s1)" using gbs by (auto simp: x)
    qed
  qed (use Cons.prems(2,3,5) in simp_all)
  then obtain added where "su_log s' = su_log s1 @ added" "map cfields (retries t added) = map cfields (retries t cs)"
    "\<forall>x \<in> set added. \<exists>c \<in> set cs. claim_id x \<in> {claim_id c, claim_id c @ '':goal-blocked''}" by blast
  moreover have "retries t gbs = []"
    using gbs by (auto simp: retries_def filter_empty_conv supervisor_tags)
  ultimately show ?case
    using x gbs by (intro exI [of _ "x # gbs @ added"]) (auto simp: retries_def)
qed

text \<open>
  The ids of a tick are new: its prefix was not used before, or the default ids, which have
  no colon, do not repeat.
\<close>

definition unused :: "supervisor_env \<Rightarrow> string option \<Rightarrow> supervised \<Rightarrow> bool" where
  "unused env prefix s \<longleftrightarrow> (case prefix of
      Some p \<Rightarrow> \<forall>c \<in> set (su_log s). counted prefix c
    | None \<Rightarrow> inj (se_fresh env) \<and> (\<forall>n. CHR '':'' \<notin> set (se_fresh env n))
        \<and> (\<forall>n \<ge> su_next s. se_fresh env n \<notin> claim_id ` set (su_log s)))"

lemma action_ids:
  "map claim_id (action_claims env session prefix n k todo) = (case prefix of
      Some p \<Rightarrow> map (\<lambda>j. p @ '':action:'' @ str_int (int j)) [k..<k + length todo]
    | None \<Rightarrow> map (se_fresh env) [n..<n + length todo])"
proof (induction env session prefix n k todo rule: action_claims.induct)
  case (2 env session prefix n k a name attempt later)
  then show ?case
    by (auto simp: action_to_claim_def Let_def upt_conv_Cons simp del: upt_Suc split: option.split)
qed (simp split: option.split)

lemma str_int_no_colon: "CHR '':'' \<notin> set (str_int (int j))"
  by (simp add: str_int_def digits_no_colon)

lemma str_int_inj: "str_int (int j) = str_int (int k) \<longleftrightarrow> j = k"
  using digits_inj [of j k] by (auto simp: str_int_def)

lemma action_ids_new:
  assumes "unused env prefix s" and cs: "cs = action_claims env session prefix (su_next s) 0 todo"
  shows "distinct (map claim_id cs)" and "\<forall>c \<in> set cs. claim_id c \<notin> claim_id ` set (su_log s)"
    and "\<forall>c \<in> set cs. \<forall>d \<in> set cs. claim_id c \<noteq> claim_id d @ '':goal-blocked''"
proof -
  note ids = action_ids [of env session prefix "su_next s" 0 todo, folded cs]
  have set_ids: "claim_id c \<in> set (map claim_id cs)" if "c \<in> set cs" for c using that by simp
  show "distinct (map claim_id cs)"
    using assms(1) unfolding ids
    by (auto simp: unused_def distinct_map inj_on_def str_int_inj split: option.splits)
  show "\<forall>c \<in> set cs. claim_id c \<notin> claim_id ` set (su_log s)"
  proof (intro ballI notI)
    fix c assume c: "c \<in> set cs" "claim_id c \<in> claim_id ` set (su_log s)"
    show False
    proof (cases prefix)
      case None
      with set_ids [OF c(1)] obtain m where "m \<ge> su_next s" "claim_id c = se_fresh env m" unfolding ids by auto
      with c(2) None assms(1) show False by (simp add: unused_def)
    next
      case (Some p)
      with set_ids [OF c(1)] obtain j where "claim_id c = p @ '':action:'' @ str_int (int j)" unfolding ids by auto
      then have "take (length p + 1) (claim_id c) = p @ '':''" by simp
      moreover from c(2) obtain x where "x \<in> set (su_log s)" "claim_id x = claim_id c" by (metis imageE)
      ultimately show False using assms(1) Some by (auto simp: unused_def counted_def)
    qed
  qed
  show "\<forall>c \<in> set cs. \<forall>d \<in> set cs. claim_id c \<noteq> claim_id d @ '':goal-blocked''"
  proof (intro ballI notI)
    fix c d assume c: "c \<in> set cs" "d \<in> set cs" "claim_id c = claim_id d @ '':goal-blocked''"
    show False
    proof (cases prefix)
      case None
      with set_ids [OF c(1)] assms(1) have "CHR '':'' \<notin> set (claim_id c)" unfolding ids by (auto simp: unused_def)
      with c(3) show False by simp
    next
      case (Some p)
      with set_ids [OF c(1)] set_ids [OF c(2)] obtain i j where
        "claim_id c = p @ '':action:'' @ str_int (int i)" "claim_id d = p @ '':action:'' @ str_int (int j)"
        unfolding ids by auto
      with c(3) have "str_int (int i) = str_int (int j) @ '':goal-blocked''" by simp
      then show False using str_int_no_colon [of i] by simp
    qed
  qed
qed

lemma map_shift_upt: "map (\<lambda>i. n + i) [1..<Suc m] = [Suc n..<Suc (n + m)]"
  by (induction m) auto

text \<open>One tick numbers its retries after those of the tape.\<close>

lemma retries_fields:
  "map cfields cs = map cfields ds \<Longrightarrow> map attempt_of cs = map attempt_of ds \<and> length cs = length ds"
proof -
  assume a: "map cfields cs = map cfields ds"
  have eq: "map attempt_of xs = map (\<lambda>f. map_of f F_SUP_ATTEMPT_INDEX) (map cfields xs)" for xs
    by (simp add: attempt_of_def)
  show ?thesis unfolding eq using a map_eq_imp_length_eq [OF a] by (simp only: simp_thms)
qed

definition capped_claim :: "claim \<Rightarrow> bool" where
  "capped_claim c \<longleftrightarrow> (\<exists>i m. attempt_of c = Some (VInt i) \<and> map_of (cfields c) F_SUP_MAX_ATTEMPTS = Some (VInt m) \<and> i \<le> m)"

lemma capped_fields: "map cfields cs = map cfields ds \<Longrightarrow> \<forall>d \<in> set ds. capped_claim d \<Longrightarrow> \<forall>c \<in> set cs. capped_claim c"
proof
  fix c assume a: "map cfields cs = map cfields ds" "\<forall>d \<in> set ds. capped_claim d" "c \<in> set cs"
  then have "cfields c \<in> cfields ` set ds" by (metis image_eqI list.set_map)
  then obtain d where "d \<in> set ds" "cfields d = cfields c" by auto
  with a(2) show "capped_claim c" by (auto simp: capped_claim_def attempt_of_def)
qed

lemma capped_actions:
  assumes "\<forall>(i, m) \<in> set (pending_retries t todo). i \<le> m"
  shows "\<forall>c \<in> set (retries t (action_claims env session prefix n k todo)). capped_claim c"
proof
  let ?cs = "retries t (action_claims env session prefix n k todo)"
  fix c assume "c \<in> set ?cs"
  then obtain j where j: "j < length ?cs" "?cs ! j = c" by (auto simp: in_set_conv_nth)
  note eqs = action_retries [of t env session prefix n k todo]
  have len: "length ?cs = length (pending_retries t todo)" using eqs by (metis length_map)
  obtain i m where im: "pending_retries t todo ! j = (i, m)" by (cases "pending_retries t todo ! j")
  have "attempt_of c = Some (VInt i)"
    using arg_cong [OF conjunct1 [OF eqs], of "\<lambda>xs. xs ! j"] j len im by simp
  moreover have "map_of (cfields c) F_SUP_MAX_ATTEMPTS = Some (VInt m)"
    using arg_cong [OF conjunct2 [OF eqs], of "\<lambda>xs. xs ! j"] j len im by simp
  moreover have "i \<le> m" using assms j len im by (metis case_prodD nth_mem)
  ultimately show "capped_claim c" by (simp add: capped_claim_def)
qed

definition counted_log :: "claim list \<Rightarrow> bool" where
  "counted_log lg \<longleftrightarrow> (\<forall>t. map attempt_of (retries t lg) = map (\<lambda>i. Some (VInt (int i))) [1..<Suc (length (retries t lg))]
     \<and> (\<forall>c \<in> set (retries t lg). capped_claim c))"

lemma tick_counts:
  assumes sup: "sup_tape s" and log: "counted_log (su_log s)" and new: "unused env prefix s"
    and run: "tick env sv view ctx prefix s = (Inr out, s')"
  shows "counted_log (su_log s')"
proof -
  obtain todo where todo: "evaluate_rules (tally_prior_retries prefix (su_rows s)) view ctx [] (sv_policy sv) = Inr todo"
    and emit: "emit_batch env (sv_session sv) (action_claims env (sv_session sv) prefix (su_next s) 0 todo)
      (s\<lparr>su_next := su_next s + length todo\<rparr>) = (Inr out, s')"
    using run by (auto simp: tick_def split: sum.splits)
  let ?cs = "action_claims env (sv_session sv) prefix (su_next s) 0 todo"
  have sup': "sup_tape (s\<lparr>su_next := su_next s + length todo\<rparr>)" using sup by (simp add: sup_tape_def tape_ok_def)
  have prior: "dict_get 0 (tally_prior_retries prefix (su_rows s)) t = int (length (retries t (su_log s)))" for t
    using sup new by (intro tally_prior) (auto simp: sup_tape_def tape_ok_def unused_def counted_def split: option.splits)
  show ?thesis
    unfolding counted_log_def
  proof
    fix t
    let ?p = "pending_retries t todo"
    let ?n = "length (retries t (su_log s))"
    have "\<exists>added. su_log s' = su_log (s\<lparr>su_next := su_next s + length todo\<rparr>) @ added
        \<and> map cfields (retries t added) = map cfields (retries t ?cs)
        \<and> (\<forall>x \<in> set added. \<exists>c \<in> set ?cs. claim_id x \<in> {claim_id c, claim_id c @ '':goal-blocked''})"
      by (rule emit_batch_new [OF sup' _ _ _ _ emit])
        (use own_actions action_ids_new [OF new refl] in \<open>simp_all (no_asm_use), blast\<close>)
    then obtain added where added: "su_log s' = su_log s @ added" "map cfields (retries t added) = map cfields (retries t ?cs)"
      by auto
    note fields = retries_fields [OF added(2)]
    note num = evaluate_numbers [OF todo, of t]
    have len: "length (retries t added) = length ?p"
      using fields action_retries [of t env "sv_session sv" prefix "su_next s" 0 todo] by (metis length_map)
    have "map attempt_of (retries t added) = map (\<lambda>i. Some (VInt i)) (map fst ?p)"
      using fields action_retries [of t env "sv_session sv" prefix "su_next s" 0 todo] by (simp add: case_prod_beta comp_def)
    also have "\<dots> = map (\<lambda>i. Some (VInt (int i))) (map (\<lambda>i. ?n + i) [1..<Suc (length ?p)])"
      using num [unfolded prior] by (simp add: dict_get_def comp_def del: upt_Suc)
    also have "map (\<lambda>i. ?n + i) [1..<Suc (length ?p)] = [Suc ?n..<Suc (?n + length ?p)]"
      by (rule map_shift_upt)
    finally have attempts: "map attempt_of (retries t added) = map (\<lambda>i. Some (VInt (int i))) [Suc ?n..<Suc (?n + length ?p)]" .
    have split: "[Suc 0..<Suc (?n + length ?p)] = [Suc 0..<Suc ?n] @ [Suc ?n..<Suc (?n + length ?p)]"
      using upt_add_eq_append [of "Suc 0" "Suc ?n" "length ?p"] by (simp del: upt_Suc)
    have "\<forall>c \<in> set (retries t added). capped_claim c"
      by (rule capped_fields [OF added(2) capped_actions]) (use num in blast)
    then show "map attempt_of (retries t (su_log s')) = map (\<lambda>i. Some (VInt (int i))) [1..<Suc (length (retries t (su_log s')))]
        \<and> (\<forall>c \<in> set (retries t (su_log s')). capped_claim c)"
      using log attempts by (auto simp: counted_log_def added(1) len split simp del: upt_Suc)
  qed
qed

text \<open>Sessions whose ticks are delivered once; nobody else folds retries.\<close>

inductive delivered_once :: "supervisor_env \<Rightarrow> 'v supervisor \<Rightarrow> supervised \<Rightarrow> supervised \<Rightarrow> bool"
  for env sv s where
  once_start: "delivered_once env sv s s"
| once_ticked: "delivered_once env sv s t \<Longrightarrow> unused env prefix t \<Longrightarrow> tick env sv view ctx prefix t = (Inr out, u) \<Longrightarrow>
    delivered_once env sv s u"
| once_folded: "delivered_once env sv s t \<Longrightarrow> seq c < 0 \<Longrightarrow> tag c \<notin> set trigger_tags \<Longrightarrow>
    tag c \<notin> {TAG_GOAL_BLOCKED, TAG_SUPERVISOR_RETRY} \<Longrightarrow>
    delivered_once env sv s (t\<lparr>su_rows := snd (rowset_fold cid c (su_rows t))\<rparr>)"

lemma delivered_counts:
  "delivered_once env sv s t \<Longrightarrow> sup_tape s \<Longrightarrow> counted_log (su_log s) \<Longrightarrow> sup_tape t \<and> counted_log (su_log t)"
proof (induction rule: delivered_once.induct)
  case (once_ticked t prefix view ctx out u)
  then have t: "sup_tape t" "counted_log (su_log t)" by simp_all
  show ?case using tick_keeps [OF t(1) once_ticked.hyps(3)] tick_counts [OF t once_ticked.hyps(2,3)] by (rule conjI)
next
  case (once_folded t c cid)
  then have t: "sup_tape t" "counted_log (su_log t)" by simp_all
  have inv: "store_inv (rs_store (su_rows t))" using t(1) by (simp add: sup_tape_def tape_ok_def)
  have same: "retries x (s_log (rs_store (snd (rowset_fold cid c (su_rows t))))) = retries x (su_log t)" for x
    using rowset_fold_log [OF inv, of cid c] once_folded.hyps(4) by (auto simp: retries_def)
  have "sup_tape (t\<lparr>su_rows := snd (rowset_fold cid c (su_rows t))\<rparr>)"
    using t(1) once_folded.hyps by (intro other_fold_keeps) auto
  moreover have "counted_log (su_log (t\<lparr>su_rows := snd (rowset_fold cid c (su_rows t))\<rparr>))"
    using t(2) by (simp add: counted_log_def same del: upt_Suc)
  ultimately show ?case ..
qed simp

text \<open>
  C20: When every tick is delivered once, the retries recommended for a target carry the
  attempt numbers 1, 2, 3 and so on in the order of the tape, whatever other targets and
  other claims lie between them, and no attempt exceeds the cap its rule gave.
\<close>

theorem retry_attempts_gapless:
  assumes "delivered_once env sv (empty_tape rows) t"
  shows "map attempt_of (retries target (su_log t)) = map (\<lambda>i. Some (VInt (int i))) [1..<Suc (length (retries target (su_log t)))]
    \<and> (\<forall>c \<in> set (retries target (su_log t)). \<exists>i m. attempt_of c = Some (VInt i)
      \<and> map_of (cfields c) F_SUP_MAX_ATTEMPTS = Some (VInt m) \<and> i \<le> m)"
proof -
  have "counted_log (su_log (empty_tape rows))"
    by (simp add: counted_log_def empty_tape_def retries_def store_init_def)
  with delivered_counts [OF assms sup_tape_empty] show ?thesis
    by (simp add: counted_log_def capped_claim_def del: upt_Suc)
qed

section \<open>Redelivery\<close>

text \<open>Rows that do not veto the supervisor's claims, as the rows of the repository.\<close>

definition quiet :: "row list \<Rightarrow> bool" where
  "quiet rows \<longleftrightarrow> (\<forall>r \<in> set rows. \<forall>c st. tag c \<in> set (r_namespace r) \<longrightarrow>
     tag c \<in> {TAG_SUPERVISOR_RETRY, TAG_SUPERVISOR_TERMINATE, TAG_SUPERVISOR_ESCALATE, TAG_GOAL_BLOCKED} \<longrightarrow>
     r_check r c st = Inr [])"

lemma quiet_violations:
  assumes "quiet rows"
    and "tag c \<in> {TAG_SUPERVISOR_RETRY, TAG_SUPERVISOR_TERMINATE, TAG_SUPERVISOR_ESCALATE, TAG_GOAL_BLOCKED}"
  shows "violations c st (filter (\<lambda>r. tag c \<in> set (r_namespace r)) rows) = Inr []"
  using assms by (induction rows) (auto simp: quiet_def)

lemma fold_stored_again:
  assumes ok: "tape_ok s" "quiet (rs_rows (su_rows s))" and x: "x \<in> set (su_log s)" "same_claim_payload x c" "claim_id x = claim_id c"
    and tags: "tag c \<in> {TAG_SUPERVISOR_RETRY, TAG_SUPERVISOR_TERMINATE, TAG_SUPERVISOR_ESCALATE, TAG_GOAL_BLOCKED}"
  shows "fold_stored env c s = (Inr x, s\<lparr>su_next := su_next s + 1\<rparr>)"
proof -
  let ?st = "rs_store (su_rows s)"
  have inv: "store_inv ?st" using ok(1) by (simp add: tape_ok_def)
  have known: "map_of (s_by_id ?st) (claim_id c) = Some x" using by_id_Some [OF inv x(1)] x(3) by simp
  then have "store_fold cid c ?st = (Inr (s_merged ?st), ?st)" for cid using x(2) by (simp add: store_fold_def)
  then have "rowset_fold cid c (su_rows s) = (Inr (s_merged ?st), su_rows s)" for cid
    using quiet_violations [OF ok(2) tags] by (simp add: rowset_fold_def owners_def)
  moreover have "find (\<lambda>x. claim_id x = claim_id c) (s_log ?st) = Some x" using known by_id_find [OF inv] by simp
  ultimately show ?thesis by (simp add: fold_stored_def Let_def)
qed

definition wf_claim_fields :: "claim \<Rightarrow> bool" where
  "wf_claim_fields c \<longleftrightarrow> (\<forall>k v. map_of (cfields c) k = Some v \<longrightarrow> wf_val v) \<and> fields_eq (cfields c) (cfields c)"

lemma same_payload_new: "fields_eq (cfields c) (cfields c) \<Longrightarrow> same_claim_payload (c\<lparr>seq := n\<rparr>) c"
  by (simp add: same_claim_payload_def)

lemma gb_fields_eq:
  assumes "wf_claim_fields x" and "build_goal_blocked session x n = Inr g"
  shows "fields_eq (cfields g) (cfields g)"
proof -
  have wf: "wf_val (dict_get (VStr []) (cfields x) F_SUP_REASON)"
    using assms(1) by (auto simp: wf_claim_fields_def dict_get_def split: option.split)
  have pay: "wf_val (dict_get (VDict []) (cfields x) F_SUP_PAYLOAD)"
    using assms(1) by (auto simp: wf_claim_fields_def dict_get_def split: option.split)
  from assms(2) wf pay show ?thesis
    by (intro fields_eq_refl) (auto simp: build_goal_blocked_def wf_fields_def supervisor_fields split: if_splits pyval.splits)
qed

lemma emit_one_again:
  assumes sup: "sup_tape s" and own: "own_claim c" "wf_claim_fields c" and new_id: "claim_id c \<notin> claim_id ` set (su_log s)"
    and run: "emit_one env session c s = (Inr these, s')"
    and later: "tape_ok u" "quiet (rs_rows (su_rows u))" "set (su_log s') \<subseteq> set (su_log u)"
  shows "\<exists>n. emit_one env' session c u = (Inr these, u\<lparr>su_next := n\<rparr>)"
proof -
  have ok: "tape_ok s" "gb_log (su_log s)" and neg: "seq c < 0"
    using sup own(1) by (simp_all add: sup_tape_def own_claim_def)
  obtain x s1 where x: "fold_stored env c s = (Inr x, s1)"
    and rest: "(if tag x \<in> {TAG_SUPERVISOR_TERMINATE, TAG_SUPERVISOR_ESCALATE}
      then sbind (slift (build_goal_blocked session x (seq x))) (\<lambda>gb. sbind (fold_stored env gb) (\<lambda>y. sret [x, y]))
      else sret [x]) s1 = (Inr these, s')"
    using run by (auto simp: emit_one_def sbind_Inr_iff [of "fold_stored _ _"])
  have ok1: "tape_ok s1" using fold_stored_ok [OF ok(1) neg, of env] x by simp
  from ok(1) neg x have added: "su_log s1 = su_log s @ [x]" "x = c\<lparr>seq := int (length (su_log s))\<rparr>"
    by (cases rule: fold_stored_cases; use new_id in \<open>metis imageI\<close>)+
  have same: "same_claim_payload x c" "wf_claim_fields x" "tag x = tag c" "claim_id x = claim_id c"
    using own(2) by (simp_all add: added(2) same_payload_new wf_claim_fields_def)
  have fold_c: "fold_stored env' c u = (Inr x, u\<lparr>su_next := su_next u + 1\<rparr>)" if "x \<in> set (su_log u)"
    using fold_stored_again [OF later(1,2) that same(1,4)] own(1) by (auto simp: own_claim_def)
  show ?thesis
  proof (cases "tag x \<in> set trigger_tags")
    case False
    with rest have "s' = s1" "these = [x]" by (simp_all add: trigger_tags_def sret_Inr_iff)
    then show ?thesis using fold_c later(3) False
      by (intro exI [of _ "su_next u + 1"]) (auto simp: emit_one_def sbind_def added(1) sret_def trigger_tags_def)
  next
    case True
    with rest obtain g y where g: "build_goal_blocked session x (seq x) = Inr g" "fold_stored env g s1 = (Inr y, s')"
      "these = [x, y]" by (auto simp: trigger_tags_def raise_iffs)
    note gb = goal_blocked_pairs [OF g(1)]
    have negg: "seq g < 0" using gb by simp
    have y: "y \<in> set (su_log s')" "same_claim_payload y g" "claim_id y = claim_id g" "set (su_log s1) \<subseteq> set (su_log s')"
      by (cases rule: fold_stored_cases [OF ok1 negg g(2)];
          use same_payload_new [OF gb_fields_eq [OF same(2) g(1)]] in \<open>auto\<close>)+
    have "x \<in> set (su_log u)" "y \<in> set (su_log u)" using y later(3) added(1) by auto
    let ?u1 = "u\<lparr>su_next := su_next u + 1\<rparr>"
    have "fold_stored env' g ?u1 = (Inr y, ?u1\<lparr>su_next := su_next ?u1 + 1\<rparr>)"
      using later(1,2) \<open>y \<in> set (su_log u)\<close> y(2,3) gb by (intro fold_stored_again) (simp_all add: tape_ok_def)
    then show ?thesis using fold_c [OF \<open>x \<in> set (su_log u)\<close>] True g(1,3)
      by (intro exI [of _ "su_next u + 2"]) (simp add: emit_one_def sbind_def slift_def sret_def trigger_tags_def)
  qed
qed

lemma emit_batch_again:
  assumes "sup_tape s" and "\<forall>c \<in> set cs. own_claim c \<and> wf_claim_fields c" and "distinct (map claim_id cs)"
    and "\<forall>c \<in> set cs. claim_id c \<notin> claim_id ` set (su_log s)"
    and "\<forall>c \<in> set cs. \<forall>d \<in> set cs. claim_id c \<noteq> claim_id d @ '':goal-blocked''"
    and "emit_batch env session cs s = (Inr out, s')"
    and "tape_ok u" and "quiet (rs_rows (su_rows u))" and "set (su_log s') \<subseteq> set (su_log u)"
  shows "\<exists>n. emit_batch env' session cs u = (Inr out, u\<lparr>su_next := n\<rparr>)"
  using assms
proof (induction cs arbitrary: s out u)
  case Nil
  then show ?case by (auto simp: sret_def intro: exI [of _ "su_next u"])
next
  case (Cons c cs)
  then obtain these s1 later where one: "emit_one env session c s = (Inr these, s1)"
    and rest: "emit_batch env session cs s1 = (Inr later, s')" and out: "out = these @ later"
    unfolding emit_batch_one by (auto simp: raise_iffs)
  have own: "own_claim c" "wf_claim_fields c" "claim_id c \<notin> claim_id ` set (su_log s)" using Cons.prems(2,4) by simp_all
  obtain x gbs where x: "su_log s1 = su_log s @ x # gbs" "claim_id x = claim_id c"
    and gbs: "\<forall>g \<in> set gbs. claim_id g = claim_id c @ '':goal-blocked''"
    using emit_one_new [OF Cons.prems(1) own(1,3) one] by blast
  have sup1: "sup_tape s1" by (rule emit_one_keeps [OF Cons.prems(1) own(1) one])
  have ids: "\<forall>d \<in> set cs. claim_id d \<notin> claim_id ` set (su_log s1)"
  proof
    fix d assume d: "d \<in> set cs"
    then have "claim_id d \<noteq> claim_id c" using Cons.prems(3) by (metis distinct.simps(2) image_eqI list.simps(9) set_map)
    moreover have "claim_id d \<noteq> claim_id c @ '':goal-blocked''" using Cons.prems(5) d by simp
    moreover have "claim_id d \<notin> claim_id ` set (su_log s)" using Cons.prems(4) d by simp
    ultimately show "claim_id d \<notin> claim_id ` set (su_log s1)" using gbs by (auto simp: x)
  qed
  have conds: "\<forall>c \<in> set cs. own_claim c" "distinct (map claim_id cs)"
    "\<forall>c \<in> set cs. \<forall>d \<in> set cs. claim_id c \<noteq> claim_id d @ '':goal-blocked''" using Cons.prems(2,3,5) by simp_all
  have "set (su_log s1) \<subseteq> set (su_log u)"
    using emit_batch_new [OF sup1 conds(1,2) ids conds(3) rest, of t] Cons.prems(9) by auto
  then obtain n where n: "emit_one env' session c u = (Inr these, u\<lparr>su_next := n\<rparr>)"
    using emit_one_again [OF Cons.prems(1) own one Cons.prems(7,8)] by blast
  have "\<exists>m. emit_batch env' session cs (u\<lparr>su_next := n\<rparr>) = (Inr later, u\<lparr>su_next := n, su_next := m\<rparr>)"
    using Cons.prems(2,7-9) conds ids by (intro Cons.IH [OF sup1 _ _ _ _ rest]) (simp_all add: tape_ok_def)
  with n out show ?case unfolding emit_batch_one by (auto simp: sbind_def sret_def)
qed

lemma action_claims_prefix:
  "se_digest env = se_digest env' \<Longrightarrow>
    action_claims env session (Some p) n k todo = action_claims env' session (Some p) n' k todo"
  by (induction todo arbitrary: n n' k) (auto simp: action_to_claim_def)

lemma tally_uncounted: "\<forall>c \<in> set cs. \<not> counted skip c \<Longrightarrow> foldl (tally_step skip) out cs = out"
  by (induction cs arbitrary: out) (simp_all add: tally_step_def)

lemma tally_again:
  assumes "store_inv (rs_store rows)" "store_inv (rs_store rows')"
    and "s_log (rs_store rows') = s_log (rs_store rows) @ added" and "\<forall>c \<in> set added. \<not> counted skip c"
  shows "tally_prior_retries skip rows' = tally_prior_retries skip rows"
  using assms by (simp add: tally_prior_retries_def store_filter_tag tally_uncounted)

text \<open>Predicates whose payloads are JSON-like values, without NaN.\<close>

definition sound_policy :: "'v supervisor \<Rightarrow> bool" where
  "sound_policy sv \<longleftrightarrow> (\<forall>r \<in> set (sv_policy sv). \<forall>view ctx a. pr_predicate r view ctx = Inr (Recommend a) \<longrightarrow>
     (case a of EscalateAction reason payload \<Rightarrow> wf_val (VDict payload) | _ \<Rightarrow> True))"

lemma evaluate_from:
  "evaluate_rules prior view ctx now rules = Inr todo \<Longrightarrow> (a, name, i) \<in> set todo \<Longrightarrow>
    \<exists>r \<in> set rules. pr_predicate r view ctx = Inr (Recommend a)"
proof (induction rules arbitrary: now todo)
  case (Cons r rules)
  from Cons.prems(1) obtain ans where ans: "pr_predicate r view ctx = Inr ans" by auto
  show ?case
  proof (cases ans)
    case (Recommend b)
    with Cons.prems ans obtain now' later n where "evaluate_rules prior view ctx now' rules = Inr later"
      "todo = later \<or> todo = (b, pr_name r, n) # later"
      by (cases b) (auto simp: Let_def split: if_splits)
    with Cons.IH [OF this(1)] Cons.prems(2) ans Recommend show ?thesis by auto
  qed (use Cons ans in auto)
qed simp

lemma action_wf:
  assumes "case a of EscalateAction reason payload \<Rightarrow> wf_val (VDict payload) | _ \<Rightarrow> True"
  shows "wf_claim_fields (action_to_claim digest session fresh a name attempt cid)"
proof -
  have "wf_fields (cfields (action_to_claim digest session fresh a name attempt cid))"
    using assms by (cases a) (auto simp: action_to_claim_def wf_fields_def supervisor_fields)
  then show ?thesis
    by (auto simp: wf_claim_fields_def fields_eq_refl wf_fields_def dest: map_of_SomeD)
qed

lemma actions_wf:
  "\<forall>(a, name, i) \<in> set todo. case a of EscalateAction reason payload \<Rightarrow> wf_val (VDict payload) | _ \<Rightarrow> True \<Longrightarrow>
    \<forall>c \<in> set (action_claims env session prefix n k todo). wf_claim_fields c"
  by (induction env session prefix n k todo rule: action_claims.induct) (auto simp: action_wf)

text \<open>
  C37: A tick that is delivered again with its claim prefix, after a crash or a retry of its
  caller, returns the claims of the first delivery and leaves rows and store as they are,
  although its retries are already on the tape and fresh ids differ.
\<close>

theorem redelivered_tick_changes_nothing:
  assumes "attended env sv (empty_tape rows) s" and "unused env (Some p) s"
    and "tick env sv view ctx (Some p) s = (Inr out, u)"
    and "quiet (rs_rows (su_rows u))" and "sound_policy sv" and "se_digest env' = se_digest env"
  shows "\<exists>v. tick env' sv view ctx (Some p) u = (Inr out, v) \<and> su_rows v = su_rows u"
proof -
  have sup: "sup_tape s" by (rule attended_keeps [OF assms(1) sup_tape_empty])
  have supu: "sup_tape u" by (rule tick_keeps [OF sup assms(3)])
  obtain todo where todo: "evaluate_rules (tally_prior_retries (Some p) (su_rows s)) view ctx [] (sv_policy sv) = Inr todo"
    and emit: "emit_batch env (sv_session sv) (action_claims env (sv_session sv) (Some p) (su_next s) 0 todo)
      (s\<lparr>su_next := su_next s + length todo\<rparr>) = (Inr out, u)"
    using assms(3) by (auto simp: tick_def split: sum.splits)
  let ?cs = "action_claims env (sv_session sv) (Some p) (su_next s) 0 todo"
  let ?s = "s\<lparr>su_next := su_next s + length todo\<rparr>"
  have sup': "sup_tape ?s" using sup by (simp add: sup_tape_def tape_ok_def)
  note ids = action_ids_new [OF assms(2) refl, of "sv_session sv" todo]
  have wf: "\<forall>c \<in> set ?cs. wf_claim_fields c"
    using evaluate_from [OF todo] assms(5) by (intro actions_wf) (fastforce simp: sound_policy_def)
  obtain added where added: "su_log u = su_log s @ added"
    "\<forall>x \<in> set added. \<exists>c \<in> set ?cs. claim_id x \<in> {claim_id c, claim_id c @ '':goal-blocked''}"
    using emit_batch_new [where t = "[]", OF sup' _ ids(1) _ ids(3) emit] ids(2) own_actions by auto
  have "\<not> counted (Some p) x" if "x \<in> set added" for x
  proof -
    obtain c where c: "c \<in> set ?cs" "claim_id x = claim_id c \<or> claim_id x = claim_id c @ '':goal-blocked''"
      using added(2) \<open>x \<in> set added\<close> by auto
    then have "claim_id c \<in> set (map claim_id ?cs)" by simp
    then obtain j where "claim_id c = p @ '':action:'' @ str_int (int j)" unfolding action_ids by auto
    with c(2) show ?thesis by (auto simp: counted_def)
  qed
  then have tally: "tally_prior_retries (Some p) (su_rows u) = tally_prior_retries (Some p) (su_rows s)"
    using sup supu added(1) by (intro tally_again) (auto simp: sup_tape_def tape_ok_def)
  let ?u = "u\<lparr>su_next := su_next u + length todo\<rparr>"
  have "\<exists>n. emit_batch env' (sv_session sv) ?cs ?u = (Inr out, ?u\<lparr>su_next := n\<rparr>)"
    using supu assms(4) own_actions wf ids
    by (intro emit_batch_again [OF sup' _ _ _ _ emit]) (auto simp: sup_tape_def tape_ok_def)
  moreover have "action_claims env' (sv_session sv) (Some p) (su_next u) 0 todo = ?cs"
    by (rule action_claims_prefix) (rule assms(6))
  ultimately show ?thesis using todo by (auto simp: tick_def tally)
qed

lemma fold_stored_rows: "rs_rows (su_rows (snd (fold_stored env c s))) = rs_rows (su_rows s)"
  using rowset_fold_rows [of "se_merged env (su_next s)" c "su_rows s"]
  by (auto simp: fold_stored_def Let_def simp del: rowset_fold_rows split: prod.split sum.split option.split)

lemma emit_batch_rows: "emit_batch env session cs s = (res, u) \<Longrightarrow> rs_rows (su_rows u) = rs_rows (su_rows s)"
proof -
  have k: "keeps (\<lambda>t. rs_rows (su_rows t) = rs_rows (su_rows s)) (fold_stored env c)" for c
    by (simp add: keeps_def fold_stored_rows)
  have "keeps (\<lambda>t. rs_rows (su_rows t) = rs_rows (su_rows s)) (emit_batch env session cs)"
    by (induction cs) (auto intro!: keeps_intros k)
  then show "emit_batch env session cs s = (res, u) \<Longrightarrow> ?thesis" by (auto simp: keeps_def)
qed

lemma tick_rows: "tick env sv view ctx prefix s = (res, u) \<Longrightarrow> rs_rows (su_rows u) = rs_rows (su_rows s)"
  by (auto simp: tick_def split: sum.splits dest: emit_batch_rows)

text \<open>A supervisor that retries one effect and terminates, over a history row.\<close>

definition demo_supervisor :: "unit supervisor" where
  "demo_supervisor = \<lparr>sv_policy = [\<lparr>pr_name = ''again'', pr_predicate = \<lambda>v ctx. Inr (Recommend (RetryAction ''eff'' 2 ''flaky''))\<rparr>,
     \<lparr>pr_name = ''stop'', pr_predicate = \<lambda>v ctx. Inr (Recommend (TerminateAction ''enough''))\<rparr>], sv_session = ''s''\<rparr>"

definition demo_sup_env :: supervisor_env where
  "demo_sup_env = \<lparr>se_digest = \<lambda>s. s, se_fresh = \<lambda>n. ''c'' @ digits n, se_merged = \<lambda>n. ''m'' @ digits n\<rparr>"

lemma demo_tick: "case tick demo_sup_env demo_supervisor () \<lparr>fail_counts = [], caution_threshold = 3\<rparr> (Some ''t1'') (empty_tape [history_row]) of
    (Inr out, u) \<Rightarrow> map tag (su_log u) = [TAG_SUPERVISOR_RETRY, TAG_SUPERVISOR_TERMINATE, TAG_GOAL_BLOCKED] \<and> length out = 3
  | _ \<Rightarrow> False"
  by code_simp

lemma demo_ticked: obtains out u where
  "tick demo_sup_env demo_supervisor () \<lparr>fail_counts = [], caution_threshold = 3\<rparr> (Some ''t1'') (empty_tape [history_row]) = (Inr out, u)"
  "map tag (su_log u) = [TAG_SUPERVISOR_RETRY, TAG_SUPERVISOR_TERMINATE, TAG_GOAL_BLOCKED]" "length out = 3"
  using demo_tick by (auto split: prod.splits sum.splits)

lemma supervised_tape_is_paired_witness:
  "\<exists>u. attended demo_sup_env demo_supervisor (empty_tape [history_row]) u \<and> length (su_log u) = 3
    \<and> lint_store (rs_store (su_rows u)) = Inr []"
proof -
  obtain out u where u: "tick demo_sup_env demo_supervisor () \<lparr>fail_counts = [], caution_threshold = 3\<rparr> (Some ''t1'')
      (empty_tape [history_row]) = (Inr out, u)"
    "map tag (su_log u) = [TAG_SUPERVISOR_RETRY, TAG_SUPERVISOR_TERMINATE, TAG_GOAL_BLOCKED]" by (rule demo_ticked)
  have att: "attended demo_sup_env demo_supervisor (empty_tape [history_row]) u"
    by (rule ticked [OF attended.start u(1)])
  moreover have "length (su_log u) = 3" using arg_cong [OF u(2), of length] by simp
  ultimately show ?thesis using supervised_tape_is_paired [OF att] by blast
qed

lemma retry_attempts_gapless_witness:
  "\<exists>u. delivered_once demo_sup_env demo_supervisor (empty_tape [history_row]) u \<and> length (su_log u) = 3
    \<and> map attempt_of (retries ''eff'' (su_log u)) = map (\<lambda>i. Some (VInt (int i))) [1..<Suc (length (retries ''eff'' (su_log u)))]"
proof -
  obtain out u where u: "tick demo_sup_env demo_supervisor () \<lparr>fail_counts = [], caution_threshold = 3\<rparr> (Some ''t1'')
      (empty_tape [history_row]) = (Inr out, u)"
    "map tag (su_log u) = [TAG_SUPERVISOR_RETRY, TAG_SUPERVISOR_TERMINATE, TAG_GOAL_BLOCKED]" by (rule demo_ticked)
  have "unused demo_sup_env (Some ''t1'') (empty_tape [history_row])"
    by (simp add: unused_def empty_tape_def store_init_def)
  then have once: "delivered_once demo_sup_env demo_supervisor (empty_tape [history_row]) u"
    by (rule once_ticked [OF once_start _ u(1)])
  moreover have "length (su_log u) = 3" using arg_cong [OF u(2), of length] by simp
  ultimately show ?thesis using retry_attempts_gapless [OF once] by blast
qed

lemma redelivered_tick_changes_nothing_witness:
  "\<exists>out u v. tick demo_sup_env demo_supervisor () \<lparr>fail_counts = [], caution_threshold = 3\<rparr> (Some ''t1'') (empty_tape [history_row])
      = (Inr out, u) \<and> length out = 3
    \<and> tick demo_sup_env demo_supervisor () \<lparr>fail_counts = [], caution_threshold = 3\<rparr> (Some ''t1'') u = (Inr out, v)
    \<and> su_rows v = su_rows u"
proof -
  obtain out u where u: "tick demo_sup_env demo_supervisor () \<lparr>fail_counts = [], caution_threshold = 3\<rparr> (Some ''t1'')
      (empty_tape [history_row]) = (Inr out, u)" "length out = 3" by (rule demo_ticked)
  have unused: "unused demo_sup_env (Some ''t1'') (empty_tape [history_row])"
    by (simp add: unused_def empty_tape_def store_init_def)
  have "rs_rows (su_rows u) = [history_row]"
    using tick_rows [OF u(1)] by (simp add: empty_tape_def)
  then have quiet: "quiet (rs_rows (su_rows u))" by (simp add: quiet_def history_row_def history_check_def)
  have sound: "sound_policy demo_supervisor" by (simp add: sound_policy_def demo_supervisor_def)
  show ?thesis
    using redelivered_tick_changes_nothing [OF attended.start unused u(1) quiet sound refl] u by blast
qed

end
