(* ===== verification/EffectRow.thy ===== *)
theory EffectRow
  imports Effects
begin

text \<open>
  The effect row (\<open>lipas/rows/effect.py\<close>): the validators of intents, results and
  rejections, and the lineage projection with its walks. A validator returns its messages
  (short labels here), or raises: \<open>x in frozenset\<close> hashes \<open>x\<close> first.
\<close>

section \<open>Helpers\<close>

definition fget :: "claim \<Rightarrow> string \<Rightarrow> pyval" where
  "fget c k = dict_get VNone (cfields c) k"

definition fhas :: "claim \<Rightarrow> string \<Rightarrow> bool" where
  "fhas c k \<longleftrightarrow> k \<in> fst ` set (cfields c)"

text \<open>Membership of a value in a set of strings; objects hash to themselves.\<close>

definition str_member :: "pyval \<Rightarrow> string list \<Rightarrow> exn + bool" where
  "str_member v xs = (case v of
      VStr s \<Rightarrow> Inr (s \<in> set xs)
    | VObj t x \<Rightarrow> Inr False | VOpaque n \<Rightarrow> Inr False | VNaN \<Rightarrow> Inr False
    | _ \<Rightarrow> ebind (hash_key v) (\<lambda>k. Inr False))"

fun blank_or_no_text :: "pyval \<Rightarrow> bool" where
  "blank_or_no_text (VStr s) = (strip s = [])"
| "blank_or_no_text v = True"

text \<open>\<open>_EFFECT_ID_RE.match\<close>: Python's \<open>$\<close> also matches before a final newline.\<close>

definition effect_id_chars :: "string \<Rightarrow> bool" where
  "effect_id_chars s \<longleftrightarrow> (take 5 s = ''call_'' \<or> take 5 s = ''tool_'') \<and> length s = 17
     \<and> (\<forall>c \<in> set (drop 5 s). c \<in> set HEX)"

definition effect_id_match :: "string \<Rightarrow> bool" where
  "effect_id_match s \<longleftrightarrow> effect_id_chars s
     \<or> (s \<noteq> [] \<and> last s = CHR 0x0A \<and> effect_id_chars (butlast s))"

definition VALID_STATUS :: "string list" where "VALID_STATUS = [''ok'', ''error'']"
definition VALID_KINDS :: "string list" where "VALID_KINDS = [''llm_call'', ''tool_call'']"
definition VALID_SIDE_EFFECTS :: "string list" where
  "VALID_SIDE_EFFECTS = [''pure'', ''read_only'', ''idempotent_write'', ''external_write'']"

definition SIDE_EFFECT_RANK :: "(string \<times> nat) list" where
  "SIDE_EFFECT_RANK = [(''pure'', 0), (''read_only'', 1), (''idempotent_write'', 2), (''external_write'', 3)]"

definition finite_nonnegative :: "pyval \<Rightarrow> bool" where
  "finite_nonnegative v = (case finite_float v of None \<Rightarrow> False | Some r \<Rightarrow> 0 \<le> r)"

text \<open>The loop over the buckets of an estimate or a spend: every entry valid and new.\<close>

fun amounts_ok :: "string list \<Rightarrow> (pykey \<times> pyval) list \<Rightarrow> bool" where
  "amounts_ok seen [] = True"
| "amounts_ok seen (kv # d) = (case fst kv of
      KStr b \<Rightarrow> strip b \<noteq> [] \<and> strip b \<notin> set seen \<and> finite_nonnegative (snd kv)
        \<and> amounts_ok (strip b # seen) d
    | _ \<Rightarrow> False)"

text \<open>\<open>_json_shape_errors\<close> and \<open>_container_shape_errors\<close>; \<open>strict\<close> tells them apart.\<close>

fun shape_errors :: "bool \<Rightarrow> pyval \<Rightarrow> string list"
  and list_errors :: "bool \<Rightarrow> pyval list \<Rightarrow> string list"
  and dict_errors :: "bool \<Rightarrow> (pykey \<times> pyval) list \<Rightarrow> string list"
where
  "shape_errors strict (VFloat x) = (case x of Fin r \<Rightarrow> [] | _ \<Rightarrow> [''non-finite number''])"
| "shape_errors strict VNaN = [''non-finite number'']"
| "shape_errors strict (VList xs) = list_errors strict xs"
| "shape_errors strict (VTuple xs) = list_errors strict xs"
| "shape_errors strict (VDict d) = dict_errors strict d"
| "shape_errors strict (VSet s) = (if strict then [''unsupported''] else [])"
| "shape_errors strict (VObj t x) = (if strict then [''unsupported''] else [])"
| "shape_errors strict (VOpaque n) = (if strict then [''unsupported''] else [])"
| "shape_errors strict v = []"
| "list_errors strict [] = []"
| "list_errors strict (x # xs) = shape_errors strict x @ list_errors strict xs"
| "dict_errors strict [] = []"
| "dict_errors strict (kv # d) = (case fst kv of
      KStr k \<Rightarrow> shape_errors strict (snd kv)
    | _ \<Rightarrow> [''must use string object keys'']) @ dict_errors strict d"

definition json_shape_errors :: "pyval \<Rightarrow> string list" where
  "json_shape_errors = shape_errors True"

definition container_shape_errors :: "pyval \<Rightarrow> string list" where
  "container_shape_errors = shape_errors False"

text \<open>The claims of a tag that carry an effect id.\<close>

definition of_effect :: "string \<Rightarrow> string \<Rightarrow> store \<Rightarrow> claim list" where
  "of_effect t e s = filter (\<lambda>c. py_eq (fget c F_EFFECT_ID) (VStr e)) (store_filter (Some t) None None s)"

definition when_msg :: "bool \<Rightarrow> string \<Rightarrow> string list" where
  "when_msg b m = (if b then [m] else [])"

section \<open>Intents\<close>

definition caps_ok :: "pyval \<Rightarrow> bool" where
  "caps_ok v = (case (case v of VList xs \<Rightarrow> Some xs | VTuple xs \<Rightarrow> Some xs | _ \<Rightarrow> None) of
      None \<Rightarrow> False
    | Some xs \<Rightarrow> (\<forall>x \<in> set xs. \<not> blank_or_no_text x)
        \<and> distinct (map (\<lambda>x. case x of VStr s \<Rightarrow> strip s | _ \<Rightarrow> []) xs))"

definition check_proposal :: "claim \<Rightarrow> string list" where
  "check_proposal c =
     (case fget c F_PROPOSAL_ID of
        VNone \<Rightarrow> when_msg (\<exists>k \<in> set [F_PROPOSAL_KIND, F_ACTOR, F_CAPABILITIES, F_RISK, F_ESTIMATE,
            F_PROPOSAL_METADATA]. fhas c k) ''proposal fields require proposal_id''
      | pid \<Rightarrow> if blank_or_no_text pid then [''proposal_id must be a non-empty str'']
          else List.concat (map (\<lambda>k. when_msg (blank_or_no_text (fget c k)) ''proposal field must be a non-empty str'')
                 [F_PROPOSAL_KIND, F_ACTOR, F_RISK])
            @ when_msg (\<not> caps_ok (fget c F_CAPABILITIES)) ''capabilities must be a sequence of unique strings''
            @ (case fget c F_ESTIMATE of
                 VDict d \<Rightarrow> when_msg (\<not> amounts_ok [] d) ''estimate contains invalid values''
               | _ \<Rightarrow> [''estimate must be a mapping''])
            @ (case fget c F_PROPOSAL_METADATA of
                 VDict d \<Rightarrow> json_shape_errors (VDict d)
               | _ \<Rightarrow> [''metadata must be a mapping'']))"

definition check_intent_llm :: "claim \<Rightarrow> string list" where
  "check_intent_llm c =
     when_msg (blank_or_no_text (fget c F_MODEL)) ''model required''
     @ (if \<not> fhas c F_REQUEST then [''request required''] else container_shape_errors (fget c F_REQUEST))"

definition check_intent_tool :: "claim \<Rightarrow> exn + string list" where
  "check_intent_tool c =
     ebind (str_member (fget c F_DECLARED_SIDE_EFFECT) VALID_SIDE_EFFECTS) (\<lambda>known. Inr
       (when_msg (blank_or_no_text (fget c F_TOOL_NAME)) ''tool_name required''
        @ when_msg (\<not> fhas c F_ARGUMENTS) ''arguments required''
        @ (case fget c F_ARGUMENTS of
             VDict d \<Rightarrow> json_shape_errors (VDict d)
           | _ \<Rightarrow> [''arguments must be a mapping''])
        @ when_msg (\<not> known) ''declared_side_effect invalid''))"

definition check_compensates :: "claim \<Rightarrow> store \<Rightarrow> string list" where
  "check_compensates c s = (case fget c F_COMPENSATES of
      VNone \<Rightarrow> []
    | VStr par \<Rightarrow> when_msg (strip par = []) ''compensates must be non-empty''
        @ when_msg (of_effect TAG_EFFECT_INTENT par s = []) ''compensates no known intent''
    | _ \<Rightarrow> [''compensates must be str | None''])"

definition check_optional_text :: "claim \<Rightarrow> string \<Rightarrow> string list" where
  "check_optional_text c k = when_msg (fget c k \<noteq> VNone \<and> blank_or_no_text (fget c k)) ''must be a non-empty str''"

definition check_intent :: "claim \<Rightarrow> store \<Rightarrow> exn + string list" where
  "check_intent c s = (case fget c F_EFFECT_ID of
      VStr eid \<Rightarrow>
        (let msgs = when_msg (\<not> effect_id_match eid) ''call_id does not match''
              @ when_msg (of_effect TAG_EFFECT_INTENT eid s \<noteq> []) ''duplicate call_id''
              @ check_compensates c s
              @ check_optional_text c F_PROVIDER_REQUEST_ID @ check_optional_text c F_CAUSED_BY
              @ check_proposal c
         in ebind (str_member (fget c F_KIND) VALID_KINDS) (\<lambda>known.
              if \<not> known then Inr (msgs @ [''kind invalid''])
              else if fget c F_KIND = VStr ''llm_call'' then Inr (msgs @ check_intent_llm c)
              else ebind (check_intent_tool c) (\<lambda>ms. Inr (msgs @ ms))))
    | _ \<Rightarrow> Inr [''missing or non-str call_id''])"

section \<open>Results\<close>

definition check_result_llm :: "claim \<Rightarrow> string list" where
  "check_result_llm c =
     (if \<not> fhas c F_REPLY then [''reply required''] else container_shape_errors (fget c F_REPLY))
     @ (case fget c F_TOTAL_USAGE of
          VNone \<Rightarrow> []
        | VObj t x \<Rightarrow> when_msg (t \<noteq> ''Usage'') ''total_usage must be Usage''
        | _ \<Rightarrow> [''total_usage must be Usage''])"

fun rank_of :: "pyval \<Rightarrow> nat option" where
  "rank_of (VStr s) = map_of SIDE_EFFECT_RANK s"
| "rank_of v = None"

definition check_result_tool :: "claim \<Rightarrow> claim option \<Rightarrow> exn + string list" where
  "check_result_tool c intent =
     ebind (str_member (fget c F_SIDE_EFFECT) VALID_SIDE_EFFECTS) (\<lambda>known.
     ebind (case intent of None \<Rightarrow> Inr False
            | Some i \<Rightarrow> ebind (str_member (fget i F_DECLARED_SIDE_EFFECT) VALID_SIDE_EFFECTS) (\<lambda>d. Inr
                (case (rank_of (fget i F_DECLARED_SIDE_EFFECT), rank_of (fget c F_SIDE_EFFECT)) of
                   (Some declared, Some actual) \<Rightarrow> declared < actual | _ \<Rightarrow> False))) (\<lambda>exceeds. Inr
       ((if \<not> fhas c F_OUTPUT then [''output required''] else container_shape_errors (fget c F_OUTPUT))
        @ when_msg (\<not> known) ''side_effect invalid''
        @ (case fget c F_SPEND of
             VNone \<Rightarrow> []
           | VDict d \<Rightarrow> when_msg (\<not> amounts_ok [] d) ''invalid spend entry''
           | _ \<Rightarrow> [''spend must be a mapping''])
        @ when_msg exceeds ''actual side effect exceeds declared'')))"

definition check_attempts :: "claim \<Rightarrow> string list" where
  "check_attempts c = (case fget c F_ATTEMPTS of
      VNone \<Rightarrow> []
    | VInt n \<Rightarrow> when_msg (n < 1) ''attempts must be a positive int''
    | _ \<Rightarrow> [''attempts must be a positive int''])"

definition check_error :: "claim \<Rightarrow> string list" where
  "check_error c =
     when_msg (fget c F_STATUS = VStr ''ok'' \<and> fhas c F_ERROR) ''status ok must not carry error''
     @ when_msg (fget c F_STATUS = VStr ''error'' \<and> \<not> fhas c F_ERROR) ''status error requires error''
     @ (if \<not> fhas c F_ERROR then []
        else (case fget c F_ERROR of VDict d \<Rightarrow> json_shape_errors (VDict d) | _ \<Rightarrow> [''error must be a mapping'']))"

definition check_result :: "claim \<Rightarrow> store \<Rightarrow> exn + string list" where
  "check_result c s = (case fget c F_EFFECT_ID of
      VStr eid \<Rightarrow>
        (let intents = of_effect TAG_EFFECT_INTENT eid s;
             msgs = when_msg (intents = []) ''no matching prior intent''
               @ when_msg (of_effect TAG_EFFECT_RESULT eid s \<noteq> []) ''duplicate result''
               @ when_msg (of_effect TAG_EFFECT_REJECTED eid s \<noteq> []) ''result after rejection''
         in ebind (str_member (fget c F_KIND) VALID_KINDS) (\<lambda>known.
              if \<not> known then Inr (msgs @ [''kind invalid''])
              else let msgs = msgs @ (case intents of [] \<Rightarrow> []
                    | i # _ \<Rightarrow> when_msg (\<not> py_eq (fget i F_KIND) (fget c F_KIND)) ''kind does not match intent'')
              in ebind (str_member (fget c F_STATUS) VALID_STATUS) (\<lambda>status.
                if \<not> status then Inr (msgs @ [''status invalid''])
                else let msgs = msgs @ check_error c @ check_attempts c
                in if fget c F_KIND = VStr ''llm_call'' then Inr (msgs @ check_result_llm c)
                   else ebind (check_result_tool c (case intents of [] \<Rightarrow> None | i # _ \<Rightarrow> Some i))
                     (\<lambda>ms. Inr (msgs @ ms)))))
    | _ \<Rightarrow> Inr [''missing or non-str call_id''])"

section \<open>Rejections\<close>

definition check_rejection :: "claim \<Rightarrow> store \<Rightarrow> exn + string list" where
  "check_rejection c s = (case fget c F_EFFECT_ID of
      VStr eid \<Rightarrow>
        (let intents = of_effect TAG_EFFECT_INTENT eid s
         in ebind (str_member (fget c F_KIND) VALID_KINDS) (\<lambda>known. Inr
              (when_msg (intents = []) ''no matching prior intent''
               @ when_msg (of_effect TAG_EFFECT_RESULT eid s \<noteq> []) ''rejection after result''
               @ when_msg (of_effect TAG_EFFECT_REJECTED eid s \<noteq> []) ''duplicate rejection''
               @ (if \<not> known then [''kind invalid'']
                  else (case intents of [] \<Rightarrow> []
                    | i # _ \<Rightarrow> when_msg (\<not> py_eq (fget i F_KIND) (fget c F_KIND)) ''kind does not match intent''))
               @ when_msg (blank_or_no_text (fget c F_REASON)) ''reason must be a non-empty str''
               @ (case fget c F_DETAIL of
                    VNone \<Rightarrow> []
                  | VDict d \<Rightarrow> json_shape_errors (VDict d)
                  | _ \<Rightarrow> [''detail must be mapping | None'']))))
    | _ \<Rightarrow> Inr [''missing or non-str call_id''])"

definition effect_check :: "claim \<Rightarrow> store \<Rightarrow> exn + string list" where
  "effect_check c s =
     (if claim_id c \<in> claim_id ` set (store_filter (Some (tag c)) None None s) then Inr []
      else if tag c = TAG_EFFECT_INTENT then check_intent c s
      else if tag c = TAG_EFFECT_RESULT then check_result c s
      else if tag c = TAG_EFFECT_REJECTED then check_rejection c s
      else Inr [])"

section \<open>Projection\<close>

record effect_node =
  en_id :: string
  en_kind :: effect_kind
  en_intent :: claim
  en_result :: "claim option"
  en_compensates :: "string option"
  en_compensated_by :: "string list"
  en_rejection :: "claim option"

record effect_view =
  ew_nodes :: "(string \<times> effect_node) list"
  ew_orphans :: "string list"
  ew_rejected :: "string list"

definition node_terminal :: "effect_node \<Rightarrow> bool" where
  "node_terminal n \<longleftrightarrow> en_result n \<noteq> None \<or> en_rejection n \<noteq> None"

definition dict_setdefault :: "'k \<Rightarrow> 'v \<Rightarrow> ('k \<times> 'v) list \<Rightarrow> ('k \<times> 'v) list" where
  "dict_setdefault k v d = (case map_of d k of None \<Rightarrow> d @ [(k, v)] | Some w \<Rightarrow> d)"

text \<open>The first claim of each effect id; the ids of claims in a store are distinct.\<close>

definition by_effect :: "claim list \<Rightarrow> (string \<times> claim) list" where
  "by_effect cs = foldl (\<lambda>d c. case fget c F_EFFECT_ID of VStr e \<Rightarrow> dict_setdefault e c d | _ \<Rightarrow> d) [] cs"

fun parse_kind :: "pyval \<Rightarrow> effect_kind option" where
  "parse_kind (VStr s) = (if s = ''llm_call'' then Some LLM_CALL else if s = ''tool_call'' then Some TOOL_CALL else None)"
| "parse_kind v = None"

fun text_of :: "pyval \<Rightarrow> string option" where
  "text_of (VStr s) = Some s"
| "text_of v = None"

definition compensators :: "(string \<times> claim) list \<Rightarrow> string \<Rightarrow> string list" where
  "compensators intents e = map fst (filter (\<lambda>(i, c). text_of (fget c F_COMPENSATES) = Some e) intents)"

definition effect_project :: "store \<Rightarrow> effect_view" where
  "effect_project s =
     (let intents = by_effect (store_filter (Some TAG_EFFECT_INTENT) None None s);
          results = by_effect (store_filter (Some TAG_EFFECT_RESULT) None None s);
          rejections = by_effect (store_filter (Some TAG_EFFECT_REJECTED) None None s)
      in \<lparr>ew_nodes = List.map_filter (\<lambda>(e, c). case parse_kind (fget c F_KIND) of
              None \<Rightarrow> None
            | Some k \<Rightarrow> Some (e, \<lparr>en_id = e, en_kind = k, en_intent = c, en_result = map_of results e,
                en_compensates = text_of (fget c F_COMPENSATES),
                en_compensated_by = compensators intents e, en_rejection = map_of rejections e\<rparr>)) intents,
         ew_orphans = map fst (filter (\<lambda>(e, c). map_of results e = None \<and> map_of rejections e = None) intents),
         ew_rejected = map fst (filter (\<lambda>(e, c). map_of rejections e \<noteq> None) intents)\<rparr>)"

text \<open>The lineage walks, each node once.\<close>

lemma map_of_images: "map_of d k = Some v \<Longrightarrow> k \<in> fst ` set d \<and> v \<in> snd ` set d"
  by (drule map_of_SomeD) force

function chain_loop :: "(string \<times> effect_node) list \<Rightarrow> string list \<Rightarrow> string \<Rightarrow> effect_node list" where
  "chain_loop nodes seen e = (case map_of nodes e of
      None \<Rightarrow> []
    | Some cur \<Rightarrow> if en_id cur \<in> set seen then []
        else cur # (case en_compensates cur of None \<Rightarrow> []
          | Some p \<Rightarrow> chain_loop nodes (en_id cur # seen) p))"
  by auto
termination
proof (relation "measure (\<lambda>(nodes, seen, e). card (en_id ` snd ` set nodes - set seen))", goal_cases)
  case (2 nodes seen e cur p)
  then have "en_id cur \<in> en_id ` snd ` set nodes - set seen" using map_of_images [of nodes e cur] by blast
  then have "card (en_id ` snd ` set nodes - insert (en_id cur) (set seen)) < card (en_id ` snd ` set nodes - set seen)"
    by (intro psubset_card_mono) auto
  then show ?case by simp
qed simp

declare chain_loop.simps [simp del]

definition chain :: "effect_view \<Rightarrow> string \<Rightarrow> effect_node list" where
  "chain v e = rev (chain_loop (ew_nodes v) [] e)"

function descend_loop :: "(string \<times> effect_node) list \<Rightarrow> string list \<Rightarrow> string list \<Rightarrow> effect_node list" where
  "descend_loop nodes seen [] = []"
| "descend_loop nodes seen (e # queue) = (if e \<in> set seen then descend_loop nodes seen queue
     else (case map_of nodes e of
         None \<Rightarrow> descend_loop nodes (e # seen) queue
       | Some n \<Rightarrow> n # descend_loop nodes (e # seen) (queue @ en_compensated_by n)))"
  by pat_completeness auto
termination
proof (relation "(\<lambda>(nodes, seen, queue). card (fst ` set nodes - set seen)) <*mlex*>
    measure (\<lambda>(nodes, seen, queue). length queue)", goal_cases)
  case 1
  then show ?case by (intro wf_mlex wf_measure)
next
  case (2 nodes seen e queue)
  then show ?case by (simp add: mlex_leq)
next
  case (3 nodes seen e queue)
  have "card (fst ` set nodes - insert e (set seen)) \<le> card (fst ` set nodes - set seen)"
    by (intro card_mono) auto
  then show ?case by (intro mlex_leq) simp_all
next
  case (4 nodes seen e queue n)
  then have "e \<in> fst ` set nodes - set seen" using map_of_images [of nodes e n] by blast
  then have "card (fst ` set nodes - insert e (set seen)) < card (fst ` set nodes - set seen)"
    by (intro psubset_card_mono) auto
  then show ?case by (intro mlex_less) simp
qed

declare descend_loop.simps [simp del]

definition descendants :: "effect_view \<Rightarrow> string \<Rightarrow> effect_node list" where
  "descendants v e = (case map_of (ew_nodes v) e of
      None \<Rightarrow> [] | Some n \<Rightarrow> descend_loop (ew_nodes v) [e] (en_compensated_by n))"

definition nodes_of_kind :: "effect_kind \<Rightarrow> effect_view \<Rightarrow> effect_node list" where
  "nodes_of_kind k v = filter (\<lambda>n. en_kind n = k) (map snd (ew_nodes v))"

text \<open>The row; its view is rendered as a value for \<open>RowSet.project\<close>.\<close>

definition effect_namespace :: "string list" where
  "effect_namespace = [TAG_EFFECT_INTENT, TAG_EFFECT_RESULT, TAG_EFFECT_REJECTED]"

definition view_value :: "effect_view \<Rightarrow> pyval" where
  "view_value v = VObj ''EffectView'' (vobj
     [(''nodes'', text_list (map fst (ew_nodes v))), (''orphans'', VTuple (map VStr (ew_orphans v))),
      (''rejected'', VTuple (map VStr (ew_rejected v)))])"

definition effect_row :: row where
  "effect_row = \<lparr>r_name = ''effect'', r_namespace = effect_namespace, r_strategies = (\<lambda>reg. reg),
     r_check = effect_check, r_project = (\<lambda>s. Inr (view_value (effect_project s)))\<rparr>"

end
