(* ===== verification/Replay.thy ===== *)
theory Replay
  imports EffectRow
begin

text \<open>
  Tools and tool replay (\<open>lipas/tools.py\<close>, \<open>lipas/replay_tools.py\<close>): the side effect
  classes, the tool declaration and its registry, and the replayer that decides for each
  tool call of a replayed session whether the recorded result is substituted, the tool is
  run again, or the call is refused. The Python function behind a tool, its signature
  binding and its estimate are functions of the model. Warnings are not modelled.
\<close>

section \<open>Tools\<close>

datatype side_effect_class = PURE | READ_ONLY | IDEMPOTENT_WRITE | EXTERNAL_WRITE

fun class_value :: "side_effect_class \<Rightarrow> string" where
  "class_value PURE = ''pure''"
| "class_value READ_ONLY = ''read_only''"
| "class_value IDEMPOTENT_WRITE = ''idempotent_write''"
| "class_value EXTERNAL_WRITE = ''external_write''"

definition SYSTEM_BUCKETS :: "string list" where
  "SYSTEM_BUCKETS = [''tool_calls'', ''wall_seconds'', ''tokens_in'', ''tokens_out'', ''cost_usd'']"

text \<open>
  What \<open>await tool.acall(args)\<close> did: the handler returned a value, it raised an
  exception of a class with a message (the flag tells \<open>Exception\<close> from the other
  \<open>BaseException\<close>s), or the awaiting task was cancelled.
\<close>

datatype tool_outcome = Returned pyval | Raised bool string string | TaskCancelled

text \<open>
  \<open>t_bind\<close> is \<open>signature.bind(**args)\<close> with the defaults applied: the bound arguments,
  or the message of the \<open>TypeError\<close>. \<open>t_estimate\<close> is the estimate function: what it
  returned, or the text of what it raised. \<open>t_run n\<close> is what the handler does at moment \<open>n\<close>.
\<close>

record tool =
  t_name :: string
  t_side_effect :: side_effect_class
  t_buckets :: "string list"
  t_observability_only :: bool
  t_bind :: "(pykey \<times> pyval) list \<Rightarrow> string + (pykey \<times> pyval) list"
  t_estimate :: "((pykey \<times> pyval) list \<Rightarrow> string + pyval) option"
  t_run :: "nat \<Rightarrow> (pykey \<times> pyval) list \<Rightarrow> tool_outcome"

text \<open>\<open>__post_init__\<close>, for a typed declaration: the buckets stripped, none blank or repeated.\<close>

definition make_tool :: "string \<Rightarrow> tool \<Rightarrow> exn + tool" where
  "make_tool description t =
     ebind (guard_or ValueError (strip (t_name t) \<noteq> [])) (\<lambda>_.
     ebind (guard_or ValueError (strip description \<noteq> [])) (\<lambda>_.
     ebind (guard_or ValueError (t_buckets t \<noteq> [])) (\<lambda>_.
     ebind (guard_or ValueError (\<forall>b \<in> set (t_buckets t). strip b \<noteq> [])) (\<lambda>_.
     ebind (guard_or ValueError (length (frozen (map strip (t_buckets t))) = length (t_buckets t))) (\<lambda>_.
     Inr (t\<lparr>t_buckets := frozen (map strip (t_buckets t))\<rparr>))))))"

text \<open>The buckets \<open>_validate_buckets\<close> warns about.\<close>

definition unprefixed_buckets :: "string \<Rightarrow> string list \<Rightarrow> string list" where
  "unprefixed_buckets name buckets =
     filter (\<lambda>b. b \<notin> set SYSTEM_BUCKETS \<and> \<not> starts_with b (name @ ''.'')) buckets"

type_synonym tool_registry = "(string \<times> tool) list"

definition tools_register :: "tool \<Rightarrow> tool_registry \<Rightarrow> exn + tool_registry" where
  "tools_register t reg =
     (if map_of reg (t_name t) \<noteq> None then Inl DuplicateToolError else Inr (dict_put (t_name t) t reg))"

definition tools_init :: "tool list \<Rightarrow> exn + tool_registry" where
  "tools_init ts = efoldl (\<lambda>reg t. tools_register t reg) [] ts"

definition tools_get :: "tool_registry \<Rightarrow> string \<Rightarrow> exn + tool" where
  "tools_get reg name = (case map_of reg name of None \<Rightarrow> Inl ToolNotFoundError | Some t \<Rightarrow> Inr t)"

definition tools_names :: "tool_registry \<Rightarrow> string list" where
  "tools_names reg = map fst reg"

definition declared_buckets_union :: "tool_registry \<Rightarrow> string list" where
  "declared_buckets_union reg = frozen (List.concat (map (t_buckets \<circ> snd) reg))"

section \<open>The class lattice\<close>

definition LATTICE_ORDER :: "side_effect_class list" where
  "LATTICE_ORDER = [PURE, READ_ONLY, IDEMPOTENT_WRITE, EXTERNAL_WRITE]"

fun class_rank :: "side_effect_class \<Rightarrow> nat" where
  "class_rank PURE = 0" | "class_rank READ_ONLY = 1"
| "class_rank IDEMPOTENT_WRITE = 2" | "class_rank EXTERNAL_WRITE = 3"

definition stricter :: "side_effect_class \<Rightarrow> side_effect_class \<Rightarrow> side_effect_class" where
  "stricter a b = (if class_rank b \<le> class_rank a then a else b)"

definition class_of_text :: "string \<Rightarrow> side_effect_class option" where
  "class_of_text s = (case find (\<lambda>c. class_value c = s) LATTICE_ORDER of
      Some c \<Rightarrow> Some c
    | None \<Rightarrow> map_of [(''PURE'', PURE), (''READ_ONLY'', READ_ONLY), (''IDEMPOTENT_WRITE'', IDEMPOTENT_WRITE),
        (''EXTERNAL_WRITE'', EXTERNAL_WRITE)] s)"

definition normalize_class :: "pyval \<Rightarrow> exn + side_effect_class" where
  "normalize_class v = (case v of
      VStr s \<Rightarrow> (case class_of_text s of Some c \<Rightarrow> Inr c | None \<Rightarrow> Inl ValueError)
    | _ \<Rightarrow> Inl ValueError)"

section \<open>The replayer\<close>

datatype replay_mode = STRICT_TAPE | BEST_EFFORT | LIVE_REROUTE

fun mode_value :: "replay_mode \<Rightarrow> string" where
  "mode_value STRICT_TAPE = ''strict_tape''"
| "mode_value BEST_EFFORT = ''best_effort''"
| "mode_value LIVE_REROUTE = ''live_reroute''"

datatype replay_operation = Substitute | Re_execute | Refuse | Fail

fun operation_value :: "replay_operation \<Rightarrow> string" where
  "operation_value Substitute = ''substitute''" | "operation_value Re_execute = ''re-execute''"
| "operation_value Refuse = ''refuse''" | "operation_value Fail = ''fail''"

record replay_decision =
  rd_operation :: replay_operation
  rd_reason :: string
  rd_declared :: side_effect_class
  rd_effective :: side_effect_class
  rd_recorded :: "effect_node option"
  rd_output :: pyval
  rd_status :: pyval

record replayer =
  rp_view :: effect_view
  rp_mode :: replay_mode
  rp_allow_external :: bool
  rp_allow_downgrade :: bool
  rp_max_seq :: "int option"

definition tool_nodes :: "effect_view \<Rightarrow> effect_node list" where
  "tool_nodes v = nodes_of_kind TOOL_CALL v"

definition node_seqs :: "effect_node \<Rightarrow> int list" where
  "node_seqs n = seq (en_intent n) # (case en_result n of None \<Rightarrow> [] | Some c \<Rightarrow> [seq c])
     @ (case en_rejection n of None \<Rightarrow> [] | Some c \<Rightarrow> [seq c])"

definition capture_max_seq :: "effect_view \<Rightarrow> int option" where
  "capture_max_seq v = (let m = foldl max (- 1) (List.concat (map node_seqs (tool_nodes v)))
     in if 0 \<le> m then Some m else None)"

text \<open>\<open>None\<close> as the bound stands for the sentinel: capture the view's own maximum.\<close>

definition make_replayer ::
  "effect_view \<Rightarrow> replay_mode \<Rightarrow> bool \<Rightarrow> bool \<Rightarrow> int option option \<Rightarrow> exn + replayer" where
  "make_replayer v mode external downgrade bound =
     (let cap = (case bound of None \<Rightarrow> capture_max_seq v | Some b \<Rightarrow> b)
      in if mode = STRICT_TAPE \<and> cap = None then Inl ReplayConfigError
         else Inr \<lparr>rp_view = v, rp_mode = mode, rp_allow_external = external,
           rp_allow_downgrade = downgrade, rp_max_seq = cap\<rparr>)"

definition visible_tool_nodes :: "replayer \<Rightarrow> effect_node list" where
  "visible_tool_nodes r = filter (\<lambda>n. case rp_max_seq r of None \<Rightarrow> True
     | Some cap \<Rightarrow> 0 \<le> seq (en_intent n) \<and> seq (en_intent n) \<le> cap) (tool_nodes (rp_view r))"

definition replay_lookup ::
  "replayer \<Rightarrow> tool \<Rightarrow> (pykey \<times> pyval) list \<Rightarrow> string list \<Rightarrow> effect_node option" where
  "replay_lookup r t args exclude = find (\<lambda>n. en_id n \<notin> set exclude
      \<and> py_eq (fget (en_intent n) F_TOOL_NAME) (VStr (t_name t))
      \<and> py_eq (fget (en_intent n) F_ARGUMENTS) (VDict args)) (visible_tool_nodes r)"

definition resolve_class_mismatch ::
  "replayer \<Rightarrow> side_effect_class \<Rightarrow> side_effect_class \<Rightarrow> exn + side_effect_class" where
  "resolve_class_mismatch r recorded current =
     (if recorded = current then Inr current
      else if class_rank recorded < class_rank current then Inr (stricter recorded current)
      else if rp_mode r = STRICT_TAPE then Inl ClassDowngradeError
      else if \<not> rp_allow_downgrade r then Inl ClassDowngradeError
      else Inr (stricter recorded current))"

definition extract_substitute :: "effect_node \<Rightarrow> pyval \<times> pyval" where
  "extract_substitute n = (case en_result n of
      None \<Rightarrow> (VNone, VNone) | Some c \<Rightarrow> (fget c F_OUTPUT, fget c F_STATUS))"

definition decision_for :: "replay_operation \<Rightarrow> string \<Rightarrow> side_effect_class \<Rightarrow> side_effect_class
    \<Rightarrow> effect_node option \<Rightarrow> replay_decision" where
  "decision_for op reason declared effective recorded =
     \<lparr>rd_operation = op, rd_reason = reason, rd_declared = declared, rd_effective = effective,
      rd_recorded = recorded,
      rd_output = (if op = Substitute then (case recorded of None \<Rightarrow> VNone | Some n \<Rightarrow> fst (extract_substitute n)) else VNone),
      rd_status = (if op = Substitute then (case recorded of None \<Rightarrow> VNone | Some n \<Rightarrow> snd (extract_substitute n)) else VNone)\<rparr>"

definition present_branch :: "replayer \<Rightarrow> side_effect_class \<Rightarrow> side_effect_class \<Rightarrow> effect_node \<Rightarrow> replay_decision" where
  "present_branch r declared effective n =
     (if rp_mode r = STRICT_TAPE \<or> rp_mode r = BEST_EFFORT
      then decision_for Substitute (''matrix.present.'' @ mode_value (rp_mode r) @ ''.'' @ class_value effective)
        declared effective (Some n)
      else if effective = EXTERNAL_WRITE \<and> \<not> rp_allow_external r
      then decision_for Refuse ''replay:refused_external'' declared effective (Some n)
      else if effective = IDEMPOTENT_WRITE
      then decision_for Substitute ''matrix.present.live_reroute.idem_no_key'' declared effective (Some n)
      else decision_for Re_execute (''matrix.present.live_reroute.'' @ class_value effective)
        declared effective (Some n))"

definition absent_branch :: "replayer \<Rightarrow> side_effect_class \<Rightarrow> side_effect_class \<Rightarrow> replay_decision" where
  "absent_branch r declared effective =
     (if rp_mode r = STRICT_TAPE then decision_for Fail ''matrix.absent.strict_tape'' declared effective None
      else if effective = EXTERNAL_WRITE \<and> \<not> rp_allow_external r
      then decision_for Refuse ''replay:refused_external_unrecorded'' declared effective None
      else decision_for Re_execute (''matrix.absent.'' @ mode_value (rp_mode r) @ ''.'' @ class_value effective)
        declared effective None)"

definition decide :: "replayer \<Rightarrow> tool \<Rightarrow> (pykey \<times> pyval) list \<Rightarrow> string list \<Rightarrow> exn + replay_decision" where
  "decide r t args exclude =
     (let declared = t_side_effect t; recorded = replay_lookup r t args exclude in
      ebind (case recorded of
          None \<Rightarrow> Inr declared
        | Some n \<Rightarrow> (case fget (en_intent n) F_DECLARED_SIDE_EFFECT of
            VNone \<Rightarrow> Inr declared
          | raw \<Rightarrow> ebind (normalize_class raw) (\<lambda>c. resolve_class_mismatch r c declared))) (\<lambda>current.
      let effective = (if t_observability_only t \<and> class_rank READ_ONLY < class_rank current
            then READ_ONLY else current) in
      Inr (case recorded of
          Some n \<Rightarrow> present_branch r declared effective n
        | None \<Rightarrow> absent_branch r declared effective)))"

section \<open>Audit claims\<close>

definition TAG_REPLAY_DECISION :: string where "TAG_REPLAY_DECISION = ''replay_decision''"
definition F_DECISION_OPERATION :: string where "F_DECISION_OPERATION = ''operation''"
definition F_DECISION_REASON :: string where "F_DECISION_REASON = ''reason''"
definition F_DECISION_DECLARED_CLASS :: string where "F_DECISION_DECLARED_CLASS = ''declared_class''"
definition F_DECISION_EFFECTIVE_CLASS :: string where "F_DECISION_EFFECTIVE_CLASS = ''effective_class''"
definition F_DECISION_MODE :: string where "F_DECISION_MODE = ''mode''"
definition F_DECISION_SOURCE_EFFECT_ID :: string where "F_DECISION_SOURCE_EFFECT_ID = ''source_effect_id''"
definition F_DECISION_TARGET_EFFECT_ID :: string where "F_DECISION_TARGET_EFFECT_ID = ''target_effect_id''"
definition F_DECISION_FROZEN_MAX_SEQ :: string where "F_DECISION_FROZEN_MAX_SEQ = ''frozen_max_seq''"
definition F_DECISION_SESSION_INIT :: string where "F_DECISION_SESSION_INIT = ''session_init''"

text \<open>A claim with the dataclass defaults; the id is the one drawn or given.\<close>

definition new_claim :: "string \<Rightarrow> fieldmap \<Rightarrow> string \<Rightarrow> string \<Rightarrow> claim" where
  "new_claim t fs src cid = \<lparr>tag = t, cfields = fs, kind = None, priority = 0, source = src,
     claim_id = cid, seq = - 1\<rparr>"

definition session_init_claim :: "replayer \<Rightarrow> string \<Rightarrow> claim" where
  "session_init_claim r = new_claim TAG_REPLAY_DECISION
     [(F_DECISION_SESSION_INIT, VBool True), (F_DECISION_MODE, VStr (mode_value (rp_mode r))),
      (F_DECISION_FROZEN_MAX_SEQ, case rp_max_seq r of None \<Rightarrow> VNone | Some n \<Rightarrow> VInt n),
      (F_DECISION_OPERATION, VStr ''session_init''), (F_DECISION_REASON, VStr ''replay session preamble'')]
     ''replay_tools.session_init''"

definition decision_claim :: "replayer \<Rightarrow> replay_decision \<Rightarrow> string \<Rightarrow> string \<Rightarrow> claim" where
  "decision_claim r d target = new_claim TAG_REPLAY_DECISION
     [(F_DECISION_SESSION_INIT, VBool False), (F_DECISION_MODE, VStr (mode_value (rp_mode r))),
      (F_DECISION_OPERATION, VStr (operation_value (rd_operation d))), (F_DECISION_REASON, VStr (rd_reason d)),
      (F_DECISION_DECLARED_CLASS, VStr (class_value (rd_declared d))),
      (F_DECISION_EFFECTIVE_CLASS, VStr (class_value (rd_effective d))),
      (F_DECISION_SOURCE_EFFECT_ID, case rd_recorded d of None \<Rightarrow> VNone | Some n \<Rightarrow> fget (en_intent n) F_EFFECT_ID),
      (F_DECISION_TARGET_EFFECT_ID, VStr target)] ''replay_tools.decide''"

section \<open>The decision matrix\<close>

lemma decide_cases:
  assumes "decide r t args exclude = Inr d"
  obtains current effective where
    "effective = (if t_observability_only t \<and> class_rank READ_ONLY < class_rank current then READ_ONLY else current)"
    "class_rank (t_side_effect t) \<le> class_rank current"
    "rd_recorded d = replay_lookup r t args exclude"
    "d = (case replay_lookup r t args exclude of
        Some n \<Rightarrow> present_branch r (t_side_effect t) effective n
      | None \<Rightarrow> absent_branch r (t_side_effect t) effective)"
proof -
  let ?rec = "replay_lookup r t args exclude"
  from assms obtain current where c: "(case ?rec of
          None \<Rightarrow> Inr (t_side_effect t)
        | Some n \<Rightarrow> (case fget (en_intent n) F_DECLARED_SIDE_EFFECT of
            VNone \<Rightarrow> Inr (t_side_effect t)
          | raw \<Rightarrow> ebind (normalize_class raw) (\<lambda>c. resolve_class_mismatch r c (t_side_effect t)))) = Inr current"
    and d: "d = (case ?rec of
          Some n \<Rightarrow> present_branch r (t_side_effect t)
            (if t_observability_only t \<and> class_rank READ_ONLY < class_rank current then READ_ONLY else current) n
        | None \<Rightarrow> absent_branch r (t_side_effect t)
            (if t_observability_only t \<and> class_rank READ_ONLY < class_rank current then READ_ONLY else current))"
    by (auto simp: decide_def Let_def)
  have "resolve_class_mismatch r x y = Inr z \<Longrightarrow> class_rank y \<le> class_rank z" for x y z
    by (auto simp: resolve_class_mismatch_def stricter_def split: if_splits)
  with c have "class_rank (t_side_effect t) \<le> class_rank current"
    by (auto split: option.splits pyval.splits)
  moreover have "rd_recorded d = ?rec"
    by (simp add: d present_branch_def absent_branch_def decision_for_def split: option.split)
  ultimately show thesis using that d by blast
qed

lemma re_executed_class:
  assumes "decide r t args exclude = Inr d" and "rd_operation d = Re_execute"
  shows "rp_mode r \<noteq> STRICT_TAPE \<and> (rd_effective d = EXTERNAL_WRITE \<longrightarrow> rp_allow_external r)
    \<and> (rp_mode r = BEST_EFFORT \<longrightarrow> replay_lookup r t args exclude = None)"
  using assms(1)
proof (rule decide_cases)
  fix current effective
  assume "d = (case replay_lookup r t args exclude of
      Some n \<Rightarrow> present_branch r (t_side_effect t) effective n
    | None \<Rightarrow> absent_branch r (t_side_effect t) effective)"
  then show ?thesis using assms(2)
    by (cases "replay_lookup r t args exclude")
      (auto simp: present_branch_def absent_branch_def decision_for_def split: if_splits)
qed

lemma replay_lookup_Some:
  assumes "replay_lookup r t args exclude = Some n"
  shows "n \<in> set (visible_tool_nodes r)" "en_id n \<notin> set exclude"
  using assms by (auto simp: replay_lookup_def find_Some_iff)

end
