(* ===== verification/ToolHarness.thy ===== *)
theory ToolHarness
  imports Replay
begin

text \<open>
  Guards and the tool harness (\<open>lipas/guard.py\<close>, \<open>lipas/tool_harness.py\<close>): one tool call
  as a sequence of folded claims, from the pre-flight gates over the intent to the result
  and the spend. Identifiers, digests, the monotonic clock and \<open>str\<close> are the environment.
  The text of a tool result is kept as the pieces the f-string is made of.
\<close>

section \<open>Guards\<close>

record verdict =
  gv_allowed :: bool
  gv_reason :: string
  gv_detail :: fieldmap

definition make_verdict :: "bool \<Rightarrow> string \<Rightarrow> fieldmap \<Rightarrow> exn + verdict" where
  "make_verdict allowed reason detail =
     (if allowed \<and> reason \<noteq> [] \<or> \<not> allowed \<and> reason = [] then Inl ValueError
      else Inr \<lparr>gv_allowed = allowed, gv_reason = reason, gv_detail = detail\<rparr>)"

definition verdict_allow :: verdict where
  "verdict_allow = \<lparr>gv_allowed = True, gv_reason = [], gv_detail = []\<rparr>"

definition verdict_deny :: "string \<Rightarrow> fieldmap \<Rightarrow> exn + verdict" where
  "verdict_deny reason detail = (if reason = [] then Inl ValueError else make_verdict False reason detail)"

text \<open>What a guard's function or resolver came back with.\<close>

datatype guard_answer = Verdict verdict | NotVerdict | TimedOut | GuardRaised exn

definition callable_check :: "guard_answer \<Rightarrow> exn + verdict" where
  "callable_check a = (case a of Verdict v \<Rightarrow> Inr v | GuardRaised e \<Rightarrow> Inl e | _ \<Rightarrow> Inl TypeError)"

definition approval_check :: "rat option \<Rightarrow> guard_answer option \<Rightarrow> exn + verdict" where
  "approval_check timeout resolver = (case resolver of
      None \<Rightarrow> verdict_deny ''no_resolver'' [(''hint'', VStr ''HumanApprovalGuard requires resolver=...'')]
    | Some TimedOut \<Rightarrow> verdict_deny ''approval_timeout''
        [(''timeout_s'', case timeout of None \<Rightarrow> VNone | Some t \<Rightarrow> VFloat (Fin t))]
    | Some (Verdict v) \<Rightarrow> Inr v
    | Some (GuardRaised e) \<Rightarrow> Inl e
    | Some NotVerdict \<Rightarrow> Inl TypeError)"

definition approval_timeout :: "pyval \<Rightarrow> exn + rat option" where
  "approval_timeout v = (case v of VNone \<Rightarrow> Inr None
     | _ \<Rightarrow> (case finite_float v of Some r \<Rightarrow> if 0 < r then Inr (Some r) else Inl ValueError
         | None \<Rightarrow> Inl ValueError))"

section \<open>Harness state\<close>

type_synonym args = "(pykey \<times> pyval) list"
type_synonym spend = "(string \<times> rat) list"

record guard =
  g_name :: string
  g_check :: "nat \<Rightarrow> tool \<Rightarrow> args \<Rightarrow> guard_answer"

text \<open>The text of a tool result.\<close>

datatype content =
    Plain string | Rendered pyval | ErrorText pyval pyval | OutputInvalid string
  | UnknownTool pyval "pyval list" | AdmissionDenied string | SchemaViolation pyval
  | GuardDenied pyval pyval | EstimateInvalid pyval pyval
  | BudgetExhausted pyval pyval pyval pyval | RecordedRejection pyval | AlreadyReconciled

record tool_result =
  tr_tool_use_id :: string
  tr_content :: content
  tr_is_error :: bool

text \<open>
  The harness and what it is configured with. \<open>hc_budgets\<close> are the budgets of the first
  capability row of the row set, \<open>hc_effect_row\<close> whether it holds an effect row.
\<close>

record harness_config =
  hc_tools :: tool_registry
  hc_guards :: "guard list"
  hc_replayer :: "replayer option"
  hc_budgets :: "budgets option"
  hc_effect_row :: bool
  hc_resolver :: "(tool \<Rightarrow> args \<Rightarrow> bool \<times> string \<times> string + args) option"
  hc_sanitizer :: "(pyval \<Rightarrow> bool \<times> string \<times> string + pyval) option"

text \<open>
  Moments are counted by the random ids drawn so far. \<open>he_uuid n\<close> is the \<open>n\<close>-th of them,
  \<open>he_wall n\<close> the seconds the tool that started at moment \<open>n\<close> took, \<open>he_describe\<close> the
  class name and the text of an exception, \<open>he_elements\<close> a set's elements in the order of
  their \<open>repr\<close>.
\<close>

record harness_env =
  he_uuid :: "nat \<Rightarrow> string"
  he_digest :: "string \<Rightarrow> string"
  he_wall :: "nat \<Rightarrow> rat"
  he_str :: "pyval \<Rightarrow> string"
  he_describe :: "exn \<Rightarrow> string \<times> string"
  he_elements :: "pykey fset \<Rightarrow> pykey list"

text \<open>\<open>th_runs\<close> records the handler runs, which the code does not: effect id, tool, arguments.\<close>

record harness =
  th_rowset :: rowset
  th_started :: bool
  th_consumed :: "string list"
  th_drawn :: nat
  th_runs :: "(string \<times> string \<times> args) list"

type_synonym 'a harness_op = "harness \<Rightarrow> (exn + 'a) \<times> harness"

text \<open>Fold a claim; its id is drawn unless it is given, the id of the merged claim is drawn.\<close>

definition th_fold :: "harness_env \<Rightarrow> string option \<Rightarrow> (string \<Rightarrow> claim) \<Rightarrow> unit harness_op" where
  "th_fold env cid mk h =
     (let c = mk (case cid of None \<Rightarrow> take 8 (he_uuid env (th_drawn h)) | Some i \<Rightarrow> i)
      in case rowset_fold (take 8 (he_uuid env (th_drawn h + 1))) c (th_rowset h) of
        (r, rs) \<Rightarrow> (case r of Inl e \<Rightarrow> Inl e | Inr m \<Rightarrow> Inr (),
          h\<lparr>th_rowset := rs, th_drawn := th_drawn h + 2\<rparr>))"

definition th_store :: "harness \<Rightarrow> store" where
  "th_store h = rs_store (th_rowset h)"

section \<open>Spend\<close>

definition spend_item :: "spend \<Rightarrow> pykey \<times> pyval \<Rightarrow> exn + spend" where
  "spend_item acc kv = (case fst kv of
      KStr b \<Rightarrow> if strip b = [] then Inl ValueError
        else (case finite_float (snd kv) of
            None \<Rightarrow> Inl ValueError
          | Some r \<Rightarrow> if r < 0 then Inl ValueError
              else if strip b \<in> fst ` set acc then Inl ValueError
              else Inr (acc @ [(strip b, r)]))
    | _ \<Rightarrow> Inl ValueError)"

definition normalize_spend :: "pyval \<Rightarrow> exn + spend" where
  "normalize_spend v = (case v of VDict d \<Rightarrow> efoldl spend_item [] d | _ \<Rightarrow> Inl TypeError)"

definition spend_dict :: "spend \<Rightarrow> pyval" where
  "spend_dict sp = vobj (map (\<lambda>(b, r). (b, VFloat (Fin r))) sp)"

definition estimate_bucket :: "tool \<Rightarrow> spend \<Rightarrow> pykey \<times> pyval \<Rightarrow> string + spend" where
  "estimate_bucket t upper kv = (case fst kv of
      KStr b \<Rightarrow>
        if strip b = [] then Inl ''ValueError: invalid bucket name''
        else if strip b \<notin> set (t_buckets t) then Inl ''ValueError: estimate returned undeclared bucket''
        else (case finite_float (snd kv) of
            None \<Rightarrow> Inl ''ValueError: estimate must be a finite non-negative number''
          | Some r \<Rightarrow> if r < 0 then Inl ''ValueError: estimate must be a finite non-negative number''
              else if strip b = ''tool_calls'' then Inr upper
              else if strip b \<in> fst ` set upper then Inl ''ValueError: estimate returned duplicate bucket''
              else Inr (upper @ [(strip b, r)]))
    | _ \<Rightarrow> Inl ''ValueError: invalid bucket name'')"

text \<open>\<open>_estimate_dict\<close>: the upper bound of the spend, or the text of a rejection.\<close>

definition estimate_dict :: "tool \<Rightarrow> args \<Rightarrow> string + spend" where
  "estimate_dict t args = (case t_estimate t of
      None \<Rightarrow> Inr [(''tool_calls'', 1)]
    | Some f \<Rightarrow> (case f args of
        Inl msg \<Rightarrow> Inl msg
      | Inr (VDict d) \<Rightarrow> efoldl (estimate_bucket t) [(''tool_calls'', 1)] d
      | Inr v \<Rightarrow> Inl ''TypeError: estimate must return a mapping of bucket names to amounts''))"

definition exceeds :: "rat \<Rightarrow> rat \<Rightarrow> rat \<Rightarrow> bool" where
  "exceeds current amount limit = (case f_add current amount of Fin t \<Rightarrow> limit < t | _ \<Rightarrow> True)"

record budget_rejection =
  br_bucket :: string
  br_spent :: rat
  br_estimate :: rat
  br_limit :: rat

fun first_exhausted :: "budgets \<Rightarrow> store \<Rightarrow> spend \<Rightarrow> exn + budget_rejection option" where
  "first_exhausted budgets s [] = Inr None"
| "first_exhausted budgets s ((b, est) # rest) = (case map_of budgets b of
      None \<Rightarrow> first_exhausted budgets s rest
    | Some limit \<Rightarrow> ebind (spent s b) (\<lambda>current.
        if exceeds current est limit
        then Inr (Some \<lparr>br_bucket = b, br_spent = current, br_estimate = est, br_limit = limit\<rparr>)
        else first_exhausted budgets s rest))"

definition preflight_budget :: "harness_config \<Rightarrow> store \<Rightarrow> spend \<Rightarrow> exn + budget_rejection option" where
  "preflight_budget cfg s est = (case hc_budgets cfg of
      None \<Rightarrow> Inr None
    | Some budgets \<Rightarrow> if budgets = [] then Inr None
        else ebind (capability_project budgets s) (\<lambda>_. first_exhausted budgets s est))"

definition compute_spend :: "spend \<Rightarrow> rat \<Rightarrow> exn + spend" where
  "compute_spend est wall = ebind (guard_or ValueError (0 \<le> wall)) (\<lambda>_.
     ebind (normalize_spend (spend_dict est)) (\<lambda>sp.
     Inr (dict_put ''wall_seconds'' wall (dict_put ''tool_calls'' 1 sp))))"

definition spend_claim_id :: "harness_env \<Rightarrow> string \<Rightarrow> string \<Rightarrow> string" where
  "spend_claim_id env eid bucket =
     ''spend_'' @ take 24 (he_digest env (''tool-spend:'' @ eid @ '':'' @ bucket))"

definition spend_recorded :: "store \<Rightarrow> string \<Rightarrow> bool" where
  "spend_recorded s cid \<longleftrightarrow> cid \<in> claim_id ` (set (store_filter (Some TAG_RESOURCE_SPENT) None None s)
     \<union> set (store_filter (Some TAG_BUDGET_OVERRUN) None None s))"

text \<open>One bucket of \<open>_fold_spend\<close>; \<open>before\<close> is the store the projection was taken from.\<close>

definition fold_bucket ::
  "harness_config \<Rightarrow> harness_env \<Rightarrow> string \<Rightarrow> store \<Rightarrow> string \<times> rat \<Rightarrow> unit harness_op" where
  "fold_bucket cfg env eid before item = (case item of (b, amount) \<Rightarrow>
     if amount \<le> 0 then sret ()
     else sbind (sget th_store) (\<lambda>s.
       let cid = spend_claim_id env eid b in
       if spend_recorded s cid then sret ()
       else sbind (slift (case Option.bind (hc_budgets cfg) (\<lambda>bs. map_of bs b) of
            None \<Rightarrow> Inr False
          | Some limit \<Rightarrow> ebind (spent before b) (\<lambda>current. Inr (exceeds current amount limit)))) (\<lambda>overrun.
         th_fold env (Some cid) (new_claim (if overrun then TAG_BUDGET_OVERRUN else TAG_RESOURCE_SPENT)
           [(F_BUCKET, VStr b), (F_AMOUNT, VFloat (Fin amount)), (F_EFFECT_ID, VStr eid)]
           ''tool_harness.call''))))"

fun fold_buckets :: "harness_config \<Rightarrow> harness_env \<Rightarrow> string \<Rightarrow> store \<Rightarrow> spend \<Rightarrow> unit harness_op" where
  "fold_buckets cfg env eid before [] = sret ()"
| "fold_buckets cfg env eid before (item # rest) =
     sbind (fold_bucket cfg env eid before item) (\<lambda>_. fold_buckets cfg env eid before rest)"

definition fold_spend :: "harness_config \<Rightarrow> harness_env \<Rightarrow> string \<Rightarrow> spend \<Rightarrow> unit harness_op" where
  "fold_spend cfg env eid sp =
     sbind (slift (normalize_spend (spend_dict sp))) (\<lambda>normalized.
     if normalized = [] then sret ()
     else sbind (sget th_store) (\<lambda>s.
       sbind (slift (case hc_budgets cfg of None \<Rightarrow> Inr VNone | Some bs \<Rightarrow> capability_project bs s)) (\<lambda>_.
       fold_buckets cfg env eid s normalized)))"

section \<open>Claims of a call\<close>

definition opt_field :: "string \<Rightarrow> string option \<Rightarrow> fieldmap" where
  "opt_field k v = (case v of None \<Rightarrow> [] | Some s \<Rightarrow> [(k, VStr s)])"

definition tool_intent_fields ::
  "string \<Rightarrow> string \<Rightarrow> string \<Rightarrow> args \<Rightarrow> string option \<Rightarrow> string option \<Rightarrow> proposal option \<Rightarrow> fieldmap" where
  "tool_intent_fields eid name declared args compensates caused_by prop =
     dict_update ([(F_EFFECT_ID, VStr eid), (F_KIND, VStr ''tool_call''), (F_TOOL_NAME, VStr name),
       (F_ARGUMENTS, VDict args), (F_DECLARED_SIDE_EFFECT, VStr declared)]
       @ opt_field F_COMPENSATES compensates @ opt_field F_CAUSED_BY caused_by)
       (case prop of None \<Rightarrow> [] | Some p \<Rightarrow> proposal_fields p)"

definition fold_intent ::
  "harness_env \<Rightarrow> string \<Rightarrow> tool \<Rightarrow> args \<Rightarrow> string option \<Rightarrow> string option \<Rightarrow> proposal option \<Rightarrow> unit harness_op" where
  "fold_intent env eid t args compensates caused_by prop =
     th_fold env None (new_claim TAG_EFFECT_INTENT
       (tool_intent_fields eid (t_name t) (class_value (t_side_effect t)) args compensates caused_by prop)
       ''tool_harness.call'')"

definition fold_intent_unknown ::
  "harness_env \<Rightarrow> string \<Rightarrow> string \<Rightarrow> args \<Rightarrow> string option \<Rightarrow> string option \<Rightarrow> proposal option \<Rightarrow> unit harness_op" where
  "fold_intent_unknown env eid name args compensates caused_by prop =
     th_fold env None (new_claim TAG_EFFECT_INTENT
       (tool_intent_fields eid name ''external_write'' args compensates caused_by prop)
       ''tool_harness.call'')"

definition fold_result ::
  "harness_env \<Rightarrow> string \<Rightarrow> tool \<Rightarrow> pyval \<Rightarrow> string \<Rightarrow> fieldmap option \<Rightarrow> spend \<Rightarrow> unit harness_op" where
  "fold_result env eid t output status err sp =
     th_fold env None (new_claim TAG_EFFECT_RESULT
       ([(F_EFFECT_ID, VStr eid), (F_KIND, VStr ''tool_call''), (F_ATTEMPTS, VInt 1),
         (F_STATUS, VStr status), (F_OUTPUT, output),
         (F_SIDE_EFFECT, VStr (class_value (t_side_effect t))), (F_SPEND, spend_dict sp)]
        @ (case err of Some d \<Rightarrow> if status = ''error'' then [(F_ERROR, vobj d)] else [] | None \<Rightarrow> []))
       ''tool_harness.call'')"

text \<open>The rejections, as the reason and the detail their claim carries.\<close>

datatype rejection =
    UnknownToolRejection string "string list"
  | SchemaRejection string string
  | ToolGuardRejection string verdict
  | ToolBudgetRejection budget_rejection
  | ToolEstimateRejection string string

fun rejection_reason :: "rejection \<Rightarrow> string" where
  "rejection_reason (UnknownToolRejection n av) = ''unknown_tool''"
| "rejection_reason (SchemaRejection n d) = ''schema_violation''"
| "rejection_reason (ToolGuardRejection g v) = ''guard:'' @ gv_reason v"
| "rejection_reason (ToolBudgetRejection b) = ''budget_exhausted''"
| "rejection_reason (ToolEstimateRejection n d) = ''estimate_invalid''"

fun rejection_detail :: "rejection \<Rightarrow> fieldmap" where
  "rejection_detail (UnknownToolRejection n av) = [(''tool_name'', VStr n), (''available'', text_list av)]"
| "rejection_detail (SchemaRejection n d) = [(''tool_name'', VStr n), (''detail'', VStr d)]"
| "rejection_detail (ToolGuardRejection g v) =
     dict_update [(''guard'', VStr g), (''reason'', VStr (gv_reason v))] (gv_detail v)"
| "rejection_detail (ToolBudgetRejection b) = [(''bucket'', VStr (br_bucket b)),
     (''spent'', VFloat (Fin (br_spent b))), (''estimate'', VFloat (Fin (br_estimate b))),
     (''limit'', VFloat (Fin (br_limit b)))]"
| "rejection_detail (ToolEstimateRejection n d) = [(''tool_name'', VStr n), (''detail'', VStr d)]"

definition fold_rejected :: "harness_env \<Rightarrow> string \<Rightarrow> string \<Rightarrow> fieldmap \<Rightarrow> string \<Rightarrow> unit harness_op" where
  "fold_rejected env eid reason detail src =
     th_fold env None (new_claim TAG_EFFECT_REJECTED
       [(F_EFFECT_ID, VStr eid), (F_KIND, VStr ''tool_call''), (F_REASON, VStr reason), (F_DETAIL, vobj detail)] src)"

definition fold_rejection :: "harness_env \<Rightarrow> string \<Rightarrow> rejection \<Rightarrow> unit harness_op" where
  "fold_rejection env eid r =
     fold_rejected env eid (rejection_reason r) (rejection_detail r) ''tool_harness.call''"

definition fold_admission_rejection :: "harness_env \<Rightarrow> string \<Rightarrow> decision \<Rightarrow> unit harness_op" where
  "fold_admission_rejection env eid d =
     fold_rejected env eid (ed_reason d)
       (dict_update [(''policy'', VStr (ed_policy d))]
         (case str_keys (ed_detail d) of Some fs \<Rightarrow> fs | None \<Rightarrow> [])) ''runtime.admission''"

section \<open>Helpers\<close>

definition proposal_risk_rank :: "string \<Rightarrow> nat option" where
  "proposal_risk_rank v = map_of [(''none'', 0), (''read'', 1), (''read_only'', 1), (''idempotent_write'', 2),
     (''external_write'', 3), (''destructive'', 3), (''high'', 3)] (ascii_lower (strip v))"

definition tool_side_effect_rank :: "string \<Rightarrow> nat" where
  "tool_side_effect_rank v = (case map_of [(''pure'', 0), (''read_only'', 1), (''idempotent_write'', 2),
     (''external_write'', 3)] v of Some n \<Rightarrow> n | None \<Rightarrow> 3)"

definition stringify :: "pyval \<Rightarrow> content" where
  "stringify v = (case v of VStr s \<Rightarrow> Plain s | VNone \<Rightarrow> Plain [] | _ \<Rightarrow> Rendered v)"

fun key_value :: "pykey \<Rightarrow> pyval" where
  "key_value KNone = VNone"
| "key_value (KStr s) = VStr s"
| "key_value (KInt i) = VInt i"
| "key_value (KFloat x) = VFloat x"
| "key_value (KTup ks) = VTuple (map key_value ks)"

fun finite_key :: "pykey \<Rightarrow> bool" where
  "finite_key (KFloat x) = (case x of Fin r \<Rightarrow> True | _ \<Rightarrow> False)"
| "finite_key (KTup ks) = list_all finite_key ks"
| "finite_key k = True"

text \<open>\<open>_prepare_effect_output\<close>: containers copied, sets as lists in the order of \<open>repr\<close>.\<close>

fun prepare_output :: "harness_env \<Rightarrow> pyval \<Rightarrow> exn + pyval"
  and prepare_list :: "harness_env \<Rightarrow> pyval list \<Rightarrow> exn + pyval list"
  and prepare_items :: "harness_env \<Rightarrow> (pykey \<times> pyval) list \<Rightarrow> exn + (pykey \<times> pyval) list"
where
  "prepare_output env (VFloat x) = (case x of Fin r \<Rightarrow> Inr (VFloat x) | _ \<Rightarrow> Inl ValueError)"
| "prepare_output env VNaN = Inl ValueError"
| "prepare_output env (VList xs) = ebind (prepare_list env xs) (\<lambda>ys. Inr (VList ys))"
| "prepare_output env (VTuple xs) = ebind (prepare_list env xs) (\<lambda>ys. Inr (VTuple ys))"
| "prepare_output env (VDict d) = ebind (prepare_items env d) (\<lambda>e. Inr (VDict e))"
| "prepare_output env (VSet s) = (if list_all finite_key (he_elements env s)
     then Inr (VList (map key_value (he_elements env s))) else Inl ValueError)"
| "prepare_output env v = Inr v"
| "prepare_list env [] = Inr []"
| "prepare_list env (x # xs) = ebind (prepare_output env x) (\<lambda>y. ebind (prepare_list env xs) (\<lambda>ys. Inr (y # ys)))"
| "prepare_items env [] = Inr []"
| "prepare_items env (kv # d) = (case fst kv of
      KStr k \<Rightarrow> ebind (prepare_output env (snd kv)) (\<lambda>y. ebind (prepare_items env d) (\<lambda>e. Inr ((KStr k, y) # e)))
    | _ \<Rightarrow> Inl ValueError)"

fun guard_gate :: "nat \<Rightarrow> guard list \<Rightarrow> tool \<Rightarrow> args \<Rightarrow> exn + rejection option" where
  "guard_gate n [] t args = Inr None"
| "guard_gate n (g # gs) t args = (case g_check g n t args of
      Verdict v \<Rightarrow> if gv_allowed v then guard_gate n gs t args else Inr (Some (ToolGuardRejection (g_name g) v))
    | GuardRaised e \<Rightarrow> Inl e
    | _ \<Rightarrow> Inl TypeError)"

end
