(* ===== verification/ToolHarnessCall.thy ===== *)
theory ToolHarnessCall
  imports ToolHarness
begin

text \<open>
  One tool call (\<open>ToolHarness.call\<close> in \<open>lipas/tool_harness.py\<close>), from the identity of the
  effect over recovery, the gates and the replay decision to execution and accounting, and
  the operations on the recorded tape: \<open>observation\<close> and \<open>reconcile_orphan\<close>.
\<close>

section \<open>Identity of a call\<close>

record call_args =
  ca_tool_name :: string
  ca_arguments :: args
  ca_effect_id :: "string option"
  ca_tool_use_id :: "string option"
  ca_compensates :: "string option"
  ca_caused_by :: "string option"
  ca_proposal :: "proposal option"
  ca_admission :: "decision option"

record call_identity =
  ci_name :: string
  ci_eid :: string
  ci_result_id :: string
  ci_caused_by :: "string option"

text \<open>The argument checks of \<open>call\<close>, and the effect id it works under; \<open>uuid\<close> is the one drawn.\<close>

definition identify_call :: "harness_env \<Rightarrow> string \<Rightarrow> call_args \<Rightarrow> exn + call_identity" where
  "identify_call env uuid a =
     ebind (effect_text (ca_tool_name a)) (\<lambda>name.
     ebind (effect_text_opt (ca_effect_id a)) (\<lambda>given.
     ebind (effect_text_opt (ca_tool_use_id a)) (\<lambda>use.
     let inherited = Option.bind (ca_proposal a) ep_caused_by;
         pid = map_option ep_effect_id (ca_proposal a);
         pcid = map_option (\<lambda>p. proposal_claim_id (he_digest env) p TOOL_CALL) (ca_proposal a);
         eid = (case pcid of Some i \<Rightarrow> i | None \<Rightarrow> (case given of Some i \<Rightarrow> i | None \<Rightarrow> ''tool_'' @ take 12 uuid))
     in
     ebind (guard_or ValueError (inherited = None \<or> ca_caused_by a = None \<or> inherited = ca_caused_by a)) (\<lambda>_.
     ebind (guard_or ValueError (given = None \<or> pcid = None \<or> given = pid \<or> given = pcid)) (\<lambda>_.
     Inr \<lparr>ci_name = name, ci_eid = eid, ci_result_id = (case use of Some u \<Rightarrow> u | None \<Rightarrow> eid),
       ci_caused_by = (case ca_caused_by a of None \<Rightarrow> inherited | c \<Rightarrow> c)\<rparr>)))))"

definition result_of :: "string \<Rightarrow> content \<Rightarrow> bool \<Rightarrow> tool_result" where
  "result_of rid content err = \<lparr>tr_tool_use_id = rid, tr_content = content, tr_is_error = err\<rparr>"

section \<open>Recovery\<close>

definition item_of :: "pyval \<Rightarrow> string \<Rightarrow> pyval" where
  "item_of v k = (case v of VDict d \<Rightarrow> dict_get VNone d (KStr k) | _ \<Rightarrow> VNone)"

definition recorded_content :: "claim \<Rightarrow> content" where
  "recorded_content r =
     (let err = fget r F_ERROR in
      if fget r F_STATUS \<noteq> VStr ''error'' then stringify (fget r F_OUTPUT)
      else if item_of err ''exception'' = VNone \<or> item_of err ''message'' = VNone then stringify (fget r F_OUTPUT)
      else ErrorText (item_of err ''exception'') (item_of err ''message''))"

text \<open>The values a \<open>for\<close> loop over a recorded field sees.\<close>

definition iterate :: "harness_env \<Rightarrow> pyval \<Rightarrow> exn + pyval list" where
  "iterate env v = (case v of VList xs \<Rightarrow> Inr xs | VTuple xs \<Rightarrow> Inr xs
     | VStr s \<Rightarrow> Inr (map (\<lambda>c. VStr [c]) s) | VDict d \<Rightarrow> Inr (map (key_value \<circ> fst) d)
     | VSet s \<Rightarrow> Inr (map key_value (he_elements env s)) | _ \<Rightarrow> Inl TypeError)"

definition recovered_rejection_content :: "harness_env \<Rightarrow> claim \<Rightarrow> exn + content" where
  "recovered_rejection_content env r =
     (let reason = fget r F_REASON; d = fget r F_DETAIL in
      if reason = VStr ''unknown_tool'' then
        ebind (iterate env (case d of VDict e \<Rightarrow> dict_get (VTuple []) e (KStr ''available'') | _ \<Rightarrow> VTuple [])) (\<lambda>av.
        Inr (UnknownTool (item_of d ''tool_name'') av))
      else if reason = VStr ''schema_violation'' then Inr (SchemaViolation (item_of d ''detail''))
      else if (case text_of reason of Some s \<Rightarrow> starts_with s ''guard:'' | None \<Rightarrow> False)
        then Inr (GuardDenied (item_of d ''guard'') (item_of d ''reason''))
      else if reason = VStr ''estimate_invalid''
        then Inr (EstimateInvalid (item_of d ''tool_name'') (item_of d ''detail''))
      else if reason = VStr ''budget_exhausted'' then Inr (BudgetExhausted (item_of d ''bucket'')
        (item_of d ''spent'') (item_of d ''estimate'') (item_of d ''limit''))
      else Inr (RecordedRejection (if truthy reason then reason else VStr ''rejected'')))"

text \<open>The spend of a recorded result.\<close>

definition recorded_spend :: "claim \<Rightarrow> exn + spend" where
  "recorded_spend r = (case dict_get (VDict []) (cfields r) F_SPEND of
      VDict d \<Rightarrow> (case normalize_spend (VDict d) of Inl e \<Rightarrow> Inl OrphanedEffectError | Inr sp \<Rightarrow> Inr sp)
    | _ \<Rightarrow> Inl TypeError)"

definition provenance_kept :: "claim \<Rightarrow> proposal option \<Rightarrow> bool" where
  "provenance_kept i prop \<longleftrightarrow> (case prop of None \<Rightarrow> True
     | Some p \<Rightarrow> (\<forall>k \<in> set (map fst (proposal_fields p) @ [F_CAUSED_BY]).
         py_eq (fget i k) (dict_get VNone (proposal_fields p) k)))"

definition same_arguments :: "tool_registry \<Rightarrow> claim \<Rightarrow> string \<Rightarrow> args \<Rightarrow> bool" where
  "same_arguments reg i name as =
     (py_eq (fget i F_ARGUMENTS) (VDict as)
      \<or> (case tools_get reg name of Inl e \<Rightarrow> False
         | Inr t \<Rightarrow> (case t_bind t as of Inl m \<Rightarrow> False | Inr bound \<Rightarrow> py_eq (fget i F_ARGUMENTS) (VDict bound))))"

definition recovery_check ::
  "tool_registry \<Rightarrow> effect_node \<Rightarrow> call_identity \<Rightarrow> args \<Rightarrow> proposal option \<Rightarrow> exn + unit" where
  "recovery_check reg n ci as prop =
     ebind (guard_or ValueError (en_kind n = TOOL_CALL)) (\<lambda>_.
     ebind (guard_or ValueError (provenance_kept (en_intent n) prop)) (\<lambda>_.
     ebind (guard_or ValueError (py_eq (fget (en_intent n) F_CAUSED_BY) (text_or_none (ci_caused_by ci)))) (\<lambda>_.
     ebind (guard_or ValueError (py_eq (fget (en_intent n) F_TOOL_NAME) (VStr (ci_name ci)))) (\<lambda>_.
     guard_or ValueError (same_arguments reg (en_intent n) (ci_name ci) as)))))"

definition recover_existing ::
  "harness_config \<Rightarrow> harness_env \<Rightarrow> call_identity \<Rightarrow> args \<Rightarrow> proposal option \<Rightarrow> tool_result option harness_op" where
  "recover_existing cfg env ci as prop =
     (if \<not> hc_effect_row cfg then sret None
      else sbind (sget th_store) (\<lambda>s. case map_of (ew_nodes (effect_project s)) (ci_eid ci) of
          None \<Rightarrow> sret None
        | Some n \<Rightarrow> sbind (slift (recovery_check (hc_tools cfg) n ci as prop)) (\<lambda>_.
            case en_result n of
              Some r \<Rightarrow> sbind (slift (recorded_spend r)) (\<lambda>sp. sbind (fold_spend cfg env (ci_eid ci) sp) (\<lambda>_.
                sret (Some (result_of (ci_result_id ci) (recorded_content r) (fget r F_STATUS = VStr ''error'')))))
            | None \<Rightarrow> (case en_rejection n of
                Some r \<Rightarrow> sbind (slift (recovered_rejection_content env r)) (\<lambda>c.
                  sret (Some (result_of (ci_result_id ci) c True)))
              | None \<Rightarrow> slift (Inl OrphanedEffectError)))))"

section \<open>Replay\<close>

definition restore_consumed :: "unit harness_op" where
  "restore_consumed = sput (\<lambda>h. h\<lparr>th_consumed := foldl (\<lambda>seen c. case fget c F_DECISION_SOURCE_EFFECT_ID of
       VStr e \<Rightarrow> List.insert e seen | _ \<Rightarrow> seen) (th_consumed h)
     (store_filter (Some TAG_REPLAY_DECISION) None None (th_store h))\<rparr>)"

definition replayed_spend :: spend where
  "replayed_spend = [(''tool_calls'', 1), (''wall_seconds'', 0)]"

definition replay_substitute ::
  "harness_config \<Rightarrow> harness_env \<Rightarrow> call_identity \<Rightarrow> tool \<Rightarrow> call_args \<Rightarrow> replay_decision \<Rightarrow> tool_result harness_op" where
  "replay_substitute cfg env ci t a d = (case Option.bind (rd_recorded d) en_result of
      None \<Rightarrow> slift (Inl RuntimeError)
    | Some r \<Rightarrow>
        sbind (fold_intent env (ci_eid ci) t (ca_arguments a) (ca_compensates a) (ci_caused_by ci) (ca_proposal a)) (\<lambda>_.
        sbind (th_fold env None (new_claim TAG_EFFECT_RESULT
          (dict_put F_SPEND (spend_dict replayed_spend) (dict_put F_EFFECT_ID (VStr (ci_eid ci)) (cfields r)))
          ''tool_harness.replay.substitute'')) (\<lambda>_.
        sbind (fold_spend cfg env (ci_eid ci) replayed_spend) (\<lambda>_.
        sret (result_of (ci_result_id ci) (recorded_content r) (fget r F_STATUS = VStr ''error''))))))"

definition replay_refuse ::
  "harness_env \<Rightarrow> replayer \<Rightarrow> call_identity \<Rightarrow> tool \<Rightarrow> call_args \<Rightarrow> replay_decision \<Rightarrow> tool_result harness_op" where
  "replay_refuse env r ci t a d =
     sbind (fold_intent env (ci_eid ci) t (ca_arguments a) (ca_compensates a) (ci_caused_by ci) (ca_proposal a)) (\<lambda>_.
     sbind (fold_rejected env (ci_eid ci) (rd_reason d)
       [(''declared_class'', VStr (class_value (rd_declared d))), (''effective_class'', VStr (class_value (rd_effective d))),
        (''mode'', VStr (mode_value (rp_mode r))), (''tool_name'', VStr (t_name t))]
       ''tool_harness.replay.refuse'') (\<lambda>_.
     slift (Inl ReplayRefused)))"

text \<open>The replay decision of a call: a result or an exception ends it, \<open>None\<close> runs the tool.\<close>

definition replay_step ::
  "harness_config \<Rightarrow> harness_env \<Rightarrow> call_identity \<Rightarrow> tool \<Rightarrow> call_args \<Rightarrow> tool_result option harness_op" where
  "replay_step cfg env ci t a = (case hc_replayer cfg of
      None \<Rightarrow> sret None
    | Some r \<Rightarrow>
        sbind restore_consumed (\<lambda>_.
        sbind (sget th_started) (\<lambda>started.
        sbind (if started then sret ()
          else sbind (th_fold env None (session_init_claim r)) (\<lambda>_. sput (\<lambda>h. h\<lparr>th_started := True\<rparr>))) (\<lambda>_.
        sbind (sget th_consumed) (\<lambda>consumed.
        sbind (slift (decide r t (ca_arguments a) consumed)) (\<lambda>d.
        sbind (sput (\<lambda>h. h\<lparr>th_consumed := (case rd_recorded d of None \<Rightarrow> th_consumed h
          | Some n \<Rightarrow> List.insert (en_id n) (th_consumed h))\<rparr>)) (\<lambda>_.
        sbind (th_fold env None (decision_claim r d (ci_eid ci))) (\<lambda>_.
        case rd_operation d of
          Fail \<Rightarrow> slift (Inl ReplayMissing)
        | Substitute \<Rightarrow> sbind (replay_substitute cfg env ci t a d) (\<lambda>x. sret (Some x))
        | Refuse \<Rightarrow> sbind (replay_refuse env r ci t a d) (\<lambda>x. sret (Some x))
        | Re_execute \<Rightarrow> sret None))))))))"

section \<open>Execution\<close>

text \<open>An \<open>except Exception\<close> clause does not catch interrupts and cancellation.\<close>

definition is_exception :: "exn \<Rightarrow> bool" where
  "is_exception e = (case e of Interrupt \<Rightarrow> False | Cancelled \<Rightarrow> False | RunCancelled \<Rightarrow> False | Foreign b n m \<Rightarrow> b | _ \<Rightarrow> True)"

text \<open>Resolve the arguments, await the handler, sanitize what it returned.\<close>

definition attempt_tool :: "harness_config \<Rightarrow> string \<Rightarrow> tool \<Rightarrow> args \<Rightarrow> tool_outcome harness_op" where
  "attempt_tool cfg eid t as =
     (case (case hc_resolver cfg of None \<Rightarrow> Inr as | Some f \<Rightarrow> f t as) of
        Inl (ordinary, name, msg) \<Rightarrow> sret (Raised ordinary name msg)
      | Inr resolved \<Rightarrow>
          sbind (sget th_drawn) (\<lambda>now.
          sbind (sput (\<lambda>h. h\<lparr>th_runs := th_runs h @ [(eid, t_name t, resolved)]\<rparr>)) (\<lambda>_.
          sret (case t_run t now resolved of
              Returned v \<Rightarrow> (case (case hc_sanitizer cfg of None \<Rightarrow> Inr v | Some f \<Rightarrow> f v) of
                  Inl (ordinary, name, msg) \<Rightarrow> Raised ordinary name msg
                | Inr w \<Rightarrow> Returned w)
            | outcome \<Rightarrow> outcome))))"

text \<open>The message of a failed attempt goes through the sanitizer, which may raise itself.\<close>

definition sanitized_message :: "harness_config \<Rightarrow> harness_env \<Rightarrow> string \<Rightarrow> exn + string" where
  "sanitized_message cfg env msg = (case hc_sanitizer cfg of
      None \<Rightarrow> Inr msg
    | Some f \<Rightarrow> (case f (VStr msg) of
        Inl (ordinary, name, m) \<Rightarrow> Inl (Foreign ordinary name m)
      | Inr (VStr m) \<Rightarrow> Inr m
      | Inr v \<Rightarrow> Inr (he_str env v)))"

definition record_failure ::
  "harness_config \<Rightarrow> harness_env \<Rightarrow> call_identity \<Rightarrow> tool \<Rightarrow> spend \<Rightarrow> rat \<Rightarrow> bool \<Rightarrow> string \<Rightarrow> string
    \<Rightarrow> tool_result harness_op" where
  "record_failure cfg env ci t est wall ordinary name raw =
     sbind (slift (sanitized_message cfg env raw)) (\<lambda>msg.
     sbind (slift (compute_spend est wall)) (\<lambda>sp.
     sbind (fold_result env (ci_eid ci) t VNone ''error''
       (Some [(''type'', VStr ''tool_exception''), (''exception'', VStr name), (''message'', VStr msg)]) sp) (\<lambda>_.
     sbind (fold_spend cfg env (ci_eid ci) sp) (\<lambda>_.
     if ordinary then sret (result_of (ci_result_id ci) (ErrorText (VStr name) (VStr msg)) True)
     else slift (Inl (Foreign ordinary name raw))))))"

definition record_invalid ::
  "harness_config \<Rightarrow> harness_env \<Rightarrow> call_identity \<Rightarrow> tool \<Rightarrow> spend \<Rightarrow> exn \<Rightarrow> tool_result harness_op" where
  "record_invalid cfg env ci t sp e =
     (if \<not> is_exception e then slift (Inl e)
      else sbind (fold_result env (ci_eid ci) t VNone ''error''
        (Some [(''type'', VStr ''tool_output_invalid''), (''exception'', VStr (fst (he_describe env e))),
          (''message'', VStr (snd (he_describe env e)))]) sp) (\<lambda>_.
      sbind (fold_spend cfg env (ci_eid ci) sp) (\<lambda>_.
      sret (result_of (ci_result_id ci) (OutputInvalid (snd (he_describe env e))) True))))"

definition record_success ::
  "harness_config \<Rightarrow> harness_env \<Rightarrow> call_identity \<Rightarrow> tool \<Rightarrow> spend \<Rightarrow> rat \<Rightarrow> pyval \<Rightarrow> tool_result harness_op" where
  "record_success cfg env ci t est wall v =
     sbind (slift (compute_spend est wall)) (\<lambda>sp.
     stry (sbind (slift (prepare_output env v)) (\<lambda>out.
         sbind (fold_result env (ci_eid ci) t out ''ok'' None sp) (\<lambda>_. sret out)))
       (record_invalid cfg env ci t sp)
       (\<lambda>out. sbind (fold_spend cfg env (ci_eid ci) sp) (\<lambda>_.
          sret (result_of (ci_result_id ci) (stringify out) False))))"

definition execute_tool ::
  "harness_config \<Rightarrow> harness_env \<Rightarrow> call_identity \<Rightarrow> tool \<Rightarrow> args \<Rightarrow> spend \<Rightarrow> tool_result harness_op" where
  "execute_tool cfg env ci t as est =
     sbind (sget th_drawn) (\<lambda>now.
     sbind (attempt_tool cfg (ci_eid ci) t as) (\<lambda>outcome. case outcome of
        TaskCancelled \<Rightarrow> slift (Inl Cancelled)
      | Raised ordinary name raw \<Rightarrow> record_failure cfg env ci t est (he_wall env now) ordinary name raw
      | Returned v \<Rightarrow> record_success cfg env ci t est (he_wall env now) v))"

section \<open>The call\<close>

text \<open>An intent followed by its rejection, and the result that tells of it.\<close>

definition reject_call ::
  "harness_env \<Rightarrow> call_identity \<Rightarrow> tool \<Rightarrow> args \<Rightarrow> call_args \<Rightarrow> rejection \<Rightarrow> content \<Rightarrow> tool_result harness_op" where
  "reject_call env ci t as a r content =
     sbind (fold_intent env (ci_eid ci) t as (ca_compensates a) (ci_caused_by ci) (ca_proposal a)) (\<lambda>_.
     sbind (fold_rejection env (ci_eid ci) r) (\<lambda>_. sret (result_of (ci_result_id ci) content True)))"

definition deny_call ::
  "harness_env \<Rightarrow> call_identity \<Rightarrow> tool \<Rightarrow> call_args \<Rightarrow> decision \<Rightarrow> tool_result harness_op" where
  "deny_call env ci t a d =
     sbind (fold_intent env (ci_eid ci) t (ca_arguments a) (ca_compensates a) (ci_caused_by ci) (ca_proposal a)) (\<lambda>_.
     sbind (fold_admission_rejection env (ci_eid ci) d) (\<lambda>_.
     sret (result_of (ci_result_id ci) (AdmissionDenied (ed_reason d)) True)))"

definition unknown_tool_call ::
  "harness_config \<Rightarrow> harness_env \<Rightarrow> call_identity \<Rightarrow> call_args \<Rightarrow> tool_result harness_op" where
  "unknown_tool_call cfg env ci a =
     (let names = tools_names (hc_tools cfg) in
      sbind (fold_intent_unknown env (ci_eid ci) (ci_name ci) (ca_arguments a) (ca_compensates a)
        (ci_caused_by ci) (ca_proposal a)) (\<lambda>_.
      sbind (fold_rejection env (ci_eid ci) (UnknownToolRejection (ci_name ci) names)) (\<lambda>_.
      sret (result_of (ci_result_id ci) (UnknownTool (VStr (ci_name ci)) (map VStr names)) True))))"

text \<open>The refusal a call's admission or its proposal's risk calls for.\<close>

definition admission_denial :: "call_args \<Rightarrow> decision option" where
  "admission_denial a =
     (case ca_admission a of
        Some d \<Rightarrow> if ed_allowed d then None else Some d
      | None \<Rightarrow> None)"

definition risk_mismatch :: "call_args \<Rightarrow> tool \<Rightarrow> decision option" where
  "risk_mismatch a t = (case ca_proposal a of
      None \<Rightarrow> None
    | Some p \<Rightarrow>
        if (case proposal_risk_rank (ep_risk p) of None \<Rightarrow> True
            | Some n \<Rightarrow> n < tool_side_effect_rank (class_value (t_side_effect t)))
        then Some \<lparr>ed_allowed = False, ed_reason = ''risk_mismatch'', ed_policy = ''runtime'',
          ed_detail = [(KStr ''declared'', VStr (ep_risk p)),
            (KStr ''actual'', VStr (class_value (t_side_effect t)))]\<rparr>
        else None)"

definition rejection_content :: "rejection \<Rightarrow> content" where
  "rejection_content r = (case r of
      UnknownToolRejection n av \<Rightarrow> UnknownTool (VStr n) (map VStr av)
    | SchemaRejection n d \<Rightarrow> SchemaViolation (VStr d)
    | ToolGuardRejection g v \<Rightarrow> GuardDenied (VStr g) (VStr (gv_reason v))
    | ToolEstimateRejection n d \<Rightarrow> EstimateInvalid (VStr n) (VStr d)
    | ToolBudgetRejection b \<Rightarrow> BudgetExhausted (VStr (br_bucket b)) (VFloat (Fin (br_spent b)))
        (VFloat (Fin (br_estimate b))) (VFloat (Fin (br_limit b))))"

text \<open>Schema, guards, estimate and budget, then the intent and the execution.\<close>

definition gated_call ::
  "harness_config \<Rightarrow> harness_env \<Rightarrow> call_identity \<Rightarrow> tool \<Rightarrow> call_args \<Rightarrow> tool_result harness_op" where
  "gated_call cfg env ci t a = (case t_bind t (ca_arguments a) of
      Inl msg \<Rightarrow> (let r = SchemaRejection (t_name t) msg
        in reject_call env ci t (ca_arguments a) a r (rejection_content r))
    | Inr as \<Rightarrow>
        sbind (sget th_drawn) (\<lambda>now.
        sbind (slift (guard_gate now (hc_guards cfg) t as)) (\<lambda>denied. case denied of
          Some r \<Rightarrow> reject_call env ci t as a r (rejection_content r)
        | None \<Rightarrow> (case estimate_dict t as of
            Inl msg \<Rightarrow> (let r = ToolEstimateRejection (t_name t) msg
              in reject_call env ci t as a r (rejection_content r))
          | Inr est \<Rightarrow>
              sbind (sget th_store) (\<lambda>s.
              sbind (slift (preflight_budget cfg s est)) (\<lambda>exhausted. case exhausted of
                Some b \<Rightarrow> (let r = ToolBudgetRejection b in reject_call env ci t as a r (rejection_content r))
              | None \<Rightarrow>
                  sbind (fold_intent env (ci_eid ci) t as (ca_compensates a) (ci_caused_by ci) (ca_proposal a)) (\<lambda>_.
                  execute_tool cfg env ci t as est)))))))"

definition new_call ::
  "harness_config \<Rightarrow> harness_env \<Rightarrow> call_identity \<Rightarrow> call_args \<Rightarrow> tool_result harness_op" where
  "new_call cfg env ci a = (case tools_get (hc_tools cfg) (ci_name ci) of
      Inl e \<Rightarrow> unknown_tool_call cfg env ci a
    | Inr t \<Rightarrow> (case admission_denial a of
        Some d \<Rightarrow> deny_call env ci t a d
      | None \<Rightarrow> (case risk_mismatch a t of
          Some d \<Rightarrow> deny_call env ci t a d
        | None \<Rightarrow> sbind (replay_step cfg env ci t a) (\<lambda>replayed. case replayed of
            Some x \<Rightarrow> sret x
          | None \<Rightarrow> gated_call cfg env ci t a))))"

definition draw_uuid :: "harness_env \<Rightarrow> string harness_op" where
  "draw_uuid env = sbind (sget th_drawn) (\<lambda>n.
     sbind (sput (\<lambda>h. h\<lparr>th_drawn := n + 1\<rparr>)) (\<lambda>_. sret (he_uuid env n)))"

definition tool_call :: "harness_config \<Rightarrow> harness_env \<Rightarrow> call_args \<Rightarrow> tool_result harness_op" where
  "tool_call cfg env a =
     sbind (draw_uuid env) (\<lambda>uuid.
     sbind (slift (identify_call env uuid a)) (\<lambda>ci.
     sbind (recover_existing cfg env ci (ca_arguments a) (ca_proposal a)) (\<lambda>recovered. case recovered of
        Some x \<Rightarrow> sret x
      | None \<Rightarrow> new_call cfg env ci a)))"

section \<open>The recorded tape\<close>

definition find_node :: "harness_config \<Rightarrow> store \<Rightarrow> string \<Rightarrow> exn + string \<times> effect_node" where
  "find_node cfg s e =
     (if strip e = [] then Inl ValueError
      else if \<not> hc_effect_row cfg then Inl OrphanedEffectError
      else (let nodes = ew_nodes (effect_project s) in case map_of nodes e of
          Some n \<Rightarrow> if en_kind n = TOOL_CALL then Inr (e, n) else Inl ValueError
        | None \<Rightarrow> (case filter (\<lambda>(i, n). en_kind n = TOOL_CALL
              \<and> py_eq (fget (en_intent n) F_PROPOSAL_ID) (VStr e)) nodes of
            [] \<Rightarrow> Inl OrphanedEffectError
          | [m] \<Rightarrow> Inr m
          | _ \<Rightarrow> Inl ValueError)))"

text \<open>The recorded spend of an observation; the effect row admits only a mapping there.\<close>

definition observe_effect :: "harness_config \<Rightarrow> store \<Rightarrow> string \<Rightarrow> exn + observation" where
  "observe_effect cfg s e = ebind (find_node cfg s e) (\<lambda>(i, n).
     case en_result n of
       Some r \<Rightarrow> (case dict_get (VDict []) (cfields r) F_SPEND of
           VDict sp \<Rightarrow> make_observation e (if fget r F_STATUS = VStr ''ok'' then ''succeeded'' else ''failed'')
             (fget r F_OUTPUT)
             ([(KStr ''claim_effect_id'', VStr i), (KStr ''spend'', VDict sp),
               (KStr ''side_effect'', fget r F_SIDE_EFFECT)]
              @ (if fhas r F_ERROR then [(KStr ''error'', fget r F_ERROR)] else [])) (Some i)
         | _ \<Rightarrow> Inl TypeError)
     | None \<Rightarrow> (case en_rejection n of
         Some r \<Rightarrow> make_observation e ''rejected'' VNone
           [(KStr ''claim_effect_id'', VStr i), (KStr ''reason'', fget r F_REASON),
            (KStr ''detail'', dict_get (VDict []) (cfields r) F_DETAIL)] (Some i)
       | None \<Rightarrow> make_observation e ''uncertain'' VNone
           [(KStr ''claim_effect_id'', VStr i), (KStr ''state'', VStr ''orphan'')] (Some i)))"

text \<open>The operator's error detail as a strict JSON object with string keys.\<close>

definition normalized_error :: "harness_env \<Rightarrow> args \<Rightarrow> exn + fieldmap" where
  "normalized_error env d = (case prepare_output env (VDict d) of
      Inl e \<Rightarrow> Inl ValueError
    | Inr v \<Rightarrow> (case canon v of
        Inr (VDict e) \<Rightarrow> (case str_keys e of Some fs \<Rightarrow> Inr fs | None \<Rightarrow> Inl ValueError)
      | _ \<Rightarrow> Inl ValueError))"

definition reconcile_orphan ::
  "harness_config \<Rightarrow> harness_env \<Rightarrow> string \<Rightarrow> pyval \<Rightarrow> args option \<Rightarrow> pyval \<Rightarrow> tool_result harness_op" where
  "reconcile_orphan cfg env e output err wall =
     sbind (slift (guard_or ValueError (e \<noteq> []))) (\<lambda>_.
     sbind (slift (case finite_float wall of None \<Rightarrow> Inl ValueError
        | Some w \<Rightarrow> if 0 \<le> w then Inr w else Inl ValueError)) (\<lambda>seconds.
     sbind (sget th_store) (\<lambda>s.
     sbind (slift (find_node cfg s e)) (\<lambda>(i, n).
     if node_terminal n then sret (result_of e AlreadyReconciled
       (case en_result n of None \<Rightarrow> False | Some r \<Rightarrow> fget r F_STATUS \<noteq> VStr ''ok''))
     else (case (fget (en_intent n) F_TOOL_NAME, dict_get (VDict []) (cfields (en_intent n)) F_ARGUMENTS) of
        (VStr name, VDict as) \<Rightarrow>
          sbind (slift (tools_get (hc_tools cfg) name)) (\<lambda>t.
          sbind (slift (case estimate_dict t as of Inl m \<Rightarrow> Inl OrphanedEffectError | Inr est \<Rightarrow> Inr est)) (\<lambda>est.
          sbind (slift (compute_spend est seconds)) (\<lambda>sp.
          sbind (slift (case err of None \<Rightarrow> Inr None
             | Some d \<Rightarrow> ebind (normalized_error env d) (\<lambda>fs. Inr (Some fs)))) (\<lambda>given.
          let prepared = prepare_output env output;
              failure = (case prepared of
                  Inl x \<Rightarrow> Some [(''type'', VStr ''tool_output_invalid''), (''exception'', VStr (fst (he_describe env x))),
                    (''message'', VStr (snd (he_describe env x)))]
                | Inr v \<Rightarrow> given);
              out = (case prepared of Inl x \<Rightarrow> VNone | Inr v \<Rightarrow> v)
          in sbind (fold_result env i t out (if failure = None then ''ok'' else ''error'') failure sp) (\<lambda>_.
             sbind (fold_spend cfg env i sp) (\<lambda>_.
             sret (result_of e (case failure of None \<Rightarrow> stringify out
               | Some fs \<Rightarrow> (case dict_get (VStr ''error'') fs ''message'' of
                   VStr m \<Rightarrow> Plain m | v \<Rightarrow> Plain (he_str env v))) (failure \<noteq> None))))))))
      | _ \<Rightarrow> slift (Inl OrphanedEffectError))))))"

end
