(* ===== verification/EffectProps.thy ===== *)
theory EffectProps
  imports EffectRow
begin

text \<open>
  What the effect row (\<open>lipas/rows/effect.py\<close>) guarantees of a tape every claim of which was
  folded through a row set that owns it: the tape is a run of the abstract effect protocol
  below, lineage is well-founded, and the projection reads the protocol state back.
\<close>

section \<open>The abstract protocol\<close>

text \<open>
  An effect is proposed once, with its kind and declared side effect; it then finishes once
  or is refused once, under the same kind and within the declaration. It may compensate
  only an effect that was proposed before.
\<close>

datatype phase = Proposed string pyval | Finished string | Refused string

fun phase_kind :: "phase \<Rightarrow> string" where
  "phase_kind (Proposed k d) = k" | "phase_kind (Finished k) = k" | "phase_kind (Refused k) = k"

definition within_declared :: "string \<Rightarrow> pyval \<Rightarrow> pyval \<Rightarrow> bool" where
  "within_declared k declared actual \<longleftrightarrow> k = ''llm_call''
     \<or> (case (rank_of declared, rank_of actual) of (Some d, Some a) \<Rightarrow> a \<le> d | _ \<Rightarrow> False)"

definition effect_step :: "(string \<Rightarrow> phase option) \<Rightarrow> claim \<Rightarrow> (string \<Rightarrow> phase option) option" where
  "effect_step m c =
     (if tag c \<notin> set effect_namespace then Some m
      else (case (fget c F_EFFECT_ID, fget c F_KIND) of
        (VStr e, VStr k) \<Rightarrow>
          if tag c = TAG_EFFECT_INTENT then
            (if m e = None \<and> effect_id_match e \<and> k \<in> set VALID_KINDS
                \<and> (k = ''llm_call'' \<or> rank_of (fget c F_DECLARED_SIDE_EFFECT) \<noteq> None)
                \<and> (case fget c F_COMPENSATES of VNone \<Rightarrow> True | VStr p \<Rightarrow> m p \<noteq> None | _ \<Rightarrow> False)
             then Some (m(e \<mapsto> Proposed k (fget c F_DECLARED_SIDE_EFFECT))) else None)
          else (case m e of
              Some (Proposed k' d) \<Rightarrow>
                if k' \<noteq> k then None
                else if tag c = TAG_EFFECT_REJECTED then Some (m(e \<mapsto> Refused k))
                else if within_declared k d (fget c F_SIDE_EFFECT) then Some (m(e \<mapsto> Finished k))
                else None
            | _ \<Rightarrow> None)
      | _ \<Rightarrow> None))"

definition effect_replay :: "claim list \<Rightarrow> (string \<Rightarrow> phase option) option" where
  "effect_replay lg = foldl (\<lambda>m c. Option.bind m (\<lambda>m. effect_step m c)) (Some (\<lambda>e. None)) lg"

lemma effect_replay_Nil [simp]: "effect_replay [] = Some (\<lambda>e. None)"
  by (simp add: effect_replay_def)

lemma effect_replay_snoc [simp]:
  "effect_replay (lg @ [c]) = Option.bind (effect_replay lg) (\<lambda>m. effect_step m c)"
  by (simp add: effect_replay_def)

section \<open>The protocol state and the tape\<close>

definition with_id :: "string \<Rightarrow> string \<Rightarrow> claim list \<Rightarrow> claim list" where
  "with_id t e lg = filter (\<lambda>c. tag c = t \<and> fget c F_EFFECT_ID = VStr e) lg"

lemma with_id_Nil [simp]: "with_id t e [] = []"
  by (simp add: with_id_def)

lemma with_id_snoc: "with_id t e (lg @ [c])
    = with_id t e lg @ (if tag c = t \<and> fget c F_EFFECT_ID = VStr e then [c] else [])"
  by (simp add: with_id_def)

lemma py_eq_VStr [simp]: "py_eq v (VStr e) \<longleftrightarrow> v = VStr e"
  by (cases v) auto

lemma of_effect_log: "store_inv s \<Longrightarrow> of_effect t e s = with_id t e (s_log s)"
  by (simp add: of_effect_def store_filter_tag with_id_def conj_commute)

lemma tags_distinct [simp]:
  "TAG_EFFECT_INTENT \<noteq> TAG_EFFECT_RESULT" "TAG_EFFECT_INTENT \<noteq> TAG_EFFECT_REJECTED"
  "TAG_EFFECT_RESULT \<noteq> TAG_EFFECT_REJECTED" "TAG_EFFECT_RESULT \<noteq> TAG_EFFECT_INTENT"
  "TAG_EFFECT_REJECTED \<noteq> TAG_EFFECT_INTENT" "TAG_EFFECT_REJECTED \<noteq> TAG_EFFECT_RESULT"
  by (simp_all add: effect_names)

text \<open>What the state says of an effect id is what the tape holds for it.\<close>

definition told :: "claim list \<Rightarrow> string \<Rightarrow> phase option \<Rightarrow> bool" where
  "told lg e ph \<longleftrightarrow> (case ph of
      None \<Rightarrow> with_id TAG_EFFECT_INTENT e lg = []
    | Some p \<Rightarrow> (\<exists>i. with_id TAG_EFFECT_INTENT e lg = [i] \<and> fget i F_KIND = VStr (phase_kind p)
        \<and> phase_kind p \<in> set VALID_KINDS \<and> effect_id_match e
        \<and> (\<forall>k d. p = Proposed k d \<longrightarrow> fget i F_DECLARED_SIDE_EFFECT = d
          \<and> (k = ''llm_call'' \<or> rank_of d \<noteq> None))))
    \<and> length (with_id TAG_EFFECT_RESULT e lg) = (case ph of Some (Finished k) \<Rightarrow> 1 | _ \<Rightarrow> 0)
    \<and> length (with_id TAG_EFFECT_REJECTED e lg) = (case ph of Some (Refused k) \<Rightarrow> 1 | _ \<Rightarrow> 0)"

lemma step_cases:
  assumes "effect_step m c = Some m'"
  obtains (other) "tag c \<notin> set effect_namespace" "m' = m"
  | (intent) e k where "tag c = TAG_EFFECT_INTENT" "fget c F_EFFECT_ID = VStr e" "fget c F_KIND = VStr k" "m e = None"
      "k \<in> set VALID_KINDS" "m' = m(e \<mapsto> Proposed k (fget c F_DECLARED_SIDE_EFFECT))" "effect_id_match e"
      "fget c F_COMPENSATES = VNone \<or> (\<exists>p. fget c F_COMPENSATES = VStr p \<and> m p \<noteq> None)"
      "k = ''llm_call'' \<or> rank_of (fget c F_DECLARED_SIDE_EFFECT) \<noteq> None"
  | (result) e k d where "tag c = TAG_EFFECT_RESULT" "fget c F_EFFECT_ID = VStr e" "m e = Some (Proposed k d)"
      "fget c F_KIND = VStr k" "within_declared k d (fget c F_SIDE_EFFECT)" "m' = m(e \<mapsto> Finished k)"
  | (rejected) e k d where "tag c = TAG_EFFECT_REJECTED" "fget c F_EFFECT_ID = VStr e" "m e = Some (Proposed k d)"
      "fget c F_KIND = VStr k" "m' = m(e \<mapsto> Refused k)"
proof (cases "tag c \<in> set effect_namespace")
  case False
  then show thesis using assms by (intro other) (simp_all add: effect_step_def)
next
  case True
  from assms True obtain e k where ek: "fget c F_EFFECT_ID = VStr e" "fget c F_KIND = VStr k"
    by (auto simp: effect_step_def split: pyval.splits)
  consider "tag c = TAG_EFFECT_INTENT" | "tag c = TAG_EFFECT_RESULT" | "tag c = TAG_EFFECT_REJECTED"
    using True by (auto simp: effect_namespace_def)
  then show thesis
  proof cases
    case 1
    then have g: "m e = None \<and> effect_id_match e \<and> k \<in> set VALID_KINDS
        \<and> (k = ''llm_call'' \<or> rank_of (fget c F_DECLARED_SIDE_EFFECT) \<noteq> None)
        \<and> (case fget c F_COMPENSATES of VNone \<Rightarrow> True | VStr p \<Rightarrow> m p \<noteq> None | _ \<Rightarrow> False)"
      and m': "m' = m(e \<mapsto> Proposed k (fget c F_DECLARED_SIDE_EFFECT))"
      using assms True ek by (auto simp: effect_step_def split: if_splits)
    then have "fget c F_COMPENSATES = VNone \<or> (\<exists>p. fget c F_COMPENSATES = VStr p \<and> m p \<noteq> None)"
      by (cases "fget c F_COMPENSATES") auto
    then show thesis using intent 1 ek g m' by blast
  next
    case 2
    then obtain d where "m e = Some (Proposed k d)" "within_declared k d (fget c F_SIDE_EFFECT)" "m' = m(e \<mapsto> Finished k)"
      using assms True ek by (auto simp: effect_step_def split: option.splits phase.splits if_splits)
    then show thesis using result 2 ek by blast
  next
    case 3
    then obtain d where "m e = Some (Proposed k d)" "m' = m(e \<mapsto> Refused k)"
      using assms True ek by (auto simp: effect_step_def split: option.splits phase.splits if_splits)
    then show thesis using rejected 3 ek by blast
  qed
qed

lemma with_id_keep:
  "tag c \<noteq> t \<or> fget c F_EFFECT_ID \<noteq> VStr e \<Longrightarrow> with_id t e (lg @ [c]) = with_id t e lg"
  by (auto simp: with_id_def)

lemma told_keep:
  assumes "tag c \<notin> set effect_namespace \<or> fget c F_EFFECT_ID \<noteq> VStr e" "told lg e ph"
  shows "told (lg @ [c]) e ph"
proof -
  have keep: "with_id t e (lg @ [c]) = with_id t e lg" if "t \<in> set effect_namespace" for t
    using assms(1) that by (auto intro!: with_id_keep)
  have "with_id TAG_EFFECT_INTENT e (lg @ [c]) = with_id TAG_EFFECT_INTENT e lg"
    "with_id TAG_EFFECT_RESULT e (lg @ [c]) = with_id TAG_EFFECT_RESULT e lg"
    "with_id TAG_EFFECT_REJECTED e (lg @ [c]) = with_id TAG_EFFECT_REJECTED e lg"
    by (intro keep; simp add: effect_namespace_def)+
  then show ?thesis using assms(2) by (simp only: told_def)
qed

lemma replay_told: "effect_replay lg = Some m \<Longrightarrow> told lg e (m e)"
proof (induction lg arbitrary: m e rule: rev_induct)
  case Nil
  then show ?case by (auto simp: told_def)
next
  case (snoc c lg)
  then obtain m0 where m0: "effect_replay lg = Some m0" "effect_step m0 c = Some m"
    by (auto simp: Option.bind_eq_Some_conv)
  have IH: "told lg e (m0 e)" for e using snoc.IH [OF m0(1)] .
  from m0(2) show ?case
  proof (cases rule: step_cases)
    case other
    then show ?thesis using IH [of e] told_keep by simp
  next
    case (intent e' k)
    show ?thesis
    proof (cases "e' = e")
      case False
      then show ?thesis using IH [of e] intent told_keep [of c e lg] by simp
    next
      case True
      then show ?thesis using IH [of e] intent by (auto simp: told_def with_id_snoc)
    qed
  next
    case (result e' k d)
    show ?thesis
    proof (cases "e' = e")
      case False
      then show ?thesis using IH [of e] result told_keep [of c e lg] by simp
    next
      case True
      then show ?thesis using IH [of e] result by (auto simp: told_def with_id_snoc)
    qed
  next
    case (rejected e' k d)
    show ?thesis
    proof (cases "e' = e")
      case False
      then show ?thesis using IH [of e] rejected told_keep [of c e lg] by simp
    next
      case True
      then show ?thesis using IH [of e] rejected by (auto simp: told_def with_id_snoc)
    qed
  qed
qed


section \<open>Every admitted claim is a step\<close>

lemma str_member_True: "str_member v xs = Inr True \<longleftrightarrow> (\<exists>s. v = VStr s \<and> s \<in> set xs)"
  by (auto simp: str_member_def split: pyval.splits)

lemma when_msg_Nil [simp]: "when_msg b m = [] \<longleftrightarrow> \<not> b"
  by (simp add: when_msg_def)

lemma rank_known: "s \<in> set VALID_SIDE_EFFECTS \<longleftrightarrow> rank_of (VStr s) \<noteq> None"
  by (auto simp: VALID_SIDE_EFFECTS_def SIDE_EFFECT_RANK_def)

lemma effect_step_cong:
  assumes "cfields c = cfields d" "tag c = tag d"
  shows "effect_step m c = effect_step m d"
proof -
  have "fget c = fget d" using assms by (simp add: fget_def fun_eq_iff)
  then show ?thesis by (simp only: effect_step_def assms)
qed

lemma admitted_intent:
  assumes "check_intent c s = Inr []"
  obtains e k where "fget c F_EFFECT_ID = VStr e" "fget c F_KIND = VStr k" "k \<in> set VALID_KINDS"
    "effect_id_match e" "of_effect TAG_EFFECT_INTENT e s = []"
    "k = ''llm_call'' \<or> rank_of (fget c F_DECLARED_SIDE_EFFECT) \<noteq> None"
    "fget c F_COMPENSATES = VNone
      \<or> (\<exists>p. fget c F_COMPENSATES = VStr p \<and> of_effect TAG_EFFECT_INTENT p s \<noteq> [])"
proof -
  from assms obtain e where e: "fget c F_EFFECT_ID = VStr e"
    by (auto simp: check_intent_def split: pyval.splits)
  from assms e obtain known where known: "str_member (fget c F_KIND) VALID_KINDS = Inr known"
    by (cases "str_member (fget c F_KIND) VALID_KINDS") (auto simp: check_intent_def Let_def)
  then have known: "str_member (fget c F_KIND) VALID_KINDS = Inr True"
    using assms e by (cases known) (auto simp: check_intent_def Let_def)
  then obtain k where k: "fget c F_KIND = VStr k" "k \<in> set VALID_KINDS" by (auto simp: str_member_True)
  have msgs: "effect_id_match e" "of_effect TAG_EFFECT_INTENT e s = []" "check_compensates c s = []"
    using assms e known
    by (auto simp: check_intent_def Let_def split: if_splits sum.splits)
  have "k = ''llm_call'' \<or> rank_of (fget c F_DECLARED_SIDE_EFFECT) \<noteq> None"
  proof (rule disjCI)
    assume "\<not> rank_of (fget c F_DECLARED_SIDE_EFFECT) \<noteq> None"
    then have "str_member (fget c F_DECLARED_SIDE_EFFECT) VALID_SIDE_EFFECTS \<noteq> Inr True"
      by (auto simp: str_member_True rank_known)
    then have "check_intent_tool c \<noteq> Inr []"
      by (auto simp: check_intent_tool_def)
    then show "k = ''llm_call''"
      using assms e known k by (auto simp: check_intent_def Let_def split: if_splits sum.splits)
  qed
  moreover have "fget c F_COMPENSATES = VNone
      \<or> (\<exists>p. fget c F_COMPENSATES = VStr p \<and> of_effect TAG_EFFECT_INTENT p s \<noteq> [])"
    using msgs(3) by (auto simp: check_compensates_def split: pyval.splits)
  ultimately show thesis using that e k msgs by blast
qed

lemma admitted_result:
  assumes "check_result c s = Inr []"
  obtains e k i rest where "fget c F_EFFECT_ID = VStr e" "fget c F_KIND = VStr k"
    "of_effect TAG_EFFECT_INTENT e s = i # rest" "fget i F_KIND = VStr k"
    "of_effect TAG_EFFECT_RESULT e s = []" "of_effect TAG_EFFECT_REJECTED e s = []"
    "rank_of (fget i F_DECLARED_SIDE_EFFECT) \<noteq> None \<Longrightarrow>
      within_declared k (fget i F_DECLARED_SIDE_EFFECT) (fget c F_SIDE_EFFECT)"
    "k = ''llm_call'' \<Longrightarrow> within_declared k (fget i F_DECLARED_SIDE_EFFECT) (fget c F_SIDE_EFFECT)"
proof -
  from assms obtain e where e: "fget c F_EFFECT_ID = VStr e"
    by (auto simp: check_result_def split: pyval.splits)
  from assms e obtain known where known: "str_member (fget c F_KIND) VALID_KINDS = Inr known"
    by (cases "str_member (fget c F_KIND) VALID_KINDS") (auto simp: check_result_def Let_def)
  then have known: "str_member (fget c F_KIND) VALID_KINDS = Inr True"
    using assms e by (cases known) (auto simp: check_result_def Let_def)
  then obtain k where k: "fget c F_KIND = VStr k" "k \<in> set VALID_KINDS" by (auto simp: str_member_True)
  from assms e known obtain st where st: "str_member (fget c F_STATUS) VALID_STATUS = Inr st"
    by (cases "str_member (fget c F_STATUS) VALID_STATUS") (auto simp: check_result_def Let_def)
  have msgs: "of_effect TAG_EFFECT_INTENT e s \<noteq> []" "of_effect TAG_EFFECT_RESULT e s = []"
    "of_effect TAG_EFFECT_REJECTED e s = []"
    using assms e known st
    by (auto simp: check_result_def Let_def split: if_splits sum.splits)
  then obtain i rest where i: "of_effect TAG_EFFECT_INTENT e s = i # rest"
    by (cases "of_effect TAG_EFFECT_INTENT e s") auto
  have ik: "fget i F_KIND = VStr k"
    using assms e known st i k
    by (auto simp: check_result_def Let_def split: if_splits sum.splits)
  have tool: "check_result_tool c (Some i) = Inr []" if "k \<noteq> ''llm_call''"
    using assms e known st i k that
    by (auto simp: check_result_def Let_def split: if_splits sum.splits)
  have "within_declared k (fget i F_DECLARED_SIDE_EFFECT) (fget c F_SIDE_EFFECT)"
    if d: "rank_of (fget i F_DECLARED_SIDE_EFFECT) \<noteq> None"
  proof (cases "k = ''llm_call''")
    case False
    from tool [OF this] have "str_member (fget c F_SIDE_EFFECT) VALID_SIDE_EFFECTS = Inr True"
      by (auto simp: check_result_tool_def)
    then have "rank_of (fget c F_SIDE_EFFECT) \<noteq> None" by (auto simp: str_member_True rank_known)
    with tool [OF False] d show ?thesis
      by (auto simp: check_result_tool_def within_declared_def split: sum.splits if_splits)
  qed (simp add: within_declared_def)
  then show thesis using that e k(1) i ik msgs(2,3) by (auto simp: within_declared_def)
qed

lemma admitted_rejection:
  assumes "check_rejection c s = Inr []"
  obtains e k i rest where "fget c F_EFFECT_ID = VStr e" "fget c F_KIND = VStr k"
    "of_effect TAG_EFFECT_INTENT e s = i # rest" "fget i F_KIND = VStr k"
    "of_effect TAG_EFFECT_RESULT e s = []" "of_effect TAG_EFFECT_REJECTED e s = []"
proof -
  from assms obtain e where e: "fget c F_EFFECT_ID = VStr e"
    by (auto simp: check_rejection_def split: pyval.splits)
  from assms e obtain known where known: "str_member (fget c F_KIND) VALID_KINDS = Inr known"
    by (cases "str_member (fget c F_KIND) VALID_KINDS") (auto simp: check_rejection_def Let_def)
  then have known: "str_member (fget c F_KIND) VALID_KINDS = Inr True"
    using assms e by (cases known) (auto simp: check_rejection_def Let_def)
  then obtain k where k: "fget c F_KIND = VStr k" by (auto simp: str_member_True)
  have msgs: "of_effect TAG_EFFECT_INTENT e s \<noteq> []" "of_effect TAG_EFFECT_RESULT e s = []"
    "of_effect TAG_EFFECT_REJECTED e s = []"
    using assms e known by (auto simp: check_rejection_def Let_def)
  then obtain i rest where i: "of_effect TAG_EFFECT_INTENT e s = i # rest"
    by (cases "of_effect TAG_EFFECT_INTENT e s") auto
  have "fget i F_KIND = VStr k" using assms e known i k by (auto simp: check_rejection_def Let_def)
  then show thesis using that e k i msgs(2,3) by blast
qed


text \<open>The check accepts a fresh claim only when the protocol has a step for it.\<close>

lemma checked_step:
  assumes inv: "store_inv s" and m: "effect_replay (s_log s) = Some m"
    and fresh: "claim_id c \<notin> claim_id ` set (s_log s)" and ok: "effect_check c s = Inr []"
  shows "effect_step m c \<noteq> None"
proof -
  have new: "claim_id c \<notin> claim_id ` set (store_filter (Some (tag c)) None None s)"
    using fresh by (auto simp: store_filter_tag [OF inv])
  have told: "told (s_log s) e (m e)" for e using replay_told [OF m] .
  have seen: "of_effect TAG_EFFECT_INTENT e s \<noteq> [] \<longleftrightarrow> m e \<noteq> None" for e
    using told [of e] by (auto simp: of_effect_log [OF inv] told_def split: option.splits)
  have unseen: "m e = None \<longleftrightarrow> of_effect TAG_EFFECT_INTENT e s = []"
    and seen': "(\<exists>p. m e = Some p) \<longleftrightarrow> of_effect TAG_EFFECT_INTENT e s \<noteq> []" for e
    using seen [of e] by auto
  have pending: "\<exists>k d. m e = Some (Proposed k d)"
    if "of_effect TAG_EFFECT_INTENT e s \<noteq> []" "of_effect TAG_EFFECT_RESULT e s = []"
      "of_effect TAG_EFFECT_REJECTED e s = []" for e
    using told [of e] that seen [of e]
    by (cases "m e"; cases "the (m e)") (simp_all add: of_effect_log [OF inv] told_def)
  have declared: "fget i F_KIND = VStr k \<and> fget i F_DECLARED_SIDE_EFFECT = d \<and> (k = ''llm_call'' \<or> rank_of d \<noteq> None)"
    if "m e = Some (Proposed k d)" "of_effect TAG_EFFECT_INTENT e s = i # rest" for e i rest k d
    using told [of e] that by (auto simp: of_effect_log [OF inv] told_def)
  consider "tag c = TAG_EFFECT_INTENT" | "tag c = TAG_EFFECT_RESULT" | "tag c = TAG_EFFECT_REJECTED"
    | "tag c \<notin> set effect_namespace" by (auto simp: effect_namespace_def)
  then show ?thesis
  proof cases
    case 1
    then have "check_intent c s = Inr []" using ok new by (simp add: effect_check_def)
    then show ?thesis
      by (rule admitted_intent) (use 1 unseen seen' in \<open>auto simp: effect_step_def effect_namespace_def\<close>)
  next
    case 2
    then have "check_result c s = Inr []" using ok new by (simp add: effect_check_def)
    then obtain e k i rest where r: "fget c F_EFFECT_ID = VStr e" "fget c F_KIND = VStr k"
      "of_effect TAG_EFFECT_INTENT e s = i # rest" "fget i F_KIND = VStr k"
      "of_effect TAG_EFFECT_RESULT e s = []" "of_effect TAG_EFFECT_REJECTED e s = []"
      and w: "rank_of (fget i F_DECLARED_SIDE_EFFECT) \<noteq> None \<Longrightarrow>
        within_declared k (fget i F_DECLARED_SIDE_EFFECT) (fget c F_SIDE_EFFECT)"
        "k = ''llm_call'' \<Longrightarrow> within_declared k (fget i F_DECLARED_SIDE_EFFECT) (fget c F_SIDE_EFFECT)"
      by (rule admitted_result) blast
    then obtain k' d where p: "m e = Some (Proposed k' d)" using pending [of e] by auto
    with declared [OF p r(3)] r w have "k' = k" "within_declared k d (fget c F_SIDE_EFFECT)" by auto
    then show ?thesis using p r 2 by (simp add: effect_step_def effect_namespace_def)
  next
    case 3
    then have "check_rejection c s = Inr []" using ok new by (simp add: effect_check_def)
    then obtain e k i rest where r: "fget c F_EFFECT_ID = VStr e" "fget c F_KIND = VStr k"
      "of_effect TAG_EFFECT_INTENT e s = i # rest" "fget i F_KIND = VStr k"
      "of_effect TAG_EFFECT_RESULT e s = []" "of_effect TAG_EFFECT_REJECTED e s = []"
      by (rule admitted_rejection) blast
    then obtain k' d where p: "m e = Some (Proposed k' d)" using pending [of e] by auto
    with declared [OF p r(3)] r have "k' = k" by simp
    then show ?thesis using p r 3 by (simp add: effect_step_def effect_namespace_def)
  next
    case 4
    then show ?thesis by (simp add: effect_step_def)
  qed
qed

definition effect_inv :: "rowset \<Rightarrow> bool" where
  "effect_inv rs \<longleftrightarrow> effect_row \<in> set (rs_rows rs) \<and> store_inv (rs_store rs)
     \<and> effect_replay (s_log (rs_store rs)) \<noteq> None"

lemma effect_inv_fold: "effect_inv rs \<Longrightarrow> effect_inv (snd (rowset_fold cid c rs))"
proof (rule rowset_fold_cases [of cid c rs])
  assume inv: "effect_inv rs"
    and none: "violations c (rs_store rs) (owners (tag c) rs) = Inr []"
    and snd: "snd (rowset_fold cid c rs) = rs\<lparr>rs_store := snd (store_fold cid c (rs_store rs))\<rparr>"
  from inv obtain m where m: "effect_replay (s_log (rs_store rs)) = Some m" by (auto simp: effect_inv_def)
  have st: "store_inv (rs_store rs)" using inv by (simp add: effect_inv_def)
  have "effect_replay (s_log (snd (store_fold cid c (rs_store rs)))) \<noteq> None"
  proof (cases "claim_id c \<in> claim_id ` set (s_log (rs_store rs))")
    case True
    then show ?thesis using m st tape.fold_known by simp
  next
    case False
    have "effect_check c (rs_store rs) = Inr []" if "tag c \<in> set effect_namespace"
    proof -
      have "effect_row \<in> set (owners (tag c) rs)"
        using inv that by (simp add: effect_inv_def owners_def) (simp add: effect_row_def)
      from violations_none [OF none this] show ?thesis by (simp add: effect_row_def)
    qed
    then have "effect_step m c \<noteq> None"
      using checked_step [OF st m False] by (cases "tag c \<in> set effect_namespace") (auto simp: effect_step_def)
    moreover have "effect_step m (sequenced (rs_store rs) c) = effect_step m c"
      by (rule effect_step_cong) simp_all
    ultimately show ?thesis using m store_fold_new(1) [OF by_id_None [OF st False]] by simp
  qed
  then show ?thesis using inv by (auto simp: effect_inv_def snd intro: store_fold_inv)
qed auto

lemma effect_inv_run: "effect_inv rs \<Longrightarrow> effect_inv (rowset_run rs cs)"
  by (induction cs arbitrary: rs) (auto simp: rowset_run_def effect_inv_fold)

lemma effect_inv_init: "effect_row \<in> set rows \<Longrightarrow> effect_inv (rowset_init (store_init reg ctx) rows)"
  using store_inv_init [of reg ctx] by (simp add: effect_inv_def store_inv_def) (simp add: store_init_def)

definition effect_session :: "registry \<Rightarrow> belief_context \<Rightarrow> row list \<Rightarrow> (string \<times> claim) list \<Rightarrow> store" where
  "effect_session reg ctx rows cs = rs_store (rowset_run (rowset_init (store_init reg ctx) rows) cs)"

lemma session_inv:
  assumes "effect_row \<in> set rows"
  shows "store_inv (effect_session reg ctx rows cs)"
    and "\<exists>m. effect_replay (s_log (effect_session reg ctx rows cs)) = Some m"
  using effect_inv_run [OF effect_inv_init [OF assms], of reg ctx cs]
  by (auto simp: effect_inv_def effect_session_def)

section \<open>The projection\<close>

lemma map_of_setdefault: "map_of (dict_setdefault k v d) = (\<lambda>x. if x = k \<and> map_of d k = None then Some v else map_of d x)"
  by (auto simp: dict_setdefault_def fun_eq_iff map_add_def split: option.splits)

lemma keys_setdefault: "distinct (map fst d) \<Longrightarrow> distinct (map fst (dict_setdefault k v d))"
  by (auto simp: dict_setdefault_def map_of_eq_None_iff split: option.splits)

lemma by_effect_snoc: "by_effect (cs @ [c]) = (case fget c F_EFFECT_ID of
    VStr e \<Rightarrow> dict_setdefault e c (by_effect cs) | _ \<Rightarrow> by_effect cs)"
  by (simp add: by_effect_def split: pyval.split)

lemma by_effect_find: "map_of (by_effect cs) e = find (\<lambda>c. fget c F_EFFECT_ID = VStr e) cs"
proof (induction cs rule: rev_induct)
  case Nil
  then show ?case by (simp add: by_effect_def)
next
  case (snoc c cs)
  then show ?case
    by (cases "fget c F_EFFECT_ID")
      (auto simp: by_effect_snoc find_append map_of_setdefault split: option.splits)
qed

lemma by_effect_distinct: "distinct (map fst (by_effect cs))"
proof (induction cs rule: rev_induct)
  case (snoc c cs)
  then show ?case by (cases "fget c F_EFFECT_ID") (simp_all add: by_effect_snoc keys_setdefault)
qed (simp add: by_effect_def)

lemma find_filter_hd: "find P xs = (case filter P xs of [] \<Rightarrow> None | x # rest \<Rightarrow> Some x)"
  by (induction xs) auto

definition first_of :: "claim list \<Rightarrow> claim option" where
  "first_of cs = (case cs of [] \<Rightarrow> None | c # rest \<Rightarrow> Some c)"

lemma first_of_simps [simp]:
  "first_of cs = None \<longleftrightarrow> cs = []" "(\<exists>c. first_of cs = Some c) \<longleftrightarrow> cs \<noteq> []" "first_of [] = None"
  by (auto simp: first_of_def split: list.split)

lemma by_effect_tag: "store_inv s \<Longrightarrow>
    map_of (by_effect (store_filter (Some t) None None s)) e = first_of (with_id t e (s_log s))"
  by (simp add: by_effect_find find_filter_hd store_filter_tag with_id_def first_of_def conj_commute)


definition node_of :: "claim list \<Rightarrow> string \<Rightarrow> effect_kind \<Rightarrow> claim \<Rightarrow> effect_node" where
  "node_of lg e k i = \<lparr>en_id = e, en_kind = k, en_intent = i,
     en_result = first_of (with_id TAG_EFFECT_RESULT e lg), en_compensates = text_of (fget i F_COMPENSATES),
     en_compensated_by = compensators (by_effect (filter (\<lambda>c. tag c = TAG_EFFECT_INTENT) lg)) e,
     en_rejection = first_of (with_id TAG_EFFECT_REJECTED e lg)\<rparr>"

lemma map_of_map_filter:
  assumes "distinct (map fst xs)" and "\<And>k v. h (k, v) = map_option (Pair k) (g k v)"
  shows "map_of (List.map_filter h xs) k = Option.bind (map_of xs k) (g k)"
  using assms(1)
proof (induction xs)
  case (Cons x xs)
  obtain a b where x: "x = (a, b)" by fastforce
  have "map_of (List.map_filter h xs) k = None" if "k = a"
    using Cons that x by (simp add: map_of_eq_None_iff [symmetric])
  then show ?case
    using Cons x by (cases "g a b") (auto simp: List.map_filter_def assms(2))
qed (simp add: List.map_filter_def)

lemma project_nodes:
  assumes "store_inv s"
  shows "map_of (ew_nodes (effect_project s)) e = Option.bind (first_of (with_id TAG_EFFECT_INTENT e (s_log s)))
    (\<lambda>i. map_option (\<lambda>k. node_of (s_log s) e k i) (parse_kind (fget i F_KIND)))"
proof -
  let ?intents = "by_effect (store_filter (Some TAG_EFFECT_INTENT) None None s)"
  let ?g = "\<lambda>e c. map_option (\<lambda>k. \<lparr>en_id = e, en_kind = k, en_intent = c,
      en_result = map_of (by_effect (store_filter (Some TAG_EFFECT_RESULT) None None s)) e,
      en_compensates = text_of (fget c F_COMPENSATES), en_compensated_by = compensators ?intents e,
      en_rejection = map_of (by_effect (store_filter (Some TAG_EFFECT_REJECTED) None None s)) e\<rparr>)
    (parse_kind (fget c F_KIND))"
  have "map_of (ew_nodes (effect_project s)) e = Option.bind (map_of ?intents e) (?g e)"
    unfolding effect_project_def Let_def effect_view.simps
    by (rule map_of_map_filter) (auto simp: by_effect_distinct split: option.split)
  then show ?thesis
    by (simp add: by_effect_tag [OF assms] node_of_def) (simp add: store_filter_tag [OF assms])
qed

lemma project_orphans:
  assumes "store_inv s"
  shows "e \<in> set (ew_orphans (effect_project s)) \<longleftrightarrow> with_id TAG_EFFECT_INTENT e (s_log s) \<noteq> []
      \<and> with_id TAG_EFFECT_RESULT e (s_log s) = [] \<and> with_id TAG_EFFECT_REJECTED e (s_log s) = []"
    and "e \<in> set (ew_rejected (effect_project s)) \<longleftrightarrow> with_id TAG_EFFECT_INTENT e (s_log s) \<noteq> []
      \<and> with_id TAG_EFFECT_REJECTED e (s_log s) \<noteq> []"
proof -
  have first: "first_of cs = None \<longleftrightarrow> cs = []" for cs by (simp add: first_of_def split: list.split)
  have key: "(\<exists>c. (e, c) \<in> set (by_effect (store_filter (Some t) None None s))) \<longleftrightarrow> with_id t e (s_log s) \<noteq> []" for t
    using by_effect_tag [OF assms, of t e] first [of "with_id t e (s_log s)"] by_effect_distinct
    by (metis map_of_eq_Some_iff not_Some_eq)
  show "e \<in> set (ew_orphans (effect_project s)) \<longleftrightarrow> with_id TAG_EFFECT_INTENT e (s_log s) \<noteq> []
      \<and> with_id TAG_EFFECT_RESULT e (s_log s) = [] \<and> with_id TAG_EFFECT_REJECTED e (s_log s) = []"
    using key [of TAG_EFFECT_INTENT]
    by (auto simp: effect_project_def Let_def image_iff by_effect_tag [OF assms] first)
  show "e \<in> set (ew_rejected (effect_project s)) \<longleftrightarrow> with_id TAG_EFFECT_INTENT e (s_log s) \<noteq> []
      \<and> with_id TAG_EFFECT_REJECTED e (s_log s) \<noteq> []"
    using key [of TAG_EFFECT_INTENT] first [of "with_id TAG_EFFECT_REJECTED e (s_log s)"]
    by (auto simp: effect_project_def Let_def image_iff by_effect_tag [OF assms])
qed

lemma told_node:
  assumes "told lg e ph"
  shows "Option.bind (first_of (with_id TAG_EFFECT_INTENT e lg))
      (\<lambda>i. map_option (\<lambda>k. node_of lg e k i) (parse_kind (fget i F_KIND)))
    = (case ph of None \<Rightarrow> None | Some p \<Rightarrow> Some (node_of lg e
        (if phase_kind p = ''llm_call'' then LLM_CALL else TOOL_CALL) (hd (with_id TAG_EFFECT_INTENT e lg))))"
proof (cases ph)
  case None
  then show ?thesis using assms by (simp add: told_def first_of_def)
next
  case (Some p)
  then obtain i where "with_id TAG_EFFECT_INTENT e lg = [i]" "fget i F_KIND = VStr (phase_kind p)"
    "phase_kind p \<in> set VALID_KINDS" using assms by (auto simp: told_def)
  then show ?thesis using Some by (auto simp: first_of_def VALID_KINDS_def)
qed

section \<open>Lineage\<close>

lemma step_grows: "effect_step m c = Some m' \<Longrightarrow> m e \<noteq> None \<Longrightarrow> m' e \<noteq> None"
  by (erule step_cases) auto

text \<open>Links point to earlier intents: the ids have a rank that falls along every link.\<close>

lemma replay_ranked:
  "effect_replay lg = Some m \<Longrightarrow> \<exists>r :: string \<Rightarrow> nat. \<forall>c \<in> set lg. tag c = TAG_EFFECT_INTENT \<longrightarrow>
     (fget c F_COMPENSATES = VNone \<or> (\<exists>p. fget c F_COMPENSATES = VStr p))
     \<and> (\<forall>e p. fget c F_EFFECT_ID = VStr e \<longrightarrow> fget c F_COMPENSATES = VStr p \<longrightarrow>
          m e \<noteq> None \<and> m p \<noteq> None \<and> r p < r e)"
proof (induction lg arbitrary: m rule: rev_induct)
  case (snoc c lg)
  then obtain m0 where m0: "effect_replay lg = Some m0" "effect_step m0 c = Some m"
    by (auto simp: Option.bind_eq_Some_conv)
  from snoc.IH [OF m0(1)] obtain r :: "string \<Rightarrow> nat" where
    old: "\<And>x. x \<in> set lg \<Longrightarrow> tag x = TAG_EFFECT_INTENT \<Longrightarrow>
      fget x F_COMPENSATES = VNone \<or> (\<exists>p. fget x F_COMPENSATES = VStr p)"
    and ranks: "\<And>x e p. x \<in> set lg \<Longrightarrow> tag x = TAG_EFFECT_INTENT \<Longrightarrow> fget x F_EFFECT_ID = VStr e \<Longrightarrow>
      fget x F_COMPENSATES = VStr p \<Longrightarrow> m0 e \<noteq> None \<and> m0 p \<noteq> None \<and> r p < r e" by blast
  note grow = step_grows [OF m0(2)]
  show ?case
  proof (cases "tag c = TAG_EFFECT_INTENT")
    case False
    then show ?thesis using old ranks grow by (intro exI [of _ r]) auto
  next
    case True
    with m0(2) obtain e k where i: "fget c F_EFFECT_ID = VStr e" "m0 e = None"
      "m = m0(e \<mapsto> Proposed k (fget c F_DECLARED_SIDE_EFFECT))"
      and link: "fget c F_COMPENSATES = VNone \<or> (\<exists>p. fget c F_COMPENSATES = VStr p \<and> m0 p \<noteq> None)"
      by (cases rule: step_cases) (auto simp: effect_namespace_def)
    define r' where "r' = r(e := (case fget c F_COMPENSATES of VStr p \<Rightarrow> Suc (r p) | _ \<Rightarrow> 0))"
    have "m x \<noteq> None \<and> m p \<noteq> None \<and> r' p < r' x"
      if "y \<in> set (lg @ [c])" "tag y = TAG_EFFECT_INTENT" "fget y F_EFFECT_ID = VStr x" "fget y F_COMPENSATES = VStr p"
      for y x p
    proof (cases "y = c")
      case True
      then have "x = e" using that(3) i(1) by simp
      then show ?thesis using True that(4) link i by (auto simp: r'_def)
    next
      case False
      then have "m0 x \<noteq> None \<and> m0 p \<noteq> None \<and> r p < r x" using ranks that by simp
      then show ?thesis using i(2,3) by (auto simp: r'_def)
    qed
    moreover have "fget y F_COMPENSATES = VNone \<or> (\<exists>p. fget y F_COMPENSATES = VStr p)"
      if "y \<in> set (lg @ [c])" "tag y = TAG_EFFECT_INTENT" for y using that old link by auto
    ultimately show ?thesis by blast
  qed
qed auto

lemma chain_loop_lineage:
  assumes "\<And>e n. map_of nodes e = Some n \<Longrightarrow> en_id n = e"
    and "\<And>e n p. map_of nodes e = Some n \<Longrightarrow> en_compensates n = Some p \<Longrightarrow> map_of nodes p \<noteq> None \<and> r p < (r e :: nat)"
  shows "map_of nodes e = Some n \<Longrightarrow> \<forall>x \<in> set seen. r e < r x \<Longrightarrow>
    chain_loop nodes seen e \<noteq> [] \<and> hd (chain_loop nodes seen e) = n
    \<and> en_compensates (last (chain_loop nodes seen e)) = None
    \<and> sorted_wrt (\<lambda>a b. r (en_id b) < r (en_id a)) (chain_loop nodes seen e)
    \<and> successively (\<lambda>a b. en_compensates a = Some (en_id b)) (chain_loop nodes seen e)"
proof (induction "r e" arbitrary: e n seen rule: less_induct)
  case less
  have e: "en_id n = e" using assms(1) less.prems(1) .
  have loop: "chain_loop nodes seen e = n # (case en_compensates n of None \<Rightarrow> []
      | Some p \<Rightarrow> chain_loop nodes (e # seen) p)"
    using less.prems e by (subst chain_loop.simps) auto
  show ?case
  proof (cases "en_compensates n")
    case None
    then show ?thesis by (simp add: loop)
  next
    case (Some p)
    with assms(2) less.prems(1) obtain q where q: "map_of nodes p = Some q" "r p < r e" by blast
    then have "\<forall>x \<in> set (e # seen). r p < r x" using less.prems(2) by auto
    from less.hyps [OF q(2) q(1) this] have IH: "chain_loop nodes (e # seen) p \<noteq> []"
      "hd (chain_loop nodes (e # seen) p) = q" "en_compensates (last (chain_loop nodes (e # seen) p)) = None"
      "sorted_wrt (\<lambda>a b. r (en_id b) < r (en_id a)) (chain_loop nodes (e # seen) p)"
      "successively (\<lambda>a b. en_compensates a = Some (en_id b)) (chain_loop nodes (e # seen) p)" by blast+
    obtain ys where ys: "chain_loop nodes (e # seen) p = q # ys"
      using IH(1,2) by (cases "chain_loop nodes (e # seen) p") auto
    have "r (en_id b) < r e" if "b \<in> set (q # ys)" for b
    proof (cases "b = q")
      case False
      then have "r (en_id b) < r (en_id q)" using IH(4) that by (simp add: ys)
      then show ?thesis using q(2) assms(1) [OF q(1)] by simp
    qed (use q(2) assms(1) [OF q(1)] in simp)
    then show ?thesis using IH Some e assms(1) [OF q(1)] by (auto simp: loop ys)
  qed
qed


section \<open>Properties\<close>

text \<open>A small tape: two effects, the second compensating the first, one result, one refused.\<close>

definition effect_claim :: "string \<Rightarrow> string \<Rightarrow> fieldmap \<Rightarrow> claim" where
  "effect_claim cid t fs = \<lparr>tag = t, cfields = fs, kind = None, priority = 0, source = ''harness'',
     claim_id = cid, seq = - 1\<rparr>"

definition intent_fields :: "string \<Rightarrow> fieldmap" where
  "intent_fields e = [(F_EFFECT_ID, VStr e), (F_KIND, VStr ''tool_call''), (F_TOOL_NAME, VStr ''mail''),
     (F_ARGUMENTS, VDict []), (F_DECLARED_SIDE_EFFECT, VStr ''external_write'')]"

definition sample_effects :: "(string \<times> claim) list" where
  "sample_effects =
     [(''m1'', effect_claim ''c1'' TAG_EFFECT_INTENT (intent_fields ''tool_0000000000aa'')),
      (''m2'', effect_claim ''c2'' TAG_EFFECT_RESULT [(F_EFFECT_ID, VStr ''tool_0000000000aa''),
         (F_KIND, VStr ''tool_call''), (F_STATUS, VStr ''ok''), (F_OUTPUT, VNone),
         (F_SIDE_EFFECT, VStr ''read_only'')]),
      (''m3'', effect_claim ''c3'' TAG_EFFECT_INTENT
         (intent_fields ''tool_0000000000bb'' @ [(F_COMPENSATES, VStr ''tool_0000000000aa'')])),
      (''m4'', effect_claim ''c4'' TAG_EFFECT_INTENT (intent_fields ''tool_0000000000aa'')),
      (''m5'', effect_claim ''c5'' TAG_EFFECT_REJECTED [(F_EFFECT_ID, VStr ''tool_0000000000bb''),
         (F_KIND, VStr ''tool_call''), (F_REASON, VStr ''policy'')])]"

definition sample_effect_store :: store where
  "sample_effect_store = effect_session make_default_registry \<lparr>fail_counts = [], caution_threshold = 3\<rparr> [effect_row] sample_effects"

text \<open>
  C10: the tape of effects is a run of the abstract protocol. Whatever claims are offered to
  a row set that owns the effect row, the tape it keeps replays the protocol step by step:
  an effect is proposed once, under a valid id and kind, and then finishes once within its
  declared side effect or is refused once, and what the protocol state says of an effect is
  what the tape holds for it.
\<close>

theorem effect_tape_follows_protocol:
  assumes "effect_row \<in> set rows"
  shows "\<exists>m. effect_replay (s_log (effect_session reg ctx rows cs)) = Some m
    \<and> (\<forall>e. told (s_log (effect_session reg ctx rows cs)) e (m e))"
  using session_inv(2) [OF assms] replay_told by blast

lemma effect_tape_follows_protocol_witness:
  "map claim_id (s_log sample_effect_store) = [''c1'', ''c2'', ''c3'', ''c5'']
    \<and> (\<exists>m. effect_replay (s_log sample_effect_store) = Some m
        \<and> told (s_log sample_effect_store) ''tool_0000000000aa'' (m ''tool_0000000000aa''))"
proof
  show "map claim_id (s_log sample_effect_store) = [''c1'', ''c2'', ''c3'', ''c5'']" by code_simp
  show "\<exists>m. effect_replay (s_log sample_effect_store) = Some m
      \<and> told (s_log sample_effect_store) ''tool_0000000000aa'' (m ''tool_0000000000aa'')"
    using effect_tape_follows_protocol [of "[effect_row]" make_default_registry
      "\<lparr>fail_counts = [], caution_threshold = 3\<rparr>" sample_effects]
    by (auto simp: sample_effect_store_def)
qed

text \<open>
  C33: the effect view reads the protocol back. Its nodes are the proposed effects with their
  kinds, its orphans those with neither result nor rejection, its rejected list the refused
  ones, and a node is terminal exactly when the protocol has settled it.
\<close>

theorem effect_view_reads_protocol:
  assumes "effect_row \<in> set rows" and "v = effect_project (effect_session reg ctx rows cs)"
    and "effect_replay (s_log (effect_session reg ctx rows cs)) = Some m"
  shows "(e \<in> set (ew_orphans v) \<longleftrightarrow> (\<exists>k d. m e = Some (Proposed k d)))
    \<and> (e \<in> set (ew_rejected v) \<longleftrightarrow> (\<exists>k. m e = Some (Refused k)))
    \<and> map_option (effect_kind_value \<circ> en_kind) (map_of (ew_nodes v) e) = map_option phase_kind (m e)
    \<and> map_option node_terminal (map_of (ew_nodes v) e)
        = map_option (\<lambda>p. case p of Proposed k d \<Rightarrow> False | _ \<Rightarrow> True) (m e)"
proof -
  let ?s = "effect_session reg ctx rows cs"
  have inv: "store_inv ?s" using session_inv(1) [OF assms(1)] .
  have told: "told (s_log ?s) e (m e)" using replay_told [OF assms(3)] .
  note nodes = project_nodes [OF inv, of e, unfolded told_node [OF told]]
  show ?thesis
  proof (cases "m e")
    case None
    then show ?thesis using told nodes by (simp add: assms(2) project_orphans [OF inv] told_def)
  next
    case (Some p)
    then have "phase_kind p \<in> set VALID_KINDS" using told by (auto simp: told_def)
    then have k: "effect_kind_value (if phase_kind p = ''llm_call'' then LLM_CALL else TOOL_CALL) = phase_kind p"
      by (auto simp: VALID_KINDS_def)
    have "with_id TAG_EFFECT_RESULT e (s_log ?s) \<noteq> [] \<longleftrightarrow> (\<exists>k. p = Finished k)"
      "with_id TAG_EFFECT_REJECTED e (s_log ?s) \<noteq> [] \<longleftrightarrow> (\<exists>k. p = Refused k)"
      "with_id TAG_EFFECT_INTENT e (s_log ?s) \<noteq> []"
      using told Some by (cases p; auto simp: told_def)+
    then show ?thesis
      using nodes Some k by (cases p)
        (simp_all add: assms(2) project_orphans [OF inv] node_of_def node_terminal_def)
  qed
qed


lemma effect_view_reads_protocol_witness:
  "\<exists>m. effect_replay (s_log sample_effect_store) = Some m
    \<and> (''tool_0000000000bb'' \<in> set (ew_rejected (effect_project sample_effect_store))
        \<longleftrightarrow> (\<exists>k. m ''tool_0000000000bb'' = Some (Refused k)))"
proof -
  obtain m where m: "effect_replay (s_log sample_effect_store) = Some m"
    using session_inv(2) [of "[effect_row]" make_default_registry "\<lparr>fail_counts = [], caution_threshold = 3\<rparr>" sample_effects]
    by (auto simp: sample_effect_store_def)
  show ?thesis
    using effect_view_reads_protocol [OF _ refl m [unfolded sample_effect_store_def], of "''tool_0000000000bb''"] m
    by (auto simp: sample_effect_store_def)
qed

text \<open>
  C34: lineage ends. From every effect of a folded tape the chain of compensations reaches
  an effect that compensates nothing: it ends with the effect asked for, each effect of it
  is compensated by the next, and no effect occurs twice, so the walk's guard against
  cycles never fires.
\<close>

theorem effect_lineage_reaches_root:
  assumes "effect_row \<in> set rows" and "v = effect_project (effect_session reg ctx rows cs)"
    and "map_of (ew_nodes v) e = Some n"
  shows "chain v e \<noteq> [] \<and> last (chain v e) = n \<and> en_compensates (hd (chain v e)) = None
    \<and> distinct (map en_id (chain v e))
    \<and> successively (\<lambda>a b. en_compensates b = Some (en_id a)) (chain v e)"
proof -
  let ?s = "effect_session reg ctx rows cs"
  let ?lg = "s_log ?s"
  from session_inv [OF assms(1)] obtain m where inv: "store_inv ?s" and m: "effect_replay ?lg = Some m" by blast
  note nodes = project_nodes [OF inv, unfolded told_node [OF replay_told [OF m]]]
  obtain r :: "string \<Rightarrow> nat" where ranks: "\<And>c e p. c \<in> set ?lg \<Longrightarrow> tag c = TAG_EFFECT_INTENT \<Longrightarrow>
      fget c F_EFFECT_ID = VStr e \<Longrightarrow> fget c F_COMPENSATES = VStr p \<Longrightarrow> m p \<noteq> None \<and> r p < r e"
    using replay_ranked [OF m] by blast
  have node: "en_id n = e" and link: "en_compensates n = Some p \<Longrightarrow> map_of (ew_nodes v) p \<noteq> None \<and> r p < r e"
    if n: "map_of (ew_nodes v) e = Some n" for e n p
  proof -
    from n obtain ph where ph: "m e = Some ph" and eq: "n = node_of ?lg e
        (if phase_kind ph = ''llm_call'' then LLM_CALL else TOOL_CALL) (hd (with_id TAG_EFFECT_INTENT e ?lg))"
      by (auto simp: assms(2) nodes split: option.splits)
    then show "en_id n = e" by (simp add: node_of_def)
    obtain i where "with_id TAG_EFFECT_INTENT e ?lg = [i]"
      using replay_told [OF m, of e] ph by (auto simp: told_def)
    then have i: "hd (with_id TAG_EFFECT_INTENT e ?lg) = i" "i \<in> set ?lg" "tag i = TAG_EFFECT_INTENT"
      "fget i F_EFFECT_ID = VStr e"
      using filter_set [of "\<lambda>c. tag c = TAG_EFFECT_INTENT \<and> fget c F_EFFECT_ID = VStr e" ?lg]
      by (auto simp: with_id_def filter_eq_Cons_iff)
    assume "en_compensates n = Some p"
    then have "fget i F_COMPENSATES = VStr p"
      using eq i(1) by (cases "fget i F_COMPENSATES") (simp_all add: node_of_def)
    with ranks [OF i(2-4)] show "map_of (ew_nodes v) p \<noteq> None \<and> r p < r e"
      by (auto simp: assms(2) nodes)
  qed
  have "chain_loop (ew_nodes v) [] e \<noteq> [] \<and> hd (chain_loop (ew_nodes v) [] e) = n
    \<and> en_compensates (last (chain_loop (ew_nodes v) [] e)) = None
    \<and> sorted_wrt (\<lambda>a b. r (en_id b) < r (en_id a)) (chain_loop (ew_nodes v) [] e)
    \<and> successively (\<lambda>a b. en_compensates a = Some (en_id b)) (chain_loop (ew_nodes v) [] e)"
    by (rule chain_loop_lineage) (use node link assms(3) in auto)
  moreover have ranked: "sorted_wrt (\<lambda>a b. r (en_id b) < r (en_id a)) xs \<Longrightarrow> distinct (map en_id xs)" for xs
    by (induction xs) auto
  ultimately show ?thesis using ranked [of "chain_loop (ew_nodes v) [] e"]
    by (simp add: chain_def last_rev hd_rev successively_rev rev_map [symmetric])
qed

lemma effect_lineage_reaches_root_witness:
  "map en_id (chain (effect_project sample_effect_store) ''tool_0000000000bb'')
      = [''tool_0000000000aa'', ''tool_0000000000bb'']
    \<and> en_compensates (hd (chain (effect_project sample_effect_store) ''tool_0000000000bb'')) = None"
proof
  have ids: "map en_id (chain (effect_project sample_effect_store) ''tool_0000000000bb'')
      = [''tool_0000000000aa'', ''tool_0000000000bb'']" by code_simp
  then show "map en_id (chain (effect_project sample_effect_store) ''tool_0000000000bb'')
      = [''tool_0000000000aa'', ''tool_0000000000bb'']" .
  have "map_option en_id (map_of (ew_nodes (effect_project sample_effect_store)) ''tool_0000000000bb'')
      = Some ''tool_0000000000bb''" by code_simp
  then obtain n where "map_of (ew_nodes (effect_project sample_effect_store)) ''tool_0000000000bb'' = Some n" by auto
  then show "en_compensates (hd (chain (effect_project sample_effect_store) ''tool_0000000000bb'')) = None"
    using effect_lineage_reaches_root [of "[effect_row]" _ make_default_registry
      "\<lparr>fail_counts = [], caution_threshold = 3\<rparr>" sample_effects, OF _ refl]
    by (simp add: sample_effect_store_def)
qed

text \<open>A canonical JSON value passes the strict shape check of the row.\<close>

lemma canon_clean:
  "canon v = Inr t \<Longrightarrow> shape_errors True t = []"
  "canons vs = Inr ts \<Longrightarrow> list_errors True ts = []"
  "canon_items d = Inr fs \<Longrightarrow> \<forall>kv \<in> set fs. shape_errors True (snd kv) = []"
proof (induction v and vs and d arbitrary: t and ts and fs rule: canon_canons_canon_items.induct)
  case (10 d)
  have clean: "dict_errors True (map (\<lambda>(k, x). (KStr k, x)) fs) = []"
    if "\<forall>kv \<in> set fs. shape_errors True (snd kv) = []" for fs
    using that by (induction fs) auto
  show ?case using 10 clean by (auto simp: vobj_def)
next
  case (16 kv d)
  then obtain k x xs where k: "fst kv = KStr k" and x: "canon (snd kv) = Inr x"
    and xs: "canon_items d = Inr xs" "fs = (k, x) # xs" by (auto split: pykey.splits)
  show ?case using 16(1) [OF k x] 16(2) [OF k xs(1)] by (simp add: xs(2))
qed (auto split: xfloat.splits pykey.splits)

lemma json_mapping_canon: "json_mapping d = Inr e \<Longrightarrow> canon (VDict d) = Inr (VDict e)"
  by (cases "canon (VDict d)")
    (auto simp: json_mapping_def effect_json_copy_def simp del: canon.simps split: pyval.splits)

lemma amounts_dict_ok:
  assumes "distinct (map fst d @ seen)" and "\<forall>(b, r) \<in> set d. strip b = b \<and> b \<noteq> [] \<and> 0 \<le> r"
  shows "amounts_ok seen (map (\<lambda>(b, r). (KStr b, VFloat (Fin r))) d)"
  using assms by (induction d arbitrary: seen) (auto simp: finite_nonnegative_def)

lemma proposal_amounts:
  assumes "efoldl proposal_amount [] amounts = Inr est"
  shows "distinct (map fst est) \<and> (\<forall>(b, r) \<in> set est. strip b = b \<and> b \<noteq> [] \<and> 0 \<le> r)"
  using assms
proof (rule efoldl_invariant)
  fix acc kv acc'
  assume acc: "distinct (map fst acc) \<and> (\<forall>(b, r) \<in> set acc. strip b = b \<and> b \<noteq> [] \<and> 0 \<le> r)"
    and "proposal_amount acc kv = Inr acc'"
  then obtain b r where "acc' = dict_put (strip b) r acc" "0 \<le> r" "strip b \<noteq> []"
    by (auto simp: proposal_amount_def split: pykey.splits if_splits option.splits)
  then show "distinct (map fst acc') \<and> (\<forall>(b, r) \<in> set acc'. strip b = b \<and> b \<noteq> [] \<and> 0 \<le> r)"
    using acc set_dict_put [of "strip b" r acc] by auto
qed simp

lemma effect_id_form:
  assumes "length suffix = 12" and "set suffix \<subseteq> set HEX"
  shows "effect_id_match (''call_'' @ suffix)" and "effect_id_match (''tool_'' @ suffix)"
  using assms by (auto simp: effect_id_match_def effect_id_chars_def)

lemma claim_id_form:
  assumes "12 \<le> length (digest (''lipas-effect:'' @ effect_kind_value k @ '':'' @ ep_effect_id p))"
    and "set (digest (''lipas-effect:'' @ effect_kind_value k @ '':'' @ ep_effect_id p)) \<subseteq> set HEX"
  shows "effect_id_match (proposal_claim_id digest p k)"
proof -
  define q where "q = (if k = LLM_CALL then ''call'' else ''tool'')"
  define named where "named = ''lipas-effect:'' @ effect_kind_value k @ '':'' @ ep_effect_id p"
  define suffix where "suffix = (if starts_with (ep_effect_id p) (q @ ''_'')
      then drop (length q + 1) (ep_effect_id p) else [])"
  have eq: "proposal_claim_id digest p k = (if length suffix = 12 \<and> (\<forall>c \<in> set suffix. c \<in> set HEX)
      then ep_effect_id p else q @ ''_'' @ take 12 (digest named))"
    unfolding proposal_claim_id_def Let_def q_def suffix_def named_def by (rule refl)
  have form: "effect_id_match (q @ ''_'' @ xs)" if "length xs = 12" "set xs \<subseteq> set HEX" for xs
    using effect_id_form [OF that] by (cases k) (simp_all add: q_def)
  show ?thesis
  proof (cases "length suffix = 12 \<and> (\<forall>c \<in> set suffix. c \<in> set HEX)")
    case True
    then have "starts_with (ep_effect_id p) (q @ ''_'')" by (cases "starts_with (ep_effect_id p) (q @ ''_'')") (simp_all add: suffix_def)
    then have "q @ ''_'' @ suffix = ep_effect_id p"
      using append_take_drop_id [of "length q + 1" "ep_effect_id p"] by (simp add: suffix_def starts_with_def)
    with form [of suffix] True show ?thesis by (auto simp: eq)
  next
    case False
    have "effect_id_match (q @ ''_'' @ take 12 (digest named))"
      using assms by (intro form) (auto simp: named_def dest: in_set_takeD)
    then show ?thesis unfolding eq if_not_P [OF False] .
  qed
qed

text \<open>
  C35: a proposal that could be made is admitted by the row: the provenance fields it puts on
  an intent raise no objection, and the claim id it chooses has the form the row demands,
  whether its own id was kept or replaced by a digest.
\<close>

theorem proposals_are_admissible:
  assumes "make_proposal effect_id knd actor capabilities amounts risk caused_by metadata = Inr p"
    and "cfields c = proposal_fields p"
    and "12 \<le> length (digest (''lipas-effect:'' @ effect_kind_value k @ '':'' @ ep_effect_id p))"
    and "set (digest (''lipas-effect:'' @ effect_kind_value k @ '':'' @ ep_effect_id p)) \<subseteq> set HEX"
  shows "check_proposal c = [] \<and> check_optional_text c F_CAUSED_BY = []
    \<and> effect_id_match (proposal_claim_id digest p k)"
proof -
  from assms(1) obtain md where texts: "ep_effect_id p = strip effect_id" "strip effect_id \<noteq> []"
    "ep_kind p = strip knd" "strip knd \<noteq> []" "ep_actor p = strip actor" "strip actor \<noteq> []"
    "ep_risk p = strip risk" "strip risk \<noteq> []"
    and caps: "ep_capabilities p = frozen (map strip capabilities)" "\<forall>x \<in> set capabilities. strip x \<noteq> []"
    and est: "efoldl proposal_amount [] amounts = Inr (ep_estimate p)"
    and md: "json_mapping metadata = Inr (ep_metadata p)"
    and cb: "effect_text_opt caused_by = Inr (ep_caused_by p)"
    by (auto simp: make_proposal_def effect_text_def capability_names_def split: if_splits)
  note names = F_PROPOSAL_ID_def F_PROPOSAL_KIND_def F_ACTOR_def F_CAPABILITIES_def F_RISK_def F_ESTIMATE_def
    F_PROPOSAL_METADATA_def F_CAUSED_BY_def
  have f: "fget c F_PROPOSAL_ID = VStr (ep_effect_id p)" "fget c F_PROPOSAL_KIND = VStr (ep_kind p)"
    "fget c F_ACTOR = VStr (ep_actor p)" "fget c F_CAPABILITIES = text_list (ep_capabilities p)"
    "fget c F_RISK = VStr (ep_risk p)" "fget c F_ESTIMATE = amount_dict (ep_estimate p)"
    "fget c F_PROPOSAL_METADATA = VDict (ep_metadata p)" "fget c F_CAUSED_BY = text_or_none (ep_caused_by p)"
    by (simp_all add: fget_def assms(2) proposal_fields_def names dict_get_def text_or_none_def split: option.split)
  have "caps_ok (text_list (ep_capabilities p))"
    using caps by (auto simp: caps_ok_def text_list_def frozen_def comp_def distinct_map inj_on_def)
  moreover have "amounts_ok [] (map (\<lambda>(b, r). (KStr b, VFloat (Fin r))) (ep_estimate p))"
    using proposal_amounts [OF est] by (intro amounts_dict_ok) auto
  moreover have "json_shape_errors (VDict (ep_metadata p)) = []"
    using canon_clean(1) [OF json_mapping_canon [OF md]] by (simp add: json_shape_errors_def)
  ultimately have "check_proposal c = []"
    using texts by (simp add: check_proposal_def f amount_dict_def vobj_def case_prod_unfold comp_def)
  moreover have "check_optional_text c F_CAUSED_BY = []"
    using cb by (auto simp: check_optional_text_def f text_or_none_def effect_text_opt_def split: option.splits if_splits)
  moreover have "effect_id_match (proposal_claim_id digest p k)"
    using assms(3,4) by (rule claim_id_form)
  ultimately show ?thesis by blast
qed

lemma proposals_are_admissible_witness:
  "\<exists>p. make_proposal '' mail-42 '' ''email_send'' ''agent'' [''mail'', ''net''] [(KStr ''usd'', VInt 2)] ''low'' None
        [(KStr ''to'', VStr ''bob'')] = Inr p
    \<and> check_proposal (effect_claim ''c1'' TAG_EFFECT_INTENT (proposal_fields p)) = []
    \<and> effect_id_match (proposal_claim_id (\<lambda>s. replicate 64 (CHR ''a'')) p TOOL_CALL)"
proof -
  have "\<not> isl (make_proposal '' mail-42 '' ''email_send'' ''agent'' [''mail'', ''net''] [(KStr ''usd'', VInt 2)] ''low'' None
      [(KStr ''to'', VStr ''bob'')])" by code_simp
  then obtain p where p: "make_proposal '' mail-42 '' ''email_send'' ''agent'' [''mail'', ''net''] [(KStr ''usd'', VInt 2)]
      ''low'' None [(KStr ''to'', VStr ''bob'')] = Inr p" by (metis sum.collapse(2))
  from proposals_are_admissible [OF p, of "effect_claim ''c1'' TAG_EFFECT_INTENT (proposal_fields p)"
      "\<lambda>s. replicate 64 (CHR ''a'')" TOOL_CALL] p
  show ?thesis by (auto simp: effect_claim_def HEX_def)
qed

end
