(* ===== verification/ToolHarnessProps.thy ===== *)
theory ToolHarnessProps
  imports ToolHarnessCall EffectProps
begin

text \<open>
  What the tool harness guarantees (\<open>lipas/tool_harness.py\<close>), for every sequence of calls
  and reconciliations, on a fresh tape or on one left behind by an earlier process: every
  claim goes through the rows, no effect is executed twice, a call that returns has settled
  its effect, and a replay does not repeat external writes.
\<close>

section \<open>Properties every fold keeps\<close>

text \<open>
  The harness changes its row set only by folding claims. A property of the harness that
  folds and the session bookkeeping keep is kept by all of it but the runs of a handler.
\<close>

locale kept_by_folds =
  fixes P :: "harness \<Rightarrow> bool"
  assumes folds: "P h \<Longrightarrow> P (h\<lparr>th_rowset := snd (rowset_fold cid c (th_rowset h)), th_drawn := n\<rparr>)"
    and consumed: "P h \<Longrightarrow> P (h\<lparr>th_consumed := es\<rparr>)"
    and drawn: "P h \<Longrightarrow> P (h\<lparr>th_drawn := n\<rparr>)"
    and started: "P h \<Longrightarrow> P (h\<lparr>th_started := b\<rparr>)"
begin

lemma fold [keeps_intros]: "keeps P (th_fold env cid mk)"
  by (auto simp: keeps_def th_fold_def Let_def folds split: prod.split sum.split)
    (metis folds snd_conv)+

lemma get [keeps_intros]: "keeps P (sget f)"
  by (simp add: keeps_def sget_def)

lemma bucket: "keeps P (fold_bucket cfg env eid s item)"
  unfolding fold_bucket_def Let_def
  by (cases item) (auto intro!: keeps_intros)

lemma buckets: "keeps P (fold_buckets cfg env eid s items)"
  by (induction items) (auto intro!: keeps_intros bucket)

lemma spends [keeps_intros]: "keeps P (fold_spend cfg env eid sp)"
  unfolding fold_spend_def by (intro keeps_intros buckets)

lemma claims [keeps_intros]:
  "keeps P (fold_intent env eid t as cp cb pr)" "keeps P (fold_intent_unknown env eid n as cp cb pr)"
  "keeps P (fold_result env eid t out st err sp)" "keeps P (fold_rejected env eid rs d src)"
  "keeps P (fold_rejection env eid r)" "keeps P (fold_admission_rejection env eid dec)"
  by (simp_all add: fold_intent_def fold_intent_unknown_def fold_result_def fold_rejected_def
      fold_rejection_def fold_admission_rejection_def fold)

lemma rejecting [keeps_intros]:
  "keeps P (reject_call env ci t as a r c)" "keeps P (deny_call env ci t a d)"
  "keeps P (unknown_tool_call cfg env ci a)"
  by (simp_all add: reject_call_def deny_call_def unknown_tool_call_def Let_def) (intro keeps_intros)+

lemma recovering [keeps_intros]: "keeps P (recover_existing cfg env ci as pr)"
  unfolding recover_existing_def by (intro keeps_intros)

lemma replaying [keeps_intros]: "keeps P (replay_step cfg env ci t a)"
proof -
  have "keeps P restore_consumed" "\<And>f. keeps P (sput (\<lambda>h. h\<lparr>th_consumed := f h\<rparr>))"
    "keeps P (sput (\<lambda>h. h\<lparr>th_started := True\<rparr>))"
    by (simp_all add: restore_consumed_def keeps_def sput_def consumed started)
  moreover have "keeps P (replay_substitute cfg env ci t a d)" for d
    unfolding replay_substitute_def by (intro keeps_intros)
  moreover have "keeps P (replay_refuse env r ci t a d)" for r d
    unfolding replay_refuse_def by (intro keeps_intros)
  ultimately show ?thesis
    unfolding replay_step_def
    by (intro keeps_intros) (auto split: replay_operation.split intro!: keeps_intros)
qed

lemma drawing [keeps_intros]: "keeps P (draw_uuid env)"
  unfolding draw_uuid_def by (intro keeps_intros) (simp add: keeps_def sput_def drawn)

lemma recording [keeps_intros]:
  "keeps P (record_failure cfg env ci t est wall ordinary name raw)"
  "keeps P (record_success cfg env ci t est wall v)"
  unfolding record_failure_def record_success_def record_invalid_def
  by (intro keeps_intros)+

lemma reconciling [keeps_intros]: "keeps P (reconcile_orphan cfg env e output err wall)"
  unfolding reconcile_orphan_def Let_def
  by (intro keeps_intros) (auto split: prod.split pyval.split intro!: keeps_intros)

end

text \<open>A property that says nothing of the runs is kept by every command.\<close>

locale kept_by_harness = kept_by_folds +
  assumes runs: "P h \<Longrightarrow> P (h\<lparr>th_runs := rs\<rparr>)"
begin

lemma attempting [keeps_intros]: "keeps P (attempt_tool cfg eid t as)"
proof -
  have "keeps P (sput (\<lambda>h. h\<lparr>th_runs := f h\<rparr>))" for f by (simp add: keeps_def sput_def runs)
  then show ?thesis
    unfolding attempt_tool_def by (auto split: sum.split prod.split intro!: keeps_intros)
qed

lemma gated [keeps_intros]: "keeps P (gated_call cfg env ci t a)"
proof -
  have "keeps P (execute_tool cfg env ci t as est)" for as est
    unfolding execute_tool_def
    by (intro keeps_intros) (auto split: tool_outcome.split intro!: keeps_intros)
  then show ?thesis
    unfolding gated_call_def Let_def
    by (cases "t_bind t (ca_arguments a)") (auto split: sum.split intro!: keeps_intros)
qed

lemma new_calls [keeps_intros]: "keeps P (new_call cfg env ci a)"
  unfolding new_call_def by (auto split: sum.split option.split intro!: keeps_intros)

lemma calling: "keeps P (tool_call cfg env a)"
  unfolding tool_call_def by (intro keeps_intros)

end

section \<open>Sessions\<close>

text \<open>
  A harness opened on a row set, and the commands an agent and an operator give it. A
  command that raises leaves its state behind for the next one.
\<close>

datatype harness_command =
    Call call_args
  | Reconcile string pyval "args option" pyval

definition harness_open :: "rowset \<Rightarrow> harness" where
  "harness_open rs = \<lparr>th_rowset = rs, th_started = False, th_consumed = [], th_drawn = 0, th_runs = []\<rparr>"

fun harness_step :: "harness_config \<Rightarrow> harness_env \<Rightarrow> harness \<Rightarrow> harness_command \<Rightarrow> harness" where
  "harness_step cfg env h (Call a) = snd (tool_call cfg env a h)"
| "harness_step cfg env h (Reconcile e out err wall) = snd (reconcile_orphan cfg env e out err wall h)"

definition harness_run :: "harness_config \<Rightarrow> harness_env \<Rightarrow> harness \<Rightarrow> harness_command list \<Rightarrow> harness" where
  "harness_run cfg env h cmds = foldl (harness_step cfg env) h cmds"

lemma harness_run_invariant:
  assumes "\<And>a. keeps P (tool_call cfg env a)" and "\<And>e out err wall. keeps P (reconcile_orphan cfg env e out err wall)"
    and "P h"
  shows "P (harness_run cfg env h cmds)"
  using assms(3)
proof (induction cmds arbitrary: h)
  case (Cons cmd cmds)
  have "P (harness_step cfg env h cmd)"
    using Cons.prems by (cases cmd) (auto intro: keepsD [OF assms(1)] keepsD [OF assms(2)])
  then show ?case using Cons.IH by (simp add: harness_run_def)
qed (simp add: harness_run_def)

interpretation effects: kept_by_harness "\<lambda>h. effect_inv (th_rowset h)"
  by unfold_locales (auto intro: effect_inv_fold)


lemmas effects_session = harness_run_invariant [OF effects.calling effects.reconciling]

section \<open>An accepted claim is on the tape\<close>

definition on_tape :: "string \<Rightarrow> string \<Rightarrow> harness \<Rightarrow> bool" where
  "on_tape t e h \<longleftrightarrow> with_id t e (s_log (th_store h)) \<noteq> []"

text \<open>Every effect claim of a checked tape names its effect.\<close>

lemma logged_effect_id:
  "effect_replay lg = Some m \<Longrightarrow> x \<in> set lg \<Longrightarrow> tag x \<in> set effect_namespace \<Longrightarrow> \<exists>e. fget x F_EFFECT_ID = VStr e"
proof (induction lg arbitrary: m rule: rev_induct)
  case (snoc c lg)
  then obtain m0 where m0: "effect_replay lg = Some m0" "effect_step m0 c = Some m"
    by (auto split: option.splits bind_splits)
  show ?case
  proof (cases "x \<in> set lg")
    case True
    with snoc.IH [OF m0(1)] snoc.prems(3) show ?thesis by blast
  next
    case False
    then have "x = c" using snoc.prems(2) by simp
    with m0(2) snoc.prems(3) show ?thesis by (auto elim!: step_cases)
  qed
qed simp

lemma fields_eq_text:
  assumes "fields_eq f g" and "dict_get VNone f k = VStr e" and "dict_get VNone g k = VStr e'"
  shows "e = e'"
proof -
  have key: "map_of (map (\<lambda>(k, v). (KStr k, v)) g) (KStr k) = map_of g k" for g :: fieldmap
    by (induction g) auto
  from assms(2) have "map_of f k = Some (VStr e)" by (simp add: dict_get_def split: option.splits)
  then have "(KStr k, VStr e) \<in> set (map (\<lambda>(k, v). (KStr k, v)) f)" by (force dest: map_of_SomeD)
  with assms(1) obtain w where "map_of g k = Some w" "py_eq (VStr e) w"
    by (auto simp: fields_eq_def vobj_def py_sub_iff key)
  then show ?thesis using assms(3) by (simp add: dict_get_def)
qed

lemma accepted_on_tape:
  assumes inv: "effect_inv rs" and ok: "fst (rowset_fold cid c rs) = Inr r"
    and c: "tag c \<in> set effect_namespace" "fget c F_EFFECT_ID = VStr e"
  shows "with_id (tag c) e (s_log (rs_store (snd (rowset_fold cid c rs)))) \<noteq> []"
proof (rule rowset_fold_cases [of cid c rs])
  assume acc: "snd (rowset_fold cid c rs) = rs\<lparr>rs_store := snd (store_fold cid c (rs_store rs))\<rparr>"
    "fst (rowset_fold cid c rs) = fst (store_fold cid c (rs_store rs))"
  let ?s = "rs_store rs"
  have st: "store_inv ?s" using inv by (simp add: effect_inv_def)
  show ?thesis
  proof (cases "claim_id c \<in> claim_id ` set (s_log ?s)")
    case True
    then obtain x where x: "x \<in> set (s_log ?s)" "claim_id x = claim_id c" by auto
    have same: "same_claim_payload x c"
      using tape.fold_conflict [OF st x] ok acc(2) by fastforce
    then have tg: "tag x = tag c" by (simp add: same_claim_payload_def)
    obtain m where "effect_replay (s_log ?s) = Some m" using inv by (auto simp: effect_inv_def)
    from logged_effect_id [OF this x(1)] tg c(1) obtain e' where e': "fget x F_EFFECT_ID = VStr e'" by auto
    have "e' = e" using fields_eq_text [of "cfields x" "cfields c" F_EFFECT_ID e' e] same e' c(2)
      by (simp add: same_claim_payload_def fget_def)
    with x(1) tg e' tape.fold_known [OF st True] show ?thesis
      by (auto simp: acc(1) with_id_def filter_empty_conv)
  next
    case False
    from tape.fold_fresh [OF st this, of cid] obtain c' where
      "s_log (snd (store_fold cid c ?s)) = s_log ?s @ [c']" "tag c' = tag c" "cfields c' = cfields c"
      by blast
    then show ?thesis using c(2) by (simp add: acc(1) with_id_def fget_def)
  qed
qed (use ok in auto)

lemma on_tape_bookkeeping [simp]:
  "on_tape t e (h\<lparr>th_consumed := es\<rparr>) = on_tape t e h" "on_tape t e (h\<lparr>th_drawn := n\<rparr>) = on_tape t e h"
  "on_tape t e (h\<lparr>th_started := b\<rparr>) = on_tape t e h" "on_tape t e (h\<lparr>th_runs := xs\<rparr>) = on_tape t e h"
  by (simp_all add: on_tape_def th_store_def)

lemma effect_inv_store: "effect_inv rs \<Longrightarrow> store_inv (rs_store rs)"
  by (simp add: effect_inv_def)

lemma on_tape_fold:
  assumes "store_inv (rs_store (th_rowset h))" and "on_tape t e h"
  shows "on_tape t e (h\<lparr>th_rowset := snd (rowset_fold cid c (th_rowset h))\<rparr>)"
proof (rule rowset_fold_cases [of cid c "th_rowset h"])
  assume acc: "snd (rowset_fold cid c (th_rowset h))
      = (th_rowset h)\<lparr>rs_store := snd (store_fold cid c (rs_store (th_rowset h)))\<rparr>"
  obtain tl where "s_log (snd (store_fold cid c (rs_store (th_rowset h)))) = s_log (rs_store (th_rowset h)) @ tl"
    using tape.log_fold_prefix [OF assms(1)] by blast
  then show ?thesis using assms(2) by (simp add: acc on_tape_def th_store_def with_id_def)
qed (use assms(2) in \<open>auto simp: on_tape_def th_store_def\<close>)

definition recorded :: "string \<Rightarrow> string \<Rightarrow> harness \<Rightarrow> bool" where
  "recorded t e h \<longleftrightarrow> effect_inv (th_rowset h) \<and> on_tape t e h"

interpretation recorded: kept_by_harness "recorded t e" for t e
  by unfold_locales (simp_all add: recorded_def effect_inv_fold on_tape_fold effect_inv_store)

lemma th_fold_recorded:
  assumes "th_fold env cid mk h = (Inr u, h')" and "effect_inv (th_rowset h)"
    and "\<And>i. tag (mk i) = t" and "\<And>i. fget (mk i) F_EFFECT_ID = VStr e" and "t \<in> set effect_namespace"
  shows "recorded t e h'"
proof -
  let ?i = "case cid of None \<Rightarrow> take 8 (he_uuid env (th_drawn h)) | Some i \<Rightarrow> i"
  let ?m = "take 8 (he_uuid env (th_drawn h + 1))"
  obtain r where "fst (rowset_fold ?m (mk ?i) (th_rowset h)) = Inr r"
    "th_rowset h' = snd (rowset_fold ?m (mk ?i) (th_rowset h))"
    using assms(1) by (auto simp: th_fold_def Let_def split: prod.splits sum.splits)
  then show ?thesis
    using accepted_on_tape [OF assms(2), of ?m "mk ?i" r e] assms(3-5) effect_inv_fold [OF assms(2)]
    by (simp add: recorded_def on_tape_def th_store_def)
qed

lemma dict_get_update_other: "k \<notin> fst ` set g \<Longrightarrow> dict_get d (dict_update f g) k = dict_get d f k"
  by (induction g arbitrary: f) (auto simp: dict_update_def dict_get_def)

lemma intent_recorded:
  assumes "fold_intent env e t as cp cb pr h = (Inr u, h')" and "effect_inv (th_rowset h)"
  shows "recorded TAG_EFFECT_INTENT e h'"
  using assms(1) [unfolded fold_intent_def] assms(2)
proof (rule th_fold_recorded)
  fix i
  have key: "F_EFFECT_ID \<notin> fst ` set (case pr of None \<Rightarrow> [] | Some p \<Rightarrow> proposal_fields p)"
    by (cases pr; cases "ep_caused_by (the pr)")
      (simp_all add: proposal_fields_def F_EFFECT_ID_def F_PROPOSAL_ID_def F_PROPOSAL_KIND_def F_ACTOR_def
        F_CAPABILITIES_def F_RISK_def F_ESTIMATE_def F_PROPOSAL_METADATA_def F_CAUSED_BY_def)
  then show "fget (new_claim TAG_EFFECT_INTENT (tool_intent_fields e (t_name t) (class_value (t_side_effect t)) as cp cb pr)
      ''tool_harness.call'' i) F_EFFECT_ID = VStr e"
    by (simp add: fget_def new_claim_def tool_intent_fields_def dict_get_update_other [OF key])
      (simp add: dict_get_def)
qed (simp_all add: new_claim_def effect_namespace_def)

section \<open>Runs\<close>

text \<open>
  \<open>old\<close> are the effects whose intent the harness found on its tape. Every run is of another
  effect, has its intent on the tape, and no effect ran twice.
\<close>

definition runs_ok :: "string set \<Rightarrow> harness \<Rightarrow> bool" where
  "runs_ok old h \<longleftrightarrow> effect_inv (th_rowset h) \<and> distinct (map fst (th_runs h))
     \<and> (\<forall>e \<in> fst ` set (th_runs h). on_tape TAG_EFFECT_INTENT e h \<and> e \<notin> old)
     \<and> (\<forall>e \<in> old. on_tape TAG_EFFECT_INTENT e h)"

definition not_run :: "string set \<Rightarrow> string \<Rightarrow> harness \<Rightarrow> bool" where
  "not_run old e h \<longleftrightarrow> runs_ok old h \<and> e \<notin> fst ` set (th_runs h) \<and> e \<notin> old"

lemma runs_ok_fold: "runs_ok old h \<Longrightarrow>
    runs_ok old (h\<lparr>th_rowset := snd (rowset_fold cid c (th_rowset h))\<rparr>)"
  by (simp add: runs_ok_def effect_inv_fold on_tape_fold effect_inv_store)

lemma runs_ok_bookkeeping [simp]:
  "runs_ok old (h\<lparr>th_consumed := es\<rparr>) = runs_ok old h" "runs_ok old (h\<lparr>th_drawn := n\<rparr>) = runs_ok old h"
  "runs_ok old (h\<lparr>th_started := b\<rparr>) = runs_ok old h"
  by (simp_all add: runs_ok_def)

interpretation runs_ok: kept_by_folds "runs_ok old" for old
  by unfold_locales (simp_all add: runs_ok_fold)

interpretation not_run: kept_by_folds "not_run old e" for old e
  by unfold_locales (auto simp: not_run_def runs_ok_fold)

text \<open>Steps from one property of the state to another.\<close>

definition leads :: "('s \<Rightarrow> bool) \<Rightarrow> ('s \<Rightarrow> (exn + 'a) \<times> 's) \<Rightarrow> ('s \<Rightarrow> bool) \<Rightarrow> bool" where
  "leads P m Q \<longleftrightarrow> (\<forall>s. P s \<longrightarrow> Q (snd (m s)))"

lemma leads_keeps: "keeps P m \<Longrightarrow> (\<And>s. P s \<Longrightarrow> Q s) \<Longrightarrow> leads P m Q"
  by (auto simp: leads_def keeps_def)

lemma leads_bind:
  assumes "\<And>s s' e. P s \<Longrightarrow> m s = (Inl e, s') \<Longrightarrow> Q s'"
    and "\<And>s s' x. P s \<Longrightarrow> m s = (Inr x, s') \<Longrightarrow> R s'" and "\<And>x. leads R (f x) Q"
  shows "leads P (sbind m f) Q"
proof -
  have "Q (snd (sbind m f s))" if "P s" for s
  proof -
    obtain r s' where m: "m s = (r, s')" by fastforce
    show ?thesis
      using assms(1) [OF that] assms(2) [OF that] assms(3) m
      by (cases r) (simp_all add: sbind_def leads_def)
  qed
  then show ?thesis by (simp add: leads_def)
qed

lemma leads_bind_keeps:
  assumes "keeps P m" and "\<And>s. P s \<Longrightarrow> Q s" and "\<And>x. leads P (f x) Q"
  shows "leads P (sbind m f) Q"
  by (rule leads_bind [where R = P]) (use assms in \<open>force simp: keeps_def\<close>)+

lemma executed_once:
  "leads (\<lambda>h. not_run old (ci_eid ci) h \<and> on_tape TAG_EFFECT_INTENT (ci_eid ci) h)
    (execute_tool cfg env ci t as est) (runs_ok old)"
proof -
  let ?P = "\<lambda>h. not_run old (ci_eid ci) h \<and> on_tape TAG_EFFECT_INTENT (ci_eid ci) h"
  have ran: "runs_ok old (h\<lparr>th_runs := th_runs h @ [(ci_eid ci, x)]\<rparr>)" if "?P h" for h x
    using that by (auto simp: not_run_def runs_ok_def)
  have attempt: "leads ?P (attempt_tool cfg (ci_eid ci) t as) (runs_ok old)"
    using ran by (auto simp: leads_def attempt_tool_def sbind_def sget_def sput_def sret_def not_run_def
        split: sum.split prod.split option.split)
  have account: "leads (runs_ok old) (case outcome of
      TaskCancelled \<Rightarrow> slift (Inl Cancelled)
    | Raised ordinary name raw \<Rightarrow> record_failure cfg env ci t est wall ordinary name raw
    | Returned v \<Rightarrow> record_success cfg env ci t est wall v) (runs_ok old)" for outcome wall
    by (rule leads_keeps) (auto intro!: runs_ok.recording keeps_intros split: tool_outcome.split)
  have "leads ?P (sbind (attempt_tool cfg (ci_eid ci) t as) (\<lambda>outcome. case outcome of
      TaskCancelled \<Rightarrow> slift (Inl Cancelled)
    | Raised ordinary name raw \<Rightarrow> record_failure cfg env ci t est wall ordinary name raw
    | Returned v \<Rightarrow> record_success cfg env ci t est wall v)) (runs_ok old)" for wall
    by (rule leads_bind [where R = "runs_ok old", OF _ _ account])
      (metis attempt leads_def snd_conv)+
  then show ?thesis
    unfolding execute_tool_def
    by (rule leads_bind_keeps [rotated 2]) (auto simp: keeps_def sget_def not_run_def)
qed

lemma gated_once: "leads (not_run old (ci_eid ci)) (gated_call cfg env ci t a) (runs_ok old)"
proof -
  let ?P = "not_run old (ci_eid ci)"
  have ok: "?P h \<Longrightarrow> runs_ok old h" for h by (simp add: not_run_def)
  have reject: "leads ?P (reject_call env ci t as a r c) (runs_ok old)" for as r c
    by (rule leads_keeps [OF not_run.rejecting(1) ok])
  have run: "leads ?P (sbind (fold_intent env (ci_eid ci) t as cp cb pr) (\<lambda>_. execute_tool cfg env ci t as est))
      (runs_ok old)" for as cp cb pr est
  proof (rule leads_bind [OF _ _ executed_once])
    fix s s' x
    assume s: "?P s"
    then have keep: "?P (snd (fold_intent env (ci_eid ci) t as cp cb pr s))" by (rule keepsD [OF not_run.claims(1)])
    then show "fold_intent env (ci_eid ci) t as cp cb pr s = (Inl e, s') \<Longrightarrow> runs_ok old s'" for e
      by (simp add: ok)
    assume m: "fold_intent env (ci_eid ci) t as cp cb pr s = (Inr x, s')"
    from intent_recorded [OF this] s keep m
    show "?P s' \<and> on_tape TAG_EFFECT_INTENT (ci_eid ci) s'"
      by (simp add: not_run_def runs_ok_def recorded_def)
  qed
  show ?thesis
    unfolding gated_call_def Let_def
    by (cases "t_bind t (ca_arguments a)")
      (auto intro!: leads_bind_keeps reject run ok keeps_intros not_run.get split: option.split sum.split)
qed

lemma new_call_once: "leads (not_run old (ci_eid ci)) (new_call cfg env ci a) (runs_ok old)"
proof -
  let ?P = "not_run old (ci_eid ci)"
  have ok: "?P h \<Longrightarrow> runs_ok old h" for h by (simp add: not_run_def)
  have other: "leads ?P m (runs_ok old)" if "keeps ?P m" for m :: "tool_result harness_op"
    by (rule leads_keeps [OF that ok])
  have run: "leads ?P (sbind (replay_step cfg env ci t a) (\<lambda>replayed. case replayed of
      Some x \<Rightarrow> sret x | None \<Rightarrow> gated_call cfg env ci t a)) (runs_ok old)" for t
    by (rule leads_bind_keeps [OF not_run.replaying ok])
      (auto simp: gated_once intro!: other keeps_intros split: option.split)
  show ?thesis
    unfolding new_call_def
    by (simp add: run other not_run.rejecting split: option.split sum.split)
qed

text \<open>Only an effect without a recorded intent gets past the recovery.\<close>

lemma tape_told:
  assumes "effect_inv rs"
  obtains m where "effect_replay (s_log (rs_store rs)) = Some m" "\<And>e. told (s_log (rs_store rs)) e (m e)"
  using assms replay_told by (auto simp: effect_inv_def)

lemma node_absent:
  assumes "effect_inv (th_rowset h)"
  shows "map_of (ew_nodes (effect_project (th_store h))) e = None \<longleftrightarrow> \<not> on_tape TAG_EFFECT_INTENT e h"
proof -
  obtain m where told: "told (s_log (th_store h)) e (m e)"
    using assms tape_told [of "th_rowset h"] by (metis th_store_def)
  have inv: "store_inv (th_store h)" using effect_inv_store [OF assms] by (simp add: th_store_def)
  from told have "m e = None \<longleftrightarrow> \<not> on_tape TAG_EFFECT_INTENT e h"
    by (auto simp: told_def on_tape_def split: option.splits)
  then show ?thesis
    by (cases "m e") (simp_all add: project_nodes [OF inv] told_node [OF told])
qed

lemma recover_None:
  assumes "recover_existing cfg env ci as pr h = (Inr None, h')" and "hc_effect_row cfg"
  shows "h' = h \<and> map_of (ew_nodes (effect_project (th_store h))) (ci_eid ci) = None"
proof (cases "map_of (ew_nodes (effect_project (th_store h))) (ci_eid ci)")
  case None
  then show ?thesis using assms by (simp add: recover_existing_def sbind_def sget_def sret_def)
next
  case (Some n)
  then have "sbind (slift (recovery_check (hc_tools cfg) n ci as pr)) (\<lambda>_.
            case en_result n of
              Some r \<Rightarrow> sbind (slift (recorded_spend r)) (\<lambda>sp. sbind (fold_spend cfg env (ci_eid ci) sp) (\<lambda>_.
                sret (Some (result_of (ci_result_id ci) (recorded_content r) (fget r F_STATUS = VStr ''error'')))))
            | None \<Rightarrow> (case en_rejection n of
                Some r \<Rightarrow> sbind (slift (recovered_rejection_content env r)) (\<lambda>c.
                  sret (Some (result_of (ci_result_id ci) c True)))
              | None \<Rightarrow> slift (Inl OrphanedEffectError))) h = (Inr None, h')"
    using assms by (simp add: recover_existing_def sbind_def [of "sget th_store"] sget_def)
  then show ?thesis
    by (cases "en_result n"; cases "en_rejection n") (auto simp: raise_iffs)
qed

lemma call_once:
  assumes "hc_effect_row cfg"
  shows "keeps (runs_ok old) (tool_call cfg env a)"
proof -
  have after: "leads (runs_ok old) (sbind (recover_existing cfg env ci (ca_arguments a) (ca_proposal a)) (\<lambda>recovered.
      case recovered of Some x \<Rightarrow> sret x | None \<Rightarrow> new_call cfg env ci a)) (runs_ok old)" for ci
  proof -
    let ?m = "recover_existing cfg env ci (ca_arguments a) (ca_proposal a)"
    have "runs_ok old (snd (sbind ?m (\<lambda>recovered. case recovered of Some x \<Rightarrow> sret x | None \<Rightarrow> new_call cfg env ci a) h))"
      if h: "runs_ok old h" for h
    proof -
      have keep: "runs_ok old (snd (?m h))" using h by (rule keepsD [OF runs_ok.recovering])
      show ?thesis
      proof (cases "fst (?m h)")
        case (Inr x)
        show ?thesis
        proof (cases x)
          case None
          with Inr have m: "?m h = (Inr None, snd (?m h))" by (metis prod.collapse)
          from recover_None [OF this assms] have s: "snd (?m h) = h"
            and "map_of (ew_nodes (effect_project (th_store h))) (ci_eid ci) = None" by auto
          then have "not_run old (ci_eid ci) h"
            using h node_absent [of h "ci_eid ci"] by (auto simp: not_run_def runs_ok_def)
          then show ?thesis using new_call_once m s by (simp add: sbind_def leads_def)
        next
          case (Some y)
          with Inr keep show ?thesis by (cases "?m h") (simp add: sbind_def sret_def)
        qed
      qed (use keep in \<open>cases "?m h", simp add: sbind_def\<close>)
    qed
    then show ?thesis by (simp add: leads_def)
  qed
  have "leads (runs_ok old) (tool_call cfg env a) (runs_ok old)"
    unfolding tool_call_def
    by (intro leads_bind_keeps runs_ok.drawing keeps_intros after) simp_all
  then show ?thesis by (simp add: leads_def keeps_def)
qed

section \<open>Replay\<close>

definition ran_only :: "(string \<Rightarrow> bool) \<Rightarrow> harness \<Rightarrow> bool" where
  "ran_only Q h \<longleftrightarrow> (\<forall>x \<in> set (th_runs h). Q (fst (snd x)))"

interpretation ran: kept_by_folds "ran_only Q" for Q
  by unfold_locales (simp_all add: ran_only_def)

lemma gated_ran_only:
  assumes "Q (t_name t)"
  shows "keeps (ran_only Q) (gated_call cfg env ci t a)"
proof -
  have "keeps (ran_only Q) (sput (\<lambda>h. h\<lparr>th_runs := th_runs h @ [(e, t_name t, as)]\<rparr>))" for e as
    using assms by (simp add: keeps_def sput_def ran_only_def)
  then have "keeps (ran_only Q) (attempt_tool cfg e t as)" for e as
    unfolding attempt_tool_def
    by (auto intro!: keeps_intros ran.get split: sum.split prod.split)
  then have "keeps (ran_only Q) (execute_tool cfg env ci t as est)" for as est
    unfolding execute_tool_def
    by (auto intro!: keeps_intros ran.get ran.recording split: tool_outcome.split)
  then show ?thesis
    unfolding gated_call_def Let_def
    by (cases "t_bind t (ca_arguments a)")
      (auto intro!: keeps_intros ran.get ran.rejecting ran.claims split: option.split sum.split)
qed

lemma replay_step_None:
  assumes "replay_step cfg env ci t a h = (Inr None, h')" and "hc_replayer cfg = Some r"
  obtains ex d where "decide r t (ca_arguments a) ex = Inr d" "rd_operation d = Re_execute"
proof -
  from assms obtain ex d s1 where d: "decide r t (ca_arguments a) ex = Inr d"
    and "(case rd_operation d of
          Fail \<Rightarrow> slift (Inl ReplayMissing)
        | Substitute \<Rightarrow> sbind (replay_substitute cfg env ci t a d) (\<lambda>x. sret (Some x))
        | Refuse \<Rightarrow> sbind (replay_refuse env r ci t a d) (\<lambda>x. sret (Some x))
        | Re_execute \<Rightarrow> sret None) s1 = (Inr None, h')"
    by (auto simp: replay_step_def sbind_Inr_iff slift_Inr_iff)
  then have "rd_operation d = Re_execute"
    by (cases "rd_operation d") (auto simp: raise_iffs)
  with d show thesis by (rule that)
qed

lemma new_call_ran_only:
  assumes "hc_replayer cfg = Some r"
    and "\<And>t ex d. tools_get (hc_tools cfg) (ci_name ci) = Inr t \<Longrightarrow> decide r t (ca_arguments a) ex = Inr d \<Longrightarrow>
      rd_operation d = Re_execute \<Longrightarrow> Q (t_name t)"
  shows "keeps (ran_only Q) (new_call cfg env ci a)"
proof -
  have run: "keeps (ran_only Q) (sbind (replay_step cfg env ci t a) (\<lambda>replayed. case replayed of
      Some x \<Rightarrow> sret x | None \<Rightarrow> gated_call cfg env ci t a))"
    if t: "tools_get (hc_tools cfg) (ci_name ci) = Inr t" for t
  proof -
    let ?f = "\<lambda>replayed. case replayed of Some x \<Rightarrow> sret x | None \<Rightarrow> gated_call cfg env ci t a"
    have "ran_only Q (snd (sbind (replay_step cfg env ci t a) ?f h))" if h: "ran_only Q h" for h
    proof (cases "replay_step cfg env ci t a h")
      case (Pair res h')
      have keep: "ran_only Q h'" using keepsD [OF ran.replaying h] Pair by (metis snd_conv)
      show ?thesis
      proof (cases "res = Inr None")
        case True
        with Pair have "replay_step cfg env ci t a h = (Inr None, h')" by simp
        then obtain ex d where "decide r t (ca_arguments a) ex = Inr d" "rd_operation d = Re_execute"
          using assms(1) by (rule replay_step_None)
        with assms(2) [OF t] have "Q (t_name t)" by blast
        from keepsD [OF gated_ran_only [where Q = Q, OF this] keep] show ?thesis
          using Pair True by (simp add: sbind_def)
      next
        case False
        then show ?thesis using Pair keep by (auto simp: sbind_def sret_def split: sum.split option.split)
      qed
    qed
    then show ?thesis by (simp add: keeps_def)
  qed
  show ?thesis
    unfolding new_call_def
    by (auto simp: run intro!: ran.rejecting keeps_intros split: option.split sum.split)
qed

lemma tools_named:
  assumes "tools_init ts = Inr reg" and "tools_get reg name = Inr t"
  shows "t_name t = name"
proof -
  have "\<forall>(n, t) \<in> set reg. t_name t = n"
    using assms(1) unfolding tools_init_def
  proof (rule efoldl_invariant)
    fix acc :: tool_registry and x acc'
    assume "tools_register x acc = Inr acc'" "\<forall>(n, t) \<in> set acc. t_name t = n"
    then show "\<forall>(n, t) \<in> set acc'. t_name t = n"
      using set_dict_put [of "t_name x" x acc] by (auto simp: tools_register_def split: if_splits)
  qed simp
  then show ?thesis using assms(2) by (auto simp: tools_get_def split: option.splits dest!: map_of_SomeD)
qed

lemma re_executed_external:
  assumes "decide r t args ex = Inr d" and "rd_operation d = Re_execute" and "\<not> rp_allow_external r"
    and "t_side_effect t = EXTERNAL_WRITE"
  shows "t_observability_only t"
  using assms(1)
proof (rule decide_cases)
  fix current effective
  assume eff: "effective = (if t_observability_only t \<and> class_rank READ_ONLY < class_rank current then READ_ONLY else current)"
    and rank: "class_rank (t_side_effect t) \<le> class_rank current"
    and d: "d = (case replay_lookup r t args ex of
      Some n \<Rightarrow> present_branch r (t_side_effect t) effective n
    | None \<Rightarrow> absent_branch r (t_side_effect t) effective)"
  from rank assms(4) have "current = EXTERNAL_WRITE" by (cases current) simp_all
  then show ?thesis
    using eff d assms(2,3) by (cases "replay_lookup r t args ex")
      (auto simp: present_branch_def absent_branch_def decision_for_def split: if_splits)
qed

lemma session_ran_only:
  assumes "hc_replayer cfg = Some r" and "ran_only Q h"
    and "\<And>name t as ex d. tools_get (hc_tools cfg) name = Inr t \<Longrightarrow> decide r t as ex = Inr d \<Longrightarrow>
      rd_operation d = Re_execute \<Longrightarrow> Q (t_name t)"
  shows "ran_only Q (harness_run cfg env h cmds)"
proof (rule harness_run_invariant)
  show "keeps (ran_only Q) (tool_call cfg env a)" for a
    unfolding tool_call_def
    by (auto intro!: keeps_intros ran.drawing ran.recovering new_call_ran_only [OF assms(1)] assms(3)
        split: option.split)
  show "keeps (ran_only Q) (reconcile_orphan cfg env e out err wall)" for e out err wall
    by (rule ran.reconciling)
  show "ran_only Q h" by (rule assms(2))
qed

section \<open>A returned call is settled\<close>

definition yields :: "('s \<Rightarrow> bool) \<Rightarrow> ('s \<Rightarrow> (exn + 'a) \<times> 's) \<Rightarrow> ('a \<Rightarrow> 's \<Rightarrow> bool) \<Rightarrow> bool" where
  "yields P m Q \<longleftrightarrow> (\<forall>s x s'. P s \<longrightarrow> m s = (Inr x, s') \<longrightarrow> Q x s')"

lemma yields_bind: "yields P m (\<lambda>_. R) \<Longrightarrow> (\<And>x. yields R (f x) Q) \<Longrightarrow> yields P (sbind m f) Q"
  by (auto simp: yields_def sbind_Inr_iff)

lemma yields_keeps: "keeps P m \<Longrightarrow> yields P m (\<lambda>_. P)"
  by (auto simp: yields_def keeps_def)

lemma yields_bind_keeps: "keeps P m \<Longrightarrow> (\<And>x. yields P (f x) Q) \<Longrightarrow> yields P (sbind m f) Q"
  by (rule yields_bind [OF yields_keeps])

lemma yields_raise [simp]: "yields P (slift (Inl e)) Q"
  by (simp add: yields_def slift_def)

definition settled :: "string \<Rightarrow> harness \<Rightarrow> bool" where
  "settled e h \<longleftrightarrow> recorded TAG_EFFECT_RESULT e h \<or> recorded TAG_EFFECT_REJECTED e h"

interpretation settled: kept_by_harness "settled e" for e
  by unfold_locales
    (auto simp: settled_def intro: recorded.folds recorded.consumed recorded.drawn recorded.started recorded.runs)

definition answered :: "call_identity \<Rightarrow> tool_result \<Rightarrow> harness \<Rightarrow> bool" where
  "answered ci x h \<longleftrightarrow> tr_tool_use_id x = ci_result_id ci \<and> settled (ci_eid ci) h"

abbreviation checked :: "harness \<Rightarrow> bool" where
  "checked h \<equiv> effect_inv (th_rowset h)"

lemma answer: "yields (settled (ci_eid ci)) (sret (result_of (ci_result_id ci) c b)) (answered ci)"
  by (simp add: yields_def sret_def answered_def result_of_def)

lemma settling_fold:
  assumes "\<And>i. tag (mk i) = t" and "\<And>i. fget (mk i) F_EFFECT_ID = VStr e"
    and "t = TAG_EFFECT_RESULT \<or> t = TAG_EFFECT_REJECTED"
  shows "yields checked (th_fold env cid mk) (\<lambda>_. settled e)"
  using th_fold_recorded [of env cid mk _ _ _ t e] assms
  by (auto simp: yields_def settled_def effect_namespace_def)

lemma settling:
  "yields checked (fold_result env e t out st err sp) (\<lambda>_. settled e)"
  "yields checked (fold_rejected env e rs d src) (\<lambda>_. settled e)"
  "yields checked (fold_rejection env e r) (\<lambda>_. settled e)"
  "yields checked (fold_admission_rejection env e dec) (\<lambda>_. settled e)"
  by (unfold fold_result_def fold_rejection_def fold_admission_rejection_def fold_rejected_def)
    (rule settling_fold [where t = TAG_EFFECT_RESULT] settling_fold [where t = TAG_EFFECT_REJECTED],
      simp_all add: new_claim_def fget_def dict_get_def)+

lemma answered_reject: "yields checked (reject_call env ci t as a r c) (answered ci)"
  unfolding reject_call_def
  by (intro yields_bind_keeps effects.claims yields_bind [OF settling(3)] answer)

lemma answered_deny: "yields checked (deny_call env ci t a d) (answered ci)"
  unfolding deny_call_def
  by (intro yields_bind_keeps effects.claims yields_bind [OF settling(4)] answer)

lemma answered_unknown: "yields checked (unknown_tool_call cfg env ci a) (answered ci)"
  unfolding unknown_tool_call_def Let_def
  by (intro yields_bind_keeps effects.claims yields_bind [OF settling(3)] answer)

lemma answered_failure: "yields checked (record_failure cfg env ci t est wall ordinary name raw) (answered ci)"
  unfolding record_failure_def
  by (intro yields_bind_keeps keeps_lift yields_bind [OF settling(1)] settled.spends)
    (simp add: answer)

lemma answered_invalid: "yields checked (record_invalid cfg env ci t sp e) (answered ci)"
proof -
  have "yields checked (sbind (fold_result env (ci_eid ci) t VNone ''error'' fs sp)
      (\<lambda>_. sbind (fold_spend cfg env (ci_eid ci) sp) (\<lambda>_. sret (result_of (ci_result_id ci) c True)))) (answered ci)" for fs c
    by (intro yields_bind [OF settling(1)] yields_bind_keeps settled.spends answer)
  then show ?thesis by (simp add: record_invalid_def)
qed

lemma answered_success: "yields checked (record_success cfg env ci t est wall v) (answered ci)"
proof -
  let ?body = "\<lambda>sp. sbind (slift (prepare_output env v)) (\<lambda>out.
      sbind (fold_result env (ci_eid ci) t out ''ok'' None sp) (\<lambda>_. sret out))"
  have body: "yields checked (?body sp) (\<lambda>_. settled (ci_eid ci))" and kept: "keeps checked (?body sp)" for sp
    by (intro yields_bind_keeps keeps_lift yields_bind [OF settling(1)] yields_keeps keeps_ret)
      (intro keeps_intros effects.claims)
  have spends: "yields (settled (ci_eid ci)) (sbind (fold_spend cfg env (ci_eid ci) sp)
      (\<lambda>_. sret (result_of (ci_result_id ci) c False))) (answered ci)" for sp c
    by (intro yields_bind_keeps settled.spends answer)
  have "yields checked (stry (?body sp) (record_invalid cfg env ci t sp)
      (\<lambda>out. sbind (fold_spend cfg env (ci_eid ci) sp)
        (\<lambda>_. sret (result_of (ci_result_id ci) (stringify out) False)))) (answered ci)" for sp
  proof -
    have "answered ci x h'" if h: "checked h"
      and m: "stry (?body sp) (record_invalid cfg env ci t sp) (\<lambda>out. sbind (fold_spend cfg env (ci_eid ci) sp)
        (\<lambda>_. sret (result_of (ci_result_id ci) (stringify out) False))) h = (Inr x, h')" for x h h'
    proof (cases "?body sp h")
      case (Pair res s1)
      then have "checked s1" using keepsD [OF kept [of sp] h] by simp
      then show ?thesis
        using m Pair answered_invalid body [of sp] spends h by (cases res) (auto simp: stry_def yields_def)
    qed
    then show ?thesis by (auto simp: yields_def)
  qed
  then show ?thesis unfolding record_success_def by (intro yields_bind_keeps keeps_lift)
qed

lemma answered_gated: "yields checked (gated_call cfg env ci t a) (answered ci)"
proof -
  have "yields checked (execute_tool cfg env ci t as est) (answered ci)" for as est
    unfolding execute_tool_def
    by (intro yields_bind_keeps effects.get effects.attempting)
      (simp add: answered_failure answered_success split: tool_outcome.split)
  then show ?thesis
    unfolding gated_call_def Let_def
    by (cases "t_bind t (ca_arguments a)")
      (auto intro!: yields_bind_keeps effects.get effects.claims keeps_lift answered_reject split: option.split sum.split)
qed

lemma answered_substitute: "yields checked (replay_substitute cfg env ci t a d) (answered ci)"
proof -
  have key: "F_SPEND \<noteq> F_EFFECT_ID" by (simp add: F_SPEND_def F_EFFECT_ID_def)
  have "yields checked (th_fold env None (new_claim TAG_EFFECT_RESULT
      (dict_put F_SPEND (spend_dict replayed_spend) (dict_put F_EFFECT_ID (VStr (ci_eid ci)) fs)) src))
      (\<lambda>_. settled (ci_eid ci))" for fs src
    by (rule settling_fold [where t = TAG_EFFECT_RESULT])
      (simp_all add: fget_def new_claim_def dict_get_def key [symmetric])
  then show ?thesis
    unfolding replay_substitute_def
    by (auto intro!: yields_bind_keeps [OF effects.claims(1)] yields_bind [where R = "settled (ci_eid ci)"]
        yields_bind_keeps [OF settled.spends] answer split: option.split)
qed

lemma answered_replay:
  "yields checked (replay_step cfg env ci t a) (\<lambda>x h. case x of None \<Rightarrow> checked h | Some y \<Rightarrow> answered ci y h)"
proof -
  define Q where "Q = (\<lambda>x h. case x of None \<Rightarrow> checked h | Some y \<Rightarrow> answered ci y h)"
  have wrap: "yields checked (sbind m (\<lambda>x. sret (Some x))) Q"
    if "yields checked m (answered ci)" for m
    using that by (auto simp: Q_def yields_def raise_iffs)
  have none: "yields checked (sret None) Q"
    by (simp add: Q_def yields_def sret_def)
  have refuse: "yields checked (replay_refuse env r ci t a d) (answered ci)" for r d
    by (auto simp: replay_refuse_def yields_def raise_iffs)
  have kept: "keeps checked restore_consumed" "\<And>f. keeps checked (sput (\<lambda>h. h\<lparr>th_consumed := f h\<rparr>))"
    "keeps checked (sput (\<lambda>h. h\<lparr>th_started := True\<rparr>))"
    by (simp_all add: restore_consumed_def keeps_def sput_def)
  have chosen: "yields checked (case rd_operation d of
          Fail \<Rightarrow> slift (Inl ReplayMissing)
        | Substitute \<Rightarrow> sbind (replay_substitute cfg env ci t a d) (\<lambda>x. sret (Some x))
        | Refuse \<Rightarrow> sbind (replay_refuse env r ci t a d) (\<lambda>x. sret (Some x))
        | Re_execute \<Rightarrow> sret None) Q" for r d
    by (cases "rd_operation d") (simp_all add: none wrap answered_substitute refuse)
  have "yields checked (replay_step cfg env ci t a) Q"
    unfolding replay_step_def
    by (auto intro!: none chosen yields_bind_keeps kept effects.get effects.fold keeps_intros split: option.split)
  then show ?thesis by (simp only: Q_def)
qed

lemma node_recorded:
  assumes "checked h" and "map_of (ew_nodes (effect_project (th_store h))) e = Some n"
  shows "en_result n \<noteq> None \<Longrightarrow> settled e h" "en_rejection n \<noteq> None \<Longrightarrow> settled e h"
proof -
  have inv: "store_inv (th_store h)" using effect_inv_store [OF assms(1)] by (simp add: th_store_def)
  from assms(2) obtain k i where n: "n = node_of (s_log (th_store h)) e k i"
    by (auto simp: project_nodes [OF inv] bind_eq_Some_conv)
  show "en_result n \<noteq> None \<Longrightarrow> settled e h" "en_rejection n \<noteq> None \<Longrightarrow> settled e h"
    using assms(1) by (auto simp: n node_of_def settled_def recorded_def on_tape_def first_of_def split: list.splits)
qed

lemma answered_recover:
  "yields checked (recover_existing cfg env ci as pr) (\<lambda>x h. case x of None \<Rightarrow> checked h | Some y \<Rightarrow> answered ci y h)"
proof -
  define Q where "Q = (\<lambda>x h. case x of None \<Rightarrow> checked h | Some y \<Rightarrow> answered ci y h)"
  have again: "yields (settled (ci_eid ci)) (sret (Some (result_of (ci_result_id ci) c b))) Q" for c b
    by (simp add: Q_def yields_def sret_def answered_def result_of_def)
  have "Q x h'" if h: "checked h" and m: "recover_existing cfg env ci as pr h = (Inr x, h')" for x h h'
  proof (cases "hc_effect_row cfg")
    case False
    then show ?thesis using h m by (simp add: recover_existing_def sret_def Q_def)
  next
    case row: True
    show ?thesis
    proof (cases "map_of (ew_nodes (effect_project (th_store h))) (ci_eid ci)")
      case None
      then show ?thesis using h m row by (simp add: recover_existing_def sbind_def sget_def sret_def Q_def)
    next
      case (Some n)
      let ?m = "sbind (slift (recovery_check (hc_tools cfg) n ci as pr)) (\<lambda>_.
            case en_result n of
              Some r \<Rightarrow> sbind (slift (recorded_spend r)) (\<lambda>sp. sbind (fold_spend cfg env (ci_eid ci) sp) (\<lambda>_.
                sret (Some (result_of (ci_result_id ci) (recorded_content r) (fget r F_STATUS = VStr ''error'')))))
            | None \<Rightarrow> (case en_rejection n of
                Some r \<Rightarrow> sbind (slift (recovered_rejection_content env r)) (\<lambda>c.
                  sret (Some (result_of (ci_result_id ci) c True)))
              | None \<Rightarrow> slift (Inl OrphanedEffectError)))"
      have body: "?m h = (Inr x, h')"
        using m row Some by (simp add: recover_existing_def sbind_def [of "sget th_store"] sget_def)
      show ?thesis
      proof (cases "en_result n = None \<and> en_rejection n = None")
        case True
        then show ?thesis using body by (simp add: raise_iffs)
      next
        case False
        then have "settled (ci_eid ci) h" using node_recorded [OF h Some] by auto
        moreover have "yields (settled (ci_eid ci)) ?m Q"
          by (auto intro!: yields_bind_keeps keeps_lift settled.spends again split: option.split)
        ultimately show ?thesis using body by (auto simp: yields_def)
      qed
    qed
  qed
  then show ?thesis by (simp add: yields_def Q_def)
qed

lemma answered_then:
  assumes "yields checked m (\<lambda>x h. case x of None \<Rightarrow> checked h | Some y \<Rightarrow> answered ci y h)"
    and "yields checked k (answered ci)"
  shows "yields checked (sbind m (\<lambda>x. case x of Some y \<Rightarrow> sret y | None \<Rightarrow> k)) (answered ci)"
  using assms by (fastforce simp: yields_def sbind_Inr_iff sret_Inr_iff split: option.splits)

lemma answered_new: "yields checked (new_call cfg env ci a) (answered ci)"
  unfolding new_call_def
  by (simp add: answered_unknown answered_deny answered_then [OF answered_replay answered_gated]
      split: sum.split option.split)

lemma settled_node:
  assumes "settled e h"
  shows "\<exists>n. map_of (ew_nodes (effect_project (th_store h))) e = Some n \<and> node_terminal n"
proof -
  have inv: "checked h" using assms by (auto simp: settled_def recorded_def)
  obtain m where told: "told (s_log (th_store h)) e (m e)"
    using tape_told [OF inv] by (metis th_store_def)
  have st: "store_inv (th_store h)" using effect_inv_store [OF inv] by (simp add: th_store_def)
  have tape: "with_id TAG_EFFECT_RESULT e (s_log (th_store h)) \<noteq> []
      \<or> with_id TAG_EFFECT_REJECTED e (s_log (th_store h)) \<noteq> []"
    using assms by (auto simp: settled_def recorded_def on_tape_def)
  then obtain p where p: "m e = Some p" using told by (cases "m e") (auto simp: told_def)
  have "node_terminal (node_of (s_log (th_store h)) e k i)" for k i
    using tape by (auto simp: node_of_def node_terminal_def first_of_def split: list.split)
  then show ?thesis using project_nodes [OF st, of e, unfolded told_node [OF told]] p by auto
qed

section \<open>Properties\<close>

text \<open>A harness over two rows with one tool, that sends a message and costs one call.\<close>

definition mail_tool :: tool where
  "mail_tool = \<lparr>t_name = ''mail'', t_side_effect = EXTERNAL_WRITE, t_buckets = [''tool_calls'', ''wall_seconds''],
     t_observability_only = False, t_bind = (\<lambda>as. Inr as), t_estimate = None, t_run = (\<lambda>n as. Returned (VStr ''sent''))\<rparr>"

definition sample_config :: "replayer option \<Rightarrow> harness_config" where
  "sample_config r = \<lparr>hc_tools = [(''mail'', mail_tool)], hc_guards = [], hc_replayer = r,
     hc_budgets = Some [(''tool_calls'', 1)], hc_effect_row = True, hc_resolver = None, hc_sanitizer = None\<rparr>"

definition sample_env :: harness_env where
  "sample_env = \<lparr>he_uuid = (\<lambda>n. HEX ! (n div 16 mod 16) # HEX ! (n mod 16) # replicate 10 (CHR ''0'')),
     he_digest = rev, he_wall = (\<lambda>n. 1 / 2), he_str = (\<lambda>v. []), he_describe = (\<lambda>e. ([], [])),
     he_elements = (\<lambda>s. [])\<rparr>"

definition sample_rows :: "row list" where
  "sample_rows = [effect_row, capability_row [(''tool_calls'', 1)]]"

definition sample_rowset :: rowset where
  "sample_rowset = rowset_run (rowset_init (store_init make_default_registry \<lparr>fail_counts = [], caution_threshold = 3\<rparr>)
     sample_rows) []"

definition send_call :: "string \<Rightarrow> call_args" where
  "send_call e = \<lparr>ca_tool_name = ''mail'', ca_arguments = [(KStr ''to'', VStr ''ann'')], ca_effect_id = Some e,
     ca_tool_use_id = Some ''use1'', ca_compensates = None, ca_caused_by = None, ca_proposal = None, ca_admission = None\<rparr>"

definition sample_harness :: "harness_command list \<Rightarrow> harness" where
  "sample_harness cmds = harness_run (sample_config None) sample_env (harness_open sample_rowset) cmds"

text \<open>
  C2: the harness executes no effect twice. Whatever calls and reconciliations follow each
  other on a row set that owns the effect row, with whatever faults of handlers, guards and
  budgets, each effect id reaches a handler at most once, only after its intent is on the
  tape, and never when the tape the harness was opened on already held its intent: a restart
  after a crash runs nothing again.
\<close>

theorem tool_runs_at_most_once:
  assumes "effect_row \<in> set rows" and "hc_effect_row cfg"
    and "rs = rowset_run (rowset_init (store_init reg ctx) rows) cs"
    and "h = harness_run cfg env (harness_open rs) cmds"
  shows "distinct (map fst (th_runs h)) \<and> (\<forall>(e, name, as) \<in> set (th_runs h).
    on_tape TAG_EFFECT_INTENT e h \<and> \<not> on_tape TAG_EFFECT_INTENT e (harness_open rs))"
proof -
  let ?old = "{e. on_tape TAG_EFFECT_INTENT e (harness_open rs)}"
  have "effect_inv rs" using effect_inv_run [OF effect_inv_init [OF assms(1)]] by (simp add: assms(3))
  then have "runs_ok ?old (harness_open rs)" by (simp add: runs_ok_def) (simp add: harness_open_def)
  with harness_run_invariant [OF call_once [OF assms(2)] runs_ok.reconciling]
  have "runs_ok ?old h" by (simp add: assms(4))
  then show ?thesis by (fastforce simp: runs_ok_def)
qed

lemma tool_runs_at_most_once_witness:
  "map fst (th_runs (sample_harness [Call (send_call ''tool_0000000000aa''), Call (send_call ''tool_0000000000aa''),
      Call (send_call ''tool_0000000000bb'')])) = [''tool_0000000000aa'']
    \<and> distinct (map fst (th_runs (sample_harness [Call (send_call ''tool_0000000000aa''),
      Call (send_call ''tool_0000000000aa''), Call (send_call ''tool_0000000000bb'')])))"
proof
  show "map fst (th_runs (sample_harness [Call (send_call ''tool_0000000000aa''), Call (send_call ''tool_0000000000aa''),
      Call (send_call ''tool_0000000000bb'')])) = [''tool_0000000000aa'']" by code_simp
  have "effect_row \<in> set sample_rows" by (simp add: sample_rows_def)
  from tool_runs_at_most_once [OF this _ sample_rowset_def refl, of "sample_config None" sample_env]
  show "distinct (map fst (th_runs (sample_harness [Call (send_call ''tool_0000000000aa''),
      Call (send_call ''tool_0000000000aa''), Call (send_call ''tool_0000000000bb'')])))"
    by (simp add: sample_harness_def sample_config_def)
qed

text \<open>
  C9: a call that returns has settled its effect. The result carries the provider's
  correlation id, and the tape then shows the effect the call worked under with a result or
  a rejection: an orphan is never reported as an outcome.
\<close>

theorem returned_call_is_settled:
  assumes "effect_row \<in> set rows"
    and "rs = rowset_run (rowset_init (store_init reg ctx) rows) cs"
    and "h = harness_run cfg env (harness_open rs) cmds"
    and "tool_call cfg env a h = (Inr x, h')"
  shows "\<exists>ci n. identify_call env (he_uuid env (th_drawn h)) a = Inr ci \<and> tr_tool_use_id x = ci_result_id ci
    \<and> map_of (ew_nodes (effect_project (th_store h'))) (ci_eid ci) = Some n \<and> node_terminal n"
proof -
  have "effect_inv rs" using effect_inv_run [OF effect_inv_init [OF assms(1)]] by (simp add: assms(2))
  then have "checked (harness_open rs)" by (simp add: harness_open_def)
  from effects_session [OF this] have "checked h" by (simp add: assms(3))
  moreover from assms(4) obtain ci where ci: "identify_call env (he_uuid env (th_drawn h)) a = Inr ci"
    and rest: "sbind (recover_existing cfg env ci (ca_arguments a) (ca_proposal a)) (\<lambda>recovered. case recovered of
        Some x \<Rightarrow> sret x | None \<Rightarrow> new_call cfg env ci a) (h\<lparr>th_drawn := th_drawn h + 1\<rparr>) = (Inr x, h')"
    by (auto simp: tool_call_def draw_uuid_def sbind_Inr_iff slift_Inr_iff sget_def sput_def sret_def)
  ultimately have "checked (h\<lparr>th_drawn := th_drawn h + 1\<rparr>)" by simp
  then have "answered ci x h'"
    using answered_then [OF answered_recover answered_new, unfolded yields_def, rule_format, OF _ rest] by blast
  then show ?thesis using ci settled_node [of "ci_eid ci" h'] by (auto simp: answered_def)
qed

lemma returned_call_is_settled_witness:
  "fst (tool_call (sample_config None) sample_env (send_call ''tool_0000000000bb'')
      (sample_harness [Call (send_call ''tool_0000000000aa'')]))
    = Inr \<lparr>tr_tool_use_id = ''use1'', tr_content = BudgetExhausted (VStr ''tool_calls'') (VFloat (Fin 1))
        (VFloat (Fin 1)) (VFloat (Fin 1)), tr_is_error = True\<rparr>
    \<and> (\<exists>ci n. identify_call sample_env (he_uuid sample_env (th_drawn (sample_harness [Call (send_call ''tool_0000000000aa'')])))
          (send_call ''tool_0000000000bb'') = Inr ci
        \<and> map_of (ew_nodes (effect_project (th_store (snd (tool_call (sample_config None) sample_env
          (send_call ''tool_0000000000bb'') (sample_harness [Call (send_call ''tool_0000000000aa'')])))))) (ci_eid ci) = Some n
        \<and> node_terminal n)"
proof -
  let ?x = "\<lparr>tr_tool_use_id = ''use1'', tr_content = BudgetExhausted (VStr ''tool_calls'') (VFloat (Fin 1))
        (VFloat (Fin 1)) (VFloat (Fin 1)), tr_is_error = True\<rparr>"
  let ?m = "tool_call (sample_config None) sample_env (send_call ''tool_0000000000bb'')
      (sample_harness [Call (send_call ''tool_0000000000aa'')])"
  have x: "fst ?m = Inr ?x" by code_simp
  then have "?m = (Inr ?x, snd ?m)" by (metis prod.collapse)
  moreover have "effect_row \<in> set sample_rows" by (simp add: sample_rows_def)
  ultimately show ?thesis
    using x returned_call_is_settled [of sample_rows sample_rowset make_default_registry
      "\<lparr>fail_counts = [], caution_threshold = 3\<rparr>" "[]" "sample_harness [Call (send_call ''tool_0000000000aa'')]"
      "sample_config None" sample_env "[Call (send_call ''tool_0000000000aa'')]" "send_call ''tool_0000000000bb''"]
    by (simp add: sample_harness_def sample_rowset_def) blast
qed

text \<open>
  C25: a replayed session repeats no write. Under the strict tape no handler runs at all; and
  unless external writes were opted in, a tool declared to write externally runs only when
  it is declared to have no application effect, in every mode.
\<close>

theorem replay_repeats_no_write:
  assumes "hc_replayer cfg = Some r" and "tools_init ts = Inr (hc_tools cfg)"
    and "h = harness_run cfg env (harness_open rs) cmds"
  shows "(rp_mode r = STRICT_TAPE \<longrightarrow> th_runs h = [])
    \<and> (\<not> rp_allow_external r \<longrightarrow> (\<forall>(e, name, as) \<in> set (th_runs h). \<forall>t.
        tools_get (hc_tools cfg) name = Inr t \<longrightarrow> t_side_effect t = EXTERNAL_WRITE \<longrightarrow> t_observability_only t))"
proof -
  have start: "ran_only Q (harness_open rs)" for Q by (simp add: ran_only_def harness_open_def)
  have "ran_only (\<lambda>n. False) h" if "rp_mode r = STRICT_TAPE"
    unfolding assms(3) by (rule session_ran_only [OF assms(1) start]) (use that re_executed_class in blast)
  then have "th_runs h = []" if "rp_mode r = STRICT_TAPE"
    using that by (cases "th_runs h") (auto simp: ran_only_def)
  moreover have "ran_only (\<lambda>name. \<forall>t. tools_get (hc_tools cfg) name = Inr t \<longrightarrow>
      t_side_effect t = EXTERNAL_WRITE \<longrightarrow> t_observability_only t) h" if "\<not> rp_allow_external r"
    unfolding assms(3)
  proof (rule session_ran_only [OF assms(1) start], intro allI impI)
    fix name t as ex d t'
    assume t: "tools_get (hc_tools cfg) name = Inr t" and d: "decide r t as ex = Inr d" "rd_operation d = Re_execute"
      and t': "tools_get (hc_tools cfg) (t_name t) = Inr t'" "t_side_effect t' = EXTERNAL_WRITE"
    from tools_named [OF assms(2) t] t t'(1) have "t' = t" by simp
    with re_executed_external [OF d that] t'(2) show "t_observability_only t'" by simp
  qed
  ultimately show ?thesis by (fastforce simp: ran_only_def)
qed

text \<open>A replayer over a tape that recorded one message, asked for another one.\<close>

definition sample_replayer :: "replay_mode \<Rightarrow> replayer" where
  "sample_replayer mode = \<lparr>rp_view = effect_project (th_store (sample_harness [Call (send_call ''tool_0000000000aa'')])),
     rp_mode = mode, rp_allow_external = False, rp_allow_downgrade = False, rp_max_seq = Some 9\<rparr>"

definition replay_session :: "replay_mode \<Rightarrow> harness" where
  "replay_session mode = harness_run (sample_config (Some (sample_replayer mode))) sample_env
     (harness_open sample_rowset) [Call (send_call ''tool_0000000000cc''), Call (send_call ''tool_0000000000dd'')]"

lemma replay_repeats_no_write_witness:
  "map tag (s_log (th_store (replay_session STRICT_TAPE))) = [TAG_REPLAY_DECISION, TAG_REPLAY_DECISION,
      TAG_EFFECT_INTENT, TAG_EFFECT_RESULT, TAG_RESOURCE_SPENT, TAG_REPLAY_DECISION]
    \<and> th_runs (replay_session STRICT_TAPE) = []"
proof
  show "map tag (s_log (th_store (replay_session STRICT_TAPE))) = [TAG_REPLAY_DECISION, TAG_REPLAY_DECISION,
      TAG_EFFECT_INTENT, TAG_EFFECT_RESULT, TAG_RESOURCE_SPENT, TAG_REPLAY_DECISION]" by code_simp
  have "tools_init [mail_tool] = Inr (hc_tools (sample_config (Some (sample_replayer STRICT_TAPE))))"
    by (simp add: tools_init_def tools_register_def sample_config_def mail_tool_def)
  note safe = replay_repeats_no_write [OF _ this replay_session_def]
  have "hc_replayer (sample_config r) = r" "rp_mode (sample_replayer m) = m" for r m
    by (simp_all add: sample_config_def sample_replayer_def)
  with safe show "th_runs (replay_session STRICT_TAPE) = []" by blast
qed



end
