(* ===== verification/Plans.thy ===== *)
theory Plans
  imports Events Policy
begin

text \<open>
  Plans (\<open>PlanStep\<close> and \<open>AgentPlan\<close> in \<open>lipas/coordination.py\<close>): the planned steps with their
  dependencies, the validation of a plan, and the loop that finds a cycle by removing the
  steps whose dependencies are gone, round after round.
\<close>

section \<open>Bounded JSON\<close>

definition MAX_JSON_DEPTH :: nat where "MAX_JSON_DEPTH = 64"
definition MAX_JSON_NODES :: nat where "MAX_JSON_NODES = 100000"

lemma json_nodes_bound [code_unfold]: "MAX_JSON_NODES < n + 1 \<longleftrightarrow> (100000 :: int) < int n + 1"
  by (auto simp: MAX_JSON_NODES_def)

text \<open>\<open>_json_value\<close>: the copy, and the nodes counted so far.\<close>

fun json_value :: "nat \<Rightarrow> nat \<Rightarrow> pyval \<Rightarrow> exn + pyval \<times> nat"
  and json_values :: "nat \<Rightarrow> nat \<Rightarrow> pyval list \<Rightarrow> exn + pyval list \<times> nat"
  and json_entries :: "nat \<Rightarrow> nat \<Rightarrow> (pykey \<times> pyval) list \<Rightarrow> exn + (pykey \<times> pyval) list \<times> nat"
where
  "json_value depth n v =
     (if MAX_JSON_DEPTH < depth \<or> MAX_JSON_NODES < n + 1 then Inl CoordinationResultError
      else (case v of
          VNone \<Rightarrow> Inr (v, n + 1) | VBool b \<Rightarrow> Inr (v, n + 1) | VInt i \<Rightarrow> Inr (v, n + 1) | VStr s \<Rightarrow> Inr (v, n + 1)
        | VFloat x \<Rightarrow> (case x of Fin r \<Rightarrow> Inr (v, n + 1) | _ \<Rightarrow> Inl CoordinationResultError)
        | VList xs \<Rightarrow> ebind (json_values (depth + 1) (n + 1) xs) (\<lambda>(ys, m). Inr (VList ys, m))
        | VTuple xs \<Rightarrow> ebind (json_values (depth + 1) (n + 1) xs) (\<lambda>(ys, m). Inr (VList ys, m))
        | VDict d \<Rightarrow> ebind (json_entries (depth + 1) (n + 1) d) (\<lambda>(e, m). Inr (VDict e, m))
        | _ \<Rightarrow> Inl CoordinationResultError))"
| "json_values depth n [] = Inr ([], n)"
| "json_values depth n (x # xs) = ebind (json_value depth n x) (\<lambda>(y, m).
     ebind (json_values depth m xs) (\<lambda>(ys, k). Inr (y # ys, k)))"
| "json_entries depth n [] = Inr ([], n)"
| "json_entries depth n (kv # d) = (case fst kv of
      KStr k \<Rightarrow> ebind (json_value depth n (snd kv)) (\<lambda>(y, m).
        ebind (json_entries depth m d) (\<lambda>(e, j). Inr ((KStr k, y) # e, j)))
    | _ \<Rightarrow> Inl CoordinationResultError)"

definition plan_mapping :: "(pykey \<times> pyval) list \<Rightarrow> exn + (pykey \<times> pyval) list" where
  "plan_mapping d = (case json_value 0 0 (VDict d) of
      Inr (VDict e, n) \<Rightarrow> Inr e | _ \<Rightarrow> Inl ValueError)"

section \<open>Steps\<close>

record plan_step =
  ps_step_id :: string
  ps_goal :: string
  ps_recipient :: string
  ps_depends_on :: "string list"
  ps_capabilities :: "string list"
  ps_metadata :: "(pykey \<times> pyval) list"

definition plan_text :: "string \<Rightarrow> exn + string" where
  "plan_text s = (if strip s = [] then Inl ValueError else Inr (strip s))"

definition plan_names :: "string list \<Rightarrow> exn + string list" where
  "plan_names xs = (if \<exists>x \<in> set xs. strip x = [] then Inl ValueError
     else if length (remdups (map strip xs)) \<noteq> length xs then Inl ValueError
     else Inr (frozen (map strip xs)))"

definition make_plan_step ::
  "string \<Rightarrow> string \<Rightarrow> string \<Rightarrow> string list \<Rightarrow> string list \<Rightarrow> (pykey \<times> pyval) list \<Rightarrow> exn + plan_step" where
  "make_plan_step step_id goal recipient depends_on capabilities metadata =
     ebind (plan_text step_id) (\<lambda>i. ebind (plan_text goal) (\<lambda>g. ebind (plan_text recipient) (\<lambda>r.
     ebind (plan_names depends_on) (\<lambda>ds. ebind (plan_names capabilities) (\<lambda>cs. ebind (plan_mapping metadata) (\<lambda>md.
     Inr \<lparr>ps_step_id = i, ps_goal = g, ps_recipient = r, ps_depends_on = ds, ps_capabilities = cs,
       ps_metadata = md\<rparr>))))))"

definition plan_step_dict :: "plan_step \<Rightarrow> pyval" where
  "plan_step_dict s = vobj [(''step_id'', VStr (ps_step_id s)), (''goal'', VStr (ps_goal s)),
     (''recipient'', VStr (ps_recipient s)), (''depends_on'', VList (map VStr (ps_depends_on s))),
     (''required_capabilities'', VList (map VStr (ps_capabilities s))), (''metadata'', VDict (ps_metadata s))]"

section \<open>Cycles\<close>

text \<open>
  \<open>remaining\<close> maps each step to the dependencies it still waits for. A round pops the steps
  that wait for none, one after the other, and discards each from the others.
\<close>

type_synonym waiting = "(string \<times> string list) list"

fun pop_ready :: "string list \<Rightarrow> waiting \<Rightarrow> waiting" where
  "pop_ready [] remaining = remaining"
| "pop_ready (i # ready) remaining = pop_ready ready
     (map (\<lambda>(k, deps). (k, removeAll i deps)) (filter (\<lambda>(k, deps). k \<noteq> i) remaining))"

definition ready_ids :: "waiting \<Rightarrow> string list" where
  "ready_ids remaining = map fst (filter (\<lambda>(k, deps). deps = []) remaining)"

lemma pop_ready_all: "pop_ready ready remaining
    = map (\<lambda>(k, deps). (k, filter (\<lambda>d. d \<notin> set ready) deps)) (filter (\<lambda>(k, deps). k \<notin> set ready) remaining)"
  by (induction ready remaining rule: pop_ready.induct)
    (auto simp: filter_map comp_def case_prod_beta removeAll_filter_not_eq intro!: map_cong filter_cong)

lemma pop_ready_shorter: "ready_ids remaining \<noteq> [] \<Longrightarrow> length (pop_ready (ready_ids remaining) remaining) < length remaining"
proof -
  assume "ready_ids remaining \<noteq> []"
  then obtain k deps where "(k, deps) \<in> set remaining" "k \<in> set (ready_ids remaining)"
    by (force simp: ready_ids_def filter_empty_conv)
  then show ?thesis
    by (auto simp: pop_ready_all intro!: length_filter_less)
qed

function kahn :: "waiting \<Rightarrow> exn + string list" where
  "kahn remaining = (if remaining = [] then Inr []
     else if ready_ids remaining = [] then Inl ValueError
     else ebind (kahn (pop_ready (ready_ids remaining) remaining)) (\<lambda>visited.
       Inr (ready_ids remaining @ visited)))"
  by pat_completeness auto
termination
  by (relation "measure length") (auto dest: pop_ready_shorter)

declare kahn.simps [simp del]

section \<open>Plans\<close>

record agent_plan =
  ap_plan_id :: string
  ap_conversation_id :: string
  ap_steps :: "plan_step list"
  ap_version :: int

definition make_agent_plan :: "string \<Rightarrow> string \<Rightarrow> plan_step list \<Rightarrow> int \<Rightarrow> exn + agent_plan" where
  "make_agent_plan plan_id conversation_id steps version =
     ebind (plan_text plan_id) (\<lambda>i. ebind (plan_text conversation_id) (\<lambda>c.
     let ids = map ps_step_id steps in
     ebind (guard_or ValueError (steps \<noteq> [] \<and> distinct ids)) (\<lambda>_.
     ebind (guard_or ValueError (\<forall>s \<in> set steps. set (ps_depends_on s) \<subseteq> set ids)) (\<lambda>_.
     ebind (guard_or ValueError (\<forall>s \<in> set steps. ps_step_id s \<notin> set (ps_depends_on s))) (\<lambda>_.
     ebind (kahn (map (\<lambda>s. (ps_step_id s, ps_depends_on s)) steps)) (\<lambda>_.
     ebind (guard_or ValueError (1 \<le> version)) (\<lambda>_.
     Inr \<lparr>ap_plan_id = i, ap_conversation_id = c, ap_steps = steps, ap_version = version\<rparr>)))))))"

definition agent_plan_dict :: "agent_plan \<Rightarrow> pyval" where
  "agent_plan_dict p = vobj [(''plan_id'', VStr (ap_plan_id p)), (''conversation_id'', VStr (ap_conversation_id p)),
     (''version'', VInt (ap_version p)), (''steps'', VList (map plan_step_dict (ap_steps p)))]"

text \<open>\<open>fingerprint\<close>: the digest of the canonical text.\<close>

definition plan_fingerprint :: "(pyval \<Rightarrow> string) \<Rightarrow> agent_plan \<Rightarrow> exn + string" where
  "plan_fingerprint digest p = ebind (canon (agent_plan_dict p)) (\<lambda>v. Inr (digest v))"

end
