(* ===== verification/Workflow.thy ===== *)
theory Workflow
  imports Plans
begin

text \<open>
  The workflow compiler and executor (\<open>lipas/workflow.py\<close>): goals and their constraints,
  fixed and adaptive steps, the compilation into a plan, the stable topological order, and
  the execution of a compiled workflow by a callback. The callback, the cancellation check,
  the clock, path resolution and the digest are parameters.
\<close>

section \<open>Values\<close>

definition workflow_text :: "string \<Rightarrow> exn + string" where
  "workflow_text s = (if strip s = [] then Inl ValueError else Inr (strip s))"

definition workflow_text_opt :: "string option \<Rightarrow> exn + string option" where
  "workflow_text_opt v = (case v of None \<Rightarrow> Inr None | Some s \<Rightarrow> ebind (workflow_text s) (\<lambda>t. Inr (Some t)))"

definition workflow_json :: "pyval \<Rightarrow> exn + pyval" where
  "workflow_json v = ebind (validate_json_shape v) (\<lambda>_. case canon v of Inl e \<Rightarrow> Inl ValueError | Inr t \<Rightarrow> Inr t)"

definition workflow_mapping :: "(pykey \<times> pyval) list \<Rightarrow> exn + (pykey \<times> pyval) list" where
  "workflow_mapping d = ebind (workflow_json (VDict d)) (\<lambda>v. case v of VDict e \<Rightarrow> Inr e | _ \<Rightarrow> Inl ValueError)"

definition workflow_names :: "string list \<Rightarrow> exn + string list" where
  "workflow_names xs = ebind (emap workflow_text xs) (\<lambda>ys.
     if distinct ys then Inr (frozen ys) else Inl ValueError)"

section \<open>Goals\<close>

record constraint =
  wc_name :: string
  wc_value :: pyval
  wc_hard :: bool

definition make_constraint :: "string \<Rightarrow> pyval \<Rightarrow> bool \<Rightarrow> exn + constraint" where
  "make_constraint name val hard =
     ebind (workflow_text name) (\<lambda>n. ebind (workflow_json val) (\<lambda>v.
     Inr \<lparr>wc_name = n, wc_value = v, wc_hard = hard\<rparr>))"

definition constraint_dict :: "constraint \<Rightarrow> pyval" where
  "constraint_dict c = vobj [(''name'', VStr (wc_name c)), (''value'', wc_value c), (''hard'', VBool (wc_hard c))]"

definition constraints_eq :: "constraint list \<Rightarrow> constraint list \<Rightarrow> bool" where
  "constraints_eq cs ds \<longleftrightarrow> list_all2 (\<lambda>c d. wc_name c = wc_name d \<and> py_eq (wc_value c) (wc_value d)
     \<and> wc_hard c = wc_hard d) cs ds"

definition normal_constraints :: "constraint list \<Rightarrow> exn + constraint list" where
  "normal_constraints cs = (if distinct (map wc_name cs) then Inr (sort_key wc_name cs) else Inl ValueError)"

record workflow_goal =
  wg_goal :: string
  wg_constraints :: "constraint list"
  wg_workspace :: string
  wg_conversation_id :: "string option"
  wg_max_adaptive_steps :: int

definition make_goal :: "(string \<Rightarrow> string) \<Rightarrow> string \<Rightarrow> constraint list \<Rightarrow> string \<Rightarrow> string option \<Rightarrow> int
    \<Rightarrow> exn + workflow_goal" where
  "make_goal resolve goal constraints workspace conversation maximum =
     ebind (workflow_text goal) (\<lambda>g. ebind (normal_constraints constraints) (\<lambda>cs.
     ebind (workflow_text workspace) (\<lambda>w. ebind (workflow_text_opt conversation) (\<lambda>c.
     ebind (guard_or ValueError (0 \<le> maximum)) (\<lambda>_.
     Inr \<lparr>wg_goal = g, wg_constraints = cs, wg_workspace = resolve w, wg_conversation_id = c,
       wg_max_adaptive_steps = maximum\<rparr>)))))"

text \<open>The constraints as a caller gives them: built objects, or the fields of one.\<close>

datatype constraint_spec = Built constraint | Described string pyval bool

definition spec_constraint :: "constraint_spec \<Rightarrow> exn + constraint" where
  "spec_constraint s = (case s of Built c \<Rightarrow> Inr c | Described n v hard \<Rightarrow> make_constraint n v hard)"

definition goal_from_mapping :: "(string \<Rightarrow> string) \<Rightarrow> string \<Rightarrow> constraint_spec list option \<Rightarrow> string \<Rightarrow> string option
    \<Rightarrow> int \<Rightarrow> exn + workflow_goal" where
  "goal_from_mapping resolve goal constraints workspace conversation maximum =
     ebind (case constraints of None \<Rightarrow> Inr [] | Some specs \<Rightarrow> emap spec_constraint specs) (\<lambda>cs.
     make_goal resolve goal cs workspace conversation maximum)"

definition goal_dict :: "workflow_goal \<Rightarrow> pyval" where
  "goal_dict g = vobj [(''goal'', VStr (wg_goal g)), (''constraints'', VList (map constraint_dict (wg_constraints g))),
     (''workspace'', VStr (wg_workspace g)),
     (''conversation_id'', case wg_conversation_id g of None \<Rightarrow> VNone | Some c \<Rightarrow> VStr c),
     (''max_adaptive_steps'', VInt (wg_max_adaptive_steps g))]"

section \<open>Steps\<close>

datatype step_mode = Fixed | Adaptive

fun mode_text :: "step_mode \<Rightarrow> string" where
  "mode_text Fixed = ''fixed''" | "mode_text Adaptive = ''adaptive''"

definition parse_mode :: "string \<Rightarrow> exn + step_mode" where
  "parse_mode s = (if s = ''fixed'' then Inr Fixed else if s = ''adaptive'' then Inr Adaptive else Inl ValueError)"

record workflow_step =
  ws_step_id :: string
  ws_goal :: string
  ws_mode :: step_mode
  ws_recipient :: string
  ws_depends_on :: "string list"
  ws_capabilities :: "string list"
  ws_metadata :: "(pykey \<times> pyval) list"
  ws_constraints :: "constraint list"

definition make_step :: "string \<Rightarrow> string \<Rightarrow> string \<Rightarrow> string \<Rightarrow> string list \<Rightarrow> string list \<Rightarrow> (pykey \<times> pyval) list
    \<Rightarrow> constraint list \<Rightarrow> exn + workflow_step" where
  "make_step step_id goal mode recipient depends_on capabilities metadata constraints =
     ebind (workflow_text step_id) (\<lambda>i. ebind (workflow_text goal) (\<lambda>g. ebind (workflow_text recipient) (\<lambda>r.
     ebind (parse_mode mode) (\<lambda>m. ebind (workflow_names depends_on) (\<lambda>ds. ebind (workflow_names capabilities) (\<lambda>cs.
     ebind (workflow_mapping metadata) (\<lambda>md. ebind (normal_constraints constraints) (\<lambda>ks.
     Inr \<lparr>ws_step_id = i, ws_goal = g, ws_mode = m, ws_recipient = r, ws_depends_on = ds, ws_capabilities = cs,
       ws_metadata = md, ws_constraints = ks\<rparr>))))))))"

definition step_dict :: "workflow_step \<Rightarrow> pyval" where
  "step_dict s = vobj [(''step_id'', VStr (ws_step_id s)), (''goal'', VStr (ws_goal s)),
     (''mode'', VStr (mode_text (ws_mode s))), (''recipient'', VStr (ws_recipient s)),
     (''depends_on'', VList (map VStr (ws_depends_on s))),
     (''required_capabilities'', VList (map VStr (ws_capabilities s))),
     (''metadata'', VDict (ws_metadata s)), (''constraints'', VList (map constraint_dict (ws_constraints s)))]"

definition as_plan_step :: "workflow_step \<Rightarrow> exn + plan_step" where
  "as_plan_step s =
     (let md = dict_put (KStr ''workflow_mode'') (VStr (mode_text (ws_mode s))) (ws_metadata s) in
      make_plan_step (ws_step_id s) (ws_goal s) (ws_recipient s) (ws_depends_on s) (ws_capabilities s)
        (if ws_constraints s = [] then md
         else dict_put (KStr ''workflow_constraints'') (VList (map constraint_dict (ws_constraints s))) md))"

section \<open>Compilation\<close>

record compiled_workflow =
  cw_plan_id :: string
  cw_goal :: workflow_goal
  cw_steps :: "workflow_step list"
  cw_plan :: agent_plan
  cw_fingerprint :: string

definition steps_of_mode :: "step_mode \<Rightarrow> compiled_workflow \<Rightarrow> workflow_step list" where
  "steps_of_mode m w = filter (\<lambda>s. ws_mode s = m) (cw_steps w)"

definition stable_plan_id :: "(pyval \<Rightarrow> string) \<Rightarrow> workflow_goal \<Rightarrow> workflow_step list \<Rightarrow> exn + string" where
  "stable_plan_id digest g steps =
     ebind (canon (vobj [(''goal'', goal_dict g), (''steps'', VList (map step_dict steps))])) (\<lambda>v.
     Inr (''plan_auto_'' @ take 32 (digest v)))"

definition workflow_fingerprint :: "(pyval \<Rightarrow> string) \<Rightarrow> string \<Rightarrow> workflow_goal \<Rightarrow> workflow_step list \<Rightarrow> exn + string" where
  "workflow_fingerprint digest plan_id g steps =
     ebind (canon (vobj [(''plan_id'', VStr plan_id), (''goal'', goal_dict g),
       (''steps'', VList (map step_dict steps))])) (\<lambda>v. Inr (digest v))"

definition plan_step_eq :: "plan_step \<Rightarrow> plan_step \<Rightarrow> bool" where
  "plan_step_eq p q \<longleftrightarrow> p\<lparr>ps_metadata := []\<rparr> = q\<lparr>ps_metadata := []\<rparr> \<and> py_eq (VDict (ps_metadata p)) (VDict (ps_metadata q))"

definition make_compiled :: "(pyval \<Rightarrow> string) \<Rightarrow> string \<Rightarrow> workflow_goal \<Rightarrow> workflow_step list \<Rightarrow> agent_plan \<Rightarrow> string
    \<Rightarrow> exn + compiled_workflow" where
  "make_compiled digest plan_id g steps plan fingerprint =
     ebind (guard_or ValueError (strip plan_id \<noteq> [] \<and> steps \<noteq> [] \<and> ap_plan_id plan = plan_id)) (\<lambda>_.
     ebind (emap as_plan_step steps) (\<lambda>expected.
     ebind (guard_or ValueError (list_all2 plan_step_eq (ap_steps plan) expected)) (\<lambda>_.
     ebind (workflow_fingerprint digest plan_id g steps) (\<lambda>fp.
     ebind (guard_or ValueError (fingerprint = fp)) (\<lambda>_.
     Inr \<lparr>cw_plan_id = plan_id, cw_goal = g, cw_steps = steps, cw_plan = plan, cw_fingerprint = fingerprint\<rparr>)))))"

text \<open>A step as a caller gives it: an object, or the fields of one with the optional ones.\<close>

record step_fields =
  sf_step_id :: string
  sf_goal :: string
  sf_mode :: "string option"
  sf_recipient :: "string option"
  sf_depends_on :: "string list"
  sf_capabilities :: "string list"
  sf_metadata :: "(pykey \<times> pyval) list"
  sf_constraints :: "constraint list"
  sf_max_steps :: "pyval option"

datatype step_spec = StepObject workflow_step | StepFields step_fields

definition spec_step :: "string \<Rightarrow> step_mode \<Rightarrow> step_spec \<Rightarrow> exn + workflow_step" where
  "spec_step recipient mode spec =
     ebind (case spec of
         StepObject s \<Rightarrow> Inr s
       | StepFields f \<Rightarrow> make_step (sf_step_id f) (sf_goal f)
           (case sf_mode f of None \<Rightarrow> mode_text mode | Some m \<Rightarrow> m)
           (case sf_recipient f of None \<Rightarrow> recipient | Some r \<Rightarrow> r) (sf_depends_on f) (sf_capabilities f)
           (case sf_max_steps f of None \<Rightarrow> sf_metadata f
            | Some v \<Rightarrow> (case map_of (sf_metadata f) (KStr ''max_steps'') of
                None \<Rightarrow> sf_metadata f @ [(KStr ''max_steps'', v)] | Some w \<Rightarrow> sf_metadata f))
           (sf_constraints f)) (\<lambda>s.
     if ws_mode s = mode then Inr s else Inl ValueError)"

definition coerce_steps :: "string \<Rightarrow> step_mode \<Rightarrow> step_spec list \<Rightarrow> exn + workflow_step list" where
  "coerce_steps recipient mode specs = emap (spec_step recipient mode) specs"

definition bind_constraints :: "workflow_goal \<Rightarrow> workflow_step \<Rightarrow> exn + workflow_step" where
  "bind_constraints g s =
     (if ws_constraints s \<noteq> [] \<and> \<not> constraints_eq (ws_constraints s) (wg_constraints g) then Inl ValueError
      else if constraints_eq (ws_constraints s) (wg_constraints g) then Inr s
      else make_step (ws_step_id s) (ws_goal s) (mode_text (ws_mode s)) (ws_recipient s) (ws_depends_on s)
        (ws_capabilities s) (ws_metadata s) (wg_constraints g))"

definition bound_adaptive_step :: "int \<Rightarrow> workflow_step \<Rightarrow> exn + workflow_step" where
  "bound_adaptive_step maximum s =
     (case dict_get (VInt maximum) (ws_metadata s) (KStr ''max_steps'') of
        VInt n \<Rightarrow>
          if n < 0 \<or> maximum < n then Inl ValueError
          else if map_of (ws_metadata s) (KStr ''max_steps'') \<noteq> None then Inr s
          else make_step (ws_step_id s) (ws_goal s) ''adaptive'' (ws_recipient s) (ws_depends_on s) (ws_capabilities s)
            (dict_put (KStr ''max_steps'') (VInt n) (ws_metadata s)) (ws_constraints s)
      | _ \<Rightarrow> Inl ValueError)"

text \<open>\<open>_default_adaptive_steps\<close>: \<open>n\<close> steps from number \<open>k\<close> on, each depending on the one before.\<close>

fun default_adaptive_steps :: "workflow_goal \<Rightarrow> string \<Rightarrow> string list \<Rightarrow> nat \<Rightarrow> nat \<Rightarrow> exn + workflow_step list" where
  "default_adaptive_steps g recipient deps k 0 = Inr []"
| "default_adaptive_steps g recipient deps k (Suc n) =
     ebind (make_step (''adaptive-'' @ str_int (int k))
       (''Choose bounded action '' @ str_int (int k) @ '' for: '' @ wg_goal g) ''adaptive'' recipient deps []
       [(KStr ''max_steps'', VInt (wg_max_adaptive_steps g)), (KStr ''ordinal'', VInt (int k))] []) (\<lambda>s.
     ebind (default_adaptive_steps g recipient [''adaptive-'' @ str_int (int k)] (k + 1) n) (\<lambda>rest. Inr (s # rest)))"

definition waiting_steps :: "workflow_step list \<Rightarrow> waiting" where
  "waiting_steps steps = map (\<lambda>s. (ws_step_id s, ws_depends_on s)) steps"

definition validate_dependencies :: "workflow_step list \<Rightarrow> exn + workflow_step list" where
  "validate_dependencies steps =
     (let ids = map ws_step_id steps in
      ebind (guard_or ValueError (distinct ids)) (\<lambda>_.
      ebind (guard_or ValueError (\<forall>s \<in> set steps. ws_step_id s \<notin> set (ws_depends_on s)
        \<and> set (ws_depends_on s) \<subseteq> set ids)) (\<lambda>_.
      ebind (kahn (waiting_steps steps)) (\<lambda>visited. Inr steps))))"

datatype goal_spec = GoalObject workflow_goal | GoalText string
datatype adaptive_spec = Count int | Steps "step_spec list"

record compile_args =
  co_goal :: goal_spec
  co_constraints :: "constraint_spec list option"
  co_workspace :: string
  co_conversation_id :: "string option"
  co_fixed :: "step_spec list"
  co_adaptive :: adaptive_spec
  co_plan_id :: "string option"
  co_max_adaptive_steps :: int

text \<open>The goal of a compilation; keywords that contradict a given goal object are refused.\<close>

definition compile_goal_of :: "(string \<Rightarrow> string) \<Rightarrow> compile_args \<Rightarrow> exn + workflow_goal" where
  "compile_goal_of resolve a = (case co_goal a of
      GoalText t \<Rightarrow> goal_from_mapping resolve t (co_constraints a) (co_workspace a) (co_conversation_id a)
        (co_max_adaptive_steps a)
    | GoalObject g \<Rightarrow>
        ebind (case co_constraints a of None \<Rightarrow> Inr () | Some cs \<Rightarrow>
          ebind (goal_from_mapping resolve (wg_goal g) (Some cs) (wg_workspace g) (wg_conversation_id g)
            (wg_max_adaptive_steps g)) (\<lambda>supplied.
          guard_or ValueError (constraints_eq (wg_constraints supplied) (wg_constraints g)))) (\<lambda>_.
        ebind (case co_conversation_id a of None \<Rightarrow> Inr () | Some c \<Rightarrow>
          ebind (workflow_text c) (\<lambda>n. guard_or ValueError (Some n = wg_conversation_id g))) (\<lambda>_.
        ebind (guard_or ValueError (co_workspace a = ''.'' \<or> resolve (co_workspace a) = wg_workspace g)) (\<lambda>_.
        ebind (guard_or ValueError (co_max_adaptive_steps a = 4 \<or> co_max_adaptive_steps a = wg_max_adaptive_steps g)) (\<lambda>_.
        Inr g)))))"

definition adaptive_of :: "string \<Rightarrow> workflow_goal \<Rightarrow> workflow_step list \<Rightarrow> adaptive_spec \<Rightarrow> exn + workflow_step list" where
  "adaptive_of recipient g fixed spec = (case spec of
      Count n \<Rightarrow> if n < 0 \<or> wg_max_adaptive_steps g < n then Inl ValueError
        else default_adaptive_steps g recipient (map ws_step_id fixed) 1 (nat n)
    | Steps specs \<Rightarrow> coerce_steps recipient Adaptive specs)"

definition compile_workflow :: "(string \<Rightarrow> string) \<Rightarrow> (pyval \<Rightarrow> string) \<Rightarrow> string \<Rightarrow> compile_args \<Rightarrow> exn + compiled_workflow" where
  "compile_workflow resolve digest recipient a =
     ebind (compile_goal_of resolve a) (\<lambda>g.
     ebind (coerce_steps recipient Fixed (co_fixed a)) (\<lambda>fixed0.
     ebind (adaptive_of recipient g fixed0 (co_adaptive a)) (\<lambda>adaptive0.
     ebind (emap (bind_constraints g) fixed0) (\<lambda>fixed.
     ebind (emap (bind_constraints g) adaptive0) (\<lambda>adaptive1.
     ebind (guard_or ValueError (int (length adaptive1) \<le> wg_max_adaptive_steps g)) (\<lambda>_.
     ebind (emap (bound_adaptive_step (wg_max_adaptive_steps g)) adaptive1) (\<lambda>adaptive.
     ebind (validate_dependencies (fixed @ adaptive)) (\<lambda>steps.
     ebind (guard_or ValueError (steps \<noteq> [])) (\<lambda>_.
     ebind (case co_plan_id a of Some p \<Rightarrow> workflow_text p | None \<Rightarrow> stable_plan_id digest g steps) (\<lambda>plan_id.
     ebind (emap as_plan_step steps) (\<lambda>plan_steps.
     ebind (make_agent_plan plan_id
       (case wg_conversation_id g of Some c \<Rightarrow> c | None \<Rightarrow> ''workflow:'' @ plan_id) plan_steps 1) (\<lambda>plan.
     ebind (workflow_fingerprint digest plan_id g steps) (\<lambda>fp.
     make_compiled digest plan_id g steps plan fp)))))))))))))"

end
