(* ===== verification/WorkflowRun.thy ===== *)
theory WorkflowRun
  imports Workflow
begin

text \<open>
  Execution of compiled workflows (\<open>_workflow_order\<close> and \<open>execute_compiled_workflow\<close> in
  \<open>lipas/workflow.py\<close>): the stable topological order and the loop that runs the steps
  through the host's callback, stops after a failure or a cancellation, and reports every step.
\<close>

section \<open>Order\<close>

definition ready_steps :: "string list \<Rightarrow> workflow_step list \<Rightarrow> workflow_step list" where
  "ready_steps completed pending = filter (\<lambda>s. set (ws_depends_on s) \<subseteq> set completed) pending"

definition take_ready :: "workflow_step list \<Rightarrow> workflow_step list \<Rightarrow> workflow_step list" where
  "take_ready ready pending = foldl (\<lambda>p s. remove1 s p) pending ready"

lemma take_ready_mset: "mset (take_ready ready pending) = mset pending - mset ready"
  by (induction ready arbitrary: pending) (simp_all add: take_ready_def)

lemma ready_subset: "mset (ready_steps completed pending) \<subseteq># mset pending"
  by (simp add: ready_steps_def multiset_filter_subset)

lemma take_ready_shorter:
  assumes "ready_steps completed pending \<noteq> []"
  shows "length (take_ready (ready_steps completed pending) pending) < length pending"
proof -
  let ?r = "ready_steps completed pending"
  have "size (mset (take_ready ?r pending)) = size (mset pending) - size (mset ?r)"
    by (simp only: take_ready_mset size_Diff_submset [OF ready_subset])
  moreover have "size (mset ?r) \<le> size (mset pending)" by (rule size_mset_mono [OF ready_subset])
  ultimately show ?thesis using assms by (cases ?r) simp_all
qed

function order_loop :: "string list \<Rightarrow> workflow_step list \<Rightarrow> exn + workflow_step list" where
  "order_loop completed pending = (if pending = [] then Inr []
     else let ready = ready_steps completed pending in
       if ready = [] then Inl ValueError
       else ebind (order_loop (completed @ map ws_step_id ready) (take_ready ready pending)) (\<lambda>later.
         Inr (ready @ later)))"
  by pat_completeness auto
termination
  by (relation "measure (length \<circ> snd)") (auto dest: take_ready_shorter)

declare order_loop.simps [simp del]

definition workflow_order :: "compiled_workflow \<Rightarrow> exn + workflow_step list" where
  "workflow_order w = order_loop [] (cw_steps w)"

section \<open>Results\<close>

datatype step_status = Succeeded | Failed | Skipped

record step_result =
  sr_step_id :: string
  sr_mode :: step_mode
  sr_status :: step_status
  sr_output :: pyval
  sr_error_type :: "string option"
  sr_error_message :: "string option"
  sr_started_at :: "rat option"
  sr_finished_at :: "rat option"

definition make_step_result :: "string \<Rightarrow> step_mode \<Rightarrow> step_status \<Rightarrow> pyval \<Rightarrow> string option \<Rightarrow> string option
    \<Rightarrow> rat option \<Rightarrow> rat option \<Rightarrow> exn + step_result" where
  "make_step_result step_id mode status output etype msg started finished =
     ebind (workflow_text step_id) (\<lambda>i. ebind (workflow_text_opt etype) (\<lambda>e.
     ebind (if status = Succeeded then workflow_json output else Inr VNone) (\<lambda>out.
     Inr \<lparr>sr_step_id = i, sr_mode = mode, sr_status = status, sr_output = out, sr_error_type = e,
       sr_error_message = map_option (take 512) msg, sr_started_at = started, sr_finished_at = finished\<rparr>)))"

datatype workflow_status = WorkflowSucceeded | WorkflowFailed | WorkflowCancelled

record execution_result =
  er_plan_id :: string
  er_fingerprint :: string
  er_status :: workflow_status
  er_steps :: "step_result list"
  er_started_at :: rat
  er_finished_at :: rat
  er_error :: "fieldmap option"

definition make_execution_result :: "string \<Rightarrow> string \<Rightarrow> workflow_status \<Rightarrow> step_result list \<Rightarrow> rat \<Rightarrow> rat
    \<Rightarrow> fieldmap option \<Rightarrow> exn + execution_result" where
  "make_execution_result plan_id fingerprint status steps started finished err =
     ebind (workflow_text plan_id) (\<lambda>p. ebind (workflow_text fingerprint) (\<lambda>f.
     ebind (guard_or ValueError (distinct (map sr_step_id steps))) (\<lambda>_.
     ebind (guard_or ValueError (started \<le> finished)) (\<lambda>_.
     Inr \<lparr>er_plan_id = p, er_fingerprint = f, er_status = status, er_steps = steps, er_started_at = started,
       er_finished_at = finished, er_error = err\<rparr>))))"

section \<open>The executor\<close>

text \<open>
  What awaiting the callback did: a value, \<open>RunCancelled\<close> (its class name and text), another
  exception (the flag tells an \<open>Exception\<close>), or the cancellation of the task.
\<close>

datatype step_outcome = StepReturned pyval | StepRunCancelled string string | StepRaised bool string string | StepTaskCancelled

type_synonym step_context = "(pykey \<times> pyval) list"

text \<open>
  Moments count the readings of the clock and the questions to the host. \<open>we_describe\<close> is
  the class name and the text of an exception.
\<close>

record workflow_env =
  we_executor :: "nat \<Rightarrow> workflow_step \<Rightarrow> step_context \<Rightarrow> step_outcome"
  we_cancel :: "(nat \<Rightarrow> exn + bool) option"
  we_clock :: "nat \<Rightarrow> rat"
  we_describe :: "exn \<Rightarrow> string \<times> string"

text \<open>\<open>wr_calls\<close> records the steps given to the callback, which the code does not.\<close>

record workflow_run =
  wr_results :: "step_result list"
  wr_outputs :: "(string \<times> pyval) list"
  wr_failure :: "fieldmap option"
  wr_cancelled :: bool
  wr_now :: nat
  wr_calls :: "(string \<times> step_context) list"

type_synonym 'a run_op = "workflow_run \<Rightarrow> (exn + 'a) \<times> workflow_run"

definition tick :: "nat run_op" where
  "tick r = (Inr (wr_now r), r\<lparr>wr_now := wr_now r + 1\<rparr>)"

definition peek :: "(workflow_run \<Rightarrow> 'a) \<Rightarrow> 'a run_op" where
  "peek f r = (Inr (f r), r)"

definition upd :: "(workflow_run \<Rightarrow> workflow_run) \<Rightarrow> unit run_op" where
  "upd f r = (Inr (), f r)"

definition add_result :: "exn + step_result \<Rightarrow> unit run_op" where
  "add_result made = sbind (slift made) (\<lambda>x. upd (\<lambda>r. r\<lparr>wr_results := wr_results r @ [x]\<rparr>))"

definition skipped :: "workflow_step \<Rightarrow> exn + step_result" where
  "skipped s = make_step_result (ws_step_id s) (ws_mode s) Skipped VNone None None None None"

fun skip_all :: "workflow_step list \<Rightarrow> unit run_op" where
  "skip_all [] = sret ()"
| "skip_all (s # steps) = sbind (add_result (skipped s)) (\<lambda>_. skip_all steps)"

definition fail_with :: "fieldmap \<Rightarrow> bool \<Rightarrow> unit run_op" where
  "fail_with err cancelled = upd (\<lambda>r. r\<lparr>wr_failure := Some err, wr_cancelled := wr_cancelled r \<or> cancelled\<rparr>)"

definition cancel_text :: string where "cancel_text = ''workflow cancellation was requested''"

definition text_or :: "string \<Rightarrow> string \<Rightarrow> string" where
  "text_or s t = (if s = [] then t else s)"

definition caught_exception :: "exn \<Rightarrow> bool" where
  "caught_exception e = (case e of Interrupt \<Rightarrow> False | Cancelled \<Rightarrow> False | RunCancelled \<Rightarrow> False
     | Foreign b n m \<Rightarrow> b | _ \<Rightarrow> True)"

text \<open>The context of a step: the base context and the outputs of its dependencies.\<close>

definition dependency_outputs :: "workflow_step \<Rightarrow> (string \<times> pyval) list \<Rightarrow> (string \<times> pyval) list" where
  "dependency_outputs s outputs =
     List.map_filter (\<lambda>d. map_option (Pair d) (map_of outputs d)) (ws_depends_on s)"

definition step_context_of :: "step_context \<Rightarrow> workflow_step \<Rightarrow> (string \<times> pyval) list \<Rightarrow> step_context" where
  "step_context_of base s outputs = dict_put (KStr ''outputs'') (vobj (dependency_outputs s outputs)) base"

text \<open>The \<open>except Exception\<close> clause of a step.\<close>

definition record_failed :: "workflow_env \<Rightarrow> workflow_step \<Rightarrow> rat \<Rightarrow> string \<Rightarrow> string \<Rightarrow> bool run_op" where
  "record_failed env s started name msg =
     sbind (fail_with [(''step_id'', VStr (ws_step_id s)), (''type'', VStr name), (''message'', VStr (take 512 msg))] False) (\<lambda>_.
     sbind tick (\<lambda>now.
     sbind (add_result (make_step_result (ws_step_id s) (ws_mode s) Failed VNone (Some name) (Some msg)
       (Some started) (Some (we_clock env now)))) (\<lambda>_. sret True)))"

text \<open>What the executor's outcome does to the run, inside the \<open>try\<close> of the loop.\<close>

definition settle_step :: "workflow_env \<Rightarrow> workflow_step \<Rightarrow> workflow_step list \<Rightarrow> rat \<Rightarrow> step_outcome \<Rightarrow> bool run_op" where
  "settle_step env s later started outcome =
     (case outcome of
         StepTaskCancelled \<Rightarrow> slift (Inl Cancelled)
       | StepRunCancelled name msg \<Rightarrow>
           sbind (fail_with [(''step_id'', VStr (ws_step_id s)), (''type'', VStr name),
             (''message'', VStr (text_or (take 512 msg) cancel_text))] True) (\<lambda>_.
           sbind tick (\<lambda>now.
           sbind (add_result (make_step_result (ws_step_id s) (ws_mode s) Skipped VNone (Some name)
             (Some (text_or msg cancel_text)) (Some started) (Some (we_clock env now)))) (\<lambda>_.
           sbind (skip_all later) (\<lambda>_. sret False))))
       | StepRaised ordinary name msg \<Rightarrow>
           if ordinary then record_failed env s started name msg else slift (Inl (Foreign ordinary name msg))
       | StepReturned v \<Rightarrow> (case workflow_json v of
             Inl e \<Rightarrow> record_failed env s started (fst (we_describe env e)) (snd (we_describe env e))
           | Inr out \<Rightarrow>
               sbind (upd (\<lambda>r. r\<lparr>wr_outputs := dict_put (ws_step_id s) out (wr_outputs r)\<rparr>)) (\<lambda>_.
               sbind tick (\<lambda>now.
               sbind (add_result (make_step_result (ws_step_id s) (ws_mode s) Succeeded out None None
                 (Some started) (Some (we_clock env now)))) (\<lambda>_. sret True)))))"

text \<open>One step that was not skipped; \<open>False\<close> is a \<open>break\<close>.\<close>

definition run_step :: "workflow_env \<Rightarrow> step_context \<Rightarrow> workflow_step \<Rightarrow> workflow_step list \<Rightarrow> bool run_op" where
  "run_step env base s later =
     sbind tick (\<lambda>asked.
     sbind (slift (case we_cancel env of None \<Rightarrow> Inr False | Some check \<Rightarrow> check asked)) (\<lambda>stop.
     if stop then
       sbind (fail_with [(''type'', VStr ''RunCancelled''), (''message'', VStr cancel_text)] True) (\<lambda>_.
       sbind (skip_all (s # later)) (\<lambda>_. sret False))
     else sbind (peek (\<lambda>r. step_context_of base s (wr_outputs r))) (\<lambda>ctx.
       sbind tick (\<lambda>begun.
       let started = we_clock env begun in
       sbind (upd (\<lambda>r. r\<lparr>wr_calls := wr_calls r @ [(ws_step_id s, ctx)]\<rparr>)) (\<lambda>_.
       settle_step env s later started (we_executor env begun s ctx))))))"

fun run_steps :: "workflow_env \<Rightarrow> step_context \<Rightarrow> workflow_step list \<Rightarrow> unit run_op" where
  "run_steps env base [] = sret ()"
| "run_steps env base (s # later) =
     sbind (peek wr_failure) (\<lambda>failure.
     if failure \<noteq> None then sbind (add_result (skipped s)) (\<lambda>_. run_steps env base later)
     else sbind (run_step env base s later) (\<lambda>go. if go then run_steps env base later else sret ()))"

definition fresh_run :: workflow_run where
  "fresh_run = \<lparr>wr_results = [], wr_outputs = [], wr_failure = None, wr_cancelled = False, wr_now = 1, wr_calls = []\<rparr>"

text \<open>
  The body under \<open>try\<close>: an \<open>Exception\<close> that escapes it is recorded as the failure. The
  result is the run it leaves, or the exception that goes on to the caller.
\<close>

definition workflow_body :: "workflow_env \<Rightarrow> step_context \<Rightarrow> compiled_workflow \<Rightarrow> exn + workflow_run" where
  "workflow_body env base w =
     (case sbind (slift (workflow_order w)) (run_steps env base) fresh_run of
        (Inr _, r) \<Rightarrow> Inr r
      | (Inl e, r) \<Rightarrow> if caught_exception e then Inr (r\<lparr>wr_failure := Some [(''type'', VStr (fst (we_describe env e))),
            (''message'', VStr (take 512 (snd (we_describe env e))))]\<rparr>)
          else Inl e)"

definition run_status :: "workflow_run \<Rightarrow> workflow_status" where
  "run_status r = (if wr_cancelled r then WorkflowCancelled
     else if wr_failure r \<noteq> None then WorkflowFailed else WorkflowSucceeded)"

definition execute_compiled_workflow ::
  "workflow_env \<Rightarrow> step_context option \<Rightarrow> compiled_workflow \<Rightarrow> exn + execution_result" where
  "execute_compiled_workflow env context w =
     ebind (case context of None \<Rightarrow> Inr [] | Some d \<Rightarrow> workflow_mapping d) (\<lambda>base.
     ebind (workflow_body env base w) (\<lambda>r.
     make_execution_result (cw_plan_id w) (cw_fingerprint w) (run_status r) (wr_results r)
       (we_clock env 0) (we_clock env (wr_now r)) (wr_failure r)))"

end
