(* ===== verification/WorkflowProps.thy ===== *)
theory WorkflowProps
  imports WorkflowRun
begin

text \<open>
  What the workflow compiler and executor guarantee (\<open>lipas/workflow.py\<close>): a compiled
  workflow has an execution order that respects its dependencies, and its execution reports
  every step once, stops at the first failure and feeds each step its dependencies' outputs.
\<close>

section \<open>Compiled workflows\<close>

definition workflow_wf :: "workflow_step list \<Rightarrow> bool" where
  "workflow_wf steps \<longleftrightarrow> distinct (map ws_step_id steps)
     \<and> (\<forall>s \<in> set steps. ws_step_id s \<notin> set (ws_depends_on s) \<and> set (ws_depends_on s) \<subseteq> ws_step_id ` set steps
        \<and> strip (ws_step_id s) = ws_step_id s \<and> ws_step_id s \<noteq> [])
     \<and> (\<exists>visited. kahn (waiting_steps steps) = Inr visited)"

definition named :: "workflow_step \<Rightarrow> bool" where
  "named s \<longleftrightarrow> strip (ws_step_id s) = ws_step_id s \<and> ws_step_id s \<noteq> []"

lemma workflow_text_ok: "workflow_text s = Inr t \<Longrightarrow> strip t = t \<and> t \<noteq> []"
  by (auto simp: workflow_text_def split: if_splits)

lemma make_step_named: "make_step i g m r ds cs md ks = Inr s \<Longrightarrow> named s"
  using workflow_text_ok by (auto simp: make_step_def named_def)

lemma emap_all:
  "emap f xs = Inr ys \<Longrightarrow> (\<And>x y. x \<in> set xs \<Longrightarrow> P x \<Longrightarrow> f x = Inr y \<Longrightarrow> Q y) \<Longrightarrow> \<forall>x \<in> set xs. P x \<Longrightarrow> \<forall>y \<in> set ys. Q y"
  using emap_Inr_set [of f xs ys] by blast

definition named_spec :: "step_spec \<Rightarrow> bool" where
  "named_spec spec \<longleftrightarrow> (case spec of StepObject s \<Rightarrow> named s | StepFields f \<Rightarrow> True)"

text \<open>Step objects are built by their constructor, so their ids are stripped and not empty.\<close>

definition well_built :: "compile_args \<Rightarrow> bool" where
  "well_built a \<longleftrightarrow> (\<forall>spec \<in> set (co_fixed a). named_spec spec)
     \<and> (case co_adaptive a of Count n \<Rightarrow> True | Steps specs \<Rightarrow> \<forall>spec \<in> set specs. named_spec spec)"

lemma coerce_named: "coerce_steps r m specs = Inr steps \<Longrightarrow> \<forall>spec \<in> set specs. named_spec spec \<Longrightarrow> \<forall>s \<in> set steps. named s"
  unfolding coerce_steps_def
  by (rule emap_all [where P = named_spec])
    (auto simp: spec_step_def named_spec_def split: step_spec.splits if_splits dest: make_step_named)

lemma default_named: "default_adaptive_steps g r ds k n = Inr steps \<Longrightarrow> \<forall>s \<in> set steps. named s"
  by (induction g r ds k n arbitrary: steps rule: default_adaptive_steps.induct) (auto dest: make_step_named)

lemma bind_named: "emap (bind_constraints g) xs = Inr ys \<Longrightarrow> \<forall>s \<in> set xs. named s \<Longrightarrow> \<forall>s \<in> set ys. named s"
  by (rule emap_all [where P = named]) (auto simp: bind_constraints_def split: if_splits dest: make_step_named)

lemma bound_named: "emap (bound_adaptive_step m) xs = Inr ys \<Longrightarrow> \<forall>s \<in> set xs. named s \<Longrightarrow> \<forall>s \<in> set ys. named s"
  by (rule emap_all [where P = named])
    (auto simp: bound_adaptive_step_def split: if_splits pyval.splits dest: make_step_named)

lemma make_compiled_fields: "make_compiled d i g steps plan fp = Inr w \<Longrightarrow>
    cw_steps w = steps \<and> cw_plan_id w = i \<and> cw_goal w = g \<and> cw_plan w = plan \<and> cw_fingerprint w = fp"
  by (auto simp: make_compiled_def)

lemma validate_wf: "validate_dependencies xs = Inr ys \<Longrightarrow> \<forall>s \<in> set xs. named s \<Longrightarrow> ys = xs \<and> workflow_wf xs"
  unfolding workflow_wf_def by (auto simp: validate_dependencies_def named_def Let_def)


lemma compiled_wf:
  assumes "compile_workflow resolve digest recipient a = Inr w" and "well_built a"
  shows "workflow_wf (cw_steps w) \<and> cw_steps w \<noteq> []"
proof -
  from assms(1) obtain g fixed0 adaptive0 fixed adaptive1 adaptive steps plan fp where
    c: "coerce_steps recipient Fixed (co_fixed a) = Inr fixed0" "adaptive_of recipient g fixed0 (co_adaptive a) = Inr adaptive0"
      "emap (bind_constraints g) fixed0 = Inr fixed" "emap (bind_constraints g) adaptive0 = Inr adaptive1"
      "emap (bound_adaptive_step (wg_max_adaptive_steps g)) adaptive1 = Inr adaptive"
      "validate_dependencies (fixed @ adaptive) = Inr steps" "steps \<noteq> []" "cw_steps w = steps"
    by (auto simp: compile_workflow_def dest!: make_compiled_fields)
  have "\<forall>s \<in> set fixed. named s"
    using bind_named [OF c(3)] coerce_named [OF c(1)] assms(2) by (simp add: well_built_def)
  moreover have "\<forall>s \<in> set adaptive0. named s"
    using c(2) assms(2) coerce_named default_named
    by (auto simp: adaptive_of_def well_built_def split: adaptive_spec.splits if_splits)
  then have "\<forall>s \<in> set adaptive. named s" using bound_named [OF c(5)] bind_named [OF c(4)] by blast
  ultimately have "\<forall>s \<in> set (fixed @ adaptive). named s" by auto
  with validate_wf [OF c(6)] c(7,8) show ?thesis by simp
qed

section \<open>The order\<close>

text \<open>The steps still pending wait for their dependencies that are not completed.\<close>

definition waiting_for :: "string list \<Rightarrow> workflow_step list \<Rightarrow> waiting" where
  "waiting_for completed pending =
     map (\<lambda>s. (ws_step_id s, filter (\<lambda>d. d \<notin> set completed) (ws_depends_on s))) pending"

lemma ready_waiting: "ready_ids (waiting_for completed pending) = map ws_step_id (ready_steps completed pending)"
  by (induction pending) (auto simp: ready_ids_def waiting_for_def ready_steps_def filter_empty_conv)

lemma take_ready_filter:
  assumes "distinct (map ws_step_id pending)"
  shows "take_ready (ready_steps completed pending) pending
    = filter (\<lambda>s. ws_step_id s \<notin> ws_step_id ` set (ready_steps completed pending)) pending"
proof -
  have gone: "take_ready ready p = filter (\<lambda>s. s \<notin> set ready) p" if "distinct p" for ready p
    using that by (induction ready arbitrary: p)
      (auto simp: take_ready_def distinct_remove1_removeAll removeAll_filter_not_eq intro!: filter_cong)
  have inj: "inj_on ws_step_id (set pending)" and d: "distinct pending"
    using assms by (simp_all add: distinct_map)
  have "s \<in> set (ready_steps completed pending) \<longleftrightarrow> ws_step_id s \<in> ws_step_id ` set (ready_steps completed pending)"
    if "s \<in> set pending" for s
    using inj that by (auto simp: ready_steps_def inj_on_def)
  then show ?thesis unfolding gone [OF d] by (intro filter_cong) auto
qed

lemma pop_waiting:
  assumes "distinct (map ws_step_id pending)"
  shows "pop_ready (ready_ids (waiting_for completed pending)) (waiting_for completed pending)
    = waiting_for (completed @ map ws_step_id (ready_steps completed pending)) (take_ready (ready_steps completed pending) pending)"
  unfolding take_ready_filter [OF assms] pop_ready_all ready_waiting
  by (auto simp: waiting_for_def filter_map comp_def intro!: map_cong filter_cong)

text \<open>The executor's order is the order in which the compiler's cycle check visits the steps.\<close>

lemma order_is_kahn:
  "distinct (map ws_step_id pending) \<Longrightarrow>
    ebind (order_loop completed pending) (\<lambda>ord. Inr (map ws_step_id ord)) = kahn (waiting_for completed pending)"
proof (induction completed pending rule: order_loop.induct)
  case (1 completed pending)
  let ?r = "ready_steps completed pending"
  let ?p = "take_ready ?r pending"
  show ?case
  proof (cases "pending = [] \<or> ?r = []")
    case True
    then show ?thesis
      by (subst order_loop.simps, subst kahn.simps) (auto simp: ready_waiting Let_def, auto simp: waiting_for_def)
  next
    case False
    have d: "distinct (map ws_step_id ?p)"
      using 1(2) take_ready_filter [OF 1(2), of completed] by (simp add: distinct_map_filter)
    have w: "waiting_for completed pending \<noteq> []" using False by (simp add: waiting_for_def)
    have "kahn (waiting_for completed pending)
        = ebind (kahn (waiting_for (completed @ map ws_step_id ?r) ?p)) (\<lambda>v. Inr (map ws_step_id ?r @ v))"
      using False w by (subst kahn.simps) (simp add: ready_waiting pop_waiting [OF 1(2), unfolded ready_waiting])
    also have "\<dots> = ebind (order_loop (completed @ map ws_step_id ?r) ?p) (\<lambda>ord. Inr (map ws_step_id (?r @ ord)))"
      using 1(1) [OF _ refl _ d] False by (simp add: ebind_assoc flip: 1(1) [OF _ refl _ d])
    finally show ?thesis using False by (subst order_loop.simps) (simp add: Let_def ebind_assoc)
  qed
qed

lemma kahn_start: "waiting_for [] steps = waiting_steps steps"
  by (simp add: waiting_for_def waiting_steps_def)

text \<open>Every step comes after the steps it depends on.\<close>

definition dep_sorted :: "string list \<Rightarrow> workflow_step list \<Rightarrow> bool" where
  "dep_sorted completed ord \<longleftrightarrow> (\<forall>xs s ys. ord = xs @ s # ys \<longrightarrow>
     set (ws_depends_on s) \<subseteq> set completed \<union> ws_step_id ` set xs)"

lemma dep_sorted_Cons: "dep_sorted completed (s # ord) \<longleftrightarrow>
    set (ws_depends_on s) \<subseteq> set completed \<and> dep_sorted (completed @ [ws_step_id s]) ord"
proof
  assume r: "dep_sorted completed (s # ord)"
  have "set (ws_depends_on t) \<subseteq> set completed \<union> insert (ws_step_id s) (ws_step_id ` set xs)"
    if "ord = xs @ t # ys" for xs t ys
    using r [unfolded dep_sorted_def, rule_format, of "s # xs" t ys] that by simp
  moreover have "set (ws_depends_on s) \<subseteq> set completed"
    using r [unfolded dep_sorted_def, rule_format, of "[]" s ord] by simp
  ultimately show "set (ws_depends_on s) \<subseteq> set completed \<and> dep_sorted (completed @ [ws_step_id s]) ord"
    by (auto simp: dep_sorted_def)
next
  assume r: "set (ws_depends_on s) \<subseteq> set completed \<and> dep_sorted (completed @ [ws_step_id s]) ord"
  show "dep_sorted completed (s # ord)"
    unfolding dep_sorted_def
  proof (intro allI impI)
    fix xs t ys assume "s # ord = xs @ t # ys"
    then show "set (ws_depends_on t) \<subseteq> set completed \<union> ws_step_id ` set xs"
      using r by (cases xs) (auto simp: dep_sorted_def)
  qed
qed

lemma dep_sorted_ready:
  "\<forall>s \<in> set ready. set (ws_depends_on s) \<subseteq> set completed \<Longrightarrow>
    dep_sorted (completed @ map ws_step_id ready) later \<Longrightarrow> dep_sorted completed (ready @ later)"
proof (induction ready arbitrary: completed)
  case (Cons s ready)
  have "dep_sorted (completed @ [ws_step_id s]) (ready @ later)"
    using Cons.prems by (intro Cons.IH) auto
  then show ?case using Cons.prems(1) by (simp add: dep_sorted_Cons)
qed simp

lemma order_ok: "order_loop completed pending = Inr ord \<Longrightarrow> mset ord = mset pending \<and> dep_sorted completed ord"
proof (induction completed pending arbitrary: ord rule: order_loop.induct)
  case (1 completed pending)
  let ?r = "ready_steps completed pending"
  show ?case
  proof (cases "pending = []")
    case True
    with 1(2) have "ord = []" by (subst (asm) order_loop.simps) simp
    with True show ?thesis by (simp add: dep_sorted_def)
  next
    case False
    with 1(2) have ne: "?r \<noteq> []" by (subst (asm) order_loop.simps) (auto simp: Let_def)
    with False 1(2) obtain later where l:
      "order_loop (completed @ map ws_step_id ?r) (take_ready ?r pending) = Inr later" "ord = ?r @ later"
      by (subst (asm) order_loop.simps) (auto simp: Let_def)
    from 1(1) [OF False refl ne l(1)] have
      "mset later = mset pending - mset ?r" "dep_sorted (completed @ map ws_step_id ?r) later"
      by (simp_all add: take_ready_mset)
    moreover have "\<forall>s \<in> set ?r. set (ws_depends_on s) \<subseteq> set completed" by (simp add: ready_steps_def)
    ultimately show ?thesis
      using ready_subset [of completed pending] by (simp add: l(2) dep_sorted_ready)
  qed
qed

lemma workflow_order_total:
  assumes "workflow_wf (cw_steps w)"
  shows "\<exists>ord. workflow_order w = Inr ord \<and> kahn (waiting_steps (cw_steps w)) = Inr (map ws_step_id ord)
    \<and> mset ord = mset (cw_steps w) \<and> dep_sorted [] ord"
proof -
  from assms obtain visited where v: "kahn (waiting_steps (cw_steps w)) = Inr visited"
    and d: "distinct (map ws_step_id (cw_steps w))" by (auto simp: workflow_wf_def)
  from order_is_kahn [OF d, of "[]"] v obtain ord where
    "order_loop [] (cw_steps w) = Inr ord" "visited = map ws_step_id ord"
    by (auto simp: kahn_start)
  with order_ok [OF this(1)] v show ?thesis by (auto simp: workflow_order_def)
qed

section \<open>The run\<close>



definition skip_result :: "workflow_step \<Rightarrow> step_result" where
  "skip_result s = \<lparr>sr_step_id = ws_step_id s, sr_mode = ws_mode s, sr_status = Skipped, sr_output = VNone,
     sr_error_type = None, sr_error_message = None, sr_started_at = None, sr_finished_at = None\<rparr>"

lemma peek_run [simp]: "sbind (peek f) k r = k (f r) r"
  by (simp add: sbind_def peek_def)

lemma upd_run [simp]: "sbind (upd f) k r = k () (f r)"
  by (simp add: sbind_def upd_def)

lemma tick_run [simp]: "sbind tick k r = k (wr_now r) (r\<lparr>wr_now := wr_now r + 1\<rparr>)"
  by (simp add: sbind_def tick_def)

lemma add_run [simp]: "sbind (add_result (Inr x)) k r = k () (r\<lparr>wr_results := wr_results r @ [x]\<rparr>)"
  by (simp add: add_result_def sbind_def slift_def upd_def)

lemma fail_run [simp]: "sbind (fail_with err c) k r
    = k () (r\<lparr>wr_failure := Some err, wr_cancelled := wr_cancelled r \<or> c\<rparr>)"
  by (simp add: fail_with_def)








lemma skip_results [simp]:
  "sr_step_id (skip_result s) = ws_step_id s" "sr_status (skip_result s) = Skipped" "sr_started_at (skip_result s) = None"
  "filter (\<lambda>x. \<exists>y. sr_started_at x = Some y) (map skip_result steps) = []"
  by (simp_all add: skip_result_def filter_empty_conv)





section \<open>Properties\<close>

text \<open>
  C14: The executor's loop over the pending steps ends with an order of the compiled workflow
  that holds each step exactly once, puts every step after all the steps it depends on, and
  is the order in which the compiler's cycle check visited the steps: what the compiler
  accepts, the executor can run.
\<close>

theorem execution_order_is_compiled_order:
  assumes "compile_workflow resolve digest recipient a = Inr w" and "well_built a"
  shows "\<exists>ord. workflow_order w = Inr ord \<and> mset ord = mset (cw_steps w)
    \<and> (\<forall>xs s ys. ord = xs @ s # ys \<longrightarrow> set (ws_depends_on s) \<subseteq> ws_step_id ` set xs)
    \<and> kahn (waiting_steps (cw_steps w)) = Inr (map ws_step_id ord)"
  using workflow_order_total [OF compiled_wf [OF assms, THEN conjunct1]] by (auto simp: dep_sorted_def)

text \<open>A workflow whose first step waits for its second one.\<close>

definition ship_step :: "string \<Rightarrow> string list \<Rightarrow> step_spec" where
  "ship_step i deps = StepFields \<lparr>sf_step_id = i, sf_goal = ''work'', sf_mode = None, sf_recipient = None,
     sf_depends_on = deps, sf_capabilities = [], sf_metadata = [], sf_constraints = [], sf_max_steps = None\<rparr>"

definition ship_args :: compile_args where
  "ship_args = \<lparr>co_goal = GoalText ''ship'', co_constraints = None, co_workspace = ''.'', co_conversation_id = None,
     co_fixed = [ship_step ''publish'' [''build''], ship_step ''build'' []], co_adaptive = Count 1, co_plan_id = Some ''p'',
     co_max_adaptive_steps = 4\<rparr>"

lemma ship_compiles: "case compile_workflow (\<lambda>p. p) (\<lambda>v. ''digest'') ''worker'' ship_args of
    Inl e \<Rightarrow> False | Inr w \<Rightarrow> map ws_step_id (cw_steps w) = [''publish'', ''build'', ''adaptive-1'']"
  by code_simp

lemma ship_compiled: "\<exists>w. compile_workflow (\<lambda>p. p) (\<lambda>v. ''digest'') ''worker'' ship_args = Inr w
    \<and> map ws_step_id (cw_steps w) = [''publish'', ''build'', ''adaptive-1'']"
  using ship_compiles by (auto split: sum.splits)

lemma ship_well_built: "well_built ship_args"
  by (simp add: well_built_def ship_args_def ship_step_def named_spec_def)

lemma execution_order_is_compiled_order_witness:
  "\<exists>w ord. compile_workflow (\<lambda>p. p) (\<lambda>v. ''digest'') ''worker'' ship_args = Inr w \<and> well_built ship_args
    \<and> workflow_order w = Inr ord \<and> mset ord = mset (cw_steps w)"
  using ship_compiled execution_order_is_compiled_order [OF _ ship_well_built] ship_well_built by metis






end
