(* ===== verification/Spec2Isabelle.thy ===== *)
theory Spec2Isabelle
  imports BuiltinsProps ExecutionFacts MailboxProps OperationsProps PolicyProps RetryProps SqliteProps SqliteTapeProps SupervisorProps ToolHarnessProps WorkflowProps
begin

text \<open>
  A model of the core of LIPAS in definitions translated from its Python sources.
\<close>

end
